(* ===== verification/Prelude.thy ===== *)
theory Prelude
  imports Main "HOL-Library.Word"
begin

text \<open>
  Shared vocabulary of the development. Bytes are 8-bit words. A \<^verbatim>\<open>uint64_t\<close> or
  \<^verbatim>\<open>size_t\<close> is a natural number whose additions and subtractions are written with
  their wrap-around (\<^verbatim>\<open>add64\<close>, \<^verbatim>\<open>sub64\<close>), and the overflow test of the code is the
  macro \<^verbatim>\<open>CHECK_UINT_OVERFLOW_SUM\<close> as it is written. A read or write outside a buffer,
  which C++ leaves undefined, is the value None of an option.
\<close>

named_theorems u64_simps \<open>wrap-around arithmetic of uint64_t in the absence of overflow\<close>
named_theorems bytes_simps \<open>slices of byte lists\<close>

subsection \<open>64-bit unsigned arithmetic\<close>

type_synonym byte = "8 word"

definition u64_mod :: nat where
  "u64_mod = 2 ^ 64"

text \<open>\<^verbatim>\<open>std::numeric_limits<uint64_t>::max()\<close>, which is also \<^verbatim>\<open>MAX_SIZE_T\<close>.\<close>

definition u64_max :: nat where
  "u64_max = u64_mod - 1"

definition add64 :: "nat \<Rightarrow> nat \<Rightarrow> nat" where
  "add64 a b = (a + b) mod u64_mod"

definition sub64 :: "nat \<Rightarrow> nat \<Rightarrow> nat" where
  "sub64 a b = (a + (u64_mod - b)) mod u64_mod"

definition overflow_sum :: "nat \<Rightarrow> nat \<Rightarrow> bool" where
  "overflow_sum a b \<longleftrightarrow> add64 a b < a \<or> add64 a b < b"

definition KB_MULT :: nat where
  "KB_MULT = 1024"

lemma u64_mod_pos [simp]: "0 < u64_mod"
  by (simp add: u64_mod_def)

lemma u64_max_less [simp]: "u64_max < u64_mod"
  by (simp add: u64_max_def)

lemma less_u64_mod_iff: "n < u64_mod \<longleftrightarrow> n \<le> u64_max"
  using u64_mod_pos unfolding u64_max_def by linarith

lemma add64_less [simp]: "add64 a b < u64_mod"
  by (simp add: add64_def)

lemma sub64_less [simp]: "sub64 a b < u64_mod"
  by (simp add: sub64_def)

lemma add64_eq [u64_simps]: "a + b < u64_mod \<Longrightarrow> add64 a b = a + b"
  by (simp add: add64_def)

lemma add64_0 [simp]: "a < u64_mod \<Longrightarrow> add64 a 0 = a" "a < u64_mod \<Longrightarrow> add64 0 a = a"
  by (simp_all add: add64_def)

lemma sub64_eq [u64_simps]: "b \<le> a \<Longrightarrow> a < u64_mod \<Longrightarrow> sub64 a b = a - b"
proof -
  assume "b \<le> a" "a < u64_mod"
  then have "a + (u64_mod - b) = (a - b) + u64_mod" by linarith
  then have "sub64 a b = ((a - b) + u64_mod) mod u64_mod" by (simp only: sub64_def)
  also have "\<dots> = a - b" using \<open>a < u64_mod\<close> by simp
  finally show ?thesis .
qed

lemma sub64_wrap: "a < b \<Longrightarrow> b < u64_mod \<Longrightarrow> sub64 a b = u64_mod - (b - a)"
  by (simp add: sub64_def)

lemma add64_wrap: "a < u64_mod \<Longrightarrow> b < u64_mod \<Longrightarrow> u64_mod \<le> a + b \<Longrightarrow> add64 a b = a + b - u64_mod"
  by (simp add: add64_def mod_if)

text \<open>The overflow macro detects exactly the sums that do not fit in 64 bits.\<close>

lemma overflow_sum_iff:
  assumes "a < u64_mod" "b < u64_mod"
  shows "overflow_sum a b \<longleftrightarrow> u64_mod \<le> a + b"
proof (cases "u64_mod \<le> a + b")
  case True
  with assms have "add64 a b = a + b - u64_mod" by (rule add64_wrap)
  moreover from assms True have "a + b - u64_mod < a" by linarith
  ultimately show ?thesis using True by (simp add: overflow_sum_def)
next
  case False
  then have "add64 a b = a + b" by (simp add: add64_eq)
  with False show ?thesis by (simp add: overflow_sum_def)
qed

lemma no_overflow_sum [u64_simps]: "a + b < u64_mod \<Longrightarrow> \<not> overflow_sum a b"
  by (simp add: overflow_sum_def add64_eq)

lemma no_overflow_sumD:
  "\<not> overflow_sum a b \<Longrightarrow> a < u64_mod \<Longrightarrow> b < u64_mod \<Longrightarrow> a + b < u64_mod"
  by (simp add: overflow_sum_iff)

subsection \<open>Slices of byte lists\<close>

definition segment :: "nat \<Rightarrow> nat \<Rightarrow> 'a list \<Rightarrow> 'a list" where
  "segment off n xs = take n (drop off xs)"

lemma length_segment [bytes_simps]: "off + n \<le> length xs \<Longrightarrow> length (segment off n xs) = n"
  by (simp add: segment_def)

lemma segment_0 [simp]: "segment off 0 xs = []"
  by (simp add: segment_def)

lemma segment_full [bytes_simps]: "n = length xs \<Longrightarrow> segment 0 n xs = xs"
  by (simp add: segment_def)

lemma segment_add [bytes_simps]: "segment off (m + n) xs = segment off m xs @ segment (off + m) n xs"
  by (simp add: segment_def take_add add.commute)

lemma segment_append_left [bytes_simps]:
  "off + n \<le> length xs \<Longrightarrow> segment off n (xs @ ys) = segment off n xs"
  by (simp add: segment_def)

lemma segment_append_right [bytes_simps]:
  "length xs \<le> off \<Longrightarrow> segment off n (xs @ ys) = segment (off - length xs) n ys"
  by (simp add: segment_def)

lemma segment_append_mid:
  "off \<le> length xs \<Longrightarrow> length xs \<le> off + n \<Longrightarrow>
   segment off n (xs @ ys) = drop off xs @ take (off + n - length xs) ys"
  by (simp add: segment_def add.commute)

lemma nth_segment: "i < n \<Longrightarrow> off + n \<le> length xs \<Longrightarrow> segment off n xs ! i = xs ! (off + i)"
  by (simp add: segment_def)

lemma segment_Cons_nth:
  "i < length xs \<Longrightarrow> 0 < n \<Longrightarrow> segment i n xs = xs ! i # segment (Suc i) (n - 1) xs"
  by (simp add: segment_def take_Cons' flip: Cons_nth_drop_Suc)

lemma segment_take: "off + n \<le> k \<Longrightarrow> segment off n (take k xs) = segment off n xs"
  by (auto simp: segment_def drop_take min_def)

lemma segment_segment: "a + n \<le> m \<Longrightarrow> segment a n (segment b m xs) = segment (b + a) n xs"
  by (simp add: segment_def drop_take min_def add.commute)

subsection \<open>ASCII case\<close>

text \<open>\<^verbatim>\<open>std::tolower\<close> and \<^verbatim>\<open>std::toupper\<close> in the C locale, on unsigned bytes.\<close>

definition to_lower :: "byte \<Rightarrow> byte" where
  "to_lower c = (if 65 \<le> c \<and> c \<le> 90 then c + 32 else c)"

definition to_upper :: "byte \<Rightarrow> byte" where
  "to_upper c = (if 97 \<le> c \<and> c \<le> 122 then c - 32 else c)"

definition is_alpha :: "byte \<Rightarrow> bool" where
  "is_alpha c \<longleftrightarrow> 65 \<le> c \<and> c \<le> 90 \<or> 97 \<le> c \<and> c \<le> 122"

lemma to_lower_eq_cases:
  assumes "to_lower x = to_lower c"
  shows "x = to_upper c \<or> x = to_lower c"
proof (cases "65 \<le> x \<and> x \<le> 90")
  case False
  then have "to_lower x = x" by (simp add: to_lower_def)
  with assms show ?thesis by simp
next
  case x: True
  then have l: "to_lower x = x + 32" by (simp add: to_lower_def)
  show ?thesis
  proof (cases "65 \<le> c \<and> c \<le> 90")
    case True
    then have "x = c" using assms l by (simp add: to_lower_def)
    moreover have "\<not> 97 \<le> c" using True by (simp add: word_le_nat_alt)
    ultimately show ?thesis by (simp add: to_upper_def)
  next
    case False
    then have "to_lower c = c" by (simp only: to_lower_def if_False)
    with assms l have c: "c = x + 32" by simp
    have "unat (x + 32) = unat x + 32"
      using x by (subst unat_add_lem [THEN iffD1]) (simp_all add: word_le_nat_alt)
    then have "97 \<le> c \<and> c \<le> 122" using c x by (simp add: word_le_nat_alt)
    with c show ?thesis by (simp add: to_upper_def)
  qed
qed

text \<open>Two bytes are equal when their eight bits are.\<close>

lemma byte_eqI:
  assumes "bit (a::byte) 0 = bit b 0" "bit a 1 = bit b 1" "bit a 2 = bit b 2" "bit a 3 = bit b 3"
    "bit a 4 = bit b 4" "bit a 5 = bit b 5" "bit a 6 = bit b 6" "bit a 7 = bit b 7"
  shows "a = b"
proof (rule bit_word_eqI)
  fix n assume "n < LENGTH(8)"
  then have "n = 0 \<or> n = 1 \<or> n = 2 \<or> n = 3 \<or> n = 4 \<or> n = 5 \<or> n = 6 \<or> n = 7" by auto
  with assms show "bit a n = bit b n" by blast
qed

text \<open>A statement about all bytes is a statement about 256 values.\<close>

lemma all_byte_iff: "(\<forall>c::byte. P c) \<longleftrightarrow> (\<forall>n\<in>set [0..<256]. P (word_of_nat n))"
proof
  assume r: "\<forall>n\<in>set [0..<256]. P (word_of_nat n)"
  show "\<forall>c::byte. P c"
  proof
    fix c :: byte
    have "unat c < 2 ^ LENGTH(8)" by (rule unsigned_less)
    then have "unat c \<in> set [0..<256]" by simp
    with r have "P (word_of_nat (unat c))" by blast
    then show "P c" by simp
  qed
qed auto

end
