(* ===== verification/Mem.thy ===== *)
theory Mem
  imports Prelude
begin

text \<open>
  \<^verbatim>\<open>Helpers/mdz_hlp_functions/mem.cpp\<close>: comparison, copy and move of memory, 64 KB at a
  time, and the growable byte buffer \<^verbatim>\<open>xBinContainer\<close>. A buffer is the list of bytes that
  may be touched through the pointer; touching a byte outside it is None.
\<close>

subsection \<open>Definitions\<close>

definition cmpMatrix :: "byte list" where
  "cmpMatrix = map word_of_nat
     ([0..<65] @ [97..<123] @ [91..<97] @ [97..<123] @ [123..<256])"

definition icharcmp :: "byte \<Rightarrow> byte \<Rightarrow> bool" where
  "icharcmp c1 c2 \<longleftrightarrow> cmpMatrix ! unat c1 = cmpMatrix ! unat c2"

text \<open>The C library's \<^verbatim>\<open>memcmp\<close>, \<^verbatim>\<open>memcpy\<close> and \<^verbatim>\<open>memmove\<close>; of the result of \<^verbatim>\<open>memcmp\<close> only the
  sign is specified.\<close>

fun c_memcmp :: "byte list \<Rightarrow> byte list \<Rightarrow> int" where
  "c_memcmp (a # as) (b # bs) = (if a < b then -1 else if b < a then 1 else c_memcmp as bs)"
| "c_memcmp _ _ = 0"

definition memcmp_at :: "byte list \<Rightarrow> byte list \<Rightarrow> nat \<Rightarrow> nat \<Rightarrow> int option" where
  "memcmp_at s1 s2 off n =
     (if off + n \<le> length s1 \<and> off + n \<le> length s2
      then Some (c_memcmp (segment off n s1) (segment off n s2)) else None)"

definition memcpy_at :: "byte list \<Rightarrow> byte list \<Rightarrow> nat \<Rightarrow> nat \<Rightarrow> byte list option" where
  "memcpy_at dest src off n =
     (if off + n \<le> length dest \<and> off + n \<le> length src
      then Some (take off dest @ segment off n src @ drop (off + n) dest) else None)"

definition memmove_at :: "byte list \<Rightarrow> nat \<Rightarrow> nat \<Rightarrow> nat \<Rightarrow> byte list option" where
  "memmove_at m d s n =
     (if d + n \<le> length m \<and> s + n \<le> length m
      then Some (take d m @ segment s n m @ drop (d + n) m) else None)"

text \<open>The block size of \<^verbatim>\<open>memcmp64\<close> is computed once, in the loop's initialisation.\<close>

partial_function (option) memcmp64_loop ::
  "byte list \<Rightarrow> byte list \<Rightarrow> nat \<Rightarrow> nat \<Rightarrow> nat \<Rightarrow> int option" where
  "memcmp64_loop s1 s2 curBlock curOffset n =
     (if n = 0 then Some 0
      else case memcmp_at s1 s2 curOffset curBlock of
          None \<Rightarrow> None
        | Some v \<Rightarrow> if v \<noteq> 0 then Some v
            else memcmp64_loop s1 s2 curBlock (curOffset + curBlock) (sub64 n curBlock))"

definition memcmp64 :: "byte list \<Rightarrow> byte list \<Rightarrow> nat \<Rightarrow> int option" where
  "memcmp64 s1 s2 n =
     memcmp64_loop s1 s2 (if n > 64 * KB_MULT then 64 * KB_MULT else n) 0 n"

function memicmp_loop :: "byte list \<Rightarrow> byte list \<Rightarrow> nat \<Rightarrow> nat \<Rightarrow> int option" where
  "memicmp_loop s1 s2 i n =
     (if i < n then
        (if i < length s1 \<and> i < length s2
         then (if icharcmp (s1 ! i) (s2 ! i) then memicmp_loop s1 s2 (Suc i) n else Some (-1))
         else None)
      else Some 0)"
  by pat_completeness auto
termination
  by (relation "measure (\<lambda>(s1, s2, i, n). n - i)") auto

declare memicmp_loop.simps [simp del]

definition memicmp2 :: "byte list \<Rightarrow> byte list \<Rightarrow> nat \<Rightarrow> bool \<Rightarrow> int option" where
  "memicmp2 s1 s2 n caseSensitive =
     (if caseSensitive then memcmp64 s1 s2 n else memicmp_loop s1 s2 0 n)"

function memcpy64_loop :: "byte list \<Rightarrow> byte list \<Rightarrow> nat \<Rightarrow> nat \<Rightarrow> byte list option" where
  "memcpy64_loop dest src curOffset n =
     (if n = 0 then Some dest
      else let curBlock = (if n > 64 * KB_MULT then 64 * KB_MULT else n) in
        case memcpy_at dest src curOffset curBlock of
          None \<Rightarrow> None
        | Some dest' \<Rightarrow> memcpy64_loop dest' src (curOffset + curBlock) (n - curBlock))"
  by pat_completeness auto
termination
  by (relation "measure (\<lambda>(dest, src, off, n). n)") (auto simp: KB_MULT_def)

declare memcpy64_loop.simps [simp del]

definition memcpy64 :: "byte list \<Rightarrow> byte list \<Rightarrow> nat \<Rightarrow> byte list option" where
  "memcpy64 dest src n = memcpy64_loop dest src 0 n"

text \<open>\<^verbatim>\<open>memmove64\<close> moves inside one memory: from the last block when the destination is
  above the source, from the first one when it is below. The pointer \<^verbatim>\<open>dest + n - curBlock\<close>
  may fall below the buffer.\<close>

partial_function (option) memmove64_down ::
  "byte list \<Rightarrow> nat \<Rightarrow> nat \<Rightarrow> nat \<Rightarrow> nat \<Rightarrow> byte list option" where
  "memmove64_down m d s curBlock n =
     (if n = 0 then Some m
      else if d + n < curBlock \<or> s + n < curBlock then None
      else case memmove_at m (d + n - curBlock) (s + n - curBlock) curBlock of
          None \<Rightarrow> None
        | Some m' \<Rightarrow> memmove64_down m' d s curBlock (sub64 n curBlock))"

partial_function (option) memmove64_up ::
  "byte list \<Rightarrow> nat \<Rightarrow> nat \<Rightarrow> nat \<Rightarrow> nat \<Rightarrow> nat \<Rightarrow> byte list option" where
  "memmove64_up m d s curBlock curOffset n =
     (if n = 0 then Some m
      else case memmove_at m (d + curOffset) (s + curOffset) curBlock of
          None \<Rightarrow> None
        | Some m' \<Rightarrow> memmove64_up m' d s curBlock (curOffset + curBlock) (sub64 n curBlock))"

definition memmove64 :: "byte list \<Rightarrow> nat \<Rightarrow> nat \<Rightarrow> nat \<Rightarrow> byte list option" where
  "memmove64 m dest src n =
     (let curBlock = (if n > 64 * KB_MULT then 64 * KB_MULT else n) in
      if dest > src then memmove64_down m dest src curBlock n
      else if dest < src then memmove64_up m dest src curBlock 0 n
      else Some m)"

record xBinContainer =
  xb_data :: "byte list option"
  xb_usedSize :: nat
  xb_containerLength :: nat

text \<open>\<^verbatim>\<open>malloc\<close> may fail: its outcome is an argument of the constructors.\<close>

definition xBinContainer_copy :: "bool \<Rightarrow> byte list \<Rightarrow> xBinContainer" where
  "xBinContainer_copy malloc_ok d =
     (if length d \<noteq> 0 \<and> malloc_ok
      then \<lparr>xb_data = Some d, xb_usedSize = length d, xb_containerLength = length d\<rparr>
      else \<lparr>xb_data = None, xb_usedSize = 0, xb_containerLength = 0\<rparr>)"

definition xBinContainer_new :: "bool \<Rightarrow> nat \<Rightarrow> xBinContainer" where
  "xBinContainer_new malloc_ok len =
     (if len \<noteq> 0 \<and> malloc_ok
      then \<lparr>xb_data = Some (replicate len 0), xb_usedSize = 0, xb_containerLength = len\<rparr>
      else \<lparr>xb_data = None, xb_usedSize = 0, xb_containerLength = 0\<rparr>)"

definition xBinContainer_push :: "xBinContainer \<Rightarrow> byte \<Rightarrow> xBinContainer" where
  "xBinContainer_push b c =
     (if xb_usedSize b = xb_containerLength b then b
      else b\<lparr>xb_data := map_option (\<lambda>d. d[xb_usedSize b := c]) (xb_data b),
             xb_usedSize := xb_usedSize b + 1\<rparr>)"

definition xBinContainer_toString :: "xBinContainer \<Rightarrow> byte list" where
  "xBinContainer_toString b = (case xb_data b of None \<Rightarrow> [] | Some d \<Rightarrow> take (xb_usedSize b) d)"

subsection \<open>Case-insensitive comparison\<close>

lemma length_cmpMatrix [simp]: "length cmpMatrix = 256"
  by (simp add: cmpMatrix_def)

lemma cmpMatrix_nth: "cmpMatrix ! unat c = to_lower c"
proof -
  have lt: "unat c < 256" using unsigned_less [of c] by simp
  have le: "65 \<le> c \<longleftrightarrow> 65 \<le> unat c" "c \<le> 90 \<longleftrightarrow> unat c \<le> 90"
    by (simp_all add: word_le_nat_alt)
  have "c + 32 = word_of_nat (unat c + 32)" by simp
  with lt show ?thesis
    by (auto simp: cmpMatrix_def nth_append to_lower_def le nth_map simp del: upt_rec_numeral)
qed

lemma icharcmp_iff: "icharcmp c1 c2 \<longleftrightarrow> to_lower c1 = to_lower c2"
  by (simp add: icharcmp_def cmpMatrix_nth)

definition same_nocase :: "byte list \<Rightarrow> byte list \<Rightarrow> bool" where
  "same_nocase xs ys \<longleftrightarrow> map to_lower xs = map to_lower ys"

lemma memicmp_loop_eq:
  "n \<le> length s1 \<Longrightarrow> n \<le> length s2 \<Longrightarrow>
   memicmp_loop s1 s2 i n =
     Some (if same_nocase (segment i (n - i) s1) (segment i (n - i) s2) then 0 else -1)"
proof (induction s1 s2 i n rule: memicmp_loop.induct)
  case (1 s1 s2 i n)
  show ?case
  proof (cases "i < n")
    case True
    with 1 have "segment i (n - i) s1 = s1 ! i # segment (Suc i) (n - Suc i) s1"
      "segment i (n - i) s2 = s2 ! i # segment (Suc i) (n - Suc i) s2"
      by (simp_all add: segment_Cons_nth)
    with 1 True show ?thesis
      by (auto simp: memicmp_loop.simps [of s1 s2 i n] same_nocase_def icharcmp_iff)
  next
    case False
    then show ?thesis by (simp add: memicmp_loop.simps same_nocase_def)
  qed
qed

lemma memicmp2_nocase:
  "n \<le> length s1 \<Longrightarrow> n \<le> length s2 \<Longrightarrow>
   memicmp2 s1 s2 n False = Some (if same_nocase (take n s1) (take n s2) then 0 else -1)"
  using memicmp_loop_eq [of n s1 s2 0] by (simp add: memicmp2_def segment_def)

subsection \<open>Comparison in blocks\<close>

lemma c_memcmp_eq_0_iff: "length xs = length ys \<Longrightarrow> c_memcmp xs ys = 0 \<longleftrightarrow> xs = ys"
  by (induction xs ys rule: c_memcmp.induct) auto

lemma c_memcmp_refl [simp]: "c_memcmp xs xs = 0"
  by (simp add: c_memcmp_eq_0_iff)

lemma c_memcmp_append:
  "length xs = length ys \<Longrightarrow>
   c_memcmp (xs @ xs') (ys @ ys') = (if c_memcmp xs ys \<noteq> 0 then c_memcmp xs ys else c_memcmp xs' ys')"
  by (induction xs ys rule: c_memcmp.induct) auto

lemma c_memcmp_segment_add:
  assumes "off + a + b \<le> length s1" "off + a + b \<le> length s2"
  shows "c_memcmp (segment off (a + b) s1) (segment off (a + b) s2) =
    (let v = c_memcmp (segment off a s1) (segment off a s2) in
     if v \<noteq> 0 then v else c_memcmp (segment (off + a) b s1) (segment (off + a) b s2))"
  using assms by (simp add: segment_add c_memcmp_append length_segment Let_def)

text \<open>When the block size divides the length, the loop is one comparison of the whole range.\<close>

lemma memcmp64_loop_dvd:
  "off + k * c \<le> length s1 \<Longrightarrow> off + k * c \<le> length s2 \<Longrightarrow> k * c < u64_mod \<Longrightarrow> 0 < c \<Longrightarrow>
   memcmp64_loop s1 s2 c off (k * c) = Some (c_memcmp (segment off (k * c) s1) (segment off (k * c) s2))"
proof (induction k arbitrary: off)
  case 0
  then show ?case by (simp add: memcmp64_loop.simps)
next
  case (Suc k)
  have "sub64 (c + k * c) c = k * c" using Suc.prems by (simp add: sub64_eq)
  moreover have "memcmp_at s1 s2 off c = Some (c_memcmp (segment off c s1) (segment off c s2))"
    using Suc.prems by (simp add: memcmp_at_def)
  ultimately show ?case
    using Suc.prems Suc.IH [of "off + c"]
    by (simp add: memcmp64_loop.simps [of s1 s2 c off] c_memcmp_segment_add Let_def add.assoc)
qed

lemma memcmp64_eq:
  assumes "n \<le> length s1" "n \<le> length s2" "n < u64_mod" "n \<le> 64 * KB_MULT \<or> 64 * KB_MULT dvd n"
  shows "memcmp64 s1 s2 n = Some (c_memcmp (take n s1) (take n s2))"
proof (cases "n \<le> 64 * KB_MULT")
  case True
  show ?thesis
  proof (cases "n = 0")
    case True
    then show ?thesis by (simp add: memcmp64_def memcmp64_loop.simps)
  next
    case False
    with True assms memcmp64_loop_dvd [of 0 1 n s1 s2] show ?thesis
      by (simp add: memcmp64_def segment_def)
  qed
next
  case False
  with assms(4) obtain k where "n = k * (64 * KB_MULT)" by (auto elim: dvdE)
  then show ?thesis
    using assms memcmp64_loop_dvd [of 0 k "64 * KB_MULT" s1 s2] False
    by (simp add: memcmp64_def segment_def KB_MULT_def)
qed

text \<open>The bytes of a comparison that is no longer than one block.\<close>

lemma memicmp2_zero_iff:
  assumes "n \<le> length s1" "n \<le> length s2" "n \<le> 64 * KB_MULT"
  shows "\<exists>v. memicmp2 s1 s2 n cs = Some v \<and>
    (v = 0 \<longleftrightarrow> (if cs then take n s1 = take n s2 else same_nocase (take n s1) (take n s2)))"
proof (cases cs)
  case True
  have "n < u64_mod" using assms(3) by (simp add: KB_MULT_def u64_mod_def)
  with True assms show ?thesis by (simp add: memicmp2_def memcmp64_eq c_memcmp_eq_0_iff)
next
  case False
  with assms show ?thesis by (simp add: memicmp2_nocase)
qed

text \<open>
  Otherwise the last, partial block is compared as a whole block: equal buffers of exactly
  \<^verbatim>\<open>n\<close> bytes are read past their end.
\<close>

lemma memcmp64_loop_overrun:
  assumes "0 < c" "0 < r" "r < c"
  shows "off + k * c + r = length s \<Longrightarrow> k * c + r < u64_mod \<Longrightarrow>
    memcmp64_loop s s c off (k * c + r) = None"
proof (induction k arbitrary: off)
  case 0
  then show ?case using assms by (simp add: memcmp64_loop.simps memcmp_at_def)
next
  case (Suc k)
  have "sub64 (Suc k * c + r) c = k * c + r" using Suc.prems by (simp add: sub64_eq)
  then show ?case using Suc.prems Suc.IH [of "off + c"] assms
    by (simp add: memcmp64_loop.simps [of s s c off] memcmp_at_def add.assoc)
qed

lemma memcmp64_overrun:
  assumes "length s = n" "64 * KB_MULT < n" "\<not> 64 * KB_MULT dvd n" "n < u64_mod"
  shows "memcmp64 s s n = None"
proof -
  let ?c = "64 * KB_MULT"
  have "0 < n mod ?c" using assms(3) by (simp add: dvd_eq_mod_eq_0)
  moreover have "n mod ?c < ?c" by (simp add: KB_MULT_def)
  moreover have "n div ?c * ?c + n mod ?c = n" by (rule div_mult_mod_eq)
  ultimately have "memcmp64_loop s s ?c 0 (n div ?c * ?c + n mod ?c) = None"
    using assms memcmp64_loop_overrun [of ?c "n mod ?c" 0 "n div ?c" s] by (simp add: KB_MULT_def)
  then show ?thesis using assms(2) by (simp only: memcmp64_def div_mult_mod_eq if_True)
qed

subsection \<open>Copy and move in blocks\<close>

lemma memcpy64_loop_eq:
  "off + n \<le> length dest \<Longrightarrow> off + n \<le> length src \<Longrightarrow>
   memcpy64_loop dest src off n = Some (take off dest @ segment off n src @ drop (off + n) dest)"
proof (induction dest src off n rule: memcpy64_loop.induct)
  case (1 dest src off n)
  let ?c = "if n > 64 * KB_MULT then 64 * KB_MULT else n"
  show ?case
  proof (cases "n = 0")
    case True
    then show ?thesis by (simp add: memcpy64_loop.simps)
  next
    case False
    let ?dest = "take off dest @ segment off ?c src @ drop (off + ?c) dest"
    have c: "?c \<le> n" by simp
    have cp: "memcpy_at dest src off ?c = Some ?dest"
      using "1.prems" c by (simp add: memcpy_at_def)
    have len: "length ?dest = length dest" using "1.prems" c by (simp add: length_segment)
    have n: "n = ?c + (n - ?c)" using c by simp
    have "memcpy64_loop ?dest src (off + ?c) (n - ?c) =
        Some (take (off + ?c) ?dest @ segment (off + ?c) (n - ?c) src @ drop (off + ?c + (n - ?c)) ?dest)"
      using "1.prems" c len by (intro "1.IH" [OF False refl cp]) simp_all
    also have "take (off + ?c) ?dest = take off dest @ segment off ?c src"
      using "1.prems" c by (simp add: length_segment)
    also have "drop (off + ?c + (n - ?c)) ?dest = drop (off + n) dest"
      using "1.prems" c by (simp add: length_segment add.commute)
    also have "(take off dest @ segment off ?c src) @ segment (off + ?c) (n - ?c) src @ drop (off + n) dest
        = take off dest @ segment off n src @ drop (off + n) dest"
      using segment_add [of off ?c "n - ?c" src] n by simp
    finally show ?thesis using False cp by (simp add: memcpy64_loop.simps [of dest src off n] Let_def)
  qed
qed

lemma memcpy64_eq:
  "n \<le> length dest \<Longrightarrow> n \<le> length src \<Longrightarrow> memcpy64 dest src n = Some (take n src @ drop n dest)"
  using memcpy64_loop_eq [of 0 n dest src] by (simp add: memcpy64_def segment_def)

lemma memmove64_up_dvd:
  "d < s \<Longrightarrow> s + off + k * c \<le> length m \<Longrightarrow> k * c < u64_mod \<Longrightarrow> 0 < c \<Longrightarrow>
   memmove64_up m d s c off (k * c) =
     Some (take (d + off) m @ segment (s + off) (k * c) m @ drop (d + off + k * c) m)"
proof (induction k arbitrary: off m)
  case 0
  then show ?case by (simp add: memmove64_up.simps)
next
  case (Suc k)
  let ?m = "take (d + off) m @ segment (s + off) c m @ drop (d + off + c) m"
  have mv: "memmove_at m (d + off) (s + off) c = Some ?m"
    using Suc.prems by (simp add: memmove_at_def)
  have len: "length ?m = length m" using Suc.prems by (simp add: length_segment)
  have sub: "sub64 (c + k * c) c = k * c" using Suc.prems by (simp add: sub64_eq)
  have "memmove64_up ?m d s c (off + c) (k * c) =
      Some (take (d + (off + c)) ?m @ segment (s + (off + c)) (k * c) ?m @ drop (d + (off + c) + k * c) ?m)"
    using Suc.prems len by (intro Suc.IH) simp_all
  also have "take (d + (off + c)) ?m = take (d + off) m @ segment (s + off) c m"
    using Suc.prems by (simp add: length_segment)
  also have "drop (d + (off + c) + k * c) ?m = drop (d + off + c + k * c) m"
    using Suc.prems by (simp add: length_segment add.commute add.left_commute)
  also have "segment (s + (off + c)) (k * c) ?m = segment (s + off + c) (k * c) m"
    using Suc.prems by (simp add: segment_def add.commute add.left_commute)
  finally show ?case
    using Suc.prems mv sub
    by (simp add: memmove64_up.simps [of m d s c off] segment_add add.assoc)
qed

text \<open>Moving down in memory is right when one block, or whole blocks, are moved.\<close>

lemma memmove64_eq:
  assumes "dest < src" "src + n \<le> length m" "n < u64_mod" "n \<le> 64 * KB_MULT \<or> 64 * KB_MULT dvd n"
  shows "memmove64 m dest src n = Some (take dest m @ segment src n m @ drop (dest + n) m)"
proof (cases "n \<le> 64 * KB_MULT")
  case True
  show ?thesis
  proof (cases "n = 0")
    case True
    then show ?thesis using assms by (simp add: memmove64_def memmove64_up.simps)
  next
    case False
    with True assms memmove64_up_dvd [of dest src 0 1 n m] show ?thesis
      by (simp add: memmove64_def)
  qed
next
  case False
  with assms(4) obtain k where "n = k * (64 * KB_MULT)" by (auto elim: dvdE)
  then show ?thesis
    using assms memmove64_up_dvd [of dest src 0 k "64 * KB_MULT" m] False
    by (simp add: memmove64_def KB_MULT_def)
qed

subsection \<open>The byte buffer\<close>

definition xBinContainer_wf :: "xBinContainer \<Rightarrow> bool" where
  "xBinContainer_wf b \<longleftrightarrow> xb_usedSize b \<le> xb_containerLength b \<and>
     (case xb_data b of None \<Rightarrow> xb_containerLength b = 0 | Some d \<Rightarrow> length d = xb_containerLength b)"

lemma xBinContainer_wf_new [simp]: "xBinContainer_wf (xBinContainer_new ok len)"
  by (simp add: xBinContainer_wf_def xBinContainer_new_def)

lemma xBinContainer_wf_push: "xBinContainer_wf b \<Longrightarrow> xBinContainer_wf (xBinContainer_push b c)"
  by (auto simp: xBinContainer_wf_def xBinContainer_push_def split: option.splits)

lemma xBinContainer_wf_pushes: "xBinContainer_wf b \<Longrightarrow> xBinContainer_wf (foldl xBinContainer_push b cs)"
  by (induction cs arbitrary: b) (auto simp: xBinContainer_wf_push)

lemma xBinContainer_push_toString:
  assumes "xBinContainer_wf b" "xb_usedSize b < xb_containerLength b"
  shows "xBinContainer_toString (xBinContainer_push b c) = xBinContainer_toString b @ [c]"
  using assms
  by (auto simp: xBinContainer_wf_def xBinContainer_push_def xBinContainer_toString_def
      take_Suc_conv_app_nth split: option.splits)

text \<open>Pushing no more bytes than were allocated stores them all, in order.\<close>

lemma xBinContainer_pushes_toString:
  "xBinContainer_wf b \<Longrightarrow> xb_usedSize b + length cs \<le> xb_containerLength b \<Longrightarrow>
   xBinContainer_toString (foldl xBinContainer_push b cs) = xBinContainer_toString b @ cs"
proof (induction cs arbitrary: b)
  case Nil
  then show ?case by simp
next
  case (Cons c cs)
  have "xb_usedSize (xBinContainer_push b c) = xb_usedSize b + 1"
    "xb_containerLength (xBinContainer_push b c) = xb_containerLength b"
    using Cons.prems by (simp_all add: xBinContainer_push_def)
  with Cons show ?case by (simp add: xBinContainer_wf_push xBinContainer_push_toString)
qed

subsection \<open>Properties\<close>

text \<open>Comparing two buffers with \<^verbatim>\<open>memcmp64\<close> terminates, stays inside them and is zero exactly
  when they agree, provided the length is at most one 64 KB block or a whole number of blocks.\<close>

theorem memcmp64_decides_equality:
  assumes "n \<le> length s1" "n \<le> length s2" "n < u64_mod" "n \<le> 64 * KB_MULT \<or> 64 * KB_MULT dvd n"
  shows "\<exists>v. memcmp64 s1 s2 n = Some v \<and> (v = 0 \<longleftrightarrow> take n s1 = take n s2)"
  using assms by (simp add: memcmp64_eq c_memcmp_eq_0_iff)

theorem memcmp64_decides_equality_witness:
  "\<exists>v. memcmp64 [1, 2] [1, 2, 3] 2 = Some v \<and> (v = 0 \<longleftrightarrow> take 2 [1, 2] = take 2 [1, 2, 3 :: byte])"
  by (rule memcmp64_decides_equality) (simp_all add: u64_mod_def KB_MULT_def)

text \<open>For every other length the last block is compared as if it were whole: two equal buffers
  of exactly that length are read past their end.\<close>

theorem memcmp64_reads_past_the_end:
  assumes "64 * KB_MULT < length s" "\<not> 64 * KB_MULT dvd length s" "length s < u64_mod"
  shows "memcmp64 s s (length s) = None"
  using memcmp64_overrun [OF refl assms] .

theorem memcmp64_reads_past_the_end_witness:
  "memcmp64 (replicate 65537 0) (replicate 65537 0) 65537 = None"
proof -
  have "memcmp64 (replicate 65537 0) (replicate 65537 0) (length (replicate 65537 (0 :: byte))) = None"
    by (rule memcmp64_reads_past_the_end)
       (simp_all only: length_replicate, simp_all add: u64_mod_def KB_MULT_def)
  then show ?thesis by (simp only: length_replicate)
qed

text \<open>\<^verbatim>\<open>memmove64\<close> towards lower addresses, the move by which a buffer is displaced, keeps
  every other byte and shifts the whole range, overlapping or not, when the length is at most one
  block or a whole number of blocks.\<close>

theorem memmove64_shifts_down:
  assumes "dest < src" "src + n \<le> length m" "n < u64_mod" "n \<le> 64 * KB_MULT \<or> 64 * KB_MULT dvd n"
  shows "memmove64 m dest src n = Some (take dest m @ segment src n m @ drop (dest + n) m)"
  using assms by (rule memmove64_eq)

theorem memmove64_shifts_down_witness:
  "memmove64 [1, 2, 3, 4, 5] 0 2 3 = Some [3, 4, 5, 4, 5]"
  using memmove64_shifts_down [of 0 2 3 "[1, 2, 3, 4, 5]"]
  by (simp add: u64_mod_def KB_MULT_def segment_def)

end
