(* ===== verification/Encoders.thy ===== *)
theory Encoders
  imports Mem "HOL-Library.Signed_Division"
begin

unbundle bit_operations_syntax

text \<open>
  \<^verbatim>\<open>Helpers/mdz_hlp_functions/encoders.cpp\<close>: Base64 (plain, into a byte buffer, and
  obfuscated with a pseudo-random stream), URL percent coding and hexadecimal. A
  \<^verbatim>\<open>std::string\<close> is its list of bytes; \<^verbatim>\<open>char\<close> is signed, so comparisons and divisions
  of a \<^verbatim>\<open>char\<close> go through \<^verbatim>\<open>sint\<close> where it matters.
\<close>

subsection \<open>Character classes\<close>

definition c_isdigit :: "byte \<Rightarrow> bool" where
  "c_isdigit c \<longleftrightarrow> 48 \<le> c \<and> c \<le> 57"

definition c_isalnum :: "byte \<Rightarrow> bool" where
  "c_isalnum c \<longleftrightarrow> is_alpha c \<or> c_isdigit c"

definition c_isxdigit :: "byte \<Rightarrow> bool" where
  "c_isxdigit c \<longleftrightarrow> c_isdigit c \<or> 65 \<le> c \<and> c \<le> 70 \<or> 97 \<le> c \<and> c \<le> 102"

subsection \<open>Base64\<close>

definition b64Chars :: "byte list" where
  "b64Chars = map word_of_nat ([65..<91] @ [97..<123] @ [48..<58] @ [43, 47])"

text \<open>\<^verbatim>\<open>(unsigned char)b64Chars.find(c)\<close>: a character that is not there gives
  \<^verbatim>\<open>npos\<close>, truncated to 255.\<close>

fun find_pos :: "'a \<Rightarrow> 'a list \<Rightarrow> nat option" where
  "find_pos c [] = None"
| "find_pos c (x # xs) = (if x = c then Some 0 else map_option Suc (find_pos c xs))"

definition b64_find :: "byte \<Rightarrow> byte" where
  "b64_find c = (case find_pos c b64Chars of None \<Rightarrow> 255 | Some i \<Rightarrow> word_of_nat i)"

definition b64_accepts :: "byte \<Rightarrow> bool" where
  "b64_accepts c \<longleftrightarrow> c \<noteq> 61 \<and> (c_isalnum c \<or> c = 47 \<or> c = 43)"

text \<open>The three bytes of four 6-bit values.\<close>

definition b64_dec3 :: "byte list \<Rightarrow> byte list" where
  "b64_dec3 cont4 =
     [push_bit 2 (cont4 ! 0) + drop_bit 4 (cont4 ! 1 AND 0x30),
      push_bit 4 (cont4 ! 1 AND 0xf) + drop_bit 2 (cont4 ! 2 AND 0x3c),
      push_bit 6 (cont4 ! 2 AND 0x3) + cont4 ! 3]"

text \<open>
  The decoder's loop, with the destination as a state \<^verbatim>\<open>acc\<close> and the statement that appends one
  byte to it as \<^verbatim>\<open>emit\<close>: the three decoders are this text with three destinations.
\<close>

fun b64_decode_loop ::
  "('s \<Rightarrow> byte \<Rightarrow> 's) \<Rightarrow> byte list \<Rightarrow> byte list \<Rightarrow> 's \<Rightarrow> byte list \<times> 's" where
  "b64_decode_loop emit [] cont4 acc = (cont4, acc)"
| "b64_decode_loop emit (c # cs) cont4 acc =
     (if b64_accepts c then
        (let cont4' = cont4 @ [c] in
         if length cont4' = 4
         then b64_decode_loop emit cs [] (foldl emit acc (b64_dec3 (map b64_find cont4')))
         else b64_decode_loop emit cs cont4' acc)
      else (cont4, acc))"

definition b64_decode :: "('s \<Rightarrow> byte \<Rightarrow> 's) \<Rightarrow> 's \<Rightarrow> byte list \<Rightarrow> 's" where
  "b64_decode emit acc sB64Buf =
     (let (cont4, acc') = b64_decode_loop emit sB64Buf [] acc; x = length cont4 in
      if x \<noteq> 0
      then foldl emit acc'
        (take (x - 1) (b64_dec3 (map b64_find (cont4 @ replicate (4 - x) 0))))
      else acc')"

definition fromBase64 :: "byte list \<Rightarrow> byte list" where
  "fromBase64 sB64Buf = b64_decode (\<lambda>s c. s @ [c]) [] sB64Buf"

definition fromBase64ToBin :: "bool \<Rightarrow> byte list \<Rightarrow> xBinContainer" where
  "fromBase64ToBin malloc_ok sB64Buf =
     (let r = xBinContainer_new malloc_ok (length sB64Buf) in
      if xb_data r = None then r else b64_decode xBinContainer_push r sB64Buf)"

text \<open>\<^verbatim>\<open>dis seed i\<close> is the i-th byte drawn from the generator seeded with \<^verbatim>\<open>seed\<close>, whose
  distribution the C++ library leaves to the implementation.\<close>

definition fromBase64Obf :: "(nat \<Rightarrow> nat \<Rightarrow> byte) \<Rightarrow> byte list \<Rightarrow> nat \<Rightarrow> byte list" where
  "fromBase64Obf dis sB64Buf seed =
     fst (b64_decode (\<lambda>(s, i) c. (s @ [c XOR dis seed i], Suc i)) ([], 0) sB64Buf)"

definition b64_enc4 :: "byte list \<Rightarrow> byte list" where
  "b64_enc4 cont3 =
     [drop_bit 2 (cont3 ! 0 AND 0xfc),
      push_bit 4 (cont3 ! 0 AND 0x03) + drop_bit 4 (cont3 ! 1 AND 0xf0),
      push_bit 2 (cont3 ! 1 AND 0x0f) + drop_bit 6 (cont3 ! 2 AND 0xc0),
      cont3 ! 2 AND 0x3f]"

definition b64_char :: "byte \<Rightarrow> byte" where
  "b64_char v = b64Chars ! unat v"

fun toBase64_loop :: "byte list \<Rightarrow> byte list \<Rightarrow> byte list \<Rightarrow> byte list \<times> byte list" where
  "toBase64_loop [] cont3 r = (cont3, r)"
| "toBase64_loop (c # cs) cont3 r =
     (let cont3' = cont3 @ [c] in
      if length cont3' = 3
      then toBase64_loop cs [] (r @ map b64_char (b64_enc4 cont3'))
      else toBase64_loop cs cont3' r)"

definition toBase64 :: "byte list \<Rightarrow> byte list" where
  "toBase64 buf =
     (let (cont3, r) = toBase64_loop buf [] []; x = length cont3 in
      if x \<noteq> 0
      then r @ map b64_char (take (x + 1) (b64_enc4 (cont3 @ replicate (3 - x) 0)))
             @ replicate (3 - x) 61
      else r)"

definition toBase64Obf ::
  "(nat \<Rightarrow> nat \<Rightarrow> byte) \<Rightarrow> bool \<Rightarrow> byte list \<Rightarrow> nat \<Rightarrow> byte list" where
  "toBase64Obf dis malloc_ok buf seed =
     (if \<not> malloc_ok then []
      else toBase64 (map (\<lambda>i. buf ! i XOR dis seed i) [0..<length buf]))"

subsection \<open>Hexadecimal and URL coding\<close>

definition hexToValue :: "byte \<Rightarrow> byte" where
  "hexToValue v =
     (if 48 \<le> v \<and> v \<le> 57 then v - 48
      else if 65 \<le> v \<and> v \<le> 70 then v - 65 + 10
      else if 97 \<le> v \<and> v \<le> 102 then v - 97 + 10
      else 0)"

definition toHexPair :: "byte \<Rightarrow> nat \<Rightarrow> byte" where
  "toHexPair value part =
     (let v = (if part = 1 then word_of_int (sint value sdiv 0x10)
               else if part = 2 then value AND 0xF else value :: byte) in
      if 0 \<le> sint v \<and> sint v \<le> 9 then 48 + v
      else if 10 \<le> sint v \<and> sint v \<le> 15 then 65 + v - 10
      else 48)"

definition hex_upper :: "nat \<Rightarrow> byte" where
  "hex_upper n = (if n < 10 then word_of_nat (48 + n) else word_of_nat (55 + n))"

text \<open>\<^verbatim>\<open>sprintf("%02X")\<close> of an unsigned byte.\<close>

definition sprintf_02X :: "byte \<Rightarrow> byte list" where
  "sprintf_02X b = [hex_upper (unat b div 16), hex_upper (unat b mod 16)]"

definition toHex :: "byte list \<Rightarrow> byte list" where
  "toHex data = concat (map sprintf_02X data)"

definition fromHex :: "byte list \<Rightarrow> byte list \<Rightarrow> nat \<Rightarrow> byte list" where
  "fromHex hexValue data maxlen0 =
     (let maxlen = (if length hexValue div 2 < maxlen0 then length hexValue div 2 else maxlen0) in
      foldl (\<lambda>d i. d[i := hexToValue (hexValue ! (2 * i)) * 0x10 + hexToValue (hexValue ! (2 * i + 1))])
        data [0..<maxlen])"

definition hexPairToByte :: "byte \<Rightarrow> byte \<Rightarrow> byte" where
  "hexPairToByte a b =
     (if \<not> c_isxdigit a \<or> \<not> c_isxdigit b then 0 else hexToValue a * 16 + hexToValue b)"

datatype eURLEncodingType = ENC_STRICT | ENC_QUOTEPRINT

definition getIfMustBeURLEncoded :: "byte \<Rightarrow> eURLEncodingType \<Rightarrow> bool" where
  "getIfMustBeURLEncoded c t =
     (if t = ENC_QUOTEPRINT then
        (if c = 34 then True
         else if 32 \<le> sint c \<and> sint c \<le> 126 then False else True)
      else if 65 \<le> sint c \<and> sint c \<le> 90 then False
      else if 97 \<le> sint c \<and> sint c \<le> 122 then False
      else if 48 \<le> sint c \<and> sint c \<le> 57 then False
      else True)"

definition calcURLEncodingExpandedStringSize :: "byte list \<Rightarrow> eURLEncodingType \<Rightarrow> nat" where
  "calcURLEncodingExpandedStringSize str t =
     foldl (\<lambda>x c. if getIfMustBeURLEncoded c t then x + 3 else x + 1) 0 str"

text \<open>The output string has its final size before the loop, which stores into it by index.\<close>

fun toURL_loop :: "eURLEncodingType \<Rightarrow> byte list \<Rightarrow> nat \<Rightarrow> byte list \<Rightarrow> byte list" where
  "toURL_loop t [] x out = out"
| "toURL_loop t (c # cs) x out =
     (if getIfMustBeURLEncoded c t
      then toURL_loop t cs (x + 3)
        (((out[x := 37])[x + 1 := toHexPair c 1])[x + 2 := toHexPair c 2])
      else toURL_loop t cs (x + 1) (out[x := c]))"

definition toURL :: "byte list \<Rightarrow> eURLEncodingType \<Rightarrow> byte list" where
  "toURL str t =
     (if str = [] then []
      else toURL_loop t str 0 (replicate (calcURLEncodingExpandedStringSize str t) 32))"

fun fromURL :: "byte list \<Rightarrow> byte list" where
  "fromURL [] = []"
| "fromURL (c # cs) =
     (case cs of
        a # b # rest \<Rightarrow>
          if c = 37 \<and> c_isxdigit a \<and> c_isxdigit b
          then (hexToValue a * 0x10 + hexToValue b) # fromURL rest
          else c # fromURL cs
      | _ \<Rightarrow> c # fromURL cs)"

text \<open>\<^verbatim>\<open>std::string::find(needle, pos)\<close>.\<close>

fun prefix_of :: "'a list \<Rightarrow> 'a list \<Rightarrow> bool" where
  "prefix_of [] ys = True"
| "prefix_of (x # xs) [] = False"
| "prefix_of (x # xs) (y # ys) = (x = y \<and> prefix_of xs ys)"

fun find_sub :: "'a list \<Rightarrow> 'a list \<Rightarrow> nat option" where
  "find_sub needle [] = (if needle = [] then Some 0 else None)"
| "find_sub needle (x # xs) =
     (if prefix_of needle (x # xs) then Some 0 else map_option Suc (find_sub needle xs))"

definition string_find :: "'a list \<Rightarrow> 'a list \<Rightarrow> nat \<Rightarrow> nat option" where
  "string_find content needle pos =
     (if pos \<le> length content then map_option (\<lambda>i. pos + i) (find_sub needle (drop pos content))
      else None)"

lemma find_sub_bound: "find_sub needle xs = Some i \<Longrightarrow> i + length needle \<le> length xs"
proof (induction xs arbitrary: i)
  case (Cons x xs)
  have p: "prefix_of n ys \<Longrightarrow> length n \<le> length ys" for n ys :: "'a list"
    by (induction n ys rule: prefix_of.induct) auto
  from Cons p [of needle "x # xs"] show ?case by (auto split: if_splits)
qed (auto split: if_splits)

lemma string_find_bound:
  "string_find content needle pos = Some i \<Longrightarrow> pos \<le> i \<and> i + length needle \<le> length content"
  by (auto simp: string_find_def dest!: find_sub_bound split: if_splits)

text \<open>The pattern is a backslash followed by \<^verbatim>\<open>0x\<close>.\<close>

function replaceHexCodes_loop :: "byte list \<Rightarrow> nat \<Rightarrow> byte list" where
  "replaceHexCodes_loop content pos0 =
     (case string_find content [92, 48, 120] pos0 of
        None \<Rightarrow> content
      | Some pos \<Rightarrow>
          if pos + 4 < length content \<and> c_isxdigit (content ! (pos + 3)) \<and> c_isxdigit (content ! (pos + 4))
          then replaceHexCodes_loop
            (take pos content @ [hexPairToByte (content ! (pos + 3)) (content ! (pos + 4))]
               @ drop (pos + 5) content) pos
          else replaceHexCodes_loop content (pos + 3))"
  by pat_completeness auto
termination
  by (relation "measure (\<lambda>(content, pos). length content - pos)")
     (auto dest: string_find_bound)

declare replaceHexCodes_loop.simps [simp del]

definition replaceHexCodes :: "byte list \<Rightarrow> byte list" where
  "replaceHexCodes content = replaceHexCodes_loop content 0"

subsection \<open>Base64 round trips\<close>


lemma b64_enc4_or:
  "b64_enc4 cont3 =
     [drop_bit 2 (cont3 ! 0 AND 0xfc),
      push_bit 4 (cont3 ! 0 AND 0x03) OR drop_bit 4 (cont3 ! 1 AND 0xf0),
      push_bit 2 (cont3 ! 1 AND 0x0f) OR drop_bit 6 (cont3 ! 2 AND 0xc0),
      cont3 ! 2 AND 0x3f]"
proof -
  have "push_bit 4 (a AND 0x03) + drop_bit 4 (b AND 0xf0) =
      push_bit 4 (a AND 0x03) OR drop_bit 4 (b AND 0xf0)" for a b :: byte
    by (rule disjunctive_add_eq_or, rule byte_eqI) (simp_all add: bit_simps)
  moreover have "push_bit 2 (b AND 0x0f) + drop_bit 6 (c AND 0xc0) =
      push_bit 2 (b AND 0x0f) OR drop_bit 6 (c AND 0xc0)" for b c :: byte
    by (rule disjunctive_add_eq_or, rule byte_eqI) (simp_all add: bit_simps)
  ultimately show ?thesis by (simp only: b64_enc4_def)
qed

lemma b64_dec3_enc4: "b64_dec3 (b64_enc4 [a, b, c]) = [a, b, c]"
proof -
  let ?e1 = "push_bit 4 (a AND 0x03) OR drop_bit 4 (b AND 0xf0)"
  let ?e2 = "push_bit 2 (b AND 0x0f) OR drop_bit 6 (c AND 0xc0)"
  have "push_bit 2 (drop_bit 2 (a AND 0xfc)) + drop_bit 4 (?e1 AND 0x30) = a"
    by (subst disjunctive_add_eq_or; rule byte_eqI) (simp_all add: bit_simps)
  moreover have "push_bit 4 (?e1 AND 0xf) + drop_bit 2 (?e2 AND 0x3c) = b"
    by (subst disjunctive_add_eq_or; rule byte_eqI) (simp_all add: bit_simps)
  moreover have "push_bit 6 (?e2 AND 0x3) + (c AND 0x3f) = c"
    by (subst disjunctive_add_eq_or; rule byte_eqI) (simp_all add: bit_simps)
  ultimately show ?thesis by (simp add: b64_dec3_def b64_enc4_or)
qed

lemma b64_enc4_less:
  assumes "v \<in> set (b64_enc4 cont3)"
  shows "unat v < 64"
proof -
  have "\<forall>v\<in>set (b64_enc4 cont3). v AND 63 = v"
    unfolding b64_enc4_or by (auto intro!: byte_eqI simp: bit_simps)
  then have "v = take_bit 6 v" using assms by (simp add: take_bit_eq_mask mask_eq_exp_minus_1)
  then have "unat v = take_bit 6 (unat v)" by (metis unsigned_take_bit_eq)
  then show ?thesis by (simp add: take_bit_eq_mod)
qed

lemma find_pos_nth: "distinct xs \<Longrightarrow> i < length xs \<Longrightarrow> find_pos (xs ! i) xs = Some i"
proof (induction xs arbitrary: i)
  case (Cons x xs)
  then show ?case by (cases i) auto
qed simp

lemma b64Chars_facts: "distinct b64Chars" "length b64Chars = 64" "list_all b64_accepts b64Chars"
  by (simp_all add: b64Chars_def b64_accepts_def c_isalnum_def is_alpha_def c_isdigit_def)

lemma b64_char_props:
  assumes "unat v < 64"
  shows "b64_find (b64_char v) = v" "b64_accepts (b64_char v)"
  using assms find_pos_nth [OF b64Chars_facts(1), of "unat v"] b64Chars_facts(2,3)
  by (simp_all add: b64_find_def b64_char_def list_all_length)

lemma not_b64_accepts_61 [simp]: "\<not> b64_accepts 61"
  by (simp add: b64_accepts_def)

lemma toBase64_loop_acc:
  "toBase64_loop cs cont3 (r @ s) = (let (c, t) = toBase64_loop cs cont3 s in (c, r @ t))"
  by (induction cs cont3 s rule: toBase64_loop.induct) (auto simp: Let_def split: prod.splits)

lemma toBase64_rec:
  "toBase64 [] = []"
  "toBase64 [a] = map b64_char (take 2 (b64_enc4 [a, 0, 0])) @ [61, 61]"
  "toBase64 [a, b] = map b64_char (take 3 (b64_enc4 [a, b, 0])) @ [61]"
  "toBase64 (a # b # c # cs) = map b64_char (b64_enc4 [a, b, c]) @ toBase64 cs"
  using toBase64_loop_acc [of cs "[]" "map b64_char (b64_enc4 [a, b, c])" "[]"]
  by (simp_all add: toBase64_def Let_def numeral_2_eq_2 numeral_3_eq_3 split: prod.splits)

lemma b64_decode_block:
  assumes "\<And>v. v \<in> {e0, e1, e2, e3} \<Longrightarrow> unat v < 64"
  shows "b64_decode emit acc (map b64_char [e0, e1, e2, e3] @ s) =
    b64_decode emit (foldl emit acc (b64_dec3 [e0, e1, e2, e3])) s"
  using assms by (simp add: b64_decode_def b64_char_props)

text \<open>Decoding what was encoded feeds exactly the original bytes to the destination.\<close>

lemma length_b64_enc4 [simp]: "length (b64_enc4 xs) = 4"
  by (simp add: b64_enc4_def)

lemma b64_decode_toBase64: "b64_decode emit acc (toBase64 s) = foldl emit acc s"
proof (induction s arbitrary: acc rule: length_induct)
  case (1 s)
  have enc: "\<exists>e0 e1 e2 e3. b64_enc4 [a, b, c] = [e0, e1, e2, e3] \<and> b64_dec3 [e0, e1, e2, e3] = [a, b, c] \<and>
      unat e0 < 64 \<and> unat e1 < 64 \<and> unat e2 < 64 \<and> unat e3 < 64" for a b c
    using b64_dec3_enc4 [of a b c] b64_enc4_less [of _ "[a, b, c]"] by (auto simp: b64_enc4_def)
  consider "s = []" | a where "s = [a]" | a b where "s = [a, b]" | a b c cs where "s = a # b # c # cs"
    by (metis list.exhaust)
  then show ?case
  proof cases
    case 1
    then show ?thesis by (simp add: toBase64_rec b64_decode_def)
  next
    case (2 a)
    obtain e0 e1 e2 e3 where e: "b64_enc4 [a, 0, 0] = [e0, e1, e2, e3]"
      "b64_dec3 [e0, e1, e2, e3] = [a, 0, 0]" "unat e0 < 64" "unat e1 < 64"
      using enc by blast
    then show ?thesis
      by (simp add: 2 toBase64_rec b64_decode_def b64_char_props b64_dec3_def)
  next
    case (3 a b)
    obtain e0 e1 e2 e3 where e: "b64_enc4 [a, b, 0] = [e0, e1, e2, e3]"
      "b64_dec3 [e0, e1, e2, e3] = [a, b, 0]" "unat e0 < 64" "unat e1 < 64" "unat e2 < 64"
      using enc by blast
    then show ?thesis
      by (simp add: 3 toBase64_rec b64_decode_def b64_char_props b64_dec3_def)
  next
    case (4 a b c cs)
    obtain e0 e1 e2 e3 where e: "b64_enc4 [a, b, c] = [e0, e1, e2, e3]"
      "b64_dec3 [e0, e1, e2, e3] = [a, b, c]" "unat e0 < 64" "unat e1 < 64" "unat e2 < 64" "unat e3 < 64"
      using enc by blast
    have "b64_decode emit acc (map b64_char [e0, e1, e2, e3] @ toBase64 cs) =
        b64_decode emit (foldl emit acc (b64_dec3 [e0, e1, e2, e3])) (toBase64 cs)"
      by (rule b64_decode_block) (use e in auto)
    then have "b64_decode emit acc (toBase64 s) = b64_decode emit (foldl emit acc [a, b, c]) (toBase64 cs)"
      by (simp only: 4 toBase64_rec e)
    also have "\<dots> = foldl emit (foldl emit acc [a, b, c]) cs"
      using 1 by (simp add: 4)
    finally show ?thesis by (simp add: 4)
  qed
qed

lemma foldl_snoc: "foldl (\<lambda>s c. s @ [c]) acc cs = acc @ cs"
  by (induction cs arbitrary: acc) simp_all

lemma fromBase64_toBase64 : "fromBase64 (toBase64 s) = s"
  by (simp add: fromBase64_def b64_decode_toBase64 foldl_snoc)

lemma length_toBase64: "length (toBase64 s) = (length s + 2) div 3 * 4"
proof (induction s rule: length_induct)
  case (1 s)
  consider "s = []" | a where "s = [a]" | a b where "s = [a, b]" | a b c cs where "s = a # b # c # cs"
    by (metis list.exhaust)
  then show ?case
    using 1 div_add_self1 [of 3 "length s - 1"] by cases (simp_all add: toBase64_rec)
qed

lemma fromBase64ToBin_toBase64:
  "s \<noteq> [] \<Longrightarrow> xBinContainer_toString (fromBase64ToBin True (toBase64 s)) = s"
proof -
  assume "s \<noteq> []"
  let ?b = "xBinContainer_new True (length (toBase64 s))"
  have "length s \<le> length (toBase64 s)" by (simp add: length_toBase64)
  moreover have "length (toBase64 s) \<noteq> 0" using \<open>s \<noteq> []\<close> calculation by (cases s) auto
  ultimately have "xBinContainer_toString (foldl xBinContainer_push ?b s) = xBinContainer_toString ?b @ s"
    using xBinContainer_wf_new
    by (intro xBinContainer_pushes_toString) (blast, simp add: xBinContainer_new_def)
  moreover have "xBinContainer_toString ?b = []" "xb_data ?b \<noteq> None"
    using \<open>length (toBase64 s) \<noteq> 0\<close> by (simp_all add: xBinContainer_toString_def xBinContainer_new_def)
  ultimately show ?thesis by (auto simp: fromBase64ToBin_def Let_def b64_decode_toBase64)
qed

lemma foldl_xor_stream:
  "foldl (\<lambda>(s, i) c. (s @ [c XOR dis i], Suc i)) (acc, k) cs =
     (acc @ map (\<lambda>i. cs ! i XOR dis (k + i)) [0..<length cs], k + length cs)"
proof (induction cs arbitrary: acc k)
  case (Cons c cs)
  show ?case
    by (simp add: Cons.IH map_upt_Suc del: upt_Suc)
qed simp

lemma fromBase64Obf_toBase64Obf:
  "fromBase64Obf dis (toBase64Obf dis True s seed) seed = s"
  by (rule nth_equalityI)
     (simp_all add: fromBase64Obf_def toBase64Obf_def b64_decode_toBase64 foldl_xor_stream xor.assoc)

subsection \<open>Hexadecimal\<close>

lemma hexToValue_hex_upper:
  assumes "n < 16"
  shows "hexToValue (hex_upper n) = word_of_nat n" "c_isxdigit (hex_upper n)"
  using assms
  by (auto simp: hexToValue_def hex_upper_def c_isxdigit_def c_isdigit_def word_le_nat_alt
      unat_of_nat simp del: of_nat_add) simp_all

lemma byte_div_mod_16: "word_of_nat (unat b div 16) * 16 + word_of_nat (unat b mod 16) = (b :: byte)"
proof -
  have "word_of_nat (unat b div 16) * 16 + word_of_nat (unat b mod 16) =
      (word_of_nat (unat b div 16 * 16 + unat b mod 16) :: byte)" by (simp only: of_nat_add of_nat_mult of_nat_numeral)
  also have "\<dots> = b" by (simp only: div_mult_mod_eq) simp
  finally show ?thesis .
qed

lemma byte_nibbles: "unat (b :: byte) div 16 < 16" "unat (b :: byte) mod 16 < 16"
  using unsigned_less [of b, where ?'a = nat] by simp_all

lemma hex_pair_value:
  "hexToValue (hex_upper (unat b div 16)) * 0x10 + hexToValue (hex_upper (unat b mod 16)) = (b :: byte)"
  by (simp only: hexToValue_hex_upper byte_nibbles byte_div_mod_16)

lemma length_toHex [simp]: "length (toHex d) = 2 * length d"
  by (induction d) (simp_all add: toHex_def sprintf_02X_def)

lemma toHex_nth:
  "i < length d \<Longrightarrow> toHex d ! (2 * i) = hex_upper (unat (d ! i) div 16) \<and>
     toHex d ! (2 * i + 1) = hex_upper (unat (d ! i) mod 16)"
proof (induction d arbitrary: i)
  case (Cons b d)
  then show ?case by (cases i) (auto simp: toHex_def sprintf_02X_def)
qed simp

lemma foldl_update_upt:
  "n \<le> length d \<Longrightarrow> foldl (\<lambda>d i. d[i := f i]) d [0..<n] = map f [0..<n] @ drop n d"
proof (induction n)
  case (Suc n)
  then have "drop n d = d ! n # drop (Suc n) d" by (simp add: Cons_nth_drop_Suc)
  with Suc show ?case by (simp add: list_update_append)
qed simp

lemma fromHex_toHex:
  assumes "length d \<le> length buf"
  shows "fromHex (toHex d) buf (length d) = d @ drop (length d) buf"
proof -
  have "map (\<lambda>i. hexToValue (toHex d ! (2 * i)) * 0x10 + hexToValue (toHex d ! (2 * i + 1))) [0..<length d] = d"
    by (rule nth_equalityI) (use toHex_nth in \<open>simp_all add: hex_pair_value\<close>)
  then show ?thesis using assms by (simp add: fromHex_def Let_def foldl_update_upt)
qed

text \<open>The first digit of a byte is the one printed by \<^verbatim>\<open>%02X\<close> when the byte is not a negative
  \<^verbatim>\<open>char\<close>; of a negative one it is always the digit 0.\<close>

lemma sint_byte: "sint (w :: byte) = (if unat w < 128 then int (unat w) else int (unat w) - 256)"
proof -
  have s: "sint w = (uint w + 128) mod 256 - 128"
    by (simp add: sint_uint signed_take_bit_eq_take_bit_shift take_bit_eq_mod)
  have u: "uint w = int (unat w)" by simp
  have lt: "unat w < 256" using unsigned_less [of w] by simp
  have key: "(int n + 128) mod 256 - 128 = (if n < 128 then int n else int n - 256)"
    if "n < 256" for n :: nat
  proof (cases "n < 128")
    case True
    then show ?thesis by (simp add: mod_pos_pos_trivial)
  next
    case False
    have "(int n + 128) mod 256 = ((int n - 128) + 256) mod 256" by (simp add: add.commute)
    also have "\<dots> = (int n - 128) mod 256" by (rule mod_add_self2)
    also have "\<dots> = int n - 128" using False that by (simp add: mod_pos_pos_trivial)
    finally show ?thesis using False by simp
  qed
  show ?thesis unfolding s u by (rule key [OF lt])
qed

lemma sint_word_of_int_byte: "-128 \<le> t \<Longrightarrow> t < 128 \<Longrightarrow> sint (word_of_int t :: byte) = t"
  by (simp add: sint_sbintrunc' signed_take_bit_int_eq_self)

lemma toHexPair_cases:
  "toHexPair c 1 = (if unat c < 128 then hex_upper (unat c div 16) else 48)"
  "toHexPair c 2 = hex_upper (unat c mod 16)"
proof -
  have hx: "(if 0 \<le> sint v \<and> sint v \<le> 9 then 48 + v
      else if 10 \<le> sint v \<and> sint v \<le> 15 then 65 + v - 10 else 48) = hex_upper n"
    if "v = word_of_nat n" "n < 16" for v :: byte and n
  proof -
    have "sint v = int n" using that sint_word_of_int_byte [of "int n"] by simp
    with that show ?thesis by (auto simp: hex_upper_def)
  qed
  have "unat c < 256" using unsigned_less [of c] by simp
  show "toHexPair c 2 = hex_upper (unat c mod 16)"
  proof -
    have "c AND 15 = take_bit 4 c" by (simp add: take_bit_eq_mask mask_eq_exp_minus_1)
    then have "unat (c AND 15) = take_bit 4 (unat c)" by (simp only: unsigned_take_bit_eq)
    then have "word_of_nat (unat (c AND 15)) = (word_of_nat (unat c mod 16) :: byte)"
      by (simp only: take_bit_eq_mod power_numeral) simp
    then have "c AND 15 = word_of_nat (unat c mod 16)" by simp
    from hx [OF this] show ?thesis by (simp add: toHexPair_def Let_def)
  qed
  show "toHexPair c 1 = (if unat c < 128 then hex_upper (unat c div 16) else 48)"
  proof (cases "unat c < 128")
    case True
    then have "sint c sdiv 16 = int (unat c div 16)" by (simp add: sint_byte signed_divide_int_def zdiv_int sgn_if del: of_nat_unat)
    then have "(word_of_int (sint c sdiv 16) :: byte) = word_of_nat (unat c div 16)" by (simp only: of_int_of_nat_eq)
    moreover have "unat c div 16 < 16" using True by simp
    ultimately show ?thesis using True hx by (simp add: toHexPair_def Let_def)
  next
    case False
    let ?t = "sint c sdiv 16"
    have t: "?t = - ((256 - int (unat c)) div 16)"
      using False \<open>unat c < 256\<close>
      by (simp add: sint_byte signed_divide_int_def sgn_if del: of_nat_unat)
    have "0 \<le> (256 - int m) div 16 \<and> (256 - int m) div 16 \<le> 128" if "\<not> m < 128" "m < 256" for m :: nat
      using that zdiv_mono1 [of "256 - int m" 128 16] by simp
    with t have "-128 \<le> ?t" "?t \<le> 0" using False \<open>unat c < 256\<close> by (simp_all del: of_nat_unat)
    then have "sint (word_of_int ?t :: byte) = ?t" by (simp add: sint_word_of_int_byte)
    with \<open>?t \<le> 0\<close> False show ?thesis
      by (cases "?t = 0") (simp_all add: toHexPair_def Let_def)
  qed
qed

subsection \<open>URL percent coding\<close>

definition url_unit :: "eURLEncodingType \<Rightarrow> byte \<Rightarrow> byte list" where
  "url_unit t c =
     (if getIfMustBeURLEncoded c t then [37, toHexPair c 1, toHexPair c 2] else [c])"

lemma calcURL_acc:
  "foldl (\<lambda>x c. if getIfMustBeURLEncoded c t then x + 3 else x + 1) a str =
     a + length (concat (map (url_unit t) str))"
  by (induction str arbitrary: a) (simp_all add: url_unit_def)

lemma toURL_loop_eq:
  "length out = x + length (concat (map (url_unit t) str)) \<Longrightarrow>
   toURL_loop t str x out = take x out @ concat (map (url_unit t) str)"
proof (induction t str x out rule: toURL_loop.induct)
  case (1 t x out)
  then show ?case by simp
next
  case (2 t c cs x out)
  show ?case
  proof (cases "getIfMustBeURLEncoded c t")
    case True
    with 2 show ?thesis
      by (simp add: url_unit_def take_add take_update_cancel)
         (simp add: take_Suc_conv_app_nth numeral_3_eq_3 nth_list_update)
  next
    case False
    with 2 show ?thesis
      by (simp add: url_unit_def) (simp add: take_Suc_conv_app_nth)
  qed
qed

text \<open>The size computed first is the size of the output, so no store misses it.\<close>

lemma toURL_eq: "toURL str t = concat (map (url_unit t) str)"
  using toURL_loop_eq [of "replicate (calcURLEncodingExpandedStringSize str t) 32" 0 t str]
  by (simp add: toURL_def calcURLEncodingExpandedStringSize_def calcURL_acc)

lemma fromURL_escape:
  "c_isxdigit a \<Longrightarrow> c_isxdigit b \<Longrightarrow>
   fromURL (37 # a # b # s) = (hexToValue a * 0x10 + hexToValue b) # fromURL s"
  by simp

lemma fromURL_plain: "c \<noteq> 37 \<Longrightarrow> fromURL (c # s) = c # fromURL s"
  by (simp split: list.split)

lemma plain_not_percent: "\<not> getIfMustBeURLEncoded c ENC_STRICT \<Longrightarrow> c \<noteq> 37"
  by (auto simp: getIfMustBeURLEncoded_def)

lemma fromURL_unit:
  "fromURL (url_unit ENC_STRICT c @ s) =
     (if unat c < 128 then c else word_of_nat (unat c mod 16)) # fromURL s"
proof (cases "getIfMustBeURLEncoded c ENC_STRICT")
  case False
  then have "unat c < 128" using unsigned_less [of c, where ?'a = nat]
    by (auto simp: getIfMustBeURLEncoded_def sint_byte simp del: of_nat_unat split: if_splits)
  then show ?thesis using False by (simp add: url_unit_def fromURL_plain plain_not_percent del: fromURL.simps)
next
  case True
  have lt: "unat c < 256" using unsigned_less [of c] by simp
  have z: "c_isxdigit 48" "hexToValue 48 = 0" by (simp_all add: c_isxdigit_def c_isdigit_def hexToValue_def)
  show ?thesis
    using True lt z
    by (simp add: url_unit_def toHexPair_cases [simplified] fromURL_escape hexToValue_hex_upper byte_nibbles byte_div_mod_16
        del: fromURL.simps)
qed

text \<open>Decoding an encoded string gives back its bytes below 128, and of each other byte only the
  low four bits.\<close>

lemma fromURL_toURL:
  "fromURL (toURL s ENC_STRICT) =
     map (\<lambda>c. if unat c < 128 then c else word_of_nat (unat c mod 16)) s"
  by (induction s) (simp_all add: toURL_eq fromURL_unit del: fromURL.simps(2))

text \<open>A string without the pattern is left alone.\<close>

lemma replaceHexCodes_none:
  "string_find content [92, 48, 120] 0 = None \<Longrightarrow> replaceHexCodes content = content"
  by (simp add: replaceHexCodes_def replaceHexCodes_loop.simps)

lemma find_sub_None_iff_no_first: "n \<notin> set xs \<Longrightarrow> find_sub (n # ns) xs = None"
  by (induction xs) auto

lemma replaceHexCodes_no_backslash: "92 \<notin> set content \<Longrightarrow> replaceHexCodes content = content"
  by (rule replaceHexCodes_none) (simp add: string_find_def find_sub_None_iff_no_first)

subsection \<open>Properties\<close>

text \<open>C1: Base64 is a round trip into a string, into a byte buffer of the size of the encoded
  text, and through the obfuscating pair for every stream of pseudo-random bytes.\<close>

theorem base64_round_trips:
  "fromBase64 (toBase64 s) = s \<and>
   fromBase64Obf dis (toBase64Obf dis True s seed) seed = s \<and>
   (s = [] \<or> xBinContainer_toString (fromBase64ToBin True (toBase64 s)) = s)"
  by (cases "s = []") (simp_all add: fromBase64_toBase64 fromBase64Obf_toBase64Obf fromBase64ToBin_toBase64)

text \<open>The bytes printed by \<^verbatim>\<open>toHex\<close> are read back by \<^verbatim>\<open>fromHex\<close> into the start of a large
  enough buffer, whose remaining bytes are not touched.\<close>

theorem hex_round_trip:
  assumes "length d \<le> length buf"
  shows "fromHex (toHex d) buf (length d) = d @ drop (length d) buf"
  using assms by (rule fromHex_toHex)

theorem hex_round_trip_witness:
  "fromHex (toHex [0xAB, 7]) [1, 2, 3] 2 = [0xAB, 7, 3]"
  using hex_round_trip [of "[0xAB, 7]" "[1, 2, 3]"] by (simp add: numeral_2_eq_2)

text \<open>Percent coding never stores outside the size computed beforehand, and decoding it gives
  back every byte below 128; because \<^verbatim>\<open>toHexPair\<close> divides a signed \<^verbatim>\<open>char\<close>, of every other byte
  only the low half comes back.\<close>

theorem url_round_trip:
  "fromURL (toURL s ENC_STRICT) =
     map (\<lambda>c. if unat c < 128 then c else word_of_nat (unat c mod 16)) s \<and>
   length (toURL s ENC_STRICT) = calcURLEncodingExpandedStringSize s ENC_STRICT"
  by (simp add: fromURL_toURL) (simp add: toURL_eq calcURLEncodingExpandedStringSize_def calcURL_acc)

end
