(* ===== verification/Streams.thy ===== *)
theory Streams
  imports Prelude
begin

text \<open>
  \<^verbatim>\<open>Memory/mdz_mem_vars/streamableobject.{h,cpp}\<close> and \<^verbatim>\<open>streamablestring.cpp\<close>. A stream
  object is a state of type \<^verbatim>\<open>'o\<close>; its virtual \<^verbatim>\<open>write\<close> and \<^verbatim>\<open>writeEOF\<close> are fields of a
  record of methods. A call that does not return is None.
\<close>

subsection \<open>Definitions\<close>

record stream_status =
  bytesWritten :: nat
  succeed :: bool
  finish :: bool

definition Status_new :: stream_status where
  "Status_new = \<lparr>bytesWritten = 0, succeed = True, finish = False\<rparr>"

definition Status_add_count :: "stream_status \<Rightarrow> nat \<Rightarrow> stream_status" where
  "Status_add_count s x = s\<lparr>bytesWritten := add64 (bytesWritten s) x\<rparr>"

definition Status_add :: "stream_status \<Rightarrow> stream_status \<Rightarrow> stream_status" where
  "Status_add s x =
     (let s1 = s\<lparr>bytesWritten := add64 (bytesWritten s) (bytesWritten x)\<rparr>;
          s2 = (if \<not> succeed x then s1\<lparr>succeed := False\<rparr> else s1)
      in if finish x then s2\<lparr>finish := finish x\<rparr> else s2)"

record streamable_object =
  failedWriteState :: nat

definition setFailedWriteState :: "'a streamable_object_scheme \<Rightarrow> nat \<Rightarrow> 'a streamable_object_scheme \<times> bool" where
  "setFailedWriteState s value = (s\<lparr>failedWriteState := value\<rparr>, value = 0)"

text \<open>\<^verbatim>\<open>write\<close> gives the object afterwards, its returned status, and the updated \<^verbatim>\<open>wrStatUpd\<close>.\<close>

type_synonym 'o write_method = "'o \<Rightarrow> byte list \<Rightarrow> stream_status \<Rightarrow> ('o \<times> stream_status \<times> stream_status) option"

record 'o stream_methods =
  so_write :: "'o write_method"
  so_writeEOF :: "'o \<Rightarrow> bool \<Rightarrow> 'o option"

partial_function (option) writeFullStream_loop ::
  "'o write_method \<Rightarrow> byte list \<Rightarrow> 'o \<Rightarrow> stream_status \<Rightarrow> stream_status \<Rightarrow>
   ('o \<times> stream_status \<times> stream_status) option" where
  "writeFullStream_loop w buf obj cur wrStatUpd =
     (if bytesWritten cur < length buf then
        (case w obj (drop (bytesWritten cur) buf) wrStatUpd of
           None \<Rightarrow> None
         | Some (obj', ret, wrStatUpd') \<Rightarrow>
             if \<not> succeed (Status_add cur ret) \<or> finish (Status_add cur ret)
             then Some (obj', Status_add cur ret, wrStatUpd')
             else writeFullStream_loop w buf obj' (Status_add cur ret) wrStatUpd')
      else Some (obj, cur, wrStatUpd))"

definition writeFullStream ::
  "'o write_method \<Rightarrow> 'o \<Rightarrow> byte list \<Rightarrow> stream_status \<Rightarrow> ('o \<times> stream_status \<times> stream_status) option" where
  "writeFullStream w obj buf wrStatUpd = writeFullStream_loop w buf obj Status_new wrStatUpd"

definition writeString ::
  "'o write_method \<Rightarrow> 'o \<Rightarrow> byte list \<Rightarrow> stream_status \<Rightarrow> ('o \<times> stream_status \<times> stream_status) option" where
  "writeString w obj buf wrStatUpd = writeFullStream w obj buf wrStatUpd"

definition writeString1 :: "'o write_method \<Rightarrow> 'o \<Rightarrow> byte list \<Rightarrow> ('o \<times> stream_status) option" where
  "writeString1 w obj buf =
     map_option (\<lambda>(obj', cur, upd). (obj', cur)) (writeString w obj buf Status_new)"

text \<open>The formatted text is what \<^verbatim>\<open>vasprintf\<close> makes of the arguments: None when it fails (it gave
  -1). The status passed to \<^verbatim>\<open>writeString\<close> is the one its result then overwrites.\<close>

definition strPrintf :: "'o write_method \<Rightarrow> 'o \<Rightarrow> byte list option \<Rightarrow> ('o \<times> stream_status) option" where
  "strPrintf w obj formatted =
     (case formatted of
        None \<Rightarrow> Some (obj, Status_new\<lparr>succeed := False\<rparr>)
      | Some var \<Rightarrow>
          map_option (\<lambda>(obj', cur, upd). (obj', cur)) (writeString w obj var Status_new))"

definition strPrintf_upd ::
  "'o write_method \<Rightarrow> 'o \<Rightarrow> stream_status \<Rightarrow> byte list option \<Rightarrow>
   ('o \<times> stream_status \<times> stream_status) option" where
  "strPrintf_upd w obj wrStatUpd formatted =
     (case formatted of
        None \<Rightarrow> Some (obj, Status_new\<lparr>succeed := False\<rparr>, wrStatUpd\<lparr>succeed := False\<rparr>)
      | Some var \<Rightarrow>
          map_option (\<lambda>(obj', cur, upd). (obj', cur, Status_add wrStatUpd cur))
            (writeString w obj var Status_new))"

record streamable_string = streamable_object +
  ss_value :: "byte list"

definition StreamableString_write :: "streamable_string write_method" where
  "StreamableString_write s buf wrStatUpd =
     Some (s\<lparr>ss_value := ss_value s @ buf\<rparr>, Status_add_count Status_new (length buf),
           Status_add_count wrStatUpd (length buf))"

definition StreamableString_writeEOF :: "streamable_string \<Rightarrow> bool \<Rightarrow> streamable_string option" where
  "StreamableString_writeEOF s b = Some s"

definition StreamableString_methods :: "streamable_string stream_methods" where
  "StreamableString_methods = \<lparr>so_write = StreamableString_write, so_writeEOF = StreamableString_writeEOF\<rparr>"

definition StreamableString_streamTo ::
  "'o stream_methods \<Rightarrow> streamable_string \<Rightarrow> 'o \<Rightarrow> stream_status \<Rightarrow> ('o \<times> stream_status \<times> bool) option" where
  "StreamableString_streamTo M s out wrStatUpd =
     (case writeFullStream (so_write M) out (ss_value s) wrStatUpd of
        None \<Rightarrow> None
      | Some (out', cur, upd') \<Rightarrow>
          if \<not> succeed cur \<or> finish cur then
            (if \<not> succeed cur
             then map_option (\<lambda>o'. (o', upd', False)) (so_writeEOF M out' False)
             else map_option (\<lambda>o'. (o', upd', True)) (so_writeEOF M out' True))
          else map_option (\<lambda>o'. (o', upd', True)) (so_writeEOF M out' True))"

text \<open>\<^verbatim>\<open>StreamableObject::toString\<close>: stream into a fresh string; the outcome is ignored.\<close>

definition StreamableObject_toString ::
  "(streamable_string \<Rightarrow> stream_status \<Rightarrow> (streamable_string \<times> stream_status \<times> bool) option)
   \<Rightarrow> byte list option" where
  "StreamableObject_toString streamTo =
     (case streamTo \<lparr>failedWriteState = 0, ss_value = []\<rparr> Status_new of
        None \<Rightarrow> None | Some (s, _, _) \<Rightarrow> Some (ss_value s))"

subsection \<open>Statuses\<close>

lemma Status_new_simps [simp]:
  "bytesWritten Status_new = 0" "succeed Status_new" "\<not> finish Status_new"
  by (simp_all add: Status_new_def)

lemma Status_add_simps [simp]:
  "bytesWritten (Status_add s x) = add64 (bytesWritten s) (bytesWritten x)"
  "succeed (Status_add s x) \<longleftrightarrow> succeed s \<and> succeed x"
  "finish (Status_add s x) \<longleftrightarrow> finish s \<or> finish x"
  by (auto simp: Status_add_def Let_def)

lemma Status_add_count_simps [simp]:
  "bytesWritten (Status_add_count s n) = add64 (bytesWritten s) n"
  "succeed (Status_add_count s n) = succeed s"
  "finish (Status_add_count s n) = finish s"
  by (simp_all add: Status_add_count_def)

subsection \<open>Sinks\<close>

text \<open>
  The contract the writers of streams rely on: a write of a non-empty buffer returns, reports
  no more bytes than it was given, and, when it neither fails nor finishes, at least one; a
  write that succeeds has added exactly the reported bytes to the content.
\<close>

locale stream_sink =
  fixes w :: "'o write_method"
    and content :: "'o \<Rightarrow> byte list"
    and inv :: "'o \<Rightarrow> bool"
  assumes write_returns: "inv obj \<Longrightarrow> buf \<noteq> [] \<Longrightarrow> length buf < u64_mod \<Longrightarrow> \<exists>obj' ret upd'. w obj buf upd = Some (obj', ret, upd')"
    and write_inv: "inv obj \<Longrightarrow> buf \<noteq> [] \<Longrightarrow> length buf < u64_mod \<Longrightarrow> w obj buf upd = Some (obj', ret, upd') \<Longrightarrow> inv obj'"
    and write_bound: "inv obj \<Longrightarrow> buf \<noteq> [] \<Longrightarrow> length buf < u64_mod \<Longrightarrow> w obj buf upd = Some (obj', ret, upd') \<Longrightarrow>
      bytesWritten ret \<le> length buf"
    and write_progress: "inv obj \<Longrightarrow> buf \<noteq> [] \<Longrightarrow> length buf < u64_mod \<Longrightarrow> w obj buf upd = Some (obj', ret, upd') \<Longrightarrow>
      succeed ret \<Longrightarrow> \<not> finish ret \<Longrightarrow> 0 < bytesWritten ret"
    and write_content: "inv obj \<Longrightarrow> buf \<noteq> [] \<Longrightarrow> length buf < u64_mod \<Longrightarrow> w obj buf upd = Some (obj', ret, upd') \<Longrightarrow>
      succeed ret \<Longrightarrow> content obj' = content obj @ take (bytesWritten ret) buf"
begin

text \<open>One round of the loop: either it ends here, or the position has moved forward.\<close>

lemma write_round:
  assumes "inv obj" "bytesWritten cur < length buf" "length buf < u64_mod"
  obtains obj' ret upd' where
    "w obj (drop (bytesWritten cur) buf) upd = Some (obj', ret, upd')" "inv obj'"
    "bytesWritten (Status_add cur ret) = bytesWritten cur + bytesWritten ret"
    "bytesWritten cur + bytesWritten ret \<le> length buf"
    "succeed ret \<Longrightarrow> \<not> finish ret \<Longrightarrow> 0 < bytesWritten ret"
    "succeed ret \<Longrightarrow> content obj' = content obj @ segment (bytesWritten cur) (bytesWritten ret) buf"
proof -
  let ?b = "drop (bytesWritten cur) buf"
  have b: "?b \<noteq> []" "length ?b < u64_mod" using assms by auto
  obtain obj' ret upd' where w: "w obj ?b upd = Some (obj', ret, upd')"
    using write_returns [OF assms(1) b] by blast
  note facts = write_inv [OF assms(1) b w] write_bound [OF assms(1) b w]
    write_progress [OF assms(1) b w] write_content [OF assms(1) b w]
  from w facts assms(2,3) show thesis
    by (intro that [of obj' ret upd']) (auto simp: add64_eq segment_def)
qed

lemma writeFullStream_loop_returns:
  assumes "length buf < u64_mod"
  shows "inv obj \<Longrightarrow> bytesWritten cur \<le> length buf \<Longrightarrow> succeed cur \<Longrightarrow> \<not> finish cur \<Longrightarrow>
    \<exists>obj' cur' upd'. writeFullStream_loop w buf obj cur upd = Some (obj', cur', upd') \<and> inv obj' \<and>
      bytesWritten cur \<le> bytesWritten cur' \<and> bytesWritten cur' \<le> length buf \<and>
      (succeed cur' \<longrightarrow> content obj' =
         content obj @ segment (bytesWritten cur) (bytesWritten cur' - bytesWritten cur) buf) \<and>
      (succeed cur' \<and> \<not> finish cur' \<longrightarrow> bytesWritten cur' = length buf)"
proof (induction "length buf - bytesWritten cur" arbitrary: obj cur upd rule: less_induct)
  case less
  show ?case
  proof (cases "bytesWritten cur < length buf")
    case False
    with less.prems show ?thesis by (simp add: writeFullStream_loop.simps [of w buf obj])
  next
    case True
    obtain obj1 ret upd1 where r: "w obj (drop (bytesWritten cur) buf) upd = Some (obj1, ret, upd1)" "inv obj1"
      "bytesWritten (Status_add cur ret) = bytesWritten cur + bytesWritten ret"
      "bytesWritten cur + bytesWritten ret \<le> length buf"
      "succeed ret \<Longrightarrow> \<not> finish ret \<Longrightarrow> 0 < bytesWritten ret"
      "succeed ret \<Longrightarrow> content obj1 = content obj @ segment (bytesWritten cur) (bytesWritten ret) buf"
      using write_round [OF less.prems(1) True assms] by metis
    let ?cur = "Status_add cur ret"
    show ?thesis
    proof (cases "\<not> succeed ?cur \<or> finish ?cur")
      case stop: True
      with True r less.prems show ?thesis
        by (auto simp: writeFullStream_loop.simps [of w buf obj])
    next
      case go: False
      then have "length buf - bytesWritten ?cur < length buf - bytesWritten cur"
        using r(3,4,5) True by auto
      then obtain obj2 cur2 upd2 where q: "writeFullStream_loop w buf obj1 ?cur upd1 = Some (obj2, cur2, upd2)"
        "inv obj2" "bytesWritten ?cur \<le> bytesWritten cur2" "bytesWritten cur2 \<le> length buf"
        "succeed cur2 \<Longrightarrow> content obj2 = content obj1 @
           segment (bytesWritten ?cur) (bytesWritten cur2 - bytesWritten ?cur) buf"
        "succeed cur2 \<and> \<not> finish cur2 \<Longrightarrow> bytesWritten cur2 = length buf"
        using less.hyps [of ?cur obj1 upd1] r(2,3,4) go by (auto simp del: Status_add_simps(1))
      have "bytesWritten cur2 - bytesWritten cur = bytesWritten ret + (bytesWritten cur2 - bytesWritten ?cur)"
        using q(3) r(3) by simp
      then have seg: "segment (bytesWritten cur) (bytesWritten cur2 - bytesWritten cur) buf =
        segment (bytesWritten cur) (bytesWritten ret) buf @
        segment (bytesWritten ?cur) (bytesWritten cur2 - bytesWritten ?cur) buf"
        using r(3) by (simp only: segment_add)
      have le: "bytesWritten cur \<le> bytesWritten cur2" using q(3) r(3) by simp
      have "content obj2 = content obj @ segment (bytesWritten cur) (bytesWritten cur2 - bytesWritten cur) buf"
        if "succeed cur2"
        using q(5) [OF that] r(6) go by (simp add: seg)
      with True go r(1) q le show ?thesis
        by (simp add: writeFullStream_loop.simps [of w buf obj])
    qed
  qed
qed

text \<open>Writing a whole buffer returns, and a success without an early end has delivered all of it.\<close>

lemma writeFullStream_spec:
  assumes "inv obj" "length buf < u64_mod"
  obtains obj' cur upd' where "writeFullStream w obj buf upd = Some (obj', cur, upd')" "inv obj'"
    "bytesWritten cur \<le> length buf"
    "succeed cur \<Longrightarrow> content obj' = content obj @ take (bytesWritten cur) buf"
    "succeed cur \<Longrightarrow> \<not> finish cur \<Longrightarrow> bytesWritten cur = length buf"
  using writeFullStream_loop_returns [OF assms(2) assms(1), of Status_new upd]
  by (auto simp: writeFullStream_def segment_def)

end

interpretation string_sink: stream_sink StreamableString_write ss_value "\<lambda>_. True"
  by unfold_locales (auto simp: StreamableString_write_def)

end
