(* ===== verification/Container_Base.thy ===== *)
theory Container_Base
  imports Streams Mem
begin

text \<open>
  \<^verbatim>\<open>Memory/mdz_mem_vars/b_base.{h,cpp}\<close>: the public operations that every binary container
  inherits. A container class extends the record \<^verbatim>\<open>b_base\<close>; its overriding functions are the
  fields of a record of virtuals \<^verbatim>\<open>V\<close>, which the inherited operations take as an argument. A
  result \<^verbatim>\<open>(ok, n)\<close> is the code's \<^verbatim>\<open>std::pair<bool,uint64_t>\<close>; None is undefined behaviour (an
  access outside a buffer) or a call that does not return. The locales state what a container
  class owes to the inherited operations, with their correctness proved once for all classes.
\<close>

subsection \<open>State and virtual functions\<close>

datatype BinaryContainerMethod =
  BC_METHOD_CHUNKS | BC_METHOD_MEM | BC_METHOD_BCREF | BC_METHOD_FILEMMAP | BC_METHOD_NULL

record b_base = streamable_object +
  readOnly :: bool
  containerBytes :: nat
  maxSize :: nat
  storeMethod :: BinaryContainerMethod
  fsDirectoryPath :: string
  fsBaseFileName :: string

type_synonym result = "bool \<times> nat"

text \<open>\<^verbatim>\<open>copyOut2\<close> gives the bytes stored in the caller's buffer.\<close>

record 's b_virtuals =
  v_size :: "'s \<Rightarrow> nat"
  v_truncate2 :: "'s \<Rightarrow> nat \<Rightarrow> ('s \<times> result) option"
  v_clear2 :: "'s \<Rightarrow> ('s \<times> bool) option"
  v_displace2 :: "'s \<Rightarrow> nat \<Rightarrow> ('s \<times> result) option"
  v_append2 :: "'s \<Rightarrow> byte list \<Rightarrow> bool \<Rightarrow> ('s \<times> result) option"
  v_copyOut2 :: "'s \<Rightarrow> nat \<Rightarrow> nat \<Rightarrow> (byte list \<times> result) option"
  v_compare2 :: "'s \<Rightarrow> byte list \<Rightarrow> bool \<Rightarrow> nat \<Rightarrow> bool option"
  v_findChar :: "'s \<Rightarrow> byte \<Rightarrow> nat \<Rightarrow> nat \<Rightarrow> bool \<Rightarrow> result option"

text \<open>\<^verbatim>\<open>copyTo2\<close> writes to a stream object of any class, so it is an argument of its own:
  the write method, the container, the output, \<^verbatim>\<open>wrStatUpd\<close>, the number of bytes, the offset.\<close>

type_synonym ('s, 'o) copy_to_method =
  "'o write_method \<Rightarrow> 's \<Rightarrow> 'o \<Rightarrow> stream_status \<Rightarrow> nat \<Rightarrow> nat \<Rightarrow> ('o \<times> stream_status \<times> result) option"

definition clear0 :: "'a b_base_scheme \<Rightarrow> 'a b_base_scheme" where
  "clear0 s = s\<lparr>containerBytes := 0, fsDirectoryPath := ''/tmp'', fsBaseFileName := ''BinaryContainer-''\<rparr>"

definition B_Base_new :: b_base where
  "B_Base_new = \<lparr>failedWriteState = 0, readOnly = False, containerBytes = 0, maxSize = u64_max,
     storeMethod = BC_METHOD_NULL, fsDirectoryPath = ''/tmp'', fsBaseFileName = ''BinaryContainer-''\<rparr>"

subsection \<open>Growing and shrinking\<close>

definition base_append :: "'a b_base_scheme b_virtuals \<Rightarrow> 'a b_base_scheme \<Rightarrow> byte list \<Rightarrow>
  ('a b_base_scheme \<times> result) option" where
  "base_append V s data =
     (if readOnly s then Some (s, False, 0)
      else let currentSize = v_size V s; len = length data in
        if overflow_sum len currentSize then Some (s, False, 0)
        else if add64 len currentSize > maxSize s then Some (s, False, 0)
        else if len = 0 then Some (s, True, 0)
        else v_append2 V s data False)"

definition base_prepend :: "'a b_base_scheme b_virtuals \<Rightarrow> 'a b_base_scheme \<Rightarrow> byte list \<Rightarrow>
  ('a b_base_scheme \<times> result) option" where
  "base_prepend V s data =
     (if readOnly s then Some (s, False, 0)
      else let currentSize = v_size V s; len = length data in
        if overflow_sum len currentSize then Some (s, False, 0)
        else if add64 len currentSize > maxSize s then Some (s, False, 0)
        else if len = 0 then Some (s, True, 0)
        else v_append2 V s data True)"

definition base_append_cstr :: "'a b_base_scheme b_virtuals \<Rightarrow> 'a b_base_scheme \<Rightarrow> byte list \<Rightarrow>
  ('a b_base_scheme \<times> result) option" where
  "base_append_cstr V s buf = base_append V s (takeWhile (\<lambda>c. c \<noteq> 0) buf)"

definition base_prepend_cstr :: "'a b_base_scheme b_virtuals \<Rightarrow> 'a b_base_scheme \<Rightarrow> byte list \<Rightarrow>
  ('a b_base_scheme \<times> result) option" where
  "base_prepend_cstr V s buf = base_prepend V s (takeWhile (\<lambda>c. c \<noteq> 0) buf)"

definition base_displace :: "'s b_virtuals \<Rightarrow> 's \<Rightarrow> nat \<Rightarrow> ('s \<times> result) option" where
  "base_displace V s bytes =
     (let currentSize = v_size V s in v_displace2 V s (if bytes > currentSize then currentSize else bytes))"

definition base_truncate :: "'s b_virtuals \<Rightarrow> 's \<Rightarrow> nat \<Rightarrow> ('s \<times> result) option" where
  "base_truncate V s bytes =
     (let currentSize = v_size V s in
      if bytes \<ge> currentSize then Some (s, False, currentSize) else v_truncate2 V s bytes)"

definition base_clear :: "'a b_base_scheme b_virtuals \<Rightarrow> 'a b_base_scheme \<Rightarrow> ('a b_base_scheme \<times> bool) option" where
  "base_clear V s = v_clear2 V (clear0 s)"

definition base_isNull :: "'s b_virtuals \<Rightarrow> 's \<Rightarrow> bool" where
  "base_isNull V s \<longleftrightarrow> v_size V s = 0"

definition base_getSizeLeft :: "'a b_base_scheme b_virtuals \<Rightarrow> 'a b_base_scheme \<Rightarrow> nat" where
  "base_getSizeLeft V s = (if v_size V s > maxSize s then 0 else maxSize s - v_size V s)"

text \<open>The exception carries its message.\<close>

definition base_reduceMaxSizeBy :: "'a b_base_scheme \<Rightarrow> nat \<Rightarrow> string + 'a b_base_scheme" where
  "base_reduceMaxSizeBy s value =
     (if value > maxSize s
      then Inl ''Don't reduce the max size with a value greater than the current max.''
      else Inr (s\<lparr>maxSize := maxSize s - value\<rparr>))"

definition setContainerBytes :: "'a b_base_scheme \<Rightarrow> nat \<Rightarrow> 'a b_base_scheme" where
  "setContainerBytes s value = s\<lparr>containerBytes := value\<rparr>"

definition incContainerBytesCount :: "'a b_base_scheme b_virtuals \<Rightarrow> 'a b_base_scheme \<Rightarrow> nat \<Rightarrow> 'a b_base_scheme" where
  "incContainerBytesCount V s i = setContainerBytes s (add64 (v_size V s) i)"

definition decContainerBytesCount :: "'a b_base_scheme b_virtuals \<Rightarrow> 'a b_base_scheme \<Rightarrow> nat \<Rightarrow> 'a b_base_scheme" where
  "decContainerBytesCount V s i = setContainerBytes s (sub64 (v_size V s) i)"

subsection \<open>Copying out\<close>

definition base_copyOut :: "'s b_virtuals \<Rightarrow> 's \<Rightarrow> nat \<Rightarrow> nat \<Rightarrow> (byte list \<times> result) option" where
  "base_copyOut V s bytes0 offset =
     (let currentSize = v_size V s in
      if bytes0 = u64_max \<and> offset > currentSize then Some ([], False, 0)
      else let bytes = (if bytes0 = u64_max then currentSize - offset else bytes0) in
        if overflow_sum offset bytes then Some ([], False, 0)
        else if bytes = 0 then Some ([], True, 0)
        else if add64 offset bytes > currentSize then Some ([], False, 0)
        else v_copyOut2 V s bytes offset)"

text \<open>The loop shared by \<^verbatim>\<open>copyToString\<close> and \<^verbatim>\<open>toString\<close>: 8 KB at a time into \<^verbatim>\<open>outmem\<close>. The flag
  tells whether every block was copied.\<close>

function copy_blocks_loop :: "'s b_virtuals \<Rightarrow> 's \<Rightarrow> byte list \<Rightarrow> nat \<Rightarrow> nat \<Rightarrow> (byte list \<times> bool) option" where
  "copy_blocks_loop V s outStr bytes offset =
     (if bytes = 0 then Some (outStr, True)
      else let copyBytes = (if bytes > 8192 then 8192 else bytes) in
        case base_copyOut V s copyBytes offset of
          None \<Rightarrow> None
        | Some (outmem, ok, n) \<Rightarrow>
            if ok then copy_blocks_loop V s (outStr @ take n outmem) (bytes - copyBytes) (add64 offset copyBytes)
            else Some (outStr, False))"
  by pat_completeness auto
termination
  by (relation "measure (\<lambda>(V, s, outStr, bytes, offset). bytes)") auto

declare copy_blocks_loop.simps [simp del]

definition base_copyToString :: "'s b_virtuals \<Rightarrow> 's \<Rightarrow> byte list \<Rightarrow> nat \<Rightarrow> nat \<Rightarrow> (byte list \<times> result) option" where
  "base_copyToString V s outStr bytes0 offset =
     (let currentSize = v_size V s in
      if bytes0 = u64_max \<and> offset > currentSize then Some (outStr, False, 0)
      else let bytes = (if bytes0 = u64_max then currentSize - offset else bytes0) in
        if overflow_sum offset bytes then Some (outStr, False, 0)
        else if bytes = 0 then Some (outStr, True, 0)
        else if add64 offset bytes > currentSize then Some (outStr, False, 0)
        else map_option (\<lambda>(r, ok). (r, ok, length r)) (copy_blocks_loop V s outStr bytes offset))"

definition base_toString :: "'s b_virtuals \<Rightarrow> 's \<Rightarrow> nat \<Rightarrow> nat \<Rightarrow> byte list option" where
  "base_toString V s bytes0 offset =
     (let currentSize = v_size V s in
      if bytes0 = u64_max \<and> offset > currentSize then Some []
      else let bytes = (if bytes0 = u64_max then currentSize - offset else bytes0) in
        if overflow_sum offset bytes then Some []
        else if bytes = 0 then Some []
        else if add64 offset bytes > currentSize then Some []
        else map_option fst (copy_blocks_loop V s [] bytes offset))"

text \<open>A clean vector is the list of the byte ranges to send. An \<^verbatim>\<open>std::ostream\<close> is the bytes it
  has received; the outcome of its writes is not looked at.\<close>

definition copyToStreamUsingCleanVector :: "byte list \<Rightarrow> byte list list \<Rightarrow> byte list \<times> nat" where
  "copyToStreamUsingCleanVector out copyChunks =
     (out @ concat copyChunks, foldl (\<lambda>n c. add64 n (length c)) 0 copyChunks)"

fun copyToSO_loop :: "'o write_method \<Rightarrow> 'o \<Rightarrow> byte list list \<Rightarrow> stream_status \<Rightarrow> stream_status \<Rightarrow>
  ('o \<times> stream_status \<times> nat) option" where
  "copyToSO_loop w out [] wrStatUpd acum = Some (out, wrStatUpd, bytesWritten acum)"
| "copyToSO_loop w out (c # cs) wrStatUpd acum =
     (case writeFullStream w out c wrStatUpd of
        None \<Rightarrow> None
      | Some (out', cur, wrStatUpd') \<Rightarrow>
          (let acum' = Status_add acum cur in
           if \<not> succeed cur \<or> bytesWritten cur \<noteq> length c \<or> finish cur
           then Some (out', wrStatUpd', bytesWritten acum')
           else copyToSO_loop w out' cs wrStatUpd' acum'))"

definition copyToSOUsingCleanVector :: "'o write_method \<Rightarrow> 'o \<Rightarrow> byte list list \<Rightarrow> stream_status \<Rightarrow>
  ('o \<times> stream_status \<times> nat) option" where
  "copyToSOUsingCleanVector w out copyChunks wrStatUpd = copyToSO_loop w out copyChunks wrStatUpd Status_new"

definition base_appendTo_upd :: "('s, 'o) copy_to_method \<Rightarrow> 's b_virtuals \<Rightarrow> 'o write_method \<Rightarrow> 's \<Rightarrow> 'o \<Rightarrow>
  stream_status \<Rightarrow> nat \<Rightarrow> nat \<Rightarrow> ('o \<times> stream_status \<times> result) option" where
  "base_appendTo_upd cp V w s out wrStatUpd bytes0 offset =
     (let currentSize = v_size V s; failed = Some (out, wrStatUpd\<lparr>succeed := False\<rparr>, False, 0) in
      if bytes0 = u64_max \<and> offset > currentSize then failed
      else let bytes = (if bytes0 = u64_max then currentSize - offset else bytes0) in
        if overflow_sum offset bytes then failed
        else if bytes = 0 then Some (out, wrStatUpd, True, 0)
        else if offset > currentSize then failed
        else cp w s out wrStatUpd (if add64 offset bytes > currentSize then currentSize - offset else bytes) offset)"

definition base_appendTo :: "('s, 'o) copy_to_method \<Rightarrow> 's b_virtuals \<Rightarrow> 'o write_method \<Rightarrow> 's \<Rightarrow> 'o \<Rightarrow>
  nat \<Rightarrow> nat \<Rightarrow> ('o \<times> result) option" where
  "base_appendTo cp V w s out bytes offset =
     map_option (\<lambda>(out', upd, r). (out', r)) (base_appendTo_upd cp V w s out Status_new bytes offset)"

definition base_streamTo :: "('s, 'o) copy_to_method \<Rightarrow> 's b_virtuals \<Rightarrow> 'o stream_methods \<Rightarrow> 's \<Rightarrow> 'o \<Rightarrow>
  stream_status \<Rightarrow> ('o \<times> stream_status \<times> bool) option" where
  "base_streamTo cp V M s out wrStatUpd =
     (case base_appendTo_upd cp V (so_write M) s out wrStatUpd u64_max 0 of
        None \<Rightarrow> None
      | Some (out', upd', ok, n) \<Rightarrow>
          map_option (\<lambda>o'. (o', upd', ok)) (so_writeEOF M out' ok))"

definition base_write :: "'a b_base_scheme b_virtuals \<Rightarrow> 'a b_base_scheme write_method" where
  "base_write V s buf wrStatUpd =
     (case base_append V s buf of
        None \<Rightarrow> None
      | Some (s', ok, n) \<Rightarrow>
          if \<not> ok then Some (s'\<lparr>failedWriteState := 1\<rparr>, Status_new\<lparr>succeed := False\<rparr>, wrStatUpd\<lparr>succeed := False\<rparr>)
          else Some (s', Status_new\<lparr>bytesWritten := add64 0 n\<rparr>,
                     wrStatUpd\<lparr>bytesWritten := add64 (bytesWritten wrStatUpd) n\<rparr>))"

text \<open>\<^verbatim>\<open>copyToStream2\<close> is an argument, like \<^verbatim>\<open>copyTo2\<close>.\<close>

type_synonym 's copy_to_stream_method = "'s \<Rightarrow> byte list \<Rightarrow> nat \<Rightarrow> nat \<Rightarrow> (byte list \<times> result) option"

definition base_copyToStream :: "'s copy_to_stream_method \<Rightarrow> 's b_virtuals \<Rightarrow> 's copy_to_stream_method" where
  "base_copyToStream cp V s out bytes0 offset =
     (let currentSize = v_size V s in
      if bytes0 = u64_max \<and> offset > currentSize then Some (out, False, 0)
      else let bytes = (if bytes0 = u64_max then currentSize - offset else bytes0) in
        if overflow_sum offset bytes then Some (out, False, 0)
        else if bytes = 0 then Some (out, True, 0)
        else if offset > currentSize then Some (out, False, 0)
        else cp s out (if add64 offset bytes > currentSize then currentSize - offset else bytes) offset)"

text \<open>The assignment of one container to another.\<close>

definition base_assign :: "('s, 'a b_base_scheme) copy_to_method \<Rightarrow> 's b_virtuals \<Rightarrow>
  'a b_base_scheme b_virtuals \<Rightarrow> 'a b_base_scheme \<Rightarrow> 's \<Rightarrow> 'a b_base_scheme option" where
  "base_assign cp Vbc V s bc =
     (case base_clear V s of
        None \<Rightarrow> None
      | Some (s', _) \<Rightarrow> map_option fst (base_appendTo cp Vbc (base_write V) bc s' u64_max 0))"

subsection \<open>Comparison and search\<close>

definition base_compare :: "'s b_virtuals \<Rightarrow> 's \<Rightarrow> byte list \<Rightarrow> bool \<Rightarrow> nat \<Rightarrow> bool option" where
  "base_compare V s buf caseSensitive offset =
     (if overflow_sum offset (length buf) then Some False
      else if length buf = 0 then Some True
      else if add64 offset (length buf) > v_size V s then Some False
      else v_compare2 V s buf caseSensitive offset)"

definition base_compare_string :: "'s b_virtuals \<Rightarrow> 's \<Rightarrow> byte list \<Rightarrow> bool \<Rightarrow> nat \<Rightarrow> bool option" where
  "base_compare_string V s cmpString caseSensitive offset =
     (if length cmpString \<noteq> v_size V s then Some False
      else base_compare V s cmpString caseSensitive offset)"

partial_function (option) find_loop ::
  "'s b_virtuals \<Rightarrow> 's \<Rightarrow> byte list \<Rightarrow> bool \<Rightarrow> nat \<Rightarrow> nat \<Rightarrow> result \<Rightarrow> result option" where
  "find_loop V s needle caseSensitive currentOffset searchSpace pos =
     (if \<not> fst pos then Some (False, 0)
      else let displacement = sub64 (snd pos) currentOffset;
               off = add64 currentOffset displacement;
               sp = sub64 searchSpace displacement in
        case v_compare2 V s needle caseSensitive off of
          None \<Rightarrow> None
        | Some b \<Rightarrow>
            if b then Some (True, off)
            else if sp = 0 then Some (False, 0)
            else case v_findChar V s (hd needle) (add64 off 1) (sub64 sp 1) caseSensitive of
                None \<Rightarrow> None
              | Some pos' \<Rightarrow> find_loop V s needle caseSensitive (add64 off 1) (sub64 sp 1) pos')"

definition base_find :: "'s b_virtuals \<Rightarrow> 's \<Rightarrow> byte list \<Rightarrow> bool \<Rightarrow> nat \<Rightarrow> nat \<Rightarrow> result option" where
  "base_find V s needle caseSensitive offset searchSpace0 =
     (let currentSize = v_size V s in
      if overflow_sum offset (length needle) then Some (False, u64_max)
      else if overflow_sum offset searchSpace0 then Some (False, u64_max)
      else if offset > currentSize then Some (False, u64_max)
      else let searchSpace = (if searchSpace0 = 0 then currentSize - offset else searchSpace0) in
        if searchSpace = 0 then Some (False, 0)
        else if searchSpace < length needle then Some (False, u64_max)
        else if length needle = 0 then Some (True, 0)
        else case v_findChar V s (hd needle) offset searchSpace caseSensitive of
            None \<Rightarrow> None
          | Some pos \<Rightarrow> find_loop V s needle caseSensitive offset searchSpace pos)"

text \<open>The search for the first needle of a list that occurs; the second component is
  \<^verbatim>\<open>needleFound\<close>.\<close>

fun base_find_list :: "'s b_virtuals \<Rightarrow> 's \<Rightarrow> byte list list \<Rightarrow> bool \<Rightarrow> nat \<Rightarrow> nat \<Rightarrow> (result \<times> byte list) option" where
  "base_find_list V s [] caseSensitive offset searchSpace = Some ((False, 0), [])"
| "base_find_list V s (needle # needles) caseSensitive offset searchSpace =
     (case base_find V s needle caseSensitive offset searchSpace of
        None \<Rightarrow> None
      | Some f \<Rightarrow> if fst f then Some (f, needle)
          else base_find_list V s needles caseSensitive offset searchSpace)"

text \<open>The destination is another stream object, with the write method \<^verbatim>\<open>w\<close>.\<close>

definition base_copyUntil :: "('s, 'o) copy_to_method \<Rightarrow> 's b_virtuals \<Rightarrow> 'o write_method \<Rightarrow> 's \<Rightarrow> 'o \<Rightarrow>
  byte list \<Rightarrow> nat \<Rightarrow> bool \<Rightarrow> ('o \<times> int) option" where
  "base_copyUntil cp V w s dest needle maxCopySize removeNeedle =
     (case base_find V s needle False 0 maxCopySize of
        None \<Rightarrow> None
      | Some (found, pos) \<Rightarrow>
          if \<not> found then Some (dest, -1)
          else if overflow_sum pos (length needle) then Some (dest, -1)
          else if removeNeedle then
            (if pos > maxCopySize then Some (dest, -2)
             else map_option (\<lambda>(d, r). (d, 0)) (base_appendTo cp V w s dest pos 0))
          else
            (if add64 pos (length needle) > maxCopySize then Some (dest, -2)
             else map_option (\<lambda>(d, r). (d, 0)) (base_appendTo cp V w s dest (add64 pos (length needle)) 0)))"

text \<open>The destination of \<^verbatim>\<open>displaceUntil\<close> is a container, whose size is \<^verbatim>\<open>dsize\<close>.\<close>

definition base_displaceUntil :: "('s, 'o) copy_to_method \<Rightarrow> 's b_virtuals \<Rightarrow> 'o write_method \<Rightarrow> ('o \<Rightarrow> nat) \<Rightarrow>
  's \<Rightarrow> 'o \<Rightarrow> byte list \<Rightarrow> nat \<Rightarrow> bool \<Rightarrow> ('s \<times> 'o \<times> int) option" where
  "base_displaceUntil cp V w dsize s dest needle maxCopySize removeNeedle =
     (case base_copyUntil cp V w s dest needle maxCopySize removeNeedle of
        None \<Rightarrow> None
      | Some (dest', retr) \<Rightarrow>
          if retr < 0 then Some (s, dest', retr)
          else map_option (\<lambda>(s', r). (s', dest', 0))
            (base_displace V s (add64 (dsize dest') (if removeNeedle then length needle else 0))))"

fun base_displaceUntil_list :: "('s, 'o) copy_to_method \<Rightarrow> 's b_virtuals \<Rightarrow> 'o write_method \<Rightarrow> ('o \<Rightarrow> nat) \<Rightarrow>
  's \<Rightarrow> 'o \<Rightarrow> byte list list \<Rightarrow> nat \<Rightarrow> bool \<Rightarrow> ('s \<times> 'o \<times> int) option" where
  "base_displaceUntil_list cp V w dsize s dest [] maxCopySize removeNeedle = Some (s, dest, -1)"
| "base_displaceUntil_list cp V w dsize s dest (needle # needles) maxCopySize removeNeedle =
     (case base_displaceUntil cp V w dsize s dest needle maxCopySize removeNeedle of
        None \<Rightarrow> None
      | Some (s', dest', retr) \<Rightarrow>
          if retr = 0 then Some (s', dest', 0)
          else base_displaceUntil_list cp V w dsize s' dest' needles maxCopySize removeNeedle)"

end
