(* ===== verification/Container_Contracts.thy ===== *)
theory Container_Contracts
  imports Container_Base
begin

text \<open>
  What the operations inherited from \<^verbatim>\<open>B_Base\<close> rely on, as locales over the record of virtual
  functions, a content \<^verbatim>\<open>content s\<close> (the bytes the container holds) and an invariant. Each
  container class interprets the ones it satisfies.
\<close>

subsection \<open>Reading\<close>

locale container_read =
  fixes V :: "'s b_virtuals"
    and content :: "'s \<Rightarrow> byte list"
    and inv :: "'s \<Rightarrow> bool"
  assumes size_content: "inv s \<Longrightarrow> v_size V s = length (content s)"
    and content_bound: "inv s \<Longrightarrow> length (content s) < u64_mod"
begin

lemma isNull_iff: "inv s \<Longrightarrow> base_isNull V s \<longleftrightarrow> content s = []"
  by (simp add: base_isNull_def size_content)

end

locale container_copy = container_read +
  assumes copyOut2_law: "inv s \<Longrightarrow> 0 < n \<Longrightarrow> off + n \<le> length (content s) \<Longrightarrow>
    v_copyOut2 V s n off = Some (segment off n (content s), True, n)"
begin

lemma copyOut_inside:
  assumes "inv s" "off + n \<le> length (content s)"
  shows "base_copyOut V s n off = Some (segment off n (content s), True, n)"
proof -
  have len: "length (content s) < u64_mod" "v_size V s = length (content s)"
    using assms(1) content_bound size_content by simp_all
  then have "n = u64_max \<Longrightarrow> length (content s) - off = n" using assms(2) by (auto simp: u64_max_def)
  with len assms copyOut2_law [of s n off] show ?thesis
    by (cases "n = 0") (auto simp: base_copyOut_def Let_def no_overflow_sum add64_eq u64_max_def)
qed

text \<open>A request that does not fit fails and copies nothing.\<close>

lemma copyOut_outside:
  assumes "inv s" "length (content s) < off + n" "0 < n" "n < u64_max" "off < u64_mod"
  shows "base_copyOut V s n off = Some ([], False, 0)"
  using assms size_content [of s] no_overflow_sumD [of off n]
  by (auto simp: base_copyOut_def Let_def add64_eq u64_max_def)

lemma copy_blocks_loop_eq:
  "inv s \<Longrightarrow> off + n \<le> length (content s) \<Longrightarrow>
   copy_blocks_loop V s out n off = Some (out @ segment off n (content s), True)"
proof (induction n arbitrary: out off rule: less_induct)
  case (less n)
  show ?case
  proof (cases "n = 0")
    case True
    then show ?thesis by (simp add: copy_blocks_loop.simps)
  next
    case False
    let ?c = "if n > 8192 then 8192 else n"
    have c: "0 < ?c" "?c \<le> n" using False by auto
    have seg: "segment off n (content s) = segment off ?c (content s) @ segment (off + ?c) (n - ?c) (content s)"
      using segment_add [of off ?c "n - ?c" "content s"] c(2) by simp
    have cp: "base_copyOut V s ?c off = Some (segment off ?c (content s), True, ?c)"
      using less.prems c by (intro copyOut_inside) simp_all
    have len: "length (segment off ?c (content s)) = ?c"
      using less.prems c(2) by (simp add: length_segment)
    have "copy_blocks_loop V s out n off =
        copy_blocks_loop V s (out @ segment off ?c (content s)) (n - ?c) (add64 off ?c)"
      using False len by (subst copy_blocks_loop.simps) (simp only: cp Let_def, simp)
    also have "\<dots> = Some ((out @ segment off ?c (content s)) @ segment (off + ?c) (n - ?c) (content s), True)"
      using less.prems c content_bound [of s]
      by (subst add64_eq) (linarith, intro less.IH, simp_all)
    finally show ?thesis by (simp only: seg append_assoc)
  qed
qed

lemma toString_all:
  assumes "inv s" shows "base_toString V s u64_max 0 = Some (content s)"
  using assms copy_blocks_loop_eq [OF assms, of 0 "length (content s)" "[]"] size_content [of s] content_bound [of s]
  by (auto simp: base_toString_def Let_def no_overflow_sum add64_eq segment_def)

lemma toString_inside:
  assumes "inv s" "off + n \<le> length (content s)" "n \<noteq> u64_max"
  shows "base_toString V s n off = Some (segment off n (content s))"
  using assms copy_blocks_loop_eq [OF assms(1,2), of "[]"] size_content [of s] content_bound [of s]
  by (auto simp: base_toString_def Let_def no_overflow_sum add64_eq)

lemma copyToString_all:
  assumes "inv s"
  shows "base_copyToString V s str u64_max 0 =
    Some (str @ content s, True, if content s = [] then 0 else length str + length (content s))"
  using assms copy_blocks_loop_eq [OF assms, of 0 "length (content s)" str] size_content [of s] content_bound [of s]
  by (auto simp: base_copyToString_def Let_def no_overflow_sum add64_eq segment_def)

end

subsection \<open>Shrinking\<close>

locale container_truncate = container_read +
  assumes truncate2_law: "inv s \<Longrightarrow> n < length (content s) \<Longrightarrow>
    \<exists>s' ok. v_truncate2 V s n = Some (s', ok, n) \<and> inv s' \<and> content s' = take n (content s)"
begin

lemma truncate_content:
  assumes "inv s"
  shows "\<exists>s' ok. base_truncate V s n = Some (s', ok, min n (length (content s))) \<and> inv s' \<and>
    content s' = take n (content s)"
  using assms truncate2_law [of s n] size_content [of s]
  by (cases "n < length (content s)") (auto simp: base_truncate_def Let_def min_def)

end

locale container_displace = container_read +
  assumes displace2_law: "inv s \<Longrightarrow> n \<le> length (content s) \<Longrightarrow>
    \<exists>s'. v_displace2 V s n = Some (s', True, n) \<and> inv s' \<and> content s' = drop n (content s)"
begin

lemma displace_content:
  assumes "inv s"
  shows "\<exists>s'. base_displace V s n = Some (s', True, min n (length (content s))) \<and> inv s' \<and>
    content s' = drop n (content s)"
  using assms displace2_law [of s n] displace2_law [of s "length (content s)"] size_content [of s]
  by (auto simp: base_displace_def Let_def min_def)

end

subsection \<open>Growing\<close>

text \<open>A call of \<^verbatim>\<open>append2\<close> may store only a part of the data, when it fails.\<close>

locale container_append = container_read V content inv
  for V :: "'a b_base_scheme b_virtuals" and content and inv +
  assumes append2_law: "inv s \<Longrightarrow> data \<noteq> [] \<Longrightarrow> length (content s) + length data < u64_mod \<Longrightarrow>
      \<exists>s' ok n. v_append2 V s data False = Some (s', ok, n) \<and> inv s' \<and> n \<le> length data \<and>
        content s' = content s @ take n data \<and> (ok \<longrightarrow> n = length data)"
    and inv_failedWriteState: "inv s \<Longrightarrow> inv (s\<lparr>failedWriteState := x\<rparr>)"
    and content_failedWriteState: "content (s\<lparr>failedWriteState := x\<rparr>) = content s"
begin

lemma append_spec:
  assumes "inv s" "length data < u64_mod"
  shows "\<exists>s' ok n. base_append V s data = Some (s', ok, n) \<and> inv s' \<and> n \<le> length data \<and>
      content s' = content s @ take n data \<and> (ok \<longrightarrow> n = length data)"
  using assms append2_law [of s data] size_content [of s] content_bound [of s]
    no_overflow_sumD [of "length data" "length (content s)"]
  by (auto simp: base_append_def Let_def add.commute)

text \<open>Nothing is stored past the maximum size.\<close>

lemma append_over_limit:
  assumes "inv s" "length data < u64_mod" "maxSize s < length (content s) + length data" "maxSize s < u64_mod"
  shows "base_append V s data = Some (s, False, 0)"
  using assms size_content [of s] content_bound [of s] no_overflow_sumD [of "length data" "length (content s)"]
  by (auto simp: base_append_def Let_def add64_eq add.commute)

lemma base_write_cases:
  assumes "inv s" "length data < u64_mod"
  obtains s' n where "base_write V s data upd = Some (s', Status_new\<lparr>bytesWritten := n\<rparr>,
        upd\<lparr>bytesWritten := add64 (bytesWritten upd) n\<rparr>)" "n = length data"
      "inv s'" "content s' = content s @ data"
    | s' where "base_write V s data upd = Some (s', Status_new\<lparr>succeed := False\<rparr>, upd\<lparr>succeed := False\<rparr>)"
      "inv s'"
proof -
  obtain s1 ok n where a: "base_append V s data = Some (s1, ok, n)" "inv s1" "n \<le> length data"
    "content s1 = content s @ take n data" "ok \<longrightarrow> n = length data"
    using append_spec [OF assms] by blast
  show thesis
  proof (cases ok)
    case True
    with a assms(2) show ?thesis by (intro that(1) [of s1 n]) (simp_all add: base_write_def)
  next
    case False
    with a show ?thesis
      by (intro that(2) [of "s1\<lparr>failedWriteState := 1\<rparr>"]) (simp_all add: base_write_def inv_failedWriteState)
  qed
qed

lemma base_write_returns:
  "inv s \<Longrightarrow> length data < u64_mod \<Longrightarrow> \<exists>s' ret upd'. base_write V s data upd = Some (s', ret, upd')"
  by (rule base_write_cases [of s data upd]) auto

lemma base_write_result:
  assumes "inv s" "length data < u64_mod" "base_write V s data upd = Some (s', ret, upd')"
  shows "inv s'" "bytesWritten ret \<le> length data" "\<not> finish ret"
    "succeed ret \<Longrightarrow> bytesWritten ret = length data"
    "succeed ret \<Longrightarrow> content s' = content s @ take (bytesWritten ret) data"
  using assms(3) by (rule_tac base_write_cases [OF assms(1,2), of upd]; auto)+

end

text \<open>Written to through its stream interface, a container is a sink.\<close>

sublocale container_append \<subseteq> sink: stream_sink "base_write V" content inv
proof unfold_locales
  fix obj :: "'a b_base_scheme" and buf :: "byte list" and upd
  assume i: "inv obj" "buf \<noteq> []" "length buf < u64_mod"
  show "\<exists>obj' ret upd'. base_write V obj buf upd = Some (obj', ret, upd')"
    using i by (simp add: base_write_returns)
  fix obj' ret upd'
  assume w: "base_write V obj buf upd = Some (obj', ret, upd')"
  note r = base_write_result [OF i(1,3) w]
  show "inv obj'" "bytesWritten ret \<le> length buf" by (fact r)+
  show "0 < bytesWritten ret" if "succeed ret" using r(4) [OF that] i(2) by simp
  show "content obj' = content obj @ take (bytesWritten ret) buf" if "succeed ret" by (rule r(5) [OF that])
qed

text \<open>
  A sink that has room: as long as a write fits, it succeeds and is not the last one.
\<close>

locale reliable_sink = stream_sink +
  fixes room :: "'a \<Rightarrow> nat"
  assumes write_fits: "inv obj \<Longrightarrow> buf \<noteq> [] \<Longrightarrow> length buf < u64_mod \<Longrightarrow> length buf \<le> room obj \<Longrightarrow>
    w obj buf upd = Some (obj', ret, upd') \<Longrightarrow>
    succeed ret \<and> \<not> finish ret \<and> room obj \<le> room obj' + bytesWritten ret"
begin

lemma writeFullStream_loop_complete:
  "inv obj \<Longrightarrow> bytesWritten cur \<le> length buf \<Longrightarrow> length buf < u64_mod \<Longrightarrow> succeed cur \<Longrightarrow> \<not> finish cur \<Longrightarrow>
   length buf - bytesWritten cur \<le> room obj \<Longrightarrow>
   \<exists>obj' cur' upd'. writeFullStream_loop w buf obj cur upd = Some (obj', cur', upd') \<and> inv obj' \<and>
     succeed cur' \<and> \<not> finish cur' \<and> bytesWritten cur' = length buf \<and>
     room obj \<le> room obj' + (length buf - bytesWritten cur)"
proof (induction "length buf - bytesWritten cur" arbitrary: obj cur upd rule: less_induct)
  case less
  show ?case
  proof (cases "bytesWritten cur < length buf")
    case False
    with less.prems show ?thesis by (simp add: writeFullStream_loop.simps [of w buf obj])
  next
    case True
    let ?b = "drop (bytesWritten cur) buf"
    have b: "?b \<noteq> []" "length ?b < u64_mod" using True less.prems(3) by auto
    obtain obj1 ret upd1 where r: "w obj ?b upd = Some (obj1, ret, upd1)"
      using write_returns [OF less.prems(1) b] by blast
    have f: "succeed ret" "\<not> finish ret" "room obj \<le> room obj1 + bytesWritten ret"
      using write_fits [OF less.prems(1) b _ r] less.prems(6) by auto
    note s = write_inv [OF less.prems(1) b r] write_bound [OF less.prems(1) b r]
      write_progress [OF less.prems(1) b r f(1,2)]
    let ?cur = "Status_add cur ret"
    have c: "bytesWritten ?cur = bytesWritten cur + bytesWritten ret" "succeed ?cur" "\<not> finish ?cur"
      using s(2) f less.prems by (simp_all add: add64_eq)
    have "\<exists>obj' cur' upd'. writeFullStream_loop w buf obj1 ?cur upd1 = Some (obj', cur', upd') \<and> inv obj' \<and>
        succeed cur' \<and> \<not> finish cur' \<and> bytesWritten cur' = length buf \<and>
        room obj1 \<le> room obj' + (length buf - bytesWritten ?cur)"
      by (rule less.hyps) (use s f c True less.prems in auto)
    then obtain obj' cur' upd' where q: "writeFullStream_loop w buf obj1 ?cur upd1 = Some (obj', cur', upd')"
      "inv obj'" "succeed cur'" "\<not> finish cur'" "bytesWritten cur' = length buf"
      "room obj1 \<le> room obj' + (length buf - bytesWritten ?cur)" by blast
    have "writeFullStream_loop w buf obj cur upd = Some (obj', cur', upd')"
      using True r c q(1) by (simp add: writeFullStream_loop.simps [of w buf obj])
    moreover have "room obj \<le> room obj' + (length buf - bytesWritten cur)"
      using q(6) f(3) c(1) s(2) by (simp only: c(1)) simp
    ultimately show ?thesis using q by blast
  qed
qed

lemma writeFullStream_complete:
  assumes "inv obj" "length buf < u64_mod" "length buf \<le> room obj"
  obtains obj' cur upd' where "writeFullStream w obj buf upd = Some (obj', cur, upd')" "inv obj'"
    "succeed cur" "\<not> finish cur" "bytesWritten cur = length buf" "content obj' = content obj @ buf"
    "room obj \<le> room obj' + length buf"
proof -
  obtain obj' cur upd' where q: "writeFullStream_loop w buf obj Status_new upd = Some (obj', cur, upd')"
    "inv obj'" "succeed cur" "\<not> finish cur" "bytesWritten cur = length buf" "room obj \<le> room obj' + length buf"
    using writeFullStream_loop_complete [of obj Status_new buf upd] assms by auto
  moreover have "content obj' = content obj @ buf"
    using writeFullStream_loop_returns [OF assms(2,1), of Status_new upd] q by (auto simp: segment_def)
  ultimately show thesis using that by (simp add: writeFullStream_def)
qed

lemma copyToSO_complete:
  "inv out \<Longrightarrow> bytesWritten acum + length (concat cs) < u64_mod \<Longrightarrow> length (concat cs) \<le> room out \<Longrightarrow>
   \<exists>out' upd'. copyToSO_loop w out cs upd acum = Some (out', upd', bytesWritten acum + length (concat cs)) \<and>
     inv out' \<and> content out' = content out @ concat cs \<and> room out \<le> room out' + length (concat cs)"
proof (induction cs arbitrary: out upd acum)
  case Nil
  then show ?case by simp
next
  case (Cons c cs)
  obtain out1 cur upd1 where q: "writeFullStream w out c upd = Some (out1, cur, upd1)" "inv out1"
    "succeed cur" "\<not> finish cur" "bytesWritten cur = length c" "content out1 = content out @ c"
    "room out \<le> room out1 + length c"
    by (rule writeFullStream_complete [of out c upd]) (use Cons.prems in auto)
  let ?a = "Status_add acum cur"
  have a: "bytesWritten ?a = bytesWritten acum + length c" using q Cons.prems by (simp add: add64_eq)
  obtain out' upd' where "copyToSO_loop w out1 cs upd1 ?a = Some (out', upd', bytesWritten ?a + length (concat cs))"
    "inv out'" "content out' = content out1 @ concat cs" "room out1 \<le> room out' + length (concat cs)"
    using Cons.IH [of out1 ?a upd1] Cons.prems q a by auto
  with q a show ?case by (auto simp: Let_def)
qed

end

interpretation string_room: reliable_sink StreamableString_write ss_value "\<lambda>_. True" "\<lambda>_. u64_max"
  by unfold_locales (auto simp: StreamableString_write_def)

subsection \<open>Sending\<close>

text \<open>A container sends a range of its content as consecutive pieces.\<close>

locale container_send = container_read V content inv
  for V :: "'s b_virtuals" and content and inv +
  fixes cp :: "('s, 'o) copy_to_method"
  assumes copyTo2_law: "inv s \<Longrightarrow> off + n \<le> length (content s) \<Longrightarrow>
    \<exists>cs. concat cs = segment off n (content s) \<and> (\<forall>w out upd. cp w s out upd n off =
      map_option (\<lambda>(o', u, m). (o', u, True, m)) (copyToSOUsingCleanVector w out cs upd))"
begin

text \<open>What is appended to a sink with enough room is exactly the requested part, clipped at the
  end of the container.\<close>

lemma appendTo_reliable:
  assumes sink: "reliable_sink w cont i room" and s: "inv s" "off \<le> length (content s)"
    and out: "i out" "length (content s) \<le> room out" and n: "n < u64_mod" "off + n < u64_mod \<or> n = u64_max"
  shows "\<exists>out' upd'. base_appendTo_upd cp V w s out upd n off = Some (out', upd', True, length (segment off n (content s))) \<and>
    i out' \<and> cont out' = cont out @ segment off n (content s)"
proof -
  let ?len = "length (content s)"
  let ?m = "min n (?len - off)"
  have len: "v_size V s = ?len" "?len < u64_mod" using s size_content content_bound by simp_all
  have seg: "segment off n (content s) = segment off ?m (content s)" by (simp add: segment_def min_def)
  have m: "length (segment off n (content s)) = ?m" "off + ?m \<le> ?len" using s(2) by (auto simp: segment_def min_def)
  have call: "base_appendTo_upd cp V w s out upd n off =
      (if n = 0 \<or> n = u64_max \<and> ?m = 0 then Some (out, upd, True, 0) else cp w s out upd ?m off)"
  proof (cases "n = u64_max")
    case True
    then have "?m = ?len - off" using len(2) by (auto simp: min_def u64_max_def)
    moreover have "u64_max \<noteq> 0" by (simp add: u64_max_def u64_mod_def)
    ultimately show ?thesis using True m(2) len s(2)
      by (simp add: base_appendTo_upd_def Let_def no_overflow_sum add64_eq)
  next
    case False
    then have o: "\<not> overflow_sum off n" "add64 off n = off + n" using n by (auto simp: no_overflow_sum add64_eq)
    show ?thesis
      using False o len s(2) by (auto simp: base_appendTo_upd_def Let_def min_def)
  qed
  show ?thesis
  proof (cases "n = 0 \<or> n = u64_max \<and> ?m = 0")
    case True
    then have "segment off n (content s) = []" using seg by auto
    with True call out show ?thesis by simp
  next
    case False
    obtain cs where cs: "concat cs = segment off ?m (content s)"
      "\<And>w out upd. cp w s out upd ?m off =
        map_option (\<lambda>(o', u, m). (o', u, True, m)) (copyToSOUsingCleanVector w out cs upd)"
      using copyTo2_law [OF s(1) m(2)] by blast
    have l: "length (concat cs) = ?m" using m cs(1) seg by simp
    obtain out' upd' where "copyToSO_loop w out cs upd Status_new =
        Some (out', upd', bytesWritten Status_new + length (concat cs))" "i out'" "cont out' = cont out @ concat cs"
      using reliable_sink.copyToSO_complete [OF sink out(1), of Status_new cs upd] l len(2) out(2)
      by fastforce
    moreover have "base_appendTo_upd cp V w s out upd n off = cp w s out upd ?m off"
      by (simp only: call False if_False)
    ultimately show ?thesis using cs l m(1) seg
      by (simp add: copyToSOUsingCleanVector_def)
  qed
qed

lemma appendTo_all:
  assumes "reliable_sink w cont i room" "inv s" "i out" "length (content s) \<le> room out"
  shows "\<exists>out' upd'. base_appendTo_upd cp V w s out upd u64_max 0 = Some (out', upd', True, length (content s)) \<and>
    i out' \<and> cont out' = cont out @ content s"
proof -
  have "segment 0 u64_max (content s) = content s"
    using content_bound [OF assms(2)] by (simp add: segment_def u64_max_def)
  with appendTo_reliable [OF assms(1,2) _ assms(3,4), of 0 u64_max upd] show ?thesis by simp
qed

text \<open>Streaming the container into a sink with enough room delivers all of it, then reports the
  end of the stream as successful.\<close>

lemma streamTo_all:
  assumes "reliable_sink (so_write M) cont i room" "inv s" "i out" "length (content s) \<le> room out"
  shows "\<exists>out' upd'. i out' \<and> cont out' = cont out @ content s \<and>
    base_streamTo cp V M s out upd = map_option (\<lambda>o'. (o', upd', True)) (so_writeEOF M out' True)"
proof -
  obtain out' upd' where a: "base_appendTo_upd cp V (so_write M) s out upd u64_max 0 =
      Some (out', upd', True, length (content s))" "i out'" "cont out' = cont out @ content s"
    using appendTo_all [OF assms, of upd] by blast
  then have "base_streamTo cp V M s out upd = map_option (\<lambda>o'. (o', upd', True)) (so_writeEOF M out' True)"
    by (simp add: base_streamTo_def)
  with a show ?thesis by blast
qed

end

subsection \<open>Searching\<close>

fun find_index :: "('a \<Rightarrow> bool) \<Rightarrow> 'a list \<Rightarrow> nat option" where
  "find_index P [] = None"
| "find_index P (x # xs) = (if P x then Some 0 else map_option Suc (find_index P xs))"

lemma find_index_None: "find_index P xs = None \<longleftrightarrow> (\<forall>x\<in>set xs. \<not> P x)"
  by (induction xs) auto

lemma find_index_Some:
  "find_index P xs = Some i \<longleftrightarrow> i < length xs \<and> P (xs ! i) \<and> (\<forall>j<i. \<not> P (xs ! j))"
proof (induction xs arbitrary: i)
  case (Cons x xs)
  show ?case
  proof (cases i)
    case 0
    then show ?thesis by auto
  next
    case (Suc k)
    then show ?thesis using Cons.IH [of k] by (auto simp: less_Suc_eq_0_disj)
  qed
qed simp

definition same_bytes :: "bool \<Rightarrow> byte list \<Rightarrow> byte list \<Rightarrow> bool" where
  "same_bytes caseSensitive xs ys \<longleftrightarrow> (if caseSensitive then xs = ys else same_nocase xs ys)"

definition matches_at :: "bool \<Rightarrow> byte list \<Rightarrow> byte list \<Rightarrow> nat \<Rightarrow> bool" where
  "matches_at caseSensitive needle xs p \<longleftrightarrow> p + length needle \<le> length xs \<and>
     same_bytes caseSensitive (segment p (length needle) xs) needle"

text \<open>
  \<^verbatim>\<open>hit\<close> tells which bytes \<^verbatim>\<open>findChar\<close> stops at, and \<^verbatim>\<open>rest0\<close> whether a search space of 0
  means the rest of the container.
\<close>

locale container_search = container_read V content inv
  for V :: "'s b_virtuals" and content and inv +
  fixes hit :: "bool \<Rightarrow> byte \<Rightarrow> byte \<Rightarrow> bool" and rest0 :: bool
  assumes findChar_law: "inv s \<Longrightarrow> off + sp \<le> length (content s) \<Longrightarrow>
      v_findChar V s c off sp cs =
        Some (case find_index (hit cs c)
                (segment off (if sp = 0 \<and> rest0 then length (content s) - off else sp) (content s)) of
                None \<Rightarrow> (False, 0) | Some i \<Rightarrow> (True, off + i))"
    and compare2_law: "inv s \<Longrightarrow> buf \<noteq> [] \<Longrightarrow> length buf \<le> 64 * KB_MULT \<Longrightarrow> off < u64_mod \<Longrightarrow>
      v_compare2 V s buf cs off =
        Some (off + length buf \<le> length (content s) \<and> same_bytes cs (segment off (length buf) (content s)) buf)"
begin

definition occurs_at :: "'s \<Rightarrow> byte list \<Rightarrow> bool \<Rightarrow> nat \<Rightarrow> bool" where
  "occurs_at s needle cs p \<longleftrightarrow> p + length needle \<le> length (content s) \<and>
     hit cs (hd needle) (content s ! p) \<and> same_bytes cs (segment p (length needle) (content s)) needle"

lemma compare_law:
  assumes "inv s" "buf \<noteq> []" "length buf \<le> 64 * KB_MULT" "off < u64_mod"
  shows "base_compare V s buf cs off =
    Some (off + length buf \<le> length (content s) \<and> same_bytes cs (segment off (length buf) (content s)) buf)"
  using assms compare2_law [OF assms, of cs] content_bound [of s] size_content [of s]
    no_overflow_sumD [of off "length buf"] no_overflow_sum [of off "length buf"]
  by (auto simp: base_compare_def add64_eq)

text \<open>The loop goes from hit to hit; it ends at the first occurrence, or when none is left up to
  the end \<^verbatim>\<open>lim\<close> of the search space.\<close>

lemma find_loop_spec:
  assumes "inv s" "needle \<noteq> []" "length needle \<le> 64 * KB_MULT" "\<not> rest0 \<or> lim = length (content s)"
    "lim \<le> length (content s)"
  shows "off \<le> lim \<Longrightarrow> v_findChar V s (hd needle) off (lim - off) cs = Some pos \<Longrightarrow>
    \<exists>r. find_loop V s needle cs off (lim - off) pos = Some r \<and>
      (fst r \<longrightarrow> off \<le> snd r \<and> snd r < lim \<and> occurs_at s needle cs (snd r) \<and>
         (\<forall>q. off \<le> q \<longrightarrow> q < snd r \<longrightarrow> \<not> occurs_at s needle cs q)) \<and>
      (\<not> fst r \<longrightarrow> (\<forall>q. off \<le> q \<longrightarrow> q < lim \<longrightarrow> \<not> occurs_at s needle cs q))"
proof (induction "lim - off" arbitrary: off pos rule: less_induct)
  case less
  let ?n = "content s" and ?h = "hit cs (hd needle)"
  have eff: "(if lim - off = 0 \<and> rest0 then length ?n - off else lim - off) = lim - off" for off
    using assms(4) by auto
  have fc: "v_findChar V s (hd needle) off (lim - off) cs =
      Some (case find_index ?h (segment off (lim - off) ?n) of None \<Rightarrow> (False, 0) | Some i \<Rightarrow> (True, off + i))"
    if "off \<le> lim" for off
    using that assms(1,5) findChar_law [of s off "lim - off" "hd needle" cs] by (simp only: eff)
  have seg: "length (segment off (lim - off) ?n) = lim - off"
    "\<And>j. j < lim - off \<Longrightarrow> segment off (lim - off) ?n ! j = ?n ! (off + j)"
    using less.prems(1) assms(5) by (auto simp: length_segment nth_segment)
  show ?case
  proof (cases "find_index ?h (segment off (lim - off) ?n)")
    case None
    then have pos: "pos = (False, 0)" using less.prems fc by simp
    have "\<not> occurs_at s needle cs q" if "off \<le> q" "q < lim" for q
    proof -
      have "segment off (lim - off) ?n ! (q - off) \<in> set (segment off (lim - off) ?n)"
        using that seg(1) by (intro nth_mem) simp
      then have "\<not> ?h (?n ! q)" using None that seg(2) [of "q - off"] by (auto simp: find_index_None)
      then show ?thesis by (simp add: occurs_at_def)
    qed
    with pos show ?thesis by (auto simp: find_loop.simps [of V s needle])
  next
    case (Some i)
    then have i: "i < lim - off" "?h (?n ! (off + i))" "\<And>j. j < i \<Longrightarrow> \<not> ?h (?n ! (off + j))"
      using seg by (auto simp: find_index_Some)
    have pos: "pos = (True, off + i)" using Some less.prems fc by simp
    have bound: "lim < u64_mod" using assms(5) content_bound [OF assms(1)] by simp
    have arith: "sub64 (off + i) off = i" "add64 off i = off + i" "sub64 (lim - off) i = lim - (off + i)"
      "add64 (off + i) 1 = off + i + 1" "sub64 (lim - (off + i)) 1 = lim - (off + i + 1)"
      using i(1) bound by (simp_all add: sub64_eq add64_eq)
    have skip: "\<not> occurs_at s needle cs q" if "off \<le> q" "q < off + i" for q
      using i(3) [of "q - off"] that by (simp add: occurs_at_def)
    have cmp: "v_compare2 V s needle cs (off + i) = Some (occurs_at s needle cs (off + i))"
      using compare2_law [OF assms(1-3), of "off + i" cs] i(1,2) bound
      by (simp add: occurs_at_def)
    show ?thesis
    proof (cases "occurs_at s needle cs (off + i)")
      case True
      then show ?thesis using pos arith cmp skip i(1)
        by (auto simp: find_loop.simps [of V s needle] Let_def)
    next
      case False
      obtain pos' where p': "v_findChar V s (hd needle) (off + i + 1) (lim - (off + i + 1)) cs = Some pos'"
        using fc [of "off + i + 1"] i(1) by auto
      have "\<exists>r. find_loop V s needle cs (off + i + 1) (lim - (off + i + 1)) pos' = Some r \<and>
        (fst r \<longrightarrow> off + i + 1 \<le> snd r \<and> snd r < lim \<and> occurs_at s needle cs (snd r) \<and>
          (\<forall>q. off + i + 1 \<le> q \<longrightarrow> q < snd r \<longrightarrow> \<not> occurs_at s needle cs q)) \<and>
        (\<not> fst r \<longrightarrow> (\<forall>q. off + i + 1 \<le> q \<longrightarrow> q < lim \<longrightarrow> \<not> occurs_at s needle cs q))"
        using i(1) by (intro less.hyps p') simp_all
      then obtain r where r: "find_loop V s needle cs (off + i + 1) (lim - (off + i + 1)) pos' = Some r"
        "fst r \<longrightarrow> off + i + 1 \<le> snd r \<and> snd r < lim \<and> occurs_at s needle cs (snd r) \<and>
          (\<forall>q. off + i + 1 \<le> q \<longrightarrow> q < snd r \<longrightarrow> \<not> occurs_at s needle cs q)"
        "\<not> fst r \<longrightarrow> (\<forall>q. off + i + 1 \<le> q \<longrightarrow> q < lim \<longrightarrow> \<not> occurs_at s needle cs q)"
        by blast
      have "lim - (off + i) \<noteq> 0" using i(1) by simp
      then have step: "find_loop V s needle cs off (lim - off) pos = Some r"
        using pos arith cmp False p' r(1)
        by (simp add: find_loop.simps [of V s needle cs off] Let_def del: One_nat_def)
      have none: "\<not> occurs_at s needle cs q" if "off \<le> q" "q \<noteq> off + i \<longrightarrow> q < off + i \<or>
          (off + i + 1 \<le> q \<longrightarrow> \<not> occurs_at s needle cs q)" for q
        using that skip [of q] False by (cases q "off + i" rule: linorder_cases) auto
      show ?thesis
      proof (intro exI conjI)
        show "find_loop V s needle cs off (lim - off) pos = Some r" by (rule step)
        show "fst r \<longrightarrow> off \<le> snd r \<and> snd r < lim \<and> occurs_at s needle cs (snd r) \<and>
          (\<forall>q. off \<le> q \<longrightarrow> q < snd r \<longrightarrow> \<not> occurs_at s needle cs q)"
          using r(2) none by auto
        show "\<not> fst r \<longrightarrow> (\<forall>q. off \<le> q \<longrightarrow> q < lim \<longrightarrow> \<not> occurs_at s needle cs q)"
          using r(3) none by auto
      qed
    qed
  qed
qed

text \<open>A search up to the end of the container, or up to the end of its search space where 0 does
  not mean the rest, returns the first occurrence that starts there, or reports that there is none.\<close>

lemma find_spec:
  assumes "inv s" "needle \<noteq> []" "length needle \<le> 64 * KB_MULT" "off + sp \<le> length (content s)"
    "sp = 0 \<or> off + sp = length (content s) \<or> \<not> rest0" "sp = 0 \<or> length needle \<le> sp"
  defines "lim \<equiv> if sp = 0 then length (content s) else off + sp"
  shows "\<exists>r. base_find V s needle cs off sp = Some r \<and>
      (fst r \<longrightarrow> off \<le> snd r \<and> snd r < lim \<and> occurs_at s needle cs (snd r) \<and>
         (\<forall>q. off \<le> q \<longrightarrow> q < snd r \<longrightarrow> \<not> occurs_at s needle cs q)) \<and>
      (\<not> fst r \<longrightarrow> (\<forall>q. off \<le> q \<longrightarrow> q < lim \<longrightarrow> \<not> occurs_at s needle cs q))"
proof -
  let ?len = "length (content s)"
  have len: "v_size V s = ?len" "?len < u64_mod" using assms(1) size_content content_bound by simp_all
  have lim: "off \<le> lim" "lim \<le> ?len" "(if sp = 0 then ?len - off else sp) = lim - off"
    "\<not> rest0 \<or> lim = ?len"
    using assms(4,5) by (auto simp: lim_def)
  have none: "\<not> occurs_at s needle cs q" if "off \<le> q" "?len - off < length needle" for q
    using that by (auto simp: occurs_at_def)
  show ?thesis
  proof (cases "overflow_sum off (length needle)")
    case True
    then have "u64_mod \<le> off + length needle" by (meson no_overflow_sum not_le)
    then have "?len < off + length needle" using len(2) by simp
    with True none assms(4) show ?thesis by (auto simp: base_find_def Let_def)
  next
    case no1: False
    have no2: "\<not> overflow_sum off sp" using assms(4) len(2) by (simp add: no_overflow_sum)
    show ?thesis
    proof (cases "lim - off < length needle")
      case True
      then have "?len - off < length needle" using assms(6) lim by (auto simp: lim_def split: if_splits)
      with True none no1 no2 lim len show ?thesis by (auto simp: base_find_def Let_def)
    next
      case False
      then have "0 < lim - off" using assms(2) by (cases needle) auto
      have sp: "off + (lim - off) \<le> ?len" using lim by simp
      obtain pos where p: "v_findChar V s (hd needle) off (lim - off) cs = Some pos"
        using findChar_law [OF assms(1) sp, of "hd needle" cs] by blast
      from find_loop_spec [OF assms(1-3) lim(4,2,1) p] p False no1 no2 lim len assms(2) \<open>0 < lim - off\<close>
      show ?thesis by (simp add: base_find_def Let_def)
    qed
  qed
qed

text \<open>Where every match starts with a hit, the occurrences are the matches.\<close>

lemma occurs_at_iff:
  assumes "\<And>x xs c ys. same_bytes cs (x # xs) (c # ys) \<Longrightarrow> hit cs c x" "needle \<noteq> []"
  shows "occurs_at s needle cs p \<longleftrightarrow> matches_at cs needle (content s) p"
proof -
  obtain c ys where n: "needle = c # ys" using assms(2) by (cases needle) auto
  have "hit cs c (content s ! p)"
    if h: "p + length needle \<le> length (content s)" "same_bytes cs (segment p (length needle) (content s)) needle"
  proof -
    have "p < length (content s)" using h(1) n by simp
    then have "segment p (length needle) (content s) = content s ! p # segment (Suc p) (length ys) (content s)"
      by (simp add: n segment_def Cons_nth_drop_Suc [symmetric])
    with h(2) n show ?thesis using assms(1) by metis
  qed
  then show ?thesis using n by (auto simp: occurs_at_def matches_at_def)
qed

lemma find_first:
  assumes "inv s" "needle \<noteq> []" "length needle \<le> 64 * KB_MULT" "off \<le> length (content s)"
    "\<And>x xs c ys. same_bytes cs (x # xs) (c # ys) \<Longrightarrow> hit cs c x"
  shows "\<exists>r. base_find V s needle cs off 0 = Some r \<and>
      (if fst r then off \<le> snd r \<and> matches_at cs needle (content s) (snd r) \<and>
           (\<forall>q. off \<le> q \<longrightarrow> q < snd r \<longrightarrow> \<not> matches_at cs needle (content s) q)
       else \<forall>q. off \<le> q \<longrightarrow> \<not> matches_at cs needle (content s) q)"
proof -
  have far: "\<not> matches_at cs needle (content s) q" if "length (content s) \<le> q" for q
    using that assms(2) by (cases needle) (auto simp: matches_at_def)
  have eq: "occurs_at s needle cs p \<longleftrightarrow> matches_at cs needle (content s) p" for p
    by (rule occurs_at_iff) (fact assms(5), fact assms(2))
  have lim: "(if 0 = (0 :: nat) then length (content s) else off + 0) = length (content s)" by simp
  have o: "off + 0 \<le> length (content s)" using assms(4) by simp
  obtain r where r0: "base_find V s needle cs off 0 = Some r"
    "fst r \<longrightarrow> off \<le> snd r \<and> snd r < length (content s) \<and> occurs_at s needle cs (snd r) \<and>
       (\<forall>q. off \<le> q \<longrightarrow> q < snd r \<longrightarrow> \<not> occurs_at s needle cs q)"
    "\<not> fst r \<longrightarrow> (\<forall>q. off \<le> q \<longrightarrow> q < length (content s) \<longrightarrow> \<not> occurs_at s needle cs q)"
    using find_spec [OF assms(1-3) o disjI1 disjI1, of cs, OF refl refl] unfolding lim
    by (elim exE conjE) (rule that)
  note r = r0 [unfolded eq]
  show ?thesis
  proof (cases "fst r")
    case True
    with r show ?thesis by simp
  next
    case False
    with r(3) have "\<not> matches_at cs needle (content s) q" if "off \<le> q" for q
      using that far [of q] by (cases "q < length (content s)") simp_all
    with False r(1) show ?thesis by simp
  qed
qed

end

end
