(* ===== verification/Container_Mem.thy ===== *)
theory Container_Mem
  imports Container_Contracts
begin

text \<open>
  \<^verbatim>\<open>Memory/mdz_mem_vars/b_mem.{h,cpp}\<close>: a read-only container over memory it does not own. The
  pointer \<^verbatim>\<open>linearMem\<close> is the list of the bytes readable from it, or None when it is null or no
  longer points to valid memory.
\<close>

subsection \<open>Definitions\<close>

record b_mem = b_base +
  linearMem :: "byte list option"

definition mem_size :: "b_mem \<Rightarrow> nat" where
  "mem_size s = containerBytes s"

text \<open>\<^verbatim>\<open>memchr(linearMem+off, c, n)\<close>; the position found counts from \<^verbatim>\<open>linearMem\<close>.\<close>

definition memchr_at :: "byte list option \<Rightarrow> nat \<Rightarrow> byte \<Rightarrow> nat \<Rightarrow> nat option option" where
  "memchr_at m off c n =
     (case m of
        None \<Rightarrow> (if n = 0 then Some None else None)
      | Some xs \<Rightarrow>
          if off + n \<le> length xs
          then Some (map_option (\<lambda>i. off + i) (find_index (\<lambda>x. x = c) (segment off n xs)))
          else None)"

text \<open>The earlier of the positions of the upper and lower case character.\<close>

definition first_of_cases :: "nat option \<Rightarrow> nat option \<Rightarrow> nat option" where
  "first_of_cases pos_upper pos_lower =
     (case (pos_upper, pos_lower) of
        (Some u, Some l) \<Rightarrow> if u \<le> l then Some u else Some l
      | (Some u, None) \<Rightarrow> Some u
      | (None, p) \<Rightarrow> p)"

definition mem_findChar :: "b_mem \<Rightarrow> byte \<Rightarrow> nat \<Rightarrow> nat \<Rightarrow> bool \<Rightarrow> result option" where
  "mem_findChar s c offset searchSpace0 caseSensitive0 =
     (let caseSensitive = (caseSensitive0 \<and> is_alpha c);
          currentSize = mem_size s in
      if currentSize = 0 then Some (False, 0)
      else if overflow_sum offset searchSpace0 then Some (False, u64_max)
      else if add64 offset searchSpace0 > currentSize then Some (False, u64_max)
      else let searchSpace = (if searchSpace0 = 0 then currentSize - offset else searchSpace0);
               cPos = (if caseSensitive then memchr_at (linearMem s) offset c searchSpace
                       else case memchr_at (linearMem s) offset (to_upper c) searchSpace of
                           None \<Rightarrow> None
                         | Some pos_upper \<Rightarrow>
                             map_option (\<lambda>pos_lower. first_of_cases pos_upper pos_lower)
                               (memchr_at (linearMem s) offset (to_lower c) searchSpace)) in
        map_option (\<lambda>p. case p of None \<Rightarrow> (False, 0) | Some i \<Rightarrow> (True, i)) cPos)"

definition mem_truncate2 :: "b_mem \<Rightarrow> nat \<Rightarrow> (b_mem \<times> result) option" where
  "mem_truncate2 s bytes = Some (setContainerBytes s bytes, True, mem_size (setContainerBytes s bytes))"

definition mem_append2 :: "b_mem \<Rightarrow> byte list \<Rightarrow> bool \<Rightarrow> (b_mem \<times> result) option" where
  "mem_append2 s data prependMode = Some (s, False, 0)"

definition mem_displace2 :: "b_mem \<Rightarrow> nat \<Rightarrow> (b_mem \<times> result) option" where
  "mem_displace2 s bytesToDisplace =
     (if bytesToDisplace > mem_size s then Some (s, False, 0)
      else Some (setContainerBytes (s\<lparr>linearMem := map_option (drop bytesToDisplace) (linearMem s)\<rparr>)
                   (sub64 (mem_size s) bytesToDisplace), True, bytesToDisplace))"

definition mem_clear2 :: "b_mem \<Rightarrow> (b_mem \<times> bool) option" where
  "mem_clear2 s = Some (setContainerBytes (s\<lparr>linearMem := None\<rparr>) 0, True)"

definition mem_copyOut2 :: "b_mem \<Rightarrow> nat \<Rightarrow> nat \<Rightarrow> (byte list \<times> result) option" where
  "mem_copyOut2 s bytes offset =
     (if overflow_sum offset bytes then Some ([], False, 0)
      else if bytes = 0 then Some ([], True, 0)
      else if add64 offset bytes > mem_size s then Some ([], False, 0)
      else if offset > mem_size s then Some ([], False, 0)
      else let containerBytesOffseted = mem_size s - offset in
        if containerBytesOffseted = 0 then Some ([], True, 0)
        else let copiedBytes = (if containerBytesOffseted < bytes then containerBytesOffseted else bytes) in
          case linearMem s of
            None \<Rightarrow> None
          | Some m \<Rightarrow> if offset + copiedBytes \<le> length m
              then Some (segment offset copiedBytes m, True, copiedBytes) else None)"

definition mem_compare2 :: "b_mem \<Rightarrow> byte list \<Rightarrow> bool \<Rightarrow> nat \<Rightarrow> bool option" where
  "mem_compare2 s buf caseSensitive offset =
     (if overflow_sum offset (length buf) then Some False
      else if length buf = 0 then Some True
      else if add64 offset (length buf) > mem_size s then Some False
      else case linearMem s of
          None \<Rightarrow> None
        | Some m \<Rightarrow> map_option (\<lambda>v. v = 0) (memicmp2 (drop offset m) buf (length buf) caseSensitive))"

definition mem_virtuals :: "b_mem b_virtuals" where
  "mem_virtuals = \<lparr>v_size = mem_size, v_truncate2 = mem_truncate2, v_clear2 = mem_clear2,
     v_displace2 = mem_displace2, v_append2 = mem_append2, v_copyOut2 = mem_copyOut2,
     v_compare2 = mem_compare2, v_findChar = mem_findChar\<rparr>"

definition mem_new :: "b_mem" where
  "mem_new = b_base.extend (B_Base_new\<lparr>storeMethod := BC_METHOD_MEM, readOnly := True\<rparr>) \<lparr>linearMem = None\<rparr>"

text \<open>The length is a \<^verbatim>\<open>uint32_t\<close>: a longer memory is referenced modulo 2 to the 32.\<close>

definition mem_reference :: "b_mem \<Rightarrow> byte list option \<Rightarrow> nat \<Rightarrow> b_mem" where
  "mem_reference s buf len =
     setContainerBytes
       ((setContainerBytes ((clear0 s)\<lparr>linearMem := None\<rparr>) 0)\<lparr>linearMem := buf, readOnly := True\<rparr>)
       (len mod 2 ^ 32)"

definition mem_construct :: "byte list option \<Rightarrow> nat \<Rightarrow> b_mem" where
  "mem_construct buf len =
     (if buf \<noteq> None \<and> len mod 2 ^ 32 \<noteq> 0 then mem_reference mem_new buf len else mem_new)"

text \<open>The vector of 64 KB pieces sent by \<^verbatim>\<open>copyTo2\<close> and \<^verbatim>\<open>copyToStream2\<close>.\<close>

function mem_pieces :: "byte list \<Rightarrow> nat \<Rightarrow> nat \<Rightarrow> byte list list" where
  "mem_pieces m transmitMem dataToCopy =
     (if dataToCopy = 0 then []
      else let rosize = (if dataToCopy > 64 * KB_MULT then 64 * KB_MULT else dataToCopy) in
        segment transmitMem rosize m # mem_pieces m (transmitMem + rosize) (dataToCopy - rosize))"
  by pat_completeness auto
termination
  by (relation "measure (\<lambda>(m, t, n). n)") (auto simp: KB_MULT_def)

declare mem_pieces.simps [simp del]

definition mem_range_pieces :: "b_mem \<Rightarrow> nat \<Rightarrow> nat \<Rightarrow> byte list list option" where
  "mem_range_pieces s offset bytes =
     (case linearMem s of
        None \<Rightarrow> (if bytes = 0 then Some [] else None)
      | Some m \<Rightarrow> if offset + bytes \<le> length m then Some (mem_pieces m offset bytes) else None)"

definition mem_copyToStream2 :: "b_mem \<Rightarrow> byte list \<Rightarrow> nat \<Rightarrow> nat \<Rightarrow> (byte list \<times> result) option" where
  "mem_copyToStream2 s out roBytes offset =
     (if roBytes = 0 then Some (out, True, 0)
      else if overflow_sum offset roBytes then Some (out, False, 0)
      else if offset > mem_size s then Some (out, False, 0)
      else let bytes = (if add64 offset roBytes > mem_size s then mem_size s - offset else roBytes) in
        map_option (\<lambda>cs. let (out', n) = copyToStreamUsingCleanVector out cs in (out', True, n))
          (mem_range_pieces s offset bytes))"

definition mem_copyTo2 :: "(b_mem, 'o) copy_to_method" where
  "mem_copyTo2 w s out wrStatUpd roBytes offset =
     (if roBytes = 0 then Some (out, wrStatUpd, True, 0)
      else if overflow_sum offset roBytes then Some (out, wrStatUpd, False, 0)
      else if offset > mem_size s then Some (out, wrStatUpd, False, 0)
      else let bytes = (if add64 offset roBytes > mem_size s then mem_size s - offset else roBytes) in
        case mem_range_pieces s offset bytes of
          None \<Rightarrow> None
        | Some cs \<Rightarrow> map_option (\<lambda>(out', upd', n). (out', upd', True, n))
            (copyToSOUsingCleanVector w out cs wrStatUpd))"

subsection \<open>Content\<close>

definition mem_content :: "b_mem \<Rightarrow> byte list" where
  "mem_content s = (case linearMem s of None \<Rightarrow> [] | Some m \<Rightarrow> take (containerBytes s) m)"

definition mem_ok :: "b_mem \<Rightarrow> bool" where
  "mem_ok s \<longleftrightarrow> containerBytes s < u64_mod \<and>
     (case linearMem s of None \<Rightarrow> containerBytes s = 0 | Some m \<Rightarrow> containerBytes s \<le> length m)"

text \<open>The position of the first hit of either case.\<close>

lemma first_of_cases_find_index:
  "first_of_cases (map_option (\<lambda>i. off + i) (find_index (\<lambda>x. x = a) xs))
      (map_option (\<lambda>i. off + i) (find_index (\<lambda>x. x = b) xs)) =
    map_option (\<lambda>i. off + i) (find_index (\<lambda>x. x = a \<or> x = b) xs)"
proof (induction xs arbitrary: off)
  case Nil
  then show ?case by (simp add: first_of_cases_def)
next
  case (Cons x xs)
  show ?case
  proof (cases "x = a \<or> x = b")
    case True
    then show ?thesis by (auto simp: first_of_cases_def split: option.splits)
  next
    case False
    have "map_option (\<lambda>i. off + i) (map_option Suc p) = map_option (\<lambda>i. Suc off + i) p" for p
      by (cases p) simp_all
    with False Cons.IH [of "Suc off"] show ?thesis by simp
  qed
qed

definition mem_hit :: "bool \<Rightarrow> byte \<Rightarrow> byte \<Rightarrow> bool" where
  "mem_hit caseSensitive c x \<longleftrightarrow>
     (if caseSensitive \<and> is_alpha c then x = c else x = to_upper c \<or> x = to_lower c)"

lemma concat_mem_pieces: "concat (mem_pieces m off n) = segment off n m"
proof (induction m off n rule: mem_pieces.induct)
  case (1 m off n)
  let ?c = "if n > 64 * KB_MULT then 64 * KB_MULT else n"
  have "segment off n m = segment off ?c m @ segment (off + ?c) (n - ?c) m"
    using segment_add [of off ?c "n - ?c" m] by simp
  with 1 show ?case
    by (cases "n = 0") (simp add: mem_pieces.simps, simp add: mem_pieces.simps [of m off n] Let_def)
qed

lemma mem_ok_range:
  assumes "mem_ok s" "off + n \<le> length (mem_content s)" "0 < n"
  obtains m where "linearMem s = Some m" "off + n \<le> containerBytes s" "containerBytes s \<le> length m"
    "containerBytes s < u64_mod" "segment off n (mem_content s) = segment off n m"
  using assms by (auto simp: mem_ok_def mem_content_def segment_def drop_take min_def split: option.splits if_splits)

interpretation mem_r: container_read mem_virtuals mem_content mem_ok
  by unfold_locales
     (auto simp: mem_virtuals_def mem_size_def mem_content_def mem_ok_def split: option.splits)

interpretation mem_c: container_copy mem_virtuals mem_content mem_ok
proof unfold_locales
  fix s n off
  assume s: "mem_ok s" and n: "0 < n" "off + n \<le> length (mem_content s)"
  obtain m where m: "linearMem s = Some m" "off + n \<le> containerBytes s" "containerBytes s \<le> length m"
    "containerBytes s < u64_mod" "segment off n (mem_content s) = segment off n m"
    using mem_ok_range [OF s n(2,1)] .
  then show "v_copyOut2 mem_virtuals s n off = Some (segment off n (mem_content s), True, n)"
    using n(1) by (simp add: mem_virtuals_def mem_copyOut2_def mem_size_def no_overflow_sum add64_eq Let_def)
qed

interpretation mem_send: container_send mem_virtuals mem_content mem_ok mem_copyTo2
proof unfold_locales
  fix s n off
  assume s: "mem_ok s" and n: "off + n \<le> length (mem_content s)"
  show "\<exists>cs. concat cs = segment off n (mem_content s) \<and> (\<forall>w out upd. mem_copyTo2 w s out upd n off =
      map_option (\<lambda>(o', u, m). (o', u, True, m)) (copyToSOUsingCleanVector w out cs upd))"
  proof (cases "n = 0")
    case True
    then show ?thesis by (intro exI [of _ "[]"]) (simp add: mem_copyTo2_def copyToSOUsingCleanVector_def)
  next
    case False
    obtain m where "linearMem s = Some m" "off + n \<le> containerBytes s" "containerBytes s \<le> length m"
      "containerBytes s < u64_mod" "segment off n (mem_content s) = segment off n m"
      using mem_ok_range [OF s n] False by blast
    with False show ?thesis
      by (intro exI [of _ "mem_pieces m off n"])
         (simp add: concat_mem_pieces mem_copyTo2_def mem_size_def mem_range_pieces_def no_overflow_sum add64_eq)
  qed
qed

interpretation mem_t: container_truncate mem_virtuals mem_content mem_ok
  by unfold_locales
     (auto simp: mem_virtuals_def mem_truncate2_def mem_size_def setContainerBytes_def mem_content_def
        mem_ok_def split: option.splits)

interpretation mem_d: container_displace mem_virtuals mem_content mem_ok
  by unfold_locales
     (auto simp: mem_virtuals_def mem_displace2_def mem_size_def setContainerBytes_def mem_content_def
        mem_ok_def sub64_eq drop_take split: option.splits)

interpretation mem_search: container_search mem_virtuals mem_content mem_ok mem_hit True
proof unfold_locales
  fix s off sp c cs
  assume s: "mem_ok s" and n: "off + sp \<le> length (mem_content s)"
  let ?e = "if sp = 0 \<and> True then length (mem_content s) - off else sp"
  show "v_findChar mem_virtuals s c off sp cs =
      Some (case find_index (mem_hit cs c) (segment off ?e (mem_content s)) of
        None \<Rightarrow> (False, 0) | Some i \<Rightarrow> (True, off + i))"
  proof (cases "mem_content s = []")
    case True
    then have "mem_size s = 0" using s mem_r.size_content [of s] by (simp add: mem_virtuals_def)
    with True show ?thesis by (simp add: mem_virtuals_def mem_findChar_def segment_def)
  next
    case False
    then obtain m where m: "linearMem s = Some m" "containerBytes s \<le> length m" "containerBytes s < u64_mod"
      "mem_content s = take (containerBytes s) m" "containerBytes s \<noteq> 0"
      using s by (auto simp: mem_ok_def mem_content_def split: option.splits)
    have len: "length (mem_content s) = containerBytes s" using m(2,4) by simp
    then have e: "off + ?e \<le> containerBytes s" "length (mem_content s) = containerBytes s"
      using n by simp_all
    have seg: "segment off ?e (mem_content s) = segment off ?e m"
      using e(1) by (simp only: m(4) segment_take)
    have at: "memchr_at (linearMem s) off x ?e =
        Some (map_option (\<lambda>i. off + i) (find_index (\<lambda>y. y = x) (segment off ?e (mem_content s))))" for x
      using m(1,2) e seg by (simp add: memchr_at_def)
    have o: "\<not> overflow_sum off sp" "add64 off sp = off + sp" "\<not> off + sp > containerBytes s"
      "(if sp = 0 then containerBytes s - off else sp) = ?e"
      using n m(3) len by (simp_all add: no_overflow_sum add64_eq)
    define xs where "xs = segment off ?e (mem_content s)"
    define P where "P = mem_hit cs c"
    have cPos: "(if cs \<and> is_alpha c then memchr_at (linearMem s) off c ?e
        else case memchr_at (linearMem s) off (to_upper c) ?e of
            None \<Rightarrow> None
          | Some u \<Rightarrow> map_option (\<lambda>l. first_of_cases u l) (memchr_at (linearMem s) off (to_lower c) ?e)) =
      Some (map_option (\<lambda>i. off + i) (find_index P xs))"
      unfolding at xs_def [symmetric] P_def mem_hit_def
      by (cases "cs \<and> is_alpha c") (simp_all only: if_True if_False option.simps first_of_cases_find_index simp_thms)
    have "v_findChar mem_virtuals s c off sp cs =
        map_option (\<lambda>p. case p of None \<Rightarrow> (False, 0) | Some i \<Rightarrow> (True, i))
          (Some (map_option (\<lambda>i. off + i) (find_index P xs)))"
      unfolding cPos [symmetric]
      by (simp only: mem_virtuals_def b_virtuals.simps mem_findChar_def mem_size_def Let_def m(5) o if_False)
    then show ?thesis unfolding xs_def [symmetric] P_def [symmetric] by (simp split: option.split)
  qed
next
  fix s off cs and buf :: "byte list"
  assume a: "mem_ok s" "buf \<noteq> []" "length buf \<le> 64 * KB_MULT" "off < u64_mod"
  show "v_compare2 mem_virtuals s buf cs off = Some (off + length buf \<le> length (mem_content s) \<and>
      same_bytes cs (segment off (length buf) (mem_content s)) buf)"
  proof (cases "off + length buf \<le> length (mem_content s)")
    case True
    then obtain m where m: "linearMem s = Some m" "off + length buf \<le> containerBytes s" "containerBytes s \<le> length m"
      "containerBytes s < u64_mod" "segment off (length buf) (mem_content s) = segment off (length buf) m"
      using mem_ok_range [OF a(1)] a(2) by (metis length_greater_0_conv)
    have l: "length buf \<le> length (drop off m)" using m by simp
    obtain v where v: "memicmp2 (drop off m) buf (length buf) cs = Some v"
      "v = 0 \<longleftrightarrow> (if cs then take (length buf) (drop off m) = take (length buf) buf
        else same_nocase (take (length buf) (drop off m)) (take (length buf) buf))"
      using memicmp2_zero_iff [OF l order_refl a(3), of cs] by blast
    show ?thesis
      using True m v a(2) by (simp add: mem_virtuals_def mem_compare2_def mem_size_def no_overflow_sum add64_eq
          same_bytes_def segment_def)
  next
    case False
    then have "mem_size s < off + length buf" using mem_r.size_content [OF a(1)] by (simp add: mem_virtuals_def)
    moreover have "length buf < u64_mod" using a(3) by (simp add: KB_MULT_def u64_mod_def)
    ultimately show ?thesis
      using no_overflow_sumD [of off "length buf"] a(2,4) False
      by (cases "overflow_sum off (length buf)")
         (simp_all add: mem_virtuals_def mem_compare2_def add64_eq)
  qed
qed

lemma mem_hit_complete: "same_bytes cs (x # xs) (c # ys) \<Longrightarrow> mem_hit cs c x"
  using to_lower_eq_cases [of x c]
  by (auto simp: same_bytes_def same_nocase_def mem_hit_def to_upper_def to_lower_def is_alpha_def split: if_splits)

lemma mem_reference_ok:
  assumes "len mod 2 ^ 32 \<le> length m"
  shows "mem_ok (mem_reference s (Some m) len)"
    "mem_content (mem_reference s (Some m) len) = take (len mod 2 ^ 32) m"
proof -
  have "len mod 2 ^ 32 < 2 ^ 32" by simp
  also have "(2 :: nat) ^ 32 < u64_mod" by (simp add: u64_mod_def)
  finally show "mem_ok (mem_reference s (Some m) len)"
    using assms by (simp add: mem_ok_def mem_reference_def setContainerBytes_def)
  show "mem_content (mem_reference s (Some m) len) = take (len mod 2 ^ 32) m"
    by (simp add: mem_content_def mem_reference_def setContainerBytes_def)
qed

lemma mem_empty_ok: "linearMem s = None \<Longrightarrow> containerBytes s = 0 \<Longrightarrow> mem_ok s \<and> mem_content s = []"
  by (simp add: mem_ok_def mem_content_def)

text \<open>
  The search space is not respected: when it has been consumed to its end, the remaining space 0
  means the rest of the memory. Here two bytes are searched and the match is at the third.
\<close>

lemma mem_find_beyond_search_space:
  "base_find mem_virtuals (mem_construct (Some [97, 97, 97, 98]) 4) [97, 98] True 0 2 = Some (True, 2)"
proof -
  let ?s = "mem_construct (Some [97, 97, 97, 98]) 4"
  have s: "mem_ok ?s" "mem_content ?s = [97, 97, 97, 98]"
    by (simp_all add: mem_construct_def mem_reference_ok)
  have size: "v_size mem_virtuals ?s = 4" using mem_r.size_content [OF s(1)] s(2) by simp
  have f: "v_findChar mem_virtuals ?s 97 off sp True =
      Some (case find_index (\<lambda>x. x = 97) (segment off (if sp = 0 then 4 - off else sp) [97, 97, 97, 98 :: byte]) of
        None \<Rightarrow> (False, 0) | Some i \<Rightarrow> (True, off + i))" if "off + sp \<le> 4" for off sp
  proof -
    have h: "mem_hit True 97 = (\<lambda>x. x = 97)" by (rule ext) (simp add: mem_hit_def is_alpha_def)
    have l: "length [97, 97, 97, 98 :: byte] = 4" by simp
    show ?thesis using mem_search.findChar_law [OF s(1), of off sp 97 True] that
      unfolding s(2) l h by (simp only: simp_thms)
  qed
  have g: "v_compare2 mem_virtuals ?s [97, 98] True off =
      Some (off + 2 \<le> 4 \<and> segment off 2 [97, 97, 97, 98] = [97, 98 :: byte])" if "off < 5" for off
  proof -
    have l: "length [97, 98 :: byte] = 2" "length [97, 97, 97, 98 :: byte] = 4" by simp_all
    show ?thesis using mem_search.compare2_law [OF s(1), of "[97, 98]" off True] that
      unfolding s(2) l same_bytes_def by (simp add: KB_MULT_def u64_mod_def)
  qed
  note eval = f g add64_def sub64_def u64_mod_def segment_def Let_def
  show ?thesis
    by (simp add: base_find_def size no_overflow_sum eval,
        subst find_loop.simps, simp add: eval, subst find_loop.simps, simp add: eval,
        subst find_loop.simps, simp add: eval)
qed

subsection \<open>Properties\<close>

text \<open>Searching a memory container up to its end returns the position of the first match at or
  after the offset, of the given case sensitivity, and reports no match exactly when there is none;
  the search always ends and never reads outside the memory.\<close>

theorem mem_find_returns_first_match:
  assumes "mem_ok s" "needle \<noteq> []" "length needle \<le> 64 * KB_MULT" "off \<le> length (mem_content s)"
  shows "\<exists>r. base_find mem_virtuals s needle cs off 0 = Some r \<and>
      (if fst r then off \<le> snd r \<and> matches_at cs needle (mem_content s) (snd r) \<and>
           (\<forall>q. off \<le> q \<longrightarrow> q < snd r \<longrightarrow> \<not> matches_at cs needle (mem_content s) q)
       else \<forall>q. off \<le> q \<longrightarrow> \<not> matches_at cs needle (mem_content s) q)"
  using assms mem_hit_complete by (rule mem_search.find_first)

theorem mem_find_returns_first_match_witness:
  "\<exists>r. base_find mem_virtuals (mem_reference mem_new (Some [65, 66, 67]) 3) [98] False 0 0 = Some r \<and>
      (if fst r then 0 \<le> snd r \<and> matches_at False [98] [65, 66, 67] (snd r) \<and>
           (\<forall>q. 0 \<le> q \<longrightarrow> q < snd r \<longrightarrow> \<not> matches_at False [98] [65, 66, 67] q)
       else \<forall>q. 0 \<le> q \<longrightarrow> \<not> matches_at False [98] [65, 66, 67] q)"
proof -
  let ?s = "mem_reference mem_new (Some [65, 66, 67]) 3"
  have c: "mem_content ?s = [65, 66, 67]" "mem_ok ?s" by (simp_all add: mem_reference_ok)
  show ?thesis
    by (rule mem_find_returns_first_match [of ?s "[98]" 0 False, unfolded c(1)])
       (simp_all add: c KB_MULT_def)
qed

end
