(* ===== verification/Container_Mmap.thy ===== *)
theory Container_Mmap
  imports Container_Mem
begin

text \<open>
  \<^verbatim>\<open>Memory/mdz_mem_vars/filemap.{h,cpp}\<close>, \<^verbatim>\<open>b_mmap.{h,cpp}\<close> and \<^verbatim>\<open>B_Base::copyToFS\<close>: a file
  mapped to memory and the container over it. The outcome of the calls to the system is the
  argument \<^verbatim>\<open>os\<close>. A descriptor is the content of the file behind it; the memory at the mapped
  address is that content, and a write to a read-only mapping is None. The POSIX branch of the
  conditional compilation is modelled.
\<close>

subsection \<open>The mapped file\<close>

record os_calls =
  os_open :: "string \<Rightarrow> bool \<Rightarrow> bool \<Rightarrow> byte list option"
  os_stat_ok :: "string \<Rightarrow> bool"
  os_munmap_ok :: "nat \<Rightarrow> bool"
  os_mmap_ok :: "nat \<Rightarrow> bool"
  os_ftruncate_ok :: "nat \<Rightarrow> bool"
  os_random_name :: string

datatype map_addr = MapNull | MapEmpty | MapFile

text \<open>\<^verbatim>\<open>fm_removed\<close> collects the names passed to \<^verbatim>\<open>remove()\<close>.\<close>

record filemap =
  fm_currentFileName :: string
  fm_removeOnDestroy :: bool
  fm_fd :: "byte list option"
  fm_mmapAddr :: map_addr
  fm_fileOpenSize :: nat
  fm_readOnly :: bool
  fm_removed :: "string list"

definition FileMap_new :: filemap where
  "FileMap_new = \<lparr>fm_currentFileName = [], fm_removeOnDestroy = False, fm_fd = None,
     fm_mmapAddr = MapNull, fm_fileOpenSize = 0, fm_readOnly = False, fm_removed = []\<rparr>"

definition FileMap_cleanVars :: "filemap \<Rightarrow> filemap" where
  "FileMap_cleanVars fm = fm\<lparr>fm_readOnly := False, fm_currentFileName := [], fm_removeOnDestroy := False,
     fm_fd := None, fm_mmapAddr := MapNull, fm_fileOpenSize := 0\<rparr>"

definition FileMap_assign :: "filemap \<Rightarrow> filemap \<Rightarrow> filemap \<times> filemap" where
  "FileMap_assign fm bc =
     ((FileMap_cleanVars fm)\<lparr>fm_currentFileName := fm_currentFileName bc, fm_removeOnDestroy := fm_removeOnDestroy bc,
        fm_fd := fm_fd bc, fm_mmapAddr := fm_mmapAddr bc, fm_fileOpenSize := fm_fileOpenSize bc,
        fm_readOnly := fm_readOnly bc\<rparr>, FileMap_cleanVars bc)"

definition FileMap_setRemoveOnDestroy :: "filemap \<Rightarrow> bool \<Rightarrow> filemap" where
  "FileMap_setRemoveOnDestroy fm value = fm\<lparr>fm_removeOnDestroy := value\<rparr>"

definition FileMap_unMapFile :: "os_calls \<Rightarrow> filemap \<Rightarrow> filemap \<times> bool" where
  "FileMap_unMapFile os fm =
     (fm\<lparr>fm_mmapAddr := MapNull\<rparr>,
      if fm_mmapAddr fm = MapFile then os_munmap_ok os (fm_fileOpenSize fm) else True)"

definition FileMap_closeFile :: "os_calls \<Rightarrow> filemap \<Rightarrow> bool \<Rightarrow> filemap \<times> bool" where
  "FileMap_closeFile os fm respectRemoveOnDestroy =
     (let fm1 = fst (FileMap_unMapFile os fm);
          fm2 = (if fm_removeOnDestroy fm1 \<and> respectRemoveOnDestroy \<and> fm_currentFileName fm1 \<noteq> []
                 then fm1\<lparr>fm_removed := fm_removed fm1 @ [fm_currentFileName fm1]\<rparr> else fm1)
      in (FileMap_cleanVars fm2, True))"

definition FileMap_mapFileUsingCurrentFileDescriptor :: "os_calls \<Rightarrow> filemap \<Rightarrow> nat \<Rightarrow> filemap \<times> bool" where
  "FileMap_mapFileUsingCurrentFileDescriptor os fm len =
     (if fm_fd fm = None then (fm, False)
      else let fm1 = fm\<lparr>fm_fileOpenSize := len\<rparr> in
        if len = 0 then (fm1\<lparr>fm_fileOpenSize := 0, fm_mmapAddr := MapEmpty\<rparr>, True)
        else if os_mmap_ok os len then (fm1\<lparr>fm_mmapAddr := MapFile\<rparr>, True)
        else (fst (FileMap_closeFile os fm1 True), False))"

text \<open>\<^verbatim>\<open>ftruncate64\<close> cuts the file or extends it with zeros.\<close>

definition resize_bytes :: "nat \<Rightarrow> byte list \<Rightarrow> byte list" where
  "resize_bytes n c = take n c @ replicate (n - length c) 0"

definition FileMap_mmapTruncate :: "os_calls \<Rightarrow> filemap \<Rightarrow> nat \<Rightarrow> filemap \<times> bool" where
  "FileMap_mmapTruncate os fm nSize =
     (if fm_fd fm = None \<or> fm_readOnly fm then (fm, False)
      else let (fm1, unmapped) = FileMap_unMapFile os fm in
        if \<not> unmapped then (fst (FileMap_closeFile os fm1 True), False)
        else if \<not> os_ftruncate_ok os nSize then (fst (FileMap_closeFile os fm1 True), False)
        else FileMap_mapFileUsingCurrentFileDescriptor os
               (fm1\<lparr>fm_fd := map_option (resize_bytes nSize) (fm_fd fm1)\<rparr>) nSize)"

text \<open>The memory at the mapped address: nothing, the static byte \<^verbatim>\<open>emptyMap\<close>, or the file.\<close>

definition FileMap_memory :: "filemap \<Rightarrow> byte list option" where
  "FileMap_memory fm =
     (case fm_mmapAddr fm of MapNull \<Rightarrow> None | MapEmpty \<Rightarrow> Some [0] | MapFile \<Rightarrow> fm_fd fm)"

definition FileMap_store :: "filemap \<Rightarrow> byte list \<Rightarrow> filemap option" where
  "FileMap_store fm m =
     (if fm_mmapAddr fm = MapFile \<and> \<not> fm_readOnly fm then Some (fm\<lparr>fm_fd := Some m\<rparr>)
      else if FileMap_memory fm = Some m then Some fm else None)"

definition FileMap_mmapDisplace :: "os_calls \<Rightarrow> filemap \<Rightarrow> nat \<Rightarrow> (filemap \<times> bool) option" where
  "FileMap_mmapDisplace os fm offsetBytes =
     (let n = sub64 (fm_fileOpenSize fm) offsetBytes in
      if n = 0 \<or> offsetBytes = 0 then Some (FileMap_mmapTruncate os fm n)
      else if fm_readOnly fm then None
      else case FileMap_memory fm of
          None \<Rightarrow> None
        | Some m \<Rightarrow> (case memmove64 m 0 offsetBytes n of
              None \<Rightarrow> None
            | Some m' \<Rightarrow> map_option (\<lambda>fm'. FileMap_mmapTruncate os fm' n) (FileMap_store fm m')))"

definition FileMap_mmapAppend :: "os_calls \<Rightarrow> filemap \<Rightarrow> byte list \<Rightarrow> (filemap \<times> result) option" where
  "FileMap_mmapAppend os fm buf =
     (if length buf = 0 then Some (fm, True, 0)
      else let curOpenSize = fm_fileOpenSize fm;
               (fm1, ok) = FileMap_mmapTruncate os fm (add64 (fm_fileOpenSize fm) (length buf)) in
        if \<not> ok then Some (fm1, False, 0)
        else case FileMap_memory fm1 of
            None \<Rightarrow> None
          | Some m \<Rightarrow>
              if curOpenSize + length buf \<le> length m
              then map_option (\<lambda>fm2. (fm2, True, length buf))
                (FileMap_store fm1 (take curOpenSize m @ buf @ drop (curOpenSize + length buf) m))
              else None)"

definition FileMap_mmapPrepend :: "os_calls \<Rightarrow> filemap \<Rightarrow> byte list \<Rightarrow> (filemap \<times> result) option" where
  "FileMap_mmapPrepend os fm buf =
     (if length buf = 0 then Some (fm, True, 0)
      else let curOpenSize = fm_fileOpenSize fm;
               (fm1, ok) = FileMap_mmapTruncate os fm (add64 (fm_fileOpenSize fm) (length buf)) in
        if \<not> ok then Some (fm1, False, 0)
        else case FileMap_memory fm1 of
            None \<Rightarrow> None
          | Some m \<Rightarrow> (case memmove64 m 0 (length buf) curOpenSize of
                None \<Rightarrow> None
              | Some m1 \<Rightarrow> (case memcpy64 m1 buf (length buf) of
                    None \<Rightarrow> None
                  | Some m2 \<Rightarrow> map_option (\<lambda>fm2. (fm2, True, length buf)) (FileMap_store fm1 m2))))"

definition FileMap_openFile :: "os_calls \<Rightarrow> filemap \<Rightarrow> string \<Rightarrow> bool \<Rightarrow> bool \<Rightarrow> filemap \<times> bool" where
  "FileMap_openFile os fm filePath ro createFile =
     (let fm1 = fst (FileMap_closeFile os fm True) in
      case os_open os filePath ro createFile of
        None \<Rightarrow> (fm1, False)
      | Some c \<Rightarrow>
          (let fm2 = fm1\<lparr>fm_fd := Some c, fm_currentFileName := filePath, fm_readOnly := ro\<rparr> in
           if \<not> os_stat_ok os filePath then (fst (FileMap_closeFile os fm2 True), False)
           else FileMap_mapFileUsingCurrentFileDescriptor os fm2 (length c)))"

subsection \<open>The container\<close>

record b_mmap = b_base +
  fileReference :: filemap
  mem :: b_mem

lemma mem_updates [simp]:
  "mem (failedWriteState_update f s) = mem s" "mem (readOnly_update g s) = mem s"
  "mem (containerBytes_update h s) = mem s" "mem (maxSize_update h s) = mem s"
  "mem (storeMethod_update k s) = mem s" "mem (fsDirectoryPath_update l s) = mem s"
  "mem (fsBaseFileName_update l s) = mem s"
  by (cases s; simp)+

definition mmap_new :: b_mmap where
  "mmap_new = b_base.extend (B_Base_new\<lparr>storeMethod := BC_METHOD_FILEMMAP\<rparr>)
     \<lparr>fileReference = FileMap_new, mem = mem_construct None 0\<rparr>"

text \<open>When the mapping is gone, the address kept by \<^verbatim>\<open>mem\<close> is no longer valid.\<close>

definition mmap_with_file :: "b_mmap \<Rightarrow> filemap \<Rightarrow> b_mmap" where
  "mmap_with_file s fm =
     s\<lparr>fileReference := fm,
       mem := (if fm_mmapAddr fm = MapNull then (mem s)\<lparr>linearMem := None\<rparr> else mem s)\<rparr>"

definition mmap_size :: "b_mmap \<Rightarrow> nat" where
  "mmap_size s = mem_size (mem s)"

definition mmap_reMapMemoryContainer :: "b_mmap \<Rightarrow> b_mmap" where
  "mmap_reMapMemoryContainer s =
     (let s1 = setContainerBytes s (fm_fileOpenSize (fileReference s)) in
      s1\<lparr>mem := mem_reference (mem s1) (FileMap_memory (fileReference s1)) (mmap_size s1)\<rparr>)"

definition mmap_clear2 :: "os_calls \<Rightarrow> b_mmap \<Rightarrow> (b_mmap \<times> bool) option" where
  "mmap_clear2 os s =
     (let (fm, ok) = FileMap_closeFile os (fileReference s) True in Some (mmap_with_file s fm, ok))"

definition mmap_findChar :: "b_mmap \<Rightarrow> byte \<Rightarrow> nat \<Rightarrow> nat \<Rightarrow> bool \<Rightarrow> result option" where
  "mmap_findChar s c offset searchSpace caseSensitive =
     mem_findChar (mem s) c offset searchSpace (caseSensitive \<and> is_alpha c)"

definition mmap_truncate2 :: "os_calls \<Rightarrow> b_mmap \<Rightarrow> nat \<Rightarrow> (b_mmap \<times> result) option" where
  "mmap_truncate2 os s bytes =
     (let (fm, ok) = FileMap_mmapTruncate os (fileReference s) bytes in
      if \<not> ok then
        (case mmap_clear2 os (clear0 (mmap_with_file s fm)) of
           None \<Rightarrow> None | Some (s', _) \<Rightarrow> Some (s', False, 0))
      else let s' = mmap_reMapMemoryContainer (s\<lparr>fileReference := fm\<rparr>) in
        Some (s', False, mmap_size s'))"

definition mmap_append2 :: "os_calls \<Rightarrow> b_mmap \<Rightarrow> byte list \<Rightarrow> bool \<Rightarrow> (b_mmap \<times> result) option" where
  "mmap_append2 os s buf prependMode =
     (case (if prependMode then FileMap_mmapPrepend os (fileReference s) buf
            else FileMap_mmapAppend os (fileReference s) buf) of
        None \<Rightarrow> None
      | Some (fm, addedBytes) \<Rightarrow>
          if \<not> fst addedBytes then Some (mmap_with_file s fm, addedBytes)
          else Some (mmap_reMapMemoryContainer (s\<lparr>fileReference := fm\<rparr>), addedBytes))"

definition mmap_displace2 :: "os_calls \<Rightarrow> b_mmap \<Rightarrow> nat \<Rightarrow> (b_mmap \<times> result) option" where
  "mmap_displace2 os s bytesToDisplace =
     (if bytesToDisplace > fm_fileOpenSize (fileReference s) then Some (s, False, 0)
      else case FileMap_mmapDisplace os (fileReference s) bytesToDisplace of
          None \<Rightarrow> None
        | Some (fm, ok) \<Rightarrow>
            if \<not> ok then Some (mmap_with_file s fm, False, 0)
            else Some (mmap_reMapMemoryContainer (s\<lparr>fileReference := fm\<rparr>), True, bytesToDisplace))"

definition mmap_copyToStream2 :: "b_mmap copy_to_stream_method" where
  "mmap_copyToStream2 s out bytes offset =
     base_copyToStream mem_copyToStream2 mem_virtuals (mem s) out bytes offset"

definition mmap_copyTo2 :: "(b_mmap, 'o) copy_to_method" where
  "mmap_copyTo2 w s out wrStatUpd bytes offset =
     base_appendTo_upd mem_copyTo2 mem_virtuals w (mem s) out wrStatUpd bytes offset"

definition mmap_copyOut2 :: "b_mmap \<Rightarrow> nat \<Rightarrow> nat \<Rightarrow> (byte list \<times> result) option" where
  "mmap_copyOut2 s count offset = base_copyOut mem_virtuals (mem s) count offset"

definition mmap_compare2 :: "b_mmap \<Rightarrow> byte list \<Rightarrow> bool \<Rightarrow> nat \<Rightarrow> bool option" where
  "mmap_compare2 s buf caseSensitive offset = base_compare mem_virtuals (mem s) buf caseSensitive offset"

definition mmap_virtuals :: "os_calls \<Rightarrow> b_mmap b_virtuals" where
  "mmap_virtuals os = \<lparr>v_size = mmap_size, v_truncate2 = mmap_truncate2 os, v_clear2 = mmap_clear2 os,
     v_displace2 = mmap_displace2 os, v_append2 = mmap_append2 os, v_copyOut2 = mmap_copyOut2,
     v_compare2 = mmap_compare2, v_findChar = mmap_findChar\<rparr>"

definition mmap_getRandomFileName :: "os_calls \<Rightarrow> b_mmap \<Rightarrow> string" where
  "mmap_getRandomFileName os s = fsDirectoryPath s @ ''/'' @ fsBaseFileName s @ ''.'' @ os_random_name os"

definition mmap_referenceFile :: "os_calls \<Rightarrow> b_mmap \<Rightarrow> string \<Rightarrow> bool \<Rightarrow> bool \<Rightarrow> (b_mmap \<times> bool) option" where
  "mmap_referenceFile os s filePath ro createFile =
     (case mmap_clear2 os s of
        None \<Rightarrow> None
      | Some (s1, _) \<Rightarrow>
          (let (bcr, ok) = FileMap_openFile os FileMap_new
                 (if filePath \<noteq> [] then filePath else mmap_getRandomFileName os s1) ro createFile in
           if \<not> ok then Some (s1, False)
           else let s2 = s1\<lparr>mem := mem_reference (mem s1) (FileMap_memory bcr) (fm_fileOpenSize bcr)\<rparr> in
             Some (s2\<lparr>fileReference := fst (FileMap_assign (fileReference s2) bcr)\<rparr>, True)))"

definition mmap_setRemoveOnDestroy :: "b_mmap \<Rightarrow> bool \<Rightarrow> b_mmap" where
  "mmap_setRemoveOnDestroy s value = s\<lparr>fileReference := FileMap_setRemoveOnDestroy (fileReference s) value\<rparr>"

text \<open>\<^verbatim>\<open>B_Base::copyToFS\<close>; None inside is the null pointer.\<close>

definition base_copyToFS :: "os_calls \<Rightarrow> ('a b_base_scheme, b_mmap) copy_to_method \<Rightarrow> 'a b_base_scheme b_virtuals \<Rightarrow>
  'a b_base_scheme \<Rightarrow> string \<Rightarrow> bool \<Rightarrow> b_mmap option option" where
  "base_copyToFS os cp V s fileName removeOnDestroy =
     (case mmap_referenceFile os (mmap_new\<lparr>fsBaseFileName := fsBaseFileName s, fsDirectoryPath := fsDirectoryPath s\<rparr>)
             fileName False True of
        None \<Rightarrow> None
      | Some (m, ok) \<Rightarrow>
          if \<not> ok then Some None
          else case base_appendTo cp V (base_write (mmap_virtuals os)) s
                  (mmap_setRemoveOnDestroy m removeOnDestroy) u64_max 0 of
              None \<Rightarrow> None
            | Some (m', ok', n) \<Rightarrow>
                if n \<noteq> v_size V s \<or> \<not> ok' then Some None else Some (Some m'))"

subsection \<open>Reading a mapped file\<close>

definition mmap_content :: "b_mmap \<Rightarrow> byte list" where
  "mmap_content s = mem_content (mem s)"

definition mmap_ok :: "b_mmap \<Rightarrow> bool" where
  "mmap_ok s \<longleftrightarrow> mem_ok (mem s)"

interpretation mmap_c: container_copy "mmap_virtuals os" mmap_content mmap_ok
proof unfold_locales
  fix s n off
  assume s: "mmap_ok s"
  then have m: "mem_ok (mem s)" by (simp add: mmap_ok_def)
  show "v_size (mmap_virtuals os) s = length (mmap_content s)" "length (mmap_content s) < u64_mod"
    using mem_r.size_content [OF m] mem_r.content_bound [OF m]
    by (simp_all add: mmap_virtuals_def mmap_size_def mmap_content_def mem_virtuals_def)
  assume "0 < n" "off + n \<le> length (mmap_content s)"
  then show "v_copyOut2 (mmap_virtuals os) s n off = Some (segment off n (mmap_content s), True, n)"
    using mem_c.copyOut_inside [OF m] by (simp add: mmap_virtuals_def mmap_copyOut2_def mmap_content_def)
qed

interpretation mmap_search: container_search "mmap_virtuals os" mmap_content mmap_ok mem_hit True
proof unfold_locales
  fix s off sp c cs
  assume s: "mmap_ok s" "off + sp \<le> length (mmap_content s)"
  then have m: "mem_ok (mem s)" by (simp add: mmap_ok_def)
  have "mem_hit (cs \<and> is_alpha c) c = mem_hit cs c" by (auto simp: mem_hit_def)
  with mem_search.findChar_law [OF m, of off sp c "cs \<and> is_alpha c"] s(2)
  show "v_findChar (mmap_virtuals os) s c off sp cs =
      Some (case find_index (mem_hit cs c)
              (segment off (if sp = 0 \<and> True then length (mmap_content s) - off else sp) (mmap_content s)) of
        None \<Rightarrow> (False, 0) | Some i \<Rightarrow> (True, off + i))"
    by (simp add: mmap_virtuals_def mmap_findChar_def mmap_content_def mem_virtuals_def)
next
  fix s off cs and buf :: "byte list"
  assume a: "mmap_ok s" "buf \<noteq> []" "length buf \<le> 64 * KB_MULT" "off < u64_mod"
  then have m: "mem_ok (mem s)" by (simp add: mmap_ok_def)
  show "v_compare2 (mmap_virtuals os) s buf cs off = Some (off + length buf \<le> length (mmap_content s) \<and>
      same_bytes cs (segment off (length buf) (mmap_content s)) buf)"
    using mem_search.compare_law [OF m a(2-4)]
    by (simp add: mmap_virtuals_def mmap_compare2_def mmap_content_def)
qed

lemma FileMap_open_ok:
  assumes "os_open os path ro create = Some c" "os_stat_ok os path" "c = [] \<or> os_mmap_ok os (length c)"
  shows "FileMap_openFile os fm path ro create = (fm', ok) \<Longrightarrow>
    ok \<and> fm_fd fm' = Some c \<and> fm_fileOpenSize fm' = length c \<and> fm_readOnly fm' = ro \<and>
    fm_mmapAddr fm' = (if c = [] then MapEmpty else MapFile)"
  using assms
  by (auto simp: FileMap_openFile_def FileMap_mapFileUsingCurrentFileDescriptor_def Let_def split: if_splits)

lemma mmap_referenceFile_ok:
  assumes "os_open os path ro create = Some c" "os_stat_ok os path" "c = [] \<or> os_mmap_ok os (length c)"
    "path \<noteq> []" "length c < 2 ^ 32"
  shows "\<exists>s'. mmap_referenceFile os s path ro create = Some (s', True) \<and> mmap_ok s' \<and> mmap_content s' = c"
proof -
  obtain fm ok where o: "FileMap_openFile os FileMap_new path ro create = (fm, ok)" by fastforce
  note f = FileMap_open_ok [OF assms(1-3) o]
  let ?m = "if c = [] then [0] else c"
  have mem: "FileMap_memory fm = Some ?m"
    using f by (auto simp: FileMap_memory_def)
  obtain fm1 ok1 where close: "FileMap_closeFile os (fileReference s) True = (fm1, ok1)" by fastforce
  have ref: "mem_ok (mem_reference t (Some ?m) (length c))" "mem_content (mem_reference t (Some ?m) (length c)) = c" for t
    using mem_reference_ok [of "length c" ?m] assms(5) by auto
  let ?s1 = "mmap_with_file s fm1"
  have "mmap_referenceFile os s path ro create =
      Some (?s1\<lparr>mem := mem_reference (mem ?s1) (Some ?m) (length c), fileReference := fst (FileMap_assign (fileReference ?s1) fm)\<rparr>, True)"
    using f o mem assms(4) close by (simp add: mmap_referenceFile_def mmap_clear2_def Let_def)
  then show ?thesis using ref by (simp add: mmap_ok_def mmap_content_def)
qed

subsection \<open>Changing a mapped file\<close>

text \<open>An open, writable file whose mapping covers it, and calls that succeed.\<close>

definition file_ok :: "filemap \<Rightarrow> byte list \<Rightarrow> bool" where
  "file_ok fm c \<longleftrightarrow> fm_fd fm = Some c \<and> fm_fileOpenSize fm = length c \<and> \<not> fm_readOnly fm \<and>
     fm_mmapAddr fm = (if c = [] then MapEmpty else MapFile)"

definition os_ok :: "os_calls \<Rightarrow> bool" where
  "os_ok os \<longleftrightarrow> (\<forall>n. os_munmap_ok os n \<and> os_ftruncate_ok os n \<and> os_mmap_ok os n)"

definition os_fine :: "byte list \<Rightarrow> os_calls" where
  "os_fine c = \<lparr>os_open = (\<lambda>p ro cr. Some c), os_stat_ok = (\<lambda>p. True), os_munmap_ok = (\<lambda>n. True),
       os_mmap_ok = (\<lambda>n. True), os_ftruncate_ok = (\<lambda>n. True), os_random_name = ''x''\<rparr>"

lemma os_fine_ok: "os_ok (os_fine c)"
  by (simp add: os_ok_def os_fine_def)

lemma length_resize_bytes [simp]: "length (resize_bytes n c) = n"
  by (simp add: resize_bytes_def)

lemma mmapTruncate_ok:
  assumes "file_ok fm c" "os_ok os"
  obtains fm' where "FileMap_mmapTruncate os fm n = (fm', True)" "file_ok fm' (resize_bytes n c)"
proof (cases "n = 0")
  case True
  with assms show ?thesis
    by (intro that [of "fst (FileMap_mmapTruncate os fm n)"])
       (auto simp: FileMap_mmapTruncate_def FileMap_unMapFile_def file_ok_def os_ok_def resize_bytes_def
          FileMap_mapFileUsingCurrentFileDescriptor_def Let_def)
next
  case False
  then have "resize_bytes n c \<noteq> []" by (metis length_resize_bytes list.size(3))
  with False assms show ?thesis
    by (intro that [of "fst (FileMap_mmapTruncate os fm n)"])
       (auto simp: FileMap_mmapTruncate_def FileMap_unMapFile_def file_ok_def os_ok_def
          FileMap_mapFileUsingCurrentFileDescriptor_def Let_def)
qed

lemma file_ok_memory: "file_ok fm c \<Longrightarrow> c \<noteq> [] \<Longrightarrow> FileMap_memory fm = Some c"
  by (simp add: file_ok_def FileMap_memory_def)

lemma file_ok_store: "file_ok fm c \<Longrightarrow> c \<noteq> [] \<Longrightarrow> length c' = length c \<Longrightarrow>
  \<exists>fm'. FileMap_store fm c' = Some fm' \<and> file_ok fm' c'"
  by (auto simp: file_ok_def FileMap_store_def)

lemma mmapAppend_ok:
  assumes "file_ok fm c" "os_ok os" "buf \<noteq> []" "length c + length buf < u64_mod"
  shows "\<exists>fm'. FileMap_mmapAppend os fm buf = Some (fm', True, length buf) \<and> file_ok fm' (c @ buf)"
proof -
  obtain fm1 where t: "FileMap_mmapTruncate os fm (length c + length buf) = (fm1, True)"
    "file_ok fm1 (resize_bytes (length c + length buf) c)"
    using mmapTruncate_ok [OF assms(1,2)] by blast
  let ?c1 = "resize_bytes (length c + length buf) c"
  have c1: "?c1 = c @ replicate (length buf) 0" by (simp add: resize_bytes_def)
  have ne: "?c1 \<noteq> []" using assms(3) c1 by simp
  obtain fm2 where s: "FileMap_store fm1 (c @ buf) = Some fm2" "file_ok fm2 (c @ buf)"
    using file_ok_store [OF t(2) ne, of "c @ buf"] by auto
  have "fm_fileOpenSize fm = length c" using assms(1) by (simp add: file_ok_def)
  then show ?thesis
    using t s assms(3,4) file_ok_memory [OF t(2) ne] c1
    by (simp add: FileMap_mmapAppend_def Let_def add64_eq)
qed

lemma mmapPrepend_ok:
  assumes "file_ok fm c" "os_ok os" "buf \<noteq> []" "length buf \<le> length c" "length c \<le> 64 * KB_MULT"
  shows "\<exists>fm'. FileMap_mmapPrepend os fm buf = Some (fm', True, length buf) \<and>
    file_ok fm' (buf @ drop (length buf) (drop (length buf) c @ replicate (2 * length buf) 0))"
proof -
  let ?d = "length buf" and ?n = "length c"
  have small: "?n + ?d < u64_mod" "?n < u64_mod" using assms(4,5) by (simp_all add: KB_MULT_def u64_mod_def)
  obtain fm1 where t: "FileMap_mmapTruncate os fm (?n + ?d) = (fm1, True)"
    "file_ok fm1 (resize_bytes (?n + ?d) c)"
    using mmapTruncate_ok [OF assms(1,2)] by blast
  have c1: "resize_bytes (?n + ?d) c = c @ replicate ?d 0" by (simp add: resize_bytes_def)
  have mv: "memmove64 (c @ replicate ?d 0) 0 ?d ?n = Some (drop ?d c @ replicate (2 * ?d) 0)"
    using memmove64_eq [of 0 ?d ?n "c @ replicate ?d 0"] assms(3-5) small
    by (simp add: segment_def mult_2 replicate_add)
  have cp: "memcpy64 (drop ?d c @ replicate (2 * ?d) 0) buf ?d =
      Some (buf @ drop ?d (drop ?d c @ replicate (2 * ?d) 0))" (is "_ = Some ?r")
    using memcpy64_eq [of ?d "drop ?d c @ replicate (2 * ?d) 0" buf] by (simp add: assms(4))
  have ne: "c @ replicate ?d 0 \<noteq> []" using assms(3) by simp
  have t': "file_ok fm1 (c @ replicate ?d 0)" using t(2) c1 by simp
  have "length ?r = length (c @ replicate ?d 0)" using assms(4) by simp
  from file_ok_store [OF t' ne this]
  obtain fm2 where "FileMap_store fm1 ?r = Some fm2" "file_ok fm2 ?r" by blast
  moreover have "fm_fileOpenSize fm = ?n" using assms(1) by (simp add: file_ok_def)
  ultimately show ?thesis
    using t(1) mv cp assms(3) small file_ok_memory [OF t' ne]
    by (simp add: FileMap_mmapPrepend_def Let_def add64_eq)
qed

lemma mmap_reMap_size:
  "mmap_size (mmap_reMapMemoryContainer s) = mmap_size s mod 2 ^ 32"
  by (simp add: mmap_reMapMemoryContainer_def mmap_size_def mem_size_def mem_reference_def setContainerBytes_def Let_def)

lemma mmap_append2_ok:
  assumes "file_ok (fileReference s) c" "os_ok os" "buf \<noteq> []" "length c + length buf < u64_mod"
  shows "\<exists>s'. mmap_append2 os s buf False = Some (s', True, length buf) \<and>
    file_ok (fileReference s') (c @ buf) \<and> mmap_size s' = mmap_size s mod 2 ^ 32"
proof -
  obtain fm where "FileMap_mmapAppend os (fileReference s) buf = Some (fm, True, length buf)" "file_ok fm (c @ buf)"
    using mmapAppend_ok [OF assms] by blast
  then show ?thesis
    by (intro exI [of _ "mmap_reMapMemoryContainer (s\<lparr>fileReference := fm\<rparr>)"])
       (simp add: mmap_append2_def mmap_reMap_size,
        simp add: mmap_reMapMemoryContainer_def mmap_size_def setContainerBytes_def Let_def)
qed

subsection \<open>Properties\<close>

text \<open>A file of less than 4 GB that can be opened, examined and mapped is referenced with
  success, and the container then reads exactly the bytes of the file.\<close>

theorem mmap_reads_the_file:
  assumes "os_open os path ro create = Some c" "os_stat_ok os path" "c = [] \<or> os_mmap_ok os (length c)"
    "path \<noteq> []" "length c < 2 ^ 32"
  shows "\<exists>s'. mmap_referenceFile os s path ro create = Some (s', True) \<and>
    base_toString (mmap_virtuals os) s' u64_max 0 = Some c"
  using mmap_referenceFile_ok [OF assms] mmap_c.toString_all by blast

theorem mmap_reads_the_file_witness:
  "\<exists>s'. mmap_referenceFile (os_fine [1, 2]) mmap_new ''f'' True False = Some (s', True) \<and>
    base_toString (mmap_virtuals (os_fine [1, 2])) s' u64_max 0 = Some [1, 2]"
  by (rule mmap_reads_the_file) (simp_all add: os_fine_def)

text \<open>An append to a mapped file stores the data at the end of the file and reports success, but
  the container is mapped again with its old size: the appended bytes are not part of it.\<close>

theorem mmap_append_is_not_visible:
  assumes "file_ok (fileReference s) c" "os_ok os" "\<not> readOnly s" "maxSize s = u64_max" "buf \<noteq> []"
    "mmap_size s < 2 ^ 32" "length c + length buf < 2 ^ 32"
  shows "\<exists>s'. base_append (mmap_virtuals os) s buf = Some (s', True, length buf) \<and>
    file_ok (fileReference s') (c @ buf) \<and> mmap_size s' = mmap_size s"
proof -
  have "length c + length buf < u64_mod" "mmap_size s + length buf < u64_mod"
    using assms(6,7) by (simp_all add: u64_mod_def)
  with mmap_append2_ok [OF assms(1,2,5)] assms show ?thesis
    by (auto simp: base_append_def mmap_virtuals_def no_overflow_sum add64_eq Let_def add.commute less_u64_mod_iff)
qed

theorem mmap_append_is_not_visible_witness:
  "\<exists>s'. base_append (mmap_virtuals (os_fine []))
     (mmap_new\<lparr>fileReference := FileMap_new\<lparr>fm_fd := Some [], fm_mmapAddr := MapEmpty\<rparr>\<rparr>) [7] = Some (s', True, 1) \<and>
    file_ok (fileReference s') [7] \<and> mmap_size s' = 0"
proof -
  let ?s = "mmap_new\<lparr>fileReference := FileMap_new\<lparr>fm_fd := Some [], fm_mmapAddr := MapEmpty\<rparr>\<rparr>"
  have "mmap_size ?s = 0"
    by (simp add: mmap_new_def b_base.extend_def mmap_size_def mem_construct_def mem_new_def mem_size_def B_Base_new_def)
  then show ?thesis
    using mmap_append_is_not_visible [of ?s "[]" "os_fine []" "[7]"]
    by (simp add: file_ok_def os_fine_ok mmap_new_def b_base.extend_def B_Base_new_def FileMap_new_def)
qed

text \<open>A prepend to a mapped file does not keep what it had: the old bytes are moved towards the
  start instead of the end, so of them the first ones, twice as many as were prepended, are lost.\<close>

theorem mmap_prepend_loses_data:
  assumes "file_ok fm c" "os_ok os" "buf \<noteq> []" "length buf \<le> length c" "length c \<le> 64 * KB_MULT"
  shows "\<exists>fm'. FileMap_mmapPrepend os fm buf = Some (fm', True, length buf) \<and>
    file_ok fm' (buf @ drop (length buf) (drop (length buf) c @ replicate (2 * length buf) 0))"
  using assms by (rule mmapPrepend_ok)

theorem mmap_prepend_loses_data_witness:
  "\<exists>fm'. FileMap_mmapPrepend (os_fine []) (FileMap_new\<lparr>fm_fd := Some [1, 2, 3], fm_mmapAddr := MapFile,
       fm_fileOpenSize := 3\<rparr>) [9] = Some (fm', True, length [9 :: byte]) \<and> file_ok fm' [9, 3, 0, 0]"
proof -
  let ?fm = "FileMap_new\<lparr>fm_fd := Some [1, 2, 3], fm_mmapAddr := MapFile, fm_fileOpenSize := 3\<rparr>"
  have "\<exists>fm'. FileMap_mmapPrepend (os_fine []) ?fm [9] = Some (fm', True, length [9 :: byte]) \<and>
      file_ok fm' ([9] @ drop (length [9 :: byte]) (drop (length [9 :: byte]) [1, 2, 3] @ replicate (2 * length [9 :: byte]) 0))"
    by (rule mmap_prepend_loses_data)
       (simp_all add: file_ok_def FileMap_new_def os_fine_ok KB_MULT_def)
  then show ?thesis by (simp add: numeral_2_eq_2)
qed

end
