(* ===== verification/Container_Chunks.thy ===== *)
theory Container_Chunks
  imports Container_Mmap
begin

text \<open>
  \<^verbatim>\<open>Memory/mdz_mem_vars/b_chunk.h\<close> and \<^verbatim>\<open>b_chunks.{h,cpp}\<close>: the growable container, a vector of
  chunks of owned memory, which may move to a mapped file when it grows past a limit. An
  allocation is assumed to succeed (\<^verbatim>\<open>new[]\<close> does not return null).
\<close>

subsection \<open>Chunks\<close>

record BinaryContainerChunk =
  ck_rodata :: "byte list option"
  ck_rosize :: nat
  ck_data :: "byte list option"
  ck_size :: nat
  ck_offset :: nat

definition ck_bytes :: "BinaryContainerChunk \<Rightarrow> byte list" where
  "ck_bytes c = (case ck_data c of None \<Rightarrow> [] | Some d \<Rightarrow> d)"

definition ck_new :: BinaryContainerChunk where
  "ck_new = \<lparr>ck_rodata = None, ck_rosize = 0, ck_data = None, ck_size = 0, ck_offset = 0\<rparr>"

definition ck_destroy :: "BinaryContainerChunk \<Rightarrow> BinaryContainerChunk" where
  "ck_destroy c = c\<lparr>ck_data := None, ck_size := 0\<rparr>"

definition ck_displace :: "BinaryContainerChunk \<Rightarrow> nat \<Rightarrow> BinaryContainerChunk" where
  "ck_displace c displLen =
     (if ck_data c = None then c
      else if displLen = 0 then c
      else if displLen \<ge> ck_size c then ck_destroy c
      else (ck_destroy c)\<lparr>ck_data := Some (segment displLen (ck_size c - displLen) (ck_bytes c)),
                          ck_size := ck_size c - displLen\<rparr>)"

definition ck_truncate :: "BinaryContainerChunk \<Rightarrow> nat \<Rightarrow> BinaryContainerChunk" where
  "ck_truncate c nSize =
     (if nSize \<ge> add64 (ck_offset c) (ck_size c) then c
      else if nSize = 0 \<or> nSize = ck_offset c then c
      else (ck_destroy c)\<lparr>ck_data := Some (take (sub64 nSize (ck_offset c)) (ck_bytes c)),
                          ck_size := sub64 nSize (ck_offset c)\<rparr>)"

definition ck_copy :: "BinaryContainerChunk \<Rightarrow> byte list \<Rightarrow> BinaryContainerChunk" where
  "ck_copy c buf = (ck_destroy c)\<lparr>ck_data := Some buf, ck_size := length buf\<rparr>"

definition ck_nextOffset :: "BinaryContainerChunk \<Rightarrow> nat" where
  "ck_nextOffset c = add64 (ck_size c) (ck_offset c)"

definition ck_containsOffset :: "BinaryContainerChunk \<Rightarrow> nat \<Rightarrow> bool" where
  "ck_containsOffset c l_offset \<longleftrightarrow> l_offset \<ge> ck_offset c \<and> l_offset < ck_nextOffset c"

definition ck_moveToOffset :: "BinaryContainerChunk \<Rightarrow> nat \<Rightarrow> BinaryContainerChunk" where
  "ck_moveToOffset c l_offset0 =
     (let l_offset = sub64 l_offset0 (ck_offset c) in
      c\<lparr>ck_offset := 0, ck_size := sub64 (ck_size c) l_offset,
        ck_data := map_option (drop l_offset) (ck_data c)\<rparr>)"

subsection \<open>The container\<close>

record b_chunks = b_base +
  chunksVector :: "BinaryContainerChunk list"
  maxChunks :: nat
  maxChunkSize :: nat
  maxContainerSizeUntilGoingToFS :: nat
  mmapContainer :: "b_mmap option"

definition chunks_new :: b_chunks where
  "chunks_new = b_base.extend (B_Base_new\<lparr>storeMethod := BC_METHOD_CHUNKS\<rparr>)
     \<lparr>chunksVector = [], maxChunks = 256 * KB_MULT, maxChunkSize = 64 * KB_MULT,
      maxContainerSizeUntilGoingToFS = 0, mmapContainer = None\<rparr>"

definition chunks_isUsingFiles :: "b_chunks \<Rightarrow> bool" where
  "chunks_isUsingFiles s \<longleftrightarrow> mmapContainer s \<noteq> None"

definition chunks_setMaxChunks :: "b_chunks \<Rightarrow> nat \<Rightarrow> b_chunks" where
  "chunks_setMaxChunks s value = s\<lparr>maxChunks := (if value < 2 ^ 32 - 1 then value else 2 ^ 32 - 1)\<rparr>"

definition chunks_setMaxChunkSize :: "b_chunks \<Rightarrow> nat \<Rightarrow> b_chunks" where
  "chunks_setMaxChunkSize s value = s\<lparr>maxChunkSize := value mod 2 ^ 32\<rparr>"

definition chunks_setMaxContainerSizeUntilGoingToFS :: "b_chunks \<Rightarrow> nat \<Rightarrow> b_chunks" where
  "chunks_setMaxContainerSizeUntilGoingToFS s value = s\<lparr>maxContainerSizeUntilGoingToFS := value\<rparr>"

definition chunks_size :: "b_chunks \<Rightarrow> nat" where
  "chunks_size s = (case mmapContainer s of Some m \<Rightarrow> mmap_size m | None \<Rightarrow> containerBytes s)"

text \<open>The pointer \<^verbatim>\<open>i\<close> of the loop is set once, to the first chunk, and never moved.\<close>

fun recalc_loop :: "nat \<Rightarrow> nat \<Rightarrow> BinaryContainerChunk \<Rightarrow> BinaryContainerChunk" where
  "recalc_loop 0 currentOffset i = i"
| "recalc_loop (Suc k) currentOffset i =
     (let i' = i\<lparr>ck_offset := currentOffset\<rparr> in recalc_loop k (ck_nextOffset i') i')"

definition recalcChunkOffsets :: "BinaryContainerChunk list \<Rightarrow> BinaryContainerChunk list" where
  "recalcChunkOffsets cv = (case cv of [] \<Rightarrow> [] | i # cs \<Rightarrow> recalc_loop (length cv) 0 i # cs)"

definition chunk_mid :: "nat \<Rightarrow> nat \<Rightarrow> nat" where
  "chunk_mid curmin curmax =
     (if curmin = curmax then curmin
      else sub64 (add64 curmin (sub64 (add64 curmax 1) curmin div 2)) (sub64 curmax curmin mod 2))"

text \<open>The binary search, with its arguments defaulting to \<^verbatim>\<open>MAX_SIZE_T\<close>, which is also its result
  when no chunk holds the offset.\<close>

partial_function (option) I_Chunk_GetPosForOffset ::
  "BinaryContainerChunk list \<Rightarrow> nat \<Rightarrow> nat \<Rightarrow> nat \<Rightarrow> nat \<Rightarrow> nat option" where
  "I_Chunk_GetPosForOffset cv offset curpos0 curmax0 curmin0 =
     (if length cv = 0 then Some u64_max
      else let curpos = (if curpos0 = u64_max then (if length cv = 1 then 0 else length cv div 2 - 1) else curpos0);
               curmax = (if curmax0 = u64_max then (if length cv = 1 then 0 else length cv - 1) else curmax0);
               curmin = (if curmin0 = u64_max then 0 else curmin0) in
        if curpos \<ge> length cv then None
        else if ck_containsOffset (cv ! curpos) offset then Some curpos
        else if offset < ck_offset (cv ! curpos) then
          (if curpos = curmin then Some u64_max
           else I_Chunk_GetPosForOffset cv offset (chunk_mid curmin (sub64 curpos 1)) (sub64 curpos 1) curmin)
        else
          (if curpos = curmax then Some u64_max
           else I_Chunk_GetPosForOffset cv offset (chunk_mid (add64 curpos 1) curmax) curmax (add64 curpos 1)))"

definition chunk_pos :: "BinaryContainerChunk list \<Rightarrow> nat \<Rightarrow> nat option" where
  "chunk_pos cv offset = I_Chunk_GetPosForOffset cv offset u64_max u64_max u64_max"

definition chunks_truncate2 :: "os_calls \<Rightarrow> b_chunks \<Rightarrow> nat \<Rightarrow> (b_chunks \<times> result) option" where
  "chunks_truncate2 os s bytes =
     (case mmapContainer s of
        Some m \<Rightarrow> map_option (\<lambda>(m', r). (s\<lparr>mmapContainer := Some m'\<rparr>, r)) (base_truncate (mmap_virtuals os) m bytes)
      | None \<Rightarrow> (case chunk_pos (chunksVector s) bytes of
            None \<Rightarrow> None
          | Some ival \<Rightarrow>
              if ival = u64_max then Some (s, False, 0)
              else let (ival', cv) =
                     (if ck_offset (chunksVector s ! ival) = bytes then (sub64 ival 1, chunksVector s)
                      else (ival, (chunksVector s)[ival := ck_truncate (chunksVector s ! ival) bytes]));
                       s' = setContainerBytes (s\<lparr>chunksVector := take (add64 ival' 1) cv\<rparr>) bytes
                   in Some (s', True, chunks_size s')))"

fun chunks_displace_loop :: "BinaryContainerChunk list \<Rightarrow> nat \<Rightarrow> nat \<Rightarrow> nat \<Rightarrow> BinaryContainerChunk list \<times> nat \<times> nat" where
  "chunks_displace_loop [] bytesToDisplace cb displaced = ([], cb, displaced)"
| "chunks_displace_loop (c # cs) bytesToDisplace cb displaced =
     (if bytesToDisplace = 0 then (c # cs, cb, displaced)
      else if bytesToDisplace \<ge> ck_size c
      then chunks_displace_loop cs (bytesToDisplace - ck_size c) (sub64 cb (ck_size c)) (add64 displaced (ck_size c))
      else (ck_displace c bytesToDisplace # cs, sub64 cb bytesToDisplace, add64 displaced bytesToDisplace))"

definition chunks_displace2 :: "os_calls \<Rightarrow> b_chunks \<Rightarrow> nat \<Rightarrow> (b_chunks \<times> result) option" where
  "chunks_displace2 os s bytesToDisplace =
     (case mmapContainer s of
        Some m \<Rightarrow> map_option (\<lambda>(m', r). (s\<lparr>mmapContainer := Some m'\<rparr>, r))
          (base_displace (mmap_virtuals os) m bytesToDisplace)
      | None \<Rightarrow>
          (let (cv, cb, displaced) = chunks_displace_loop (chunksVector s) bytesToDisplace (containerBytes s) 0 in
           Some (setContainerBytes (s\<lparr>chunksVector := recalcChunkOffsets cv\<rparr>) cb, True, displaced)))"

definition chunks_clear2 :: "os_calls \<Rightarrow> b_chunks \<Rightarrow> (b_chunks \<times> bool) option" where
  "chunks_clear2 os s = Some (s\<lparr>mmapContainer := None, chunksVector := []\<rparr>, True)"

subsection \<open>Reading\<close>

text \<open>\<^verbatim>\<open>read_at m off n\<close>: the n bytes at an offset of a memory.\<close>

definition read_at :: "byte list option \<Rightarrow> nat \<Rightarrow> nat \<Rightarrow> byte list option" where
  "read_at m off n =
     (case m of
        None \<Rightarrow> (if n = 0 then Some [] else None)
      | Some xs \<Rightarrow> if off + n \<le> length xs then Some (segment off n xs) else None)"

text \<open>The pieces of the chunks that \<^verbatim>\<open>copyTo2\<close> and \<^verbatim>\<open>copyToStream2\<close> send.\<close>

fun chunks_pieces :: "BinaryContainerChunk list \<Rightarrow> nat \<Rightarrow> nat \<Rightarrow> byte list list option" where
  "chunks_pieces [] dataToCopy offset = Some []"
| "chunks_pieces (c # cs) dataToCopy offset =
     (let (ptr, rosize) = (if ck_rodata c = None then (ck_data c, ck_size c) else (ck_rodata c, ck_rosize c)) in
      if offset > rosize then chunks_pieces cs dataToCopy (offset - rosize)
      else let n = (if dataToCopy > rosize - offset then rosize - offset else dataToCopy) in
        case read_at ptr offset n of
          None \<Rightarrow> None
        | Some p \<Rightarrow> if dataToCopy - n = 0 then Some [p]
            else map_option (\<lambda>ps. p # ps) (chunks_pieces cs (dataToCopy - n) 0))"

definition chunks_copyToStream2 :: "os_calls \<Rightarrow> b_chunks copy_to_stream_method" where
  "chunks_copyToStream2 os s out roBytes offset =
     (case mmapContainer s of
        Some m \<Rightarrow> base_copyToStream mmap_copyToStream2 (mmap_virtuals os) m out roBytes offset
      | None \<Rightarrow>
          if roBytes = 0 then Some (out, True, 0)
          else if overflow_sum offset roBytes then Some (out, False, 0)
          else if offset > chunks_size s then Some (out, False, 0)
          else let bytes = (if add64 offset roBytes > chunks_size s then chunks_size s - offset else roBytes) in
            map_option (\<lambda>cs. let (out', n) = copyToStreamUsingCleanVector out cs in (out', True, n))
              (chunks_pieces (chunksVector s) bytes offset))"

definition chunks_copyTo2 :: "os_calls \<Rightarrow> (b_chunks, 'o) copy_to_method" where
  "chunks_copyTo2 os w s out wrStatUpd roBytes offset =
     (case mmapContainer s of
        Some m \<Rightarrow> base_appendTo_upd mmap_copyTo2 (mmap_virtuals os) w m out wrStatUpd roBytes offset
      | None \<Rightarrow>
          if roBytes = 0 then Some (out, wrStatUpd, True, 0)
          else if overflow_sum offset roBytes then Some (out, wrStatUpd, False, 0)
          else if offset > chunks_size s then Some (out, wrStatUpd, False, 0)
          else let bytes = (if add64 offset roBytes > chunks_size s then chunks_size s - offset else roBytes) in
            case chunks_pieces (chunksVector s) bytes offset of
              None \<Rightarrow> None
            | Some cs \<Rightarrow> map_option (\<lambda>(out', upd', n). (out', upd', True, n))
                (copyToSOUsingCleanVector w out cs wrStatUpd))"

text \<open>The loop of \<^verbatim>\<open>copyOut2\<close> from the current chunk and the ones after it.\<close>

fun chunks_copyOut_loop :: "byte list \<Rightarrow> nat \<Rightarrow> nat \<Rightarrow> BinaryContainerChunk \<Rightarrow> BinaryContainerChunk list \<Rightarrow>
  (byte list \<times> nat) option" where
  "chunks_copyOut_loop buf copiedBytes bytes c [] =
     (if bytes > ck_size c
      then map_option (\<lambda>d. (buf @ d, copiedBytes + ck_size c)) (read_at (ck_data c) 0 (ck_size c))
      else map_option (\<lambda>d. (buf @ d, copiedBytes + bytes)) (read_at (ck_data c) 0 bytes))"
| "chunks_copyOut_loop buf copiedBytes bytes c (c' # cs) =
     (if bytes > ck_size c
      then (case read_at (ck_data c) 0 (ck_size c) of
          None \<Rightarrow> None
        | Some d \<Rightarrow> chunks_copyOut_loop (buf @ d) (copiedBytes + ck_size c) (bytes - ck_size c) c' cs)
      else map_option (\<lambda>d. (buf @ d, copiedBytes + bytes)) (read_at (ck_data c) 0 bytes))"

definition chunks_copyOut2 :: "os_calls \<Rightarrow> b_chunks \<Rightarrow> nat \<Rightarrow> nat \<Rightarrow> (byte list \<times> result) option" where
  "chunks_copyOut2 os s bytes offset =
     (case mmapContainer s of
        Some m \<Rightarrow> base_copyOut (mmap_virtuals os) m bytes offset
      | None \<Rightarrow>
          if overflow_sum offset bytes then Some ([], False, 0)
          else if bytes = 0 then Some ([], True, 0)
          else if add64 offset bytes > chunks_size s then Some ([], False, 0)
          else case chunk_pos (chunksVector s) offset of
              None \<Rightarrow> None
            | Some icurrentChunk \<Rightarrow>
                if icurrentChunk = u64_max then Some ([], False, 0)
                else map_option (\<lambda>(d, n). (d, True, n))
                  (chunks_copyOut_loop [] 0 bytes (ck_moveToOffset (chunksVector s ! icurrentChunk) offset)
                    (drop (Suc icurrentChunk) (chunksVector s))))"

fun chunks_compare_loop :: "BinaryContainerChunk list \<Rightarrow> byte list \<Rightarrow> bool \<Rightarrow> nat \<Rightarrow> bool option" where
  "chunks_compare_loop [] buf caseSensitive offset = Some (buf = [])"
| "chunks_compare_loop (i # cs) buf caseSensitive offset =
     (if offset > ck_size i then chunks_compare_loop cs buf caseSensitive (offset - ck_size i)
      else let n = (if length buf > ck_size i - offset then ck_size i - offset else length buf) in
        case memicmp2 (drop offset (ck_bytes i)) buf n caseSensitive of
          None \<Rightarrow> None
        | Some v \<Rightarrow>
            if v \<noteq> 0 then Some False
            else if length buf - n = 0 then Some True
            else chunks_compare_loop cs (drop n buf) caseSensitive 0)"

definition chunks_compare2 :: "os_calls \<Rightarrow> b_chunks \<Rightarrow> byte list \<Rightarrow> bool \<Rightarrow> nat \<Rightarrow> bool option" where
  "chunks_compare2 os s buf caseSensitive offset =
     (case mmapContainer s of
        Some m \<Rightarrow> base_compare (mmap_virtuals os) m buf caseSensitive offset
      | None \<Rightarrow>
          if overflow_sum offset (length buf) then Some False
          else if length buf = 0 then Some True
          else if add64 offset (length buf) > chunks_size s then Some False
          else chunks_compare_loop (chunksVector s) buf caseSensitive offset)"

text \<open>The flag is used the other way round: the search for both cases is the one with the flag set.\<close>

fun chunks_findChar_loop :: "BinaryContainerChunk list \<Rightarrow> byte \<Rightarrow> nat \<Rightarrow> nat \<Rightarrow> bool \<Rightarrow> nat \<Rightarrow> result option" where
  "chunks_findChar_loop [] c offset searchSpace caseSensitive retpos = Some (False, 0)"
| "chunks_findChar_loop (ch # cs) c offset searchSpace caseSensitive retpos =
     (if offset > ck_size ch
      then chunks_findChar_loop cs c (offset - ck_size ch) searchSpace caseSensitive (retpos + ck_size ch)
      else let size = ck_size ch - offset;
               n = (if searchSpace > size then size else searchSpace) in
        case (if \<not> caseSensitive then memchr_at (ck_data ch) offset c n
              else case memchr_at (ck_data ch) offset (to_upper c) n of
                  None \<Rightarrow> None
                | Some pos_upper \<Rightarrow> map_option (\<lambda>pos_lower. first_of_cases pos_upper pos_lower)
                    (memchr_at (ck_data ch) offset (to_lower c) n)) of
          None \<Rightarrow> None
        | Some (Some pos) \<Rightarrow> Some (True, pos + retpos)
        | Some None \<Rightarrow>
            if searchSpace > size
            then chunks_findChar_loop cs c 0 (searchSpace - size) caseSensitive (retpos + ck_size ch)
            else Some (False, 0))"

definition chunks_findChar :: "b_chunks \<Rightarrow> byte \<Rightarrow> nat \<Rightarrow> nat \<Rightarrow> bool \<Rightarrow> result option" where
  "chunks_findChar s c offset searchSpace caseSensitive0 =
     (let caseSensitive = (caseSensitive0 \<and> is_alpha c) in
      case mmapContainer s of
        Some m \<Rightarrow> mmap_findChar m c offset 0 False
      | None \<Rightarrow>
          if overflow_sum offset searchSpace then Some (False, u64_max)
          else if offset > chunks_size s \<or> add64 offset searchSpace > chunks_size s then Some (False, u64_max)
          else chunks_findChar_loop (chunksVector s) c offset searchSpace caseSensitive 0)"

subsection \<open>Growing\<close>

function chunks_append_loop :: "bool \<Rightarrow> b_chunks \<Rightarrow> byte list \<Rightarrow> nat \<Rightarrow> b_chunks \<times> result" where
  "chunks_append_loop prependMode s buf appended =
     (if buf = []
      then ((if prependMode then s\<lparr>chunksVector := recalcChunkOffsets (chunksVector s)\<rparr> else s), True, appended)
      else let chunkSize = (if length buf < maxChunkSize s then length buf else maxChunkSize s) in
        if length (chunksVector s) + 1 > maxChunks s then (s, False, appended)
        else let bcc = ck_copy ck_new (take chunkSize buf);
                 cv = (if \<not> prependMode
                       then chunksVector s @ [bcc\<lparr>ck_offset := (if chunksVector s = [] then 0
                              else ck_nextOffset (last (chunksVector s)))\<rparr>]
                       else bcc # chunksVector s)
             in chunks_append_loop prependMode
                  (setContainerBytes (s\<lparr>chunksVector := cv\<rparr>) (add64 (chunks_size s) (ck_size bcc)))
                  (drop chunkSize buf) (add64 appended (ck_size bcc)))"
  by pat_completeness auto
termination
  by (relation "measure (\<lambda>(p, s, buf, n). maxChunks s - length (chunksVector s))")
     (auto simp: setContainerBytes_def split: if_splits)

declare chunks_append_loop.simps [simp del]

definition chunks_clearChunks :: "b_chunks \<Rightarrow> b_chunks" where
  "chunks_clearChunks s = s\<lparr>chunksVector := []\<rparr>"

text \<open>The record of the virtual functions, with \<^verbatim>\<open>append2\<close> as an argument: \<^verbatim>\<open>append2\<close> itself passes
  the container to \<^verbatim>\<open>copyToFS\<close>, which asks it for its size and its bytes only.\<close>

definition chunks_virtuals_with :: "os_calls \<Rightarrow> (b_chunks \<Rightarrow> byte list \<Rightarrow> bool \<Rightarrow> (b_chunks \<times> result) option) \<Rightarrow>
  b_chunks b_virtuals" where
  "chunks_virtuals_with os append2 = \<lparr>v_size = chunks_size, v_truncate2 = chunks_truncate2 os,
     v_clear2 = chunks_clear2 os, v_displace2 = chunks_displace2 os, v_append2 = append2,
     v_copyOut2 = chunks_copyOut2 os, v_compare2 = chunks_compare2 os, v_findChar = chunks_findChar\<rparr>"

definition chunks_append2 :: "os_calls \<Rightarrow> b_chunks \<Rightarrow> byte list \<Rightarrow> bool \<Rightarrow> (b_chunks \<times> result) option" where
  "chunks_append2 os s buf prependMode =
     (let to_mmap = (\<lambda>s m. map_option (\<lambda>(m', r). (s\<lparr>mmapContainer := Some m'\<rparr>, r))
            (if prependMode then base_prepend (mmap_virtuals os) m buf else base_append (mmap_virtuals os) m buf)) in
      case mmapContainer s of
        Some m \<Rightarrow> to_mmap s m
      | None \<Rightarrow>
          if overflow_sum (length buf) (chunks_size s) then Some (s, False, 0)
          else if maxContainerSizeUntilGoingToFS s \<noteq> 0 \<and>
                  add64 (length buf) (chunks_size s) > maxContainerSizeUntilGoingToFS s
          then (case base_copyToFS os (chunks_copyTo2 os) (chunks_virtuals_with os (\<lambda>s b p. None)) s [] True of
                  None \<Rightarrow> None
                | Some None \<Rightarrow> Some (s, False, 0)
                | Some (Some m) \<Rightarrow> to_mmap (chunks_clearChunks s) m)
          else Some (chunks_append_loop prependMode s buf 0))"

definition chunks_virtuals :: "os_calls \<Rightarrow> b_chunks b_virtuals" where
  "chunks_virtuals os = chunks_virtuals_with os (chunks_append2 os)"

definition chunks_construct :: "os_calls \<Rightarrow> byte list \<Rightarrow> b_chunks option" where
  "chunks_construct os str = map_option fst (base_append (chunks_virtuals os) chunks_new str)"

end
