(* ===== verification/Container_Chunks_Facts.thy ===== *)
theory Container_Chunks_Facts
  imports Container_Chunks
begin

text \<open>
  The content of a chunk container, its invariant \<^verbatim>\<open>chunks_ok\<close>, the invariant \<^verbatim>\<open>chunks_indexed\<close>
  under which the offsets of the chunks are right, and the interpretations of the contracts of
  \<^verbatim>\<open>Container_Contracts\<close> on it. Appending, truncating, streaming and searching keep them;
  displacing keeps the content but not the index.
\<close>

subsection \<open>Content and invariant\<close>

definition chunk_ok :: "BinaryContainerChunk \<Rightarrow> bool" where
  "chunk_ok c \<longleftrightarrow> ck_rodata c = None \<and> ck_data c = Some (ck_bytes c) \<and> ck_bytes c \<noteq> [] \<and>
     ck_size c = length (ck_bytes c) \<and> length (ck_bytes c) \<le> 64 * KB_MULT"

lemma chunk_okD:
  "chunk_ok c \<Longrightarrow> ck_rodata c = None" "chunk_ok c \<Longrightarrow> ck_data c = Some (ck_bytes c)"
  "chunk_ok c \<Longrightarrow> ck_bytes c \<noteq> []" "chunk_ok c \<Longrightarrow> ck_size c = length (ck_bytes c)"
  "chunk_ok c \<Longrightarrow> length (ck_bytes c) \<le> 64 * KB_MULT"
  by (simp_all add: chunk_ok_def)

abbreviation chunk_bytes :: "BinaryContainerChunk list \<Rightarrow> byte list" where
  "chunk_bytes cv \<equiv> concat (map ck_bytes cv)"

definition chunks_content :: "b_chunks \<Rightarrow> byte list" where
  "chunks_content s = chunk_bytes (chunksVector s)"

text \<open>The container works in memory, with chunks of at most 64 KB.\<close>

definition chunks_ok :: "b_chunks \<Rightarrow> bool" where
  "chunks_ok s \<longleftrightarrow> mmapContainer s = None \<and> maxContainerSizeUntilGoingToFS s = 0 \<and>
     0 < maxChunkSize s \<and> maxChunkSize s \<le> 64 * KB_MULT \<and> list_all chunk_ok (chunksVector s) \<and>
     containerBytes s = length (chunks_content s) \<and> length (chunks_content s) < u64_mod \<and> maxSize s < u64_mod"

text \<open>Every chunk starts where the one before it ends.\<close>

fun offsets_ok :: "nat \<Rightarrow> BinaryContainerChunk list \<Rightarrow> bool" where
  "offsets_ok off [] \<longleftrightarrow> True"
| "offsets_ok off (c # cs) \<longleftrightarrow> ck_offset c = off \<and> offsets_ok (off + ck_size c) cs"

definition chunks_indexed :: "b_chunks \<Rightarrow> bool" where
  "chunks_indexed s \<longleftrightarrow> chunks_ok s \<and> offsets_ok 0 (chunksVector s)"

lemma chunks_sizeD: "chunks_ok s \<Longrightarrow> chunks_size s = length (chunks_content s)"
  by (simp add: chunks_ok_def chunks_size_def)

lemma ck_bytes_Some: "ck_data c = Some d \<Longrightarrow> ck_bytes c = d"
  by (simp add: ck_bytes_def)

subsection \<open>Reading the chunks in order\<close>

lemma read_at_Some: "off + n \<le> length d \<Longrightarrow> read_at (Some d) off n = Some (segment off n d)"
  by (simp add: read_at_def)

lemma chunks_pieces_eq:
  "list_all chunk_ok cv \<Longrightarrow> off + n \<le> length (chunk_bytes cv) \<Longrightarrow>
   \<exists>ps. chunks_pieces cv n off = Some ps \<and> concat ps = segment off n (chunk_bytes cv)"
proof (induction cv arbitrary: n off)
  case Nil
  then show ?case by (simp add: segment_def)
next
  case (Cons c cs)
  let ?d = "ck_bytes c"
  have c: "ck_rodata c = None" "ck_data c = Some ?d" "ck_size c = length ?d" "list_all chunk_ok cs"
    using Cons.prems(1) by (simp_all add: chunk_okD)
  show ?case
  proof (cases "off > length ?d")
    case True
    have "off - length ?d + n \<le> length (chunk_bytes cs)" using Cons.prems(2) True by simp
    from Cons.IH [OF c(4) this] show ?thesis
      using True c by (simp add: segment_append_right)
  next
    case False
    show ?thesis
    proof (cases "n \<le> length ?d - off")
      case True
      with False c show ?thesis by (simp add: read_at_Some segment_append_left)
    next
      case more: False
      let ?m = "length ?d - off"
      have "0 + (n - ?m) \<le> length (chunk_bytes cs)" using Cons.prems(2) False more by simp
      then obtain ps where ps: "chunks_pieces cs (n - ?m) 0 = Some ps" "concat ps = segment 0 (n - ?m) (chunk_bytes cs)"
        using Cons.IH [OF c(4)] by blast
      have "segment off n (?d @ chunk_bytes cs) = segment off ?m ?d @ segment 0 (n - ?m) (chunk_bytes cs)"
        using False more by (simp add: segment_def)
      with ps False more c show ?thesis by (simp add: read_at_Some Let_def)
    qed
  qed
qed

lemma chunks_copyOut_loop_eq:
  "ck_data c = Some d \<Longrightarrow> ck_size c = length d \<Longrightarrow> list_all chunk_ok cs \<Longrightarrow> n \<le> length (d @ chunk_bytes cs) \<Longrightarrow>
   chunks_copyOut_loop buf k n c cs = Some (buf @ take n (d @ chunk_bytes cs), k + n)"
proof (induction cs arbitrary: buf k n c d)
  case Nil
  then show ?case by (simp add: read_at_Some segment_def)
next
  case (Cons c' cs)
  then have c': "ck_data c' = Some (ck_bytes c')" "ck_size c' = length (ck_bytes c')" "list_all chunk_ok cs"
    by (simp_all add: chunk_okD)
  show ?case
  proof (cases "n > length d")
    case True
    with Cons.IH [OF c', of "n - length d" "buf @ d" "k + length d"] Cons.prems
    show ?thesis by (simp add: read_at_Some segment_def)
  next
    case False
    with Cons.prems show ?thesis by (simp add: read_at_Some segment_def)
  qed
qed

lemma same_bytes_append:
  "length xs = length ys \<Longrightarrow> same_bytes cs (xs @ xs') (ys @ ys') \<longleftrightarrow> same_bytes cs xs ys \<and> same_bytes cs xs' ys'"
  by (simp add: same_bytes_def same_nocase_def)

lemma same_bytes_Nil [simp]: "same_bytes cs [] []"
  by (simp add: same_bytes_def same_nocase_def)

lemma chunks_compare_loop_eq:
  "list_all chunk_ok cv \<Longrightarrow> off + length buf \<le> length (chunk_bytes cv) \<Longrightarrow>
   chunks_compare_loop cv buf cs off = Some (same_bytes cs (segment off (length buf) (chunk_bytes cv)) buf)"
proof (induction cv arbitrary: buf off)
  case Nil
  then show ?case by (simp add: segment_def)
next
  case (Cons c cv)
  let ?d = "ck_bytes c"
  have c: "ck_size c = length ?d" "list_all chunk_ok cv" "length ?d \<le> 64 * KB_MULT"
    using Cons.prems(1) by (simp_all add: chunk_okD)
  show ?case
  proof (cases "off > length ?d")
    case True
    have "off - length ?d + length buf \<le> length (chunk_bytes cv)" using Cons.prems(2) True by simp
    from Cons.IH [OF c(2) this] show ?thesis
      using True c by (simp add: segment_append_right)
  next
    case off: False
    let ?n = "if length buf > length ?d - off then length ?d - off else length buf"
    have n: "?n \<le> length (drop off ?d)" "?n \<le> length buf" "?n \<le> 64 * KB_MULT" using c(3) off by auto
    obtain v where v: "memicmp2 (drop off ?d) buf ?n cs = Some v"
      "v = 0 \<longleftrightarrow> same_bytes cs (take ?n (drop off ?d)) (take ?n buf)"
      using memicmp2_zero_iff [OF n, of cs] unfolding same_bytes_def by blast
    have step: "chunks_compare_loop (c # cv) buf cs off =
        (if v \<noteq> 0 then Some False else if length buf - ?n = 0 then Some True
         else chunks_compare_loop cv (drop ?n buf) cs 0)"
      using off c v(1) by (cases "length buf > length ?d - off") (simp_all add: Let_def)
    show ?thesis
    proof (cases "length buf \<le> length ?d - off")
      case True
      then have "segment off (length buf) (?d @ chunk_bytes cv) = take ?n (drop off ?d)"
        by (simp add: segment_def)
      with True step v(2) show ?thesis by simp
    next
      case False
      have rest: "chunks_compare_loop cv (drop ?n buf) cs 0 =
          Some (same_bytes cs (segment 0 (length (drop ?n buf)) (chunk_bytes cv)) (drop ?n buf))"
        by (rule Cons.IH [OF c(2)]) (use Cons.prems(2) False off in simp)
      have "same_bytes cs (segment off (length buf) (?d @ chunk_bytes cv)) (take ?n buf @ drop ?n buf) \<longleftrightarrow>
          same_bytes cs (drop off ?d) (take ?n buf) \<and>
          same_bytes cs (take (length buf - ?n) (chunk_bytes cv)) (drop ?n buf)"
        using False off by (subst same_bytes_append [symmetric]) (simp_all add: segment_def)
      moreover have "\<not> length buf + off \<le> length ?d" using False off by simp
      ultimately show ?thesis using False step v(2) rest off
        by (simp add: segment_def del: chunks_compare_loop.simps)
    qed
  qed
qed

definition chunks_hit :: "bool \<Rightarrow> byte \<Rightarrow> byte \<Rightarrow> bool" where
  "chunks_hit caseSensitive c x \<longleftrightarrow>
     (if caseSensitive \<and> is_alpha c then x = to_upper c \<or> x = to_lower c else x = c)"

lemma find_index_append:
  "find_index P (xs @ ys) =
     (case find_index P xs of Some i \<Rightarrow> Some i | None \<Rightarrow> map_option (\<lambda>i. length xs + i) (find_index P ys))"
  by (cases "find_index P ys"; induction xs) (auto split: option.splits)

lemma memchr_cases:
  assumes "off + n \<le> length d"
  shows "(if \<not> (cs \<and> is_alpha c) then memchr_at (Some d) off c n
          else case memchr_at (Some d) off (to_upper c) n of
              None \<Rightarrow> None
            | Some u \<Rightarrow> map_option (\<lambda>l. first_of_cases u l) (memchr_at (Some d) off (to_lower c) n)) =
    Some (map_option (\<lambda>i. off + i) (find_index (chunks_hit cs c) (segment off n d)))"
proof -
  have at: "memchr_at (Some d) off x n = Some (map_option (\<lambda>i. off + i) (find_index (\<lambda>y. y = x) (segment off n d)))" for x
    using assms by (simp add: memchr_at_def)
  show ?thesis
    unfolding at chunks_hit_def
    by (cases "cs \<and> is_alpha c") (simp_all only: if_True if_False option.simps first_of_cases_find_index simp_thms)
qed

lemma chunks_findChar_loop_eq:
  "list_all chunk_ok cv \<Longrightarrow> off + sp \<le> length (chunk_bytes cv) \<Longrightarrow>
   chunks_findChar_loop cv c off sp (cs \<and> is_alpha c) k =
     Some (case find_index (chunks_hit cs c) (segment off sp (chunk_bytes cv)) of
       None \<Rightarrow> (False, 0) | Some i \<Rightarrow> (True, k + off + i))"
proof (induction cv arbitrary: off sp k)
  case Nil
  then show ?case by (simp add: segment_def)
next
  case (Cons ch cv)
  let ?d = "ck_bytes ch" and ?P = "chunks_hit cs c"
  have c: "ck_data ch = Some ?d" "ck_size ch = length ?d" "list_all chunk_ok cv"
    using Cons.prems(1) by (simp_all add: chunk_okD)
  show ?case
  proof (cases "off > length ?d")
    case True
    have "off - length ?d + sp \<le> length (chunk_bytes cv)" using Cons.prems(2) True by simp
    from Cons.IH [OF c(3) this, of "k + length ?d"] True c show ?thesis
      by (simp add: segment_append_right split: option.split)
  next
    case off: False
    let ?size = "length ?d - off"
    let ?n = "if sp > ?size then ?size else sp"
    have n: "off + ?n \<le> length ?d" using off by auto
    have step: "chunks_findChar_loop (ch # cv) c off sp (cs \<and> is_alpha c) k =
      (case find_index ?P (segment off ?n ?d) of
         Some i \<Rightarrow> Some (True, off + i + k)
       | None \<Rightarrow> if sp > ?size then chunks_findChar_loop cv c 0 (sp - ?size) (cs \<and> is_alpha c) (k + length ?d)
                else Some (False, 0))"
      using off memchr_cases [OF n, of cs c]
      by (simp only: chunks_findChar_loop.simps c Let_def if_False) (simp split: option.split)
    show ?thesis
    proof (cases "sp > ?size")
      case False
      then have "segment off sp (?d @ chunk_bytes cv) = segment off ?n ?d" using off by (simp add: segment_def)
      with False step show ?thesis by (simp add: ac_simps split: option.split)
    next
      case True
      have seg: "segment off sp (?d @ chunk_bytes cv) = segment off ?size ?d @ segment 0 (sp - ?size) (chunk_bytes cv)"
        using True off by (simp add: segment_def)
      have "0 + (sp - ?size) \<le> length (chunk_bytes cv)" using Cons.prems(2) True off by simp
      from Cons.IH [OF c(3) this, of "k + length ?d"] True step off show ?thesis
        by (simp add: seg find_index_append length_segment ac_simps split: option.split)
    qed
  qed
qed

subsection \<open>The binary search\<close>

lemma chunk_mid_eq:
  assumes "a \<le> b" "b < u64_max"
  shows "chunk_mid a b = (if a = b then a else a + (b + 1 - a) div 2 - (b - a) mod 2)"
    "a \<le> chunk_mid a b" "chunk_mid a b \<le> b"
proof -
  have s: "sub64 (add64 b 1) a = b + 1 - a" "sub64 b a = b - a"
    using assms by (simp_all add: sub64_eq add64_eq u64_max_def)
  obtain d where d: "b = a + d" using assms(1) le_Suc_ex by blast
  have m: "(d + 1) div 2 \<le> d" "d \<noteq> 0 \<Longrightarrow> d mod 2 \<le> (d + 1) div 2"
    by (cases d; simp)+
  have "a + (d + 1) div 2 < u64_mod" using m(1) assms(2) d by (simp add: u64_max_def)
  then show mid: "chunk_mid a b = (if a = b then a else a + (b + 1 - a) div 2 - (b - a) mod 2)"
    using d m unfolding chunk_mid_def s by (auto simp: sub64_eq add64_eq)
  show "a \<le> chunk_mid a b" "chunk_mid a b \<le> b"
    unfolding mid using d m by auto
qed

text \<open>
  Whatever the offsets of the chunks, the search returns: the position of a chunk that holds the
  offset, or \<^verbatim>\<open>MAX_SIZE_T\<close>.
\<close>

lemma chunk_search_returns:
  assumes "length cv \<le> u64_max"
  shows "curmin \<le> curpos \<Longrightarrow> curpos \<le> curmax \<Longrightarrow> curmax < length cv \<Longrightarrow>
    \<exists>r. I_Chunk_GetPosForOffset cv offset curpos curmax curmin = Some r \<and>
      (r = u64_max \<or> r < length cv \<and> ck_containsOffset (cv ! r) offset)"
proof (induction "curmax - curmin" arbitrary: curpos curmax curmin rule: less_induct)
  case less
  have len: "length cv \<noteq> 0" "curpos < length cv" "curpos \<noteq> u64_max" "curmax \<noteq> u64_max" "curmin \<noteq> u64_max"
    using less.prems assms by auto
  note step = I_Chunk_GetPosForOffset.simps [of cv offset curpos curmax curmin]
  consider "ck_containsOffset (cv ! curpos) offset"
    | "\<not> ck_containsOffset (cv ! curpos) offset" "offset < ck_offset (cv ! curpos)" "curpos = curmin"
    | "\<not> ck_containsOffset (cv ! curpos) offset" "offset < ck_offset (cv ! curpos)" "curpos \<noteq> curmin"
    | "\<not> ck_containsOffset (cv ! curpos) offset" "\<not> offset < ck_offset (cv ! curpos)" "curpos = curmax"
    | "\<not> ck_containsOffset (cv ! curpos) offset" "\<not> offset < ck_offset (cv ! curpos)" "curpos \<noteq> curmax"
    by blast
  then show ?case
  proof cases
    case 3
    then have a: "sub64 curpos 1 = curpos - 1" "curmin \<le> curpos - 1" "curpos - 1 < u64_max" "curpos - 1 < length cv"
      using less.prems len assms by (auto simp: sub64_eq u64_max_def)
    have "\<exists>r. I_Chunk_GetPosForOffset cv offset (chunk_mid curmin (curpos - 1)) (curpos - 1) curmin = Some r \<and>
      (r = u64_max \<or> r < length cv \<and> ck_containsOffset (cv ! r) offset)"
      by (rule less.hyps) (use 3 a chunk_mid_eq(2,3) [of curmin "curpos - 1"] less.prems in auto)
    then show ?thesis using 3 len a(1) by (subst step) simp
  next
    case 5
    then have a: "add64 curpos 1 = curpos + 1" "curpos + 1 \<le> curmax" "curmax < u64_max"
      using less.prems len assms by (auto simp: add64_eq u64_max_def)
    have "\<exists>r. I_Chunk_GetPosForOffset cv offset (chunk_mid (curpos + 1) curmax) curmax (curpos + 1) = Some r \<and>
      (r = u64_max \<or> r < length cv \<and> ck_containsOffset (cv ! r) offset)"
      by (rule less.hyps) (use 5 a chunk_mid_eq(2,3) [of "curpos + 1" curmax] less.prems in auto)
    then show ?thesis using 5 len a(1) by (subst step) simp
  qed (use len in \<open>subst step, simp\<close>)+
qed

lemma chunk_pos_start:
  assumes "cv \<noteq> []" "length cv \<le> u64_max"
  shows "\<exists>p. p < length cv \<and> chunk_pos cv offset = I_Chunk_GetPosForOffset cv offset p (length cv - 1) 0"
proof -
  define p where "p = (if length cv = 1 then 0 else length cv div 2 - 1)"
  define q where "q = length cv - 1"
  have p: "p < length cv" using assms(1) by (cases "length cv") (auto simp: p_def)
  have q: "(if length cv = 1 then 0 else length cv - 1) = q" by (simp add: q_def)
  have ne: "p \<noteq> u64_max" "q \<noteq> u64_max" "0 \<noteq> u64_max" "length cv \<noteq> 0"
    using assms p by (auto simp: q_def u64_max_def u64_mod_def)
  have "I_Chunk_GetPosForOffset cv offset u64_max u64_max u64_max = I_Chunk_GetPosForOffset cv offset p q 0"
    using I_Chunk_GetPosForOffset.simps [of cv offset u64_max u64_max u64_max]
      I_Chunk_GetPosForOffset.simps [of cv offset p q 0]
    by (simp only: p_def [symmetric] q ne if_False if_True simp_thms)
  with p show ?thesis by (auto simp: chunk_pos_def q_def)
qed

lemma chunk_pos_returns:
  assumes "length cv \<le> u64_max"
  shows "\<exists>r. chunk_pos cv offset = Some r \<and>
    (r = u64_max \<or> r < length cv \<and> ck_containsOffset (cv ! r) offset)"
proof (cases "cv = []")
  case True
  then show ?thesis by (simp add: chunk_pos_def I_Chunk_GetPosForOffset.simps)
next
  case False
  then obtain p where "p < length cv" "chunk_pos cv offset = I_Chunk_GetPosForOffset cv offset p (length cv - 1) 0"
    using chunk_pos_start assms by blast
  with chunk_search_returns [OF assms, of 0 p "length cv - 1" offset] show ?thesis by auto
qed

text \<open>Where the offsets are those of the data, the search finds the chunk of every offset.\<close>

lemma offsets_ok_nth:
  "offsets_ok off cv \<Longrightarrow> list_all chunk_ok cv \<Longrightarrow> i < length cv \<Longrightarrow>
   ck_offset (cv ! i) = off + length (chunk_bytes (take i cv))"
proof (induction cv arbitrary: off i)
  case (Cons c cv)
  then show ?case by (cases i) (auto simp: chunk_okD)
qed simp

lemma chunk_bytes_take_Suc:
  "i < length cv \<Longrightarrow> chunk_bytes (take (Suc i) cv) = chunk_bytes (take i cv) @ ck_bytes (cv ! i)"
  by (simp add: take_Suc_conv_app_nth)

lemma length_chunk_bytes_mono: "i \<le> j \<Longrightarrow> length (chunk_bytes (take i cv)) \<le> length (chunk_bytes (take j cv))"
  by (auto simp: le_iff_add take_add)

lemma chunk_contains_iff:
  assumes "offsets_ok 0 cv" "list_all chunk_ok cv" "i < length cv" "length (chunk_bytes cv) < u64_mod"
  shows "ck_containsOffset (cv ! i) x \<longleftrightarrow>
    length (chunk_bytes (take i cv)) \<le> x \<and> x < length (chunk_bytes (take (Suc i) cv))"
proof -
  have c: "chunk_ok (cv ! i)" using assms(2,3) by (simp add: list_all_length)
  have "length (chunk_bytes (take (Suc i) cv)) \<le> length (chunk_bytes (take (length cv) cv))"
    using assms(3) by (intro length_chunk_bytes_mono) simp
  then have "length (chunk_bytes (take i cv)) + length (ck_bytes (cv ! i)) < u64_mod"
    using assms(3,4) by (simp add: chunk_bytes_take_Suc del: length_concat)
  then show ?thesis
    using offsets_ok_nth [OF assms(1-3)] c assms(3)
    by (simp add: ck_containsOffset_def ck_nextOffset_def chunk_okD add64_eq chunk_bytes_take_Suc add.commute
        del: length_concat)
qed

lemma chunk_search_finds:
  assumes "length cv \<le> u64_max" "offsets_ok 0 cv" "list_all chunk_ok cv" "length (chunk_bytes cv) < u64_mod"
    and k: "k < length cv" "ck_containsOffset (cv ! k) offset"
  shows "curmin \<le> curpos \<Longrightarrow> curpos \<le> curmax \<Longrightarrow> curmax < length cv \<Longrightarrow> curmin \<le> k \<Longrightarrow> k \<le> curmax \<Longrightarrow>
    I_Chunk_GetPosForOffset cv offset curpos curmax curmin = Some k"
proof (induction "curmax - curmin" arbitrary: curpos curmax curmin rule: less_induct)
  case less
  have len: "length cv \<noteq> 0" "curpos < length cv" "curpos \<noteq> u64_max" "curmax \<noteq> u64_max" "curmin \<noteq> u64_max"
    using less.prems assms(1) by auto
  let ?start = "\<lambda>i. length (chunk_bytes (take i cv))"
  have off: "ck_offset (cv ! curpos) = ?start curpos"
    using offsets_ok_nth [OF assms(2,3) len(2)] by simp
  note cont = chunk_contains_iff [OF assms(2,3) _ assms(4)]
  have k': "?start k \<le> offset" "offset < ?start (Suc k)" using cont k by simp_all
  have mono: "i \<le> j \<Longrightarrow> ?start i \<le> ?start j" for i j by (rule length_chunk_bytes_mono)
  note step = I_Chunk_GetPosForOffset.simps [of cv offset curpos curmax curmin]
  show ?case
  proof (cases curpos k rule: linorder_cases)
    case equal
    then show ?thesis using k(2) len by (subst step) simp
  next
    case greater
    have "offset < ?start curpos" using k'(2) mono [of "Suc k" curpos] greater by simp
    then have "\<not> ck_containsOffset (cv ! curpos) offset" "offset < ck_offset (cv ! curpos)" "curpos \<noteq> curmin"
      using cont len(2) off greater less.prems(4) by auto
    moreover have a: "sub64 curpos 1 = curpos - 1" "curmin \<le> curpos - 1" "curpos - 1 < u64_max" "curpos - 1 < length cv"
      using less.prems len assms(1) greater by (auto simp: sub64_eq u64_max_def)
    moreover have "I_Chunk_GetPosForOffset cv offset (chunk_mid curmin (curpos - 1)) (curpos - 1) curmin = Some k"
      by (rule less.hyps) (use greater a chunk_mid_eq(2,3) [of curmin "curpos - 1"] less.prems in auto)
    ultimately show ?thesis using len a(1) by (subst step) simp
  next
    case less': less
    have "?start (Suc curpos) \<le> offset" using k'(1) mono [of "Suc curpos" k] less' by simp
    moreover have "?start curpos \<le> ?start (Suc curpos)" by (rule mono) simp
    ultimately have "\<not> ck_containsOffset (cv ! curpos) offset" "\<not> offset < ck_offset (cv ! curpos)" "curpos \<noteq> curmax"
      using cont len(2) off less' less.prems(5) by auto
    moreover have a: "add64 curpos 1 = curpos + 1" "curpos + 1 \<le> curmax" "curmax < u64_max"
      using less.prems len assms(1) less' by (auto simp: add64_eq u64_max_def)
    moreover have "I_Chunk_GetPosForOffset cv offset (chunk_mid (curpos + 1) curmax) curmax (curpos + 1) = Some k"
      by (rule less.hyps) (use less' a chunk_mid_eq(2,3) [of "curpos + 1" curmax] less.prems in auto)
    ultimately show ?thesis using len a(1) by (subst step) simp
  qed
qed

text \<open>The chunk that holds an offset of the data.\<close>

lemma chunk_at:
  "list_all chunk_ok cv \<Longrightarrow> x < length (chunk_bytes cv) \<Longrightarrow>
   \<exists>k < length cv. length (chunk_bytes (take k cv)) \<le> x \<and> x < length (chunk_bytes (take (Suc k) cv))"
proof (induction cv arbitrary: x)
  case (Cons c cv)
  show ?case
  proof (cases "x < length (ck_bytes c)")
    case True
    then show ?thesis by (intro exI [of _ 0]) simp
  next
    case False
    then have "x - length (ck_bytes c) < length (chunk_bytes cv)" "list_all chunk_ok cv"
      using Cons.prems by simp_all
    then obtain k where "k < length cv" "length (chunk_bytes (take k cv)) \<le> x - length (ck_bytes c)"
      "x - length (ck_bytes c) < length (chunk_bytes (take (Suc k) cv))"
      using Cons.IH by blast
    with False show ?thesis by (intro exI [of _ "Suc k"]) auto
  qed
qed simp

lemma length_le_chunk_bytes: "list_all chunk_ok cv \<Longrightarrow> length cv \<le> length (chunk_bytes cv)"
proof (induction cv)
  case (Cons c cv)
  then have "1 \<le> length (ck_bytes c)" by (cases "ck_bytes c") (simp_all add: chunk_ok_def)
  moreover have "length cv \<le> length (chunk_bytes cv)" using Cons by simp
  ultimately show ?case by (simp del: length_concat)
qed simp

lemma chunk_pos_finds:
  assumes "offsets_ok 0 cv" "list_all chunk_ok cv" "length (chunk_bytes cv) < u64_mod" "x < length (chunk_bytes cv)"
  obtains k where "k < length cv" "chunk_pos cv x = Some k" "k \<noteq> u64_max" "chunk_ok (cv ! k)"
    "ck_offset (cv ! k) = length (chunk_bytes (take k cv))"
    "length (chunk_bytes (take k cv)) \<le> x" "x < length (chunk_bytes (take k cv)) + length (ck_bytes (cv ! k))"
proof -
  obtain k where k: "k < length cv" "length (chunk_bytes (take k cv)) \<le> x" "x < length (chunk_bytes (take (Suc k) cv))"
    using chunk_at [OF assms(2,4)] by blast
  have len: "length cv \<le> u64_max" using length_le_chunk_bytes [OF assms(2)] assms(3) by (simp add: u64_max_def)
  have c: "ck_containsOffset (cv ! k) x" using k chunk_contains_iff [OF assms(1,2) k(1) assms(3)] by simp
  have "cv \<noteq> []" using k(1) by auto
  then obtain p where "p < length cv" "chunk_pos cv x = I_Chunk_GetPosForOffset cv x p (length cv - 1) 0"
    using chunk_pos_start len by blast
  then have "chunk_pos cv x = Some k"
    using chunk_search_finds [OF len assms(1-3) k(1) c, of 0 p "length cv - 1"] k(1) by auto
  moreover have "chunk_ok (cv ! k)" using assms(2) k(1) by (simp add: list_all_length)
  ultimately show thesis
    using k len offsets_ok_nth [OF assms(1,2) k(1)]
    by (intro that [of k]) (simp_all add: chunk_bytes_take_Suc)
qed

subsection \<open>Reading through the inherited operations\<close>

lemma chunks_virtuals_simps [simp]:
  "v_size (chunks_virtuals os) = chunks_size" "v_truncate2 (chunks_virtuals os) = chunks_truncate2 os"
  "v_clear2 (chunks_virtuals os) = chunks_clear2 os" "v_displace2 (chunks_virtuals os) = chunks_displace2 os"
  "v_append2 (chunks_virtuals os) = chunks_append2 os" "v_copyOut2 (chunks_virtuals os) = chunks_copyOut2 os"
  "v_compare2 (chunks_virtuals os) = chunks_compare2 os" "v_findChar (chunks_virtuals os) = chunks_findChar"
  by (simp_all add: chunks_virtuals_def chunks_virtuals_with_def)

lemma chunks_okD:
  assumes "chunks_ok s"
  shows "mmapContainer s = None" "list_all chunk_ok (chunksVector s)" "length (chunks_content s) < u64_mod"
    "chunks_size s = length (chunks_content s)" "chunk_bytes (chunksVector s) = chunks_content s"
    "containerBytes s = length (chunks_content s)" "maxContainerSizeUntilGoingToFS s = 0"
  using assms by (simp_all add: chunks_ok_def chunks_size_def chunks_content_def)

interpretation chunks_r: container_read "chunks_virtuals os" chunks_content chunks_ok
  by unfold_locales (simp_all add: chunks_okD)

interpretation chunks_send: container_send "chunks_virtuals os" chunks_content chunks_ok "chunks_copyTo2 os"
proof unfold_locales
  fix s n off
  assume s: "chunks_ok s" and n: "off + n \<le> length (chunks_content s)"
  show "\<exists>cs. concat cs = segment off n (chunks_content s) \<and> (\<forall>w out upd. chunks_copyTo2 os w s out upd n off =
      map_option (\<lambda>(o', u, m). (o', u, True, m)) (copyToSOUsingCleanVector w out cs upd))"
  proof (cases "n = 0")
    case True
    with s show ?thesis
      by (intro exI [of _ "[]"]) (simp add: chunks_copyTo2_def chunks_okD copyToSOUsingCleanVector_def)
  next
    case False
    obtain ps where "chunks_pieces (chunksVector s) n off = Some ps" "concat ps = segment off n (chunks_content s)"
      using chunks_pieces_eq [of "chunksVector s" off n] s n by (auto simp: chunks_okD)
    moreover have "off + n < u64_mod" using n chunks_okD(3) [OF s] by simp
    ultimately show ?thesis using False s n
      by (intro exI [of _ ps]) (simp add: chunks_copyTo2_def chunks_okD no_overflow_sum add64_eq)
  qed
qed

interpretation chunks_search: container_search "chunks_virtuals os" chunks_content chunks_ok chunks_hit False
proof unfold_locales
  fix s off sp c cs
  assume s: "chunks_ok s" and n: "off + sp \<le> length (chunks_content s)"
  then have "off + sp < u64_mod" using chunks_okD(3) [OF s] by simp
  then have o: "\<not> overflow_sum off sp" "add64 off sp = off + sp" by (simp_all add: no_overflow_sum add64_eq)
  show "v_findChar (chunks_virtuals os) s c off sp cs =
      Some (case find_index (chunks_hit cs c)
              (segment off (if sp = 0 \<and> False then length (chunks_content s) - off else sp) (chunks_content s)) of
        None \<Rightarrow> (False, 0) | Some i \<Rightarrow> (True, off + i))"
    using s n o chunks_findChar_loop_eq [of "chunksVector s" off sp c cs 0]
    by (simp add: chunks_findChar_def chunks_okD split: option.split)
next
  fix s off cs and buf :: "byte list"
  assume a: "chunks_ok s" "buf \<noteq> []" "length buf \<le> 64 * KB_MULT" "off < u64_mod"
  have l: "length buf < u64_mod" using a(3) by (simp add: KB_MULT_def u64_mod_def)
  show "v_compare2 (chunks_virtuals os) s buf cs off = Some (off + length buf \<le> length (chunks_content s) \<and>
      same_bytes cs (segment off (length buf) (chunks_content s)) buf)"
  proof (cases "off + length buf \<le> length (chunks_content s)")
    case True
    moreover have "off + length buf < u64_mod" using True chunks_okD(3) [OF a(1)] by simp
    ultimately show ?thesis
      using a chunks_compare_loop_eq [of "chunksVector s" off buf cs]
      by (simp add: chunks_compare2_def chunks_okD no_overflow_sum add64_eq)
  next
    case False
    then show ?thesis
      using a no_overflow_sumD [of off "length buf"] l
      by (cases "overflow_sum off (length buf)")
         (simp_all add: chunks_compare2_def chunks_okD add64_eq)
  qed
qed

lemma chunks_indexedD: "chunks_indexed s \<Longrightarrow> chunks_ok s" "chunks_indexed s \<Longrightarrow> offsets_ok 0 (chunksVector s)"
  by (simp_all add: chunks_indexed_def)

interpretation chunks_c: container_copy "chunks_virtuals os" chunks_content chunks_indexed
proof unfold_locales
  fix s n off
  assume i: "chunks_indexed s"
  then have s: "chunks_ok s" by (rule chunks_indexedD)
  show "v_size (chunks_virtuals os) s = length (chunks_content s)" "length (chunks_content s) < u64_mod"
    using s by (simp_all add: chunks_okD)
  assume n: "0 < n" "off + n \<le> length (chunks_content s)"
  let ?cv = "chunksVector s"
  note bytes = chunks_okD(5) [OF s]
  have range: "off < length (chunk_bytes ?cv)" "length (chunk_bytes ?cv) < u64_mod" "off + n < u64_mod"
    using n chunks_okD(3) [OF s] unfolding bytes by simp_all
  obtain k where k: "k < length ?cv" "chunk_pos ?cv off = Some k" "k \<noteq> u64_max" "chunk_ok (?cv ! k)"
    "ck_offset (?cv ! k) = length (chunk_bytes (take k ?cv))"
    "length (chunk_bytes (take k ?cv)) \<le> off" "off < length (chunk_bytes (take k ?cv)) + length (ck_bytes (?cv ! k))"
    by (rule chunk_pos_finds [OF chunks_indexedD(2) [OF i] chunks_okD(2) [OF s] range(2,1)])
  let ?c = "?cv ! k" and ?start = "length (chunk_bytes (take k ?cv))"
  have split: "chunks_content s = chunk_bytes (take k ?cv) @ ck_bytes ?c @ chunk_bytes (drop (Suc k) ?cv)"
    unfolding bytes [symmetric] by (subst id_take_nth_drop [OF k(1)]) simp
  have off: "off < u64_mod" using n chunks_okD(3) [OF s] by simp
  let ?m = "ck_moveToOffset ?c off"
  have m: "ck_data ?m = Some (drop (off - ?start) (ck_bytes ?c))" "ck_size ?m = length (drop (off - ?start) (ck_bytes ?c))"
    using k off chunk_okD(5) [OF k(4)]
    by (simp_all add: ck_moveToOffset_def chunk_okD sub64_eq Let_def KB_MULT_def u64_mod_def)
  have rest: "list_all chunk_ok (drop (Suc k) ?cv)"
    using chunks_okD(2) [OF s] by (auto simp: list_all_iff dest: in_set_dropD)
  have seg: "segment off n (chunks_content s) =
      take n (drop (off - ?start) (ck_bytes ?c) @ chunk_bytes (drop (Suc k) ?cv))"
    unfolding split using k(6,7) by (simp add: segment_def)
  have "n \<le> length (drop (off - ?start) (ck_bytes ?c) @ chunk_bytes (drop (Suc k) ?cv))"
    using n(2) k(6,7) unfolding split by simp
  from chunks_copyOut_loop_eq [OF m rest this, of "[]" 0] seg
  show "v_copyOut2 (chunks_virtuals os) s n off = Some (segment off n (chunks_content s), True, n)"
    using s n k(2,3) range(3)
    by (simp add: chunks_copyOut2_def chunks_okD no_overflow_sum add64_eq)
qed

subsection \<open>Shrinking\<close>

lemma recalc_loop_fields [simp]:
  "ck_data (recalc_loop k off c) = ck_data c" "ck_size (recalc_loop k off c) = ck_size c"
  "ck_rodata (recalc_loop k off c) = ck_rodata c" "ck_bytes (recalc_loop k off c) = ck_bytes c"
  by (induction k arbitrary: off c) (simp_all add: Let_def ck_bytes_def)

lemma recalcChunkOffsets_bytes [simp]:
  "chunk_bytes (recalcChunkOffsets cv) = chunk_bytes cv"
  "list_all chunk_ok (recalcChunkOffsets cv) \<longleftrightarrow> list_all chunk_ok cv"
  "length (recalcChunkOffsets cv) = length cv"
  by (cases cv; simp add: recalcChunkOffsets_def chunk_ok_def del: recalc_loop.simps)+

lemma chunk_ok_displace:
  assumes "chunk_ok c" "0 < n" "n < ck_size c"
  shows "chunk_ok (ck_displace c n)" "ck_bytes (ck_displace c n) = drop n (ck_bytes c)"
proof -
  obtain d where "ck_data c = Some d" using assms(1) by (auto simp: chunk_ok_def)
  moreover have "segment n (length xs - n) xs = drop n xs" for xs :: "byte list" by (simp add: segment_def)
  ultimately show "ck_bytes (ck_displace c n) = drop n (ck_bytes c)" "chunk_ok (ck_displace c n)"
    using assms by (auto simp: ck_displace_def chunk_ok_def ck_destroy_def ck_bytes_def)
qed

lemma chunks_displace_loop_eq:
  "list_all chunk_ok cv \<Longrightarrow> n \<le> length (chunk_bytes cv) \<Longrightarrow> length (chunk_bytes cv) \<le> cb \<Longrightarrow> cb < u64_mod \<Longrightarrow> d + n < u64_mod \<Longrightarrow>
   \<exists>cv'. chunks_displace_loop cv n cb d = (cv', cb - n, d + n) \<and> list_all chunk_ok cv' \<and>
     chunk_bytes cv' = drop n (chunk_bytes cv)"
proof (induction cv arbitrary: n cb d)
  case Nil
  then show ?case by simp
next
  case (Cons c cv)
  let ?d = "ck_bytes c"
  have c: "chunk_ok c" "ck_size c = length ?d" "list_all chunk_ok cv" using Cons.prems(1) by (simp_all add: chunk_okD)
  consider "n = 0" | "0 < n" "n < length ?d" | "0 < n" "length ?d \<le> n" by linarith
  then show ?case
  proof cases
    case 2
    with c Cons.prems chunk_ok_displace [OF c(1), of n] show ?thesis
      by (simp add: sub64_eq add64_eq)
  next
    case 3
    have "\<exists>cv'. chunks_displace_loop cv (n - length ?d) (cb - length ?d) (d + length ?d) =
        (cv', cb - length ?d - (n - length ?d), d + length ?d + (n - length ?d)) \<and> list_all chunk_ok cv' \<and>
        chunk_bytes cv' = drop (n - length ?d) (chunk_bytes cv)"
      by (rule Cons.IH) (use Cons.prems c 3 in auto)
    with 3 c Cons.prems show ?thesis by (simp add: sub64_eq add64_eq)
  qed (use Cons.prems in simp)
qed

lemma chunks_displace2_eq:
  assumes "chunks_ok s" "n \<le> length (chunks_content s)"
  obtains cv where "chunks_displace2 os s n =
      Some (s\<lparr>chunksVector := recalcChunkOffsets cv, containerBytes := length (chunks_content s) - n\<rparr>, True, n)"
    "list_all chunk_ok cv" "chunk_bytes cv = drop n (chunks_content s)"
    "fst (chunks_displace_loop (chunksVector s) n (containerBytes s) 0) = cv"
proof -
  have n: "0 + n < u64_mod" using assms(2) chunks_okD(3) [OF assms(1)] by simp
  have "length (chunk_bytes (chunksVector s)) \<le> containerBytes s" "containerBytes s < u64_mod"
    "n \<le> length (chunk_bytes (chunksVector s))"
    using assms(2) by (simp_all add: chunks_okD [OF assms(1)] del: length_concat)
  from chunks_displace_loop_eq [OF chunks_okD(2) [OF assms(1)] this(3,1,2) n]
  obtain cv where "chunks_displace_loop (chunksVector s) n (containerBytes s) 0 = (cv, containerBytes s - n, 0 + n)"
    "list_all chunk_ok cv" "chunk_bytes cv = drop n (chunk_bytes (chunksVector s))" by blast
  then show thesis using assms(1) that [of cv]
    by (simp add: chunks_displace2_def chunks_okD setContainerBytes_def)
qed

interpretation chunks_d: container_displace "chunks_virtuals os" chunks_content chunks_ok
proof unfold_locales
  fix s n
  assume s: "chunks_ok s" "n \<le> length (chunks_content s)"
  obtain cv where "chunks_displace2 os s n =
      Some (s\<lparr>chunksVector := recalcChunkOffsets cv, containerBytes := length (chunks_content s) - n\<rparr>, True, n)"
    "list_all chunk_ok cv" "chunk_bytes cv = drop n (chunks_content s)"
    using chunks_displace2_eq [OF s] .
  with s show "\<exists>s'. v_displace2 (chunks_virtuals os) s n = Some (s', True, n) \<and> chunks_ok s' \<and>
      chunks_content s' = drop n (chunks_content s)"
    using chunks_okD(3) [OF s(1)] by (auto simp: chunks_ok_def chunks_content_def)
qed

lemma chunk_ok_truncate:
  assumes "chunk_ok c" "ck_offset c < n" "n < ck_offset c + ck_size c" "ck_offset c + ck_size c < u64_mod"
  shows "chunk_ok (ck_truncate c n)" "ck_bytes (ck_truncate c n) = take (n - ck_offset c) (ck_bytes c)"
    "ck_offset (ck_truncate c n) = ck_offset c"
  using assms by (auto simp: ck_truncate_def chunk_ok_def ck_destroy_def ck_bytes_def add64_eq sub64_eq)

lemma offsets_ok_append:
  "list_all chunk_ok xs \<Longrightarrow>
   offsets_ok off (xs @ ys) \<longleftrightarrow> offsets_ok off xs \<and> offsets_ok (off + length (chunk_bytes xs)) ys"
  by (induction xs arbitrary: off) (auto simp: chunk_okD add.assoc)

lemma offsets_ok_take: "offsets_ok off cv \<Longrightarrow> offsets_ok off (take k cv)"
  by (induction cv arbitrary: off k) (auto simp: take_Cons split: nat.split)

interpretation chunks_t: container_truncate "chunks_virtuals os" chunks_content chunks_indexed
proof unfold_locales
  fix s n
  assume i: "chunks_indexed s"
  then have s: "chunks_ok s" by (rule chunks_indexedD)
  assume n: "n < length (chunks_content s)"
  let ?cv = "chunksVector s"
  note bytes = chunks_okD(5) [OF s]
  have range: "n < length (chunk_bytes ?cv)" "length (chunk_bytes ?cv) < u64_mod"
    using n chunks_okD(3) [OF s] unfolding bytes by simp_all
  obtain k where k: "k < length ?cv" "chunk_pos ?cv n = Some k" "k \<noteq> u64_max" "chunk_ok (?cv ! k)"
    "ck_offset (?cv ! k) = length (chunk_bytes (take k ?cv))"
    "length (chunk_bytes (take k ?cv)) \<le> n" "n < length (chunk_bytes (take k ?cv)) + length (ck_bytes (?cv ! k))"
    by (rule chunk_pos_finds [OF chunks_indexedD(2) [OF i] chunks_okD(2) [OF s] range(2,1)])
  let ?c = "?cv ! k" and ?start = "length (chunk_bytes (take k ?cv))"
  have split: "chunks_content s = chunk_bytes (take k ?cv) @ ck_bytes ?c @ chunk_bytes (drop (Suc k) ?cv)"
    unfolding bytes [symmetric] by (subst id_take_nth_drop [OF k(1)]) simp
  have tk: "list_all chunk_ok (take k ?cv)" "offsets_ok 0 (take k ?cv)"
    using chunks_okD(2) [OF s] offsets_ok_take [OF chunks_indexedD(2) [OF i]]
    by (auto simp: list_all_iff dest: in_set_takeD)
  have ki: "k < u64_mod" "k + 1 < u64_mod" using k(1,3) length_le_chunk_bytes [OF chunks_okD(2) [OF s]] range(2)
    by (auto simp: u64_max_def)
  define cv' where "cv' = (if ck_offset ?c = n then take k ?cv else take k ?cv @ [ck_truncate ?c n])"
  have total: "?start + length (ck_bytes ?c) < u64_mod" using range(2) unfolding bytes split by simp
  have call: "chunks_truncate2 os s n = Some (s\<lparr>chunksVector := cv', containerBytes := n\<rparr>, True, n)"
  proof (cases "ck_offset ?c = n")
    case True
    have "add64 (sub64 k 1) 1 = k"
    proof (cases "k = 0")
      case True
      then show ?thesis by (simp add: add64_def sub64_def u64_mod_def)
    next
      case False
      then show ?thesis using ki by (simp add: sub64_eq add64_eq)
    qed
    then show ?thesis using True k s
      by (simp add: chunks_truncate2_def chunks_okD cv'_def setContainerBytes_def chunks_size_def)
  next
    case False
    have "take (add64 k 1) (?cv[k := ck_truncate ?c n]) = take k ?cv @ [ck_truncate ?c n]"
      using k(1) ki by (simp add: add64_eq take_Suc_conv_app_nth)
    then show ?thesis using False k s
      by (simp add: chunks_truncate2_def chunks_okD cv'_def setContainerBytes_def chunks_size_def)
  qed
  have cv': "list_all chunk_ok cv'" "offsets_ok 0 cv'" "chunk_bytes cv' = take n (chunks_content s)"
    using tk k chunk_ok_truncate [OF k(4), of n] total
    unfolding split cv'_def by (auto simp: chunk_okD offsets_ok_append)
  show "\<exists>s' ok. v_truncate2 (chunks_virtuals os) s n = Some (s', ok, n) \<and> chunks_indexed s' \<and>
      chunks_content s' = take n (chunks_content s)"
    using call cv' s n range(2) unfolding bytes
    by (auto simp: chunks_indexed_def chunks_ok_def chunks_content_def)
qed

subsection \<open>Growing\<close>

text \<open>What an operation that grows the container keeps of its configuration.\<close>

definition chunks_same_config :: "b_chunks \<Rightarrow> b_chunks \<Rightarrow> bool" where
  "chunks_same_config s s' \<longleftrightarrow> maxChunks s' = maxChunks s \<and> maxChunkSize s' = maxChunkSize s \<and>
     maxSize s' = maxSize s \<and> readOnly s' = readOnly s"

lemma last_nextOffset:
  assumes "offsets_ok 0 cv" "list_all chunk_ok cv" "cv \<noteq> []" "length (chunk_bytes cv) < u64_mod"
  shows "ck_nextOffset (last cv) = length (chunk_bytes cv)"
proof -
  obtain xs c where cv: "cv = xs @ [c]" using assms(3) by (metis append_butlast_last_id)
  have "ck_offset c = length (chunk_bytes xs)" "chunk_ok c"
    using assms(1,2) unfolding cv by (simp_all add: offsets_ok_append del: length_concat)
  with assms(4) show ?thesis
    unfolding cv by (simp add: ck_nextOffset_def chunk_okD add64_eq add.commute del: length_concat)
qed

lemma chunk_ok_copy: "xs \<noteq> [] \<Longrightarrow> length xs \<le> 64 * KB_MULT \<Longrightarrow>
    chunk_ok (ck_copy ck_new xs) \<and> ck_bytes (ck_copy ck_new xs) = xs"
  by (simp add: chunk_ok_def ck_copy_def ck_new_def ck_destroy_def ck_bytes_def)

lemma chunk_ok_offset [simp]:
  "chunk_ok (c\<lparr>ck_offset := x\<rparr>) \<longleftrightarrow> chunk_ok c" "ck_bytes (c\<lparr>ck_offset := x\<rparr>) = ck_bytes c"
  by (simp_all add: chunk_ok_def ck_bytes_def)

text \<open>One round of the loop stores one more chunk.\<close>

lemma chunks_push:
  assumes s: "chunks_ok s" and xs: "xs \<noteq> []" "length xs \<le> maxChunkSize s" "length (chunks_content s) + length xs < u64_mod"
  defines "bcc \<equiv> ck_copy ck_new xs"
  shows "chunks_ok (setContainerBytes (s\<lparr>chunksVector := chunksVector s @ [bcc\<lparr>ck_offset := x\<rparr>]\<rparr>)
           (add64 (chunks_size s) (ck_size bcc)))"
    "chunks_ok (setContainerBytes (s\<lparr>chunksVector := bcc # chunksVector s\<rparr>) (add64 (chunks_size s) (ck_size bcc)))"
    "ck_size bcc = length xs" "ck_bytes bcc = xs"
proof -
  have "length xs \<le> 64 * KB_MULT" using s xs(2) by (simp add: chunks_ok_def)
  then have b: "chunk_ok bcc" "ck_bytes bcc = xs" "ck_size bcc = length xs"
    using chunk_ok_copy [OF xs(1)] by (simp_all add: bcc_def chunk_okD)
  from b show "ck_size bcc = length xs" "ck_bytes bcc = xs" by simp_all
  have sz: "add64 (chunks_size s) (ck_size bcc) = length (chunks_content s) + length xs"
    using b xs(3) s by (simp add: chunks_okD add64_eq)
  show "chunks_ok (setContainerBytes (s\<lparr>chunksVector := chunksVector s @ [bcc\<lparr>ck_offset := x\<rparr>]\<rparr>)
           (add64 (chunks_size s) (ck_size bcc)))"
    "chunks_ok (setContainerBytes (s\<lparr>chunksVector := bcc # chunksVector s\<rparr>) (add64 (chunks_size s) (ck_size bcc)))"
    unfolding sz using s b xs(3)
    by (simp_all add: chunks_ok_def chunks_content_def setContainerBytes_def add.commute del: length_concat)
qed

lemma chunks_append_loop_eq:
  "chunks_ok s \<Longrightarrow> length (chunks_content s) + length buf < u64_mod \<Longrightarrow> k + length buf < u64_mod \<Longrightarrow>
   \<exists>s' ok n. chunks_append_loop False s buf k = (s', ok, k + n) \<and> chunks_ok s' \<and> chunks_same_config s s' \<and>
     n \<le> length buf \<and> chunks_content s' = chunks_content s @ take n buf \<and> (ok \<longrightarrow> n = length buf) \<and>
     (offsets_ok 0 (chunksVector s) \<longrightarrow> offsets_ok 0 (chunksVector s')) \<and>
     length (chunksVector s') \<le> length (chunksVector s) + n \<and>
     (length (chunksVector s) + length buf \<le> maxChunks s \<longrightarrow> ok)"
proof (induction "length buf" arbitrary: s buf k rule: less_induct)
  case less
  note step = chunks_append_loop.simps [of False s buf k]
  show ?case
  proof (cases "buf = [] \<or> length (chunksVector s) + 1 > maxChunks s")
    case True
    then have "chunks_append_loop False s buf k = (s, buf = [], k)" by (subst step) auto
    moreover have "length (chunksVector s) + length buf \<le> maxChunks s \<Longrightarrow> buf = []"
      using True by (cases buf) auto
    ultimately show ?thesis using less.prems
      by (intro exI [of _ s] exI [of _ "buf = []"] exI [of _ 0]) (auto simp: chunks_same_config_def)
  next
    case False
    let ?n = "if length buf < maxChunkSize s then length buf else maxChunkSize s"
    let ?xs = "take ?n buf" and ?cv = "chunksVector s"
    let ?x = "if ?cv = [] then 0 else ck_nextOffset (last ?cv)"
    let ?bcc = "ck_copy ck_new ?xs"
    let ?s = "setContainerBytes (s\<lparr>chunksVector := ?cv @ [?bcc\<lparr>ck_offset := ?x\<rparr>]\<rparr>) (add64 (chunks_size s) (ck_size ?bcc))"
    have "0 < maxChunkSize s" using less.prems(1) by (simp add: chunks_ok_def)
    then have n: "0 < ?n" "?n \<le> length buf" "length ?xs = ?n" "?n \<le> maxChunkSize s" using False by auto
    have xs: "?xs \<noteq> []" "length ?xs \<le> maxChunkSize s" "length (chunks_content s) + length ?xs < u64_mod"
      using n less.prems(2) by auto
    note push = chunks_push [OF less.prems(1) xs]
    have cont: "chunks_content ?s = chunks_content s @ ?xs"
      using push(4) by (simp add: chunks_content_def setContainerBytes_def)
    have len: "length (drop ?n buf) = length buf - ?n" by simp
    have IH: "\<exists>s' ok m. chunks_append_loop False ?s (drop ?n buf) (k + ?n) = (s', ok, (k + ?n) + m) \<and>
      chunks_ok s' \<and> chunks_same_config ?s s' \<and> m \<le> length (drop ?n buf) \<and>
      chunks_content s' = chunks_content ?s @ take m (drop ?n buf) \<and> (ok \<longrightarrow> m = length (drop ?n buf)) \<and>
      (offsets_ok 0 (chunksVector ?s) \<longrightarrow> offsets_ok 0 (chunksVector s')) \<and>
      length (chunksVector s') \<le> length (chunksVector ?s) + m \<and>
      (length (chunksVector ?s) + length (drop ?n buf) \<le> maxChunks ?s \<longrightarrow> ok)"
      by (rule less.hyps) (use n push(1) cont less.prems len in \<open>simp_all del: length_drop\<close>)
    then obtain s' ok m where r: "chunks_append_loop False ?s (drop ?n buf) (k + ?n) = (s', ok, k + ?n + m)"
      "chunks_ok s'" "chunks_same_config ?s s'" "m \<le> length buf - ?n"
      "chunks_content s' = chunks_content ?s @ take m (drop ?n buf)" "ok \<longrightarrow> m = length buf - ?n"
      "offsets_ok 0 (chunksVector ?s) \<longrightarrow> offsets_ok 0 (chunksVector s')"
      "length (chunksVector s') \<le> length (chunksVector ?s) + m"
      "length (chunksVector ?s) + (length buf - ?n) \<le> maxChunks ?s \<longrightarrow> ok"
      unfolding len by blast
    have vec: "chunksVector ?s = ?cv @ [?bcc\<lparr>ck_offset := ?x\<rparr>]" "maxChunks ?s = maxChunks s"
      "chunks_same_config s ?s" by (simp_all add: setContainerBytes_def chunks_same_config_def)
    have bound: "length (chunk_bytes ?cv) < u64_mod"
      using chunks_okD(3,5) [OF less.prems(1)] by simp
    have "offsets_ok 0 (chunksVector ?s)" if that: "offsets_ok 0 ?cv"
    proof -
      have "?x = length (chunk_bytes ?cv)"
        using last_nextOffset [OF that chunks_okD(2) [OF less.prems(1)] _ bound] by simp
      then show ?thesis
        using that chunks_okD(2) [OF less.prems(1)] unfolding vec by (simp add: offsets_ok_append)
    qed
    moreover have "chunks_append_loop False s buf k = (s', ok, k + (?n + m))"
    proof -
      have a: "add64 k (ck_size ?bcc) = k + ?n" using push(3) n less.prems(3) by (simp add: add64_eq)
      have f: "buf \<noteq> []" "\<not> length ?cv + 1 > maxChunks s" using False by auto
      show ?thesis
        using r(1) unfolding step Let_def a by (simp only: f if_False simp_thms if_True add.assoc)
    qed
    moreover have "chunks_content s' = chunks_content s @ take (?n + m) buf"
      using r(5) cont by (simp add: take_add)
    moreover have "chunks_same_config s s'"
      using r(3) vec(3) by (simp add: chunks_same_config_def)
    moreover have "length (chunksVector s') \<le> length ?cv + (?n + m)"
      using r(8) n(1) unfolding vec by simp
    moreover have "length ?cv + length buf \<le> maxChunks s \<longrightarrow> ok"
      using r(9) n(1,2) unfolding vec by auto
    moreover have "?n + m \<le> length buf" "ok \<longrightarrow> ?n + m = length buf" using r(4,6) n(2) by auto
    ultimately show ?thesis using r(2,7) by blast
  qed
qed

lemma chunks_append2_memory:
  assumes "chunks_ok s" "length (chunks_content s) + length buf < u64_mod"
  shows "chunks_append2 os s buf p = Some (chunks_append_loop p s buf 0)"
proof -
  have "\<not> overflow_sum (length buf) (chunks_size s)"
    using assms by (simp add: chunks_okD(4) no_overflow_sum add.commute)
  with assms(1) show ?thesis by (simp add: chunks_append2_def chunks_okD(1,7))
qed

lemma chunks_failedWriteState [simp]:
  "chunksVector (failedWriteState_update f s) = chunksVector s" "maxChunks (failedWriteState_update f s) = maxChunks s"
  "maxChunkSize (failedWriteState_update f s) = maxChunkSize s" "mmapContainer (failedWriteState_update f s) = mmapContainer s"
  "maxContainerSizeUntilGoingToFS (failedWriteState_update f s) = maxContainerSizeUntilGoingToFS s"
  by (cases s; simp)+

interpretation chunks_a: container_append "chunks_virtuals os" chunks_content chunks_ok
proof unfold_locales
  fix s and data :: "byte list"
  assume s: "chunks_ok s" and d: "data \<noteq> []" "length (chunks_content s) + length data < u64_mod"
  have "0 + length data < u64_mod" using d(2) by simp
  from chunks_append_loop_eq [OF s d(2) this] chunks_append2_memory [OF s d(2), of os False]
  show "\<exists>s' ok n. v_append2 (chunks_virtuals os) s data False = Some (s', ok, n) \<and> chunks_ok s' \<and> n \<le> length data \<and>
      chunks_content s' = chunks_content s @ take n data \<and> (ok \<longrightarrow> n = length data)"
    by auto
next
  fix s x
  show "chunks_content (s\<lparr>failedWriteState := x\<rparr>) = chunks_content s" by (simp add: chunks_content_def)
  assume "chunks_ok s"
  then show "chunks_ok (s\<lparr>failedWriteState := x\<rparr>)" by (simp add: chunks_ok_def chunks_content_def)
qed

interpretation chunks_ai: container_append "chunks_virtuals os" chunks_content chunks_indexed
proof unfold_locales
  fix s and data :: "byte list"
  assume i: "chunks_indexed s" and d: "data \<noteq> []" "length (chunks_content s) + length data < u64_mod"
  note s = chunks_indexedD(1) [OF i]
  have "0 + length data < u64_mod" using d(2) by simp
  from chunks_append_loop_eq [OF s d(2) this] chunks_append2_memory [OF s d(2), of os False] i
  show "\<exists>s' ok n. v_append2 (chunks_virtuals os) s data False = Some (s', ok, n) \<and> chunks_indexed s' \<and> n \<le> length data \<and>
      chunks_content s' = chunks_content s @ take n data \<and> (ok \<longrightarrow> n = length data)"
    unfolding chunks_indexed_def by auto
next
  fix s x
  show "chunks_content (s\<lparr>failedWriteState := x\<rparr>) = chunks_content s" by (simp add: chunks_content_def)
  assume "chunks_indexed s"
  then show "chunks_indexed (s\<lparr>failedWriteState := x\<rparr>)"
    by (simp add: chunks_indexed_def chunks_ok_def chunks_content_def)
qed

text \<open>A write fits as long as the limits on the size and on the number of chunks are not reached
  (a chunk holds at least one byte).\<close>

definition chunks_room :: "b_chunks \<Rightarrow> nat" where
  "chunks_room s = (if readOnly s then 0
     else min (maxSize s - length (chunks_content s)) (maxChunks s - length (chunksVector s)))"

lemma chunks_append_fits:
  assumes s: "chunks_ok s" and fits: "length data \<le> chunks_room s" "data \<noteq> []"
  shows "\<exists>s'. base_append (chunks_virtuals os) s data = Some (s', True, length data) \<and> chunks_ok s' \<and>
    chunks_content s' = chunks_content s @ data \<and> chunks_room s \<le> chunks_room s' + length data \<and>
    (offsets_ok 0 (chunksVector s) \<longrightarrow> offsets_ok 0 (chunksVector s')) \<and> chunks_same_config s s'"
proof -
  have ro: "\<not> readOnly s" using fits by (auto simp: chunks_room_def)
  then have lim: "length (chunks_content s) + length data \<le> maxSize s" "length (chunksVector s) + length data \<le> maxChunks s"
    using fits by (auto simp: chunks_room_def) (cases data; auto)+
  have max: "maxSize s < u64_mod" using s by (simp add: chunks_ok_def)
  have d: "length (chunks_content s) + length data < u64_mod" "0 + length data < u64_mod" using lim max by auto
  obtain s' ok n where r: "chunks_append_loop False s data 0 = (s', ok, n)" "chunks_ok s'" "chunks_same_config s s'"
    "chunks_content s' = chunks_content s @ take n data" "ok \<longrightarrow> n = length data"
    "offsets_ok 0 (chunksVector s) \<longrightarrow> offsets_ok 0 (chunksVector s')"
    "length (chunksVector s') \<le> length (chunksVector s) + n"
    "length (chunksVector s) + length data \<le> maxChunks s \<longrightarrow> ok"
    using chunks_append_loop_eq [OF s d] by auto
  have n: "ok" "n = length data" using r(5,8) lim by auto
  have "base_append (chunks_virtuals os) s data = v_append2 (chunks_virtuals os) s data False"
    using ro lim max d fits(2) chunks_okD(4) [OF s]
    by (simp add: base_append_def Let_def no_overflow_sum add64_eq add.commute)
  also have "\<dots> = Some (s', True, length data)"
    using chunks_append2_memory [OF s d(1), of os False] r(1) n by simp
  finally show ?thesis
    using r n ro by (auto simp: chunks_room_def chunks_same_config_def)
qed

interpretation chunks_sink: reliable_sink "base_write (chunks_virtuals os)" chunks_content chunks_ok chunks_room
proof unfold_locales
  fix obj and buf :: "byte list" and upd obj' ret upd'
  assume o: "chunks_ok obj" "buf \<noteq> []" "length buf < u64_mod" "length buf \<le> chunks_room obj"
    and w: "base_write (chunks_virtuals os) obj buf upd = Some (obj', ret, upd')"
  from chunks_append_fits [OF o(1,4,2), of os] w o(3)
  show "succeed ret \<and> \<not> finish ret \<and> chunks_room obj \<le> chunks_room obj' + bytesWritten ret"
    by (auto simp: base_write_def)
qed

subsection \<open>Prepending and the lost index\<close>

lemma recalc_loop_offset:
  "k * ck_size c + off < u64_mod \<Longrightarrow> ck_offset (recalc_loop (Suc k) off c) = k * ck_size c + off"
proof (induction k arbitrary: off c)
  case (Suc k)
  have "ck_nextOffset (c\<lparr>ck_offset := off\<rparr>) = ck_size c + off"
    using Suc.prems by (simp add: ck_nextOffset_def add64_eq)
  with Suc.IH [of "c\<lparr>ck_offset := off\<rparr>" "ck_size c + off"] Suc.prems
  show ?case by (simp add: Let_def add.assoc add.left_commute)
qed (simp add: Let_def)

lemma chunk_pos_none:
  assumes "length cv \<le> u64_max" "\<forall>c\<in>set cv. \<not> ck_containsOffset c x"
  shows "chunk_pos cv x = Some u64_max"
  using chunk_pos_returns [OF assms(1), of x] assms(2) by (auto simp: Ball_def in_set_conv_nth)

lemma set_tlD: "x \<in> set (tl xs) \<Longrightarrow> x \<in> set xs"
  by (cases xs) auto

lemma displace_loop_tl:
  "x \<in> set (tl (fst (chunks_displace_loop cv n cb d))) \<Longrightarrow> x \<in> set (tl cv)"
  by (induction cv n cb d rule: chunks_displace_loop.induct) (auto dest: set_tlD split: if_splits)

lemma offsets_ok_tl_pos:
  assumes "offsets_ok 0 cv" "list_all chunk_ok cv" "c \<in> set (tl cv)"
  shows "0 < ck_offset c"
proof -
  obtain i where i: "i < length (tl cv)" "c = tl cv ! i" using assms(3) by (auto simp: in_set_conv_nth)
  then have j: "Suc i < length cv" "c = cv ! Suc i" by (simp_all add: nth_tl)
  have "list_all chunk_ok (take (Suc i) cv)" using assms(2) by (auto simp: list_all_iff dest: in_set_takeD)
  then have "length (take (Suc i) cv) \<le> length (chunk_bytes (take (Suc i) cv))" by (rule length_le_chunk_bytes)
  moreover have "length (take (Suc i) cv) = Suc i" using j(1) by simp
  ultimately have "0 < length (chunk_bytes (take (Suc i) cv))" by linarith
  then show ?thesis using offsets_ok_nth [OF assms(1,2) j(1)] j by (simp del: length_concat)
qed

lemma displace_offsets:
  assumes "chunks_indexed s" "length (chunksVector s) \<le> 2 ^ 32"
    "list_all chunk_ok cv" "cv = fst (chunks_displace_loop (chunksVector s) n (containerBytes s) 0)"
    "length cv \<le> length (chunksVector s)" "2 \<le> length cv" "c \<in> set (recalcChunkOffsets cv)"
  shows "0 < ck_offset c"
proof -
  obtain i cs where cv: "cv = i # cs" "cs \<noteq> []" using assms(6) by (cases cv; cases "tl cv") auto
  show ?thesis
  proof (cases "c \<in> set cs")
    case True
    then have "c \<in> set (tl (chunksVector s))"
      using displace_loop_tl [of c "chunksVector s" n "containerBytes s" 0]
      unfolding assms(4) [symmetric] cv(1) by simp
    then show ?thesis
      using offsets_ok_tl_pos chunks_indexedD [OF assms(1)] chunks_okD(2) by blast
  next
    case False
    then have c: "c = recalc_loop (Suc (length cs)) 0 i"
      using assms(7) cv by (auto simp: recalcChunkOffsets_def simp del: recalc_loop.simps)
    have i: "chunk_ok i" using assms(3) cv by simp
    have "length cs * ck_size i \<le> 2 ^ 32 * (64 * KB_MULT)"
      using i assms(2,5) cv by (intro mult_le_mono) (simp_all add: chunk_okD)
    also have "\<dots> < u64_mod" by (simp add: KB_MULT_def u64_mod_def)
    finally have "ck_offset c = length cs * ck_size i"
      using recalc_loop_offset [of "length cs" i 0] c by simp
    moreover have "0 < ck_size i" using i by (simp add: chunk_okD)
    ultimately show ?thesis using cv(2) by simp
  qed
qed

lemma length_displace_loop: "length (fst (chunks_displace_loop cv n cb d)) \<le> length cv"
  by (induction cv n cb d rule: chunks_displace_loop.induct) auto

text \<open>A container none of whose chunks holds the offset 0 reads as empty.\<close>

lemma toString_unindexed:
  assumes s: "chunks_ok s" "chunks_content s \<noteq> []" and c: "\<forall>c\<in>set (chunksVector s). 0 < ck_offset c"
  shows "base_toString (chunks_virtuals os) s u64_max 0 = Some []"
proof -
  let ?len = "length (chunks_content s)"
  have b: "?len < u64_mod" "0 < ?len" using s chunks_okD(3) [OF s(1)] by auto
  have "length (chunksVector s) \<le> u64_max"
    using length_le_chunk_bytes [OF chunks_okD(2) [OF s(1)]] b(1) unfolding chunks_okD(5) [OF s(1)]
    by (simp add: u64_max_def)
  moreover have "\<forall>c\<in>set (chunksVector s). \<not> ck_containsOffset c 0" using c by (auto simp: ck_containsOffset_def)
  ultimately have pos: "chunk_pos (chunksVector s) 0 = Some u64_max" by (rule chunk_pos_none)
  let ?n = "if ?len > 8192 then 8192 else ?len"
  have n: "0 < ?n" "?n \<le> ?len" "?n \<noteq> u64_max \<or> ?len = u64_max" using b(2) by (auto simp: u64_max_def u64_mod_def)
  have cp: "chunks_copyOut2 os s n 0 = Some ([], False, 0)" if "0 < n" "n \<le> ?len" for n
    using that pos s(1) b(1) by (simp add: chunks_copyOut2_def chunks_okD(1,4) no_overflow_sum add64_eq)
  have "base_copyOut (chunks_virtuals os) s ?n 0 = Some ([], False, 0)"
    using n cp b(1) chunks_okD(4) [OF s(1)] by (auto simp: base_copyOut_def Let_def no_overflow_sum add64_eq u64_max_def)
  then have "copy_blocks_loop (chunks_virtuals os) s [] ?len 0 = Some ([], False)"
    using b(2) by (subst copy_blocks_loop.simps) (simp add: Let_def)
  then show ?thesis
    using b chunks_okD(4) [OF s(1)] by (simp add: base_toString_def Let_def no_overflow_sum add64_eq)
qed

subsection \<open>Moving data up to a needle\<close>

text \<open>A limit larger than the container is refused by \<^verbatim>\<open>findChar\<close>: nothing is ever found.\<close>

lemma chunks_find_space_too_large:
  assumes "chunks_ok s" "needle \<noteq> []" "length (chunks_content s) < sp" "sp < u64_mod" "length needle \<le> sp"
  shows "base_find (chunks_virtuals os) s needle cs 0 sp = Some (False, 0)"
proof -
  have o: "\<not> overflow_sum 0 sp" "add64 0 sp = sp" "\<not> overflow_sum 0 (length needle)"
    using assms(4,5) by (simp_all add: no_overflow_sum add64_eq)
  have f: "chunks_findChar s c 0 sp b = Some (False, u64_max)" for c b
    using assms(1,3) o by (simp add: chunks_findChar_def chunks_okD(1,4))
  have "sp \<noteq> 0" using assms(3) by simp
  then show ?thesis
    using assms(1-3,5) o f
    by (simp add: base_find_def chunks_okD(4) Let_def find_loop.simps [of "chunks_virtuals os" s needle])
qed

lemma chunks_find_exact:
  assumes "chunks_ok s" "needle \<noteq> []" "length needle \<le> 64 * KB_MULT" "length needle \<le> sp" "sp \<le> length (chunks_content s)"
  obtains (found) p where "base_find (chunks_virtuals os) s needle False 0 sp = Some (True, p)" "p < sp"
      "matches_at False needle (chunks_content s) p" "chunks_content s ! p = hd needle"
      "\<And>q. q < p \<Longrightarrow> \<not> (matches_at False needle (chunks_content s) q \<and> chunks_content s ! q = hd needle)"
  | (none) n where "base_find (chunks_virtuals os) s needle False 0 sp = Some (False, n)"
      "\<And>q. q < sp \<Longrightarrow> \<not> (matches_at False needle (chunks_content s) q \<and> chunks_content s ! q = hd needle)"
proof -
  have occ: "chunks_search.occurs_at s needle False p \<longleftrightarrow>
      matches_at False needle (chunks_content s) p \<and> chunks_content s ! p = hd needle" for p
    by (auto simp: chunks_search.occurs_at_def matches_at_def chunks_hit_def)
  have sp: "sp \<noteq> 0" using assms(2,4) by (cases needle) auto
  obtain r where r: "base_find (chunks_virtuals os) s needle False 0 sp = Some r"
    "fst r \<longrightarrow> 0 \<le> snd r \<and> snd r < (if sp = 0 then length (chunks_content s) else 0 + sp) \<and>
       chunks_search.occurs_at s needle False (snd r) \<and>
       (\<forall>q. 0 \<le> q \<longrightarrow> q < snd r \<longrightarrow> \<not> chunks_search.occurs_at s needle False q)"
    "\<not> fst r \<longrightarrow> (\<forall>q. 0 \<le> q \<longrightarrow> q < (if sp = 0 then length (chunks_content s) else 0 + sp) \<longrightarrow>
       \<not> chunks_search.occurs_at s needle False q)"
    using chunks_search.find_spec [of s needle 0 sp os False] assms by auto
  show thesis
  proof (cases "fst r")
    case True
    with r sp show ?thesis unfolding occ by (intro found [of "snd r"]) (auto simp: prod_eq_iff)
  next
    case False
    with r sp show ?thesis unfolding occ by (intro none [of "snd r"]) (auto simp: prod_eq_iff)
  qed
qed

lemma chunks_copyUntil_found:
  assumes s: "chunks_ok s" and d: "chunks_ok d" "length (chunks_content s) \<le> chunks_room d"
    and f: "base_find (chunks_virtuals os) s needle False 0 sp = Some (True, p)" "p < sp"
      "p + length needle \<le> length (chunks_content s)"
  shows "\<exists>d'. base_copyUntil (chunks_copyTo2 os) (chunks_virtuals os) (base_write (chunks_virtuals os)) s d needle sp True =
    Some (d', 0) \<and> chunks_ok d' \<and> chunks_content d' = chunks_content d @ take p (chunks_content s)"
proof -
  have b: "p + length needle < u64_mod" "p < u64_mod" "0 + p < u64_mod \<or> p = u64_max" "0 \<le> length (chunks_content s)"
    using f(3) chunks_okD(3) [OF s] by simp_all
  obtain d' upd' where a: "base_appendTo_upd (chunks_copyTo2 os) (chunks_virtuals os) (base_write (chunks_virtuals os)) s d
      Status_new p 0 = Some (d', upd', True, length (segment 0 p (chunks_content s)))" "chunks_ok d'"
    "chunks_content d' = chunks_content d @ segment 0 p (chunks_content s)"
    using chunks_send.appendTo_reliable [OF chunks_sink.reliable_sink_axioms [of os] s b(4) d b(2,3), where upd = Status_new and os = os] by blast
  then have "base_appendTo (chunks_copyTo2 os) (chunks_virtuals os) (base_write (chunks_virtuals os)) s d p 0 =
      Some (d', True, length (segment 0 p (chunks_content s)))"
    by (simp add: base_appendTo_def)
  with a f b show ?thesis
    by (simp add: base_copyUntil_def no_overflow_sum segment_def)
qed

lemma chunks_displaceUntil_found:
  assumes "chunks_ok s" "chunks_ok d" "length (chunks_content s) \<le> chunks_room d"
    "base_find (chunks_virtuals os) s needle False 0 sp = Some (True, p)" "p < sp"
    "p + length needle \<le> length (chunks_content s)"
    "length (chunks_content d) + length (chunks_content s) < u64_mod"
  shows "\<exists>s' d'. base_displaceUntil (chunks_copyTo2 os) (chunks_virtuals os) (base_write (chunks_virtuals os)) chunks_size
      s d needle sp True = Some (s', d', 0) \<and>
    chunks_ok s' \<and> chunks_ok d' \<and> chunks_content d' = chunks_content d @ take p (chunks_content s) \<and>
    chunks_content s' = drop (length (chunks_content d) + p + length needle) (chunks_content s)"
proof -
  obtain d' where d': "base_copyUntil (chunks_copyTo2 os) (chunks_virtuals os) (base_write (chunks_virtuals os)) s d needle sp True =
      Some (d', 0)" "chunks_ok d'" "chunks_content d' = chunks_content d @ take p (chunks_content s)"
    using chunks_copyUntil_found [OF assms(1-6)] by blast
  have len: "add64 (chunks_size d') (length needle) = length (chunks_content d) + p + length needle"
    using d'(2,3) assms(6,7) by (simp add: chunks_okD(4) add64_eq)
  obtain s' where "base_displace (chunks_virtuals os) s (length (chunks_content d) + p + length needle) =
      Some (s', True, min (length (chunks_content d) + p + length needle) (length (chunks_content s)))" "chunks_ok s'"
    "chunks_content s' = drop (length (chunks_content d) + p + length needle) (chunks_content s)"
    using chunks_d.displace_content [OF assms(1)] by blast
  with d' len show ?thesis by (simp add: base_displaceUntil_def)
qed

definition two_chunks :: b_chunks where
  "two_chunks = chunks_new\<lparr>chunksVector := [ck_copy ck_new [1], (ck_copy ck_new [2])\<lparr>ck_offset := 1\<rparr>], containerBytes := 2\<rparr>"

lemma two_chunks_indexed: "chunks_indexed two_chunks" "chunks_content two_chunks = [1, 2]"
proof -
  have c: "chunk_ok (ck_copy ck_new [1]) \<and> ck_bytes (ck_copy ck_new [1]) = [1]"
    "chunk_ok (ck_copy ck_new [2]) \<and> ck_bytes (ck_copy ck_new [2]) = [2]"
    by (rule chunk_ok_copy; simp add: KB_MULT_def)+
  then show "chunks_content two_chunks = [1, 2]" by (simp add: two_chunks_def chunks_content_def)
  with c show "chunks_indexed two_chunks"
    by (simp add: chunks_indexed_def chunks_ok_def two_chunks_def chunks_new_def b_base.extend_def B_Base_new_def
        KB_MULT_def u64_max_def u64_mod_def chunk_okD) (simp add: ck_copy_def ck_new_def ck_destroy_def)
qed

lemma chunk_bytes_take_le: "length (chunk_bytes (take i cv)) \<le> length (chunk_bytes cv)"
proof -
  have "chunk_bytes cv = chunk_bytes (take i cv) @ chunk_bytes (drop i cv)"
    by (metis append_take_drop_id concat_append map_append)
  then show ?thesis by (metis le_add1 length_append)
qed

lemma chunk_byte_at:
  assumes "k < length cv" "length (chunk_bytes (take k cv)) \<le> x"
    "x < length (chunk_bytes (take k cv)) + length (ck_bytes (cv ! k))"
  shows "chunk_bytes cv ! x = ck_bytes (cv ! k) ! (x - length (chunk_bytes (take k cv)))"
proof -
  have at: "zs ! x = bs ! (x - length as)" if "zs = as @ bs @ cs" "length as \<le> x" "x < length as + length bs"
    for zs as bs cs :: "byte list"
    using that by (auto simp: nth_append)
  have "chunk_bytes cv = chunk_bytes (take k cv) @ ck_bytes (cv ! k) @ chunk_bytes (drop (Suc k) cv)"
    using arg_cong [OF id_take_nth_drop [OF assms(1)], of chunk_bytes] by (simp only: map_append concat_append list.map concat.simps)
  from at [OF this assms(2,3)] show ?thesis .
qed

subsection \<open>Properties\<close>

text \<open>C2: The binary search for the chunk of an offset always returns, whatever the chunks: with the
  position of a chunk that holds the offset, or with \<^verbatim>\<open>MAX_SIZE_T\<close>. When the chunks are well
  formed and not empty and the offsets stored in them are the running sums of their sizes, it is exact: it finds
  every offset below the size of the content, in the chunk that holds the byte of that offset, and answers
  \<^verbatim>\<open>MAX_SIZE_T\<close> for every other offset.\<close>

theorem chunk_search_terminates:
  assumes "length cv \<le> u64_max"
  shows "\<exists>r. chunk_pos cv x = Some r \<and> (r = u64_max \<or> r < length cv \<and> ck_containsOffset (cv ! r) x) \<and>
    (offsets_ok 0 cv \<and> list_all chunk_ok cv \<and> length (chunk_bytes cv) < u64_mod \<longrightarrow>
      (if x < length (chunk_bytes cv)
       then r < length cv \<and> ck_offset (cv ! r) \<le> x \<and> x - ck_offset (cv ! r) < length (ck_bytes (cv ! r)) \<and>
         ck_bytes (cv ! r) ! (x - ck_offset (cv ! r)) = chunk_bytes cv ! x
       else r = u64_max))"
proof (cases "offsets_ok 0 cv \<and> list_all chunk_ok cv \<and> length (chunk_bytes cv) < u64_mod")
  case ok: True
  show ?thesis
  proof (cases "x < length (chunk_bytes cv)")
    case True
    obtain k where k: "k < length cv" "chunk_pos cv x = Some k" "ck_offset (cv ! k) = length (chunk_bytes (take k cv))"
      "length (chunk_bytes (take k cv)) \<le> x" "x < length (chunk_bytes (take k cv)) + length (ck_bytes (cv ! k))"
      using chunk_pos_finds [of cv x] ok True by blast
    moreover have "ck_containsOffset (cv ! k) x"
      using chunk_contains_iff [of cv k x] ok k by (simp add: chunk_bytes_take_Suc)
    moreover have "chunk_bytes cv ! x = ck_bytes (cv ! k) ! (x - length (chunk_bytes (take k cv)))"
      using chunk_byte_at [OF k(1,4,5)] .
    ultimately show ?thesis using ok True by auto
  next
    case False
    have "\<not> ck_containsOffset (cv ! i) x" if "i < length cv" for i
      using chunk_contains_iff [of cv i x] chunk_bytes_take_le [of "Suc i" cv] ok that False by auto
    then have "\<forall>c\<in>set cv. \<not> ck_containsOffset c x" by (auto simp: in_set_conv_nth)
    then show ?thesis using chunk_pos_none [OF assms] ok False by auto
  qed
qed (use chunk_pos_returns [OF assms, of x] in auto)

theorem chunk_search_terminates_witness:
  "\<exists>r. chunk_pos (chunksVector two_chunks) 1 = Some r \<and> r < 2 \<and>
    ck_bytes (chunksVector two_chunks ! r) ! (1 - ck_offset (chunksVector two_chunks ! r)) = 2"
proof -
  have v: "offsets_ok 0 (chunksVector two_chunks)" "list_all chunk_ok (chunksVector two_chunks)"
      "chunk_bytes (chunksVector two_chunks) = [1, 2]" "length (chunksVector two_chunks) = 2"
    using two_chunks_indexed chunks_okD(2) [OF chunks_indexedD(1) [OF two_chunks_indexed(1)]]
    by (simp_all add: chunks_indexed_def chunks_content_def two_chunks_def)
  have "length (chunksVector two_chunks) \<le> u64_max" by (simp add: v(4) u64_max_def u64_mod_def)
  from chunk_search_terminates [OF this, of 1] show ?thesis
    using v by (auto simp: u64_mod_def)
qed

text \<open>C3: A chunk container whose index is in order behaves as the list of its bytes: data that fits
  is appended at the end and read back there, a truncation to n bytes keeps the first n, and the
  index stays in order.\<close>

theorem chunks_refine_byte_list:
  assumes "chunks_indexed s" "data \<noteq> []" "length data \<le> chunks_room s"
  shows "\<exists>s1 s2 ok. base_append (chunks_virtuals os) s data = Some (s1, True, length data) \<and> chunks_indexed s1 \<and>
    base_toString (chunks_virtuals os) s1 u64_max 0 = Some (chunks_content s @ data) \<and>
    base_truncate (chunks_virtuals os) s1 n = Some (s2, ok, min n (length (chunks_content s @ data))) \<and> chunks_indexed s2 \<and>
    base_toString (chunks_virtuals os) s2 u64_max 0 = Some (take n (chunks_content s @ data))"
proof -
  obtain s1 where s1: "base_append (chunks_virtuals os) s data = Some (s1, True, length data)" "chunks_indexed s1"
    "chunks_content s1 = chunks_content s @ data"
    using chunks_append_fits [OF chunks_indexedD(1) [OF assms(1)] assms(3,2), of os] assms(1)
    unfolding chunks_indexed_def by blast
  obtain s2 ok where s2: "base_truncate (chunks_virtuals os) s1 n = Some (s2, ok, min n (length (chunks_content s1)))"
    "chunks_indexed s2" "chunks_content s2 = take n (chunks_content s1)"
    using chunks_t.truncate_content [OF s1(2)] by blast
  have "base_toString (chunks_virtuals os) s1 u64_max 0 = Some (chunks_content s @ data)"
    "base_toString (chunks_virtuals os) s2 u64_max 0 = Some (take n (chunks_content s @ data))"
    using chunks_c.toString_all [OF s1(2), of os] chunks_c.toString_all [OF s2(2), of os] s1(3) s2(3) by simp_all
  with s1 s2 show ?thesis by auto
qed

lemma chunks_new_indexed: "chunks_indexed chunks_new" "chunks_content chunks_new = []" "chunks_room chunks_new = 256 * KB_MULT"
  by (simp_all add: chunks_indexed_def chunks_ok_def chunks_content_def chunks_new_def chunks_room_def b_base.extend_def
      B_Base_new_def KB_MULT_def u64_max_def u64_mod_def)

theorem chunks_refine_byte_list_witness:
  "\<exists>s1 s2 ok. base_append (chunks_virtuals (os_fine [])) chunks_new [1, 2, 3] = Some (s1, True, length [1, 2, 3 :: byte]) \<and>
    chunks_indexed s1 \<and> base_toString (chunks_virtuals (os_fine [])) s1 u64_max 0 = Some ([] @ [1, 2, 3]) \<and>
    base_truncate (chunks_virtuals (os_fine [])) s1 2 = Some (s2, ok, min 2 (length ([] @ [1, 2, 3 :: byte]))) \<and> chunks_indexed s2 \<and>
    base_toString (chunks_virtuals (os_fine [])) s2 u64_max 0 = Some (take 2 ([] @ [1, 2, 3]))"
  by (rule chunks_refine_byte_list [of chunks_new "[1, 2, 3]" "os_fine []" 2, unfolded chunks_new_indexed(2)])
     (simp_all add: chunks_new_indexed KB_MULT_def)

text \<open>After a displacement that leaves two chunks or more, by any number of bytes, the container
  still has the remaining bytes but reads as empty: \<^verbatim>\<open>recalcChunkOffsets\<close> rewrites the offset of
  the first chunk only, so no chunk is at the offset 0 any more.\<close>

theorem chunks_displace_loses_index:
  assumes "chunks_indexed s" "length (chunksVector s) \<le> 2 ^ 32" "n \<le> length (chunks_content s)"
    "base_displace (chunks_virtuals os) s n = Some (s', r)" "2 \<le> length (chunksVector s')"
  shows "chunks_content s' = drop n (chunks_content s) \<and> chunks_content s' \<noteq> [] \<and>
    base_toString (chunks_virtuals os) s' u64_max 0 = Some []"
proof -
  note s = chunks_indexedD(1) [OF assms(1)]
  obtain cv where cv: "chunks_displace2 os s n =
      Some (s\<lparr>chunksVector := recalcChunkOffsets cv, containerBytes := length (chunks_content s) - n\<rparr>, True, n)"
    "list_all chunk_ok cv" "chunk_bytes cv = drop n (chunks_content s)"
    "fst (chunks_displace_loop (chunksVector s) n (containerBytes s) 0) = cv"
    using chunks_displace2_eq [OF s assms(3)] .
  have s': "s' = s\<lparr>chunksVector := recalcChunkOffsets cv, containerBytes := length (chunks_content s) - n\<rparr>"
    using assms(3,4) cv(1) s by (simp add: base_displace_def Let_def chunks_okD(4))
  have cont: "chunks_content s' = drop n (chunks_content s)"
    using cv(3) by (simp add: s' chunks_content_def)
  have len: "2 \<le> length cv" "length cv \<le> length (chunksVector s)"
    using assms(5) cv(4) length_displace_loop by (auto simp: s')
  have ok: "chunks_ok s'"
    using chunks_d.displace_content [OF s, of os n] assms(4) by auto
  have "length cv \<le> length (chunk_bytes cv)" by (rule length_le_chunk_bytes [OF cv(2)])
  then have "chunks_content s' \<noteq> []" using len(1) cont cv(3) by auto
  moreover have "\<forall>c\<in>set (chunksVector s'). 0 < ck_offset c"
    using displace_offsets [OF assms(1,2) cv(2) cv(4) [symmetric] len(2,1)] by (simp add: s')
  ultimately show ?thesis using cont toString_unindexed [OF ok] by blast
qed

theorem chunks_displace_loses_index_witness:
  "\<exists>s' r. base_displace (chunks_virtuals (os_fine [])) two_chunks 0 = Some (s', r) \<and>
    chunks_content s' = drop 0 [1, 2] \<and> chunks_content s' \<noteq> [] \<and>
    base_toString (chunks_virtuals (os_fine [])) s' u64_max 0 = Some []"
proof -
  obtain s' r where d: "base_displace (chunks_virtuals (os_fine [])) two_chunks 0 = Some (s', r)"
    "length (chunksVector s') = 2"
    by (simp add: base_displace_def chunks_displace2_def two_chunks_def chunks_new_def b_base.extend_def
        setContainerBytes_def recalcChunkOffsets_def del: recalc_loop.simps)
  have "length (chunksVector two_chunks) \<le> 2 ^ 32" by (simp add: two_chunks_def)
  moreover have "2 \<le> length (chunksVector s')" using d(2) by simp
  ultimately show ?thesis
    using chunks_displace_loses_index [OF two_chunks_indexed(1) _ _ d(1), unfolded two_chunks_indexed(2)] d(1) by blast
qed

text \<open>Moving the data up to a needle into an empty container moves exactly the bytes before the
  needle, removes them and the needle from the source, and keeps the rest, when the limit is
  at most the size of the source and the needle occurs within it.\<close>

theorem chunks_displaceUntil_moves_prefix:
  assumes "chunks_ok s" "chunks_ok d" "chunks_content d = []" "length (chunks_content s) \<le> chunks_room d"
    "needle \<noteq> []" "length needle \<le> 64 * KB_MULT" "length needle \<le> sp" "sp \<le> length (chunks_content s)"
    "p < sp" "matches_at False needle (chunks_content s) p" "chunks_content s ! p = hd needle"
    "\<forall>q < p. \<not> (matches_at False needle (chunks_content s) q \<and> chunks_content s ! q = hd needle)"
  shows "\<exists>s' d'. base_displaceUntil (chunks_copyTo2 os) (chunks_virtuals os) (base_write (chunks_virtuals os)) chunks_size
      s d needle sp True = Some (s', d', 0) \<and> chunks_ok s' \<and> chunks_ok d' \<and>
    chunks_content d' = take p (chunks_content s) \<and> chunks_content s' = drop (p + length needle) (chunks_content s)"
proof -
  have f: "base_find (chunks_virtuals os) s needle False 0 sp = Some (True, p)"
  proof (rule chunks_find_exact [OF assms(1,5,6,7,8), where os = os])
    fix p' assume p': "base_find (chunks_virtuals os) s needle False 0 sp = Some (True, p')"
      "matches_at False needle (chunks_content s) p'" "chunks_content s ! p' = hd needle"
      "\<And>q. q < p' \<Longrightarrow> \<not> (matches_at False needle (chunks_content s) q \<and> chunks_content s ! q = hd needle)"
    then have "p' = p" using assms(10-12) by (metis linorder_neqE_nat)
    with p' show ?thesis by simp
  next
    fix n assume "\<And>q. q < sp \<Longrightarrow> \<not> (matches_at False needle (chunks_content s) q \<and> chunks_content s ! q = hd needle)"
    with assms(9-11) show ?thesis by blast
  qed
  have "p + length needle \<le> length (chunks_content s)" using assms(10) by (simp add: matches_at_def)
  moreover have "length (chunks_content d) + length (chunks_content s) < u64_mod"
    using chunks_okD(3) [OF assms(1)] assms(3) by simp
  ultimately show ?thesis
    using chunks_displaceUntil_found [OF assms(1,2,4) f assms(9)] assms(3) by simp
qed

theorem chunks_displaceUntil_moves_prefix_witness:
  "\<exists>s' d'. base_displaceUntil (chunks_copyTo2 (os_fine [])) (chunks_virtuals (os_fine [])) (base_write (chunks_virtuals (os_fine []))) chunks_size
      two_chunks chunks_new [2] 2 True = Some (s', d', 0) \<and> chunks_ok s' \<and> chunks_ok d' \<and>
    chunks_content d' = take 1 [1, 2] \<and> chunks_content s' = drop (1 + length [2 :: byte]) [1, 2]"
proof -
  have "chunks_ok two_chunks" "chunks_ok chunks_new"
    using two_chunks_indexed chunks_new_indexed by (auto intro: chunks_indexedD)
  from chunks_displaceUntil_moves_prefix [OF this chunks_new_indexed(2), of "[2]" 2 1 "os_fine []"]
  show ?thesis
    by (simp add: two_chunks_indexed chunks_new_indexed KB_MULT_def matches_at_def same_bytes_def same_nocase_def segment_def)
qed

text \<open>A limit larger than the source makes the move fail with -1 and change nothing, even when the
  needle is there: the search refuses a search space that ends after the container.\<close>

theorem chunks_displaceUntil_refuses_large_limit:
  assumes "chunks_ok s" "needle \<noteq> []" "length (chunks_content s) < sp" "sp < u64_mod" "length needle \<le> sp"
  shows "base_displaceUntil cp (chunks_virtuals os) w dsize s d needle sp removeNeedle = Some (s, d, -1)"
  using chunks_find_space_too_large [OF assms, of os False] by (simp add: base_displaceUntil_def base_copyUntil_def)

theorem chunks_displaceUntil_refuses_large_limit_witness:
  "base_displaceUntil (chunks_copyTo2 (os_fine [])) (chunks_virtuals (os_fine [])) (base_write (chunks_virtuals (os_fine []))) chunks_size
     two_chunks chunks_new [2] 4096 True = Some (two_chunks, chunks_new, -1)"
  by (rule chunks_displaceUntil_refuses_large_limit)
     (simp_all add: two_chunks_indexed chunks_indexedD u64_mod_def)

end
