(* ===== verification/Container_Ref.thy ===== *)
theory Container_Ref
  imports Container_Chunks_Facts
begin

text \<open>
  \<^verbatim>\<open>Memory/mdz_mem_vars/b_ref.{h,cpp}\<close>: a container that shows a range of another one. The
  pointer to the other container is its value at the time of the call; the operations of the
  other container are its record of virtual functions \<^verbatim>\<open>V\<close>.
\<close>

subsection \<open>Definitions\<close>

record 'a b_ref = b_base +
  referencedBC :: "'a b_base_scheme option"
  referencedOffset :: nat
  referencedMaxBytes :: nat

definition ref_clear2 :: "'a b_ref \<Rightarrow> ('a b_ref \<times> bool) option" where
  "ref_clear2 s = Some ((if referencedBC s \<noteq> None then s\<lparr>referencedBC := None\<rparr> else s), True)"

definition ref_reference :: "'a b_base_scheme b_virtuals \<Rightarrow> 'a b_ref \<Rightarrow> 'a b_base_scheme \<Rightarrow> nat \<Rightarrow> nat \<Rightarrow> 'a b_ref \<times> bool" where
  "ref_reference V s bc offset maxBytes =
     (if offset > v_size V bc then (s, False)
      else (s\<lparr>readOnly := True, referencedBC := Some bc, referencedOffset := offset, referencedMaxBytes := maxBytes\<rparr>, True))"

definition ref_construct :: "'a b_base_scheme b_virtuals \<Rightarrow> 'a b_base_scheme option \<Rightarrow> nat \<Rightarrow> nat \<Rightarrow> 'a b_ref" where
  "ref_construct V bc offset maxBytes =
     (let s = b_base.extend (B_Base_new\<lparr>storeMethod := BC_METHOD_BCREF\<rparr>)
                \<lparr>referencedBC = None, referencedOffset = 0, referencedMaxBytes = 0\<rparr>
      in case bc of None \<Rightarrow> s | Some b \<Rightarrow> fst (ref_reference V s b offset maxBytes))"

definition ref_size :: "'a b_base_scheme b_virtuals \<Rightarrow> 'a b_ref \<Rightarrow> nat" where
  "ref_size V s =
     (case referencedBC s of
        None \<Rightarrow> 0
      | Some bc \<Rightarrow>
          let availableBytes = sub64 (v_size V bc) (referencedOffset s) in
          if referencedMaxBytes s = u64_max \<or> referencedMaxBytes s > availableBytes then availableBytes
          else referencedMaxBytes s)"

text \<open>The position found is returned as the other container counts it.\<close>

definition ref_findChar :: "'a b_base_scheme b_virtuals \<Rightarrow> 'a b_ref \<Rightarrow> byte \<Rightarrow> nat \<Rightarrow> nat \<Rightarrow> bool \<Rightarrow> result option" where
  "ref_findChar V s c offset searchSpace caseSensitive =
     (case referencedBC s of
        None \<Rightarrow> Some (False, u64_max)
      | Some bc \<Rightarrow> v_findChar V bc c (add64 (referencedOffset s) offset) searchSpace (caseSensitive \<and> is_alpha c))"

definition ref_truncate2 :: "'a b_ref \<Rightarrow> nat \<Rightarrow> ('a b_ref \<times> result) option" where
  "ref_truncate2 s bytes = Some (s\<lparr>referencedMaxBytes := bytes\<rparr>, True, bytes)"

definition ref_append2 :: "'a b_base_scheme b_virtuals \<Rightarrow> 'a b_ref \<Rightarrow> byte list \<Rightarrow> bool \<Rightarrow> ('a b_ref \<times> result) option" where
  "ref_append2 V s buf prependMode =
     (case referencedBC s of
        None \<Rightarrow> Some (s, False, 0)
      | Some bc \<Rightarrow> map_option (\<lambda>(bc', r). (s\<lparr>referencedBC := Some bc'\<rparr>, r))
          (if prependMode then base_prepend V bc buf else base_append V bc buf))"

definition ref_displace2 :: "'a b_base_scheme b_virtuals \<Rightarrow> 'a b_ref \<Rightarrow> nat \<Rightarrow> ('a b_ref \<times> result) option" where
  "ref_displace2 V s roBytesToDisplace =
     (if referencedBC s = None then Some (s, False, 0)
      else let bytesToDisplace = (if roBytesToDisplace > ref_size V s then ref_size V s else roBytesToDisplace);
               s1 = (if referencedMaxBytes s \<noteq> u64_max
                     then s\<lparr>referencedMaxBytes := sub64 (referencedMaxBytes s) bytesToDisplace\<rparr> else s)
           in Some (s1\<lparr>referencedOffset := add64 (referencedOffset s1) bytesToDisplace\<rparr>, True, bytesToDisplace))"

definition ref_copyToStream2 :: "'a b_base_scheme copy_to_stream_method \<Rightarrow> 'a b_base_scheme b_virtuals \<Rightarrow>
  'a b_ref copy_to_stream_method" where
  "ref_copyToStream2 cs V s out bytes offset =
     (case referencedBC s of
        None \<Rightarrow> Some (out, False, 0)
      | Some bc \<Rightarrow>
          if offset > ref_size V s then Some (out, False, 0)
          else let maxBytesToCopy = ref_size V s - offset;
                   bytesToCopy = (if maxBytesToCopy > bytes then bytes else maxBytesToCopy)
               in base_copyToStream cs V bc out bytesToCopy (add64 (referencedOffset s) offset))"

definition ref_copyTo2 :: "('a b_base_scheme, 'o) copy_to_method \<Rightarrow> 'a b_base_scheme b_virtuals \<Rightarrow>
  ('a b_ref, 'o) copy_to_method" where
  "ref_copyTo2 cp V w s out wrStatUpd bytes offset =
     (case referencedBC s of
        None \<Rightarrow> Some (out, wrStatUpd\<lparr>succeed := False\<rparr>, False, 0)
      | Some bc \<Rightarrow>
          if offset > ref_size V s then Some (out, wrStatUpd\<lparr>succeed := False\<rparr>, False, 0)
          else let maxBytesToCopy = ref_size V s - offset;
                   bytesToCopy = (if maxBytesToCopy > bytes then bytes else maxBytesToCopy)
               in base_appendTo_upd cp V w bc out wrStatUpd bytesToCopy (add64 (referencedOffset s) offset))"

definition ref_copyOut2 :: "'a b_base_scheme b_virtuals \<Rightarrow> 'a b_ref \<Rightarrow> nat \<Rightarrow> nat \<Rightarrow> (byte list \<times> result) option" where
  "ref_copyOut2 V s bytes offset =
     (case referencedBC s of
        None \<Rightarrow> Some ([], False, 0)
      | Some bc \<Rightarrow>
          if offset > ref_size V s then Some ([], False, 0)
          else let maxBytesToCopy = ref_size V s - offset;
                   bytesToCopy = (if maxBytesToCopy > bytes then bytes else maxBytesToCopy)
               in base_copyOut V bc bytesToCopy (add64 (referencedOffset s) offset))"

definition ref_compare2 :: "'a b_base_scheme b_virtuals \<Rightarrow> 'a b_ref \<Rightarrow> byte list \<Rightarrow> bool \<Rightarrow> nat \<Rightarrow> bool option" where
  "ref_compare2 V s buf caseSensitive offset =
     (case referencedBC s of
        None \<Rightarrow> Some False
      | Some bc \<Rightarrow>
          if offset > ref_size V s then Some False
          else let maxBytesToCompare = ref_size V s - offset;
                   bytesToCompare = (if maxBytesToCompare > length buf then length buf else maxBytesToCompare)
               in base_compare V bc (take bytesToCompare buf) caseSensitive (add64 (referencedOffset s) offset))"

definition ref_virtuals :: "'a b_base_scheme b_virtuals \<Rightarrow> 'a b_ref b_virtuals" where
  "ref_virtuals V = \<lparr>v_size = ref_size V, v_truncate2 = ref_truncate2, v_clear2 = ref_clear2,
     v_displace2 = ref_displace2 V, v_append2 = ref_append2 V, v_copyOut2 = ref_copyOut2 V,
     v_compare2 = ref_compare2 V, v_findChar = ref_findChar V\<rparr>"

subsection \<open>Content\<close>

definition ref_content :: "('a b_base_scheme \<Rightarrow> byte list) \<Rightarrow> 'a b_ref \<Rightarrow> byte list" where
  "ref_content content s =
     (case referencedBC s of None \<Rightarrow> []
      | Some bc \<Rightarrow> (let xs = drop (referencedOffset s) (content bc) in
          if referencedMaxBytes s = u64_max then xs else take (referencedMaxBytes s) xs))"

definition ref_ok :: "('a b_base_scheme \<Rightarrow> byte list) \<Rightarrow> ('a b_base_scheme \<Rightarrow> bool) \<Rightarrow> 'a b_ref \<Rightarrow> bool" where
  "ref_ok content ok s \<longleftrightarrow>
     (case referencedBC s of None \<Rightarrow> False | Some bc \<Rightarrow> ok bc \<and> referencedOffset s \<le> length (content bc) \<and> referencedMaxBytes s \<le> u64_max)"

text \<open>A container that can be read can be read through a reference, which can also be displaced and
  truncated without changing the container.\<close>

locale ref_target = container_copy V content inv
  for V :: "'a b_base_scheme b_virtuals" and content and inv
begin

lemma ref_size_content:
  assumes "ref_ok content inv s"
  shows "ref_size V s = length (ref_content content s)" "length (ref_content content s) < u64_mod"
proof -
  have "ref_size V s = length (ref_content content s) \<and> length (ref_content content s) < u64_mod"
  proof (cases "referencedBC s")
    case None
    then show ?thesis by (simp add: ref_size_def ref_content_def)
  next
    case (Some bc)
    then have bc: "inv bc" "referencedOffset s \<le> length (content bc)" using assms by (simp_all add: ref_ok_def)
    then have "sub64 (v_size V bc) (referencedOffset s) = length (content bc) - referencedOffset s"
      using size_content content_bound by (simp add: sub64_eq)
    with Some content_bound [OF bc(1)] show ?thesis
      by (auto simp: ref_size_def ref_content_def Let_def)
  qed
  then show "ref_size V s = length (ref_content content s)" "length (ref_content content s) < u64_mod" by simp_all
qed

text \<open>A range of the reference is a range of the container.\<close>

lemma ref_range:
  assumes "ref_ok content inv s" "off + n \<le> length (ref_content content s)" "0 < n"
  obtains bc where "referencedBC s = Some bc" "inv bc" "referencedOffset s + off + n \<le> length (content bc)"
    "segment off n (ref_content content s) = segment (referencedOffset s + off) n (content bc)"
    "add64 (referencedOffset s) off = referencedOffset s + off"
proof -
  obtain bc where b: "referencedBC s = Some bc" using assms(2,3) by (auto simp: ref_content_def split: option.splits)
  then have bc: "inv bc" "referencedOffset s \<le> length (content bc)" using assms(1) by (simp_all add: ref_ok_def)
  have le: "referencedOffset s + off + n \<le> length (content bc)"
    using assms(2,3) b bc(2) by (auto simp: ref_content_def Let_def min_def split: if_splits)
  moreover have "segment off n (ref_content content s) = segment (referencedOffset s + off) n (content bc)"
    using assms(2) b by (auto simp: ref_content_def Let_def segment_def drop_take min_def add.commute split: if_splits)
  ultimately show thesis
    using that [of bc] b bc content_bound [OF bc(1)] by (simp add: add64_eq)
qed

end

sublocale ref_target \<subseteq> ref: container_copy "ref_virtuals V" "ref_content content" "ref_ok content inv"
proof unfold_locales
  fix s n off
  assume s: "ref_ok content inv s"
  show "v_size (ref_virtuals V) s = length (ref_content content s)" "length (ref_content content s) < u64_mod"
    using ref_size_content [OF s] by (simp_all add: ref_virtuals_def)
  assume n: "0 < n" "off + n \<le> length (ref_content content s)"
  obtain bc where bc: "referencedBC s = Some bc" "inv bc" "referencedOffset s + off + n \<le> length (content bc)"
    "segment off n (ref_content content s) = segment (referencedOffset s + off) n (content bc)"
    "add64 (referencedOffset s) off = referencedOffset s + off"
    using ref_range [OF s n(2,1)] .
  have len: "ref_size V s = length (ref_content content s)" "off \<le> length (ref_content content s)"
    "(if length (ref_content content s) - off > n then n else length (ref_content content s) - off) = n"
    using n ref_size_content(1) [OF s] by auto
  show "v_copyOut2 (ref_virtuals V) s n off = Some (segment off n (ref_content content s), True, n)"
    using n len bc copyOut_inside [OF bc(2,3)]
    by (simp only: ref_virtuals_def ref_copyOut2_def Let_def b_virtuals.simps option.simps len bc not_less if_False if_True) simp
qed

sublocale ref_target \<subseteq> ref_t: container_truncate "ref_virtuals V" "ref_content content" "ref_ok content inv"
proof unfold_locales
  fix s n
  assume s: "ref_ok content inv s" "n < length (ref_content content s)"
  then have "n < u64_max" using ref_size_content(2) [OF s(1)] by (simp add: less_u64_mod_iff)
  then show "\<exists>s' ok. v_truncate2 (ref_virtuals V) s n = Some (s', ok, n) \<and> ref_ok content inv s' \<and>
      ref_content content s' = take n (ref_content content s)"
    using s by (auto simp: ref_virtuals_def ref_truncate2_def ref_ok_def ref_content_def Let_def min_def
        split: option.splits if_splits)
qed

sublocale ref_target \<subseteq> ref_d: container_displace "ref_virtuals V" "ref_content content" "ref_ok content inv"
proof unfold_locales
  fix s n
  assume s: "ref_ok content inv s" "n \<le> length (ref_content content s)"
  show "\<exists>s'. v_displace2 (ref_virtuals V) s n = Some (s', True, n) \<and> ref_ok content inv s' \<and>
      ref_content content s' = drop n (ref_content content s)"
  proof -
    obtain bc where b: "referencedBC s = Some bc" and bc: "inv bc" "referencedOffset s \<le> length (content bc)"
        "referencedMaxBytes s \<le> u64_max"
      using s(1) by (auto simp: ref_ok_def split: option.splits)
    have le: "referencedOffset s + n \<le> length (content bc)" "n \<le> referencedMaxBytes s \<or> referencedMaxBytes s = u64_max"
      using s(2) b bc by (auto simp: ref_content_def Let_def split: if_splits)
    then have o: "add64 (referencedOffset s) n = referencedOffset s + n"
      using content_bound [OF bc(1)] by (simp add: add64_eq)
    have r: "(if n > ref_size V s then ref_size V s else n) = n"
      using ref_size_content(1) [OF s(1)] s(2) by simp
    show ?thesis
    proof (cases "referencedMaxBytes s = u64_max")
      case True
      then show ?thesis
        using b bc le o r
        by (simp add: ref_virtuals_def ref_displace2_def Let_def ref_ok_def ref_content_def add.commute)
    next
      case False
      then have m: "sub64 (referencedMaxBytes s) n = referencedMaxBytes s - n" "referencedMaxBytes s - n < u64_max"
        using le(2) bc(3) by (simp_all add: sub64_eq less_u64_mod_iff)
      with False show ?thesis
        using b bc le o r
        by (simp add: ref_virtuals_def ref_displace2_def Let_def ref_ok_def ref_content_def drop_take add.commute)
    qed
  qed
qed

interpretation chunks_ref: ref_target "chunks_virtuals os" chunks_content chunks_indexed ..

interpretation mem_ref: ref_target mem_virtuals mem_content mem_ok ..

subsection \<open>Properties\<close>

text \<open>C4: A reference to a range of a chunk container reads exactly that range; taking bytes off its
  front and cutting its end move the range and leave the other container as it was.\<close>

theorem ref_reads_a_window:
  assumes "chunks_indexed bc" "off \<le> length (chunks_content bc)" "len \<le> u64_max"
    "r = ref_construct (chunks_virtuals os) (Some bc) off len"
    "w = (if len = u64_max then drop off (chunks_content bc) else take len (drop off (chunks_content bc)))"
  shows "\<exists>r1 r2 ok. base_toString (ref_virtuals (chunks_virtuals os)) r u64_max 0 = Some w \<and>
    base_displace (ref_virtuals (chunks_virtuals os)) r n = Some (r1, True, min n (length w)) \<and>
    base_toString (ref_virtuals (chunks_virtuals os)) r1 u64_max 0 = Some (drop n w) \<and>
    base_truncate (ref_virtuals (chunks_virtuals os)) r1 m = Some (r2, ok, min m (length (drop n w))) \<and>
    base_toString (ref_virtuals (chunks_virtuals os)) r2 u64_max 0 = Some (take m (drop n w)) \<and>
    referencedBC r1 = Some bc \<and> referencedBC r2 = Some bc"
proof -
  have ok: "ref_ok chunks_content chunks_indexed r" and w: "ref_content chunks_content r = w"
    and bc: "referencedBC r = Some bc"
    using assms chunks_c.size_content [OF assms(1), of os]
    by (simp_all add: ref_construct_def ref_reference_def ref_ok_def ref_content_def Let_def)
  obtain r1 where r1: "base_displace (ref_virtuals (chunks_virtuals os)) r n = Some (r1, True, min n (length w))"
    "ref_ok chunks_content chunks_indexed r1" "ref_content chunks_content r1 = drop n w"
    using chunks_ref.ref_d.displace_content [OF ok, of os n] w by auto
  obtain r2 ok2 where r2: "base_truncate (ref_virtuals (chunks_virtuals os)) r1 m = Some (r2, ok2, min m (length (drop n w)))"
    "ref_ok chunks_content chunks_indexed r2" "ref_content chunks_content r2 = take m (drop n w)"
    using chunks_ref.ref_t.truncate_content [OF r1(2), of os m] r1(3) by auto
  have "referencedBC r1 = Some bc"
    using r1(1) bc by (auto simp: base_displace_def ref_virtuals_def ref_displace2_def Let_def split: if_splits)
  moreover have "referencedBC r2 = referencedBC r1"
    using r2(1) by (auto simp: base_truncate_def ref_virtuals_def ref_truncate2_def Let_def split: if_splits option.splits)
  ultimately show ?thesis
    using r1 r2 w chunks_ref.ref.toString_all [OF ok, of os] chunks_ref.ref.toString_all [OF r1(2), of os]
      chunks_ref.ref.toString_all [OF r2(2), of os] by auto
qed

theorem ref_reads_a_window_witness:
  "\<exists>r1 r2 ok. base_toString (ref_virtuals (chunks_virtuals (os_fine [])))
      (ref_construct (chunks_virtuals (os_fine [])) (Some two_chunks) 1 u64_max) u64_max 0 = Some [2] \<and>
    base_displace (ref_virtuals (chunks_virtuals (os_fine [])))
      (ref_construct (chunks_virtuals (os_fine [])) (Some two_chunks) 1 u64_max) 1 = Some (r1, True, min 1 (length [2 :: byte])) \<and>
    base_toString (ref_virtuals (chunks_virtuals (os_fine []))) r1 u64_max 0 = Some (drop 1 [2]) \<and>
    base_truncate (ref_virtuals (chunks_virtuals (os_fine []))) r1 1 =
      Some (r2, ok, min 1 (length (drop 1 [2 :: byte]))) \<and>
    base_toString (ref_virtuals (chunks_virtuals (os_fine []))) r2 u64_max 0 = Some (take 1 (drop 1 [2])) \<and>
    referencedBC r1 = Some two_chunks \<and> referencedBC r2 = Some two_chunks"
proof (rule ref_reads_a_window [OF two_chunks_indexed(1) _ _ refl])
  show "(1::nat) \<le> length (chunks_content two_chunks)" "u64_max \<le> u64_max" by (simp_all add: two_chunks_indexed)
  show "[2] = (if u64_max = u64_max then drop 1 (chunks_content two_chunks)
      else take u64_max (drop 1 (chunks_content two_chunks)))" by (simp add: two_chunks_indexed)
qed

text \<open>Searching through a reference that starts at a later position finds a text that does not occur
  in it: the position found is one of the other container, and comparing there runs past the end
  of the reference, where every text agrees.\<close>

theorem ref_find_false_positive:
  "base_toString (ref_virtuals mem_virtuals)
     (ref_construct mem_virtuals (Some (mem_reference mem_new (Some [120, 120, 97, 99]) 4)) 2 u64_max) u64_max 0 = Some [97, 99] \<and>
   base_find (ref_virtuals mem_virtuals)
     (ref_construct mem_virtuals (Some (mem_reference mem_new (Some [120, 120, 97, 99]) 4)) 2 u64_max) [97, 98] True 0 0
     = Some (True, 2)"
proof -
  let ?m = "mem_reference mem_new (Some [120, 120, 97, 99]) 4"
  let ?r = "ref_construct mem_virtuals (Some ?m) 2 u64_max"
  have m: "mem_ok ?m" "mem_content ?m = [120, 120, 97, 99]" by (simp_all add: mem_reference_ok)
  have size: "v_size mem_virtuals ?m = 4" using mem_r.size_content [OF m(1)] m(2) by simp
  have r: "referencedBC ?r = Some ?m" "referencedOffset ?r = 2" "referencedMaxBytes ?r = u64_max"
    using size by (simp_all add: ref_construct_def ref_reference_def)
  have ok: "ref_ok mem_content mem_ok ?r" "ref_content mem_content ?r = [97, 99]"
    using m r by (simp_all add: ref_ok_def ref_content_def)
  have rsize: "ref_size mem_virtuals ?r = 2" using mem_ref.ref_size_content(1) [OF ok(1)] ok(2) by simp
  have f: "ref_findChar mem_virtuals ?r 97 0 2 True = Some (True, 2)"
  proof -
    have "v_findChar mem_virtuals ?m 97 2 2 True = Some (True, 2)"
      using mem_search.findChar_law [OF m(1), of 2 2 97 True] m(2)
      by (simp add: mem_hit_def is_alpha_def segment_def)
    then show ?thesis by (simp add: ref_findChar_def r is_alpha_def add64_def u64_mod_def)
  qed
  have g: "ref_compare2 mem_virtuals ?r [97, 98] True 2 = Some True"
    by (simp add: ref_compare2_def r rsize base_compare_def no_overflow_sum add64_def u64_mod_def)
  have "base_find (ref_virtuals mem_virtuals) ?r [97, 98] True 0 0 = Some (True, 2)"
    by (simp add: base_find_def ref_virtuals_def rsize no_overflow_sum u64_mod_def f find_loop.simps g sub64_def add64_def)
  then show ?thesis using mem_ref.ref.toString_all [OF ok(1)] ok(2) by simp
qed

end
