(* ===== verification/SubParser.thy ===== *)
theory SubParser
  imports Container_Ref "HOL-Library.Monad_Syntax"
begin

text \<open>
  \<^verbatim>\<open>Memory/mdz_mem_vars/subparser.{h,cpp}\<close>: a piece of a protocol. It gathers incoming bytes in a
  chunk container until its mode says that an element is complete, shows the element to the virtual
  \<^verbatim>\<open>parse()\<close> through a reference container, and reports how many of the bytes it took. \<^verbatim>\<open>parse()\<close> is an
  argument of the operations; it may change the parser, as the derived classes do.
\<close>

subsection \<open>State\<close>

datatype ParseStatus = PARSE_STAT_ERROR | PARSE_STAT_GET_MORE_DATA | PARSE_STAT_GOTO_NEXT_SUBPARSER

datatype ParseMode =
  PARSE_MODE_DELIMITER | PARSE_MODE_SIZE | PARSE_MODE_VALIDATOR | PARSE_MODE_CONNECTION_END
| PARSE_MODE_DIRECT | PARSE_MODE_DIRECT_DELIMITER | PARSE_MODE_MULTIDELIMITER | PARSE_MODE_FREEPARSER

text \<open>\<^verbatim>\<open>upStream\<close> is an address: the subparser only keeps it for its derived class.\<close>

record subparser =
  clientMode :: bool
  upStream :: "nat option"
  streamEnded :: bool
  subParserName :: string
  parsedBuffer :: "unit b_chunks_ext b_ref"
  unparsedBuffer :: b_chunks
  parseDelimiter :: "byte list"
  delimiterFound :: "byte list"
  parseMultiDelimiter :: "byte list list"
  parseMode :: ParseMode
  parseStatus :: ParseStatus

type_synonym 'a parse_method = "'a subparser_scheme \<Rightarrow> ('a subparser_scheme \<times> ParseStatus) option"

definition SubParser_new :: "os_calls \<Rightarrow> subparser" where
  "SubParser_new os = \<lparr>clientMode = True, upStream = None, streamEnded = False, subParserName = '''',
     parsedBuffer = ref_construct (chunks_virtuals os) None 0 0, unparsedBuffer = chunks_new,
     parseDelimiter = [13, 10], delimiterFound = [], parseMultiDelimiter = [],
     parseMode = PARSE_MODE_DELIMITER, parseStatus = PARSE_STAT_GET_MORE_DATA\<rparr>"

definition initElemParser :: "'a subparser_scheme \<Rightarrow> nat option \<Rightarrow> bool \<Rightarrow> 'a subparser_scheme" where
  "initElemParser s upstreamObj cm = s\<lparr>upStream := upstreamObj, clientMode := cm\<rparr>"

definition setParseStatus :: "'a subparser_scheme \<Rightarrow> ParseStatus \<Rightarrow> 'a subparser_scheme" where
  "setParseStatus s value = s\<lparr>parseStatus := value\<rparr>"

definition setParseDelimiter :: "'a subparser_scheme \<Rightarrow> byte list \<Rightarrow> 'a subparser_scheme" where
  "setParseDelimiter s value = s\<lparr>parseDelimiter := value\<rparr>"

definition setParseMultiDelimiter :: "'a subparser_scheme \<Rightarrow> byte list list \<Rightarrow> 'a subparser_scheme" where
  "setParseMultiDelimiter s value = s\<lparr>parseMultiDelimiter := value\<rparr>"

definition setParseDataTargetSize :: "'a subparser_scheme \<Rightarrow> nat \<Rightarrow> 'a subparser_scheme" where
  "setParseDataTargetSize s value = s\<lparr>unparsedBuffer := (unparsedBuffer s)\<lparr>maxSize := value\<rparr>\<rparr>"

definition setParseMode :: "'a subparser_scheme \<Rightarrow> ParseMode \<Rightarrow> 'a subparser_scheme" where
  "setParseMode s value =
     (let s1 = (if value = PARSE_MODE_DIRECT then setParseDataTargetSize s u64_max else s)
      in s1\<lparr>parseMode := value\<rparr>)"

definition getLeftToparse :: "os_calls \<Rightarrow> 'a subparser_scheme \<Rightarrow> nat" where
  "getLeftToparse os s = base_getSizeLeft (chunks_virtuals os) (unparsedBuffer s)"

text \<open>The reference holds the address of \<^verbatim>\<open>unparsedBuffer\<close>: it always shows its present value.\<close>

definition getParsedBuffer :: "'a subparser_scheme \<Rightarrow> unit b_chunks_ext b_ref" where
  "getParsedBuffer s = (parsedBuffer s)
     \<lparr>referencedBC := map_option (\<lambda>_. unparsedBuffer s) (referencedBC (parsedBuffer s))\<rparr>"

definition reference_unparsed :: "os_calls \<Rightarrow> 'a subparser_scheme \<Rightarrow> nat \<Rightarrow> nat \<Rightarrow> 'a subparser_scheme" where
  "reference_unparsed os s offset maxBytes =
     s\<lparr>parsedBuffer := fst (ref_reference (chunks_virtuals os) (parsedBuffer s) (unparsedBuffer s) offset maxBytes)\<rparr>"

definition clear_unparsed :: "os_calls \<Rightarrow> 'a subparser_scheme \<Rightarrow> 'a subparser_scheme option" where
  "clear_unparsed os s =
     map_option (\<lambda>(u, _). s\<lparr>unparsedBuffer := u\<rparr>) (base_clear (chunks_virtuals os) (unparsedBuffer s))"

definition clear_parsed :: "os_calls \<Rightarrow> 'a subparser_scheme \<Rightarrow> 'a subparser_scheme option" where
  "clear_parsed os s =
     map_option (\<lambda>(p, _). s\<lparr>parsedBuffer := p\<rparr>) (base_clear (ref_virtuals (chunks_virtuals os)) (parsedBuffer s))"

definition SubParser_clear :: "os_calls \<Rightarrow> 'a subparser_scheme \<Rightarrow> 'a subparser_scheme option" where
  "SubParser_clear os s = Option.bind (clear_unparsed os s) (clear_parsed os)"

definition run_parse :: "'a parse_method \<Rightarrow> 'a subparser_scheme \<Rightarrow> 'a subparser_scheme option" where
  "run_parse parse s = map_option (\<lambda>(s', st). setParseStatus s' st) (parse s)"

text \<open>The count is cut to what the buffer can still take, unless it can take nothing.\<close>

definition stick_to_size :: "os_calls \<Rightarrow> 'a subparser_scheme \<Rightarrow> byte list \<Rightarrow> byte list" where
  "stick_to_size os s buf =
     (if length buf > getLeftToparse os s \<and> getLeftToparse os s \<noteq> 0 then take (getLeftToparse os s) buf else buf)"

subsection \<open>Modes\<close>

text \<open>The two delimiter modes differ in the search and in the delimiter whose length is taken off;
  both lengths are read after \<^verbatim>\<open>parse()\<close> returned.\<close>

definition parseByDelimiter :: "os_calls \<Rightarrow> 'a parse_method \<Rightarrow> 'a subparser_scheme \<Rightarrow> byte list \<Rightarrow>
  ('a subparser_scheme \<times> result) option" where
  "parseByDelimiter os parse s0 buf0 =
     (let prevSize = chunks_size (unparsedBuffer s0);
          s = (if buf0 = [] then s0\<lparr>streamEnded := True\<rparr> else s0);
          buf = stick_to_size os s buf0
      in do {
        (u, ok, appended) \<leftarrow> (if buf = [] then Some (unparsedBuffer s, True, 0)
                            else base_append (chunks_virtuals os) (unparsedBuffer s) buf);
        let s1 = s\<lparr>unparsedBuffer := u\<rparr>;
        if buf \<noteq> [] \<and> (appended = 0 \<or> \<not> ok)
        then do { s2 \<leftarrow> clear_unparsed os s1; Some (s2, False, 0) }
        else do {
          let s2 = reference_unparsed os s1 0 u64_max;
          needlePos \<leftarrow> base_find (chunks_virtuals os) u (parseDelimiter s2) True 0 0;
          if fst needlePos
          then do {
            s3 \<leftarrow> run_parse parse (reference_unparsed os s2 0 (snd needlePos));
            s4 \<leftarrow> clear_unparsed os s3;
            Some (s4, True, add64 (sub64 (snd needlePos) prevSize) (length (parseDelimiter s4))) }
          else if streamEnded s2
          then do {
            s3 \<leftarrow> run_parse parse (reference_unparsed os s2 0 u64_max);
            s4 \<leftarrow> clear_unparsed os s3;
            Some (s4, True, appended) }
          else Some (s2, True, appended) } })"

definition parseByMultiDelimiter :: "os_calls \<Rightarrow> 'a parse_method \<Rightarrow> 'a subparser_scheme \<Rightarrow> byte list \<Rightarrow>
  ('a subparser_scheme \<times> result) option" where
  "parseByMultiDelimiter os parse s0 buf0 =
     (let prevSize = chunks_size (unparsedBuffer s0);
          s = (if buf0 = [] then s0\<lparr>streamEnded := True\<rparr> else s0);
          buf = stick_to_size os s buf0
      in do {
        (u, ok, appended) \<leftarrow> (if buf = [] then Some (unparsedBuffer s, True, 0)
                            else base_append (chunks_virtuals os) (unparsedBuffer s) buf);
        let s1 = s\<lparr>unparsedBuffer := u\<rparr>;
        if buf \<noteq> [] \<and> (\<not> ok \<or> appended = 0)
        then do { s2 \<leftarrow> clear_unparsed os s1; Some (s2, False, 0) }
        else do {
          let s2 = reference_unparsed os s1 0 u64_max;
          (needlePos, found) \<leftarrow> base_find_list (chunks_virtuals os) u (parseMultiDelimiter s2) True 0 0;
          let s3 = s2\<lparr>delimiterFound := found\<rparr>;
          if fst needlePos
          then do {
            s4 \<leftarrow> run_parse parse (reference_unparsed os s3 0 (snd needlePos));
            s5 \<leftarrow> clear_unparsed os s4;
            Some (s5, True, sub64 (add64 (snd needlePos) (length (delimiterFound s5))) prevSize) }
          else if streamEnded s3
          then do {
            s4 \<leftarrow> run_parse parse (reference_unparsed os s3 0 u64_max);
            s5 \<leftarrow> clear_unparsed os s4;
            Some (s5, True, appended) }
          else Some (s3, True, appended) } })"

definition parseBySize :: "os_calls \<Rightarrow> 'a parse_method \<Rightarrow> 'a subparser_scheme \<Rightarrow> byte list \<Rightarrow>
  ('a subparser_scheme \<times> result) option" where
  "parseBySize os parse s buf =
     (if buf = []
      then do {
        s1 \<leftarrow> clear_unparsed os (setParseStatus (s\<lparr>streamEnded := True\<rparr>) PARSE_STAT_GOTO_NEXT_SUBPARSER);
        Some (s1, True, 0) }
      else do {
        (u, ok, appended) \<leftarrow> base_append (chunks_virtuals os) (unparsedBuffer s)
          (if length buf > getLeftToparse os s then take (getLeftToparse os s) buf else buf);
        let s1 = s\<lparr>unparsedBuffer := u\<rparr>;
        if \<not> ok then Some (s1, ok, appended)
        else if getLeftToparse os s1 = 0
        then do {
          s2 \<leftarrow> run_parse parse (reference_unparsed os s1 0 u64_max);
          s3 \<leftarrow> clear_unparsed os s2;
          Some (s3, True, appended) }
        else Some (s1, True, appended) })"

definition parseByValidator :: "'a subparser_scheme \<Rightarrow> byte list \<Rightarrow> ('a subparser_scheme \<times> result) option" where
  "parseByValidator s buf = Some (s, False, 0)"

definition parseByConnectionEnd :: "os_calls \<Rightarrow> 'a parse_method \<Rightarrow> 'a subparser_scheme \<Rightarrow> byte list \<Rightarrow>
  ('a subparser_scheme \<times> result) option" where
  "parseByConnectionEnd os parse s buf0 =
     (let buf = stick_to_size os s buf0 in do {
        (u, ok, appended) \<leftarrow> base_append (chunks_virtuals os) (unparsedBuffer s) buf;
        let s1 = s\<lparr>unparsedBuffer := u\<rparr>;
        if \<not> ok then Some (s1, False, 0)
        else if appended \<noteq> length buf then Some (s1, False, appended)
        else if buf = []
        then do {
          s2 \<leftarrow> run_parse parse (reference_unparsed os s1 0 u64_max);
          s3 \<leftarrow> clear_parsed os s2;
          Some (s3, True, 0) }
        else Some (s1, True, length buf) })"

text \<open>\<^verbatim>\<open>reduceMaxSizeBy\<close> may throw: Inl is the message.\<close>

definition parseDirect :: "os_calls \<Rightarrow> 'a parse_method \<Rightarrow> 'a subparser_scheme \<Rightarrow> byte list \<Rightarrow>
  (string + 'a subparser_scheme \<times> result) option" where
  "parseDirect os parse s buf0 =
     (let buf = stick_to_size os s buf0 in do {
        (u, ok, appended) \<leftarrow> base_append (chunks_virtuals os) (unparsedBuffer s) buf;
        let s1 = s\<lparr>unparsedBuffer := u\<rparr>;
        if \<not> ok then Some (Inr (s1, False, 0))
        else do {
          s2 \<leftarrow> run_parse parse (reference_unparsed os s1 0 u64_max);
          let curBufSize = chunks_size (unparsedBuffer s2);
          s3 \<leftarrow> clear_unparsed os s2;
          Some (case base_reduceMaxSizeBy (unparsedBuffer s3) curBufSize of
                  Inl e \<Rightarrow> Inl e
                | Inr u' \<Rightarrow> Inr (s3\<lparr>unparsedBuffer := u'\<rparr>, ok, appended)) } })"

text \<open>The bytes at the end of the buffer that may be the start of the delimiter, longest first. A
  comparison that would read memory \<^verbatim>\<open>copyOut\<close> did not fill, or past the terminating zero of the
  delimiter, is None.\<close>

definition referenceLastBytes :: "os_calls \<Rightarrow> 'a subparser_scheme \<Rightarrow> nat \<Rightarrow> unit b_chunks_ext b_ref" where
  "referenceLastBytes os s bytes =
     fst (ref_reference (chunks_virtuals os) (ref_construct (chunks_virtuals os) None 0 0) (unparsedBuffer s)
       (sub64 (chunks_size (unparsedBuffer s)) bytes) u64_max)"

fun lastBytes_loop :: "os_calls \<Rightarrow> 'a subparser_scheme \<Rightarrow> byte list \<Rightarrow> nat \<Rightarrow> nat option" where
  "lastBytes_loop os s boundary 0 = Some 0"
| "lastBytes_loop os s boundary (Suc v) =
     (let ref = referenceLastBytes os s (Suc v); sz = ref_size (chunks_virtuals os) ref in
      case base_copyOut (ref_virtuals (chunks_virtuals os)) ref sz 0 of
        None \<Rightarrow> None
      | Some (toCmp, _) \<Rightarrow>
          if length toCmp < sz \<or> length boundary + 1 < sz then None
          else if toCmp = take sz (boundary @ [0]) then Some (Suc v)
          else lastBytes_loop os s boundary v)"

definition getLastBytesInCommon :: "os_calls \<Rightarrow> 'a subparser_scheme \<Rightarrow> byte list \<Rightarrow> nat option" where
  "getLastBytesInCommon os s boundary =
     lastBytes_loop os s boundary
       (if chunks_size (unparsedBuffer s) > sub64 (length boundary) 1 then sub64 (length boundary) 1
        else chunks_size (unparsedBuffer s))"

definition parseDirectDelimiter :: "os_calls \<Rightarrow> 'a parse_method \<Rightarrow> 'a subparser_scheme \<Rightarrow> byte list \<Rightarrow>
  ('a subparser_scheme \<times> result) option" where
  "parseDirectDelimiter os parse s00 buf0 =
     (let s0 = s00\<lparr>delimiterFound := []\<rparr>;
          buf = stick_to_size os s0 buf0;
          prevSize = chunks_size (unparsedBuffer s0)
      in if buf = [] then Some (s0, False, 0)
      else do {
        (u, ok, appended) \<leftarrow> base_append (chunks_virtuals os) (unparsedBuffer s0) buf;
        let s1 = s0\<lparr>unparsedBuffer := u\<rparr>;
        if \<not> ok then Some (s1, False, 0)
        else do {
          delimPos \<leftarrow> base_find (chunks_virtuals os) u (parseDelimiter s1) True 0 0;
          if \<not> fst delimPos
          then do {
            possible \<leftarrow> getLastBytesInCommon os s1 (parseDelimiter s1);
            if possible = 0
            then do {
              s2 \<leftarrow> run_parse parse (reference_unparsed os s1 0 u64_max);
              s3 \<leftarrow> clear_unparsed os s2;
              Some (s3, True, appended) }
            else do {
              s2 \<leftarrow> run_parse parse (reference_unparsed os s1 0 (sub64 (chunks_size u) possible));
              (u', _) \<leftarrow> base_displace (chunks_virtuals os) (unparsedBuffer s2)
                (sub64 (chunks_size (unparsedBuffer s2)) possible);
              Some (s2\<lparr>unparsedBuffer := u'\<rparr>, True, appended) } }
          else do {
            s2 \<leftarrow> (let s2 = s1\<lparr>delimiterFound := parseDelimiter s1\<rparr> in
              if snd delimPos = 0
              then map_option (\<lambda>s. reference_unparsed os s 0 u64_max) (clear_unparsed os s2)
              else Some (reference_unparsed os s2 0 (snd delimPos)));
            s3 \<leftarrow> run_parse parse s2;
            s4 \<leftarrow> clear_unparsed os s3;
            Some (s4, True, add64 (sub64 (snd delimPos) prevSize) (length (parseDelimiter s4))) } } })"

definition writeIntoParser :: "os_calls \<Rightarrow> 'a parse_method \<Rightarrow> 'a subparser_scheme \<Rightarrow> byte list \<Rightarrow>
  (string + 'a subparser_scheme \<times> result) option" where
  "writeIntoParser os parse s0 buf =
     (let s = (if buf = [] then s0\<lparr>streamEnded := True\<rparr> else s0) in
      case parseMode s of
        PARSE_MODE_DELIMITER \<Rightarrow> map_option Inr (parseByDelimiter os parse s buf)
      | PARSE_MODE_SIZE \<Rightarrow> map_option Inr (parseBySize os parse s buf)
      | PARSE_MODE_VALIDATOR \<Rightarrow> map_option Inr (parseByValidator s buf)
      | PARSE_MODE_DIRECT_DELIMITER \<Rightarrow> map_option Inr (parseDirectDelimiter os parse s buf)
      | PARSE_MODE_CONNECTION_END \<Rightarrow> map_option Inr (parseByConnectionEnd os parse s buf)
      | PARSE_MODE_MULTIDELIMITER \<Rightarrow> map_option Inr (parseByMultiDelimiter os parse s buf)
      | PARSE_MODE_DIRECT \<Rightarrow> parseDirect os parse s buf
      | PARSE_MODE_FREEPARSER \<Rightarrow> Some (Inr (s, False, 0)))"

end
