(* ===== verification/SubParser_Facts.thy ===== *)
theory SubParser_Facts
  imports SubParser
begin

text \<open>
  The buffer of a subparser and the frames it cuts. \<^verbatim>\<open>first_delim\<close> is the specification of the
  search for a delimiter: the first position where the delimiter stands, byte for byte
  (\<^verbatim>\<open>find\<close> is called with its default, a search that tells upper from lower case).
\<close>

subsection \<open>The buffer\<close>

definition buffer_ok :: "b_chunks \<Rightarrow> bool" where
  "buffer_ok u \<longleftrightarrow> chunks_indexed u \<and> \<not> readOnly u"

definition buffer_limit :: "b_chunks \<Rightarrow> nat" where
  "buffer_limit u = min (maxSize u) (maxChunks u)"

lemma buffer_okD:
  assumes "buffer_ok u"
  shows "chunks_ok u" "chunks_indexed u" "\<not> readOnly u" "length (chunks_content u) < u64_mod"
    "chunks_size u = length (chunks_content u)" "maxSize u < u64_mod"
proof -
  show i: "chunks_indexed u" "\<not> readOnly u" using assms by (simp_all add: buffer_ok_def)
  show ok: "chunks_ok u" by (rule chunks_indexedD [OF i(1)])
  show "length (chunks_content u) < u64_mod" "chunks_size u = length (chunks_content u)"
    by (rule chunks_okD [OF ok])+
  show "maxSize u < u64_mod" using ok by (simp add: chunks_ok_def)
qed

lemma length_chunksVector_le: "chunks_ok u \<Longrightarrow> length (chunksVector u) \<le> length (chunks_content u)"
  unfolding chunks_content_def by (rule length_le_chunk_bytes) (rule chunks_okD(2))

lemma buffer_append:
  assumes "buffer_ok u" "data \<noteq> []" "length (chunks_content u) + length data \<le> buffer_limit u"
  shows "\<exists>u'. base_append (chunks_virtuals os) u data = Some (u', True, length data) \<and> buffer_ok u' \<and>
    chunks_content u' = chunks_content u @ data \<and> chunks_same_config u u'"
proof -
  have "length data \<le> chunks_room u"
    using assms(3) buffer_okD [OF assms(1)] length_chunksVector_le [of u]
    by (auto simp: chunks_room_def buffer_limit_def)
  from chunks_append_fits [OF buffer_okD(1) [OF assms(1)] this assms(2), of os] assms(1)
  show ?thesis by (auto simp: buffer_ok_def chunks_indexed_def chunks_same_config_def)
qed

lemma buffer_clear:
  assumes "buffer_ok u"
  shows "\<exists>u'. base_clear (chunks_virtuals os) u = Some (u', True) \<and> buffer_ok u' \<and> chunks_content u' = [] \<and>
    chunks_same_config u u'"
  using assms
  by (auto simp: base_clear_def chunks_clear2_def clear0_def buffer_ok_def chunks_indexed_def chunks_ok_def
      chunks_content_def chunks_same_config_def u64_mod_pos)

lemma buffer_limit_config: "chunks_same_config u u' \<Longrightarrow> buffer_limit u' = buffer_limit u"
  by (simp add: chunks_same_config_def buffer_limit_def)

text \<open>A refused append leaves the buffer as it was.\<close>

lemma buffer_append_refused:
  assumes "buffer_ok u" "length data < u64_mod" "maxSize u < length (chunks_content u) + length data"
  shows "base_append (chunks_virtuals os) u data = Some (u, False, 0)"
  using chunks_a.append_over_limit [OF buffer_okD(1) [OF assms(1)] assms(2,3)] buffer_okD(6) [OF assms(1)] .

lemma stick_to_size_fits:
  "buffer_ok (unparsedBuffer s) \<Longrightarrow> length (chunks_content (unparsedBuffer s)) + length buf \<le> maxSize (unparsedBuffer s) \<Longrightarrow>
   stick_to_size os s buf = buf"
  by (simp add: stick_to_size_def getLeftToparse_def base_getSizeLeft_def buffer_okD)

subsection \<open>The element shown to parse\<close>

definition parsed_element :: "os_calls \<Rightarrow> 'a subparser_scheme \<Rightarrow> byte list option" where
  "parsed_element os s = base_toString (ref_virtuals (chunks_virtuals os)) (getParsedBuffer s) u64_max 0"

lemma parsed_element_delimiterFound [simp]:
  "parsed_element os (s\<lparr>delimiterFound := d\<rparr>) = parsed_element os s"
  by (simp add: parsed_element_def getParsedBuffer_def)

lemma subparser_update_order:
  "t\<lparr>parsedBuffer := pb, delimiterFound := d\<rparr> = t\<lparr>delimiterFound := d, parsedBuffer := pb\<rparr>"
  for t :: "'a subparser_scheme"
  by (cases t) simp

lemma parsed_element_order:
  "parsed_element os (t\<lparr>delimiterFound := d, parsedBuffer := pb\<rparr>) = parsed_element os (t\<lparr>parsedBuffer := pb\<rparr>)"
  for t :: "'a subparser_scheme"
  unfolding subparser_update_order [symmetric] by simp

lemma getParsedBuffer_content:
  assumes "buffer_ok (unparsedBuffer s)" "m \<le> u64_max" "u = unparsedBuffer s"
  shows "parsed_element os (reference_unparsed os s 0 m) = Some (take m (chunks_content (unparsedBuffer s)))"
proof -
  let ?r = "getParsedBuffer (reference_unparsed os s 0 m)"
  have r: "referencedBC ?r = Some (unparsedBuffer s)" "referencedOffset ?r = 0" "referencedMaxBytes ?r = m"
    by (simp_all add: getParsedBuffer_def reference_unparsed_def ref_reference_def)
  have ok: "ref_ok chunks_content chunks_indexed ?r"
    using r assms by (simp add: ref_ok_def buffer_okD)
  have "length (chunks_content (unparsedBuffer s)) \<le> u64_max"
    using buffer_okD(4) [OF assms(1)] by (simp add: less_u64_mod_iff)
  then have "ref_content chunks_content ?r = take m (chunks_content (unparsedBuffer s))"
    using r by (simp add: ref_content_def Let_def)
  then show ?thesis
    using chunks_ref.ref.toString_all [OF ok, of os] by (simp add: parsed_element_def)
qed

subsection \<open>Delimiters\<close>

definition delim_at :: "byte list \<Rightarrow> byte list \<Rightarrow> nat \<Rightarrow> bool" where
  "delim_at d xs p \<longleftrightarrow> p + length d \<le> length xs \<and> segment p (length d) xs = d"

definition first_delim :: "byte list \<Rightarrow> byte list \<Rightarrow> nat option" where
  "first_delim d xs = find_index (delim_at d xs) [0..<length xs]"

lemma first_delim_None: "d \<noteq> [] \<Longrightarrow> first_delim d xs = None \<longleftrightarrow> (\<forall>p. \<not> delim_at d xs p)"
proof -
  assume d: "d \<noteq> []"
  have "delim_at d xs p \<Longrightarrow> p < length xs" for p
    using d by (cases d) (auto simp: delim_at_def)
  then show ?thesis by (auto simp: first_delim_def find_index_None)
qed

lemma first_delim_Some:
  "d \<noteq> [] \<Longrightarrow> first_delim d xs = Some p \<longleftrightarrow> delim_at d xs p \<and> (\<forall>q<p. \<not> delim_at d xs q)"
proof -
  assume d: "d \<noteq> []"
  have "delim_at d xs p \<Longrightarrow> p < length xs" for p
    using d by (cases d) (auto simp: delim_at_def)
  then show ?thesis by (auto simp: first_delim_def find_index_Some) (metis less_trans nth_upt add_0)
qed

lemma first_delim_le: "first_delim d xs = Some p \<Longrightarrow> d \<noteq> [] \<Longrightarrow> p + length d \<le> length xs"
  by (simp add: first_delim_Some delim_at_def)

lemma chunks_hit_same: "chunks_hit cs c c"
proof -
  have "\<not> (97 \<le> c \<and> c \<le> 90)"
  proof
    assume "97 \<le> c \<and> c \<le> 90"
    then have "(97 :: byte) \<le> 90" by (meson order_trans)
    then show False by simp
  qed
  then show ?thesis by (auto simp: chunks_hit_def is_alpha_def to_upper_def to_lower_def)
qed

lemma buffer_find:
  assumes "chunks_ok u" "d \<noteq> []" "length d \<le> 64 * KB_MULT"
  shows "\<exists>n. base_find (chunks_virtuals os) u d True 0 0 =
    Some (case first_delim d (chunks_content u) of Some p \<Rightarrow> (True, p) | None \<Rightarrow> (False, n))"
proof -
  have hd_at: "xs ! p = hd d" if "p + length d \<le> length xs" "segment p (length d) xs = d" for xs p
    using that assms(2) by (metis add_lessD1 hd_drop_conv_nth hd_take le_less_trans length_greater_0_conv
      less_add_same_cancel1 order_less_le_trans segment_def)
  have occ: "chunks_search.occurs_at u d True p \<longleftrightarrow> delim_at d (chunks_content u) p" for p
    using hd_at [of p "chunks_content u"]
    by (auto simp: chunks_search.occurs_at_def same_bytes_def delim_at_def chunks_hit_same)
  have lim: "(if 0 = (0 :: nat) then length (chunks_content u) else 0 + 0) = length (chunks_content u)" by simp
  obtain r where r: "base_find (chunks_virtuals os) u d True 0 0 = Some r"
    "fst r \<longrightarrow> snd r < length (chunks_content u) \<and> delim_at d (chunks_content u) (snd r) \<and>
       (\<forall>q. q < snd r \<longrightarrow> \<not> delim_at d (chunks_content u) q)"
    "\<not> fst r \<longrightarrow> (\<forall>q. q < length (chunks_content u) \<longrightarrow> \<not> delim_at d (chunks_content u) q)"
    using chunks_search.find_spec [of u d 0 0 os True] assms unfolding lim occ by auto
  show ?thesis
  proof (cases "fst r")
    case True
    with r(2) assms(2) have "first_delim d (chunks_content u) = Some (snd r)"
      by (simp add: first_delim_Some)
    with r(1) True show ?thesis by (auto simp: prod_eq_iff)
  next
    case False
    with r(3) have "first_delim d (chunks_content u) = None"
      by (simp add: first_delim_def find_index_None)
    with r(1) False show ?thesis by (auto simp: prod_eq_iff intro: exI [of _ "snd r"])
  qed
qed

text \<open>The first needle of a list that occurs, with its position.\<close>

fun first_of_list :: "byte list list \<Rightarrow> byte list \<Rightarrow> (nat \<times> byte list) option" where
  "first_of_list [] xs = None"
| "first_of_list (d # ds) xs =
     (case first_delim d xs of Some p \<Rightarrow> Some (p, d) | None \<Rightarrow> first_of_list ds xs)"

lemma first_of_list_Some:
  "first_of_list ds xs = Some (p, d) \<Longrightarrow> d \<in> set ds \<and> first_delim d xs = Some p"
  by (induction ds) (auto split: option.splits)

lemma first_of_list_le:
  "first_of_list ds xs = Some (p, d) \<Longrightarrow> \<forall>d\<in>set ds. d \<noteq> [] \<and> length d \<le> n \<Longrightarrow> p + length d \<le> length xs"
  using first_of_list_Some [of ds xs p d] first_delim_le [of d xs p] by blast

lemma buffer_find_list:
  assumes "chunks_ok u" "\<forall>d\<in>set ds. d \<noteq> [] \<and> length d \<le> 64 * KB_MULT"
  shows "base_find_list (chunks_virtuals os) u ds True 0 0 =
    Some (case first_of_list ds (chunks_content u) of Some (p, d) \<Rightarrow> ((True, p), d) | None \<Rightarrow> ((False, 0), []))"
  using assms(2)
proof (induction ds)
  case (Cons d ds)
  then obtain n where "base_find (chunks_virtuals os) u d True 0 0 =
    Some (case first_delim d (chunks_content u) of Some p \<Rightarrow> (True, p) | None \<Rightarrow> (False, n))"
    using buffer_find [OF assms(1), of d os] by auto
  with Cons show ?case by (auto split: option.splits)
qed simp

subsection \<open>Frames\<close>

lemma delimiter_frame:
  assumes s: "parseMode s = PARSE_MODE_DELIMITER" "\<not> streamEnded s" "buffer_ok (unparsedBuffer s)"
    and d: "parseDelimiter s \<noteq> []" "length (parseDelimiter s) \<le> 64 * KB_MULT"
    and buf: "buf \<noteq> []" "length (chunks_content (unparsedBuffer s)) + length buf \<le> buffer_limit (unparsedBuffer s)"
  defines "xs \<equiv> chunks_content (unparsedBuffer s) @ buf"
  obtains u pb where "buffer_ok u" "chunks_content u = xs" "chunks_same_config (unparsedBuffer s) u"
    "parsed_element os (s\<lparr>unparsedBuffer := u, parsedBuffer := pb\<rparr>) =
       Some (case first_delim (parseDelimiter s) xs of None \<Rightarrow> xs | Some p \<Rightarrow> take p xs)"
    "writeIntoParser os parse s buf =
       (case first_delim (parseDelimiter s) xs of
          None \<Rightarrow> Some (Inr (s\<lparr>unparsedBuffer := u, parsedBuffer := pb\<rparr>, True, length buf))
        | Some p \<Rightarrow> do {
            s1 \<leftarrow> run_parse parse (s\<lparr>unparsedBuffer := u, parsedBuffer := pb\<rparr>);
            s2 \<leftarrow> clear_unparsed os s1;
            Some (Inr (s2, True, add64 (sub64 p (length (chunks_content (unparsedBuffer s))))
              (length (parseDelimiter s2)))) })"
proof -
  have fits: "length (chunks_content (unparsedBuffer s)) + length buf \<le> maxSize (unparsedBuffer s)"
    using buf(2) by (simp add: buffer_limit_def)
  obtain u where u: "base_append (chunks_virtuals os) (unparsedBuffer s) buf = Some (u, True, length buf)"
    "buffer_ok u" "chunks_content u = xs" "chunks_same_config (unparsedBuffer s) u"
    using buffer_append [OF s(3) buf] unfolding xs_def by blast
  obtain n where f: "base_find (chunks_virtuals os) u (parseDelimiter s) True 0 0 =
      Some (case first_delim (parseDelimiter s) xs of Some p \<Rightarrow> (True, p) | None \<Rightarrow> (False, n))"
    using buffer_find [OF buffer_okD(1) [OF u(2)] d, of os] u(3) by auto
  let ?s1 = "s\<lparr>unparsedBuffer := u\<rparr>"
  let ?s2 = "reference_unparsed os ?s1 0 u64_max"
  have st: "stick_to_size os s buf = buf" using stick_to_size_fits [OF s(3) fits] .
  have len: "length xs \<le> u64_max" using buffer_okD(4) [OF u(2)] u(3) by (simp add: less_u64_mod_iff)
  have w: "writeIntoParser os parse s buf =
    (case first_delim (parseDelimiter s) xs of
          None \<Rightarrow> Some (Inr (?s2, True, length buf))
        | Some p \<Rightarrow> do {
            s1 \<leftarrow> run_parse parse (reference_unparsed os ?s2 0 p);
            s2 \<leftarrow> clear_unparsed os s1;
            Some (Inr (s2, True, add64 (sub64 p (length (chunks_content (unparsedBuffer s))))
              (length (parseDelimiter s2)))) })"
    using s buf u(1) f st buffer_okD(5) [OF s(3)]
    by (simp add: writeIntoParser_def parseByDelimiter_def Let_def reference_unparsed_def
        map_option_bind comp_def split: option.splits)
  show thesis
  proof (cases "first_delim (parseDelimiter s) xs")
    case None
    have "parsed_element os ?s2 = Some xs"
      using getParsedBuffer_content [of ?s1 u64_max u os] u(2,3) len by simp
    with None w u show ?thesis
      by (intro that [of u "parsedBuffer ?s2"]) (simp_all add: reference_unparsed_def)
  next
    case (Some p)
    then have "p \<le> u64_max" using first_delim_le [OF Some d(1)] len by simp
    then have "parsed_element os (reference_unparsed os ?s2 0 p) = Some (take p xs)"
      using getParsedBuffer_content [of ?s2 p u os] u(2,3) by (simp add: reference_unparsed_def)
    with Some w u show ?thesis
      by (intro that [of u "parsedBuffer (reference_unparsed os ?s2 0 p)"]) (simp_all add: reference_unparsed_def)
  qed
qed

lemma multi_delimiter_frame:
  fixes s :: "'a subparser_scheme"
  assumes s: "parseMode s = PARSE_MODE_MULTIDELIMITER" "\<not> streamEnded s" "buffer_ok (unparsedBuffer s)"
    and d: "\<forall>d\<in>set (parseMultiDelimiter s). d \<noteq> [] \<and> length d \<le> 64 * KB_MULT"
    and buf: "buf \<noteq> []" "length (chunks_content (unparsedBuffer s)) + length buf \<le> buffer_limit (unparsedBuffer s)"
  defines "xs \<equiv> chunks_content (unparsedBuffer s) @ buf"
  obtains u and pb :: "unit b_chunks_ext b_ref" where "buffer_ok u" "chunks_content u = xs" "chunks_same_config (unparsedBuffer s) u"
    "parsed_element os (s\<lparr>unparsedBuffer := u, parsedBuffer := pb\<rparr>) =
       Some (case first_of_list (parseMultiDelimiter s) xs of None \<Rightarrow> xs | Some (p, d) \<Rightarrow> take p xs)"
    "writeIntoParser os parse s buf =
       (case first_of_list (parseMultiDelimiter s) xs of
          None \<Rightarrow> Some (Inr (s\<lparr>unparsedBuffer := u, delimiterFound := [], parsedBuffer := pb\<rparr>, True, length buf))
        | Some (p, d) \<Rightarrow> do {
            s1 \<leftarrow> run_parse parse (s\<lparr>unparsedBuffer := u, delimiterFound := d, parsedBuffer := pb\<rparr>);
            s2 \<leftarrow> clear_unparsed os s1;
            Some (Inr (s2, True, sub64 (add64 p (length (delimiterFound s2)))
              (length (chunks_content (unparsedBuffer s))))) })"
proof -
  have fits: "length (chunks_content (unparsedBuffer s)) + length buf \<le> maxSize (unparsedBuffer s)"
    using buf(2) by (simp add: buffer_limit_def)
  obtain u where u: "base_append (chunks_virtuals os) (unparsedBuffer s) buf = Some (u, True, length buf)"
    "buffer_ok u" "chunks_content u = xs" "chunks_same_config (unparsedBuffer s) u"
    using buffer_append [OF s(3) buf] unfolding xs_def by blast
  have f: "base_find_list (chunks_virtuals os) u (parseMultiDelimiter s) True 0 0 =
      Some (case first_of_list (parseMultiDelimiter s) xs of Some (p, d) \<Rightarrow> ((True, p), d) | None \<Rightarrow> ((False, 0), []))"
    using buffer_find_list [OF buffer_okD(1) [OF u(2)] d, of os] u(3) by simp
  let ?s1 = "s\<lparr>unparsedBuffer := u\<rparr>"
  let ?s2 = "reference_unparsed os ?s1 0 u64_max"
  have st: "stick_to_size os s buf = buf" using stick_to_size_fits [OF s(3) fits] .
  have len: "length xs \<le> u64_max" using buffer_okD(4) [OF u(2)] u(3) by (simp add: less_u64_mod_iff)
  have w: "writeIntoParser os parse s buf =
    (case first_of_list (parseMultiDelimiter s) xs of
          None \<Rightarrow> Some (Inr (?s2\<lparr>delimiterFound := []\<rparr>, True, length buf))
        | Some (p, d) \<Rightarrow> do {
            s1 \<leftarrow> run_parse parse (reference_unparsed os (?s2\<lparr>delimiterFound := d\<rparr>) 0 p);
            s2 \<leftarrow> clear_unparsed os s1;
            Some (Inr (s2, True, sub64 (add64 p (length (delimiterFound s2)))
              (length (chunks_content (unparsedBuffer s))))) })"
    using s buf u(1) f st buffer_okD(5) [OF s(3)]
    by (simp add: writeIntoParser_def parseByMultiDelimiter_def Let_def reference_unparsed_def
        map_option_bind comp_def split: option.splits prod.splits)
  show thesis
  proof (cases "first_of_list (parseMultiDelimiter s) xs")
    case None
    have "parsed_element os ?s2 = Some xs"
      using getParsedBuffer_content [of ?s1 u64_max u os] u(2,3) len by simp
    with None w u show ?thesis
      by (intro that [of u "parsedBuffer ?s2"]) (simp_all add: reference_unparsed_def subparser_update_order)
  next
    case (Some pd)
    obtain p d where pd: "pd = (p, d)" by (cases pd)
    let ?s3 = "?s2\<lparr>delimiterFound := d\<rparr>"
    have "p \<le> u64_max" using first_of_list_le [OF Some [unfolded pd] d] len by simp
    then have "parsed_element os (reference_unparsed os ?s3 0 p) = Some (take p xs)"
      using getParsedBuffer_content [of ?s3 p u os] u(2,3) by (simp add: reference_unparsed_def subparser_update_order parsed_element_order)
    with Some pd w u show ?thesis
      by (intro that [of u "parsedBuffer (reference_unparsed os ?s3 0 p)"]) (simp_all add: reference_unparsed_def subparser_update_order parsed_element_order)
  qed
qed

subsection \<open>Properties\<close>

text \<open>C5: In delimiter mode, a write that brings the first delimiter shows \<^verbatim>\<open>parse()\<close> exactly the bytes
  before it, counted from the last frame, then empties the buffer and takes the bytes up to the end of
  the delimiter; a write that brings none keeps all its bytes. Delimiters are found byte for byte, upper and lower
  case told apart. The data of the write must fit into the buffer.\<close>

theorem delimiter_mode_frames:
  assumes "parseMode s = PARSE_MODE_DELIMITER" "\<not> streamEnded s" "buffer_ok (unparsedBuffer s)"
    "parseDelimiter s \<noteq> []" "length (parseDelimiter s) \<le> 64 * KB_MULT"
    "buf \<noteq> []" "length (chunks_content (unparsedBuffer s)) + length buf \<le> buffer_limit (unparsedBuffer s)"
    "xs = chunks_content (unparsedBuffer s) @ buf"
  shows "\<exists>s1. chunks_content (unparsedBuffer s1) = xs \<and>
    parsed_element os s1 = Some (case first_delim (parseDelimiter s) xs of None \<Rightarrow> xs | Some p \<Rightarrow> take p xs) \<and>
    writeIntoParser os parse s buf =
      (case first_delim (parseDelimiter s) xs of
         None \<Rightarrow> Some (Inr (s1, True, length buf))
       | Some p \<Rightarrow> do {
           s2 \<leftarrow> run_parse parse s1;
           s3 \<leftarrow> clear_unparsed os s2;
           Some (Inr (s3, True, add64 (sub64 p (length (chunks_content (unparsedBuffer s))))
             (length (parseDelimiter s3)))) })"
proof (rule delimiter_frame [OF assms(1-7), where os = os and parse = parse], goal_cases)
  case (1 u pb)
  then show ?case unfolding assms(8)
    by (intro exI [of _ "s\<lparr>unparsedBuffer := u, parsedBuffer := pb\<rparr>"]) simp
qed

lemma SubParser_new_ok:
  "parseMode (SubParser_new os) = PARSE_MODE_DELIMITER" "\<not> streamEnded (SubParser_new os)"
  "buffer_ok (unparsedBuffer (SubParser_new os))" "parseDelimiter (SubParser_new os) = [13, 10]"
  "chunks_content (unparsedBuffer (SubParser_new os)) = []" "buffer_limit (unparsedBuffer (SubParser_new os)) = 256 * KB_MULT"
  using chunks_new_indexed(1)
  by (simp_all add: SubParser_new_def buffer_ok_def buffer_limit_def chunks_new_def chunks_content_def b_base.extend_def
      B_Base_new_def KB_MULT_def u64_max_def u64_mod_def)

lemma first_delim_example: "first_delim [13, 10] [71, 69, 84, 13, 10, 65] = Some 3"
  by (simp add: first_delim_def delim_at_def segment_def upt_rec)

theorem delimiter_mode_frames_witness:
  "\<exists>s1. chunks_content (unparsedBuffer s1) = [71, 69, 84, 13, 10, 65] \<and>
    parsed_element (os_fine []) s1 = Some [71, 69, 84] \<and>
    writeIntoParser (os_fine []) (\<lambda>s. Some (s, PARSE_STAT_GOTO_NEXT_SUBPARSER)) (SubParser_new (os_fine [])) [71, 69, 84, 13, 10, 65] =
      do {
        s2 \<leftarrow> run_parse (\<lambda>s. Some (s, PARSE_STAT_GOTO_NEXT_SUBPARSER)) s1;
        s3 \<leftarrow> clear_unparsed (os_fine []) s2;
        Some (Inr (s3, True, add64 (sub64 3 0) (length (parseDelimiter s3)))) }"
  using delimiter_mode_frames [OF SubParser_new_ok(1-3), where os = "os_fine []" and buf = "[71, 69, 84, 13, 10, 65]"
      and parse = "\<lambda>s. Some (s, PARSE_STAT_GOTO_NEXT_SUBPARSER)" and xs = "[71, 69, 84, 13, 10, 65]"]
  by (simp add: SubParser_new_ok first_delim_example KB_MULT_def)

end
