(* ===== verification/Parser.thy ===== *)
theory Parser
  imports SubParser_Facts
begin

text \<open>
  \<^verbatim>\<open>Memory/mdz_mem_vars/parser.{h,cpp}\<close>: a protocol as a sequence of subparsers. The bytes written
  go to the current subparser until all of them are taken. The protocol (the class derived from
  \<^verbatim>\<open>Parser\<close>) is a state of type \<^verbatim>\<open>'st\<close> with a record of operations; an exception is Inl.
\<close>

subsection \<open>Definitions\<close>

record 'st protocol_ops =
  po_current :: "'st \<Rightarrow> bool"
  po_setParseStatus :: "'st \<Rightarrow> ParseStatus \<Rightarrow> 'st"
  po_writeIntoParser :: "'st \<Rightarrow> byte list \<Rightarrow> (string + 'st \<times> result) option"
  po_getParseStatus :: "'st \<Rightarrow> ParseStatus"
  po_changeToNextParser :: "'st \<Rightarrow> 'st \<times> bool"
  po_initProtocol :: "'st \<Rightarrow> 'st \<times> bool"
  po_endProtocol :: "'st \<Rightarrow> 'st"

text \<open>\<^verbatim>\<open>currentParser\<close> is in the protocol's state; \<^verbatim>\<open>po_current\<close> tells that it is not null.\<close>

record 'st parser = streamable_object +
  protocol :: 'st
  maxTTL :: nat
  initialized :: bool
  parserClientMode :: bool

definition Parser_new :: "'st \<Rightarrow> bool \<Rightarrow> 'st parser" where
  "Parser_new st cm = \<lparr>failedWriteState = 0, protocol = st, maxTTL = 4096, initialized = False, parserClientMode = cm\<rparr>"

definition setMaxTTL :: "'st parser \<Rightarrow> nat \<Rightarrow> 'st parser" where
  "setMaxTTL p value = p\<lparr>maxTTL := value\<rparr>"

datatype parser_error = PARSING_SUCCEED | PARSING_ERR_INIT | PARSING_ERR_READ | PARSING_ERR_PARSE

text \<open>What a call makes of the result of the call for the rest of the data.\<close>

definition add_written :: "nat \<Rightarrow> string + 'st \<times> result \<times> nat \<times> bool \<Rightarrow> string + 'st \<times> result \<times> nat \<times> bool" where
  "add_written n r =
     (case r of
        Inl e \<Rightarrow> Inl e
      | Inr (st, x, ttl, finished) \<Rightarrow>
          if \<not> fst x then Inr (st, x, ttl, finished)
          else Inr (st, (True, add64 (snd x) n), ttl, finished))"

text \<open>The result carries \<^verbatim>\<open>*ttl\<close> and \<^verbatim>\<open>*finished\<close>. A subparser that reports more bytes than it was
  given makes the next call read past the buffer: None.\<close>

function parseData :: "'st protocol_ops \<Rightarrow> nat \<Rightarrow> 'st \<Rightarrow> byte list \<Rightarrow> nat \<Rightarrow> bool \<Rightarrow>
  (string + 'st \<times> result \<times> nat \<times> bool) option" where
  "parseData P lim st buf ttl finished =
     (if ttl > lim then Some (Inr (st, (False, 0), ttl, finished))
      else let more = (\<lambda>st written finished.
          if length buf < snd written then None
          else if snd written \<noteq> length buf
          then map_option (add_written (snd written))
               (parseData P lim st (drop (snd written) buf) (Suc ttl) finished)
          else Some (Inr (st, written, Suc ttl, finished)))
      in if po_current P st
         then (case po_writeIntoParser P (po_setParseStatus P st PARSE_STAT_GET_MORE_DATA) buf of
             None \<Rightarrow> None
           | Some (Inl e) \<Rightarrow> Some (Inl e)
           | Some (Inr (st1, written)) \<Rightarrow>
               if \<not> fst written then Some (Inr (st1, (False, 0), Suc ttl, finished))
               else (case po_getParseStatus P st1 of
                   PARSE_STAT_GOTO_NEXT_SUBPARSER \<Rightarrow>
                     (let (st2, changed) = po_changeToNextParser P st1 in
                      if \<not> changed then Some (Inr (st2, (False, 0), Suc ttl, finished))
                      else let finished2 = (finished \<or> \<not> po_current P st2) in
                        if \<not> po_current P st2 \<or> snd written = length buf
                        then Some (Inr (st2, written, Suc ttl, finished2))
                        else more st2 written finished2)
                 | PARSE_STAT_GET_MORE_DATA \<Rightarrow>
                     if snd written = length buf then Some (Inr (st1, written, Suc ttl, finished))
                     else more st1 written finished
                 | PARSE_STAT_ERROR \<Rightarrow> Some (Inr (st1, (False, 0), Suc ttl, finished))))
         else more st (False, 0) finished)"
  by pat_completeness auto
termination
  by (relation "measure (\<lambda>(P, lim, st, buf, ttl, finished). Suc lim - ttl)") auto

declare parseData.simps [simp del]

definition Parser_write :: "'st protocol_ops \<Rightarrow> 'st parser \<Rightarrow> byte list \<Rightarrow> stream_status \<Rightarrow>
  (string + 'st parser \<times> stream_status \<times> stream_status) option" where
  "Parser_write P p buf wrStat0 =
     map_option (\<lambda>r. case r of
         Inl e \<Rightarrow> Inl e
       | Inr (st, (ok, n), ttl, finished) \<Rightarrow>
           let p1 = p\<lparr>protocol := st\<rparr>;
               ret0 = (if finished then Status_new\<lparr>finish := True\<rparr> else Status_new);
               wrStat = (if finished then wrStat0\<lparr>finish := True\<rparr> else wrStat0)
           in if \<not> ok
              then let (p2, b) = setFailedWriteState p1 1 in
                Inr (p2, ret0\<lparr>succeed := b\<rparr>, wrStat\<lparr>succeed := b\<rparr>)
              else let ret = Status_add_count ret0 n in Inr (p1, ret, Status_add wrStat ret))
       (parseData P (maxTTL p) (protocol p) buf 0 False)"

definition Parser_writeEOF :: "'st protocol_ops \<Rightarrow> 'st parser \<Rightarrow> (string + 'st parser) option" where
  "Parser_writeEOF P p =
     map_option (\<lambda>r. case r of Inl e \<Rightarrow> Inl e | Inr (st, _) \<Rightarrow> Inr (p\<lparr>protocol := st\<rparr>))
       (parseData P (maxTTL p) (protocol p) [] 0 False)"

definition Parser_streamTo :: "'st parser \<Rightarrow> stream_status \<Rightarrow> bool \<times> stream_status" where
  "Parser_streamTo p wrStat = (False, wrStat)"

text \<open>\<^verbatim>\<open>streamTo\<close> is the source object's method with this parser as its output.\<close>

definition Parser_parseObject :: "'st protocol_ops \<Rightarrow>
  ('st parser \<Rightarrow> stream_status \<Rightarrow> (string + 'st parser \<times> stream_status \<times> bool) option) \<Rightarrow>
  'st parser \<Rightarrow> (string + 'st parser \<times> stream_status \<times> parser_error) option" where
  "Parser_parseObject P streamTo p =
     (let (st, ok) = po_initProtocol P (protocol p); p1 = p\<lparr>protocol := st, initialized := ok\<rparr> in
      if \<not> ok then Some (Inr (p1, Status_new\<lparr>succeed := False\<rparr>, PARSING_ERR_INIT))
      else map_option (\<lambda>r. case r of
          Inl e \<Rightarrow> Inl e
        | Inr (p2, upd, ret) \<Rightarrow>
            let bad = (\<not> ret \<or> \<not> succeed upd);
                p3 = p2\<lparr>protocol := po_endProtocol P (protocol p2)\<rparr>
            in Inr (p3, (if bad then upd\<lparr>succeed := False\<rparr> else upd),
                 (if \<not> bad then PARSING_SUCCEED
                  else if failedWriteState p2 \<noteq> 0 then PARSING_ERR_READ else PARSING_ERR_PARSE)))
        (streamTo p1 Status_new))"

end
