(* ===== verification/LineRecv.thy ===== *)
theory LineRecv
  imports Parser
begin

text \<open>
  \<^verbatim>\<open>Protocols/mdz_proto_linerecv\<close>: a protocol of lines, over one subparser that waits for a line feed
  or a carriage return. \<^verbatim>\<open>processParsedLine\<close> is the virtual function of the user's class, on its
  state of type \<^verbatim>\<open>'u\<close>.
\<close>

subsection \<open>Definitions\<close>

record line_subparser = subparser +
  parsedString :: "byte list"

record 'u linerecv =
  lr_subParser :: line_subparser
  lr_current :: bool
  lr_user :: 'u

definition LineRecv_setMaxObjectSize :: "line_subparser \<Rightarrow> nat \<Rightarrow> line_subparser" where
  "LineRecv_setMaxObjectSize s sz = setParseDataTargetSize s (sz mod 2 ^ 32)"

definition LineRecv_SubParser_new :: "os_calls \<Rightarrow> line_subparser" where
  "LineRecv_SubParser_new os =
     (let s = subparser.extend (SubParser_new os) \<lparr>parsedString = []\<rparr>;
          s1 = setParseMultiDelimiter (setParseMode s PARSE_MODE_MULTIDELIMITER) [[10], [13]]
      in (LineRecv_setMaxObjectSize s1 65536)\<lparr>subParserName := ''LineRecv_SubParser''\<rparr>)"

definition LineRecv_parse :: "os_calls \<Rightarrow> line_subparser \<Rightarrow> (line_subparser \<times> ParseStatus) option" where
  "LineRecv_parse os s =
     map_option (\<lambda>str. (s\<lparr>parsedString := str\<rparr>, PARSE_STAT_GOTO_NEXT_SUBPARSER))
       (base_toString (ref_virtuals (chunks_virtuals os)) (getParsedBuffer s) u64_max 0)"

definition LineRecv_changeToNextParser :: "('u \<Rightarrow> byte list \<Rightarrow> 'u \<times> bool) \<Rightarrow> 'u linerecv \<Rightarrow> 'u linerecv \<times> bool" where
  "LineRecv_changeToNextParser processParsedLine l =
     (let (u, ok) = processParsedLine (lr_user l) (parsedString (lr_subParser l)); l1 = l\<lparr>lr_user := u\<rparr>
      in if \<not> ok then (l1\<lparr>lr_current := False\<rparr>, False) else (l1, True))"

definition LineRecv_writeIntoParser :: "os_calls \<Rightarrow> 'u linerecv \<Rightarrow> byte list \<Rightarrow> (string + 'u linerecv \<times> result) option" where
  "LineRecv_writeIntoParser os l buf =
     map_option (map_sum id (\<lambda>(s, r). (l\<lparr>lr_subParser := s\<rparr>, r)))
       (writeIntoParser os (LineRecv_parse os) (lr_subParser l) buf)"

definition LineRecv_ops :: "os_calls \<Rightarrow> ('u \<Rightarrow> byte list \<Rightarrow> 'u \<times> bool) \<Rightarrow> 'u linerecv protocol_ops" where
  "LineRecv_ops os processParsedLine = \<lparr>po_current = lr_current,
     po_setParseStatus = (\<lambda>l st. l\<lparr>lr_subParser := setParseStatus (lr_subParser l) st\<rparr>),
     po_writeIntoParser = LineRecv_writeIntoParser os,
     po_getParseStatus = (\<lambda>l. parseStatus (lr_subParser l)),
     po_changeToNextParser = LineRecv_changeToNextParser processParsedLine,
     po_initProtocol = (\<lambda>l. (l, True)), po_endProtocol = (\<lambda>l. l)\<rparr>"

definition LineRecv_new :: "os_calls \<Rightarrow> 'u \<Rightarrow> 'u linerecv parser" where
  "LineRecv_new os u =
     (Parser_new \<lparr>lr_subParser = LineRecv_SubParser_new os, lr_current = True, lr_user = u\<rparr> False)
       \<lparr>initialized := True\<rparr>"

definition LineRecv_setMaxLineSize :: "'u linerecv parser \<Rightarrow> nat \<Rightarrow> 'u linerecv parser" where
  "LineRecv_setMaxLineSize p maxLineSize =
     (let l = protocol p in p\<lparr>protocol := l\<lparr>lr_subParser := LineRecv_setMaxObjectSize (lr_subParser l) maxLineSize\<rparr>\<rparr>)"

end
