(* ===== verification/LineRecv_Facts.thy ===== *)
theory LineRecv_Facts
  imports LineRecv
begin

text \<open>
  What a line protocol delivers. \<^verbatim>\<open>lf_split\<close> is the specification: the complete lines of a text and
  the rest; \<^verbatim>\<open>deliver\<close> hands lines to the user until one is refused.
\<close>

subsection \<open>Specification\<close>

function lf_split :: "byte list \<Rightarrow> byte list list \<times> byte list" where
  "lf_split xs =
     (case find_index (\<lambda>x. x = 10) xs of
        None \<Rightarrow> ([], xs)
      | Some p \<Rightarrow> let (ls, r) = lf_split (drop (Suc p) xs) in (take p xs # ls, r))"
  by pat_completeness auto
termination
  by (relation "measure length") (auto simp: find_index_Some)

declare lf_split.simps [simp del]

fun deliver :: "('u \<Rightarrow> byte list \<Rightarrow> 'u \<times> bool) \<Rightarrow> 'u \<Rightarrow> byte list list \<Rightarrow> 'u \<times> bool" where
  "deliver f u [] = (u, True)"
| "deliver f u (l # ls) = (let (u', ok) = f u l in if ok then deliver f u' ls else (u', False))"

lemma lf_split_no_lf: "10 \<notin> set xs \<Longrightarrow> lf_split xs = ([], xs)"
proof -
  assume "10 \<notin> set xs"
  then have "find_index (\<lambda>x. x = 10) xs = None" by (auto simp: find_index_None)
  then show ?thesis by (simp add: lf_split.simps)
qed

lemma find_index_first: "P x \<Longrightarrow> \<forall>y\<in>set as. \<not> P y \<Longrightarrow> find_index P (as @ x # xs) = Some (length as)"
  by (induction as) auto

lemma lf_split_line: "10 \<notin> set as \<Longrightarrow> lf_split (as @ 10 # xs) = (as # fst (lf_split xs), snd (lf_split xs))"
proof -
  assume "10 \<notin> set as"
  then have "find_index (\<lambda>x. x = 10) (as @ 10 # xs) = Some (length as)" by (intro find_index_first) auto
  then show ?thesis by (simp add: lf_split.simps [of "as @ 10 # xs"] split_beta)
qed

lemma lf_cases:
  obtains (none) "10 \<notin> set xs" | (line) as bs where "xs = as @ 10 # bs" "10 \<notin> set (as :: byte list)"
  using split_list_first [of 10 xs] by blast

lemma lf_split_rest: "10 \<notin> set (snd (lf_split xs))"
proof (induction "length xs" arbitrary: xs rule: less_induct)
  case less
  show ?case
  proof (cases rule: lf_cases [of xs])
    case none
    then show ?thesis by (simp add: lf_split_no_lf)
  next
    case (line as bs)
    then show ?thesis using less [of bs] by (simp add: lf_split_line)
  qed
qed

lemma lf_split_append:
  "lf_split (xs @ ys) = (fst (lf_split xs) @ fst (lf_split (snd (lf_split xs) @ ys)), snd (lf_split (snd (lf_split xs) @ ys)))"
proof (induction "length xs" arbitrary: xs rule: less_induct)
  case less
  show ?case
  proof (cases rule: lf_cases [of xs])
    case none
    then show ?thesis by (simp add: lf_split_no_lf)
  next
    case (line as bs)
    then show ?thesis using less [of bs] by (simp add: lf_split_line)
  qed
qed

lemma deliver_append:
  "deliver f u (xs @ ys) = (let (u', ok) = deliver f u xs in if ok then deliver f u' ys else (u', False))"
  by (induction xs arbitrary: u) (auto split: prod.splits)

subsection \<open>One call of the subparser\<close>

definition lr_pending :: "'u linerecv \<Rightarrow> byte list" where
  "lr_pending l = chunks_content (unparsedBuffer (lr_subParser l))"

definition lr_limit :: "'u linerecv \<Rightarrow> nat" where
  "lr_limit l = maxSize (unparsedBuffer (lr_subParser l))"

text \<open>Every line fits into the memory chunks.\<close>

definition lr_ok :: "'u linerecv \<Rightarrow> bool" where
  "lr_ok l \<longleftrightarrow> lr_current l \<and> parseMode (lr_subParser l) = PARSE_MODE_MULTIDELIMITER \<and>
     \<not> streamEnded (lr_subParser l) \<and> parseMultiDelimiter (lr_subParser l) = [[10], [13]] \<and>
     buffer_ok (unparsedBuffer (lr_subParser l)) \<and> lr_limit l \<le> maxChunks (unparsedBuffer (lr_subParser l)) \<and>
     length (lr_pending l) \<le> lr_limit l"

lemma first_delim_single: "first_delim [c] xs = find_index (\<lambda>x. x = c) xs"
proof -
  have "delim_at [c] xs p \<longleftrightarrow> p < length xs \<and> xs ! p = c" for p
    by (auto simp: delim_at_def segment_def)
       (simp_all add: take_Suc_conv_app_nth hd_drop_conv_nth)
  then have d: "first_delim [c] xs = None \<longleftrightarrow> (\<forall>p<length xs. xs ! p \<noteq> c)"
      "first_delim [c] xs = Some p \<longleftrightarrow> p < length xs \<and> xs ! p = c \<and> (\<forall>q<p. xs ! q \<noteq> c)" for p
    by (auto simp: first_delim_None first_delim_Some)
  show ?thesis
  proof (cases "find_index (\<lambda>x. x = c) xs")
    case None
    then have "first_delim [c] xs = None" unfolding d find_index_None using nth_mem by blast
    with None show ?thesis by simp
  next
    case (Some p)
    then have "first_delim [c] xs = Some p" unfolding d find_index_Some by auto
    with Some show ?thesis by simp
  qed
qed

lemma stick_to_size_idem: "stick_to_size os s (stick_to_size os s buf) = stick_to_size os s buf"
  by (auto simp: stick_to_size_def)

lemma stick_to_size_Nil_iff: "stick_to_size os s buf = [] \<longleftrightarrow> buf = []"
  by (auto simp: stick_to_size_def)

lemma write_sticks:
  assumes "parseMode s = PARSE_MODE_MULTIDELIMITER"
  shows "writeIntoParser os parse s (stick_to_size os s buf) = writeIntoParser os parse s buf"
proof -
  have "stick_to_size os (s\<lparr>streamEnded := b\<rparr>) = stick_to_size os s" for b
    by (simp add: stick_to_size_def getLeftToparse_def fun_eq_iff)
  then show ?thesis using assms
    by (simp add: writeIntoParser_def parseByMultiDelimiter_def Let_def stick_to_size_idem stick_to_size_Nil_iff)
qed

definition lr_same :: "'u linerecv \<Rightarrow> 'u linerecv \<Rightarrow> bool" where
  "lr_same l l' \<longleftrightarrow> lr_user l' = lr_user l \<and> lr_limit l' = lr_limit l"

lemma sub64_add: "n \<le> p + k \<Longrightarrow> p + k < u64_mod \<Longrightarrow> sub64 (add64 p k) n = p + k - n"
  by (simp add: add64_eq sub64_eq)

lemma LineRecv_step:
  fixes l :: "'u linerecv" and os and f :: "'u \<Rightarrow> byte list \<Rightarrow> 'u \<times> bool"
  assumes l: "lr_ok l" and buf: "buf \<noteq> []" "length (lr_pending l) < lr_limit l"
    and no: "\<forall>c\<in>{10, 13}. c \<notin> set (lr_pending l)"
  defines "xs \<equiv> lr_pending l @ take (lr_limit l - length (lr_pending l)) buf"
  defines "P \<equiv> LineRecv_ops os f"
  obtains (more) l' where "first_of_list [[10], [13]] xs = None" "lr_ok l'" "lr_same l l'" "lr_pending l' = xs"
      "po_writeIntoParser P (po_setParseStatus P l PARSE_STAT_GET_MORE_DATA) buf =
         Some (Inr (l', True, length xs - length (lr_pending l)))"
      "po_getParseStatus P l' = PARSE_STAT_GET_MORE_DATA"
  | (line) l' p d where "first_of_list [[10], [13]] xs = Some (p, d)" "lr_ok l'" "lr_same l l'" "lr_pending l' = []"
      "po_writeIntoParser P (po_setParseStatus P l PARSE_STAT_GET_MORE_DATA) buf =
         Some (Inr (l', True, p + 1 - length (lr_pending l)))"
      "po_getParseStatus P l' = PARSE_STAT_GOTO_NEXT_SUBPARSER" "parsedString (lr_subParser l') = take p xs"
proof -
  let ?l = "po_setParseStatus P l PARSE_STAT_GET_MORE_DATA"
  let ?s = "lr_subParser ?l"
  let ?b = "take (lr_limit l - length (lr_pending l)) buf"
  have s: "parseMode ?s = PARSE_MODE_MULTIDELIMITER" "\<not> streamEnded ?s" "buffer_ok (unparsedBuffer ?s)"
    "parseMultiDelimiter ?s = [[10], [13]]" "chunks_content (unparsedBuffer ?s) = lr_pending l"
    "maxSize (unparsedBuffer ?s) = lr_limit l" "lr_limit l \<le> maxChunks (unparsedBuffer ?s)"
    "parseStatus ?s = PARSE_STAT_GET_MORE_DATA" "lr_current ?l"
    using l by (simp_all add: P_def LineRecv_ops_def setParseStatus_def lr_ok_def lr_pending_def lr_limit_def)
  have b: "?b \<noteq> []" "length (chunks_content (unparsedBuffer ?s)) + length ?b \<le> buffer_limit (unparsedBuffer ?s)"
    using buf s(5-7) by (auto simp: buffer_limit_def)
  have st: "stick_to_size os ?s buf = ?b"
    using buf(2) s(3,5,6) by (simp add: stick_to_size_def getLeftToparse_def base_getSizeLeft_def buffer_okD)
  have d: "\<forall>d\<in>set (parseMultiDelimiter ?s). d \<noteq> [] \<and> length d \<le> 64 * KB_MULT"
    using s(4) by (simp add: KB_MULT_def)
  have lenxs: "length xs \<le> lr_limit l" using buf(2) by (simp add: xs_def)
  obtain u and pb :: "unit b_chunks_ext b_ref" where u: "buffer_ok u" "chunks_content u = xs"
    "chunks_same_config (unparsedBuffer ?s) u"
    "parsed_element os (?s\<lparr>unparsedBuffer := u, parsedBuffer := pb\<rparr>) =
       Some (case first_of_list [[10], [13]] xs of None \<Rightarrow> xs | Some (p, d) \<Rightarrow> take p xs)"
    "writeIntoParser os (LineRecv_parse os) ?s ?b =
       (case first_of_list [[10], [13]] xs of
          None \<Rightarrow> Some (Inr (?s\<lparr>unparsedBuffer := u, delimiterFound := [], parsedBuffer := pb\<rparr>, True, length ?b))
        | Some (p, d) \<Rightarrow> do {
            s1 \<leftarrow> run_parse (LineRecv_parse os) (?s\<lparr>unparsedBuffer := u, delimiterFound := d, parsedBuffer := pb\<rparr>);
            s2 \<leftarrow> clear_unparsed os s1;
            Some (Inr (s2, True, sub64 (add64 p (length (delimiterFound s2))) (length (lr_pending l)))) })"
  proof (rule multi_delimiter_frame [OF s(1-3) d b, where os = os and parse = "LineRecv_parse os", unfolded s(4,5) xs_def [symmetric]], goal_cases)
    case (1 u pb)
    show ?thesis by (rule that [of u pb]) (fact 1)+
  qed
  have w: "po_writeIntoParser P ?l buf =
      map_option (map_sum id (\<lambda>(s, r). (?l\<lparr>lr_subParser := s\<rparr>, r))) (writeIntoParser os (LineRecv_parse os) ?s ?b)"
    using write_sticks [OF s(1), of os "LineRecv_parse os" buf] st
    by (simp add: P_def LineRecv_ops_def LineRecv_writeIntoParser_def)
  have cfg: "maxSize u = lr_limit l" "maxChunks u = maxChunks (unparsedBuffer ?s)"
    using u(3) s(6) by (simp_all add: chunks_same_config_def)
  show thesis
  proof (cases "first_of_list [[10], [13]] xs")
    case None
    let ?l' = "?l\<lparr>lr_subParser := ?s\<lparr>unparsedBuffer := u, delimiterFound := [], parsedBuffer := pb\<rparr>\<rparr>"
    have "po_writeIntoParser P ?l buf = Some (Inr (?l', True, length xs - length (lr_pending l)))"
      using None w u(5) by (simp add: xs_def)
    moreover have "lr_ok ?l'" "lr_same l ?l'" "lr_pending ?l' = xs" "po_getParseStatus P ?l' = PARSE_STAT_GET_MORE_DATA"
      using s u cfg lenxs
      by (simp_all add: lr_ok_def lr_same_def lr_pending_def lr_limit_def P_def LineRecv_ops_def)
    ultimately show ?thesis using None by (intro more [of ?l']) simp_all
  next
    case (Some pd)
    obtain p d where pd: "pd = (p, d)" by (cases pd)
    let ?s1 = "?s\<lparr>unparsedBuffer := u, delimiterFound := d, parsedBuffer := pb\<rparr>"
    have "d \<in> set [[10], [13]]" "first_delim d xs = Some p" using first_of_list_Some Some pd by metis+
    then have p: "length d = 1" "p < length xs" "xs ! p \<in> {10, 13}"
      by (auto simp: first_delim_single find_index_Some)
    have "length (lr_pending l) \<le> p"
    proof (rule ccontr)
      assume "\<not> length (lr_pending l) \<le> p"
      then have "xs ! p \<in> set (lr_pending l)" by (simp add: xs_def nth_append)
      with p(3) no show False by auto
    qed
    then have n: "sub64 (add64 p 1) (length (lr_pending l)) = p + 1 - length (lr_pending l)"
      using p(2) lenxs buffer_okD(6) [OF u(1)] cfg(1) by (intro sub64_add) auto
    have el: "parsed_element os ?s1 = Some (take p xs)" using u(4) Some pd by (simp add: parsed_element_order)
    let ?s2 = "setParseStatus (?s1\<lparr>parsedString := take p xs\<rparr>) PARSE_STAT_GOTO_NEXT_SUBPARSER"
    have r: "run_parse (LineRecv_parse os) ?s1 = Some ?s2"
      using el by (simp add: run_parse_def LineRecv_parse_def parsed_element_def)
    obtain u' where u': "base_clear (chunks_virtuals os) u = Some (u', True)" "buffer_ok u'" "chunks_content u' = []"
      "chunks_same_config u u'" using buffer_clear [OF u(1)] by blast
    let ?s3 = "?s2\<lparr>unparsedBuffer := u'\<rparr>"
    have c: "clear_unparsed os ?s2 = Some ?s3" using u'(1) by (simp add: clear_unparsed_def setParseStatus_def)
    let ?l' = "?l\<lparr>lr_subParser := ?s3\<rparr>"
    have "po_writeIntoParser P ?l buf = Some (Inr (?l', True, p + 1 - length (lr_pending l)))"
      using Some pd w u(5) r c n p(1) by (simp add: setParseStatus_def)
    moreover have "lr_ok ?l'" "lr_same l ?l'" "lr_pending ?l' = []" "po_getParseStatus P ?l' = PARSE_STAT_GOTO_NEXT_SUBPARSER"
      "parsedString (lr_subParser ?l') = take p xs"
      using s u' cfg
      by (simp_all add: lr_ok_def lr_same_def lr_pending_def lr_limit_def P_def LineRecv_ops_def setParseStatus_def
          chunks_same_config_def)
    ultimately show ?thesis using Some pd by (intro line [of p d ?l']) simp_all
  qed
qed

subsection \<open>A write\<close>

lemma first_of_list_lf:
  "13 \<notin> set xs \<Longrightarrow> first_of_list [[10], [13]] xs = map_option (\<lambda>p. (p, [10])) (find_index (\<lambda>x. x = 10) xs)"
  using find_index_None [of "\<lambda>x. x = 13" xs] by (auto simp: first_delim_single split: option.splits)

lemma first_of_list_none:
  assumes "10 \<notin> set xs" "13 \<notin> set xs"
  shows "first_of_list [[10], [13]] xs = None"
proof -
  have "find_index (\<lambda>x. x = 10) xs = None" using assms(1) by (auto simp: find_index_None)
  then show ?thesis using first_of_list_lf [OF assms(2)] by simp
qed

lemma LineRecv_ops_simps [simp]:
  "po_current (LineRecv_ops os f) l = lr_current l"
  "po_changeToNextParser (LineRecv_ops os f) = LineRecv_changeToNextParser f"
  by (simp_all add: LineRecv_ops_def)

lemma lr_same_setStatus [simp]:
  "lr_user (po_setParseStatus (LineRecv_ops os f) l st) = lr_user l"
  by (simp add: LineRecv_ops_def)

lemma lr_user_update [simp]:
  "lr_ok (l\<lparr>lr_user := u\<rparr>) = lr_ok l" "lr_pending (l\<lparr>lr_user := u\<rparr>) = lr_pending l"
  "lr_limit (l\<lparr>lr_user := u\<rparr>) = lr_limit l"
  by (simp_all add: lr_ok_def lr_pending_def lr_limit_def)

lemma lr_ok_current: "lr_ok l \<Longrightarrow> lr_current l"
  by (simp add: lr_ok_def)

text \<open>One call: either a line is completed and handed to the user, or all the data is kept.\<close>

lemma parseData_line:
  fixes l :: "'u linerecv"
  assumes l: "lr_ok l" "\<forall>c\<in>{10, 13}. c \<notin> set (lr_pending l)" "length (lr_pending l) < lr_limit l"
    and d: "data \<noteq> []" "ttl \<le> lim"
    and p: "first_of_list [[10], [13]] (lr_pending l @ take (lr_limit l - length (lr_pending l)) data) = Some (p, d)"
    and f: "f (lr_user l) (take p (lr_pending l @ data)) = (u1, ok)"
  defines "n \<equiv> p + 1 - length (lr_pending l)"
  obtains l1 where "lr_ok l1" "lr_pending l1 = []" "lr_limit l1 = lr_limit l" "lr_user l1 = u1"
    "parseData (LineRecv_ops os f) lim l data ttl fin =
      (if \<not> ok then Some (Inr (l1\<lparr>lr_current := False\<rparr>, (False, 0), Suc ttl, fin))
       else if n = length data then Some (Inr (l1, (True, n), Suc ttl, fin))
       else map_option (add_written n)
               (parseData (LineRecv_ops os f) lim l1 (drop n data) (Suc ttl) fin))"
proof -
  let ?xs = "lr_pending l @ take (lr_limit l - length (lr_pending l)) data"
  have "d \<in> set [[10], [13]]" "first_delim d ?xs = Some p" using first_of_list_Some [OF p] by auto
  then have "p < length ?xs" by (auto simp: first_delim_single find_index_Some)
  then have tk: "take p ?xs = take p (lr_pending l @ data)" and n: "n \<le> length data"
    using l(3) by (auto simp: n_def min_def split: if_splits)
  show thesis
  proof (rule LineRecv_step [OF l(1) d(1) l(3,2), where os = os and f = f], goal_cases)
    case (1 l')
    with p show ?case by simp
  next
    case (2 l' p' d')
    then have l': "p' = p" "lr_user l' = lr_user l" "lr_limit l' = lr_limit l" using p by (simp_all add: lr_same_def)
    let ?l1 = "l'\<lparr>lr_user := u1\<rparr>"
    have c: "LineRecv_changeToNextParser f l' =
        (if \<not> ok then (?l1\<lparr>lr_current := False\<rparr>, False) else (?l1, True))"
      using f l' 2(7) tk by (simp add: LineRecv_changeToNextParser_def)
    show ?case
    proof (rule that [of ?l1])
      show "lr_ok ?l1" "lr_pending ?l1 = []" "lr_limit ?l1 = lr_limit l" "lr_user ?l1 = u1" using 2 l' by simp_all
      show "parseData (LineRecv_ops os f) lim l data ttl fin =
      (if \<not> ok then Some (Inr (?l1\<lparr>lr_current := False\<rparr>, (False, 0), Suc ttl, fin))
       else if n = length data then Some (Inr (?l1, (True, n), Suc ttl, fin))
       else map_option (add_written n)
               (parseData (LineRecv_ops os f) lim ?l1 (drop n data) (Suc ttl) fin))"
        using 2(5,6) l' lr_ok_current [OF l(1)] lr_ok_current [OF 2(2)] c n d(2)
        by (subst parseData.simps) (auto simp: n_def Let_def)
    qed
  qed
qed

text \<open>Text without carriage returns is cut at its line feeds.\<close>

lemma parseData_lf_line:
  fixes l :: "'u linerecv"
  assumes l: "lr_ok l" "10 \<notin> set (lr_pending l)" "13 \<notin> set (lr_pending l @ data)" "data \<noteq> []"
    and xs: "lr_pending l @ data = a @ 10 # bs" "10 \<notin> set a" and a: "length a < lr_limit l"
    and tl: "ttl \<le> lim" and f: "f (lr_user l) a = (u1, ok)"
  obtains l1 where "lr_ok l1" "lr_pending l1 = []" "lr_limit l1 = lr_limit l" "lr_user l1 = u1"
    "length bs < length data" "13 \<notin> set bs"
    "parseData (LineRecv_ops os f) lim l data ttl fin =
      (if \<not> ok then Some (Inr (l1\<lparr>lr_current := False\<rparr>, (False, 0), Suc ttl, fin))
       else if bs = [] then Some (Inr (l1, (True, length data), Suc ttl, fin))
       else map_option (add_written (length data - length bs)) (parseData (LineRecv_ops os f) lim l1 bs (Suc ttl) fin))"
proof -
  let ?n = "length a + 1 - length (lr_pending l)"
  have pend: "length (lr_pending l) \<le> length a"
  proof (rule ccontr)
    assume "\<not> length (lr_pending l) \<le> length a"
    then have "(lr_pending l @ data) ! length a \<in> set (lr_pending l)" by (simp add: nth_append)
    then show False using xs(1) l(2) by simp
  qed
  have "lr_pending l @ take (lr_limit l - length (lr_pending l)) data = take (lr_limit l) (lr_pending l @ data)"
    using pend a by simp
  also have "\<dots> = a @ 10 # take (lr_limit l - length a - 1) bs"
    unfolding xs(1) using a by (simp add: take_Cons')
  finally have eq: "lr_pending l @ take (lr_limit l - length (lr_pending l)) data = a @ 10 # take (lr_limit l - length a - 1) bs" .
  have cr: "13 \<notin> set (a @ 10 # bs)" using l(3) xs(1) by simp
  then have "13 \<notin> set (a @ 10 # take (lr_limit l - length a - 1) bs)" by (auto dest: in_set_takeD)
  moreover have "find_index (\<lambda>x. x = 10) (a @ 10 # take (lr_limit l - length a - 1) bs) = Some (length a)"
    using xs(2) by (intro find_index_first) auto
  ultimately have p: "first_of_list [[10], [13]] (lr_pending l @ take (lr_limit l - length (lr_pending l)) data) =
      Some (length a, [10])"
    unfolding eq by (simp add: first_of_list_lf del: first_of_list.simps)
  have f': "f (lr_user l) (take (length a) (lr_pending l @ data)) = (u1, ok)" using xs(1) f by simp
  have no: "\<forall>c\<in>{10, 13}. c \<notin> set (lr_pending l)" using l(2,3) by simp
  have lt: "length (lr_pending l) < lr_limit l" using pend a by simp
  have "drop (Suc (length a)) (lr_pending l @ data) = bs" unfolding xs(1) by simp
  then have d: "drop ?n data = bs" using pend by simp
  have "length (lr_pending l) + length data = Suc (length a) + length bs" using arg_cong [OF xs(1), of length] by simp
  then have len: "length data = ?n + length bs" "length bs < length data" using pend by auto
  have n: "?n = length data \<longleftrightarrow> bs = []" "?n = length data - length bs" unfolding len(1) by simp_all
  show thesis
  proof (rule parseData_line [where f = f and ttl = ttl and lim = lim and os = os and fin = fin,
        OF l(1) no lt l(4) tl p f'], goal_cases)
    case (1 l1)
    then show ?case using d n len(2) cr by (intro that [of l1]) auto
  qed
qed

lemma lf_split_ConsD:
  assumes "lf_split xs = (a # ls, r)"
  obtains bs where "xs = a @ 10 # bs" "10 \<notin> set a" "lf_split bs = (ls, r)"
  using assms by (cases rule: lf_cases [of xs]) (auto simp: lf_split_no_lf lf_split_line)

lemma lf_split_NilD: "lf_split xs = ([], r) \<Longrightarrow> 10 \<notin> set xs \<and> r = xs"
  by (cases rule: lf_cases [of xs]) (auto simp: lf_split_no_lf lf_split_line)

lemma parseData_lines:
  fixes l :: "'u linerecv"
  shows "lr_ok l \<Longrightarrow> 10 \<notin> set (lr_pending l) \<Longrightarrow> 13 \<notin> set (lr_pending l @ data) \<Longrightarrow> data \<noteq> [] \<Longrightarrow> length data < u64_mod \<Longrightarrow>
    lf_split (lr_pending l @ data) = (ls, r) \<Longrightarrow> \<forall>x\<in>set ls. length x < lr_limit l \<Longrightarrow> length r \<le> lr_limit l \<Longrightarrow>
    ttl + length ls \<le> lim \<Longrightarrow> deliver f (lr_user l) ls = (u', ok) \<Longrightarrow>
    \<exists>l' n ttl'. parseData (LineRecv_ops os f) lim l data ttl fin = Some (Inr (l', (ok, n), ttl', fin)) \<and> lr_user l' = u' \<and>
      (ok \<longrightarrow> n = length data \<and> lr_ok l' \<and> lr_pending l' = r \<and> lr_limit l' = lr_limit l)"
proof (induction ls arbitrary: l data ttl)
  case Nil
  let ?P = "LineRecv_ops os f"
  have no: "10 \<notin> set (lr_pending l @ data)" and r: "r = lr_pending l @ data"
    using lf_split_NilD [OF Nil.prems(6)] by simp_all
  have le: "length data \<le> lr_limit l - length (lr_pending l)" "length (lr_pending l) < lr_limit l"
    using Nil.prems(4,8) r by (cases data; simp)+
  have none: "first_of_list [[10], [13]] (lr_pending l @ data) = None"
    using no Nil.prems(3) by (rule first_of_list_none)
  show ?case
  proof (rule LineRecv_step [OF Nil.prems(1,4) le(2), where os = os and f = f], goal_cases)
    case 1
    then show ?case using Nil.prems(2,3) by simp
  next
    case (2 l')
    then have "parseData ?P lim l data ttl fin = Some (Inr (l', (True, length data), Suc ttl, fin))"
      using le lr_ok_current [OF Nil.prems(1)] Nil.prems(9) by (subst parseData.simps) simp
    with 2 le r Nil.prems(10) show ?case by (simp add: lr_same_def)
  next
    case (3 l' p d)
    with none le show ?case by simp
  qed
next
  case (Cons a ls)
  let ?P = "LineRecv_ops os f"
  obtain bs where xs: "lr_pending l @ data = a @ 10 # bs" "10 \<notin> set a" "lf_split bs = (ls, r)"
    using lf_split_ConsD [OF Cons.prems(6)] .
  obtain u1 ok1 where f: "f (lr_user l) a = (u1, ok1)" by (cases "f (lr_user l) a")
  have tl: "ttl \<le> lim" "length a < lr_limit l" using Cons.prems(7,9) by simp_all
  note d = Cons.prems(10) [simplified, unfolded f]
  obtain l1 where l1: "lr_ok l1" "lr_pending l1 = []" "lr_limit l1 = lr_limit l" "lr_user l1 = u1"
    "length bs < length data" "13 \<notin> set bs"
    "parseData ?P lim l data ttl fin =
      (if \<not> ok1 then Some (Inr (l1\<lparr>lr_current := False\<rparr>, (False, 0), Suc ttl, fin))
       else if bs = [] then Some (Inr (l1, (True, length data), Suc ttl, fin))
       else map_option (add_written (length data - length bs)) (parseData ?P lim l1 bs (Suc ttl) fin))"
    using parseData_lf_line [where f = f and os = os and fin = fin, OF Cons.prems(1-4) xs(1,2) tl(2,1) f] .
  show ?case
  proof (cases "\<not> ok1 \<or> bs = []")
    case True
    moreover have "ls = []" "r = []" if "bs = []" using xs(3) that by (simp_all add: lf_split_no_lf)
    ultimately show ?thesis using l1 d by (cases ok1) auto
  next
    case False
    then obtain l' n' ttl' where r: "parseData ?P lim l1 bs (Suc ttl) fin = Some (Inr (l', (ok, n'), ttl', fin))"
      "lr_user l' = u'" "ok \<longrightarrow> n' = length bs \<and> lr_ok l' \<and> lr_pending l' = r \<and> lr_limit l' = lr_limit l1"
      using Cons.IH [of l1 bs "Suc ttl"] l1 xs(3) Cons.prems(5,7-9) d by auto
    with l1 False Cons.prems(5) show ?thesis by (cases ok) (auto simp: add_written_def add64_eq)
  qed
qed

text \<open>When there are more lines than calls, the lines of the calls made are delivered and the write
  fails.\<close>

lemma parseData_ttl:
  fixes l :: "'u linerecv"
  shows "lr_ok l \<Longrightarrow> 10 \<notin> set (lr_pending l) \<Longrightarrow> 13 \<notin> set (lr_pending l @ data) \<Longrightarrow> data \<noteq> [] \<Longrightarrow>
    lf_split (lr_pending l @ data) = (ls @ m # ms, r) \<Longrightarrow> \<forall>x\<in>set (ls @ m # ms). length x < lr_limit l \<Longrightarrow>
    ttl + length ls = Suc lim \<Longrightarrow> deliver f (lr_user l) ls = (u', True) \<Longrightarrow>
    \<exists>l' n ttl'. parseData (LineRecv_ops os f) lim l data ttl fin = Some (Inr (l', (False, n), ttl', fin)) \<and> lr_user l' = u'"
proof (induction ls arbitrary: l data ttl)
  case Nil
  then show ?case by (subst parseData.simps) simp
next
  case (Cons a ls)
  let ?P = "LineRecv_ops os f"
  obtain bs where xs: "lr_pending l @ data = a @ 10 # bs" "10 \<notin> set a" "lf_split bs = (ls @ m # ms, r)"
    using lf_split_ConsD [OF Cons.prems(5) [unfolded append_Cons]] .
  obtain u1 where f: "f (lr_user l) a = (u1, True)" "deliver f u1 ls = (u', True)"
    using Cons.prems(8) by (auto split: prod.splits if_splits)
  have tl: "ttl \<le> lim" "length a < lr_limit l" using Cons.prems(6,7) by simp_all
  have bs: "bs \<noteq> []" using xs(3) by (auto simp: lf_split_no_lf)
  obtain l1 where l1: "lr_ok l1" "lr_pending l1 = []" "lr_limit l1 = lr_limit l" "lr_user l1 = u1" "13 \<notin> set bs"
    "parseData ?P lim l data ttl fin =
      map_option (add_written (length data - length bs)) (parseData ?P lim l1 bs (Suc ttl) fin)"
    using parseData_lf_line [where f = f and os = os and fin = fin, OF Cons.prems(1-4) xs(1,2) tl(2,1) f(1)] bs by auto
  then obtain l' n ttl' where "parseData ?P lim l1 bs (Suc ttl) fin = Some (Inr (l', (False, n), ttl', fin))" "lr_user l' = u'"
    using Cons.IH [of l1 bs "Suc ttl"] bs xs(3) Cons.prems(6,7) f(2) by auto
  with l1 show ?case by (simp add: add_written_def)
qed

lemma lf_split_set: "set (snd (lf_split xs)) \<subseteq> set xs"
proof (induction "length xs" arbitrary: xs rule: less_induct)
  case less
  show ?case
  proof (cases rule: lf_cases [of xs])
    case none
    then show ?thesis by (simp add: lf_split_no_lf)
  next
    case (line as bs)
    then show ?thesis using less [of bs] by (auto simp: lf_split_line)
  qed
qed

lemma lf_split_prefix:
  assumes "10 \<notin> set xs" "lf_split (xs @ ys) = (l # ls, r)"
  shows "length xs \<le> length l"
proof (rule ccontr)
  obtain bs where e: "xs @ ys = l @ 10 # bs" using lf_split_ConsD [OF assms(2)] .
  assume "\<not> length xs \<le> length l"
  then have "(xs @ ys) ! length l \<in> set xs" by (simp add: nth_append)
  then show False using e assms(1) by simp
qed

text \<open>A full buffer refuses more data and is emptied.\<close>

lemma LineRecv_full:
  fixes l :: "'u linerecv"
  assumes l: "lr_ok l" "length (lr_pending l) = lr_limit l" and buf: "buf \<noteq> []" "length buf < u64_mod"
  obtains l' where "po_writeIntoParser (LineRecv_ops os f) (po_setParseStatus (LineRecv_ops os f) l PARSE_STAT_GET_MORE_DATA) buf =
      Some (Inr (l', False, 0))" "lr_user l' = lr_user l" "lr_pending l' = []"
proof -
  let ?l = "po_setParseStatus (LineRecv_ops os f) l PARSE_STAT_GET_MORE_DATA"
  let ?s = "lr_subParser ?l"
  have s: "parseMode ?s = PARSE_MODE_MULTIDELIMITER" "buffer_ok (unparsedBuffer ?s)"
    "chunks_content (unparsedBuffer ?s) = lr_pending l" "maxSize (unparsedBuffer ?s) = lr_limit l"
    using l by (simp_all add: LineRecv_ops_def setParseStatus_def lr_ok_def lr_pending_def lr_limit_def)
  have left: "getLeftToparse os ?s = 0"
    using s l(2) by (simp add: getLeftToparse_def base_getSizeLeft_def buffer_okD)
  have a: "base_append (chunks_virtuals os) (unparsedBuffer ?s) buf = Some (unparsedBuffer ?s, False, 0)"
    using s l(2) buf by (intro buffer_append_refused) simp_all
  obtain u' where u': "base_clear (chunks_virtuals os) (unparsedBuffer ?s) = Some (u', True)" "chunks_content u' = []"
    using buffer_clear [OF s(2)] by blast
  have "writeIntoParser os (LineRecv_parse os) ?s buf = Some (Inr (?s\<lparr>unparsedBuffer := u'\<rparr>, False, 0))"
    using s(1) buf(1) left a u'(1)
    by (simp add: writeIntoParser_def parseByMultiDelimiter_def Let_def stick_to_size_def clear_unparsed_def)
  then show thesis
    using u'(2) by (intro that [of "?l\<lparr>lr_subParser := ?s\<lparr>unparsedBuffer := u'\<rparr>\<rparr>"])
      (simp_all add: LineRecv_ops_def LineRecv_writeIntoParser_def lr_pending_def)
qed

lemma parseData_too_long:
  fixes l :: "'u linerecv"
  assumes l: "lr_ok l" "length (lr_pending l) < lr_limit l" and no: "\<forall>c\<in>{10, 13}. c \<notin> set (lr_pending l @ data)"
    and d: "lr_limit l < length (lr_pending l) + length data" "length data < u64_mod" and tl: "ttl < lim"
  shows "\<exists>l' ttl'. parseData (LineRecv_ops os f) lim l data ttl fin = Some (Inr (l', (False, 0), ttl', fin)) \<and>
    lr_user l' = lr_user l \<and> lr_pending l' = []"
proof -
  let ?P = "LineRecv_ops os f" and ?xs = "lr_pending l @ take (lr_limit l - length (lr_pending l)) data"
  have ne: "data \<noteq> []" using d(1) l(2) by auto
  have no': "\<forall>c\<in>{10, 13}. c \<notin> set (lr_pending l)" using no by simp
  have "\<forall>c\<in>{10, 13}. c \<notin> set ?xs" using no by (auto dest: in_set_takeD)
  then have none: "first_of_list [[10], [13]] ?xs = None" by (intro first_of_list_none) simp_all
  have len: "length ?xs = lr_limit l" using l(2) d(1) by simp
  show ?thesis
  proof (rule LineRecv_step [OF l(1) ne l(2) no', where os = os and f = f], goal_cases)
    case (1 l1)
    let ?n = "lr_limit l - length (lr_pending l)"
    have l1: "length (lr_pending l1) = lr_limit l1" "drop ?n data \<noteq> []" "length (drop ?n data) < u64_mod" "?n < length data"
      "lr_user l1 = lr_user l"
      using 1 len d l(2) by (simp_all add: lr_same_def)
    obtain l2 where l2: "po_writeIntoParser ?P (po_setParseStatus ?P l1 PARSE_STAT_GET_MORE_DATA) (drop ?n data) =
      Some (Inr (l2, False, 0))" "lr_user l2 = lr_user l1" "lr_pending l2 = []"
      using LineRecv_full [OF 1(2) l1(1-3), where os = os and f = f] .
    have "parseData ?P lim l1 (drop ?n data) (Suc ttl) fin = Some (Inr (l2, (False, 0), Suc (Suc ttl), fin))"
      using l2(1) lr_ok_current [OF 1(2)] tl by (subst parseData.simps) simp
    then have "parseData ?P lim l data ttl fin = Some (Inr (l2, (False, 0), Suc (Suc ttl), fin))"
      using 1(5,6) len l1(4) lr_ok_current [OF l(1)] tl by (subst parseData.simps) (simp add: add_written_def)
    with l1(5) l2 show ?case by auto
  next
    case (2 l' p d)
    with none show ?case by simp
  qed
qed

subsection \<open>Properties\<close>

lemma Parser_write_result:
  assumes "parseData P (maxTTL p) (protocol p) data 0 False = Some (Inr (st, (ok, n), ttl, False))"
  shows "Parser_write P p data upd = Some (Inr
    (if ok then (p\<lparr>protocol := st\<rparr>, Status_add_count Status_new n, Status_add upd (Status_add_count Status_new n))
     else (p\<lparr>protocol := st, failedWriteState := 1\<rparr>, Status_new\<lparr>succeed := False\<rparr>, upd\<lparr>succeed := False\<rparr>)))"
  using assms by (cases ok) (simp_all add: Parser_write_def setFailedWriteState_def Let_def)

lemma LineRecv_new_ok:
  "lr_ok (protocol (LineRecv_new os u))" "lr_pending (protocol (LineRecv_new os u)) = []"
  "lr_limit (protocol (LineRecv_new os u)) = 65536" "lr_user (protocol (LineRecv_new os u)) = u"
  "maxTTL (LineRecv_new os u) = 4096"
proof -
  let ?u = "unparsedBuffer (lr_subParser (protocol (LineRecv_new os u)))"
  note defs = LineRecv_new_def Parser_new_def LineRecv_SubParser_new_def Let_def LineRecv_setMaxObjectSize_def
    setParseDataTargetSize_def setParseMode_def setParseMultiDelimiter_def subparser.extend_def SubParser_new_def
  have u: "?u = chunks_new\<lparr>maxSize := 65536\<rparr>" by (simp add: defs)
  have "buffer_ok ?u" "chunks_content ?u = []" "maxChunks ?u = 262144"
    unfolding u using chunks_new_indexed(1)
    by (simp_all add: buffer_ok_def chunks_indexed_def chunks_ok_def chunks_content_def chunks_new_def b_base.extend_def
        B_Base_new_def KB_MULT_def u64_mod_def)
  then show "lr_ok (protocol (LineRecv_new os u))" "lr_pending (protocol (LineRecv_new os u)) = []"
    "lr_limit (protocol (LineRecv_new os u)) = 65536"
    unfolding lr_ok_def lr_pending_def lr_limit_def u by (simp_all add: defs)
  show "lr_user (protocol (LineRecv_new os u)) = u" "maxTTL (LineRecv_new os u) = 4096" by (simp_all add: defs)
qed

lemma Parser_write_lines:
  assumes "lr_ok (protocol p)" "10 \<notin> set (lr_pending (protocol p))" "13 \<notin> set (lr_pending (protocol p) @ data)"
    "data \<noteq> []" "length data < u64_mod" "lf_split (lr_pending (protocol p) @ data) = (ls, r)"
    "\<forall>x\<in>set ls. length x < lr_limit (protocol p)" "length r \<le> lr_limit (protocol p)" "length ls \<le> maxTTL p"
    "deliver f (lr_user (protocol p)) ls = (u', ok)"
  shows "\<exists>p' ret upd'. Parser_write (LineRecv_ops os f) p data upd = Some (Inr (p', ret, upd')) \<and>
    lr_user (protocol p') = u' \<and> succeed ret = ok \<and>
    (ok \<longrightarrow> bytesWritten ret = length data \<and> lr_ok (protocol p') \<and> lr_pending (protocol p') = r \<and>
      lr_limit (protocol p') = lr_limit (protocol p) \<and> maxTTL p' = maxTTL p)"
proof -
  obtain l' n ttl' where "parseData (LineRecv_ops os f) (maxTTL p) (protocol p) data 0 False = Some (Inr (l', (ok, n), ttl', False))"
    "lr_user l' = u'" "ok \<longrightarrow> n = length data \<and> lr_ok l' \<and> lr_pending l' = r \<and> lr_limit l' = lr_limit (protocol p)"
    using parseData_lines [OF assms(1-8) _ assms(10), where ttl = 0 and lim = "maxTTL p" and os = os and fin = False] assms(9) by auto
  then show ?thesis using Parser_write_result [of "LineRecv_ops os f" p data l' ok n ttl' upd] assms(5)
    by (cases ok) (auto simp: add64_eq)
qed

lemma Parser_write_line:
  assumes "lr_ok (protocol p)" "lr_pending (protocol p) = []" "0 < lr_limit (protocol p)" "data \<noteq> []" "length data < u64_mod"
    "first_of_list [[10], [13]] (take (lr_limit (protocol p)) data) = Some (k, d)" "length data = k + 1"
    "f (lr_user (protocol p)) (take k data) = (u1, True)"
  shows "\<exists>p' ret upd'. Parser_write (LineRecv_ops os f) p data upd = Some (Inr (p', ret, upd')) \<and>
    lr_ok (protocol p') \<and> lr_pending (protocol p') = [] \<and> lr_limit (protocol p') = lr_limit (protocol p) \<and> lr_user (protocol p') = u1"
proof -
  let ?l = "protocol p"
  have a: "\<forall>c\<in>{10, 13}. c \<notin> set (lr_pending ?l)" "length (lr_pending ?l) < lr_limit ?l" "0 \<le> maxTTL p"
    "first_of_list [[10], [13]] (lr_pending ?l @ take (lr_limit ?l - length (lr_pending ?l)) data) = Some (k, d)"
    "f (lr_user ?l) (take k (lr_pending ?l @ data)) = (u1, True)"
    using assms by simp_all
  obtain l1 where l1: "lr_ok l1" "lr_pending l1 = []" "lr_limit l1 = lr_limit ?l" "lr_user l1 = u1"
    "parseData (LineRecv_ops os f) (maxTTL p) ?l data 0 False = Some (Inr (l1, (True, k + 1), Suc 0, False))"
    by (rule parseData_line [where f = f and os = os and fin = False, OF assms(1) a(1,2) assms(4) a(3-5)])
       (use assms(2,7) in simp)
  then show ?thesis using Parser_write_result [of "LineRecv_ops os f" p data l1 True "k + 1" "Suc 0" upd] by auto
qed

text \<open>C6: Of text without carriage returns a line protocol delivers exactly the lines, in order and
  without their line feed, until the user refuses one; the incomplete last line is kept. The write
  takes all the bytes, and fails exactly when a line is refused. It holds as long as every line stays
  below the limit of the line size and the write completes at most \<^verbatim>\<open>maxTTL\<close> lines (the number of
  subparser changes the parser allows in one write).\<close>

theorem line_protocol_delivers_lines:
  assumes "lr_ok (protocol p)" "10 \<notin> set (lr_pending (protocol p))" "13 \<notin> set (lr_pending (protocol p) @ data)"
    "data \<noteq> []" "length data < u64_mod" "lf_split (lr_pending (protocol p) @ data) = (ls, r)"
    "\<forall>x\<in>set ls. length x < lr_limit (protocol p)" "length r \<le> lr_limit (protocol p)" "length ls \<le> maxTTL p"
    "deliver f (lr_user (protocol p)) ls = (u', ok)"
  shows "\<exists>p' ret upd'. Parser_write (LineRecv_ops os f) p data upd = Some (Inr (p', ret, upd')) \<and>
    lr_user (protocol p') = u' \<and> succeed ret = ok \<and>
    (ok \<longrightarrow> bytesWritten ret = length data \<and> lr_ok (protocol p') \<and> lr_pending (protocol p') = r)"
  using Parser_write_lines [OF assms, of os upd] by blast

theorem line_protocol_delivers_lines_witness:
  "\<exists>p' ret upd'. Parser_write (LineRecv_ops (os_fine []) (\<lambda>u x. (u @ [x], True))) (LineRecv_new (os_fine []) [])
       [97, 10, 98, 99, 10, 100] Status_new = Some (Inr (p', ret, upd')) \<and>
    lr_user (protocol p') = [[97], [98, 99]] \<and> succeed ret = True \<and>
    (True \<longrightarrow> bytesWritten ret = length [97, 10, 98, 99, 10, 100 :: byte] \<and> lr_ok (protocol p') \<and> lr_pending (protocol p') = [100])"
proof (rule line_protocol_delivers_lines [where ls = "[[97], [98, 99]]"])
  have "lf_split ([97] @ 10 # [98, 99] @ 10 # [100]) = ([[97], [98, 99]], [100 :: byte])"
    by (subst lf_split_line, simp)+ (simp add: lf_split_no_lf)
  then show "lf_split (lr_pending (protocol (LineRecv_new (os_fine []) ([] :: byte list list))) @ [97, 10, 98, 99, 10, 100]) =
      ([[97], [98, 99]], [100])" by (simp add: LineRecv_new_ok)
qed (simp_all add: LineRecv_new_ok u64_mod_def)

text \<open>C7: The lines delivered and the text kept do not depend on how text without carriage returns is
  split into two writes, when every line stays below the limit of the line size, the joined text completes
  at most \<^verbatim>\<open>maxTTL\<close> lines, and the user refuses none.\<close>

theorem line_protocol_ignores_splits:
  assumes "lr_ok (protocol p)" "10 \<notin> set (lr_pending (protocol p))"
    "13 \<notin> set (lr_pending (protocol p) @ data1 @ data2)" "data1 \<noteq> []" "data2 \<noteq> []" "length (data1 @ data2) < u64_mod"
    "lf_split (lr_pending (protocol p) @ data1 @ data2) = (ls, r)"
    "\<forall>x\<in>set ls. length x < lr_limit (protocol p)" "length r \<le> lr_limit (protocol p)" "length ls \<le> maxTTL p"
    "deliver f (lr_user (protocol p)) ls = (u', True)"
  shows "\<exists>p1 r1 upd1 p2 r2 upd2 p12 r12 upd12.
    Parser_write (LineRecv_ops os f) p data1 upd = Some (Inr (p1, r1, upd1)) \<and>
    Parser_write (LineRecv_ops os f) p1 data2 upd = Some (Inr (p2, r2, upd2)) \<and>
    Parser_write (LineRecv_ops os f) p (data1 @ data2) upd = Some (Inr (p12, r12, upd12)) \<and>
    lr_user (protocol p2) = lr_user (protocol p12) \<and> lr_pending (protocol p2) = lr_pending (protocol p12) \<and>
    succeed r1 \<and> succeed r2 \<and> succeed r12 \<and> bytesWritten r12 = bytesWritten r1 + bytesWritten r2"
proof -
  let ?pend = "lr_pending (protocol p)" and ?lim = "lr_limit (protocol p)"
  obtain ls1 r1 where s1: "lf_split (?pend @ data1) = (ls1, r1)" by (cases "lf_split (?pend @ data1)")
  obtain ls2 where s2: "lf_split (r1 @ data2) = (ls2, r)" "ls = ls1 @ ls2"
    using lf_split_append [of "?pend @ data1" data2] s1 assms(7) by (cases "lf_split (r1 @ data2)") simp
  have r1: "10 \<notin> set r1" "set r1 \<subseteq> set (?pend @ data1)"
    using lf_split_rest [of "?pend @ data1"] lf_split_set [of "?pend @ data1"] s1 by simp_all
  have le: "length r1 \<le> ?lim"
  proof (cases ls2)
    case Nil
    then have "r = r1 @ data2" using lf_split_NilD s2(1) by blast
    then show ?thesis using assms(9) by simp
  next
    case (Cons x xs)
    then have "length r1 \<le> length x" using lf_split_prefix [OF r1(1)] s2(1) by simp
    also have "length x < ?lim" using assms(8) s2(2) Cons by simp
    finally show ?thesis by simp
  qed
  obtain u1 where d: "deliver f (lr_user (protocol p)) ls1 = (u1, True)" "deliver f u1 ls2 = (u', True)"
    using assms(11) s2(2) by (auto simp: deliver_append split: prod.splits if_splits)
  have a: "13 \<notin> set (?pend @ data1)" "length data1 < u64_mod" "\<forall>x\<in>set ls1. length x < ?lim" "length ls1 \<le> maxTTL p"
    "length data2 < u64_mod" "13 \<notin> set (r1 @ data2)"
    using assms(3,6,8,10) s2(2) r1(2) by auto
  obtain p1 ret1 upd1 where w1: "Parser_write (LineRecv_ops os f) p data1 upd = Some (Inr (p1, ret1, upd1))"
    "lr_user (protocol p1) = u1" "succeed ret1" "bytesWritten ret1 = length data1" "lr_ok (protocol p1)"
    "lr_pending (protocol p1) = r1" "lr_limit (protocol p1) = ?lim" "maxTTL p1 = maxTTL p"
    using Parser_write_lines [OF assms(1,2) a(1) assms(4) a(2) s1 a(3) le a(4) d(1), of os upd] by auto
  have b: "\<forall>x\<in>set ls2. length x < lr_limit (protocol p1)" "length r \<le> lr_limit (protocol p1)" "length ls2 \<le> maxTTL p1"
    using assms(8-10) s2(2) w1(7,8) by auto
  obtain p2 ret2 upd2 where w2: "Parser_write (LineRecv_ops os f) p1 data2 upd = Some (Inr (p2, ret2, upd2))"
    "lr_user (protocol p2) = u'" "succeed ret2" "bytesWritten ret2 = length data2" "lr_pending (protocol p2) = r"
    using Parser_write_lines [of p1 data2 ls2 r f u' True os upd] w1 r1(1) a(5,6) assms(5) s2(1) b d(2) by auto
  have c: "data1 @ data2 \<noteq> []" using assms(4) by simp
  obtain p12 ret12 upd12 where w12: "Parser_write (LineRecv_ops os f) p (data1 @ data2) upd = Some (Inr (p12, ret12, upd12))"
    "lr_user (protocol p12) = u'" "succeed ret12" "bytesWritten ret12 = length (data1 @ data2)" "lr_pending (protocol p12) = r"
    using Parser_write_lines [OF assms(1-3) c assms(6-11), of os upd] by auto
  show ?thesis using w1 w2 w12 by auto
qed

theorem line_protocol_ignores_splits_witness:
  "\<exists>p1 r1 upd1 p2 r2 upd2 p12 r12 upd12.
    Parser_write (LineRecv_ops (os_fine []) (\<lambda>u x. (u @ [x], True))) (LineRecv_new (os_fine []) []) [97] Status_new = Some (Inr (p1, r1, upd1)) \<and>
    Parser_write (LineRecv_ops (os_fine []) (\<lambda>u x. (u @ [x], True))) p1 [98, 10] Status_new = Some (Inr (p2, r2, upd2)) \<and>
    Parser_write (LineRecv_ops (os_fine []) (\<lambda>u x. (u @ [x], True))) (LineRecv_new (os_fine []) []) ([97] @ [98, 10]) Status_new =
      Some (Inr (p12, r12, upd12)) \<and>
    lr_user (protocol p2) = lr_user (protocol p12) \<and> lr_pending (protocol p2) = lr_pending (protocol p12) \<and>
    succeed r1 \<and> succeed r2 \<and> succeed r12 \<and> bytesWritten r12 = bytesWritten r1 + bytesWritten r2"
proof (rule line_protocol_ignores_splits [where ls = "[[97, 98]]" and r = "[]" and u' = "[[97, 98]]"])
  have "lf_split ([97, 98] @ 10 # []) = ([[97, 98]], [] :: byte list)"
    by (subst lf_split_line) (simp_all add: lf_split_no_lf)
  then show "lf_split (lr_pending (protocol (LineRecv_new (os_fine []) ([] :: byte list list))) @ [97] @ [98, 10]) =
      ([[97, 98]], [])" by (simp add: LineRecv_new_ok)
qed (simp_all add: LineRecv_new_ok u64_mod_def)

text \<open>Carriage returns make the lines depend on the writes. A line that ends in CR LF keeps its
  carriage return when both arrive together, and is followed by an empty line when they do not.\<close>

theorem line_protocol_depends_on_splits:
  "\<exists>p1 r1 upd1 p2 r2 upd2 p12 r12 upd12.
    Parser_write (LineRecv_ops os (\<lambda>u x. (u @ [x], True))) (LineRecv_new os []) [97, 13] Status_new = Some (Inr (p1, r1, upd1)) \<and>
    Parser_write (LineRecv_ops os (\<lambda>u x. (u @ [x], True))) p1 [10] Status_new = Some (Inr (p2, r2, upd2)) \<and>
    Parser_write (LineRecv_ops os (\<lambda>u x. (u @ [x], True))) (LineRecv_new os []) [97, 13, 10] Status_new = Some (Inr (p12, r12, upd12)) \<and>
    lr_user (protocol p2) = [[97], []] \<and> lr_user (protocol p12) = [[97, 13]]"
proof -
  let ?f = "\<lambda>u x. (u @ [x], True)" and ?p = "LineRecv_new os ([] :: byte list list)"
  note new = LineRecv_new_ok [of os "[] :: byte list list"]
  have e: "first_of_list [[10], [13]] (take 65536 [97, 13]) = Some (1, [13])"
    "first_of_list [[10], [13]] (take 65536 [10]) = Some (0, [10])"
    "first_of_list [[10], [13]] (take 65536 [97, 13, 10]) = Some (2, [10])"
    by (simp_all add: first_delim_single)
  obtain p1 r1 upd1 where w1: "Parser_write (LineRecv_ops os ?f) ?p [97, 13] Status_new = Some (Inr (p1, r1, upd1))"
    "lr_ok (protocol p1)" "lr_pending (protocol p1) = []" "lr_limit (protocol p1) = 65536" "lr_user (protocol p1) = [[97]]"
    using Parser_write_line [of ?p "[97, 13]" 1 "[13]" ?f "[[97]]" os Status_new] new e(1) by (auto simp: u64_mod_def)
  obtain p2 r2 upd2 where w2: "Parser_write (LineRecv_ops os ?f) p1 [10] Status_new = Some (Inr (p2, r2, upd2))"
    "lr_user (protocol p2) = [[97], []]"
    using Parser_write_line [of p1 "[10]" 0 "[10]" ?f "[[97], []]" os Status_new] w1 e(2) by (auto simp: u64_mod_def)
  obtain p12 r12 upd12 where w12: "Parser_write (LineRecv_ops os ?f) ?p [97, 13, 10] Status_new = Some (Inr (p12, r12, upd12))"
    "lr_user (protocol p12) = [[97, 13]]"
    using Parser_write_line [of ?p "[97, 13, 10]" 2 "[10]" ?f "[[97, 13]]" os Status_new] new e(3) by (auto simp: u64_mod_def)
  show ?thesis using w1(1) w2 w12 by blast
qed

text \<open>A line longer than the limit makes the write fail; it is not delivered, and everything kept
  of it is dropped.\<close>

theorem line_protocol_refuses_long_line:
  assumes "lr_ok (protocol p)" "length (lr_pending (protocol p)) < lr_limit (protocol p)"
    "\<forall>c\<in>{10, 13}. c \<notin> set (lr_pending (protocol p) @ data)" "length data < u64_mod" "0 < maxTTL p"
    "lr_limit (protocol p) < length (lr_pending (protocol p)) + length data"
  shows "\<exists>p' ret upd'. Parser_write (LineRecv_ops os f) p data upd = Some (Inr (p', ret, upd')) \<and>
    \<not> succeed ret \<and> failedWriteState p' = 1 \<and> lr_user (protocol p') = lr_user (protocol p) \<and> lr_pending (protocol p') = []"
proof -
  obtain l' ttl' where "parseData (LineRecv_ops os f) (maxTTL p) (protocol p) data 0 False = Some (Inr (l', (False, 0), ttl', False))"
    "lr_user l' = lr_user (protocol p)" "lr_pending l' = []"
    using parseData_too_long [OF assms(1-3,6,4,5), where os = os and f = f and fin = False] by auto
  then show ?thesis using Parser_write_result [of "LineRecv_ops os f" p data l' False 0 ttl' upd] by auto
qed

theorem line_protocol_refuses_long_line_witness:
  "\<exists>p' ret upd'. Parser_write (LineRecv_ops (os_fine []) (\<lambda>u x. (u @ [x], True)))
      (LineRecv_setMaxLineSize (LineRecv_new (os_fine []) []) 2) [97, 98, 99] Status_new = Some (Inr (p', ret, upd')) \<and>
    \<not> succeed ret \<and> failedWriteState p' = 1 \<and>
    lr_user (protocol p') = lr_user (protocol (LineRecv_setMaxLineSize (LineRecv_new (os_fine []) ([] :: byte list list)) 2)) \<and>
    lr_pending (protocol p') = []"
proof (rule line_protocol_refuses_long_line)
  let ?l = "protocol (LineRecv_new (os_fine []) ([] :: byte list list))"
  let ?p = "LineRecv_setMaxLineSize (LineRecv_new (os_fine []) ([] :: byte list list)) 2"
  have p: "lr_limit (protocol ?p) = 2" "lr_pending (protocol ?p) = lr_pending ?l"
    by (simp_all add: LineRecv_setMaxLineSize_def Let_def LineRecv_setMaxObjectSize_def setParseDataTargetSize_def
        lr_limit_def lr_pending_def chunks_content_def)
  show "lr_ok (protocol ?p)"
    using LineRecv_new_ok(1-3) [of "os_fine []" "[] :: byte list list"] p
    by (simp add: lr_ok_def LineRecv_setMaxLineSize_def Let_def LineRecv_setMaxObjectSize_def setParseDataTargetSize_def
        buffer_ok_def chunks_indexed_def chunks_ok_def lr_limit_def chunks_content_def u64_mod_def)
  show "length (lr_pending (protocol ?p)) < lr_limit (protocol ?p)" "\<forall>c\<in>{10, 13}. c \<notin> set (lr_pending (protocol ?p) @ [97, 98, 99])"
    "length [97, 98, 99 :: byte] < u64_mod" "lr_limit (protocol ?p) < length (lr_pending (protocol ?p)) + length [97, 98, 99 :: byte]"
    using p LineRecv_new_ok(2) [of "os_fine []" "[] :: byte list list"] by (simp_all add: u64_mod_def)
  show "0 < maxTTL ?p" by (simp add: LineRecv_setMaxLineSize_def Let_def LineRecv_new_ok)
qed

text \<open>One write handles at most \<^verbatim>\<open>maxTTL\<close> + 1 lines: with more, the first \<^verbatim>\<open>maxTTL\<close> + 1 are
  delivered, the write fails and the rest is lost, however well formed.\<close>

theorem line_protocol_ttl:
  assumes "lr_ok (protocol p)" "10 \<notin> set (lr_pending (protocol p))" "13 \<notin> set (lr_pending (protocol p) @ data)" "data \<noteq> []"
    "lf_split (lr_pending (protocol p) @ data) = (ls, r)" "\<forall>x\<in>set ls. length x < lr_limit (protocol p)"
    "Suc (maxTTL p) < length ls" "deliver f (lr_user (protocol p)) (take (Suc (maxTTL p)) ls) = (u', True)"
  shows "\<exists>p' ret upd'. Parser_write (LineRecv_ops os f) p data upd = Some (Inr (p', ret, upd')) \<and>
    \<not> succeed ret \<and> lr_user (protocol p') = u'"
proof -
  let ?k = "Suc (maxTTL p)"
  have ls: "ls = take ?k ls @ ls ! ?k # drop (Suc ?k) ls" using assms(7) by (simp add: id_take_nth_drop)
  obtain l' n ttl' where "parseData (LineRecv_ops os f) (maxTTL p) (protocol p) data 0 False = Some (Inr (l', (False, n), ttl', False))"
    "lr_user l' = u'"
    using parseData_ttl [OF assms(1-4), of "take ?k ls" "ls ! ?k" "drop (Suc ?k) ls" r 0 "maxTTL p" f u' os False]
      assms(5-8) ls by (auto simp: min_def)
  then show ?thesis using Parser_write_result [of "LineRecv_ops os f" p data l' False n ttl' upd] by auto
qed

theorem line_protocol_ttl_witness:
  "\<exists>p' ret upd'. Parser_write (LineRecv_ops (os_fine []) (\<lambda>u x. (u @ [x], True)))
      (setMaxTTL (LineRecv_new (os_fine []) []) 0) [97, 10, 98, 10] Status_new = Some (Inr (p', ret, upd')) \<and>
    \<not> succeed ret \<and> lr_user (protocol p') = [[97]]"
proof (rule line_protocol_ttl [where ls = "[[97], [98]]" and r = "[]"])
  have "lf_split ([97] @ 10 # [98] @ 10 # []) = ([[97], [98]], [] :: byte list)"
    by (subst lf_split_line, simp)+ (simp add: lf_split_no_lf)
  then show "lf_split (lr_pending (protocol (setMaxTTL (LineRecv_new (os_fine []) ([] :: byte list list)) 0)) @ [97, 10, 98, 10]) =
      ([[97], [98]], [])" by (simp add: setMaxTTL_def LineRecv_new_ok)
qed (simp_all add: setMaxTTL_def LineRecv_new_ok)

end
