(* ===== verification/Std_Map.thy ===== *)
theory Std_Map
  imports Prelude "HOL-Library.List_Lexorder" "HOL-Library.Char_ord"
begin

text \<open>
  What the code uses of the C++ library besides containers of bytes: \<^verbatim>\<open>std::map\<close> as the list of its
  entries in the order of the keys, which is the order its iterators give; text as \<^verbatim>\<open>string\<close>, compared
  byte by byte, and its conversion from and to bytes; \<^verbatim>\<open>std::to_string\<close> and \<^verbatim>\<open>strtoull\<close> on decimal numbers.
\<close>

subsection \<open>Ordered maps\<close>

type_synonym ('k, 'v) std_map = "('k \<times> 'v) list"

text \<open>\<^verbatim>\<open>m[k] = v\<close>\<close>

fun std_put :: "'k::linorder \<Rightarrow> 'v \<Rightarrow> ('k, 'v) std_map \<Rightarrow> ('k, 'v) std_map" where
  "std_put k v [] = [(k, v)]"
| "std_put k v ((k', v') # m) =
     (if k < k' then (k, v) # (k', v') # m else if k = k' then (k, v) # m else (k', v') # std_put k v m)"

definition std_erase :: "'k \<Rightarrow> ('k, 'v) std_map \<Rightarrow> ('k, 'v) std_map" where
  "std_erase k m = filter (\<lambda>(k', _). k' \<noteq> k) m"

definition std_map_ok :: "('k::linorder, 'v) std_map \<Rightarrow> bool" where
  "std_map_ok m \<longleftrightarrow> sorted_wrt (<) (map fst m)"

lemma std_map_ok_Nil [simp]: "std_map_ok []"
  by (simp add: std_map_ok_def)

lemma std_map_ok_Cons [simp]: "std_map_ok ((k, v) # m) \<longleftrightarrow> (\<forall>x\<in>fst ` set m. k < x) \<and> std_map_ok m"
  by (simp add: std_map_ok_def)

lemma fst_std_put [simp]: "fst ` set (std_put k v m) = insert k (fst ` set m)"
  by (induction k v m rule: std_put.induct) (simp_all add: insert_commute)

lemma std_map_ok_put [simp]: "std_map_ok m \<Longrightarrow> std_map_ok (std_put k v m)"
proof (induction k v m rule: std_put.induct)
  case (2 k v k' v' m)
  then show ?case by (cases "k < k'"; cases "k = k'") (use order.strict_trans in fastforce)+
qed simp

lemma map_of_std_put [simp]: "std_map_ok m \<Longrightarrow> map_of (std_put k v m) = (map_of m)(k \<mapsto> v)"
proof (induction m)
  case (Cons e m)
  obtain k' v' where e: "e = (k', v')" by (cases e)
  show ?case
  proof (cases "k' = k")
    case False
    then show ?thesis using Cons e by (auto simp: fun_upd_twist)
  qed (use Cons e in auto)
qed auto

lemma std_map_ok_distinct: "std_map_ok m \<Longrightarrow> distinct (map fst m)"
  by (simp add: std_map_ok_def strict_sorted_iff)

lemma std_map_ok_erase [simp]: "std_map_ok m \<Longrightarrow> std_map_ok (std_erase k m)"
  by (induction m) (auto simp: std_erase_def)

lemma map_of_std_erase [simp]: "map_of (std_erase k m) = (map_of m)(k := None)"
  by (induction m) (auto simp: std_erase_def)

subsection \<open>Text and bytes\<close>

definition to_bytes :: "string \<Rightarrow> byte list" where
  "to_bytes s = map (\<lambda>c. word_of_nat (of_char c)) s"

definition of_bytes :: "byte list \<Rightarrow> string" where
  "of_bytes bs = map (\<lambda>b. char_of (unat b)) bs"

lemma of_bytes_to_bytes [simp]: "of_bytes (to_bytes s) = s"
  by (simp add: of_bytes_def to_bytes_def o_def unat_of_nat take_bit_eq_mod)

lemma byte_mod_256: "word_of_nat (unat b mod 256) = (b :: byte)"
proof -
  have "unat b < 256" using unsigned_less [of b] by simp
  then show ?thesis by simp
qed

lemma to_bytes_of_bytes [simp]: "to_bytes (of_bytes bs) = bs"
  by (simp add: of_bytes_def to_bytes_def o_def take_bit_eq_mod) (simp add: map_idI byte_mod_256)

subsection \<open>Decimal numbers\<close>

fun to_string :: "nat \<Rightarrow> string" where
  "to_string n = (if n < 10 then [char_of (48 + n :: nat)] else to_string (n div 10) @ [char_of (48 + n mod 10 :: nat)])"

declare to_string.simps [simp del]

definition to_string_int :: "int \<Rightarrow> string" where
  "to_string_int i = (if i < 0 then ''-'' @ to_string (nat (- i)) else to_string (nat i))"

definition digit_value :: "char \<Rightarrow> nat option" where
  "digit_value c = (let n = of_char c :: nat in if 48 \<le> n \<and> n \<le> 57 then Some (n - 48) else None)"

fun read_digits :: "nat \<Rightarrow> string \<Rightarrow> nat" where
  "read_digits n [] = n"
| "read_digits n (c # cs) = (case digit_value c of None \<Rightarrow> n | Some d \<Rightarrow> read_digits (10 * n + d) cs)"

definition is_space :: "char \<Rightarrow> bool" where
  "is_space c \<longleftrightarrow> (let n = of_char c :: nat in n = 32 \<or> 9 \<le> n \<and> n \<le> 13)"

text \<open>\<^verbatim>\<open>strtoull\<close> (and \<^verbatim>\<open>strtoul\<close>, with a 64-bit long) in base 10: white space, a sign, digits; the value is
  limited to the largest one, and negated modulo 2 \<^verbatim>\<open>^\<close> 64 after a minus sign.\<close>

definition strtoull :: "string \<Rightarrow> nat" where
  "strtoull s =
     (case dropWhile is_space s of
        [] \<Rightarrow> 0
      | c # cs \<Rightarrow>
          if c = CHR ''-''
          then (let v = read_digits 0 cs in if v \<le> u64_max then sub64 0 v else u64_max)
          else if c = CHR ''+'' then min (read_digits 0 cs) u64_max
          else min (read_digits 0 (c # cs)) u64_max)"

text \<open>The conversion of a \<^verbatim>\<open>uint64_t\<close> to \<^verbatim>\<open>time_t\<close>, a signed 64-bit number.\<close>

definition to_i64 :: "nat \<Rightarrow> int" where
  "to_i64 n = (if n < 2 ^ 63 then int n else int n - 2 ^ 64)"

definition is_i64 :: "int \<Rightarrow> bool" where
  "is_i64 i \<longleftrightarrow> - (2 ^ 63) \<le> i \<and> i < 2 ^ 63"

lemma digit_value_char_of [simp]: "d < 10 \<Longrightarrow> digit_value (char_of (48 + d)) = Some d"
  by (simp add: digit_value_def Let_def take_bit_eq_mod)

lemma to_string_digits:
  "list_all (\<lambda>c. digit_value c \<noteq> None) (to_string n) \<and> to_string n \<noteq> []"
proof (induction n rule: to_string.induct)
  case (1 n)
  then show ?case by (cases "n < 10"; subst to_string.simps; subst to_string.simps) auto
qed

lemma read_digits_append:
  "list_all (\<lambda>c. digit_value c \<noteq> None) xs \<Longrightarrow> read_digits n (xs @ ys) = read_digits (read_digits n xs) ys"
  by (induction xs arbitrary: n) auto

lemma read_digits_to_string [simp]: "read_digits 0 (to_string n) = n"
proof (induction n rule: to_string.induct)
  case (1 n)
  show ?case
  proof (cases "n < 10")
    case True
    then show ?thesis by (subst to_string.simps) simp
  next
    case False
    then have "read_digits 0 (to_string n) = read_digits (n div 10) [char_of (48 + n mod 10)]"
      using 1 by (subst to_string.simps) (simp add: read_digits_append [OF conjunct1 [OF to_string_digits]] del: read_digits.simps)
    then show ?thesis by simp
  qed
qed

lemma digit_plain: "digit_value c \<noteq> None \<Longrightarrow> \<not> is_space c \<and> c \<noteq> CHR ''-'' \<and> c \<noteq> CHR ''+''"
  by (auto simp: digit_value_def is_space_def Let_def split: if_splits)

lemma strtoull_to_string [simp]: "n \<le> u64_max \<Longrightarrow> strtoull (to_string n) = n"
proof -
  assume n: "n \<le> u64_max"
  obtain c cs where s: "to_string n = c # cs" using to_string_digits [of n] by (cases "to_string n") auto
  have "digit_value c \<noteq> None" using to_string_digits [of n] s by simp
  then show ?thesis
    using digit_plain [of c] s n read_digits_to_string [of n] by (simp add: strtoull_def)
qed

lemma to_i64_strtoull_int: "is_i64 i \<Longrightarrow> to_i64 (strtoull (to_string_int i)) = i"
proof (cases "i < 0")
  case True
  assume i: "is_i64 i"
  have v: "nat (- i) \<le> u64_max" "0 < nat (- i)" "nat (- i) \<le> 2 ^ 63"
    using i True by (auto simp: is_i64_def u64_max_def u64_mod_def)
  have "strtoull (to_string_int i) = sub64 0 (nat (- i))"
    using True v by (simp add: to_string_int_def strtoull_def is_space_def)
  also have "\<dots> = 2 ^ 64 - nat (- i)" using sub64_wrap [of 0 "nat (- i)"] v by (simp add: u64_max_def u64_mod_def)
  finally show ?thesis using v True by (simp add: to_i64_def of_nat_diff)
next
  case False
  assume "is_i64 i"
  then show ?thesis using False by (simp add: to_string_int_def to_i64_def is_i64_def u64_max_def u64_mod_def)
qed

end
