(* ===== verification/Auth_Secret.thy ===== *)
theory Auth_Secret
  imports Std_Map Encoders
begin

text \<open>
  \<^verbatim>\<open>Auth/mdz_auth/ds_auth_*.h\<close> and \<^verbatim>\<open>accountsecret_validation.cpp\<close>: stored secrets, their text
  form, and the validation of a password against one. The hashes of \<^verbatim>\<open>Helpers::Crypto\<close> (OpenSSL) and
  the random salt are parameters; \<^verbatim>\<open>time(nullptr)\<close> is the parameter \<^verbatim>\<open>now\<close>.
\<close>

subsection \<open>Modes, functions and reasons\<close>

datatype Mode = MODE_PLAIN | MODE_CHALLENGE

definition getAuthModeFromString :: "string \<Rightarrow> Mode" where
  "getAuthModeFromString mode = (if mode = ''CHALLENGE'' then MODE_CHALLENGE else MODE_PLAIN)"

definition getStringFromAuthMode :: "Mode \<Rightarrow> string" where
  "getStringFromAuthMode mode = (case mode of MODE_PLAIN \<Rightarrow> ''PLAIN'' | MODE_CHALLENGE \<Rightarrow> ''CHALLENGE'')"

datatype Function =
  FN_NOTFOUND | FN_PLAIN | FN_SHA256 | FN_SHA512 | FN_SSHA256 | FN_SSHA512 | FN_GAUTHTIME

fun Function_number :: "Function \<Rightarrow> nat" where
  "Function_number FN_NOTFOUND = 500"
| "Function_number FN_PLAIN = 0"
| "Function_number FN_SHA256 = 1"
| "Function_number FN_SHA512 = 2"
| "Function_number FN_SSHA256 = 3"
| "Function_number FN_SSHA512 = 4"
| "Function_number FN_GAUTHTIME = 5"

datatype Reason =
  REASON_AUTHENTICATED | REASON_INTERNAL_ERROR | REASON_NOT_IMPLEMENTED | REASON_DUPLICATED_SESSION
| REASON_EXPIRED_PASSWORD | REASON_EXPIRED_ACCOUNT | REASON_DISABLED_ACCOUNT | REASON_UNCONFIRMED_ACCOUNT
| REASON_BAD_ACCOUNT | REASON_BAD_PASSWORD | REASON_PASSWORD_INDEX_NOTFOUND | REASON_INVALID_DOMAIN
| REASON_INVALID_AUTHENTICATOR | REASON_SESSIONLIMITS_EXCEEDED | REASON_ANSWER_TIMEDOUT
| REASON_EXPIRED | REASON_UNAUTHENTICATED

definition IS_PASSWORD_AUTHENTICATED :: "Reason \<Rightarrow> bool" where
  "IS_PASSWORD_AUTHENTICATED reason \<longleftrightarrow> reason = REASON_AUTHENTICATED \<or> reason = REASON_EXPIRED_PASSWORD"

fun getReasonText :: "Reason \<Rightarrow> string" where
  "getReasonText REASON_SESSIONLIMITS_EXCEEDED = ''Sessions limits exceeded''"
| "getReasonText REASON_INVALID_AUTHENTICATOR = ''Invalid or undefined authenticator''"
| "getReasonText REASON_DUPLICATED_SESSION = ''Session ID Duplicated Error''"
| "getReasonText REASON_AUTHENTICATED = ''Authenticated''"
| "getReasonText REASON_INTERNAL_ERROR = ''Authentication Internal Error''"
| "getReasonText REASON_NOT_IMPLEMENTED = ''Authentication not implemented yet''"
| "getReasonText REASON_EXPIRED_PASSWORD = ''Password expired''"
| "getReasonText REASON_EXPIRED_ACCOUNT = ''Account expired''"
| "getReasonText REASON_DISABLED_ACCOUNT = ''Account disabled''"
| "getReasonText REASON_UNCONFIRMED_ACCOUNT = ''Account unconfirmed''"
| "getReasonText REASON_BAD_ACCOUNT = ''Invalid Account''"
| "getReasonText REASON_BAD_PASSWORD = ''Invalid password''"
| "getReasonText REASON_PASSWORD_INDEX_NOTFOUND = ''Password Index Not Found''"
| "getReasonText REASON_ANSWER_TIMEDOUT = ''Answer timed out''"
| "getReasonText REASON_EXPIRED = ''Expired authentication''"
| "getReasonText REASON_UNAUTHENTICATED = ''Not authenticated yet''"
| "getReasonText REASON_INVALID_DOMAIN = ''Invalid domain name''"

subsection \<open>Secrets\<close>

record Secret_PublicData =
  pd_passwordFunction :: Function
  pd_ssalt :: "byte list"
  pd_expiration :: int
  pd_forceExpiration :: bool
  pd_badAttempts :: nat
  pd_description :: string
  pd_requiredAtLogin :: bool
  pd_locked :: bool
  pd_nul :: bool

record Secret =
  gAuthSteps :: nat
  forceExpiration :: bool
  passwordFunction :: Function
  badAttempts :: nat
  expiration :: int
  hash :: string
  ssalt :: "byte list"

definition Secret_PublicData_new :: Secret_PublicData where
  "Secret_PublicData_new = \<lparr>pd_passwordFunction = FN_NOTFOUND, pd_ssalt = [0, 0, 0, 0], pd_expiration = 0,
     pd_forceExpiration = False, pd_badAttempts = 0, pd_description = '''', pd_requiredAtLogin = False,
     pd_locked = False, pd_nul = True\<rparr>"

definition Secret_new :: Secret where
  "Secret_new = \<lparr>gAuthSteps = 0, forceExpiration = False, passwordFunction = FN_PLAIN, badAttempts = 0,
     expiration = 0, hash = '''', ssalt = [255, 255, 255, 255]\<rparr>"

definition PublicData_isExpired :: "int \<Rightarrow> Secret_PublicData \<Rightarrow> bool" where
  "PublicData_isExpired now p \<longleftrightarrow> pd_expiration p < now \<and> pd_expiration p \<noteq> 0 \<or> pd_forceExpiration p"

definition Secret_isExpired :: "int \<Rightarrow> Secret \<Rightarrow> bool" where
  "Secret_isExpired now s \<longleftrightarrow> now > expiration s \<and> expiration s \<noteq> 0 \<or> forceExpiration s"

definition getBasicData :: "Secret \<Rightarrow> Secret_PublicData" where
  "getBasicData s = Secret_PublicData_new\<lparr>pd_nul := False, pd_locked := False, pd_requiredAtLogin := False,
     pd_badAttempts := badAttempts s, pd_expiration := expiration s, pd_forceExpiration := forceExpiration s,
     pd_passwordFunction := passwordFunction s, pd_ssalt := ssalt s\<rparr>"

subsection \<open>Text form\<close>

text \<open>The maps of strings are only searched, so they are functions.\<close>

definition flag :: "bool \<Rightarrow> string" where
  "flag b = (if b then ''1'' else ''0'')"

definition mget :: "(string \<rightharpoonup> string) \<Rightarrow> string \<Rightarrow> string" where
  "mget mp k = (case mp k of None \<Rightarrow> '''' | Some v \<Rightarrow> v)"

definition read_flag :: "string \<Rightarrow> bool" where
  "read_flag s \<longleftrightarrow> strtoull s \<noteq> 0"

definition read_function :: "string \<Rightarrow> Function" where
  "read_function s =
     (let n = strtoull s in
      if n = 500 then FN_NOTFOUND else if n = 0 then FN_PLAIN else if n = 1 then FN_SHA256
      else if n = 2 then FN_SHA512 else if n = 3 then FN_SSHA256 else if n = 4 then FN_SSHA512
      else if n = 5 then FN_GAUTHTIME else FN_NOTFOUND)"

definition PublicData_getMap :: "Secret_PublicData \<Rightarrow> string \<rightharpoonup> string" where
  "PublicData_getMap p = map_of
     [(''VERSION'', ''1''), (''PMODE'', to_string (Function_number (pd_passwordFunction p))),
      (''SALT'', of_bytes (toHex (pd_ssalt p))), (''EXPIRATION'', to_string_int (pd_expiration p)),
      (''FORCE_EXPIRATION'', flag (pd_forceExpiration p)), (''BAD_ATTEMPTS'', to_string (pd_badAttempts p)),
      (''DESCRIPTION'', pd_description p), (''REQUIRED_AT_LOGIN'', flag (pd_requiredAtLogin p)),
      (''LOCKED'', flag (pd_locked p)), (''NUL'', flag (pd_nul p))]"

definition PublicData_fromMap :: "Secret_PublicData \<Rightarrow> (string \<rightharpoonup> string) \<Rightarrow> Secret_PublicData \<times> bool" where
  "PublicData_fromMap p mp =
     (if mget mp ''VERSION'' \<noteq> ''1'' then (p, False)
      else (p\<lparr>pd_ssalt := fromHex (to_bytes (mget mp ''SALT'')) (pd_ssalt p) 4,
              pd_expiration := to_i64 (strtoull (mget mp ''EXPIRATION'')),
              pd_forceExpiration := read_flag (mget mp ''FORCE_EXPIRATION''),
              pd_passwordFunction := read_function (mget mp ''PMODE''),
              pd_badAttempts := strtoull (mget mp ''BAD_ATTEMPTS'') mod 2 ^ 32,
              pd_description := mget mp ''DESCRIPTION'',
              pd_requiredAtLogin := read_flag (mget mp ''REQUIRED_AT_LOGIN''),
              pd_locked := read_flag (mget mp ''LOCKED''),
              pd_nul := read_flag (mget mp ''NUL'')\<rparr>, True))"

definition Secret_getMap :: "Secret \<Rightarrow> string \<rightharpoonup> string" where
  "Secret_getMap s = map_of
     [(''VERSION'', ''1''), (''PMODE'', to_string (Function_number (passwordFunction s))), (''HASH'', hash s),
      (''SALT'', of_bytes (toHex (ssalt s))), (''EXPIRATION'', to_string_int (expiration s)),
      (''FORCE_EXPIRATION'', flag (forceExpiration s)), (''GAUTH_STEPS'', to_string (gAuthSteps s))]"

definition Secret_fromMap :: "Secret \<Rightarrow> (string \<rightharpoonup> string) \<Rightarrow> Secret \<times> bool" where
  "Secret_fromMap s mp =
     (if mget mp ''VERSION'' \<noteq> ''1'' then (s, False)
      else (s\<lparr>hash := mget mp ''HASH'', ssalt := fromHex (to_bytes (mget mp ''SALT'')) (ssalt s) 4,
              expiration := to_i64 (strtoull (mget mp ''EXPIRATION'')),
              forceExpiration := read_flag (mget mp ''FORCE_EXPIRATION''),
              gAuthSteps := strtoull (mget mp ''GAUTH_STEPS'') mod 2 ^ 32,
              passwordFunction := read_function (mget mp ''PMODE'')\<rparr>, True))"

subsection \<open>Creation and validation\<close>

record crypto_ops =
  calcSHA256 :: "string \<Rightarrow> string"
  calcSHA512 :: "string \<Rightarrow> string"
  calcSSHA256 :: "string \<Rightarrow> byte list \<Rightarrow> string"
  calcSSHA512 :: "string \<Rightarrow> byte list \<Rightarrow> string"

text \<open>\<^verbatim>\<open>salt\<close> is what \<^verbatim>\<open>createRandomSalt32\<close> stores.\<close>

definition createNewSecret :: "crypto_ops \<Rightarrow> byte list \<Rightarrow> string \<Rightarrow> Function \<Rightarrow> bool \<Rightarrow> int \<Rightarrow> nat \<Rightarrow> Secret" where
  "createNewSecret C salt passwordInput passFunction forceExp expirationDate steps =
     (let r = Secret_new\<lparr>passwordFunction := passFunction, forceExpiration := forceExp, expiration := expirationDate\<rparr> in
      case passFunction of
        FN_NOTFOUND \<Rightarrow> r
      | FN_PLAIN \<Rightarrow> r\<lparr>hash := passwordInput\<rparr>
      | FN_SHA256 \<Rightarrow> r\<lparr>hash := calcSHA256 C passwordInput\<rparr>
      | FN_SHA512 \<Rightarrow> r\<lparr>hash := calcSHA512 C passwordInput\<rparr>
      | FN_SSHA256 \<Rightarrow> r\<lparr>ssalt := salt, hash := calcSSHA256 C passwordInput salt\<rparr>
      | FN_SSHA512 \<Rightarrow> r\<lparr>ssalt := salt, hash := calcSSHA512 C passwordInput salt\<rparr>
      | FN_GAUTHTIME \<Rightarrow> r\<lparr>hash := passwordInput, gAuthSteps := steps\<rparr>)"

definition validateChallenge :: "crypto_ops \<Rightarrow> string \<Rightarrow> string \<Rightarrow> string \<Rightarrow> Reason" where
  "validateChallenge C passwordFromDB challengeInput challengeSalt =
     (if challengeInput = calcSHA256 C (passwordFromDB @ challengeSalt) then REASON_AUTHENTICATED else REASON_BAD_PASSWORD)"

definition validateGAuth :: "string \<Rightarrow> string \<Rightarrow> Reason" where
  "validateGAuth seed token = REASON_NOT_IMPLEMENTED"

definition toCompare :: "crypto_ops \<Rightarrow> Secret \<Rightarrow> string \<Rightarrow> string" where
  "toCompare C s passwordInput =
     (case passwordFunction s of
        FN_PLAIN \<Rightarrow> passwordInput
      | FN_SHA256 \<Rightarrow> calcSHA256 C passwordInput
      | FN_SHA512 \<Rightarrow> calcSHA512 C passwordInput
      | FN_SSHA256 \<Rightarrow> calcSSHA256 C passwordInput (ssalt s)
      | FN_SSHA512 \<Rightarrow> calcSSHA512 C passwordInput (ssalt s)
      | _ \<Rightarrow> '''')"

definition validateStoredSecret :: "crypto_ops \<Rightarrow> int \<Rightarrow> Secret \<Rightarrow> string \<Rightarrow> string \<Rightarrow> Mode \<Rightarrow> Reason" where
  "validateStoredSecret C now storedSecret passwordInput challengeSalt authMode =
     (if passwordFunction storedSecret = FN_NOTFOUND then REASON_INTERNAL_ERROR
      else let r = (if passwordFunction storedSecret = FN_GAUTHTIME then validateGAuth (hash storedSecret) passwordInput
                    else case authMode of
                        MODE_PLAIN \<Rightarrow>
                          if hash storedSecret = toCompare C storedSecret passwordInput
                          then REASON_AUTHENTICATED else REASON_BAD_PASSWORD
                      | MODE_CHALLENGE \<Rightarrow> validateChallenge C (hash storedSecret) passwordInput challengeSalt)
           in if Secret_isExpired now storedSecret \<and> r = REASON_AUTHENTICATED then REASON_EXPIRED_PASSWORD else r)"

subsection \<open>Lemmas\<close>

lemma read_flag_flag [simp]: "read_flag (flag b) = b"
  by (simp add: read_flag_def flag_def strtoull_def is_space_def digit_value_def u64_max_def u64_mod_def)

lemma read_function_number [simp]: "read_function (to_string (Function_number f)) = f"
  by (cases f) (simp_all add: read_function_def u64_max_def u64_mod_def)

lemma fromHex_4: "length d = 4 \<Longrightarrow> length buf = 4 \<Longrightarrow> fromHex (toHex d) buf 4 = d"
  using fromHex_toHex [of d buf] by simp

lemma strtoull_u32: "n < 2 ^ 32 \<Longrightarrow> strtoull (to_string n) mod 2 ^ 32 = n"
  by (simp add: u64_max_def u64_mod_def)

lemma authenticated_simps [simp]:
  "IS_PASSWORD_AUTHENTICATED REASON_AUTHENTICATED" "IS_PASSWORD_AUTHENTICATED REASON_EXPIRED_PASSWORD"
  "\<not> IS_PASSWORD_AUTHENTICATED REASON_BAD_PASSWORD" "\<not> IS_PASSWORD_AUTHENTICATED REASON_BAD_ACCOUNT"
  "\<not> IS_PASSWORD_AUTHENTICATED REASON_INTERNAL_ERROR" "\<not> IS_PASSWORD_AUTHENTICATED REASON_NOT_IMPLEMENTED"
  "\<not> IS_PASSWORD_AUTHENTICATED REASON_PASSWORD_INDEX_NOTFOUND" "\<not> IS_PASSWORD_AUTHENTICATED REASON_EXPIRED"
  "\<not> IS_PASSWORD_AUTHENTICATED REASON_UNAUTHENTICATED"
  by (simp_all add: IS_PASSWORD_AUTHENTICATED_def)

lemma validate_created:
  assumes "fn \<noteq> FN_NOTFOUND" "fn \<noteq> FN_GAUTHTIME"
  shows "hash (createNewSecret C salt pw fn f e n) = toCompare C (createNewSecret C salt pw fn f e n) pw"
    "passwordFunction (createNewSecret C salt pw fn f e n) = fn"
    "Secret_isExpired now (createNewSecret C salt pw fn f e n) \<longleftrightarrow> e < now \<and> e \<noteq> 0 \<or> f"
  using assms by (cases fn; simp add: createNewSecret_def toCompare_def Secret_isExpired_def)+

subsection \<open>Properties\<close>

text \<open>A new secret accepts its password and no password of another digest. The reason tells whether it
  is expired, which a wrong password never learns. The same holds of the answer to a challenge, which
  is computed from the stored digest. The functions that are not implemented accept nothing.\<close>

theorem created_secret_validates:
  "let s = createNewSecret C salt pw fn forced e steps;
       ok = (if e < now \<and> e \<noteq> 0 \<or> forced then REASON_EXPIRED_PASSWORD else REASON_AUTHENTICATED);
       usable = (fn \<noteq> FN_NOTFOUND \<and> fn \<noteq> FN_GAUTHTIME)
   in validateStoredSecret C now s pw' ch MODE_PLAIN =
        (if \<not> usable then if fn = FN_NOTFOUND then REASON_INTERNAL_ERROR else REASON_NOT_IMPLEMENTED
         else if toCompare C s pw' = toCompare C s pw then ok else REASON_BAD_PASSWORD) \<and>
      validateStoredSecret C now s answer ch MODE_CHALLENGE =
        (if \<not> usable then if fn = FN_NOTFOUND then REASON_INTERNAL_ERROR else REASON_NOT_IMPLEMENTED
         else if answer = calcSHA256 C (toCompare C s pw @ ch) then ok else REASON_BAD_PASSWORD)"
proof (cases "fn = FN_NOTFOUND \<or> fn = FN_GAUTHTIME")
  case True
  then show ?thesis by (auto simp: validateStoredSecret_def createNewSecret_def validateGAuth_def Let_def)
next
  case False
  then show ?thesis
    using validate_created(1,2) [of fn C salt pw forced e steps] validate_created(3) [of fn now C salt pw forced e steps]
    by (auto simp: validateStoredSecret_def validateChallenge_def Let_def)
qed

text \<open>A secret, and the public part of one, are read back from their text form unchanged, whatever
  sign the expiration has; the number of bad attempts is not part of a secret's text.\<close>

theorem secret_text_round_trip:
  assumes "length (ssalt s) = 4" "is_i64 (expiration s)" "gAuthSteps s < 2 ^ 32" "length (ssalt s0) = 4"
    "length (pd_ssalt p) = 4" "is_i64 (pd_expiration p)" "pd_badAttempts p < 2 ^ 32" "length (pd_ssalt p0) = 4"
  shows "Secret_fromMap s0 (Secret_getMap s) = (s\<lparr>badAttempts := badAttempts s0\<rparr>, True) \<and>
    PublicData_fromMap p0 (PublicData_getMap p) = (p, True)"
  using assms strtoull_u32 [of "gAuthSteps s"] strtoull_u32 [of "pd_badAttempts p"]
  by (simp add: Secret_fromMap_def Secret_getMap_def PublicData_fromMap_def PublicData_getMap_def mget_def
      fromHex_4 to_i64_strtoull_int)

theorem secret_text_round_trip_witness:
  "Secret_fromMap Secret_new (Secret_getMap (Secret_new\<lparr>hash := ''ab'', expiration := -5\<rparr>)) =
     (Secret_new\<lparr>hash := ''ab'', expiration := -5\<rparr>, True) \<and>
   PublicData_fromMap Secret_PublicData_new (PublicData_getMap (getBasicData Secret_new)) = (getBasicData Secret_new, True)"
  using secret_text_round_trip [of "Secret_new\<lparr>hash := ''ab'', expiration := -5\<rparr>" Secret_new
      "getBasicData Secret_new" Secret_PublicData_new]
  by (simp add: Secret_new_def getBasicData_def Secret_PublicData_new_def is_i64_def)

end
