(* ===== verification/Auth_Session.thy ===== *)
theory Auth_Session
  imports Auth_Secret
begin

text \<open>
  \<^verbatim>\<open>Auth/mdz_auth/session.cpp\<close> and \<^verbatim>\<open>session_vars.cpp\<close>: what a session remembers of the password
  indexes its user has proved. Every method holds the session's mutex for its whole body, so it is
  one step; \<^verbatim>\<open>time(nullptr)\<close> is \<^verbatim>\<open>now\<close>, the same for the whole step.
\<close>

subsection \<open>Definitions\<close>

record sCurrentAuthentication =
  lastAuthStatus :: Reason
  authTime :: int

record session_vars =
  sessionVars :: "string \<rightharpoonup> string"

record session = session_vars +
  authUser :: string
  authDomain :: string
  appName :: string
  sessionId :: string
  requiredLoginIdxs :: "(nat, string) std_map"
  authMatrix :: "nat \<rightharpoonup> sCurrentAuthentication"
  authPolicies :: "nat \<rightharpoonup> int"
  firstActivity :: int
  lastActivity :: int
  isPersistentSession :: bool

datatype eCheckMode = CHECK_ALLOW_EXPIRED_PASSWORDS | CHECK_DISALLOW_EXPIRED_PASSWORDS

definition setSessionVar :: "'a session_vars_scheme \<Rightarrow> string \<Rightarrow> string \<Rightarrow> 'a session_vars_scheme" where
  "setSessionVar s varName varValue = s\<lparr>sessionVars := (sessionVars s)(varName \<mapsto> varValue)\<rparr>"

definition getSessionVarValue :: "'a session_vars_scheme \<Rightarrow> string \<Rightarrow> string" where
  "getSessionVarValue s varName = (case sessionVars s varName of None \<Rightarrow> '''' | Some v \<Rightarrow> v)"

definition getSessionVarExist :: "'a session_vars_scheme \<Rightarrow> string \<Rightarrow> bool" where
  "getSessionVarExist s varName \<longleftrightarrow> sessionVars s varName \<noteq> None"

definition clearSessionVar :: "'a session_vars_scheme \<Rightarrow> string \<Rightarrow> 'a session_vars_scheme" where
  "clearSessionVar s varName = s\<lparr>sessionVars := (sessionVars s)(varName := None)\<rparr>"

text \<open>The constructor leaves the two times as they are in memory.\<close>

definition Session_new :: "int \<Rightarrow> int \<Rightarrow> string \<Rightarrow> string \<Rightarrow> session" where
  "Session_new firstTime lastTime newId app = \<lparr>sessionVars = Map.empty, authUser = '''', authDomain = '''', appName = app,
     sessionId = newId, requiredLoginIdxs = [], authMatrix = Map.empty, authPolicies = Map.empty,
     firstActivity = firstTime, lastActivity = lastTime, isPersistentSession = False\<rparr>"

definition iUpdateLastActivity :: "int \<Rightarrow> session \<Rightarrow> session" where
  "iUpdateLastActivity now s = s\<lparr>lastActivity := now\<rparr>"

definition registerIndexAuthentication :: "int \<Rightarrow> session \<Rightarrow> nat \<Rightarrow> Reason \<Rightarrow> session" where
  "registerIndexAuthentication now s passIndex reason =
     (let s1 = s\<lparr>authMatrix := (authMatrix s)(passIndex \<mapsto> \<lparr>lastAuthStatus = reason, authTime = now\<rparr>)\<rparr> in
      if IS_PASSWORD_AUTHENTICATED reason
      then let s2 = iUpdateLastActivity now s1 in s2\<lparr>firstActivity := lastActivity s2\<rparr>
      else s1)"

definition registerPersistentAuthentication :: "int \<Rightarrow> session \<Rightarrow> string \<Rightarrow> string \<Rightarrow> nat \<Rightarrow> Reason \<Rightarrow> session" where
  "registerPersistentAuthentication now s sAccountName accountDomain passIndex reason =
     (let s1 = registerIndexAuthentication now s passIndex reason in
      if passIndex = 0 \<and> IS_PASSWORD_AUTHENTICATED reason
      then s1\<lparr>authUser := sAccountName, authDomain := accountDomain\<rparr> else s1)"

text \<open>The difference of the times is cut to 32 bits.\<close>

definition isLastActivityExpired :: "int \<Rightarrow> session \<Rightarrow> nat \<Rightarrow> bool" where
  "isLastActivityExpired now s expSeconds \<longleftrightarrow>
     (if lastActivity s > now then True else nat ((now - lastActivity s) mod 2 ^ 32) > expSeconds)"

definition getCurrentAuthenticationStatus :: "session \<Rightarrow> nat \<Rightarrow> sCurrentAuthentication" where
  "getCurrentAuthenticationStatus s passIndex =
     (case authMatrix s passIndex of Some a \<Rightarrow> a | None \<Rightarrow> \<lparr>lastAuthStatus = REASON_UNAUTHENTICATED, authTime = 0\<rparr>)"

definition getIdxAuthenticationStatus :: "int \<Rightarrow> session \<Rightarrow> nat \<Rightarrow> Reason" where
  "getIdxAuthenticationStatus now s passIndex =
     (let cur = getCurrentAuthenticationStatus s passIndex in
      if IS_PASSWORD_AUTHENTICATED (lastAuthStatus cur)
      then case authPolicies s passIndex of
          Some validTime \<Rightarrow>
            if validTime > 0 \<and> authTime cur + validTime < now then REASON_EXPIRED else lastAuthStatus cur
        | None \<Rightarrow> lastAuthStatus cur
      else lastAuthStatus cur)"

definition getNextRequiredLoginIdxs :: "int \<Rightarrow> session \<Rightarrow> nat \<times> string" where
  "getNextRequiredLoginIdxs now s =
     (case find (\<lambda>(i, _). \<not> IS_PASSWORD_AUTHENTICATED (getIdxAuthenticationStatus now s i)) (requiredLoginIdxs s) of
        Some e \<Rightarrow> e
      | None \<Rightarrow> (0xFFFFFFFF, ''''))"

definition getIsFullyLoggedIn :: "int \<Rightarrow> session \<Rightarrow> eCheckMode \<Rightarrow> bool" where
  "getIsFullyLoggedIn now s mode =
     (if requiredLoginIdxs s = [] then False
      else list_all (\<lambda>(i, _).
        let cur = getIdxAuthenticationStatus now s i in
        if mode = CHECK_DISALLOW_EXPIRED_PASSWORDS \<and> cur \<noteq> REASON_AUTHENTICATED then False
        else if mode = CHECK_ALLOW_EXPIRED_PASSWORDS \<and> \<not> IS_PASSWORD_AUTHENTICATED cur then False
        else True) (requiredLoginIdxs s))"

definition setRequiredLoginIdx :: "session \<Rightarrow> (nat, string) std_map \<Rightarrow> session" where
  "setRequiredLoginIdx s value = s\<lparr>requiredLoginIdxs := value\<rparr>"

definition setIndexAuthenticationPolicy :: "session \<Rightarrow> nat \<Rightarrow> int \<Rightarrow> session" where
  "setIndexAuthenticationPolicy s passIndex validTime = s\<lparr>authPolicies := (authPolicies s)(passIndex \<mapsto> validTime)\<rparr>"

definition setSessionId :: "session \<Rightarrow> string \<Rightarrow> session" where
  "setSessionId s value = s\<lparr>sessionId := value\<rparr>"

definition setAuthUser :: "session \<Rightarrow> string \<Rightarrow> session" where
  "setAuthUser s value = s\<lparr>authUser := value\<rparr>"

definition setAuthDomain :: "session \<Rightarrow> string \<Rightarrow> session" where
  "setAuthDomain s value = s\<lparr>authDomain := value\<rparr>"

definition setAppName :: "session \<Rightarrow> string \<Rightarrow> session" where
  "setAppName s value = s\<lparr>appName := value\<rparr>"

definition setLastActivity :: "session \<Rightarrow> int \<Rightarrow> session" where
  "setLastActivity s value = s\<lparr>lastActivity := value\<rparr>"

definition setIsPersistentSession :: "session \<Rightarrow> bool \<Rightarrow> session" where
  "setIsPersistentSession s value = s\<lparr>isPersistentSession := value\<rparr>"

definition getUserDomainPair :: "session \<Rightarrow> string \<times> string" where
  "getUserDomainPair s = (authUser s, authDomain s)"

subsection \<open>Lemmas\<close>

lemma register_fields [simp]:
  "requiredLoginIdxs (registerIndexAuthentication now s i r) = requiredLoginIdxs s"
  "authPolicies (registerIndexAuthentication now s i r) = authPolicies s"
  "authMatrix (registerIndexAuthentication now s i r) = (authMatrix s)(i \<mapsto> \<lparr>lastAuthStatus = r, authTime = now\<rparr>)"
  by (simp_all add: registerIndexAuthentication_def iUpdateLastActivity_def Let_def)

lemma status_register_other [simp]:
  "j \<noteq> i \<Longrightarrow> getIdxAuthenticationStatus now (registerIndexAuthentication t s i r) j = getIdxAuthenticationStatus now s j"
  by (simp add: getIdxAuthenticationStatus_def getCurrentAuthenticationStatus_def Let_def cong: if_cong option.case_cong)

lemma status_register_now [simp]:
  "getIdxAuthenticationStatus now (registerIndexAuthentication now s i r) i = r"
  by (simp add: getIdxAuthenticationStatus_def getCurrentAuthenticationStatus_def Let_def split: option.split) auto

text \<open>The required indexes that are not authenticated.\<close>

definition pending :: "int \<Rightarrow> session \<Rightarrow> nat list" where
  "pending now s = filter (\<lambda>i. \<not> IS_PASSWORD_AUTHENTICATED (getIdxAuthenticationStatus now s i)) (map fst (requiredLoginIdxs s))"

lemma fully_logged_in_allow:
  "getIsFullyLoggedIn now s CHECK_ALLOW_EXPIRED_PASSWORDS \<longleftrightarrow> requiredLoginIdxs s \<noteq> [] \<and> pending now s = []"
  by (simp add: getIsFullyLoggedIn_def pending_def filter_empty_conv list_all_iff Let_def case_prod_unfold)

lemma fully_logged_in_disallow:
  "getIsFullyLoggedIn now s CHECK_DISALLOW_EXPIRED_PASSWORDS \<longleftrightarrow> requiredLoginIdxs s \<noteq> [] \<and>
     (\<forall>i\<in>fst ` set (requiredLoginIdxs s). getIdxAuthenticationStatus now s i = REASON_AUTHENTICATED)"
  by (simp add: getIsFullyLoggedIn_def list_all_iff Let_def case_prod_unfold)

lemma next_required:
  "fst (getNextRequiredLoginIdxs now s) = (case pending now s of [] \<Rightarrow> 0xFFFFFFFF | i # _ \<Rightarrow> i)"
proof -
  have "map_option fst (find (\<lambda>(i, _). \<not> P i) m) = (case filter (\<lambda>i. \<not> P i) (map fst m) of [] \<Rightarrow> None | i # _ \<Rightarrow> Some i)"
    for P and m :: "(nat, string) std_map"
    by (induction m) auto
  from this [of "\<lambda>i. IS_PASSWORD_AUTHENTICATED (getIdxAuthenticationStatus now s i)" "requiredLoginIdxs s"]
  show ?thesis by (auto simp: getNextRequiredLoginIdxs_def pending_def split: option.splits list.splits)
qed

lemma pending_register:
  assumes "std_map_ok (requiredLoginIdxs s)" "IS_PASSWORD_AUTHENTICATED r" "pending now s = i # is"
  shows "pending now (registerIndexAuthentication now s i r) = is"
proof -
  have d: "distinct (map fst (requiredLoginIdxs s))" by (rule std_map_ok_distinct [OF assms(1)])
  have "pending now (registerIndexAuthentication now s i r) = filter (\<lambda>j. j \<noteq> i) (pending now s)"
    using assms(2) by (auto simp: pending_def intro!: filter_cong) (metis status_register_now status_register_other)+
  moreover have "distinct (pending now s)" using d by (simp add: pending_def)
  ultimately show ?thesis using assms(3) by (auto intro!: filter_True)
qed

subsection \<open>Properties\<close>

text \<open>One round of a login: the user proves the index the session asks for.\<close>

definition login_round :: "int \<Rightarrow> Reason \<Rightarrow> session \<Rightarrow> session" where
  "login_round now r s = registerIndexAuthentication now s (fst (getNextRequiredLoginIdxs now s)) r"

lemma login_round_facts:
  assumes "std_map_ok (requiredLoginIdxs s)" "IS_PASSWORD_AUTHENTICATED r" "0xFFFFFFFF \<notin> fst ` set (requiredLoginIdxs s)"
  shows "pending now (login_round now r s) = tl (pending now s)" "requiredLoginIdxs (login_round now r s) = requiredLoginIdxs s"
proof -
  show "requiredLoginIdxs (login_round now r s) = requiredLoginIdxs s" by (simp add: login_round_def)
  show "pending now (login_round now r s) = tl (pending now s)"
  proof (cases "pending now s")
    case Nil
    have "pending now (registerIndexAuthentication now s 0xFFFFFFFF r) = pending now s"
      unfolding pending_def using assms(3) by (intro filter_cong) (auto simp: image_iff)
    then show ?thesis using Nil by (simp add: login_round_def next_required)
  next
    case (Cons i js)
    then show ?thesis using pending_register [OF assms(1,2) Cons] by (simp add: login_round_def next_required)
  qed
qed

lemma pending_rounds:
  assumes "std_map_ok (requiredLoginIdxs s)" "IS_PASSWORD_AUTHENTICATED r" "0xFFFFFFFF \<notin> fst ` set (requiredLoginIdxs s)"
  shows "pending now ((login_round now r ^^ k) s) = drop k (pending now s) \<and>
    requiredLoginIdxs ((login_round now r ^^ k) s) = requiredLoginIdxs s"
  by (induction k) (use assms login_round_facts in \<open>simp_all add: drop_Suc tl_drop\<close>)

text \<open>C8: A user who proves, round after round, the password index the session asks for is fully logged in
  after exactly as many rounds as required indexes were missing: not earlier, and for good as long
  as no policy expires. Then no index is asked for.\<close>

theorem login_completes:
  assumes "std_map_ok (requiredLoginIdxs s)" "requiredLoginIdxs s \<noteq> []" "0xFFFFFFFF \<notin> fst ` set (requiredLoginIdxs s)"
    "IS_PASSWORD_AUTHENTICATED r"
  shows "(getIsFullyLoggedIn now ((login_round now r ^^ k) s) CHECK_ALLOW_EXPIRED_PASSWORDS \<longleftrightarrow> length (pending now s) \<le> k) \<and>
    (fst (getNextRequiredLoginIdxs now ((login_round now r ^^ k) s)) = 0xFFFFFFFF \<longleftrightarrow> length (pending now s) \<le> k)"
proof -
  have p: "pending now ((login_round now r ^^ k) s) = drop k (pending now s)"
    "requiredLoginIdxs ((login_round now r ^^ k) s) = requiredLoginIdxs s"
    using pending_rounds [OF assms(1,4,3)] by auto
  have "set (drop k (pending now s)) \<subseteq> fst ` set (requiredLoginIdxs s)"
    using set_drop_subset [of k "pending now s"] by (auto simp: pending_def)
  then have "drop k (pending now s) \<noteq> [] \<longrightarrow> hd (drop k (pending now s)) \<noteq> 0xFFFFFFFF"
    using assms(3) list.set_sel(1) [of "drop k (pending now s)"] by (metis subsetD)
  then show ?thesis using p assms(2)
    by (auto simp: fully_logged_in_allow next_required split: list.splits)
qed

theorem login_completes_witness:
  "(getIsFullyLoggedIn 9 ((login_round 9 REASON_AUTHENTICATED ^^ 2)
      (setRequiredLoginIdx (Session_new 0 0 ''id'' ''app'') [(0, ''main''), (3, ''pin'')])) CHECK_ALLOW_EXPIRED_PASSWORDS
    \<longleftrightarrow> 2 \<le> (2 :: nat)) \<and>
   (fst (getNextRequiredLoginIdxs 9 ((login_round 9 REASON_AUTHENTICATED ^^ 2)
      (setRequiredLoginIdx (Session_new 0 0 ''id'' ''app'') [(0, ''main''), (3, ''pin'')]))) = 0xFFFFFFFF \<longleftrightarrow> 2 \<le> (2 :: nat))"
  using login_completes [of "setRequiredLoginIdx (Session_new 0 0 ''id'' ''app'') [(0, ''main''), (3, ''pin'')]"
      REASON_AUTHENTICATED 9 2]
  by (simp add: setRequiredLoginIdx_def Session_new_def pending_def getIdxAuthenticationStatus_def
      getCurrentAuthenticationStatus_def)

lemma status_after_events:
  "authMatrix (foldl (\<lambda>s (t, i, r). registerIndexAuthentication t s i r) s es) j =
     (case find (\<lambda>(t, i, r). i = j) (rev es) of
        Some (t, i, r) \<Rightarrow> Some \<lparr>lastAuthStatus = r, authTime = t\<rparr>
      | None \<Rightarrow> authMatrix s j)"
  "authPolicies (foldl (\<lambda>s (t, i, r). registerIndexAuthentication t s i r) s es) = authPolicies s"
  by (induction es rule: rev_induct) auto

text \<open>After any sequence of authentications, successful or not, the status of an index is that of the
  last attempt for this index. Only a success can expire: it does when the index has a policy of more
  than zero seconds and they have passed. A failed attempt undoes an earlier success.\<close>

theorem status_is_last_attempt:
  "getIdxAuthenticationStatus now
     (foldl (\<lambda>s (t, i, r). registerIndexAuthentication t s i r) ((Session_new f l sid app)\<lparr>authPolicies := pol\<rparr>) es) j =
   (case find (\<lambda>(t, i, r). i = j) (rev es) of
      None \<Rightarrow> REASON_UNAUTHENTICATED
    | Some (t, i, r) \<Rightarrow>
        if IS_PASSWORD_AUTHENTICATED r \<and> (\<exists>v. pol j = Some v \<and> v > 0 \<and> t + v < now) then REASON_EXPIRED else r)"
  using status_after_events [of "(Session_new f l sid app)\<lparr>authPolicies := pol\<rparr>" es]
  by (auto simp: getIdxAuthenticationStatus_def getCurrentAuthenticationStatus_def Let_def Session_new_def
      split: option.splits prod.splits)

end
