(* ===== verification/Json.thy ===== *)
theory Json
  imports Std_Map
begin

text \<open>
  The values of JsonCpp as far as the code uses them, and \<^verbatim>\<open>Helpers/mdz_hlp_functions/json.h\<close> and \<^verbatim>\<open>json.cpp\<close>. An
  object is an ordered map of its members. A real number carries the text that \<^verbatim>\<open>asString\<close> gives it and, when it
  has no fraction, its value, because \<^verbatim>\<open>isUInt\<close> accepts it then. Reading a member of something that is neither
  an object nor null throws, as does the conversion of an array or object to text.
\<close>

subsection \<open>Values\<close>

datatype json =
  JsonNull
| JsonBool bool
| JsonInt int
| JsonReal string "int option"
| JsonString string
| JsonArray "json list"
| JsonObject "(string \<times> json) list"

text \<open>What ends a method early: a null pointer that is followed, or an exception.\<close>

datatype failure = Null_Dereference | Exception string

definition json_isObject :: "json \<Rightarrow> bool" where
  "json_isObject j = (case j of JsonObject _ \<Rightarrow> True | _ \<Rightarrow> False)"

definition json_isArray :: "json \<Rightarrow> bool" where
  "json_isArray j = (case j of JsonArray _ \<Rightarrow> True | _ \<Rightarrow> False)"

text \<open>\<^verbatim>\<open>operator[] const\<close> with a name, and \<^verbatim>\<open>getMemberNames\<close>.\<close>

definition json_member :: "json \<Rightarrow> string \<Rightarrow> failure + json" where
  "json_member j k =
     (case j of
        JsonNull \<Rightarrow> Inr JsonNull
      | JsonObject m \<Rightarrow> Inr (case map_of m k of Some v \<Rightarrow> v | None \<Rightarrow> JsonNull)
      | _ \<Rightarrow> Inl (Exception ''in Json::Value::find(begin, end): requires objectValue or nullValue''))"

text \<open>\<^verbatim>\<open>isMember\<close> of JsonCpp throws for a value that is neither an object nor null.\<close>

definition json_isMember :: "json \<Rightarrow> string \<Rightarrow> failure + bool" where
  "json_isMember j k =
     (case j of
        JsonNull \<Rightarrow> Inr False
      | JsonObject m \<Rightarrow> Inr (map_of m k \<noteq> None)
      | _ \<Rightarrow> Inl (Exception ''in Json::Value::find(begin, end): requires objectValue or nullValue''))"

definition json_getMemberNames :: "json \<Rightarrow> failure + string list" where
  "json_getMemberNames j =
     (case j of
        JsonNull \<Rightarrow> Inr []
      | JsonObject m \<Rightarrow> Inr (map fst m)
      | _ \<Rightarrow> Inl (Exception ''in Json::Value::getMemberNames(), value must be objectValue''))"

definition json_asString :: "json \<Rightarrow> failure + string" where
  "json_asString j =
     (case j of
        JsonNull \<Rightarrow> Inr ''''
      | JsonBool b \<Rightarrow> Inr (if b then ''true'' else ''false'')
      | JsonInt i \<Rightarrow> Inr (to_string_int i)
      | JsonReal t _ \<Rightarrow> Inr t
      | JsonString s \<Rightarrow> Inr s
      | JsonArray _ \<Rightarrow> Inl (Exception ''Type is not convertible to string'')
      | JsonObject _ \<Rightarrow> Inl (Exception ''Type is not convertible to string''))"

text \<open>How answers are built: \<^verbatim>\<open>x[i] = v\<close> for successive \<^verbatim>\<open>i\<close> and \<^verbatim>\<open>x["k"] = v\<close>, from a null value, which is what
  remains when nothing is assigned.\<close>

definition json_items :: "json list \<Rightarrow> json" where
  "json_items xs = (if xs = [] then JsonNull else JsonArray xs)"

definition json_fields :: "(string \<times> json) list \<Rightarrow> json" where
  "json_fields fs = (if fs = [] then JsonNull else JsonObject (fold (\<lambda>(k, v). std_put k v) fs []))"

text \<open>The fields \<^verbatim>\<open>x["k"][i] = v\<close>.\<close>

definition json_list_field :: "string \<Rightarrow> json list \<Rightarrow> (string \<times> json) list" where
  "json_list_field k xs = (if xs = [] then [] else [(k, JsonArray xs)])"

subsection \<open>The macros of json.h\<close>

definition json_get :: "json \<Rightarrow> string \<Rightarrow> json option" where
  "json_get j x = (case j of JsonObject m \<Rightarrow> map_of m x | _ \<Rightarrow> None)"

definition JSON_ASSTRING :: "json \<Rightarrow> string \<Rightarrow> string \<Rightarrow> string" where
  "JSON_ASSTRING j x def = (case json_get j x of Some (JsonString s) \<Rightarrow> s | _ \<Rightarrow> def)"

definition JSON_ASBOOL :: "json \<Rightarrow> string \<Rightarrow> bool \<Rightarrow> bool" where
  "JSON_ASBOOL j x def = (case json_get j x of Some (JsonBool b) \<Rightarrow> b | _ \<Rightarrow> def)"

definition json_integral :: "json option \<Rightarrow> int option" where
  "json_integral v = (case v of Some (JsonInt i) \<Rightarrow> Some i | Some (JsonReal _ n) \<Rightarrow> n | _ \<Rightarrow> None)"

definition json_unsigned :: "nat \<Rightarrow> json option \<Rightarrow> nat \<Rightarrow> nat" where
  "json_unsigned width v def =
     (case json_integral v of Some i \<Rightarrow> if 0 \<le> i \<and> i < 2 ^ width then nat i else def | None \<Rightarrow> def)"

definition JSON_ASUINT :: "json \<Rightarrow> string \<Rightarrow> nat \<Rightarrow> nat" where
  "JSON_ASUINT j x def = json_unsigned 32 (json_get j x) def"

definition JSON_ASUINT64 :: "json \<Rightarrow> string \<Rightarrow> nat \<Rightarrow> nat" where
  "JSON_ASUINT64 j x def = json_unsigned 64 (json_get j x) def"

definition json_strings :: "json list \<Rightarrow> string list" where
  "json_strings xs = concat (map (\<lambda>x. case x of JsonString s \<Rightarrow> [s] | _ \<Rightarrow> []) xs)"

definition jsonToStringList :: "json \<Rightarrow> string \<Rightarrow> string list" where
  "jsonToStringList v sub =
     (if sub = [] \<and> json_isArray v then (case v of JsonArray xs \<Rightarrow> json_strings xs | _ \<Rightarrow> [])
      else if sub \<noteq> [] then (case json_get v sub of Some (JsonArray xs) \<Rightarrow> json_strings xs | _ \<Rightarrow> [])
      else [])"

subsection \<open>Lemmas\<close>

lemma JSON_ASUINT_bounded: "def < 2 ^ 32 \<Longrightarrow> JSON_ASUINT j x def < 2 ^ 32"
  by (auto simp: JSON_ASUINT_def json_unsigned_def split: option.splits)

lemma JSON_ASUINT64_bounded: "def < 2 ^ 64 \<Longrightarrow> JSON_ASUINT64 j x def < 2 ^ 64"
  by (auto simp: JSON_ASUINT64_def json_unsigned_def split: option.splits)

lemma fold_put:
  assumes "std_map_ok m"
  shows "std_map_ok (fold (\<lambda>(k, v). std_put k v) fs m) \<and>
    map_of (fold (\<lambda>(k, v). std_put k v) fs m) k = (case map_of (rev fs) k of Some v \<Rightarrow> Some v | None \<Rightarrow> map_of m k)"
  using assms
proof (induction fs arbitrary: m)
  case (Cons f fs)
  then show ?case by (cases f) (auto simp: map_add_def split: option.splits)
qed simp

text \<open>What a field of a built object reads back as.\<close>

lemma json_get_fields [simp]: "json_get (json_fields fs) k = map_of (rev fs) k"
  using fold_put [of "[]" fs k] by (auto simp: json_fields_def json_get_def split: option.splits)

lemma json_member_fields [simp]:
  "json_member (json_fields fs) k = Inr (case map_of (rev fs) k of Some v \<Rightarrow> v | None \<Rightarrow> JsonNull)"
  using fold_put [of "[]" fs k] by (auto simp: json_fields_def json_member_def split: option.splits)

end
