(* ===== verification/Interleaving.thy ===== *)
theory Interleaving
  imports Prelude
begin

text \<open>
  What the models of code that runs in several threads share. A thread runs from one acquisition of the
  component's mutex to the next release of it, or to its next wait, in one step, because nothing else
  reads or writes the state meanwhile; the steps of the threads are a relation and any thread may take the
  next one. A condition variable is the set of the threads that sleep on it: \<^verbatim>\<open>notify_one\<close> wakes one of
  them if there is one, \<^verbatim>\<open>notify_all\<close> all of them, and a thread that is woken runs again when the mutex is
  free. What a thread is doing is a function of the number of the thread.
\<close>

inductive reach :: "('s \<Rightarrow> bool) \<Rightarrow> ('s \<Rightarrow> 's \<Rightarrow> bool) \<Rightarrow> 's \<Rightarrow> bool" for init step where
  reach_init: "init s \<Longrightarrow> reach init step s"
| reach_step: "reach init step s \<Longrightarrow> step s t \<Longrightarrow> reach init step t"

text \<open>An invariant of a machine holds in all the states it reaches.\<close>

locale machine_invariant =
  fixes init :: "'s \<Rightarrow> bool" and step :: "'s \<Rightarrow> 's \<Rightarrow> bool" and I :: "'s \<Rightarrow> bool"
  assumes holds_initially: "init s \<Longrightarrow> I s"
    and kept: "I s \<Longrightarrow> step s t \<Longrightarrow> I t"
begin

lemma reachable: "reach init step s \<Longrightarrow> I s"
  by (induction rule: reach.induct) (auto intro: holds_initially kept)

lemma run_keeps: "step\<^sup>*\<^sup>* s t \<Longrightarrow> I s \<Longrightarrow> I t"
  by (induction rule: rtranclp_induct) (auto intro: kept)

end

subsection \<open>Condition variables\<close>

definition notify_all :: "('a \<Rightarrow> bool) \<Rightarrow> ('a \<Rightarrow> 'a) \<Rightarrow> (nat \<Rightarrow> 'a) \<Rightarrow> nat \<Rightarrow> 'a" where
  "notify_all asleep awake f u = (if asleep (f u) then awake (f u) else f u)"

inductive notify_one :: "('a \<Rightarrow> bool) \<Rightarrow> ('a \<Rightarrow> 'a) \<Rightarrow> (nat \<Rightarrow> 'a) \<Rightarrow> (nat \<Rightarrow> 'a) \<Rightarrow> bool" for asleep awake f where
  nobody: "(\<And>u. \<not> asleep (f u)) \<Longrightarrow> notify_one asleep awake f f"
| somebody: "asleep (f u) \<Longrightarrow> notify_one asleep awake f (f(u := awake (f u)))"

lemma notify_one_cases:
  assumes "notify_one asleep awake f f'"
  obtains "\<And>u. \<not> asleep (f u)" "f' = f" | u where "asleep (f u)" "f' = f(u := awake (f u))"
  using assms by (auto elim: notify_one.cases)

text \<open>Notifying changes nothing about a thread but whether it sleeps.\<close>

lemma notify_one_frame:
  assumes "notify_one asleep awake f f'" "\<And>a. asleep a \<Longrightarrow> P (awake a) = P a"
  shows "P (f' u) = P (f u)"
  using assms by (auto elim!: notify_one_cases)

lemma notify_one_wakes_only:
  assumes "notify_one asleep awake f f'" "f' u \<noteq> f u"
  shows "asleep (f u) \<and> f' u = awake (f u)"
  using assms by (auto elim!: notify_one_cases split: if_splits)

lemma notify_one_exists: "\<exists>f'. notify_one asleep awake f f'"
  by (cases "\<exists>u. asleep (f u)") (auto intro: notify_one.intros)

subsection \<open>Wake-ups that are not lost\<close>

text \<open>Threads sleep until there is work. A helper is a thread that is awake and will look for work, or that is
  about to notify. Work is covered when every piece of it has a helper, as long as somebody sleeps.\<close>

locale wake_ups =
  fixes asleep helper :: "'a \<Rightarrow> bool" and wake :: "'a \<Rightarrow> 'a"
  assumes sleeper_no_helper: "asleep d \<Longrightarrow> \<not> helper d"
    and wake_helps: "asleep d \<Longrightarrow> helper (wake d)"
begin

definition settled :: "(nat \<Rightarrow> 'a) \<Rightarrow> bool" where
  "settled f \<longleftrightarrow> finite {u. asleep (f u)} \<and> finite {u. helper (f u)}"

definition covered :: "(nat \<Rightarrow> 'a) \<Rightarrow> nat \<Rightarrow> bool" where
  "covered f n \<longleftrightarrow> settled f \<and> ((\<exists>u. asleep (f u)) \<longrightarrow> n \<le> card {u. helper (f u)})"

lemma helper_awake: "helper d \<Longrightarrow> \<not> asleep d"
  using sleeper_no_helper by blast

lemma finite_upd: "finite {u. P (f u)} \<Longrightarrow> finite {u. P ((f(t := d)) u)}" for P :: "'a \<Rightarrow> bool"
  by (rule finite_subset [of _ "insert t {u. P (f u)}"]) auto

lemma settled_upd: "settled f \<Longrightarrow> settled (f(t := d))"
  using finite_upd [of asleep f t d] finite_upd [of helper f t d] by (simp add: settled_def)

lemma covered_settled: "covered f n \<Longrightarrow> settled f" "covered f n \<Longrightarrow> settled (f(t := d))"
  using settled_upd by (auto simp: covered_def)

lemma finite_helpers: "settled f \<Longrightarrow> finite {u. helper (f u)}"
  by (simp add: settled_def)

lemma covered_D: "covered f n \<Longrightarrow> asleep (f u) \<Longrightarrow> n \<le> card {u. helper (f u)}"
  by (auto simp: covered_def)

lemma covered_I: "settled f \<Longrightarrow> (\<And>u. asleep (f u) \<Longrightarrow> n \<le> card {u. helper (f u)}) \<Longrightarrow> covered f n"
  by (auto simp: covered_def)

lemma asleep_upd: "asleep ((f(t := d)) u) \<Longrightarrow> \<not> asleep d \<Longrightarrow> asleep (f u)"
  by (auto split: if_splits)

text \<open>New work by a thread that goes on to notify.\<close>

lemma covered_new:
  assumes "covered f n" "helper d" "\<not> helper (f t)"
  shows "covered (f(t := d)) (Suc n)"
proof (rule covered_I)
  show "settled (f(t := d))" using assms(1) by (rule covered_settled)
  show "Suc n \<le> card {u. helper ((f(t := d)) u)}" if "asleep ((f(t := d)) u)" for u
  proof -
    have "{u. helper ((f(t := d)) u)} = insert t {u. helper (f u)}" using assms(2) by auto
    then have "card {u. helper ((f(t := d)) u)} = Suc (card {u. helper (f u)})"
      using finite_helpers [OF covered_settled(1) [OF assms(1)]] assms(3) by simp
    then show ?thesis using covered_D [OF assms(1) asleep_upd [OF that helper_awake [OF assms(2)]]] by simp
  qed
qed

text \<open>Work taken.\<close>

lemma covered_less:
  assumes "covered f (Suc n)" "\<not> asleep d"
  shows "covered (f(t := d)) n"
proof (rule covered_I)
  show set': "settled (f(t := d))" using assms(1) by (rule covered_settled)
  show "n \<le> card {u. helper ((f(t := d)) u)}" if "asleep ((f(t := d)) u)" for u
  proof -
    have "card ({u. helper (f u)} - {t}) \<le> card {u. helper ((f(t := d)) u)}"
      by (rule card_mono [OF finite_helpers [OF set']]) auto
    moreover have "Suc n \<le> card {u. helper (f u)}" using covered_D [OF assms(1) asleep_upd [OF that assms(2)]] .
    moreover have "card {u. helper (f u)} \<le> Suc (card ({u. helper (f u)} - {t}))"
      using card.remove [OF finite_helpers [OF covered_settled(1) [OF assms(1)]], of t] by (cases "helper (f t)") simp_all
    ultimately show ?thesis by linarith
  qed
qed

lemma covered_0: "covered f n \<Longrightarrow> covered (f(t := d)) 0"
  by (simp add: covered_I covered_settled)

lemma covered_mono: "covered f n \<Longrightarrow> m \<le> n \<Longrightarrow> covered f m"
  by (auto simp: covered_def)

lemma covered_same:
  assumes "covered f n" "\<not> asleep d" "helper (f t) \<Longrightarrow> helper d"
  shows "covered (f(t := d)) n"
proof (rule covered_I)
  show set': "settled (f(t := d))" using assms(1) by (rule covered_settled)
  show "n \<le> card {u. helper ((f(t := d)) u)}" if "asleep ((f(t := d)) u)" for u
  proof -
    have "card {u. helper (f u)} \<le> card {u. helper ((f(t := d)) u)}"
      by (rule card_mono [OF finite_helpers [OF set']]) (use assms(3) in auto)
    then show ?thesis using covered_D [OF assms(1) asleep_upd [OF that assms(2)]] by simp
  qed
qed

lemma covered_wake: "covered f n \<Longrightarrow> asleep (f t) \<Longrightarrow> covered (f(t := wake (f t))) n"
  using covered_same [of f n "wake (f t)" t] wake_helps helper_awake by blast

text \<open>The notification itself: the notifier is replaced by the thread it wakes.\<close>

lemma covered_notify:
  assumes "covered f n" "helper (f t)" "\<not> asleep d" "\<not> helper d" "notify_one asleep wake (f(t := d)) f'"
  shows "covered f' n"
  using assms(5)
proof (cases rule: notify_one_cases)
  case 1
  then show ?thesis using covered_settled(2) [OF assms(1)] by (auto intro: covered_I)
next
  case (2 u)
  then have u: "u \<noteq> t" "asleep (f u)" using assms(3) by (auto split: if_splits)
  let ?g = "f(u := wake (f u))"
  have f': "f' = ?g(t := d)" using 2 u(1) by (simp add: fun_upd_twist)
  have fin: "finite {v. helper (f v)}" using finite_helpers [OF covered_settled(1) [OF assms(1)]] .
  have "{v. helper (f' v)} = insert u ({v. helper (f v)} - {t})"
    using f' u assms(4) wake_helps by auto
  then have "card {v. helper (f' v)} = card {v. helper (f v)}"
    using fin u assms(2) sleeper_no_helper card_Suc_Diff1 [OF fin, of t] by (simp add: card_insert_if)
  then show ?thesis
    using covered_D [OF assms(1) u(2)] settled_upd [OF settled_upd [OF covered_settled(1) [OF assms(1)]]]
    unfolding f' by (auto intro: covered_I)
qed

text \<open>A notification of another condition variable changes nothing here.\<close>

lemma covered_frame:
  assumes "covered f n" "\<And>u. asleep (f' u) = asleep (f u)" "\<And>u. helper (f' u) = helper (f u)"
  shows "covered f' n"
  using assms by (simp add: covered_def settled_def)

lemma covered_all:
  assumes "covered f n"
  shows "covered (notify_all asleep wake f) n"
proof -
  have "{u. helper (notify_all asleep wake f u)} = {u. asleep (f u)} \<union> {u. helper (f u)}"
    "\<not> asleep (notify_all asleep wake f u)" for u
    using wake_helps helper_awake by (auto simp: notify_all_def split: if_splits)
  then show ?thesis using covered_settled(1) [OF assms] by (auto simp: covered_def settled_def)
qed

end

end
