(* ===== verification/Safe_Map.thy ===== *)
theory Safe_Map
  imports Std_Map Interleaving
begin

text \<open>
  \<^verbatim>\<open>Threads/mdz_thr_safecontainers/map.h\<close> and \<^verbatim>\<open>mapitem.cpp\<close>: a map whose elements are opened by several
  threads and deleted by one of them, which first waits until nobody has the element open. The operations are
  functions on the map; \<^verbatim>\<open>destroyElement\<close> is split at the wait for its condition variable. The machine at the
  end runs them in threads that keep to the protocol: they release what they opened, and they add objects that
  are neither deleted nor in the map. Pointers to objects are numbers, the null pointer is None.
\<close>

subsection \<open>Operations\<close>

record sMapElement =
  rdElement :: "nat option"
  readers :: "32 word"

type_synonym 'k xMap = "('k, sMapElement) std_map"

definition getKeys :: "'k xMap \<Rightarrow> 'k set" where
  "getKeys m = fst ` set m"

definition checkElement :: "'k xMap \<Rightarrow> 'k \<Rightarrow> bool" where
  "checkElement m k \<longleftrightarrow> map_of m k \<noteq> None"

definition addElement :: "'k::linorder xMap \<Rightarrow> 'k \<Rightarrow> nat option \<Rightarrow> 'k xMap \<times> bool" where
  "addElement m k element =
     (case map_of m k of
        None \<Rightarrow> (std_put k \<lparr>rdElement = element, readers = 0\<rparr> m, True)
      | Some _ \<Rightarrow> (m, False))"

definition openElement :: "'k::linorder xMap \<Rightarrow> 'k \<Rightarrow> 'k xMap \<times> nat option" where
  "openElement m k =
     (case map_of m k of
        None \<Rightarrow> (m, None)
      | Some x \<Rightarrow> (case rdElement x of
          None \<Rightarrow> (m, None)
        | Some e \<Rightarrow> (std_put k (x\<lparr>readers := readers x + 1\<rparr>) m, Some e)))"

text \<open>The result of \<^verbatim>\<open>releaseElement\<close> is the exception, or the map, the value and whether
  \<^verbatim>\<open>cond_zeroReaders\<close> of the element is notified.\<close>

definition releaseElement :: "'k::linorder xMap \<Rightarrow> 'k \<Rightarrow> string + 'k xMap \<times> bool \<times> bool" where
  "releaseElement m k =
     (case map_of m k of
        None \<Rightarrow> Inr (m, False, False)
      | Some x \<Rightarrow>
          if readers x = 0 then Inl ''Invalid close on Mutex MAP''
          else let r = readers x - 1 in Inr (std_put k (x\<lparr>readers := r\<rparr>) m, True, r = 0))"

text \<open>\<^verbatim>\<open>destroyElement\<close> up to its loop: the element is taken out of reach of \<^verbatim>\<open>openElement\<close>. Without one
  the function returns false.\<close>

definition destroyElement_take :: "'k::linorder xMap \<Rightarrow> 'k \<Rightarrow> 'k xMap \<times> nat option" where
  "destroyElement_take m k =
     (case map_of m k of
        None \<Rightarrow> (m, None)
      | Some x \<Rightarrow> (case rdElement x of
          None \<Rightarrow> (m, None)
        | Some e \<Rightarrow> (std_put k (x\<lparr>rdElement := None\<rparr>) m, Some e)))"

text \<open>One test of the loop: None while there are readers, then the map without the element.\<close>

definition destroyElement_test :: "'k xMap \<Rightarrow> 'k \<Rightarrow> 'k xMap option" where
  "destroyElement_test m k =
     (case map_of m k of
        Some x \<Rightarrow> if readers x \<noteq> 0 then None else Some (std_erase k m)
      | None \<Rightarrow> Some m)"

definition waitForEmpty_test :: "'k xMap \<Rightarrow> bool" where
  "waitForEmpty_test m \<longleftrightarrow> m = []"

text \<open>\<^verbatim>\<open>MapItem\<close>: \<^verbatim>\<open>stopReaders\<close> raises the flag and calls \<^verbatim>\<open>stopSignal\<close> of the derived class.\<close>

record mapItem =
  xMapFinished :: bool

definition MapItem_new :: mapItem where
  "MapItem_new = \<lparr>xMapFinished = False\<rparr>"

definition stopReaders :: "('a mapItem_scheme \<Rightarrow> 'a mapItem_scheme) \<Rightarrow> 'a mapItem_scheme \<Rightarrow> 'a mapItem_scheme" where
  "stopReaders stopSignal i = stopSignal (i\<lparr>xMapFinished := True\<rparr>)"

definition MapItem_stopSignal :: "'a mapItem_scheme \<Rightarrow> 'a mapItem_scheme" where
  "MapItem_stopSignal i = i"

subsection \<open>Threads\<close>

text \<open>What a thread does: run, wait in \<^verbatim>\<open>destroyElement\<close> for the readers of an element, or wait in
  \<^verbatim>\<open>waitForEmpty\<close>. The flag tells whether it was woken.\<close>

datatype 'k map_doing = Running | Destroying 'k nat bool | Emptying bool

primrec zeroReaders_sleeper :: "'k \<Rightarrow> 'k map_doing \<Rightarrow> bool" where
  "zeroReaders_sleeper k Running = False"
| "zeroReaders_sleeper k (Destroying k' e woken) = (k' = k \<and> \<not> woken)"
| "zeroReaders_sleeper k (Emptying woken) = False"

primrec zeroMaps_sleeper :: "'k map_doing \<Rightarrow> bool" where
  "zeroMaps_sleeper Running = False"
| "zeroMaps_sleeper (Destroying k e woken) = False"
| "zeroMaps_sleeper (Emptying woken) = (\<not> woken)"

primrec map_wake :: "'k map_doing \<Rightarrow> 'k map_doing" where
  "map_wake Running = Running"
| "map_wake (Destroying k e woken) = Destroying k e True"
| "map_wake (Emptying woken) = Emptying True"

text \<open>The key and the object a thread destroys.\<close>

primrec destroying :: "'k map_doing \<Rightarrow> ('k \<times> nat) option" where
  "destroying Running = None"
| "destroying (Destroying k e woken) = Some (k, e)"
| "destroying (Emptying woken) = None"

text \<open>The state: the map, what each thread does, the pairs of a thread and an element it has open, and the
  objects deleted and told to stop so far.\<close>

record 'k map_state =
  ms_map :: "'k xMap"
  ms_doing :: "nat \<Rightarrow> 'k map_doing"
  ms_open :: "(nat \<times> 'k \<times> nat) list"
  ms_deleted :: "nat set"
  ms_stopped :: "nat set"

definition map_start :: "'k map_state \<Rightarrow> bool" where
  "map_start s \<longleftrightarrow> s = \<lparr>ms_map = [], ms_doing = (\<lambda>_. Running), ms_open = [], ms_deleted = {}, ms_stopped = {}\<rparr>"

text \<open>An object belongs to a key while the map refers to it or a thread destroys it.\<close>

definition owned :: "'k map_state \<Rightarrow> 'k \<Rightarrow> nat \<Rightarrow> bool" where
  "owned s k e \<longleftrightarrow> (\<exists>x. map_of (ms_map s) k = Some x \<and> rdElement x = Some e) \<or> (\<exists>t. destroying (ms_doing s t) = Some (k, e))"

inductive destroy_loop :: "nat \<Rightarrow> 'k \<Rightarrow> nat \<Rightarrow> 'k map_state \<Rightarrow> 'k map_state \<Rightarrow> bool" for t k e s where
  loop_waits: "destroyElement_test (ms_map s) k = None \<Longrightarrow>
    destroy_loop t k e s (s\<lparr>ms_doing := (ms_doing s)(t := Destroying k e False), ms_stopped := insert e (ms_stopped s)\<rparr>)"
| loop_deletes: "destroyElement_test (ms_map s) k = Some m \<Longrightarrow>
    (if m = [] then notify_one zeroMaps_sleeper map_wake ((ms_doing s)(t := Running)) f else f = (ms_doing s)(t := Running)) \<Longrightarrow>
    destroy_loop t k e s (s\<lparr>ms_map := m, ms_doing := f, ms_deleted := insert e (ms_deleted s)\<rparr>)"

inductive map_step :: "'k::linorder map_state \<Rightarrow> 'k map_state \<Rightarrow> bool" for s where
  add: "ms_doing s t = Running \<Longrightarrow> e \<notin> ms_deleted s \<Longrightarrow> (\<And>k'. \<not> owned s k' e) \<Longrightarrow>
    map_step s (s\<lparr>ms_map := fst (addElement (ms_map s) k (Some e))\<rparr>)"
| open_element: "ms_doing s t = Running \<Longrightarrow> openElement (ms_map s) k = (m, Some e) \<Longrightarrow>
    map_step s (s\<lparr>ms_map := m, ms_open := (t, k, e) # ms_open s\<rparr>)"
| release: "ms_doing s t = Running \<Longrightarrow> (t, k, e) \<in> set (ms_open s) \<Longrightarrow>
    releaseElement (ms_map s) k = Inr (m, True, zero) \<Longrightarrow>
    (if zero then notify_one (zeroReaders_sleeper k) map_wake (ms_doing s) f else f = ms_doing s) \<Longrightarrow>
    map_step s (s\<lparr>ms_map := m, ms_open := remove1 (t, k, e) (ms_open s), ms_doing := f\<rparr>)"
| destroy: "ms_doing s t = Running \<Longrightarrow> destroyElement_take (ms_map s) k = (m, Some e) \<Longrightarrow>
    destroy_loop t k e (s\<lparr>ms_map := m\<rparr>) s' \<Longrightarrow> map_step s s'"
| destroy_woken: "ms_doing s t = Destroying k e True \<Longrightarrow> destroy_loop t k e s s' \<Longrightarrow> map_step s s'"
| wait_empty: "ms_doing s t = Running \<Longrightarrow> \<not> waitForEmpty_test (ms_map s) \<Longrightarrow>
    map_step s (s\<lparr>ms_doing := (ms_doing s)(t := Emptying False)\<rparr>)"
| empty_woken: "ms_doing s t = Emptying True \<Longrightarrow>
    map_step s (s\<lparr>ms_doing := (ms_doing s)(t := if waitForEmpty_test (ms_map s) then Running else Emptying False)\<rparr>)"
| spurious: "map_step s (s\<lparr>ms_doing := (ms_doing s)(t := map_wake (ms_doing s t))\<rparr>)"

inductive_cases destroy_loopE: "destroy_loop t k e s s'"

text \<open>The number of times an element is open. The counter of the code has 32 bits; the steps below are those
  after which no element is open more often than it can count.\<close>

definition holders :: "'k map_state \<Rightarrow> 'k \<Rightarrow> nat" where
  "holders s k = length (filter (\<lambda>(t, k', e). k' = k) (ms_open s))"

definition bounded_step :: "'k::linorder map_state \<Rightarrow> 'k map_state \<Rightarrow> bool" where
  "bounded_step s s' \<longleftrightarrow> map_step s s' \<and> (\<forall>k. holders s' k < 2 ^ 32)"

subsection \<open>Invariant\<close>

text \<open>The counter of an element counts its holders; what is open belongs to its key; an object belongs to one
  key and a key has one object, which is not deleted; a key that is being destroyed is out of reach, by one
  thread, which only sleeps while there are readers.\<close>

definition map_ok :: "'k::linorder map_state \<Rightarrow> bool" where
  "map_ok s \<longleftrightarrow> std_map_ok (ms_map s) \<and> (\<forall>k. holders s k < 2 ^ 32) \<and>
     (\<forall>k x. map_of (ms_map s) k = Some x \<longrightarrow> readers x = word_of_nat (holders s k)) \<and>
     (\<forall>k. map_of (ms_map s) k = None \<longrightarrow> holders s k = 0) \<and>
     (\<forall>t k e. (t, k, e) \<in> set (ms_open s) \<longrightarrow> owned s k e) \<and>
     (\<forall>k e. owned s k e \<longrightarrow> e \<notin> ms_deleted s) \<and>
     (\<forall>k k' e. owned s k e \<longrightarrow> owned s k' e \<longrightarrow> k = k') \<and>
     (\<forall>t k e. destroying (ms_doing s t) = Some (k, e) \<longrightarrow> (\<exists>x. map_of (ms_map s) k = Some x \<and> rdElement x = None)) \<and>
     (\<forall>t u k e e'. destroying (ms_doing s t) = Some (k, e) \<longrightarrow> destroying (ms_doing s u) = Some (k, e') \<longrightarrow> t = u) \<and>
     (\<forall>t k. zeroReaders_sleeper k (ms_doing s t) \<longrightarrow> holders s k \<noteq> 0)"

lemma sleeper_wake [simp]:
  "destroying (map_wake d) = destroying d" "\<not> zeroReaders_sleeper k (map_wake d)" "\<not> zeroMaps_sleeper (map_wake d)"
  by (cases d; simp)+

lemma sleeper_destroys: "zeroReaders_sleeper k d \<Longrightarrow> \<exists>e. destroying d = Some (k, e)"
  by (cases d) auto

lemma notify_doing:
  assumes "notify_one P map_wake f f'"
  shows "destroying (f' u) = destroying (f u)" "zeroReaders_sleeper k (f' u) \<Longrightarrow> zeroReaders_sleeper k (f u)"
  using assms by (auto elim!: notify_one_cases split: if_splits)

lemma holders_simps [simp]:
  "holders (s\<lparr>ms_map := m\<rparr>) = holders s" "holders (s\<lparr>ms_doing := f\<rparr>) = holders s"
  "holders (s\<lparr>ms_deleted := D\<rparr>) = holders s" "holders (s\<lparr>ms_stopped := S\<rparr>) = holders s"
  "holders (s\<lparr>ms_open := (t, k, e) # xs\<rparr>) k' = holders (s\<lparr>ms_open := xs\<rparr>) k' + (if k = k' then 1 else 0)"
  by (auto simp: holders_def)

lemma holders_remove1:
  "(t, k, e) \<in> set (ms_open s) \<Longrightarrow> holders (s\<lparr>ms_open := remove1 (t, k, e) (ms_open s)\<rparr>) k' = holders s k' - (if k = k' then 1 else 0)"
  by (auto simp: holders_def filter_remove1 length_remove1)

lemma holders_pos: "(t, k, e) \<in> set (ms_open s) \<Longrightarrow> 0 < holders s k"
  by (force simp: holders_def filter_empty_conv)

lemma map_okD:
  assumes "map_ok s"
  shows "std_map_ok (ms_map s)" "holders s k < 2 ^ 32"
    "map_of (ms_map s) k = Some x \<Longrightarrow> readers x = word_of_nat (holders s k)"
    "map_of (ms_map s) k = None \<Longrightarrow> holders s k = 0"
    "(t, k, e) \<in> set (ms_open s) \<Longrightarrow> owned s k e"
    "owned s k e \<Longrightarrow> e \<notin> ms_deleted s"
    "owned s k e \<Longrightarrow> owned s k' e \<Longrightarrow> k = k'"
    "destroying (ms_doing s t) = Some (k, e) \<Longrightarrow> \<exists>x. map_of (ms_map s) k = Some x \<and> rdElement x = None"
    "destroying (ms_doing s t) = Some (k, e) \<Longrightarrow> destroying (ms_doing s u) = Some (k, e') \<Longrightarrow> t = u"
    "zeroReaders_sleeper k (ms_doing s t) \<Longrightarrow> holders s k \<noteq> 0"
  by (insert assms, unfold map_ok_def, elim conjE, (assumption | erule allE, assumption | metis))+

lemma map_okI:
  assumes "std_map_ok (ms_map s)" "\<And>k. holders s k < 2 ^ 32"
    "\<And>k x. map_of (ms_map s) k = Some x \<Longrightarrow> readers x = word_of_nat (holders s k)"
    "\<And>k. map_of (ms_map s) k = None \<Longrightarrow> holders s k = 0"
    "\<And>t k e. (t, k, e) \<in> set (ms_open s) \<Longrightarrow> owned s k e"
    "\<And>k e. owned s k e \<Longrightarrow> e \<notin> ms_deleted s"
    "\<And>k k' e. owned s k e \<Longrightarrow> owned s k' e \<Longrightarrow> k = k'"
    "\<And>t k e. destroying (ms_doing s t) = Some (k, e) \<Longrightarrow> \<exists>x. map_of (ms_map s) k = Some x \<and> rdElement x = None"
    "\<And>t u k e e'. destroying (ms_doing s t) = Some (k, e) \<Longrightarrow> destroying (ms_doing s u) = Some (k, e') \<Longrightarrow> t = u"
    "\<And>t k. zeroReaders_sleeper k (ms_doing s t) \<Longrightarrow> holders s k \<noteq> 0"
  shows "map_ok s"
  unfolding map_ok_def using assms by (intro conjI allI impI; (elim exE)?) blast+

lemma not_destroying:
  "map_ok s \<Longrightarrow> map_of (ms_map s) k = None \<Longrightarrow> destroying (ms_doing s t) \<noteq> Some (k, e)"
  "map_ok s \<Longrightarrow> map_of (ms_map s) k = Some x \<Longrightarrow> rdElement x = Some e' \<Longrightarrow> destroying (ms_doing s t) \<noteq> Some (k, e)"
  using map_okD(8) by fastforce+

lemma ok_add:
  assumes "map_ok s" "e \<notin> ms_deleted s" "\<And>k'. \<not> owned s k' e"
  shows "map_ok (s\<lparr>ms_map := fst (addElement (ms_map s) k (Some e))\<rparr>)"
proof (cases "map_of (ms_map s) k")
  case None
  have o: "owned (s\<lparr>ms_map := std_put k \<lparr>rdElement = Some e, readers = 0\<rparr> (ms_map s)\<rparr>) k' e' \<longleftrightarrow>
      owned s k' e' \<or> (k' = k \<and> e' = e)" for k' e'
    using assms(1) None by (auto simp: owned_def map_ok_def)
  show ?thesis using assms None not_destroying(1) [OF assms(1) None]
    by (auto simp: map_ok_def o addElement_def)  
next
  case (Some x)
  then show ?thesis using assms by (simp add: addElement_def)
qed

lemma openElement_Some:
  "openElement m k = (m', Some e) \<longleftrightarrow>
    (\<exists>x. map_of m k = Some x \<and> rdElement x = Some e \<and> m' = std_put k (x\<lparr>readers := readers x + 1\<rparr>) m)"
  by (auto simp: openElement_def split: option.splits)

lemma ok_open:
  assumes "map_ok s" "openElement (ms_map s) k = (m, Some e)"
    "\<forall>k'. holders (s\<lparr>ms_map := m, ms_open := (t, k, e) # ms_open s\<rparr>) k' < 2 ^ 32"
  shows "map_ok (s\<lparr>ms_map := m, ms_open := (t, k, e) # ms_open s\<rparr>)"
proof -
  obtain x where x: "map_of (ms_map s) k = Some x" "rdElement x = Some e"
    "std_map_ok m" "map_of m = (map_of (ms_map s))(k \<mapsto> x\<lparr>readers := readers x + 1\<rparr>)"
    using assms(2) map_okD(1) [OF assms(1)] by (auto simp: openElement_Some)
  have o: "owned (s\<lparr>ms_map := m, ms_open := l\<rparr>) k' e' \<longleftrightarrow> owned s k' e'" for k' e' l
    using x by (auto simp: owned_def)
  have "owned s k e" using x by (auto simp: owned_def)
  then show ?thesis using assms(1,3) x(1,3,4) not_destroying(2) [OF assms(1) x(1,2)]
    by (auto simp: map_ok_def o)
qed

lemma releaseElement_Some:
  "releaseElement m k = Inr (m', True, zero) \<longleftrightarrow>
    (\<exists>x. map_of m k = Some x \<and> readers x \<noteq> 0 \<and> m' = std_put k (x\<lparr>readers := readers x - 1\<rparr>) m \<and> zero = (readers x = 1))"
  by (auto simp: releaseElement_def Let_def split: option.splits)

lemma ok_release:
  assumes "map_ok s" "(t, k, e) \<in> set (ms_open s)" "releaseElement (ms_map s) k = Inr (m, True, zero)"
    "if zero then notify_one (zeroReaders_sleeper k) map_wake (ms_doing s) f else f = ms_doing s"
  shows "map_ok (s\<lparr>ms_map := m, ms_open := remove1 (t, k, e) (ms_open s), ms_doing := f\<rparr>)"
proof -
  let ?s = "s\<lparr>ms_map := m, ms_open := remove1 (t, k, e) (ms_open s), ms_doing := f\<rparr>"
  obtain x where x: "map_of (ms_map s) k = Some x" "zero = (readers x = 1)"
    "std_map_ok m" "map_of m = (map_of (ms_map s))(k \<mapsto> x\<lparr>readers := readers x - 1\<rparr>)"
    using assms(3) map_okD(1) [OF assms(1)] by (auto simp: releaseElement_Some)
  have h: "holders ?s k' = holders s k' - (if k = k' then 1 else 0)" for k'
    using holders_remove1 [OF assms(2), of k'] by (simp add: holders_def)
  have d: "destroying (f u) = destroying (ms_doing s u)" for u
    using assms(4) notify_doing(1) by (metis (full_types))
  have o: "owned ?s k' e' \<longleftrightarrow> owned s k' e'" for k' e'
    using x by (auto simp: owned_def d)
  have r: "readers x = word_of_nat (holders s k)" "0 < holders s k"
    using map_okD(3) [OF assms(1) x(1)] holders_pos [OF assms(2)] by auto
  have sl: "holders ?s k' \<noteq> 0" if "zeroReaders_sleeper k' (f u)" for u k'
  proof
    assume 0: "holders ?s k' = 0"
    have u: "zeroReaders_sleeper k' (ms_doing s u)" using that assms(4) notify_doing(2) by (metis (full_types))
    then have "holders s k' \<noteq> 0" using map_okD(10) [OF assms(1)] by blast
    with 0 h have k: "k' = k" and one: "holders s k = 1" by (auto split: if_splits)
    then have "notify_one (zeroReaders_sleeper k) map_wake (ms_doing s) f" using assms(4) x(2) r by simp
    then show False
    proof (cases rule: notify_one_cases)
      case (2 v)
      obtain e1 e2 where "destroying (ms_doing s u) = Some (k, e1)" "destroying (ms_doing s v) = Some (k, e2)"
        using sleeper_destroys u k 2(1) by metis
      then have "v = u" by (metis map_okD(9) [OF assms(1)])
      with 2 that show False by simp
    qed (use u k in auto)
  qed
  have "word_of_nat (holders s k) - 1 = (word_of_nat (holders s k - 1) :: 32 word)"
    using r(2) by (simp add: of_nat_diff)
  note dec = this and ok = map_okD [OF assms(1)]
  show ?thesis
  proof (rule map_okI)
    show "readers y = word_of_nat (holders ?s k')" if "map_of (ms_map ?s) k' = Some y" for k' y
    proof (cases "k' = k")
      case True
      with that x(4) have "readers y = word_of_nat (holders s k) - 1" by (auto simp flip: r(1))
      with True show ?thesis by (simp only: dec h if_True refl)
    next
      case False
      with that x(4) have "map_of (ms_map s) k' = Some y" by simp
      then have "readers y = word_of_nat (holders s k')" by (rule ok(3))
      with False h show ?thesis by simp
    qed
    show "holders ?s k' = 0" if "map_of (ms_map ?s) k' = None" for k'
      using that x(4) ok(4) h by (auto split: if_splits)
    show "\<exists>y. map_of (ms_map ?s) k' = Some y \<and> rdElement y = None" if "destroying (ms_doing ?s u) = Some (k', e')" for u k' e'
      using that x(1,4) ok(8) [of u k' e'] d by auto
    show "owned ?s k' e'" if "(u, k', e') \<in> set (ms_open ?s)" for u k' e'
      using that ok(5) o set_remove1_subset [of "(t, k, e)" "ms_open s"] by auto
    show "u = v" if "destroying (ms_doing ?s u) = Some (k', e1)" "destroying (ms_doing ?s v) = Some (k', e2)" for u v k' e1 e2
      using that ok(9) d by simp
    show "holders ?s k' < 2 ^ 32" for k' using ok(2) [of k'] h by auto
    show "k1 = k2" if "owned ?s k1 e'" "owned ?s k2 e'" for k1 k2 e' using that ok(7) o by simp
    show "e' \<notin> ms_deleted ?s" if "owned ?s k' e'" for k' e' using that ok(6) o by simp
  qed (use x(3) sl in simp_all)
qed

lemma destroyElement_take_Some:
  "destroyElement_take m k = (m', Some e) \<longleftrightarrow>
    (\<exists>x. map_of m k = Some x \<and> rdElement x = Some e \<and> m' = std_put k (x\<lparr>rdElement := None\<rparr>) m)"
  by (auto simp: destroyElement_take_def split: option.splits)

text \<open>The state in the middle of \<^verbatim>\<open>destroyElement\<close>: the mutex is held and the loop is about to test.\<close>

lemma ok_destroy:
  assumes "map_ok s" "destroying (ms_doing s t) = None" "destroyElement_take (ms_map s) k = (m, Some e)"
  shows "map_ok (s\<lparr>ms_map := m, ms_doing := (ms_doing s)(t := Destroying k e True)\<rparr>)" (is "map_ok ?s")
proof -
  note ok = map_okD [OF assms(1)]
  obtain x where x: "map_of (ms_map s) k = Some x" "rdElement x = Some e"
    "std_map_ok m" "map_of m = (map_of (ms_map s))(k \<mapsto> x\<lparr>rdElement := None\<rparr>)"
    using assms(3) ok(1) by (auto simp: destroyElement_take_Some)
  have o: "owned ?s k' e' \<longleftrightarrow> owned s k' e'" for k' e'
  proof -
    have "(\<exists>u. destroying (((ms_doing s)(t := Destroying k e True)) u) = Some (k', e')) \<longleftrightarrow>
        k' = k \<and> e' = e \<or> (\<exists>u. destroying (ms_doing s u) = Some (k', e'))"
      using assms(2) by (metis destroying.simps(2) fun_upd_apply option.distinct(1) option.inject prod.inject)
    then show ?thesis using x not_destroying(2) [OF assms(1) x(1,2)] by (auto simp: owned_def)
  qed
  show ?thesis
  proof (rule map_okI)
    show "k1 = k2" if "owned ?s k1 e'" "owned ?s k2 e'" for k1 k2 e' using that ok(7) o by simp
    show "e' \<notin> ms_deleted ?s" if "owned ?s k' e'" for k' e' using that ok(6) o by simp
    show "u = v" if "destroying (ms_doing ?s u) = Some (k', e1)" "destroying (ms_doing ?s v) = Some (k', e2)" for u v k' e1 e2
      using that ok(9) [of u k' e1 v e2] not_destroying(2) [OF assms(1) x(1,2)] by (auto split: if_splits)
    show "\<exists>y. map_of (ms_map ?s) k' = Some y \<and> rdElement y = None" if "destroying (ms_doing ?s u) = Some (k', e')" for u k' e'
      using that x(4) ok(8) [of u k' e'] by (auto split: if_splits)
    show "readers y = word_of_nat (holders ?s k')" if "map_of (ms_map ?s) k' = Some y" for k' y
      using that x(4) ok(3) [OF x(1)] ok(3) [of k' y] by (auto split: if_splits)
    show "holders ?s k' = 0" if "map_of (ms_map ?s) k' = None" for k'
      using that x(4) ok(4) [of k'] by (auto split: if_splits)
    show "holders ?s k' \<noteq> 0" if "zeroReaders_sleeper k' (ms_doing ?s u)" for u k'
      using that ok(10) [of k' u] by (auto split: if_splits)
  qed (use x(3) o ok(2,5) in simp_all)
qed

lemma word_of_holders: "map_ok s \<Longrightarrow> (word_of_nat (holders s k) :: 32 word) = 0 \<longleftrightarrow> holders s k = 0"
  using map_okD(2) [of s k] by (auto simp: word_of_nat_eq_0_iff dest: dvd_imp_le)

lemma ok_loop:
  assumes "map_ok s" "destroying (ms_doing s t) = Some (k, e)" "destroy_loop t k e s s'"
  shows "map_ok s'"
  using assms(3)
proof (cases rule: destroy_loop.cases)
  case loop_waits
  note ok = map_okD [OF assms(1)]
  obtain x where x: "map_of (ms_map s) k = Some x" "rdElement x = None" using ok(8) [OF assms(2)] by blast
  have n: "holders s k \<noteq> 0"
    using loop_waits(2) x ok(3) [OF x(1)] word_of_holders [OF assms(1), of k]
    by (auto simp: destroyElement_test_def split: if_splits)
  have d: "destroying (((ms_doing s)(t := Destroying k e False)) u) = destroying (ms_doing s u)" for u
    using assms(2) by simp
  have o: "owned s' k' e' \<longleftrightarrow> owned s k' e'" for k' e'
    unfolding owned_def loop_waits(1) using d by simp
  show ?thesis
  proof (rule map_okI)
    show "k1 = k2" if "owned s' k1 e'" "owned s' k2 e'" for k1 k2 e' using that ok(7) o by simp
    show "u = v" if "destroying (ms_doing s' u) = Some (k', e1)" "destroying (ms_doing s' v) = Some (k', e2)" for u v k' e1 e2
      using that ok(9) [of u k' e1 v e2] d loop_waits(1) by simp
    show "\<exists>y. map_of (ms_map s') k' = Some y \<and> rdElement y = None" if "destroying (ms_doing s' u) = Some (k', e')" for u k' e'
      using that ok(8) [of u k' e'] d loop_waits(1) by simp
    show "holders s' k' \<noteq> 0" if "zeroReaders_sleeper k' (ms_doing s' u)" for u k'
      using that ok(10) [of k' u] n loop_waits(1) by (auto split: if_splits)
    show "readers y = word_of_nat (holders s' k')" if "map_of (ms_map s') k' = Some y" for k' y
      using that ok(3) [of k' y] loop_waits(1) by simp
    show "e' \<notin> ms_deleted s'" if "owned s' k' e'" for k' e' using that ok(6) o loop_waits(1) by simp
  qed (use o ok(1,2,4,5) loop_waits(1) in simp_all)
next
  case (loop_deletes m f)
  note ok = map_okD [OF assms(1)]
  obtain x where x: "map_of (ms_map s) k = Some x" "rdElement x = None" using ok(8) [OF assms(2)] by blast
  have m: "m = std_erase k (ms_map s)" and n: "holders s k = 0"
    using loop_deletes(2) x ok(3) [OF x(1)] word_of_holders [OF assms(1), of k]
    by (auto simp: destroyElement_test_def split: if_splits)
  have d: "destroying (f u) = (if u = t then None else destroying (ms_doing s u))" for u
    using loop_deletes(3) notify_doing(1) [of zeroMaps_sleeper "(ms_doing s)(t := Running)" f u] by (auto split: if_splits)
  have sl: "u \<noteq> t \<and> zeroReaders_sleeper k' (ms_doing s u)" if "zeroReaders_sleeper k' (f u)" for k' u
    using loop_deletes(3) notify_doing(2) [of zeroMaps_sleeper "(ms_doing s)(t := Running)" f k' u] that
    by (auto split: if_splits)
  have mine: "destroying (ms_doing s u) = Some (k, e') \<Longrightarrow> u = t" for u e' using ok(9) [of u k e' t e] assms(2) by simp
  have o: "owned s' k' e' \<longleftrightarrow> owned s k' e' \<and> k' \<noteq> k" for k' e'
  proof -
    have "(\<exists>u. destroying (f u) = Some (k', e')) \<longleftrightarrow> (\<exists>u. destroying (ms_doing s u) = Some (k', e')) \<and> k' \<noteq> k"
      using d mine assms(2) by (metis option.distinct(1) option.inject prod.inject)
    then show ?thesis unfolding owned_def loop_deletes(1) using m x by auto
  qed
  have oe: "owned s k e" using assms(2) by (auto simp: owned_def)
  show ?thesis
  proof (rule map_okI)
    show "k1 = k2" if "owned s' k1 e'" "owned s' k2 e'" for k1 k2 e' using that ok(7) [of k1 e' k2] o by simp
    show "u = v" if "destroying (ms_doing s' u) = Some (k', e1)" "destroying (ms_doing s' v) = Some (k', e2)" for u v k' e1 e2
      using that ok(9) [of u k' e1 v e2] d loop_deletes(1) by (simp split: if_splits)
    show "\<exists>y. map_of (ms_map s') k' = Some y \<and> rdElement y = None" if "destroying (ms_doing s' u) = Some (k', e')" for u k' e'
      using that ok(8) [of u k' e'] d m mine loop_deletes(1) by (auto split: if_splits)
    show "holders s' k' \<noteq> 0" if "zeroReaders_sleeper k' (ms_doing s' u)" for u k'
      using that ok(10) [of k' u] sl loop_deletes(1) by auto
    show "readers y = word_of_nat (holders s' k')" if "map_of (ms_map s') k' = Some y" for k' y
      using that ok(3) [of k' y] m loop_deletes(1) by (simp split: if_splits)
    show "holders s' k' = 0" if "map_of (ms_map s') k' = None" for k'
      using that ok(4) [of k'] m n loop_deletes(1) by (auto split: if_splits)
    show "owned s' k' e'" if "(u, k', e') \<in> set (ms_open s')" for u k' e'
      using that ok(5) [of u k' e'] o n holders_pos [of u k' e' s] loop_deletes(1) by auto
    show "e' \<notin> ms_deleted s'" if "owned s' k' e'" for k' e'
      using that ok(6) [of k' e'] ok(7) [OF oe, of k'] o loop_deletes(1) by auto
  qed (use m ok(1,2) loop_deletes(1) in simp_all)
qed

lemma ok_doing:
  assumes "map_ok s" "\<And>u. destroying (f u) = destroying (ms_doing s u)"
    "\<And>u k. zeroReaders_sleeper k (f u) \<Longrightarrow> zeroReaders_sleeper k (ms_doing s u)"
  shows "map_ok (s\<lparr>ms_doing := f\<rparr>)"
proof -
  have "owned (s\<lparr>ms_doing := f\<rparr>) k e = owned s k e" for k e by (simp add: owned_def assms(2))
  moreover have "holders s k \<noteq> 0" if "zeroReaders_sleeper k (f u)" for u k
    using map_okD(10) [OF assms(1)] assms(3) [OF that] by metis
  ultimately show ?thesis using assms(1,2) unfolding map_ok_def by simp
qed

lemma loop_restart:
  assumes "destroy_loop t k e s s'"
  shows "destroy_loop t k e (s\<lparr>ms_doing := (ms_doing s)(t := d)\<rparr>) s'"
  using assms
proof (cases rule: destroy_loop.cases)
  case loop_waits
  show ?thesis
    using destroy_loop.loop_waits [of "s\<lparr>ms_doing := (ms_doing s)(t := d)\<rparr>" k t e] loop_waits by simp
next
  case (loop_deletes m f)
  show ?thesis
    using destroy_loop.loop_deletes [of "s\<lparr>ms_doing := (ms_doing s)(t := d)\<rparr>" k m t f e] loop_deletes by simp
qed

lemma step_ok:
  assumes "map_ok s" "bounded_step s s'"
  shows "map_ok s'"
proof -
  have s: "map_step s s'" and b: "\<forall>k. holders s' k < 2 ^ 32" using assms(2) by (simp_all add: bounded_step_def)
  show ?thesis
    using s
  proof (cases rule: map_step.cases)
    case (add t e k)
    then show ?thesis using ok_add [OF assms(1), of e k] by simp
  next
    case (open_element t k m e)
    then show ?thesis using ok_open [OF assms(1), of k m e t] b by simp
  next
    case (release t k e m zero f)
    then show ?thesis using ok_release [OF assms(1)] by simp
  next
    case (destroy t k m e)
    then have "map_ok (s\<lparr>ms_map := m, ms_doing := (ms_doing s)(t := Destroying k e True)\<rparr>)"
      by (intro ok_destroy [OF assms(1)]) simp_all
    moreover have "destroy_loop t k e (s\<lparr>ms_map := m, ms_doing := (ms_doing s)(t := Destroying k e True)\<rparr>) s'"
      using loop_restart [OF destroy(3), of "Destroying k e True"] by simp
    ultimately show ?thesis
      using ok_loop [of "s\<lparr>ms_map := m, ms_doing := (ms_doing s)(t := Destroying k e True)\<rparr>" t k e s'] by simp
  next
    case (destroy_woken t k e)
    then show ?thesis using ok_loop [OF assms(1), of t k e] by simp
  next
    case (wait_empty t)
    then show ?thesis by (auto intro!: ok_doing [OF assms(1)] split: if_splits)
  next
    case (empty_woken t)
    then show ?thesis by (auto intro!: ok_doing [OF assms(1)] split: if_splits)
  next
    case (spurious t)
    then show ?thesis by (auto intro!: ok_doing [OF assms(1)] split: if_splits)
  qed
qed

lemma start_ok: "map_start s \<Longrightarrow> map_ok s"
  by (simp add: map_start_def map_ok_def holders_def owned_def)

interpretation safe_map: machine_invariant map_start bounded_step map_ok
  by unfold_locales (use start_ok step_ok in auto)

subsection \<open>Properties\<close>

lemma holders_nonzero: "holders s k \<noteq> 0 \<Longrightarrow> \<exists>u e. (u, k, e) \<in> set (ms_open s)"
  by (auto simp: holders_def filter_empty_conv)

lemma release_possible:
  assumes "map_ok s" "(u, k, e') \<in> set (ms_open s)" "ms_doing s u = Running"
  obtains m zero f where "releaseElement (ms_map s) k = Inr (m, True, zero)"
    "bounded_step s (s\<lparr>ms_map := m, ms_open := remove1 (u, k, e') (ms_open s), ms_doing := f\<rparr>)"
    "\<And>v. ms_doing s v = Running \<Longrightarrow> f v = Running" "\<And>v. destroying (f v) = destroying (ms_doing s v)"
proof -
  note ok = map_okD [OF assms(1)]
  have n: "0 < holders s k" using assms(2) by (rule holders_pos)
  obtain x where x: "map_of (ms_map s) k = Some x" using ok(4) [of k] n by (cases "map_of (ms_map s) k") auto
  then have "readers x \<noteq> 0" using ok(3) word_of_holders [OF assms(1), of k] n by simp
  then obtain m zero where r: "releaseElement (ms_map s) k = Inr (m, True, zero)"
    using x by (auto simp: releaseElement_Some)
  obtain f where f: "if zero then notify_one (zeroReaders_sleeper k) map_wake (ms_doing s) f else f = ms_doing s"
    using notify_one_exists by (metis (full_types))
  let ?s = "s\<lparr>ms_map := m, ms_open := remove1 (u, k, e') (ms_open s), ms_doing := f\<rparr>"
  have "holders ?s k' < 2 ^ 32" for k'
    using holders_remove1 [OF assms(2), of k'] ok(2) [of k'] by (simp add: holders_def)
  then have "bounded_step s ?s" using map_step.release [OF assms(3,2) r f] by (simp only: bounded_step_def) simp
  moreover have "ms_doing s v = Running \<Longrightarrow> f v = Running" for v
    using f by (auto elim!: notify_one_cases split: if_splits)
  moreover have "destroying (f v) = destroying (ms_doing s v)" for v
    using f notify_doing(1) by (metis (full_types))
  ultimately show ?thesis using that r by blast
qed

lemma delete_possible:
  assumes "map_ok s" "ms_doing s t = Destroying k e b" "holders s k = 0"
  shows "b \<and> (\<exists>s'. bounded_step s s' \<and> e \<in> ms_deleted s' \<and> \<not> checkElement (ms_map s') k \<and> ms_doing s' t = Running)"
proof -
  note ok = map_okD [OF assms(1)]
  have b: b using ok(10) [of k t] assms(2,3) by (cases b) auto
  obtain x where x: "map_of (ms_map s) k = Some x" "rdElement x = None" using ok(8) [of t k e] assms(2) by auto
  then have m: "destroyElement_test (ms_map s) k = Some (std_erase k (ms_map s))"
    using ok(3) [OF x(1)] assms(3) by (simp add: destroyElement_test_def)
  obtain f where f: "if std_erase k (ms_map s) = [] then notify_one zeroMaps_sleeper map_wake ((ms_doing s)(t := Running)) f
      else f = (ms_doing s)(t := Running)"
    using notify_one_exists by (metis (full_types))
  have "f t = Running" using f by (auto elim!: notify_one_cases split: if_splits)
  moreover have "bounded_step s (s\<lparr>ms_map := std_erase k (ms_map s), ms_doing := f, ms_deleted := insert e (ms_deleted s)\<rparr>)"
    using map_step.destroy_woken [OF _ destroy_loop.loop_deletes [OF m f]] assms(2) b ok(2) by (simp add: bounded_step_def)
  ultimately show ?thesis using b ok(1) by (fastforce simp: checkElement_def)
qed

lemma destroy_progress:
  assumes "map_ok s" "ms_doing s t = Destroying k e b" "holders s k = n"
    "\<And>u e'. (u, k, e') \<in> set (ms_open s) \<Longrightarrow> ms_doing s u = Running"
  shows "\<exists>s'. (bounded_step ^^ Suc n) s s' \<and> e \<in> ms_deleted s' \<and> \<not> checkElement (ms_map s') k \<and> ms_doing s' t = Running"
  using assms
proof (induction n arbitrary: s b)
  case 0
  then show ?case using delete_possible by fastforce
next
  case (Suc n)
  obtain u e' where u: "(u, k, e') \<in> set (ms_open s)"
    using Suc.prems(3) holders_nonzero [of s k] by auto
  obtain m zero f where r: "bounded_step s (s\<lparr>ms_map := m, ms_open := remove1 (u, k, e') (ms_open s), ms_doing := f\<rparr>)"
    (is "bounded_step s ?s") "\<And>v. ms_doing s v = Running \<Longrightarrow> f v = Running" "\<And>v. destroying (f v) = destroying (ms_doing s v)"
    using release_possible [OF Suc.prems(1) u Suc.prems(4) [OF u]] by metis
  have "map_ok ?s" using step_ok [OF Suc.prems(1) r(1)] .
  moreover obtain b' where "ms_doing ?s t = Destroying k e b'"
    using r(3) [of t] Suc.prems(2) by (cases "f t") auto
  moreover have "holders ?s k = n"
    using holders_remove1 [OF u, of k] Suc.prems(3) by (simp add: holders_def)
  moreover have "ms_doing ?s v = Running" if "(v, k, e1) \<in> set (ms_open ?s)" for v e1
    using that Suc.prems(4) r(2) set_remove1_subset [of "(u, k, e')" "ms_open s"] by auto
  ultimately obtain s' where s': "(bounded_step ^^ Suc n) ?s s'" "e \<in> ms_deleted s' \<and> \<not> checkElement (ms_map s') k \<and> ms_doing s' t = Running"
    using Suc.IH by blast
  from r(1) s'(1) have "(bounded_step ^^ Suc (Suc n)) s s'" by (rule relpowp_Suc_I2)
  then show ?case using s'(2) by blast
qed

text \<open>The counter has 32 bits: one more open than it can count makes it zero, and the element is deleted under
  all its readers.\<close>

lemma readers_wrap:
  assumes "map_of m k = Some x" "rdElement x = Some e" "readers x = - 1" "std_map_ok m"
  shows "destroyElement_test (fst (destroyElement_take (fst (openElement m k)) k)) k =
    Some (std_erase k (fst (destroyElement_take (fst (openElement m k)) k)))"
  using assms by (simp add: openElement_def destroyElement_take_def destroyElement_test_def)

text \<open>C13: No thread uses a deleted object. Whatever the threads do, in every order, an object that some thread
  has open is not deleted, and closing it succeeds. The bound is the one of the counter: the runs are those in
  which no element is open more than 2 \<^verbatim>\<open>^\<close> 32 times at once.\<close>

theorem no_use_after_delete:
  assumes "reach map_start bounded_step s" "(t, k, e) \<in> set (ms_open s)"
  shows "e \<notin> ms_deleted s \<and> (\<exists>m zero. releaseElement (ms_map s) k = Inr (m, True, zero))"
proof -
  have ok: "map_ok s" using assms(1) by (rule safe_map.reachable)
  have h: "holders s k \<noteq> 0" using holders_pos [OF assms(2)] by simp
  then obtain x where x: "map_of (ms_map s) k = Some x" using map_okD(4) [OF ok, of k] by (cases "map_of (ms_map s) k") auto
  then have "readers x \<noteq> 0" using map_okD(3) [OF ok x] word_of_holders [OF ok, of k] h by simp
  then show ?thesis using x map_okD(5) [OF ok assms(2)] map_okD(6) [OF ok] by (auto simp: releaseElement_Some)
qed

text \<open>Thread 1 opens an object that thread 2 destroys and thread 0 had added.\<close>

definition opened_then_destroyed :: "nat map_state" where
  "opened_then_destroyed =
     \<lparr>ms_map = [(5, \<lparr>rdElement = None, readers = 1\<rparr>)], ms_doing = (\<lambda>_. Running)(2 := Destroying 5 70 False),
      ms_open = [(1, 5, 70)], ms_deleted = {}, ms_stopped = {70}\<rparr>"

lemma opened_then_destroyed_reached: "reach map_start bounded_step opened_then_destroyed"
proof -
  define s0 :: "nat map_state" where "s0 = \<lparr>ms_map = [], ms_doing = (\<lambda>_. Running), ms_open = [], ms_deleted = {}, ms_stopped = {}\<rparr>"
  define s1 where "s1 = s0\<lparr>ms_map := fst (addElement (ms_map s0) 5 (Some 70))\<rparr>"
  define s2 where "s2 = s1\<lparr>ms_map := fst (openElement (ms_map s1) 5), ms_open := (1, 5, 70) # ms_open s1\<rparr>"
  have "reach map_start bounded_step s0" by (rule reach_init) (simp add: s0_def map_start_def)
  moreover have "bounded_step s0 s1" unfolding bounded_step_def s1_def
    by (intro conjI map_step.add [where t = 0]) (simp_all add: s0_def owned_def holders_def)
  moreover have "bounded_step s1 s2" unfolding bounded_step_def s2_def
    by (intro conjI map_step.open_element) (simp_all add: s0_def s1_def addElement_def openElement_def holders_def)
  moreover have "bounded_step s2 opened_then_destroyed" unfolding bounded_step_def
  proof (intro conjI)
    have "destroy_loop 2 5 70 (s2\<lparr>ms_map := fst (destroyElement_take (ms_map s2) 5)\<rparr>)
        (s2\<lparr>ms_map := fst (destroyElement_take (ms_map s2) 5), ms_doing := (ms_doing s2)(2 := Destroying 5 70 False),
            ms_stopped := insert 70 (ms_stopped s2)\<rparr>)"
      using destroy_loop.loop_waits [of "s2\<lparr>ms_map := fst (destroyElement_take (ms_map s2) 5)\<rparr>" 5 2 70]
      by (simp add: s2_def s1_def s0_def addElement_def openElement_def destroyElement_take_def destroyElement_test_def)
    moreover have "s2\<lparr>ms_map := fst (destroyElement_take (ms_map s2) 5), ms_doing := (ms_doing s2)(2 := Destroying 5 70 False),
            ms_stopped := insert 70 (ms_stopped s2)\<rparr> = opened_then_destroyed"
      by (simp add: s2_def s1_def s0_def addElement_def openElement_def destroyElement_take_def opened_then_destroyed_def)
    ultimately show "map_step s2 opened_then_destroyed"
      by (intro map_step.destroy [of s2 2 5 "fst (destroyElement_take (ms_map s2) 5)" 70])
        (simp_all add: s2_def s1_def s0_def addElement_def openElement_def destroyElement_take_def)
  qed (simp add: opened_then_destroyed_def holders_def)
  ultimately show ?thesis by (meson reach_step)
qed

theorem no_use_after_delete_witness:
  "70 \<notin> ms_deleted opened_then_destroyed \<and>
   (\<exists>m zero. releaseElement (ms_map opened_then_destroyed) 5 = Inr (m, True, zero))"
  using no_use_after_delete [OF opened_then_destroyed_reached, of 1 5 70] by (simp add: opened_then_destroyed_def)

text \<open>C14: A thread in \<^verbatim>\<open>destroyElement\<close> is never left asleep: while it sleeps, somebody has the element open, and
  nobody can open it anew. Once its holders have released it, the next step of the thread deletes the object
  and removes the key: one step for each holder and one of its own are enough.\<close>

theorem destroy_finishes:
  assumes "reach map_start bounded_step s" "ms_doing s t = Destroying k e woken"
    "\<forall>(u, k', e')\<in>set (ms_open s). k' = k \<longrightarrow> ms_doing s u = Running"
  shows "openElement (ms_map s) k = (ms_map s, None) \<and> (holders s k = 0 \<longrightarrow> woken) \<and>
    (\<exists>s'. (bounded_step ^^ Suc (holders s k)) s s' \<and> e \<in> ms_deleted s' \<and> \<not> checkElement (ms_map s') k \<and> ms_doing s' t = Running)"
proof -
  have ok: "map_ok s" using assms(1) by (rule safe_map.reachable)
  have "\<exists>s'. (bounded_step ^^ Suc (holders s k)) s s' \<and> e \<in> ms_deleted s' \<and> \<not> checkElement (ms_map s') k \<and> ms_doing s' t = Running"
    using assms(3) by (intro destroy_progress [OF ok assms(2)]) auto
  moreover obtain x where "map_of (ms_map s) k = Some x" "rdElement x = None" using map_okD(8) [OF ok, of t k e] assms(2) by auto
  then have "openElement (ms_map s) k = (ms_map s, None)" by (simp add: openElement_def)
  ultimately show ?thesis using delete_possible [OF ok assms(2)] by blast
qed

theorem destroy_finishes_witness:
  "\<exists>s'. (bounded_step ^^ 2) opened_then_destroyed s' \<and> 70 \<in> ms_deleted s' \<and> \<not> checkElement (ms_map s') 5 \<and> ms_doing s' 2 = Running"
  using destroy_finishes [OF opened_then_destroyed_reached, of 2 5 70 False]
  by (simp add: opened_then_destroyed_def holders_def numeral_2_eq_2)

end
