(* ===== verification/Auth_DB.thy ===== *)
theory Auth_DB
  imports Auth_Secret
begin

text \<open>
  \<^verbatim>\<open>Auth/mdz_auth_db\<close>: the accounts, groups, applications, attributes and password indexes as SQL
  tables. A table is the list of its rows; the statements of the code become operations on these
  lists, with the keys, references and \<^verbatim>\<open>ON DELETE CASCADE\<close> of the schema in \<^verbatim>\<open>manager_db.cpp\<close> (the
  SQLite connector turns the references on when it connects). \<^verbatim>\<open>DATETIME\<close> columns hold seconds,
  which is what is read back. Each method holds the manager's mutex, so it is one step.
\<close>

subsection \<open>Data of the manager's interface\<close>

datatype sApplicationAttrib = sApplicationAttrib (aa_appName: string) (aa_attribName: string)

record sClientDetails =
  sIPAddr :: string
  cd_sExtraData :: string
  sTLSCommonName :: string
  sUserAgent :: string

record sAccountDetails =
  sGivenName :: string
  sLastName :: string
  sEmail :: string
  sDescription :: string
  sExtraData :: string

record sAccountAttribs =
  attr_enabled :: bool
  attr_confirmed :: bool
  attr_superuser :: bool

record sAccountSimpleDetails =
  sd_accountName :: string
  sd_givenName :: string
  sd_lastName :: string
  sd_email :: string
  sd_description :: string
  sd_enabled :: bool
  sd_confirmed :: bool
  sd_superuser :: bool
  sd_expired :: bool

text \<open>\<^verbatim>\<open>operator<\<close>, by which \<^verbatim>\<open>std::set\<close> orders the attributes: the order is descending.\<close>

instantiation sApplicationAttrib :: linorder
begin

definition less_sApplicationAttrib :: "sApplicationAttrib \<Rightarrow> sApplicationAttrib \<Rightarrow> bool" where
  "less_sApplicationAttrib a x =
     (if aa_appName x < aa_appName a then True
      else if aa_appName x = aa_appName a \<and> aa_attribName x < aa_attribName a then True
      else False)"

definition less_eq_sApplicationAttrib :: "sApplicationAttrib \<Rightarrow> sApplicationAttrib \<Rightarrow> bool" where
  "less_eq_sApplicationAttrib a x = (a = x \<or> a < x)"

instance
  by standard (auto simp: less_eq_sApplicationAttrib_def less_sApplicationAttrib_def sApplicationAttrib.expand
      split: if_splits)

end

subsection \<open>Tables\<close>

record account_row =
  ac_userName :: string
  ac_givenName :: string
  ac_lastName :: string
  ac_email :: string
  ac_description :: string
  ac_extraData :: string
  ac_superuser :: bool
  ac_creation :: int
  ac_creator :: "string option"
  ac_expiration :: int
  ac_lastLogin :: int
  ac_enabled :: bool
  ac_confirmed :: bool

record application_row =
  ap_appName :: string
  ap_appCreator :: string
  ap_appDescription :: string
  ap_appKey :: string

record attrib_row =
  at_attrib :: sApplicationAttrib
  at_description :: string

record secretsindex_row =
  si_index :: nat
  si_description :: string
  si_loginRequired :: bool

record accountlogin_row =
  al_userName :: string
  al_secretIndex :: nat
  al_loginDateTime :: int
  al_details :: sClientDetails

record accountsecret_row =
  as_secretIndex :: nat
  as_userName :: string
  as_hash :: string
  as_expiration :: int
  as_function :: Function
  as_salt :: string
  as_forcedExpiration :: bool
  as_steps :: nat
  as_badAttempts :: nat

text \<open>The tables with two or three key columns only are lists of tuples, in the order of the columns.
  \<^verbatim>\<open>db_up\<close>: the connection works; \<^verbatim>\<open>db_created\<close>: the tables exist; \<^verbatim>\<open>db_uint64\<close>: the driver can bind an
  unsigned 64-bit number (the one of SQLite throws).\<close>

record auth_db =
  db_up :: bool
  db_created :: bool
  db_uint64 :: bool
  t_accounts :: "account_row list"
  t_applications :: "application_row list"
  t_attribs :: "attrib_row list"
  t_applicationmanagers :: "(string \<times> string) list"
  t_applicationusers :: "(string \<times> string) list"
  t_secretsindexs :: "secretsindex_row list"
  t_accountlogins :: "accountlogin_row list"
  t_accountmanagers :: "(string \<times> string) list"
  t_accountactivationtokens :: "(string \<times> string) list"
  t_accountsecrets :: "accountsecret_row list"
  t_groups :: "(string \<times> string) list"
  t_groupsaccounts :: "(string \<times> string) list"
  t_attribsgroups :: "(sApplicationAttrib \<times> string) list"
  t_attribsaccounts :: "(sApplicationAttrib \<times> string) list"

subsection \<open>Statements\<close>

definition sql_insert :: "('r \<Rightarrow> 'k) \<Rightarrow> 'r \<Rightarrow> 'r list \<Rightarrow> 'r list option" where
  "sql_insert key r t = (if key r \<in> key ` set t then None else Some (t @ [r]))"

definition sql_update :: "('r \<Rightarrow> bool) \<Rightarrow> ('r \<Rightarrow> 'r) \<Rightarrow> 'r list \<Rightarrow> 'r list" where
  "sql_update P f t = map (\<lambda>r. if P r then f r else r) t"

definition sql_delete :: "('r \<Rightarrow> bool) \<Rightarrow> 'r list \<Rightarrow> 'r list" where
  "sql_delete P t = filter (\<lambda>r. \<not> P r) t"

definition db_ready :: "auth_db \<Rightarrow> bool" where
  "db_ready d \<longleftrightarrow> db_up d \<and> db_created d"

text \<open>\<^verbatim>\<open>SQLConnector::query\<close>: a statement that violates a constraint, None, changes nothing.\<close>

definition db_query :: "(auth_db \<Rightarrow> auth_db option) \<Rightarrow> auth_db \<Rightarrow> auth_db \<times> bool" where
  "db_query stmt d =
     (if db_ready d then case stmt d of Some d' \<Rightarrow> (d', True) | None \<Rightarrow> (d, False) else (d, False))"

text \<open>\<^verbatim>\<open>qSelect\<close> and the loop over \<^verbatim>\<open>step()\<close>: no row when the query fails; with \<^verbatim>\<open>LIMIT 1\<close>, the first row.\<close>

definition db_select :: "auth_db \<Rightarrow> ('r \<Rightarrow> bool) \<Rightarrow> 'r list \<Rightarrow> 'r list" where
  "db_select d P t = (if db_ready d then filter P t else [])"

definition db_first :: "auth_db \<Rightarrow> ('r \<Rightarrow> bool) \<Rightarrow> 'r list \<Rightarrow> 'r option" where
  "db_first d P t = (if db_ready d then find P t else None)"

definition db_and :: "auth_db \<times> bool \<Rightarrow> (auth_db \<Rightarrow> auth_db \<times> bool) \<Rightarrow> auth_db \<times> bool" where
  "db_and r f = (if snd r then f (fst r) else r)"

definition has_account :: "auth_db \<Rightarrow> string \<Rightarrow> bool" where
  "has_account d u \<longleftrightarrow> u \<in> ac_userName ` set (t_accounts d)"

definition has_application :: "auth_db \<Rightarrow> string \<Rightarrow> bool" where
  "has_application d a \<longleftrightarrow> a \<in> ap_appName ` set (t_applications d)"

definition has_attrib :: "auth_db \<Rightarrow> sApplicationAttrib \<Rightarrow> bool" where
  "has_attrib d a \<longleftrightarrow> a \<in> at_attrib ` set (t_attribs d)"

definition has_index :: "auth_db \<Rightarrow> nat \<Rightarrow> bool" where
  "has_index d i \<longleftrightarrow> i \<in> si_index ` set (t_secretsindexs d)"

definition has_group :: "auth_db \<Rightarrow> string \<Rightarrow> bool" where
  "has_group d g \<longleftrightarrow> g \<in> fst ` set (t_groups d)"

subsection \<open>Deletions with their cascades\<close>

definition delete_attribs :: "(sApplicationAttrib \<Rightarrow> bool) \<Rightarrow> auth_db \<Rightarrow> auth_db" where
  "delete_attribs P d = d\<lparr>t_attribs := sql_delete (\<lambda>r. P (at_attrib r)) (t_attribs d),
     t_attribsgroups := sql_delete (\<lambda>(a, g). P a) (t_attribsgroups d),
     t_attribsaccounts := sql_delete (\<lambda>(a, u). P a) (t_attribsaccounts d)\<rparr>"

definition delete_applications :: "(string \<Rightarrow> bool) \<Rightarrow> auth_db \<Rightarrow> auth_db" where
  "delete_applications P d =
     (let d1 = delete_attribs (\<lambda>a. P (aa_appName a)) d in
      d1\<lparr>t_applications := sql_delete (\<lambda>r. P (ap_appName r)) (t_applications d1),
         t_applicationmanagers := sql_delete (\<lambda>(u, a). P a) (t_applicationmanagers d1),
         t_applicationusers := sql_delete (\<lambda>(u, a). P a) (t_applicationusers d1)\<rparr>)"

definition delete_account :: "string \<Rightarrow> auth_db \<Rightarrow> auth_db" where
  "delete_account n d =
     (let d1 = delete_applications (\<lambda>a. \<exists>r\<in>set (t_applications d). ap_appName r = a \<and> ap_appCreator r = n) d in
      d1\<lparr>t_accounts := sql_delete (\<lambda>r. ac_userName r = n) (t_accounts d1),
         t_applicationmanagers := sql_delete (\<lambda>(u, a). u = n) (t_applicationmanagers d1),
         t_applicationusers := sql_delete (\<lambda>(u, a). u = n) (t_applicationusers d1),
         t_accountlogins := sql_delete (\<lambda>r. al_userName r = n) (t_accountlogins d1),
         t_accountmanagers := sql_delete (\<lambda>(u, v). u = n \<or> v = n) (t_accountmanagers d1),
         t_accountactivationtokens := sql_delete (\<lambda>(u, t). u = n) (t_accountactivationtokens d1),
         t_accountsecrets := sql_delete (\<lambda>r. as_userName r = n) (t_accountsecrets d1),
         t_groupsaccounts := sql_delete (\<lambda>(g, u). u = n) (t_groupsaccounts d1),
         t_attribsaccounts := sql_delete (\<lambda>(a, u). u = n) (t_attribsaccounts d1)\<rparr>)"

definition delete_index :: "nat \<Rightarrow> auth_db \<Rightarrow> auth_db" where
  "delete_index i d = d\<lparr>t_secretsindexs := sql_delete (\<lambda>r. si_index r = i) (t_secretsindexs d),
     t_accountlogins := sql_delete (\<lambda>r. al_secretIndex r = i) (t_accountlogins d),
     t_accountsecrets := sql_delete (\<lambda>r. as_secretIndex r = i) (t_accountsecrets d)\<rparr>"

definition delete_group :: "string \<Rightarrow> auth_db \<Rightarrow> auth_db" where
  "delete_group n d = d\<lparr>t_groups := sql_delete (\<lambda>(g, s). g = n) (t_groups d),
     t_groupsaccounts := sql_delete (\<lambda>(g, u). g = n) (t_groupsaccounts d),
     t_attribsgroups := sql_delete (\<lambda>(a, g). g = n) (t_attribsgroups d)\<rparr>"

end
