(* ===== verification/Auth_DB_Ops.thy ===== *)
theory Auth_DB_Ops
  imports Auth_DB
begin

text \<open>
  The methods of \<^verbatim>\<open>Manager_DB\<close>, one per definition. A method that changes the tables returns them with
  its result; \<^verbatim>\<open>std::set\<close> results are sets. \<^verbatim>\<open>now\<close> is the time of the statement, \<^verbatim>\<open>token\<close> the random
  confirmation token, \<^verbatim>\<open>like\<close> the operator \<^verbatim>\<open>LIKE\<close> of the database, \<^verbatim>\<open>dis\<close> the random stream of
  \<^verbatim>\<open>toBase64Obf\<close> with its default seed.
\<close>

subsection \<open>Scheme\<close>

definition initScheme :: "auth_db \<Rightarrow> auth_db \<times> bool" where
  "initScheme d =
     (if db_ready d then (d, True)
      else if \<not> db_up d then (d, False)
      else (d\<lparr>db_created := True, t_accounts := [], t_applications := [], t_attribs := [], t_applicationmanagers := [],
              t_applicationusers := [], t_accountlogins := [], t_accountmanagers := [],
              t_accountactivationtokens := [], t_accountsecrets := [], t_groups := [], t_groupsaccounts := [],
              t_attribsgroups := [], t_attribsaccounts := [],
              t_secretsindexs := [\<lparr>si_index = 0, si_description = ''Master Login Password'', si_loginRequired = True\<rparr>]\<rparr>, True))"

subsection \<open>Password indexes\<close>

definition passIndexesUsedByAccount :: "auth_db \<Rightarrow> string \<Rightarrow> nat set" where
  "passIndexesUsedByAccount d sAccountName = as_secretIndex ` set (db_select d (\<lambda>r. as_userName r = sAccountName) (t_accountsecrets d))"

definition passIndexesRequiredForLogin :: "auth_db \<Rightarrow> nat set" where
  "passIndexesRequiredForLogin d = si_index ` set (db_select d si_loginRequired (t_secretsindexs d))"

definition passIndexAdd :: "auth_db \<Rightarrow> nat \<Rightarrow> string \<Rightarrow> bool \<Rightarrow> auth_db \<times> bool" where
  "passIndexAdd d passIndex descr loginRequired = db_query (\<lambda>d.
     map_option (\<lambda>t. d\<lparr>t_secretsindexs := t\<rparr>)
       (sql_insert si_index \<lparr>si_index = passIndex, si_description = descr, si_loginRequired = loginRequired\<rparr> (t_secretsindexs d))) d"

definition passIndexModify :: "auth_db \<Rightarrow> nat \<Rightarrow> string \<Rightarrow> bool \<Rightarrow> auth_db \<times> bool" where
  "passIndexModify d passIndex descr loginRequired = db_query (\<lambda>d.
     Some (d\<lparr>t_secretsindexs := sql_update (\<lambda>r. si_index r = passIndex)
       (\<lambda>r. r\<lparr>si_loginRequired := loginRequired, si_description := descr\<rparr>) (t_secretsindexs d)\<rparr>)) d"

definition passIndexDelete :: "auth_db \<Rightarrow> nat \<Rightarrow> auth_db \<times> bool" where
  "passIndexDelete d passIndex = db_query (\<lambda>d. Some (delete_index passIndex d)) d"

definition passIndexDescription :: "auth_db \<Rightarrow> nat \<Rightarrow> string" where
  "passIndexDescription d passIndex =
     (case db_first d (\<lambda>r. si_index r = passIndex) (t_secretsindexs d) of Some r \<Rightarrow> si_description r | None \<Rightarrow> '''')"

definition passIndexLoginRequired :: "auth_db \<Rightarrow> nat \<Rightarrow> bool" where
  "passIndexLoginRequired d passIndex =
     (case db_first d (\<lambda>r. si_index r = passIndex) (t_secretsindexs d) of Some r \<Rightarrow> si_loginRequired r | None \<Rightarrow> False)"

subsection \<open>Accounts\<close>

definition find_account :: "auth_db \<Rightarrow> string \<Rightarrow> account_row option" where
  "find_account d sAccountName = db_first d (\<lambda>r. ac_userName r = sAccountName) (t_accounts d)"

definition update_account :: "auth_db \<Rightarrow> string \<Rightarrow> (account_row \<Rightarrow> account_row) \<Rightarrow> auth_db \<times> bool" where
  "update_account d sAccountName f = db_query (\<lambda>d.
     Some (d\<lparr>t_accounts := sql_update (\<lambda>r. ac_userName r = sAccountName) f (t_accounts d)\<rparr>)) d"

text \<open>The rows the \<^verbatim>\<open>INSERT\<close> statements store; a creator is given by its presence only.\<close>

definition account_row_new :: "int \<Rightarrow> string \<Rightarrow> sAccountDetails \<Rightarrow> int \<Rightarrow> sAccountAttribs \<Rightarrow> string \<Rightarrow> account_row" where
  "account_row_new now sAccountName details expirationDate attribs sCreatorAccountName =
     \<lparr>ac_userName = sAccountName, ac_givenName = sGivenName details, ac_lastName = sLastName details,
      ac_email = sEmail details, ac_description = sDescription details, ac_extraData = sExtraData details,
      ac_superuser = attr_superuser attribs, ac_creation = now,
      ac_creator = (if sCreatorAccountName = [] then None else Some (sExtraData details)),
      ac_expiration = expirationDate, ac_lastLogin = now, ac_enabled = attr_enabled attribs,
      ac_confirmed = attr_confirmed attribs\<rparr>"

definition secret_row_new :: "string \<Rightarrow> nat \<Rightarrow> Secret \<Rightarrow> accountsecret_row" where
  "secret_row_new sAccountName passIndex s =
     \<lparr>as_secretIndex = passIndex, as_userName = sAccountName, as_hash = hash s, as_expiration = expiration s,
      as_function = passwordFunction s, as_salt = of_bytes (toHex (ssalt s)), as_forcedExpiration = forceExpiration s,
      as_steps = gAuthSteps s, as_badAttempts = 0\<rparr>"

text \<open>The statement that stores a secret, used for a new account and for a change.\<close>

definition insert_secret :: "string \<Rightarrow> nat \<Rightarrow> Secret \<Rightarrow> auth_db \<Rightarrow> auth_db \<times> bool" where
  "insert_secret sAccountName passIndex s = db_query (\<lambda>d.
     if has_index d passIndex \<and> has_account d sAccountName
     then map_option (\<lambda>t. d\<lparr>t_accountsecrets := t\<rparr>)
       (sql_insert (\<lambda>r. (as_secretIndex r, as_userName r)) (secret_row_new sAccountName passIndex s) (t_accountsecrets d))
     else None)"

definition accountAdd :: "int \<Rightarrow> string \<Rightarrow> auth_db \<Rightarrow> string \<Rightarrow> Secret \<Rightarrow> sAccountDetails \<Rightarrow> int \<Rightarrow> sAccountAttribs \<Rightarrow> string \<Rightarrow>
  auth_db \<times> bool" where
  "accountAdd now token d sAccountName secretData details expirationDate attribs sCreatorAccountName =
     db_and (db_and (db_query (\<lambda>d. map_option (\<lambda>t. d\<lparr>t_accounts := t\<rparr>)
        (sql_insert ac_userName
          (account_row_new now sAccountName details expirationDate attribs sCreatorAccountName) (t_accounts d))) d)
      (db_query (\<lambda>d. if has_account d sAccountName
        then map_option (\<lambda>t. d\<lparr>t_accountactivationtokens := t\<rparr>)
          (sql_insert fst (sAccountName, token) (t_accountactivationtokens d))
        else None)))
      (insert_secret sAccountName 0 secretData)"

definition accountConfirmationToken :: "auth_db \<Rightarrow> string \<Rightarrow> string" where
  "accountConfirmationToken d sAccountName =
     (case db_first d (\<lambda>(u, t). u = sAccountName) (t_accountactivationtokens d) of Some (u, t) \<Rightarrow> t | None \<Rightarrow> '''')"

definition isThereAnotherSuperUser :: "auth_db \<Rightarrow> string \<Rightarrow> bool" where
  "isThereAnotherSuperUser d sAccountName \<longleftrightarrow>
     db_first d (\<lambda>r. ac_userName r \<noteq> sAccountName \<and> ac_superuser r \<and> ac_enabled r) (t_accounts d) \<noteq> None"

definition accountRemove :: "auth_db \<Rightarrow> string \<Rightarrow> auth_db \<times> bool" where
  "accountRemove d sAccountName =
     (if isThereAnotherSuperUser d sAccountName
      then db_query (\<lambda>d. Some (delete_account sAccountName d)) d else (d, False))"

definition accountExist :: "auth_db \<Rightarrow> string \<Rightarrow> bool" where
  "accountExist d sAccountName \<longleftrightarrow> find_account d sAccountName \<noteq> None"

definition accountDisable :: "auth_db \<Rightarrow> string \<Rightarrow> bool \<Rightarrow> auth_db \<times> bool" where
  "accountDisable d sAccountName disabled =
     (if disabled \<and> \<not> isThereAnotherSuperUser d sAccountName then (d, False)
      else update_account d sAccountName (\<lambda>r. r\<lparr>ac_enabled := \<not> disabled\<rparr>))"

definition accountConfirm :: "auth_db \<Rightarrow> string \<Rightarrow> string \<Rightarrow> auth_db \<times> bool" where
  "accountConfirm d sAccountName confirmationToken =
     (case db_first d (\<lambda>(u, t). u = sAccountName) (t_accountactivationtokens d) of
        Some (u, t) \<Rightarrow> if t \<noteq> [] \<and> t = confirmationToken
          then update_account d sAccountName (\<lambda>r. r\<lparr>ac_confirmed := True\<rparr>) else (d, False)
      | None \<Rightarrow> (d, False))"

definition accountChangeSecret :: "auth_db \<Rightarrow> string \<Rightarrow> Secret \<Rightarrow> nat \<Rightarrow> auth_db \<times> bool" where
  "accountChangeSecret d sAccountName passwordData passIndex =
     insert_secret sAccountName passIndex passwordData
       (fst (db_query (\<lambda>d. Some (d\<lparr>t_accountsecrets :=
          sql_delete (\<lambda>r. as_userName r = sAccountName \<and> as_secretIndex r = passIndex) (t_accountsecrets d)\<rparr>)) d))"

definition accountChangeDescription :: "auth_db \<Rightarrow> string \<Rightarrow> string \<Rightarrow> auth_db \<times> bool" where
  "accountChangeDescription d sAccountName v = update_account d sAccountName (\<lambda>r. r\<lparr>ac_description := v\<rparr>)"

definition accountChangeGivenName :: "auth_db \<Rightarrow> string \<Rightarrow> string \<Rightarrow> auth_db \<times> bool" where
  "accountChangeGivenName d sAccountName v = update_account d sAccountName (\<lambda>r. r\<lparr>ac_givenName := v\<rparr>)"

definition accountChangeLastName :: "auth_db \<Rightarrow> string \<Rightarrow> string \<Rightarrow> auth_db \<times> bool" where
  "accountChangeLastName d sAccountName v = update_account d sAccountName (\<lambda>r. r\<lparr>ac_lastName := v\<rparr>)"

definition accountChangeEmail :: "auth_db \<Rightarrow> string \<Rightarrow> string \<Rightarrow> auth_db \<times> bool" where
  "accountChangeEmail d sAccountName v = update_account d sAccountName (\<lambda>r. r\<lparr>ac_email := v\<rparr>)"

definition accountChangeExtraData :: "auth_db \<Rightarrow> string \<Rightarrow> string \<Rightarrow> auth_db \<times> bool" where
  "accountChangeExtraData d sAccountName v = update_account d sAccountName (\<lambda>r. r\<lparr>ac_extraData := v\<rparr>)"

definition accountChangeExpiration :: "auth_db \<Rightarrow> string \<Rightarrow> int \<Rightarrow> auth_db \<times> bool" where
  "accountChangeExpiration d sAccountName v = update_account d sAccountName (\<lambda>r. r\<lparr>ac_expiration := v\<rparr>)"

definition accountAttribs :: "auth_db \<Rightarrow> string \<Rightarrow> sAccountAttribs" where
  "accountAttribs d sAccountName =
     (case find_account d sAccountName of
        Some r \<Rightarrow> \<lparr>attr_enabled = ac_enabled r, attr_confirmed = ac_confirmed r, attr_superuser = ac_superuser r\<rparr>
      | None \<Rightarrow> \<lparr>attr_enabled = False, attr_confirmed = False, attr_superuser = False\<rparr>)"

definition groupAccountAdd :: "auth_db \<Rightarrow> string \<Rightarrow> string \<Rightarrow> auth_db \<times> bool" where
  "groupAccountAdd d sGroupName sAccountName = db_query (\<lambda>d.
     if has_group d sGroupName \<and> has_account d sAccountName
     then map_option (\<lambda>t. d\<lparr>t_groupsaccounts := t\<rparr>) (sql_insert id (sGroupName, sAccountName) (t_groupsaccounts d))
     else None) d"

text \<open>The loop over the set, in its order.\<close>

fun groupset_loop :: "auth_db \<Rightarrow> string \<Rightarrow> string list \<Rightarrow> auth_db \<times> bool" where
  "groupset_loop d sAccountName [] = (d, True)"
| "groupset_loop d sAccountName (g # gs) =
     db_and (groupAccountAdd d g sAccountName) (\<lambda>d1. groupset_loop d1 sAccountName gs)"

definition accountChangeGroupSet :: "auth_db \<Rightarrow> string \<Rightarrow> string list \<Rightarrow> auth_db \<times> bool" where
  "accountChangeGroupSet d sAccountName groupSet =
     db_and (db_query (\<lambda>d. Some (d\<lparr>t_groupsaccounts :=
          sql_delete (\<lambda>(g, u). u = sAccountName) (t_groupsaccounts d)\<rparr>)) d)
      (\<lambda>d1. groupset_loop d1 sAccountName groupSet)"

definition accountChangeAttribs :: "auth_db \<Rightarrow> string \<Rightarrow> sAccountAttribs \<Rightarrow> auth_db \<times> bool" where
  "accountChangeAttribs d sAccountName a =
     (if (\<not> attr_confirmed a \<or> \<not> attr_enabled a \<or> \<not> attr_superuser a) \<and> \<not> isThereAnotherSuperUser d sAccountName
      then (d, False)
      else update_account d sAccountName
        (\<lambda>r. r\<lparr>ac_enabled := attr_enabled a, ac_confirmed := attr_confirmed a, ac_superuser := attr_superuser a\<rparr>))"

definition isAccountDisabled :: "auth_db \<Rightarrow> string \<Rightarrow> bool" where
  "isAccountDisabled d sAccountName = (case find_account d sAccountName of Some r \<Rightarrow> \<not> ac_enabled r | None \<Rightarrow> True)"

definition isAccountConfirmed :: "auth_db \<Rightarrow> string \<Rightarrow> bool" where
  "isAccountConfirmed d sAccountName = (case find_account d sAccountName of Some r \<Rightarrow> ac_confirmed r | None \<Rightarrow> False)"

definition isAccountSuperUser :: "auth_db \<Rightarrow> string \<Rightarrow> bool" where
  "isAccountSuperUser d sAccountName = (case find_account d sAccountName of Some r \<Rightarrow> ac_superuser r | None \<Rightarrow> False)"

definition accountGivenName :: "auth_db \<Rightarrow> string \<Rightarrow> string" where
  "accountGivenName d sAccountName = (case find_account d sAccountName of Some r \<Rightarrow> ac_givenName r | None \<Rightarrow> '''')"

definition accountLastName :: "auth_db \<Rightarrow> string \<Rightarrow> string" where
  "accountLastName d sAccountName = (case find_account d sAccountName of Some r \<Rightarrow> ac_lastName r | None \<Rightarrow> '''')"

definition accountDescription :: "auth_db \<Rightarrow> string \<Rightarrow> string" where
  "accountDescription d sAccountName = (case find_account d sAccountName of Some r \<Rightarrow> ac_description r | None \<Rightarrow> '''')"

definition accountEmail :: "auth_db \<Rightarrow> string \<Rightarrow> string" where
  "accountEmail d sAccountName = (case find_account d sAccountName of Some r \<Rightarrow> ac_email r | None \<Rightarrow> '''')"

definition accountExtraData :: "auth_db \<Rightarrow> string \<Rightarrow> string" where
  "accountExtraData d sAccountName = (case find_account d sAccountName of Some r \<Rightarrow> ac_extraData r | None \<Rightarrow> '''')"

definition accountExpirationDate :: "auth_db \<Rightarrow> string \<Rightarrow> int" where
  "accountExpirationDate d sAccountName = (case find_account d sAccountName of Some r \<Rightarrow> ac_expiration r | None \<Rightarrow> 1)"

definition accountLastLogin :: "auth_db \<Rightarrow> string \<Rightarrow> int" where
  "accountLastLogin d sAccountName = (case find_account d sAccountName of Some r \<Rightarrow> ac_lastLogin r | None \<Rightarrow> 1)"

definition updateLastLogin :: "int \<Rightarrow> auth_db \<Rightarrow> string \<Rightarrow> nat \<Rightarrow> sClientDetails \<Rightarrow> auth_db" where
  "updateLastLogin now d sAccountName uPassIdx clientDetails =
     fst (db_query (\<lambda>d. if has_index d uPassIdx \<and> has_account d sAccountName
        then Some (d\<lparr>t_accountlogins := t_accountlogins d @
          [\<lparr>al_userName = sAccountName, al_secretIndex = uPassIdx, al_loginDateTime = now, al_details = clientDetails\<rparr>]\<rparr>)
        else None)
      (fst (update_account d sAccountName (\<lambda>r. r\<lparr>ac_lastLogin := now\<rparr>))))"

definition update_secret :: "auth_db \<Rightarrow> string \<Rightarrow> nat \<Rightarrow> (accountsecret_row \<Rightarrow> accountsecret_row) \<Rightarrow> auth_db" where
  "update_secret d sAccountName passIndex f = fst (db_query (\<lambda>d.
     Some (d\<lparr>t_accountsecrets := sql_update (\<lambda>r. as_userName r = sAccountName \<and> as_secretIndex r = passIndex) f
       (t_accountsecrets d)\<rparr>)) d)"

definition resetBadAttempts :: "auth_db \<Rightarrow> string \<Rightarrow> nat \<Rightarrow> auth_db" where
  "resetBadAttempts d sAccountName passIndex = update_secret d sAccountName passIndex (\<lambda>r. r\<lparr>as_badAttempts := 0\<rparr>)"

definition incrementBadAttempts :: "auth_db \<Rightarrow> string \<Rightarrow> nat \<Rightarrow> auth_db" where
  "incrementBadAttempts d sAccountName passIndex =
     update_secret d sAccountName passIndex (\<lambda>r. r\<lparr>as_badAttempts := as_badAttempts r + 1\<rparr>)"

text \<open>A search: the pattern, the limit and the exception of a driver that cannot bind the limit.\<close>

definition search_rows :: "(string \<Rightarrow> string \<Rightarrow> bool) \<Rightarrow> auth_db \<Rightarrow> ('r \<Rightarrow> string list) \<Rightarrow> 'r list \<Rightarrow> string \<Rightarrow> nat \<Rightarrow> nat \<Rightarrow>
  string + 'r list" where
  "search_rows like d columns t sSearchWords limit offset =
     (if \<not> db_ready d then Inr []
      else if limit \<noteq> 0 \<and> \<not> db_uint64 d then Inl ''UINT64 is not supported by SQLite3''
      else let found = (if sSearchWords = [] then t
             else filter (\<lambda>r. \<exists>c\<in>set (columns r). like c (''%'' @ sSearchWords @ ''%'')) t)
           in Inr (if limit = 0 then found else take limit (drop offset found)))"

definition accountsBasicInfoSearch :: "(string \<Rightarrow> string \<Rightarrow> bool) \<Rightarrow> int \<Rightarrow> auth_db \<Rightarrow> string \<Rightarrow> nat \<Rightarrow> nat \<Rightarrow>
  string + sAccountSimpleDetails list" where
  "accountsBasicInfoSearch like now d sSearchWords limit offset =
     map_sum id (map (\<lambda>r. \<lparr>sd_accountName = ac_userName r, sd_givenName = ac_givenName r, sd_lastName = ac_lastName r,
        sd_email = ac_email r, sd_description = ac_description r, sd_enabled = ac_enabled r,
        sd_confirmed = ac_confirmed r, sd_superuser = ac_superuser r,
        sd_expired = (if ac_expiration r = 0 then False else ac_expiration r < now)\<rparr>))
      (search_rows like d (\<lambda>r. [ac_userName r, ac_givenName r, ac_lastName r, ac_email r, ac_description r])
        (t_accounts d) sSearchWords limit offset)"

definition accountsList :: "auth_db \<Rightarrow> string set" where
  "accountsList d = ac_userName ` set (db_select d (\<lambda>_. True) (t_accounts d))"

definition accountGroups :: "auth_db \<Rightarrow> string \<Rightarrow> string set" where
  "accountGroups d sAccountName = fst ` set (db_select d (\<lambda>(g, u). u = sAccountName) (t_groupsaccounts d))"

definition accountDirectAttribs :: "auth_db \<Rightarrow> string \<Rightarrow> sApplicationAttrib set" where
  "accountDirectAttribs d sAccountName = fst ` set (db_select d (\<lambda>(a, u). u = sAccountName) (t_attribsaccounts d))"

definition superUserAccountExist :: "auth_db \<Rightarrow> bool" where
  "superUserAccountExist d \<longleftrightarrow> db_first d ac_superuser (t_accounts d) \<noteq> None"

definition secret_of_row :: "accountsecret_row \<Rightarrow> Secret" where
  "secret_of_row r = \<lparr>gAuthSteps = as_steps r, forceExpiration = as_forcedExpiration r, passwordFunction = as_function r,
     badAttempts = as_badAttempts r mod 2 ^ 32, expiration = as_expiration r, hash = as_hash r,
     ssalt = fromHex (to_bytes (as_salt r)) (ssalt Secret_new) 4\<rparr>"

definition retrieveSecret :: "auth_db \<Rightarrow> string \<Rightarrow> nat \<Rightarrow> Secret \<times> bool \<times> bool" where
  "retrieveSecret d sAccountName passIndex =
     (if \<not> accountExist d sAccountName then (Secret_new, False, False)
      else case db_first d (\<lambda>r. as_userName r = sAccountName \<and> as_secretIndex r = passIndex) (t_accountsecrets d) of
          Some r \<Rightarrow> (secret_of_row r, True, True)
        | None \<Rightarrow> (Secret_new, True, False))"

subsection \<open>Groups\<close>

definition groupAdd :: "auth_db \<Rightarrow> string \<Rightarrow> string \<Rightarrow> auth_db \<times> bool" where
  "groupAdd d groupName descr = db_query (\<lambda>d.
     map_option (\<lambda>t. d\<lparr>t_groups := t\<rparr>) (sql_insert fst (groupName, descr) (t_groups d))) d"

definition groupRemove :: "auth_db \<Rightarrow> string \<Rightarrow> auth_db \<times> bool" where
  "groupRemove d groupName = db_query (\<lambda>d. Some (delete_group groupName d)) d"

definition groupExist :: "auth_db \<Rightarrow> string \<Rightarrow> bool" where
  "groupExist d groupName \<longleftrightarrow> db_first d (\<lambda>(g, s). g = groupName) (t_groups d) \<noteq> None"

definition groupAccountRemove :: "auth_db \<Rightarrow> string \<Rightarrow> string \<Rightarrow> auth_db \<times> bool" where
  "groupAccountRemove d sGroupName sAccountName = db_query (\<lambda>d.
     Some (d\<lparr>t_groupsaccounts := sql_delete (\<lambda>(g, u). g = sGroupName \<and> u = sAccountName) (t_groupsaccounts d)\<rparr>)) d"

definition groupChangeDescription :: "auth_db \<Rightarrow> string \<Rightarrow> string \<Rightarrow> auth_db \<times> bool" where
  "groupChangeDescription d groupName descr = db_query (\<lambda>d.
     Some (d\<lparr>t_groups := sql_update (\<lambda>(g, s). g = groupName) (\<lambda>(g, s). (g, descr)) (t_groups d)\<rparr>)) d"

definition groupValidateAttribute :: "auth_db \<Rightarrow> string \<Rightarrow> sApplicationAttrib \<Rightarrow> bool" where
  "groupValidateAttribute d sGroupName attrib \<longleftrightarrow>
     db_first d (\<lambda>(a, g). a = attrib \<and> g = sGroupName) (t_attribsgroups d) \<noteq> None"

definition groupDescription :: "auth_db \<Rightarrow> string \<Rightarrow> string" where
  "groupDescription d sGroupName =
     (case db_first d (\<lambda>(g, s). g = sGroupName) (t_groups d) of Some (g, s) \<Rightarrow> s | None \<Rightarrow> '''')"

definition groupsList :: "auth_db \<Rightarrow> string set" where
  "groupsList d = fst ` set (db_select d (\<lambda>_. True) (t_groups d))"

definition groupAttribs :: "auth_db \<Rightarrow> string \<Rightarrow> sApplicationAttrib set" where
  "groupAttribs d sGroupName = fst ` set (db_select d (\<lambda>(a, g). g = sGroupName) (t_attribsgroups d))"

definition groupAccounts :: "auth_db \<Rightarrow> string \<Rightarrow> string set" where
  "groupAccounts d sGroupName = snd ` set (db_select d (\<lambda>(g, u). g = sGroupName) (t_groupsaccounts d))"

definition groupsBasicInfoSearch :: "(string \<Rightarrow> string \<Rightarrow> bool) \<Rightarrow> auth_db \<Rightarrow> string \<Rightarrow> nat \<Rightarrow> nat \<Rightarrow>
  string + (string \<times> string) list" where
  "groupsBasicInfoSearch like d = search_rows like d (\<lambda>(g, s). [g, s]) (t_groups d)"

subsection \<open>Applications\<close>

definition applicationAdd :: "(nat \<Rightarrow> nat \<Rightarrow> byte) \<Rightarrow> nat \<Rightarrow> auth_db \<Rightarrow> string \<Rightarrow> string \<Rightarrow> string \<Rightarrow> string \<Rightarrow> auth_db \<times> bool" where
  "applicationAdd dis seed d app descr sAppKey sOwnerAccountName = db_query (\<lambda>d.
     if has_account d sOwnerAccountName
     then map_option (\<lambda>t. d\<lparr>t_applications := t\<rparr>)
       (sql_insert ap_appName \<lparr>ap_appName = app, ap_appCreator = sOwnerAccountName, ap_appDescription = descr,
          ap_appKey = of_bytes (toBase64Obf dis True (to_bytes sAppKey) seed)\<rparr> (t_applications d))
     else None) d"

definition applicationRemove :: "auth_db \<Rightarrow> string \<Rightarrow> auth_db \<times> bool" where
  "applicationRemove d app = db_query (\<lambda>d. Some (delete_applications (\<lambda>a. a = app) d)) d"

definition find_application :: "auth_db \<Rightarrow> string \<Rightarrow> application_row option" where
  "find_application d app = db_first d (\<lambda>r. ap_appName r = app) (t_applications d)"

definition update_application :: "auth_db \<Rightarrow> string \<Rightarrow> (application_row \<Rightarrow> application_row) \<Rightarrow> auth_db \<times> bool" where
  "update_application d app f = db_query (\<lambda>d.
     Some (d\<lparr>t_applications := sql_update (\<lambda>r. ap_appName r = app) f (t_applications d)\<rparr>)) d"

definition applicationExist :: "auth_db \<Rightarrow> string \<Rightarrow> bool" where
  "applicationExist d app \<longleftrightarrow> find_application d app \<noteq> None"

definition applicationDescription :: "auth_db \<Rightarrow> string \<Rightarrow> string" where
  "applicationDescription d app = (case find_application d app of Some r \<Rightarrow> ap_appDescription r | None \<Rightarrow> '''')"

definition applicationKey :: "(nat \<Rightarrow> nat \<Rightarrow> byte) \<Rightarrow> nat \<Rightarrow> auth_db \<Rightarrow> string \<Rightarrow> string" where
  "applicationKey dis seed d app =
     (case find_application d app of
        Some r \<Rightarrow> of_bytes (fromBase64Obf dis (to_bytes (ap_appKey r)) seed) | None \<Rightarrow> '''')"

definition applicationChangeKey :: "(nat \<Rightarrow> nat \<Rightarrow> byte) \<Rightarrow> nat \<Rightarrow> auth_db \<Rightarrow> string \<Rightarrow> string \<Rightarrow> auth_db \<times> bool" where
  "applicationChangeKey dis seed d app appKey =
     update_application d app (\<lambda>r. r\<lparr>ap_appKey := of_bytes (toBase64Obf dis True (to_bytes appKey) seed)\<rparr>)"

definition applicationChangeDescription :: "auth_db \<Rightarrow> string \<Rightarrow> string \<Rightarrow> auth_db \<times> bool" where
  "applicationChangeDescription d app descr = update_application d app (\<lambda>r. r\<lparr>ap_appDescription := descr\<rparr>)"

definition applicationList :: "auth_db \<Rightarrow> string set" where
  "applicationList d = ap_appName ` set (db_select d (\<lambda>_. True) (t_applications d))"

definition applicationValidateOwner :: "auth_db \<Rightarrow> string \<Rightarrow> string \<Rightarrow> bool" where
  "applicationValidateOwner d app sAccountName \<longleftrightarrow>
     db_first d (\<lambda>(u, a). u = sAccountName \<and> a = app) (t_applicationmanagers d) \<noteq> None"

definition applicationValidateAccount :: "auth_db \<Rightarrow> string \<Rightarrow> string \<Rightarrow> bool" where
  "applicationValidateAccount d app sAccountName \<longleftrightarrow>
     db_first d (\<lambda>(u, a). u = sAccountName \<and> a = app) (t_applicationusers d) \<noteq> None"

definition applicationOwners :: "auth_db \<Rightarrow> string \<Rightarrow> string set" where
  "applicationOwners d app = fst ` set (db_select d (\<lambda>(u, a). a = app) (t_applicationmanagers d))"

definition applicationAccounts :: "auth_db \<Rightarrow> string \<Rightarrow> string set" where
  "applicationAccounts d app = fst ` set (db_select d (\<lambda>(u, a). a = app) (t_applicationusers d))"

definition accountApplications :: "auth_db \<Rightarrow> string \<Rightarrow> string set" where
  "accountApplications d sAccountName = snd ` set (db_select d (\<lambda>(u, a). u = sAccountName) (t_applicationusers d))"

definition applicationAccountAdd :: "auth_db \<Rightarrow> string \<Rightarrow> string \<Rightarrow> auth_db \<times> bool" where
  "applicationAccountAdd d app sAccountName = db_query (\<lambda>d.
     if has_account d sAccountName \<and> has_application d app
     then map_option (\<lambda>t. d\<lparr>t_applicationusers := t\<rparr>) (sql_insert id (sAccountName, app) (t_applicationusers d))
     else None) d"

definition applicationAccountRemove :: "auth_db \<Rightarrow> string \<Rightarrow> string \<Rightarrow> auth_db \<times> bool" where
  "applicationAccountRemove d app sAccountName = db_query (\<lambda>d.
     Some (d\<lparr>t_applicationusers := sql_delete (\<lambda>(u, a). a = app \<and> u = sAccountName) (t_applicationusers d)\<rparr>)) d"

definition applicationOwnerAdd :: "auth_db \<Rightarrow> string \<Rightarrow> string \<Rightarrow> auth_db \<times> bool" where
  "applicationOwnerAdd d app sAccountName = db_query (\<lambda>d.
     if has_account d sAccountName \<and> has_application d app
     then map_option (\<lambda>t. d\<lparr>t_applicationmanagers := t\<rparr>) (sql_insert id (sAccountName, app) (t_applicationmanagers d))
     else None) d"

definition applicationOwnerRemove :: "auth_db \<Rightarrow> string \<Rightarrow> string \<Rightarrow> auth_db \<times> bool" where
  "applicationOwnerRemove d app sAccountName = db_query (\<lambda>d.
     Some (d\<lparr>t_applicationmanagers := sql_delete (\<lambda>(u, a). a = app \<and> u = sAccountName) (t_applicationmanagers d)\<rparr>)) d"

definition applicationsBasicInfoSearch :: "(string \<Rightarrow> string \<Rightarrow> bool) \<Rightarrow> auth_db \<Rightarrow> string \<Rightarrow> nat \<Rightarrow> nat \<Rightarrow>
  string + (string \<times> string \<times> string) list" where
  "applicationsBasicInfoSearch like d sSearchWords limit offset =
     map_sum id (map (\<lambda>r. (ap_appName r, ap_appCreator r, ap_appDescription r)))
      (search_rows like d (\<lambda>r. [ap_appName r, ap_appDescription r]) (t_applications d) sSearchWords limit offset)"

subsection \<open>Attributes\<close>

definition attribAdd :: "auth_db \<Rightarrow> sApplicationAttrib \<Rightarrow> string \<Rightarrow> auth_db \<times> bool" where
  "attribAdd d attrib descr = db_query (\<lambda>d.
     if has_application d (aa_appName attrib)
     then map_option (\<lambda>t. d\<lparr>t_attribs := t\<rparr>) (sql_insert at_attrib \<lparr>at_attrib = attrib, at_description = descr\<rparr> (t_attribs d))
     else None) d"

definition attribRemove :: "auth_db \<Rightarrow> sApplicationAttrib \<Rightarrow> auth_db \<times> bool" where
  "attribRemove d attrib = db_query (\<lambda>d. Some (delete_attribs (\<lambda>a. a = attrib) d)) d"

definition attribExist :: "auth_db \<Rightarrow> sApplicationAttrib \<Rightarrow> bool" where
  "attribExist d attrib \<longleftrightarrow> db_first d (\<lambda>r. at_attrib r = attrib) (t_attribs d) \<noteq> None"

definition attribGroupAdd :: "auth_db \<Rightarrow> sApplicationAttrib \<Rightarrow> string \<Rightarrow> auth_db \<times> bool" where
  "attribGroupAdd d attrib sGroupName = db_query (\<lambda>d.
     if has_attrib d attrib \<and> has_group d sGroupName
     then map_option (\<lambda>t. d\<lparr>t_attribsgroups := t\<rparr>) (sql_insert id (attrib, sGroupName) (t_attribsgroups d))
     else None) d"

definition attribGroupRemove :: "auth_db \<Rightarrow> sApplicationAttrib \<Rightarrow> string \<Rightarrow> auth_db \<times> bool" where
  "attribGroupRemove d attrib sGroupName = db_query (\<lambda>d.
     Some (d\<lparr>t_attribsgroups := sql_delete (\<lambda>(a, g). a = attrib \<and> g = sGroupName) (t_attribsgroups d)\<rparr>)) d"

definition attribAccountAdd :: "auth_db \<Rightarrow> sApplicationAttrib \<Rightarrow> string \<Rightarrow> auth_db \<times> bool" where
  "attribAccountAdd d attrib sAccountName = db_query (\<lambda>d.
     if has_attrib d attrib \<and> has_account d sAccountName
     then map_option (\<lambda>t. d\<lparr>t_attribsaccounts := t\<rparr>) (sql_insert id (attrib, sAccountName) (t_attribsaccounts d))
     else None) d"

definition attribAccountRemove :: "auth_db \<Rightarrow> sApplicationAttrib \<Rightarrow> string \<Rightarrow> auth_db \<times> bool" where
  "attribAccountRemove d attrib sAccountName = db_query (\<lambda>d.
     Some (d\<lparr>t_attribsaccounts := sql_delete (\<lambda>(a, u). a = attrib \<and> u = sAccountName) (t_attribsaccounts d)\<rparr>)) d"

definition attribChangeDescription :: "auth_db \<Rightarrow> sApplicationAttrib \<Rightarrow> string \<Rightarrow> auth_db \<times> bool" where
  "attribChangeDescription d attrib descr = db_query (\<lambda>d.
     Some (d\<lparr>t_attribs := sql_update (\<lambda>r. at_attrib r = attrib) (\<lambda>r. r\<lparr>at_description := descr\<rparr>) (t_attribs d)\<rparr>)) d"

definition attribDescription :: "auth_db \<Rightarrow> sApplicationAttrib \<Rightarrow> string" where
  "attribDescription d attrib =
     (case db_first d (\<lambda>r. at_attrib r = attrib) (t_attribs d) of Some r \<Rightarrow> at_description r | None \<Rightarrow> '''')"

definition attribsList :: "auth_db \<Rightarrow> string \<Rightarrow> sApplicationAttrib set" where
  "attribsList d app = at_attrib ` set (db_select d (\<lambda>r. app = [] \<or> aa_appName (at_attrib r) = app) (t_attribs d))"

definition attribGroups :: "auth_db \<Rightarrow> sApplicationAttrib \<Rightarrow> string set" where
  "attribGroups d attrib = snd ` set (db_select d (\<lambda>(a, g). a = attrib) (t_attribsgroups d))"

definition attribAccounts :: "auth_db \<Rightarrow> sApplicationAttrib \<Rightarrow> string set" where
  "attribAccounts d attrib = snd ` set (db_select d (\<lambda>(a, u). a = attrib) (t_attribsaccounts d))"

text \<open>The statement names columns of \<^verbatim>\<open>vauth_v3_applications\<close> that this table does not have, so the query
  always fails and no row is read.\<close>

definition attribsBasicInfoSearch :: "auth_db \<Rightarrow> string \<Rightarrow> string \<Rightarrow> nat \<Rightarrow> nat \<Rightarrow> (string \<times> string) list" where
  "attribsBasicInfoSearch d app sSearchWords limit offset = []"

definition accountValidateDirectAttribute :: "auth_db \<Rightarrow> string \<Rightarrow> sApplicationAttrib \<Rightarrow> bool" where
  "accountValidateDirectAttribute d sAccountName attrib \<longleftrightarrow>
     db_first d (\<lambda>(a, u). a = attrib \<and> u = sAccountName) (t_attribsaccounts d) \<noteq> None"

end
