(* ===== verification/Auth_DB_Facts.thy ===== *)
theory Auth_DB_Facts
  imports Auth_DB_Ops
begin

text \<open>
  Facts about the tables of \<^verbatim>\<open>Manager_DB\<close>: every operation keeps the keys unique and the references
  valid, and no sequence of operations leaves the system without an enabled superuser.
\<close>

subsection \<open>Well-formed tables\<close>

definition uniq :: "('r \<Rightarrow> 'k) \<Rightarrow> 'r list \<Rightarrow> bool" where
  "uniq key t \<longleftrightarrow> distinct (map key t)"

definition refers :: "('r \<Rightarrow> 'k) \<Rightarrow> 'r list \<Rightarrow> ('p \<Rightarrow> 'k) \<Rightarrow> 'p list \<Rightarrow> bool" where
  "refers fk t key parents \<longleftrightarrow> fk ` set t \<subseteq> key ` set parents"

lemma sql_insert_Some: "sql_insert key r t = Some t' \<longleftrightarrow> key r \<notin> key ` set t \<and> t' = t @ [r]"
  by (auto simp: sql_insert_def)

lemma uniq_append: "uniq key (t @ [r]) \<longleftrightarrow> uniq key t \<and> key r \<notin> key ` set t"
  by (auto simp: uniq_def)

lemma uniq_delete: "uniq key t \<Longrightarrow> uniq key (sql_delete P t)"
  by (simp add: uniq_def sql_delete_def distinct_map_filter)

lemma map_sql_update [simp]: "(\<And>r. key (f r) = key r) \<Longrightarrow> map key (sql_update P f t) = map key t"
  by (simp add: sql_update_def)

lemma uniq_update: "(\<And>r. key (f r) = key r) \<Longrightarrow> uniq key (sql_update P f t) = uniq key t"
  by (simp add: uniq_def)

lemma keys_update: "(\<And>r. key (f r) = key r) \<Longrightarrow> key ` set (sql_update P f t) = key ` set t"
  by (metis list.set_map map_sql_update)

lemma refers_update: "(\<And>r. fk (f r) = fk r) \<Longrightarrow> refers fk (sql_update P f t) key ps = refers fk t key ps"
  by (simp add: refers_def keys_update)

lemma refers_update_parent: "(\<And>r. key (f r) = key r) \<Longrightarrow> refers fk t key (sql_update P f ps) = refers fk t key ps"
  by (simp add: refers_def keys_update)

lemma refers_append: "refers fk (t @ [r]) key ps \<longleftrightarrow> refers fk t key ps \<and> fk r \<in> key ` set ps"
  by (auto simp: refers_def)

lemma refers_append_parent: "refers fk t key ps \<Longrightarrow> refers fk t key (ps @ [r])"
  by (auto simp: refers_def)

lemma refers_delete: "refers fk t key ps \<Longrightarrow> refers fk (sql_delete P t) key ps"
  by (auto simp: refers_def sql_delete_def)

lemma refers_cascade:
  "refers fk t key ps \<Longrightarrow> (\<And>r p. fk r = key p \<Longrightarrow> Q p \<Longrightarrow> P r) \<Longrightarrow> refers fk (sql_delete P t) key (sql_delete Q ps)"
  by (fastforce simp: refers_def sql_delete_def)

text \<open>Primary keys and unique indexes; foreign keys.\<close>

definition keys_unique :: "auth_db \<Rightarrow> bool" where
  "keys_unique d \<longleftrightarrow>
     uniq ac_userName (t_accounts d) \<and> uniq ap_appName (t_applications d) \<and> uniq at_attrib (t_attribs d) \<and>
     uniq id (t_applicationmanagers d) \<and> uniq id (t_applicationusers d) \<and> uniq si_index (t_secretsindexs d) \<and>
     uniq id (t_accountmanagers d) \<and> uniq fst (t_accountactivationtokens d) \<and>
     uniq (\<lambda>r. (as_secretIndex r, as_userName r)) (t_accountsecrets d) \<and> uniq fst (t_groups d) \<and>
     uniq id (t_groupsaccounts d) \<and> uniq id (t_attribsgroups d) \<and> uniq id (t_attribsaccounts d)"

definition references_valid :: "auth_db \<Rightarrow> bool" where
  "references_valid d \<longleftrightarrow>
     refers ap_appCreator (t_applications d) ac_userName (t_accounts d) \<and>
     refers (\<lambda>r. aa_appName (at_attrib r)) (t_attribs d) ap_appName (t_applications d) \<and>
     refers fst (t_applicationmanagers d) ac_userName (t_accounts d) \<and>
     refers snd (t_applicationmanagers d) ap_appName (t_applications d) \<and>
     refers fst (t_applicationusers d) ac_userName (t_accounts d) \<and>
     refers snd (t_applicationusers d) ap_appName (t_applications d) \<and>
     refers al_secretIndex (t_accountlogins d) si_index (t_secretsindexs d) \<and>
     refers al_userName (t_accountlogins d) ac_userName (t_accounts d) \<and>
     refers fst (t_accountmanagers d) ac_userName (t_accounts d) \<and>
     refers snd (t_accountmanagers d) ac_userName (t_accounts d) \<and>
     refers fst (t_accountactivationtokens d) ac_userName (t_accounts d) \<and>
     refers as_secretIndex (t_accountsecrets d) si_index (t_secretsindexs d) \<and>
     refers as_userName (t_accountsecrets d) ac_userName (t_accounts d) \<and>
     refers fst (t_groupsaccounts d) fst (t_groups d) \<and>
     refers snd (t_groupsaccounts d) ac_userName (t_accounts d) \<and>
     refers fst (t_attribsgroups d) at_attrib (t_attribs d) \<and>
     refers snd (t_attribsgroups d) fst (t_groups d) \<and>
     refers fst (t_attribsaccounts d) at_attrib (t_attribs d) \<and>
     refers snd (t_attribsaccounts d) ac_userName (t_accounts d)"

definition db_wf :: "auth_db \<Rightarrow> bool" where
  "db_wf d \<longleftrightarrow> keys_unique d \<and> references_valid d"

lemmas wf_defs = db_wf_def keys_unique_def references_valid_def
lemmas table_simps = uniq_update refers_update refers_update_parent uniq_delete refers_delete uniq_append refers_append
  refers_append_parent sql_insert_Some has_account_def has_application_def has_attrib_def has_index_def has_group_def case_prod_unfold

lemma refers_delete_parent:
  "refers fk t key ps \<Longrightarrow> (\<And>r p. r \<in> set t \<Longrightarrow> fk r = key p \<Longrightarrow> \<not> Q p) \<Longrightarrow> refers fk t key (sql_delete Q ps)"
  by (fastforce simp: refers_def sql_delete_def)

lemma query_wf:
  assumes "\<And>d'. stmt d = Some d' \<Longrightarrow> db_wf d'" "db_wf d"
  shows "db_wf (fst (db_query stmt d))"
  using assms by (auto simp: db_query_def split: option.splits)

lemma delete_attribs_wf: "db_wf d \<Longrightarrow> db_wf (delete_attribs P d)"
  unfolding wf_defs delete_attribs_def
    by (simp add: uniq_delete refers_delete) (intro conjI refers_cascade; auto simp: refers_delete)

lemma delete_applications_wf:
  assumes "db_wf d"
  shows "db_wf (delete_applications P d)"
proof -
  let ?d1 = "delete_attribs (\<lambda>a. P (aa_appName a)) d"
  have "refers (\<lambda>r. aa_appName (at_attrib r)) (t_attribs ?d1) ap_appName (sql_delete (\<lambda>r. P (ap_appName r)) (t_applications ?d1))"
    using assms unfolding wf_defs delete_attribs_def
    by (elim conjE, simp, intro refers_cascade) auto
  with delete_attribs_wf [OF assms, of "\<lambda>a. P (aa_appName a)"] show ?thesis
    unfolding wf_defs delete_applications_def Let_def
    by (simp add: uniq_delete refers_delete) (intro conjI refers_cascade; auto simp: refers_delete)
qed

lemma delete_account_wf:
  assumes "db_wf d"
  shows "db_wf (delete_account n d)"
proof -
  define d1 where
    "d1 = delete_applications (\<lambda>a. \<exists>r\<in>set (t_applications d). ap_appName r = a \<and> ap_appCreator r = n) d"
  have wf: "db_wf d1" unfolding d1_def by (rule delete_applications_wf [OF assms])
  have "refers ap_appCreator (t_applications d1) ac_userName (sql_delete (\<lambda>r. ac_userName r = n) (t_accounts d1))"
  proof (rule refers_delete_parent)
    show "refers ap_appCreator (t_applications d1) ac_userName (t_accounts d1)" using wf by (simp add: wf_defs)
  qed (auto simp: d1_def delete_applications_def delete_attribs_def sql_delete_def Let_def)
  with wf show ?thesis
    unfolding wf_defs delete_account_def Let_def d1_def [symmetric]
    by (simp add: uniq_delete refers_delete) (intro conjI refers_cascade; (elim conjE)?; auto simp: refers_delete)
qed

lemma delete_index_wf: "db_wf d \<Longrightarrow> db_wf (delete_index i d)"
  unfolding wf_defs delete_index_def
  by (simp add: uniq_delete refers_delete) (intro conjI refers_cascade; auto simp: refers_delete)

lemma delete_group_wf: "db_wf d \<Longrightarrow> db_wf (delete_group g d)"
  unfolding wf_defs delete_group_def
    by (simp add: uniq_delete refers_delete) (intro conjI refers_cascade; auto simp: refers_delete)

named_theorems op_wf \<open>each operation keeps the tables well-formed\<close>

lemma row_simps [simp]:
  "ac_userName (account_row_new now u det e a creator) = u"
  "ac_creator (account_row_new now u det e a creator) = (if creator = [] then None else Some (sExtraData det))"
  "as_userName (secret_row_new u i s) = u" "as_secretIndex (secret_row_new u i s) = i"
  by (simp_all add: account_row_new_def secret_row_new_def)

lemma update_account_wf:
  assumes "db_wf d" "\<And>r. ac_userName (f r) = ac_userName r"
  shows "db_wf (fst (update_account d u f))"
  unfolding update_account_def using assms by (intro query_wf) (clarsimp simp: wf_defs table_simps)

lemma update_application_wf:
  assumes "db_wf d" "\<And>r. ap_appName (f r) = ap_appName r" "\<And>r. ap_appCreator (f r) = ap_appCreator r"
  shows "db_wf (fst (update_application d a f))"
  unfolding update_application_def using assms by (intro query_wf) (clarsimp simp: wf_defs table_simps)

lemma update_secret_wf:
  assumes "db_wf d" "\<And>r. as_userName (f r) = as_userName r" "\<And>r. as_secretIndex (f r) = as_secretIndex r"
  shows "db_wf (update_secret d u i f)"
  unfolding update_secret_def using assms by (intro query_wf) (clarsimp simp: wf_defs table_simps)

lemma insert_secret_wf: "db_wf d \<Longrightarrow> db_wf (fst (insert_secret u i s d))"
  unfolding insert_secret_def by (rule query_wf) (clarsimp simp: wf_defs table_simps split: if_splits)

lemma db_and_wf: "db_wf (fst r) \<Longrightarrow> (\<And>d. db_wf d \<Longrightarrow> db_wf (fst (f d))) \<Longrightarrow> db_wf (fst (db_and r f))"
  by (simp add: db_and_def)

lemma passIndexAdd_wf [op_wf]: "db_wf d \<Longrightarrow> db_wf (fst (passIndexAdd d i s b))"
  unfolding passIndexAdd_def by (rule query_wf) (clarsimp simp: wf_defs table_simps split: if_splits)

lemma passIndexModify_wf [op_wf]: "db_wf d \<Longrightarrow> db_wf (fst (passIndexModify d i s b))"
  unfolding passIndexModify_def by (rule query_wf) (clarsimp simp: wf_defs table_simps split: if_splits)

lemma passIndexDelete_wf [op_wf]: "db_wf d \<Longrightarrow> db_wf (fst (passIndexDelete d i))"
  unfolding passIndexDelete_def by (rule query_wf) (auto simp: delete_index_wf)

lemma accountAdd_wf [op_wf]: "db_wf d \<Longrightarrow> db_wf (fst (accountAdd now t d u s a e b c))"
  unfolding accountAdd_def by (intro db_and_wf insert_secret_wf query_wf) (auto simp: wf_defs table_simps split: if_splits)

lemma accountRemove_wf [op_wf]: "db_wf d \<Longrightarrow> db_wf (fst (accountRemove d u))"
  unfolding accountRemove_def by (auto intro: query_wf simp: delete_account_wf)

lemma accountDisable_wf [op_wf]: "db_wf d \<Longrightarrow> db_wf (fst (accountDisable d u b))"
  unfolding accountDisable_def by (simp add: update_account_wf)

lemma accountConfirm_wf [op_wf]: "db_wf d \<Longrightarrow> db_wf (fst (accountConfirm d u t))"
  unfolding accountConfirm_def by (simp add: update_account_wf split: option.split prod.split)

lemma accountChangeSecret_wf [op_wf]: "db_wf d \<Longrightarrow> db_wf (fst (accountChangeSecret d u s i))"
  unfolding accountChangeSecret_def by (intro insert_secret_wf query_wf) (clarsimp simp: wf_defs table_simps)

lemma groupAccountAdd_wf [op_wf]: "db_wf d \<Longrightarrow> db_wf (fst (groupAccountAdd d g u))"
  unfolding groupAccountAdd_def by (rule query_wf) (clarsimp simp: wf_defs table_simps split: if_splits)

lemma accountChangeDescription_wf [op_wf]: "db_wf d \<Longrightarrow> db_wf (fst (accountChangeDescription d u v))"
  unfolding accountChangeDescription_def by (simp add: update_account_wf)

lemma accountChangeGivenName_wf [op_wf]: "db_wf d \<Longrightarrow> db_wf (fst (accountChangeGivenName d u v))"
  unfolding accountChangeGivenName_def by (simp add: update_account_wf)

lemma accountChangeLastName_wf [op_wf]: "db_wf d \<Longrightarrow> db_wf (fst (accountChangeLastName d u v))"
  unfolding accountChangeLastName_def by (simp add: update_account_wf)

lemma accountChangeEmail_wf [op_wf]: "db_wf d \<Longrightarrow> db_wf (fst (accountChangeEmail d u v))"
  unfolding accountChangeEmail_def by (simp add: update_account_wf)

lemma accountChangeExtraData_wf [op_wf]: "db_wf d \<Longrightarrow> db_wf (fst (accountChangeExtraData d u v))"
  unfolding accountChangeExtraData_def by (simp add: update_account_wf)

lemma accountChangeExpiration_wf [op_wf]: "db_wf d \<Longrightarrow> db_wf (fst (accountChangeExpiration d u v))"
  unfolding accountChangeExpiration_def by (simp add: update_account_wf)

lemma groupset_loop_wf: "db_wf d \<Longrightarrow> db_wf (fst (groupset_loop d u gs))"
  by (induction gs arbitrary: d) (simp_all add: db_and_wf groupAccountAdd_wf)

lemma accountChangeGroupSet_wf [op_wf]: "db_wf d \<Longrightarrow> db_wf (fst (accountChangeGroupSet d u gs))"
  unfolding accountChangeGroupSet_def
  by (intro db_and_wf groupset_loop_wf query_wf) (clarsimp simp: wf_defs table_simps)

lemma accountChangeAttribs_wf [op_wf]: "db_wf d \<Longrightarrow> db_wf (fst (accountChangeAttribs d u a))"
  unfolding accountChangeAttribs_def by (simp add: update_account_wf)

lemma groupAdd_wf [op_wf]: "db_wf d \<Longrightarrow> db_wf (fst (groupAdd d g v))"
  unfolding groupAdd_def by (rule query_wf) (clarsimp simp: wf_defs table_simps split: if_splits)

lemma groupRemove_wf [op_wf]: "db_wf d \<Longrightarrow> db_wf (fst (groupRemove d g))"
  unfolding groupRemove_def by (rule query_wf) (auto simp: delete_group_wf)

lemma groupAccountRemove_wf [op_wf]: "db_wf d \<Longrightarrow> db_wf (fst (groupAccountRemove d g u))"
  unfolding groupAccountRemove_def by (rule query_wf) (clarsimp simp: wf_defs table_simps split: if_splits)

lemma groupChangeDescription_wf [op_wf]: "db_wf d \<Longrightarrow> db_wf (fst (groupChangeDescription d g v))"
  unfolding groupChangeDescription_def by (rule query_wf) (clarsimp simp: wf_defs table_simps split: if_splits)

lemma applicationAdd_wf [op_wf]: "db_wf d \<Longrightarrow> db_wf (fst (applicationAdd dis seed d p v k u))"
  unfolding applicationAdd_def by (rule query_wf) (clarsimp simp: wf_defs table_simps split: if_splits)

lemma applicationRemove_wf [op_wf]: "db_wf d \<Longrightarrow> db_wf (fst (applicationRemove d p))"
  unfolding applicationRemove_def by (rule query_wf) (auto simp: delete_applications_wf)

lemma applicationChangeKey_wf [op_wf]: "db_wf d \<Longrightarrow> db_wf (fst (applicationChangeKey dis seed d p k))"
  unfolding applicationChangeKey_def by (simp add: update_application_wf)

lemma applicationChangeDescription_wf [op_wf]: "db_wf d \<Longrightarrow> db_wf (fst (applicationChangeDescription d p v))"
  unfolding applicationChangeDescription_def by (simp add: update_application_wf)

lemma applicationAccountAdd_wf [op_wf]: "db_wf d \<Longrightarrow> db_wf (fst (applicationAccountAdd d p u))"
  unfolding applicationAccountAdd_def by (rule query_wf) (clarsimp simp: wf_defs table_simps split: if_splits)

lemma applicationAccountRemove_wf [op_wf]: "db_wf d \<Longrightarrow> db_wf (fst (applicationAccountRemove d p u))"
  unfolding applicationAccountRemove_def by (rule query_wf) (clarsimp simp: wf_defs table_simps split: if_splits)

lemma applicationOwnerAdd_wf [op_wf]: "db_wf d \<Longrightarrow> db_wf (fst (applicationOwnerAdd d p u))"
  unfolding applicationOwnerAdd_def by (rule query_wf) (clarsimp simp: wf_defs table_simps split: if_splits)

lemma applicationOwnerRemove_wf [op_wf]: "db_wf d \<Longrightarrow> db_wf (fst (applicationOwnerRemove d p u))"
  unfolding applicationOwnerRemove_def by (rule query_wf) (clarsimp simp: wf_defs table_simps split: if_splits)

lemma attribAdd_wf [op_wf]: "db_wf d \<Longrightarrow> db_wf (fst (attribAdd d x v))"
  unfolding attribAdd_def by (rule query_wf) (clarsimp simp: wf_defs table_simps split: if_splits)

lemma attribRemove_wf [op_wf]: "db_wf d \<Longrightarrow> db_wf (fst (attribRemove d x))"
  unfolding attribRemove_def by (rule query_wf) (auto simp: delete_attribs_wf)

lemma attribGroupAdd_wf [op_wf]: "db_wf d \<Longrightarrow> db_wf (fst (attribGroupAdd d x g))"
  unfolding attribGroupAdd_def by (rule query_wf) (clarsimp simp: wf_defs table_simps split: if_splits)

lemma attribGroupRemove_wf [op_wf]: "db_wf d \<Longrightarrow> db_wf (fst (attribGroupRemove d x g))"
  unfolding attribGroupRemove_def by (rule query_wf) (clarsimp simp: wf_defs table_simps split: if_splits)

lemma attribAccountAdd_wf [op_wf]: "db_wf d \<Longrightarrow> db_wf (fst (attribAccountAdd d x u))"
  unfolding attribAccountAdd_def by (rule query_wf) (clarsimp simp: wf_defs table_simps split: if_splits)

lemma attribAccountRemove_wf [op_wf]: "db_wf d \<Longrightarrow> db_wf (fst (attribAccountRemove d x u))"
  unfolding attribAccountRemove_def by (rule query_wf) (clarsimp simp: wf_defs table_simps split: if_splits)

lemma attribChangeDescription_wf [op_wf]: "db_wf d \<Longrightarrow> db_wf (fst (attribChangeDescription d x v))"
  unfolding attribChangeDescription_def by (rule query_wf) (clarsimp simp: wf_defs table_simps split: if_splits)

lemma initScheme_wf [op_wf]: "db_wf d \<Longrightarrow> db_wf (fst (initScheme d))"
  unfolding initScheme_def by (auto simp: wf_defs uniq_def refers_def)

lemma updateLastLogin_wf [op_wf]: "db_wf d \<Longrightarrow> db_wf (updateLastLogin now d u i c)"
  unfolding updateLastLogin_def
  by (rule query_wf) (use update_account_wf [of d "\<lambda>r. r\<lparr>ac_lastLogin := now\<rparr>" u] in \<open>auto simp: wf_defs table_simps split: if_splits\<close>)

lemma resetBadAttempts_wf [op_wf]: "db_wf d \<Longrightarrow> db_wf (resetBadAttempts d u i)"
  unfolding resetBadAttempts_def by (simp add: update_secret_wf)

lemma incrementBadAttempts_wf [op_wf]: "db_wf d \<Longrightarrow> db_wf (incrementBadAttempts d u i)"
  unfolding incrementBadAttempts_def by (simp add: update_secret_wf)

subsection \<open>Sequences of operations\<close>

text \<open>The operations that change the tables, and the connection that comes and goes.\<close>

datatype index_op =
  PassIndexAdd nat string bool
| PassIndexModify nat string bool
| PassIndexDelete nat

primrec index_exec :: "index_op \<Rightarrow> auth_db \<Rightarrow> auth_db" where
  "index_exec (PassIndexAdd i s b) d = fst (passIndexAdd d i s b)"
| "index_exec (PassIndexModify i s b) d = fst (passIndexModify d i s b)"
| "index_exec (PassIndexDelete i) d = fst (passIndexDelete d i)"

datatype account_op =
  AccountAdd int string string Secret sAccountDetails int sAccountAttribs string
| AccountRemove string
| AccountDisable string bool
| AccountConfirm string string
| AccountChangeSecret string Secret nat
| AccountChangeGroupSet string "string list"
| AccountChangeAttribs string sAccountAttribs
| UpdateLastLogin int string nat sClientDetails
| ResetBadAttempts string nat
| IncrementBadAttempts string nat

primrec account_exec :: "account_op \<Rightarrow> auth_db \<Rightarrow> auth_db" where
  "account_exec (AccountAdd now tok u s a e b c) d = fst (accountAdd now tok d u s a e b c)"
| "account_exec (AccountRemove u) d = fst (accountRemove d u)"
| "account_exec (AccountDisable u b) d = fst (accountDisable d u b)"
| "account_exec (AccountConfirm u t) d = fst (accountConfirm d u t)"
| "account_exec (AccountChangeSecret u s i) d = fst (accountChangeSecret d u s i)"
| "account_exec (AccountChangeGroupSet u gs) d = fst (accountChangeGroupSet d u gs)"
| "account_exec (AccountChangeAttribs u a) d = fst (accountChangeAttribs d u a)"
| "account_exec (UpdateLastLogin now u i c) d = updateLastLogin now d u i c"
| "account_exec (ResetBadAttempts u i) d = resetBadAttempts d u i"
| "account_exec (IncrementBadAttempts u i) d = incrementBadAttempts d u i"

datatype profile_op =
  AccountChangeDescription string string
| AccountChangeGivenName string string
| AccountChangeLastName string string
| AccountChangeEmail string string
| AccountChangeExtraData string string
| AccountChangeExpiration string int

primrec profile_exec :: "profile_op \<Rightarrow> auth_db \<Rightarrow> auth_db" where
  "profile_exec (AccountChangeDescription u v) d = fst (accountChangeDescription d u v)"
| "profile_exec (AccountChangeGivenName u v) d = fst (accountChangeGivenName d u v)"
| "profile_exec (AccountChangeLastName u v) d = fst (accountChangeLastName d u v)"
| "profile_exec (AccountChangeEmail u v) d = fst (accountChangeEmail d u v)"
| "profile_exec (AccountChangeExtraData u v) d = fst (accountChangeExtraData d u v)"
| "profile_exec (AccountChangeExpiration u v) d = fst (accountChangeExpiration d u v)"

datatype group_op =
  GroupAdd string string
| GroupRemove string
| GroupAccountAdd string string
| GroupAccountRemove string string
| GroupChangeDescription string string

primrec group_exec :: "group_op \<Rightarrow> auth_db \<Rightarrow> auth_db" where
  "group_exec (GroupAdd g v) d = fst (groupAdd d g v)"
| "group_exec (GroupRemove g) d = fst (groupRemove d g)"
| "group_exec (GroupAccountAdd g u) d = fst (groupAccountAdd d g u)"
| "group_exec (GroupAccountRemove g u) d = fst (groupAccountRemove d g u)"
| "group_exec (GroupChangeDescription g v) d = fst (groupChangeDescription d g v)"

datatype application_op =
  ApplicationAdd "nat \<Rightarrow> nat \<Rightarrow> byte" nat string string string string
| ApplicationRemove string
| ApplicationChangeKey "nat \<Rightarrow> nat \<Rightarrow> byte" nat string string
| ApplicationChangeDescription string string
| ApplicationAccountAdd string string
| ApplicationAccountRemove string string
| ApplicationOwnerAdd string string
| ApplicationOwnerRemove string string

primrec application_exec :: "application_op \<Rightarrow> auth_db \<Rightarrow> auth_db" where
  "application_exec (ApplicationAdd dis seed p v k u) d = fst (applicationAdd dis seed d p v k u)"
| "application_exec (ApplicationRemove p) d = fst (applicationRemove d p)"
| "application_exec (ApplicationChangeKey dis seed p k) d = fst (applicationChangeKey dis seed d p k)"
| "application_exec (ApplicationChangeDescription p v) d = fst (applicationChangeDescription d p v)"
| "application_exec (ApplicationAccountAdd p u) d = fst (applicationAccountAdd d p u)"
| "application_exec (ApplicationAccountRemove p u) d = fst (applicationAccountRemove d p u)"
| "application_exec (ApplicationOwnerAdd p u) d = fst (applicationOwnerAdd d p u)"
| "application_exec (ApplicationOwnerRemove p u) d = fst (applicationOwnerRemove d p u)"

datatype attrib_op =
  AttribAdd sApplicationAttrib string
| AttribRemove sApplicationAttrib
| AttribGroupAdd sApplicationAttrib string
| AttribGroupRemove sApplicationAttrib string
| AttribAccountAdd sApplicationAttrib string
| AttribAccountRemove sApplicationAttrib string
| AttribChangeDescription sApplicationAttrib string

primrec attrib_exec :: "attrib_op \<Rightarrow> auth_db \<Rightarrow> auth_db" where
  "attrib_exec (AttribAdd x v) d = fst (attribAdd d x v)"
| "attrib_exec (AttribRemove x) d = fst (attribRemove d x)"
| "attrib_exec (AttribGroupAdd x g) d = fst (attribGroupAdd d x g)"
| "attrib_exec (AttribGroupRemove x g) d = fst (attribGroupRemove d x g)"
| "attrib_exec (AttribAccountAdd x u) d = fst (attribAccountAdd d x u)"
| "attrib_exec (AttribAccountRemove x u) d = fst (attribAccountRemove d x u)"
| "attrib_exec (AttribChangeDescription x v) d = fst (attribChangeDescription d x v)"

datatype auth_op =
  InitScheme
| Connection bool
| IndexOp index_op
| AccountOp account_op
| ProfileOp profile_op
| GroupOp group_op
| ApplicationOp application_op
| AttribOp attrib_op

primrec auth_exec :: "auth_op \<Rightarrow> auth_db \<Rightarrow> auth_db" where
  "auth_exec InitScheme d = fst (initScheme d)"
| "auth_exec (Connection b) d = d\<lparr>db_up := b\<rparr>"
| "auth_exec (IndexOp op) d = index_exec op d"
| "auth_exec (AccountOp op) d = account_exec op d"
| "auth_exec (ProfileOp op) d = profile_exec op d"
| "auth_exec (GroupOp op) d = group_exec op d"
| "auth_exec (ApplicationOp op) d = application_exec op d"
| "auth_exec (AttribOp op) d = attrib_exec op d"

definition auth_run :: "auth_op list \<Rightarrow> auth_db \<Rightarrow> auth_db" where
  "auth_run ops d = foldl (\<lambda>d op. auth_exec op d) d ops"

text \<open>A predicate that every step of a machine keeps holds after every run.\<close>

locale kept_by_steps =
  fixes step :: "'op \<Rightarrow> 's \<Rightarrow> 's" and I :: "'s \<Rightarrow> bool"
  assumes step_keeps: "I s \<Longrightarrow> I (step op s)"
begin

lemma run_keeps: "I s \<Longrightarrow> I (foldl (\<lambda>s op. step op s) s ops)"
  by (induction ops arbitrary: s) (simp_all add: step_keeps)

end

lemma index_exec_wf [op_wf]: "db_wf d \<Longrightarrow> db_wf (index_exec op d)"
  by (cases op) (simp_all add: op_wf)

lemma account_exec_wf [op_wf]: "db_wf d \<Longrightarrow> db_wf (account_exec op d)"
  by (cases op) (simp_all add: op_wf)

lemma profile_exec_wf [op_wf]: "db_wf d \<Longrightarrow> db_wf (profile_exec op d)"
  by (cases op) (simp_all add: op_wf)

lemma group_exec_wf [op_wf]: "db_wf d \<Longrightarrow> db_wf (group_exec op d)"
  by (cases op) (simp_all add: op_wf)

lemma application_exec_wf [op_wf]: "db_wf d \<Longrightarrow> db_wf (application_exec op d)"
  by (cases op) (simp_all add: op_wf)

lemma attrib_exec_wf [op_wf]: "db_wf d \<Longrightarrow> db_wf (attrib_exec op d)"
  by (cases op) (simp_all add: op_wf)

interpretation wf_kept: kept_by_steps auth_exec db_wf
proof
  fix d op
  assume d: "db_wf d"
  then have "db_wf (d\<lparr>db_up := b\<rparr>)" for b by (simp add: wf_defs)
  with d show "db_wf (auth_exec op d)" by (cases op) (simp_all add: op_wf)
qed

text \<open>No tables yet.\<close>

definition auth_db_new :: "bool \<Rightarrow> auth_db" where
  "auth_db_new uint64 = \<lparr>db_up = True, db_created = False, db_uint64 = uint64, t_accounts = [], t_applications = [],
     t_attribs = [], t_applicationmanagers = [], t_applicationusers = [], t_secretsindexs = [], t_accountlogins = [],
     t_accountmanagers = [], t_accountactivationtokens = [], t_accountsecrets = [], t_groups = [],
     t_groupsaccounts = [], t_attribsgroups = [], t_attribsaccounts = []\<rparr>"

definition has_superuser :: "auth_db \<Rightarrow> bool" where
  "has_superuser d \<longleftrightarrow> (\<exists>r\<in>set (t_accounts d). ac_superuser r \<and> ac_enabled r)"

text \<open>What the operations do to the accounts.\<close>

definition superuser_kept :: "auth_db \<Rightarrow> bool" where
  "superuser_kept d \<longleftrightarrow> db_created d \<and> has_superuser d"

lemma query_superuser:
  "superuser_kept d \<Longrightarrow> (\<And>d'. superuser_kept d \<Longrightarrow> stmt d = Some d' \<Longrightarrow> superuser_kept d') \<Longrightarrow> superuser_kept (fst (db_query stmt d))"
  by (auto simp: db_query_def split: option.splits)

lemma delete_applications_accounts [simp]:
  "t_accounts (delete_attribs P d) = t_accounts d" "db_created (delete_attribs P d) = db_created d"
  "t_accounts (delete_applications Q d) = t_accounts d" "db_created (delete_applications Q d) = db_created d"
  "t_accounts (delete_index i d) = t_accounts d" "db_created (delete_index i d) = db_created d"
  "t_accounts (delete_group g d) = t_accounts d" "db_created (delete_group g d) = db_created d"
  by (simp_all add: delete_attribs_def delete_applications_def delete_index_def delete_group_def Let_def)

lemma another_iff:
  "isThereAnotherSuperUser d u \<longleftrightarrow>
     db_ready d \<and> (\<exists>r\<in>set (t_accounts d). ac_userName r \<noteq> u \<and> ac_superuser r \<and> ac_enabled r)"
  unfolding isThereAnotherSuperUser_def db_first_def not_None_eq find_Some_iff2 [symmetric]
  by (auto simp: find_None_iff simp flip: not_None_eq)

lemma update_account_superuser:
  assumes "superuser_kept d"
    "(\<forall>r. ac_superuser r \<longrightarrow> ac_enabled r \<longrightarrow> ac_superuser (f r) \<and> ac_enabled (f r)) \<or> isThereAnotherSuperUser d u"
  shows "superuser_kept (fst (update_account d u f))"
proof -
  obtain r where r: "r \<in> set (t_accounts d)" "ac_superuser r" "ac_enabled r"
    "(ac_superuser (f r) \<and> ac_enabled (f r)) \<or> ac_userName r \<noteq> u"
    using assms by (auto simp: superuser_kept_def has_superuser_def another_iff)
  then have "\<exists>r'\<in>set (sql_update (\<lambda>r. ac_userName r = u) f (t_accounts d)). ac_superuser r' \<and> ac_enabled r'"
    by (intro bexI [of _ "if ac_userName r = u then f r else r"]) (auto simp: sql_update_def)
  then show ?thesis using assms(1) by (auto simp: update_account_def db_query_def superuser_kept_def has_superuser_def)
qed

lemma delete_account_superuser:
  assumes "superuser_kept d" "isThereAnotherSuperUser d u"
  shows "superuser_kept (delete_account u d)"
proof -
  have "t_accounts (delete_account u d) = sql_delete (\<lambda>r. ac_userName r = u) (t_accounts d)"
    "db_created (delete_account u d) = db_created d"
    by (simp_all add: delete_account_def Let_def)
  then show ?thesis using assms by (auto simp: superuser_kept_def has_superuser_def another_iff sql_delete_def)
qed

lemma insert_secret_superuser: "superuser_kept d \<Longrightarrow> superuser_kept (fst (insert_secret u i s d))"
  unfolding insert_secret_def by (rule query_superuser) (auto simp: superuser_kept_def has_superuser_def split: if_splits)

lemma db_and_superuser:
  "superuser_kept (fst r) \<Longrightarrow> (\<And>d. superuser_kept d \<Longrightarrow> superuser_kept (fst (f d))) \<Longrightarrow> superuser_kept (fst (db_and r f))"
  by (simp add: db_and_def)

lemma groupset_loop_superuser: "superuser_kept d \<Longrightarrow> superuser_kept (fst (groupset_loop d u gs))"
proof (induction gs arbitrary: d)
  case (Cons g gs)
  have "superuser_kept (fst (groupAccountAdd d g u))"
    unfolding groupAccountAdd_def
    by (rule query_superuser [OF Cons.prems]) (auto simp: superuser_kept_def has_superuser_def split: if_splits)
  then show ?case by (simp add: db_and_superuser Cons.IH)
qed simp

definition same_accounts :: "auth_db \<Rightarrow> auth_db \<Rightarrow> bool" where
  "same_accounts d d' \<longleftrightarrow> t_accounts d' = t_accounts d \<and> db_created d' = db_created d"

lemma query_same: "(\<And>d'. stmt d = Some d' \<Longrightarrow> same_accounts d d') \<Longrightarrow> same_accounts d (fst (db_query stmt d))"
  by (auto simp: db_query_def same_accounts_def split: option.splits)

lemma op_same_accounts:
  "same_accounts d (fst (passIndexAdd d i s b))"
  "same_accounts d (fst (passIndexModify d i s b))"
  "same_accounts d (fst (passIndexDelete d i))"
  "same_accounts d (fst (groupAdd d g v))"
  "same_accounts d (fst (groupRemove d g))"
  "same_accounts d (fst (groupAccountAdd d g u))"
  "same_accounts d (fst (groupAccountRemove d g u))"
  "same_accounts d (fst (groupChangeDescription d g v))"
  "same_accounts d (fst (applicationAdd dis seed d p v k u))"
  "same_accounts d (fst (applicationRemove d p))"
  "same_accounts d (fst (applicationChangeKey dis seed d p k))"
  "same_accounts d (fst (applicationChangeDescription d p v))"
  "same_accounts d (fst (applicationAccountAdd d p u))"
  "same_accounts d (fst (applicationAccountRemove d p u))"
  "same_accounts d (fst (applicationOwnerAdd d p u))"
  "same_accounts d (fst (applicationOwnerRemove d p u))"
  "same_accounts d (fst (attribAdd d x v))"
  "same_accounts d (fst (attribRemove d x))"
  "same_accounts d (fst (attribGroupAdd d x g))"
  "same_accounts d (fst (attribGroupRemove d x g))"
  "same_accounts d (fst (attribAccountAdd d x u))"
  "same_accounts d (fst (attribAccountRemove d x u))"
  "same_accounts d (fst (attribChangeDescription d x v))"
  "same_accounts d (resetBadAttempts d u i)" "same_accounts d (incrementBadAttempts d u i)" "same_accounts d (d\<lparr>db_up := up\<rparr>)"
  unfolding passIndexAdd_def passIndexModify_def passIndexDelete_def groupAdd_def groupRemove_def groupAccountAdd_def groupAccountRemove_def groupChangeDescription_def applicationAdd_def applicationRemove_def applicationChangeKey_def applicationChangeDescription_def applicationAccountAdd_def applicationAccountRemove_def applicationOwnerAdd_def applicationOwnerRemove_def attribAdd_def attribRemove_def attribGroupAdd_def attribGroupRemove_def attribAccountAdd_def attribAccountRemove_def attribChangeDescription_def
    resetBadAttempts_def incrementBadAttempts_def update_secret_def update_application_def
  by (rule query_same; auto simp: same_accounts_def split: if_splits)+ (simp add: same_accounts_def)

lemma superuser_same: "same_accounts d d' \<Longrightarrow> superuser_kept d' = superuser_kept d"
  by (simp add: same_accounts_def superuser_kept_def has_superuser_def)

lemmas op_superuser = op_same_accounts [THEN superuser_same]

lemma account_exec_superuser:
  assumes d: "superuser_kept d"
  shows "superuser_kept (account_exec op d)"
proof (cases op)
  case (AccountAdd now tok u s a e b c)
  show ?thesis unfolding AccountAdd account_exec.simps accountAdd_def using d
    by (intro db_and_superuser insert_secret_superuser query_superuser)
       (auto simp: superuser_kept_def has_superuser_def sql_insert_def split: if_splits)
next
  case (AccountRemove u)
  with d show ?thesis by (auto simp: accountRemove_def intro: query_superuser delete_account_superuser)
next
  case (AccountDisable u b)
  with d show ?thesis by (auto simp: accountDisable_def intro: update_account_superuser)
next
  case (AccountConfirm u t)
  with d show ?thesis by (auto simp: accountConfirm_def intro: update_account_superuser split: option.split)
next
  case (AccountChangeSecret u s i)
  show ?thesis unfolding AccountChangeSecret account_exec.simps accountChangeSecret_def using d
    by (intro insert_secret_superuser query_superuser) (auto simp: superuser_kept_def has_superuser_def)
next
  case (AccountChangeGroupSet u gs)
  show ?thesis unfolding AccountChangeGroupSet account_exec.simps accountChangeGroupSet_def using d
    by (intro db_and_superuser groupset_loop_superuser query_superuser) (auto simp: superuser_kept_def has_superuser_def)
next
  case (AccountChangeAttribs u a)
  with d show ?thesis by (auto simp: accountChangeAttribs_def intro!: update_account_superuser)
next
  case (UpdateLastLogin now u i c)
  show ?thesis unfolding UpdateLastLogin account_exec.simps updateLastLogin_def using d
    by (intro query_superuser update_account_superuser) (auto simp: superuser_kept_def has_superuser_def split: if_splits)
qed (use d in \<open>simp_all add: op_superuser\<close>)

lemma profile_exec_superuser: "superuser_kept d \<Longrightarrow> superuser_kept (profile_exec op d)"
  by (cases op) (simp_all add: update_account_superuser accountChangeDescription_def accountChangeGivenName_def
      accountChangeLastName_def accountChangeEmail_def accountChangeExtraData_def accountChangeExpiration_def)

lemma index_exec_superuser: "superuser_kept d \<Longrightarrow> superuser_kept (index_exec op d)"
  by (cases op) (simp_all add: op_superuser)

lemma group_exec_superuser: "superuser_kept d \<Longrightarrow> superuser_kept (group_exec op d)"
  by (cases op) (simp_all add: op_superuser)

lemma application_exec_superuser: "superuser_kept d \<Longrightarrow> superuser_kept (application_exec op d)"
  by (cases op) (simp_all add: op_superuser)

lemma attrib_exec_superuser: "superuser_kept d \<Longrightarrow> superuser_kept (attrib_exec op d)"
  by (cases op) (simp_all add: op_superuser)

lemma initScheme_superuser: "superuser_kept d \<Longrightarrow> superuser_kept (fst (initScheme d))"
  by (auto simp: initScheme_def superuser_kept_def has_superuser_def db_ready_def)

lemmas exec_superuser = op_superuser account_exec_superuser profile_exec_superuser index_exec_superuser
  group_exec_superuser application_exec_superuser attrib_exec_superuser initScheme_superuser

interpretation superuser_kept: kept_by_steps auth_exec superuser_kept
proof
  fix d op
  assume "superuser_kept d"
  then show "superuser_kept (auth_exec op d)"
    by (cases op) (simp_all add: exec_superuser)
qed

subsection \<open>Reading back\<close>

lemma find_append_new: "(\<And>x. x \<in> set xs \<Longrightarrow> \<not> P x) \<Longrightarrow> find P (xs @ ys) = find P ys"
  by (induction xs) auto

lemma refersD: "refers fk t key ps \<Longrightarrow> k \<notin> key ` set ps \<Longrightarrow> r \<in> set t \<Longrightarrow> fk r \<noteq> k"
  by (auto simp: refers_def)

lemma salt_round_trip: "length s = 4 \<Longrightarrow> fromHex (toHex s) (ssalt Secret_new) 4 = s"
  using fromHex_4 [of s "ssalt Secret_new"] by (simp add: Secret_new_def)

lemma fresh_account:
  assumes "db_wf d" "\<not> has_account d u"
  shows "r \<in> set (t_accounts d) \<Longrightarrow> ac_userName r \<noteq> u" "p \<in> set (t_accountactivationtokens d) \<Longrightarrow> fst p \<noteq> u"
    "q \<in> set (t_accountsecrets d) \<Longrightarrow> as_userName q \<noteq> u"
  using assms by (auto simp: wf_defs has_account_def dest: refersD)

lemma run_wf: "db_wf (auth_run ops (auth_db_new uint64))"
proof -
  have "db_wf (auth_db_new uint64)" by (simp add: wf_defs auth_db_new_def uniq_def refers_def)
  then show ?thesis unfolding auth_run_def by (rule wf_kept.run_keeps)
qed

lemma not_in_fresh:
  assumes "db_wf d" "\<not> has_account d u"
  shows "u \<notin> ac_userName ` set (t_accounts d)" "u \<notin> fst ` set (t_accountactivationtokens d)"
    "(i, u) \<notin> (\<lambda>r. (as_secretIndex r, as_userName r)) ` set (t_accountsecrets d)"
  by (auto dest: fresh_account [OF assms])

lemma accountAdd_fresh:
  fixes now u details e a creator tok d
  assumes "db_wf d" "db_ready d" "\<not> has_account d u"
  defines "d2 \<equiv> d\<lparr>t_accounts := t_accounts d @ [account_row_new now u details e a creator],
     t_accountactivationtokens := t_accountactivationtokens d @ [(u, tok)]\<rparr>"
  shows "accountAdd now tok d u s details e a creator =
    (if has_index d 0 then (d2\<lparr>t_accountsecrets := t_accountsecrets d @ [secret_row_new u 0 s]\<rparr>, True) else (d2, False))"
proof -
  let ?d1 = "d\<lparr>t_accounts := t_accounts d @ [account_row_new now u details e a creator]\<rparr>"
  have d2: "d2 = ?d1\<lparr>t_accountactivationtokens := t_accountactivationtokens d @ [(u, tok)]\<rparr>" by (simp add: d2_def)
  note new = not_in_fresh [OF assms(1,3)]
  have ready: "db_ready ?d1" "db_ready d2" using assms(2) by (simp_all add: db_ready_def d2)
  have 1: "db_query (\<lambda>d. map_option (\<lambda>t. d\<lparr>t_accounts := t\<rparr>)
      (sql_insert ac_userName (account_row_new now u details e a creator) (t_accounts d))) d = (?d1, True)"
    using assms(2) new(1) by (simp add: db_query_def sql_insert_def)
  have 2: "db_query (\<lambda>d. if has_account d u then map_option (\<lambda>t. d\<lparr>t_accountactivationtokens := t\<rparr>)
      (sql_insert fst (u, tok) (t_accountactivationtokens d)) else None) ?d1 = (d2, True)"
    using ready(1) new(2) by (simp add: db_query_def sql_insert_def has_account_def d2)
  have 3: "insert_secret u 0 s d2 =
      (if has_index d 0 then (d2\<lparr>t_accountsecrets := t_accountsecrets d @ [secret_row_new u 0 s]\<rparr>, True) else (d2, False))"
    unfolding insert_secret_def using ready(2) new(3)
    by (simp add: db_query_def sql_insert_def has_account_def has_index_def d2)
  show ?thesis unfolding accountAdd_def 1 db_and_def fst_conv snd_conv if_True 2 by (rule 3)
qed

lemma secret_of_row_new: "length (ssalt s) = 4 \<Longrightarrow> secret_of_row (secret_row_new u i s) = s\<lparr>badAttempts := 0\<rparr>"
  by (simp add: secret_of_row_def secret_row_new_def salt_round_trip)

text \<open>C9: Whatever operations are run, and whenever the connection comes and goes, no key is stored twice
  and every reference points to a row that exists: deletions take everything that depends on them.\<close>

theorem tables_stay_well_formed: "db_wf (auth_run ops (auth_db_new uint64))"
  by (rule run_wf)

text \<open>C10: No sequence of operations removes, disables or demotes the last enabled superuser.\<close>

theorem superuser_remains:
  assumes "db_created d" "has_superuser d"
  shows "has_superuser (auth_run ops d)"
  using superuser_kept.run_keeps [of d ops] assms by (simp add: auth_run_def superuser_kept_def)

definition admin_db :: auth_db where
  "admin_db = auth_run [InitScheme, AccountOp (AccountAdd 5 ''tok'' ''admin'' (Secret_new\<lparr>hash := ''pw''\<rparr>)
     \<lparr>sGivenName = '''', sLastName = '''', sEmail = '''', sDescription = ''Superuser'', sExtraData = ''''\<rparr> 0
     \<lparr>attr_enabled = True, attr_confirmed = True, attr_superuser = True\<rparr> '''')] (auth_db_new False)"

lemmas run_simps = auth_run_def auth_db_new_def initScheme_def db_ready_def accountAdd_def db_query_def sql_insert_def
  db_and_def has_account_def has_index_def insert_secret_def

theorem superuser_remains_witness:
  "has_superuser (auth_run [AccountOp (AccountRemove ''admin''), AccountOp (AccountDisable ''admin'' True),
     AccountOp (AccountChangeAttribs ''admin'' \<lparr>attr_enabled = True, attr_confirmed = True, attr_superuser = False\<rparr>)] admin_db)"
  by (rule superuser_remains) (simp_all add: admin_db_def run_simps has_superuser_def account_row_new_def)

text \<open>A new account can be read back with its token and secret. The three inserts are not one
  transaction: when password index 0 was deleted the method fails, but the account exists without a
  secret and the name is taken. The creator stored is the extra data, not the creator's name.\<close>

theorem account_add_stores:
  assumes "db_wf d" "db_ready d" "\<not> has_account d u" "length (ssalt s) = 4"
    "accountAdd now tok d u s details e a creator = (d', ok)"
  shows "ok = has_index d 0 \<and> accountExist d' u \<and> accountConfirmationToken d' u = tok \<and>
    retrieveSecret d' u 0 = (if ok then (s\<lparr>badAttempts := 0\<rparr>, True, True) else (Secret_new, True, False)) \<and>
    \<not> snd (accountAdd now2 tok2 d' u s2 details2 e2 a2 creator2) \<and>
    map_option ac_creator (find_account d' u) = Some (if creator = [] then None else Some (sExtraData details))"
proof -
  have new: "find (\<lambda>r. ac_userName r = u) (t_accounts d @ ys) = find (\<lambda>r. ac_userName r = u) ys"
    "find (\<lambda>(v, t). v = u) (t_accountactivationtokens d @ zs) = find (\<lambda>(v, t). v = u) zs"
    "find (\<lambda>r. as_userName r = u \<and> as_secretIndex r = 0) (t_accountsecrets d @ ss) =
      find (\<lambda>r. as_userName r = u \<and> as_secretIndex r = 0) ss" for ys zs ss
    by (auto intro!: find_append_new dest: fresh_account [OF assms(1,3)])
  have no: "find (\<lambda>r. as_userName r = u \<and> as_secretIndex r = 0) (t_accountsecrets d) = None"
    using new(3) [of "[]"] by simp
  note added = accountAdd_fresh [OF assms(1-3), of now tok s details e a creator, unfolded assms(5)]
  have "u \<in> ac_userName ` set (t_accounts d')" using added by (auto split: if_splits)
  then have taken: "\<not> snd (accountAdd now2 tok2 d' u s2 details2 e2 a2 creator2)"
    by (simp add: accountAdd_def db_and_def db_query_def sql_insert_def)
  have "db_ready d'" using added assms(2) by (simp add: db_ready_def split: if_splits)
  with added have "ok = has_index d 0 \<and> accountExist d' u \<and> accountConfirmationToken d' u = tok \<and>
      retrieveSecret d' u 0 = (if ok then (s\<lparr>badAttempts := 0\<rparr>, True, True) else (Secret_new, True, False)) \<and>
      map_option ac_creator (find_account d' u) = Some (if creator = [] then None else Some (sExtraData details))"
    by (cases "has_index d 0") (simp_all add: accountExist_def find_account_def db_first_def
        accountConfirmationToken_def retrieveSecret_def new no secret_of_row_new assms(4))
  then show ?thesis using taken by blast
qed

theorem account_add_stores_witness:
  "\<exists>d'. accountAdd 1 ''t'' (auth_run [InitScheme, IndexOp (PassIndexDelete 0)] (auth_db_new False)) ''bob'' Secret_new
      \<lparr>sGivenName = '''', sLastName = '''', sEmail = '''', sDescription = '''', sExtraData = ''extra''\<rparr> 0
      \<lparr>attr_enabled = True, attr_confirmed = True, attr_superuser = False\<rparr> ''admin'' = (d', False) \<and>
    accountExist d' ''bob'' \<and> map_option ac_creator (find_account d' ''bob'') = Some (Some ''extra'')"
proof -
  let ?d = "auth_run [InitScheme, IndexOp (PassIndexDelete 0)] (auth_db_new False)"
  have d: "db_ready ?d" "\<not> has_account ?d ''bob''" "\<not> has_index ?d 0"
    by (simp_all add: run_simps passIndexDelete_def delete_index_def sql_delete_def)
  show ?thesis
    using account_add_stores [OF run_wf d(1,2), of Secret_new 1 "''t''"
        "\<lparr>sGivenName = '''', sLastName = '''', sEmail = '''', sDescription = '''', sExtraData = ''extra''\<rparr>" 0
        "\<lparr>attr_enabled = True, attr_confirmed = True, attr_superuser = False\<rparr>" "''admin''"] d(3)
    by (cases "accountAdd 1 ''t'' ?d ''bob'' Secret_new
      \<lparr>sGivenName = '''', sLastName = '''', sEmail = '''', sDescription = '''', sExtraData = ''extra''\<rparr> 0
      \<lparr>attr_enabled = True, attr_confirmed = True, attr_superuser = False\<rparr> ''admin''") (auto simp: Secret_new_def)
qed

end
