(* ===== verification/Auth_Manager.thy ===== *)
theory Auth_Manager
  imports Auth_DB_Facts Auth_Session
begin

text \<open>
  \<^verbatim>\<open>Auth/mdz_auth/manager.cpp\<close>: what the abstract manager computes from the virtual functions of a
  back end, which are a record of functions on a state of type \<^verbatim>\<open>'db\<close>; \<^verbatim>\<open>Manager_DB\<close> is one such record.
\<close>

subsection \<open>Definitions\<close>

record 'db manager_virtuals =
  mv_accountAdd :: "int \<Rightarrow> string \<Rightarrow> 'db \<Rightarrow> string \<Rightarrow> Secret \<Rightarrow> sAccountDetails \<Rightarrow> int \<Rightarrow> sAccountAttribs \<Rightarrow> string \<Rightarrow> 'db \<times> bool"
  mv_applicationValidateAccount :: "'db \<Rightarrow> string \<Rightarrow> string \<Rightarrow> bool"
  mv_retrieveSecret :: "'db \<Rightarrow> string \<Rightarrow> nat \<Rightarrow> Secret \<times> bool \<times> bool"
  mv_accountLastLogin :: "'db \<Rightarrow> string \<Rightarrow> int"
  mv_isAccountConfirmed :: "'db \<Rightarrow> string \<Rightarrow> bool"
  mv_isAccountDisabled :: "'db \<Rightarrow> string \<Rightarrow> bool"
  mv_isAccountSuperUser :: "'db \<Rightarrow> string \<Rightarrow> bool"
  mv_accountExpirationDate :: "'db \<Rightarrow> string \<Rightarrow> int"
  mv_passIndexesRequiredForLogin :: "'db \<Rightarrow> nat set"
  mv_passIndexesUsedByAccount :: "'db \<Rightarrow> string \<Rightarrow> nat set"
  mv_passIndexDescription :: "'db \<Rightarrow> nat \<Rightarrow> string"
  mv_accountDisable :: "'db \<Rightarrow> string \<Rightarrow> bool \<Rightarrow> 'db \<times> bool"
  mv_accountChangeSecret :: "'db \<Rightarrow> string \<Rightarrow> Secret \<Rightarrow> nat \<Rightarrow> 'db \<times> bool"
  mv_incrementBadAttempts :: "'db \<Rightarrow> string \<Rightarrow> nat \<Rightarrow> 'db"
  mv_resetBadAttempts :: "'db \<Rightarrow> string \<Rightarrow> nat \<Rightarrow> 'db"
  mv_updateLastLogin :: "int \<Rightarrow> 'db \<Rightarrow> string \<Rightarrow> nat \<Rightarrow> sClientDetails \<Rightarrow> 'db"
  mv_accountsList :: "'db \<Rightarrow> string set"
  mv_accountDirectAttribs :: "'db \<Rightarrow> string \<Rightarrow> sApplicationAttrib set"
  mv_accountGroups :: "'db \<Rightarrow> string \<Rightarrow> string set"
  mv_groupAttribs :: "'db \<Rightarrow> string \<Rightarrow> sApplicationAttrib set"
  mv_accountValidateDirectAttribute :: "'db \<Rightarrow> string \<Rightarrow> sApplicationAttrib \<Rightarrow> bool"
  mv_groupValidateAttribute :: "'db \<Rightarrow> string \<Rightarrow> sApplicationAttrib \<Rightarrow> bool"

definition manager_db_virtuals :: "auth_db manager_virtuals" where
  "manager_db_virtuals = \<lparr>mv_accountAdd = accountAdd, mv_applicationValidateAccount = applicationValidateAccount,
     mv_retrieveSecret = retrieveSecret, mv_accountLastLogin = accountLastLogin,
     mv_isAccountConfirmed = isAccountConfirmed, mv_isAccountDisabled = isAccountDisabled,
     mv_isAccountSuperUser = isAccountSuperUser, mv_accountExpirationDate = accountExpirationDate,
     mv_passIndexesRequiredForLogin = passIndexesRequiredForLogin, mv_passIndexesUsedByAccount = passIndexesUsedByAccount,
     mv_passIndexDescription = passIndexDescription, mv_accountDisable = accountDisable,
     mv_accountChangeSecret = accountChangeSecret, mv_incrementBadAttempts = incrementBadAttempts,
     mv_resetBadAttempts = resetBadAttempts, mv_updateLastLogin = updateLastLogin, mv_accountsList = accountsList,
     mv_accountDirectAttribs = accountDirectAttribs, mv_accountGroups = accountGroups, mv_groupAttribs = groupAttribs,
     mv_accountValidateDirectAttribute = accountValidateDirectAttribute, mv_groupValidateAttribute = groupValidateAttribute\<rparr>"

record 'db manager =
  bAuthPolicyMaxTries :: nat
  bAuthPolicyAbandonedAccountExpirationSeconds :: nat
  manager_db :: 'db

definition Manager_new :: "'db \<Rightarrow> 'db manager" where
  "Manager_new d = \<lparr>bAuthPolicyMaxTries = 4, bAuthPolicyAbandonedAccountExpirationSeconds = 180 * 24 * 3600, manager_db = d\<rparr>"

definition setBAuthPolicyMaxTries :: "'db manager \<Rightarrow> nat \<Rightarrow> 'db manager" where
  "setBAuthPolicyMaxTries m value = m\<lparr>bAuthPolicyMaxTries := value\<rparr>"

definition initAccounts :: "'db manager_virtuals \<Rightarrow> int \<Rightarrow> string \<Rightarrow> string \<Rightarrow> 'db manager \<Rightarrow> 'db manager \<times> bool" where
  "initAccounts V now token randomHash m =
     (let (d, ok) = mv_accountAdd V now token (manager_db m) ''admin'' (Secret_new\<lparr>forceExpiration := True, hash := randomHash\<rparr>)
        \<lparr>sGivenName = '''', sLastName = '''', sEmail = '''', sDescription = ''Autogenerated Superuser Account'', sExtraData = ''''\<rparr>
        0 \<lparr>attr_enabled = True, attr_confirmed = True, attr_superuser = True\<rparr> ''''
      in (m\<lparr>manager_db := d\<rparr>, ok))"

definition isAccountExpired :: "'db manager_virtuals \<Rightarrow> int \<Rightarrow> 'db \<Rightarrow> string \<Rightarrow> bool" where
  "isAccountExpired V now d sAccountName =
     (let t = mv_accountExpirationDate V d sAccountName in if t = 0 then False else t < now)"

text \<open>The loop inserts in the order of the set of indexes.\<close>

definition accountPassIndexesUsedForLogin :: "'db manager_virtuals \<Rightarrow> 'db \<Rightarrow> string \<Rightarrow> (nat, string) std_map" where
  "accountPassIndexesUsedForLogin V d sAccountName =
     (if mv_passIndexesRequiredForLogin V d = {} then [(0xFFFFFFFF, '''')]
      else map (\<lambda>i. (i, mv_passIndexDescription V d i))
        (filter (\<lambda>i. i \<in> mv_passIndexesRequiredForLogin V d) (sorted_list_of_set (mv_passIndexesUsedByAccount V d sAccountName))))"

text \<open>\<^verbatim>\<open>authenticate\<close> reads under the shared lock and releases it before it writes, so it is two steps:
  \<^verbatim>\<open>Return\<close> is an early return of the first, \<^verbatim>\<open>Decide\<close> carries \<^verbatim>\<open>ret\<close>, \<^verbatim>\<open>pStoredSecretData\<close> and
  \<^verbatim>\<open>_bAuthPolicyMaxTries\<close> to the second. \<^verbatim>\<open>want\<close>: the caller gave a pointer for the indexes.\<close>

datatype auth_check =
  Return Reason "(nat, string) std_map option"
| Decide Reason Secret nat "(nat, string) std_map option"

definition authenticate_check :: "crypto_ops \<Rightarrow> 'db manager_virtuals \<Rightarrow> int \<Rightarrow> 'db manager \<Rightarrow> string \<Rightarrow> string \<Rightarrow> string \<Rightarrow> nat \<Rightarrow>
  Mode \<Rightarrow> string \<Rightarrow> bool \<Rightarrow> auth_check" where
  "authenticate_check C V now m app sAccountName incomingPassword passIndex authMode challengeSalt want =
     (let d = manager_db m in
      if \<not> mv_applicationValidateAccount V d app sAccountName then Return REASON_BAD_ACCOUNT None
      else let (stored, accountFound, indexFound) = mv_retrieveSecret V d sAccountName passIndex;
               decide = (\<lambda>ret st. Decide ret stored (bAuthPolicyMaxTries m) st)
        in if \<not> accountFound then decide REASON_BAD_ACCOUNT None
           else if \<not> indexFound then decide REASON_PASSWORD_INDEX_NOTFOUND None
           else if \<not> mv_isAccountConfirmed V d sAccountName then Return REASON_UNCONFIRMED_ACCOUNT None
           else if mv_isAccountDisabled V d sAccountName then Return REASON_DISABLED_ACCOUNT None
           else if isAccountExpired V now d sAccountName then Return REASON_EXPIRED_ACCOUNT None
           else if mv_accountLastLogin V d sAccountName + int (bAuthPolicyAbandonedAccountExpirationSeconds m) < now
             then Return REASON_EXPIRED_ACCOUNT None
           else let ret = validateStoredSecret C now stored incomingPassword challengeSalt authMode in
             if IS_PASSWORD_AUTHENTICATED ret \<and> want \<and> passIndex = 0
             then let st = accountPassIndexesUsedForLogin V d sAccountName in
               if 0xFFFFFFFF \<in> fst ` set st then Return REASON_INTERNAL_ERROR (Some st) else decide ret (Some st)
             else decide ret None)"

definition authenticate_commit :: "'db manager_virtuals \<Rightarrow> int \<Rightarrow> 'db \<Rightarrow> string \<Rightarrow> nat \<Rightarrow> sClientDetails \<Rightarrow> Reason \<Rightarrow> Secret \<Rightarrow> nat \<Rightarrow> 'db" where
  "authenticate_commit V now d sAccountName passIndex clientDetails ret stored maxTries =
     (if \<not> IS_PASSWORD_AUTHENTICATED ret
      then if (badAttempts stored + 1) mod 2 ^ 32 \<ge> maxTries
        then fst (mv_accountDisable V d sAccountName True)
        else mv_incrementBadAttempts V d sAccountName passIndex
      else mv_resetBadAttempts V (mv_updateLastLogin V now d sAccountName passIndex clientDetails) sAccountName passIndex)"

definition authenticate :: "crypto_ops \<Rightarrow> 'db manager_virtuals \<Rightarrow> int \<Rightarrow> 'db manager \<Rightarrow> string \<Rightarrow> sClientDetails \<Rightarrow> string \<Rightarrow>
  string \<Rightarrow> nat \<Rightarrow> Mode \<Rightarrow> string \<Rightarrow> bool \<Rightarrow> 'db manager \<times> Reason \<times> (nat, string) std_map option" where
  "authenticate C V now m app clientDetails sAccountName incomingPassword passIndex authMode challengeSalt want =
     (case authenticate_check C V now m app sAccountName incomingPassword passIndex authMode challengeSalt want of
        Return r st \<Rightarrow> (m, r, st)
      | Decide ret stored maxTries st \<Rightarrow>
          (m\<lparr>manager_db := authenticate_commit V now (manager_db m) sAccountName passIndex clientDetails ret stored maxTries\<rparr>, ret, st))"

definition accountSecretPublicData :: "'db manager_virtuals \<Rightarrow> 'db manager \<Rightarrow> string \<Rightarrow> nat \<Rightarrow> Secret_PublicData" where
  "accountSecretPublicData V m sAccountName passIndex =
     (let d = manager_db m; (pd, bAccountFound, bIndexFound) = mv_retrieveSecret V d sAccountName passIndex in
      if bAccountFound \<and> bIndexFound
      then let pdb = (getBasicData pd)\<lparr>pd_description := mv_passIndexDescription V d passIndex\<rparr>;
               pdb1 = (if passIndex \<in> mv_passIndexesRequiredForLogin V d then pdb\<lparr>pd_requiredAtLogin := True\<rparr> else pdb)
           in if (pd_badAttempts pdb1 + 1) mod 2 ^ 32 \<ge> bAuthPolicyMaxTries m then pdb1\<lparr>pd_locked := True\<rparr> else pdb1
      else Secret_PublicData_new)"

definition getAccountAllSecretsPublicData :: "'db manager_virtuals \<Rightarrow> 'db manager \<Rightarrow> string \<Rightarrow> (nat, Secret_PublicData) std_map" where
  "getAccountAllSecretsPublicData V m sAccountName =
     map (\<lambda>i. (i, accountSecretPublicData V m sAccountName i))
       (sorted_list_of_set (mv_passIndexesRequiredForLogin V (manager_db m) \<union> mv_passIndexesUsedByAccount V (manager_db m) sAccountName))"

definition accountChangeAuthenticatedSecret :: "crypto_ops \<Rightarrow> 'db manager_virtuals \<Rightarrow> int \<Rightarrow> 'db manager \<Rightarrow> string \<Rightarrow> string \<Rightarrow> nat \<Rightarrow>
  string \<Rightarrow> Secret \<Rightarrow> sClientDetails \<Rightarrow> Mode \<Rightarrow> string \<Rightarrow> 'db manager \<times> bool" where
  "accountChangeAuthenticatedSecret C V now m app sAccountName passIndex sCurrentPassword passwordData clientInfo authMode challengeSalt =
     (let (m1, i1, _) = authenticate C V now m app clientInfo sAccountName sCurrentPassword passIndex authMode challengeSalt False;
          (m2, i) = (if i1 = REASON_PASSWORD_INDEX_NOTFOUND
            then let (m', i', _) = authenticate C V now m1 app clientInfo sAccountName sCurrentPassword 0 authMode challengeSalt False in (m', i')
            else (m1, i1))
      in if IS_PASSWORD_AUTHENTICATED i
         then let (d, ok) = mv_accountChangeSecret V (manager_db m2) sAccountName passwordData passIndex in (m2\<lparr>manager_db := d\<rparr>, ok)
         else (m2, False))"

definition accountUsableAttribs :: "'db manager_virtuals \<Rightarrow> 'db \<Rightarrow> string \<Rightarrow> sApplicationAttrib set" where
  "accountUsableAttribs V d sAccountName =
     mv_accountDirectAttribs V d sAccountName \<union> (\<Union>g\<in>mv_accountGroups V d sAccountName. mv_groupAttribs V d g)"

definition superUserAccountExist_base :: "'db manager_virtuals \<Rightarrow> 'db \<Rightarrow> bool" where
  "superUserAccountExist_base V d \<longleftrightarrow> (\<exists>a\<in>mv_accountsList V d. mv_isAccountSuperUser V d a)"

definition accountValidateAttribute :: "'db manager_virtuals \<Rightarrow> 'db \<Rightarrow> string \<Rightarrow> sApplicationAttrib \<Rightarrow> bool" where
  "accountValidateAttribute V d sAccountName attrib =
     (if mv_accountValidateDirectAttribute V d sAccountName attrib then True
      else \<exists>g\<in>mv_accountGroups V d sAccountName. mv_groupValidateAttribute V d g attrib)"

end
