(* ===== verification/Auth_Manager_Facts.thy ===== *)
theory Auth_Manager_Facts
  imports Auth_Manager
begin

text \<open>
  What the manager guarantees: how many wrong passwords an account can be tried with, when a password
  can be changed, and that the two ways to check an attribute agree. The manager's side is proved
  from the laws of a back end in a locale; \<^verbatim>\<open>Manager_DB\<close> is shown to obey them.
\<close>

subsection \<open>Attempts\<close>

text \<open>What the manager reads of an account: confirmed, disabled, last login, expiration, applications.\<close>

definition account_view :: "'db manager_virtuals \<Rightarrow> 'db \<Rightarrow> string \<Rightarrow> bool \<times> bool \<times> int \<times> int \<times> (string \<Rightarrow> bool)" where
  "account_view V d u = (mv_isAccountConfirmed V d u, mv_isAccountDisabled V d u, mv_accountLastLogin V d u,
     mv_accountExpirationDate V d u, \<lambda>app. mv_applicationValidateAccount V d app u)"

definition admits :: "'db manager_virtuals \<Rightarrow> int \<Rightarrow> 'db manager \<Rightarrow> string \<Rightarrow> string \<Rightarrow> bool" where
  "admits V now m app u \<longleftrightarrow>
     (case account_view V (manager_db m) u of (confirmed, disabled, lastLogin, expDate, apps) \<Rightarrow>
        apps app \<and> confirmed \<and> \<not> disabled \<and> (expDate = 0 \<or> now \<le> expDate) \<and>
        now \<le> lastLogin + int (bAuthPolicyAbandonedAccountExpirationSeconds m))"

text \<open>Attempts of a client one after the other, each with its time.\<close>

fun attempts :: "crypto_ops \<Rightarrow> 'db manager_virtuals \<Rightarrow> string \<Rightarrow> sClientDetails \<Rightarrow> string \<Rightarrow> nat \<Rightarrow> Mode \<Rightarrow> string \<Rightarrow>
  (int \<times> string) list \<Rightarrow> 'db manager \<Rightarrow> 'db manager \<times> Reason list" where
  "attempts C V app c u i mode ch [] m = (m, [])"
| "attempts C V app c u i mode ch ((now, pw) # as) m =
     (let (m1, r, _) = authenticate C V now m app c u pw i mode ch False;
          (m2, rs) = attempts C V app c u i mode ch as m1 in (m2, r # rs))"

text \<open>Attempts that all read before any of them writes.\<close>

definition concurrent_attempts :: "crypto_ops \<Rightarrow> 'db manager_virtuals \<Rightarrow> string \<Rightarrow> sClientDetails \<Rightarrow> string \<Rightarrow> nat \<Rightarrow> Mode \<Rightarrow> string \<Rightarrow>
  (int \<times> string) list \<Rightarrow> 'db manager \<Rightarrow> 'db \<times> auth_check list" where
  "concurrent_attempts C V app c u i mode ch as m =
     (let cs = map (\<lambda>(now, pw). authenticate_check C V now m app u pw i mode ch False) as
      in (foldl (\<lambda>d (now, chk). case chk of Return r st \<Rightarrow> d
            | Decide r s maxTries st \<Rightarrow> authenticate_commit V now d u i c r s maxTries) (manager_db m) (zip (map fst as) cs), cs))"

lemma toCompare_badAttempts [simp]: "toCompare C (s\<lparr>badAttempts := b\<rparr>) pw = toCompare C s pw"
  by (simp add: toCompare_def cong: Function.case_cong)

lemma validate_badAttempts [simp]:
  "validateStoredSecret C now (s\<lparr>badAttempts := b\<rparr>) pw ch mode = validateStoredSecret C now s pw ch mode"
  by (simp add: validateStoredSecret_def Secret_isExpired_def cong: Mode.case_cong)

lemma check_admitted:
  assumes "admits V now m app u" "mv_retrieveSecret V (manager_db m) u i = (s, True, True)"
    "validateStoredSecret C now s pw ch mode = r" "\<not> IS_PASSWORD_AUTHENTICATED r \<or> \<not> want \<or> i \<noteq> 0"
  shows "authenticate_check C V now m app u pw i mode ch want = Decide r s (bAuthPolicyMaxTries m) None"
  using assms by (auto simp: authenticate_check_def admits_def account_view_def isAccountExpired_def Let_def)

lemma check_disabled:
  assumes "account_view V (manager_db m) u = (True, True, l, e, apps)" "apps app"
    "mv_retrieveSecret V (manager_db m) u i = (s, True, True)"
  shows "authenticate C V now m app c u pw i mode ch want = (m, REASON_DISABLED_ACCOUNT, None)"
  using assms by (auto simp: authenticate_def authenticate_check_def account_view_def)

subsection \<open>The laws of a back end\<close>

locale account_store =
  fixes V :: "'db manager_virtuals" and live :: "'db \<Rightarrow> bool" and other_superuser :: "'db \<Rightarrow> string \<Rightarrow> bool"
  assumes inc_secret: "live d \<Longrightarrow> mv_retrieveSecret V d u i = (s, True, True) \<Longrightarrow>
      mv_retrieveSecret V (mv_incrementBadAttempts V d u i) u i =
        (s\<lparr>badAttempts := (badAttempts s + 1) mod 2 ^ 32\<rparr>, True, True)"
    and inc_view: "live d \<Longrightarrow> account_view V (mv_incrementBadAttempts V d u i) u = account_view V d u"
    and inc_live: "live d \<Longrightarrow> live (mv_incrementBadAttempts V d u i)"
    and inc_other: "live d \<Longrightarrow> other_superuser (mv_incrementBadAttempts V d u i) u = other_superuser d u"
    and disable_last: "live d \<Longrightarrow> \<not> other_superuser d u \<Longrightarrow> fst (mv_accountDisable V d u True) = d"
    and disable_view: "live d \<Longrightarrow> other_superuser d u \<Longrightarrow> account_view V d u = (c, x, l, e, a) \<Longrightarrow>
      account_view V (fst (mv_accountDisable V d u True)) u = (c, True, l, e, a)"
    and disable_secret: "live d \<Longrightarrow> other_superuser d u \<Longrightarrow>
      mv_retrieveSecret V (fst (mv_accountDisable V d u True)) u i = mv_retrieveSecret V d u i"
begin

lemma wrong_attempt:
  assumes "live (manager_db m)" "admits V now m app u" "mv_retrieveSecret V (manager_db m) u i = (s, True, True)"
    "validateStoredSecret C now s pw ch mode = REASON_BAD_PASSWORD"
  shows "authenticate C V now m app c u pw i mode ch False =
    (m\<lparr>manager_db := if bAuthPolicyMaxTries m \<le> (badAttempts s + 1) mod 2 ^ 32
        then fst (mv_accountDisable V (manager_db m) u True)
        else mv_incrementBadAttempts V (manager_db m) u i\<rparr>, REASON_BAD_PASSWORD, None)"
  using check_admitted [OF assms(2-4)] by (simp add: authenticate_def authenticate_commit_def)

lemma attempts_disabled:
  assumes "account_view V (manager_db m) u = (True, True, l, e, apps)" "apps app"
    "mv_retrieveSecret V (manager_db m) u i = (s, True, True)"
  shows "attempts C V app c u i mode ch as m = (m, replicate (length as) REASON_DISABLED_ACCOUNT)"
  by (induction as) (auto simp: check_disabled [OF assms])

lemma lockout:
  assumes "live (manager_db m)" "other_superuser (manager_db m) u"
    "mv_retrieveSecret V (manager_db m) u i = (s, True, True)"
    "badAttempts s < bAuthPolicyMaxTries m" "bAuthPolicyMaxTries m < 2 ^ 32"
    "\<forall>(now, pw)\<in>set (take (bAuthPolicyMaxTries m - badAttempts s) as).
      admits V now m app u \<and> validateStoredSecret C now s pw ch mode = REASON_BAD_PASSWORD"
  shows "snd (attempts C V app c u i mode ch as m) =
    (let k = bAuthPolicyMaxTries m - badAttempts s
     in replicate (min (length as) k) REASON_BAD_PASSWORD @ replicate (length as - k) REASON_DISABLED_ACCOUNT)"
  using assms
proof (induction as arbitrary: m s)
  case (Cons a as)
  obtain now pw where a: "a = (now, pw)" by (cases a)
  let ?k = "bAuthPolicyMaxTries m - badAttempts s" and ?d = "manager_db m"
  have b: "(badAttempts s + 1) mod 2 ^ 32 = badAttempts s + 1" using Cons.prems(4,5) by simp
  have k: "?k = Suc (bAuthPolicyMaxTries m - (badAttempts s + 1))" using Cons.prems(4) by simp
  have adm: "admits V now m app u" "validateStoredSecret C now s pw ch mode = REASON_BAD_PASSWORD"
    using Cons.prems(6) a unfolding k by auto
  note step = wrong_attempt [OF Cons.prems(1) adm(1) Cons.prems(3) adm(2), of c, unfolded b]
  show ?case
  proof (cases "bAuthPolicyMaxTries m \<le> badAttempts s + 1")
    case True
    obtain l e apps where v: "account_view V ?d u = (True, False, l, e, apps)" "apps app"
      using adm(1) by (auto simp: admits_def split: prod.splits)
    let ?m = "m\<lparr>manager_db := fst (mv_accountDisable V ?d u True)\<rparr>"
    have "account_view V (manager_db ?m) u = (True, True, l, e, apps)" using disable_view [OF Cons.prems(1,2) v(1)] by simp
    moreover have "mv_retrieveSecret V (manager_db ?m) u i = (s, True, True)"
      using disable_secret [OF Cons.prems(1,2)] Cons.prems(3) by simp
    ultimately have "attempts C V app c u i mode ch as ?m = (?m, replicate (length as) REASON_DISABLED_ACCOUNT)"
      using v(2) by (intro attempts_disabled [where l = l and e = e and apps = apps]) auto
    moreover have "?k = 1" using True Cons.prems(4) by simp
    ultimately show ?thesis using step True a by simp
  next
    case False
    let ?m = "m\<lparr>manager_db := mv_incrementBadAttempts V ?d u i\<rparr>" and ?s = "s\<lparr>badAttempts := badAttempts s + 1\<rparr>"
    have "snd (attempts C V app c u i mode ch as ?m) =
      (let k = bAuthPolicyMaxTries ?m - badAttempts ?s
       in replicate (min (length as) k) REASON_BAD_PASSWORD @ replicate (length as - k) REASON_DISABLED_ACCOUNT)"
    proof (rule Cons.IH)
      show "mv_retrieveSecret V (manager_db ?m) u i = (?s, True, True)"
        using inc_secret [OF Cons.prems(1,3)] b by simp
      show "\<forall>(now, pw)\<in>set (take (bAuthPolicyMaxTries ?m - badAttempts ?s) as).
          admits V now ?m app u \<and> validateStoredSecret C now ?s pw ch mode = REASON_BAD_PASSWORD"
        using Cons.prems(6) unfolding k by (auto simp: admits_def inc_view [OF Cons.prems(1)])
    qed (use Cons.prems False in \<open>simp_all add: inc_live inc_other\<close>)
    then show ?thesis using step False a k by (simp add: Let_def case_prod_unfold)
  qed
qed simp

lemma last_superuser_not_locked:
  assumes "live (manager_db m)" "\<not> other_superuser (manager_db m) u"
    "mv_retrieveSecret V (manager_db m) u i = (s, True, True)"
    "bAuthPolicyMaxTries m \<le> badAttempts s + 1" "badAttempts s + 1 < 2 ^ 32"
    "\<forall>(now, pw)\<in>set as. admits V now m app u \<and> validateStoredSecret C now s pw ch mode = REASON_BAD_PASSWORD"
  shows "attempts C V app c u i mode ch as m = (m, replicate (length as) REASON_BAD_PASSWORD)"
  using assms(6)
proof (induction as)
  case (Cons a as)
  obtain now pw where a: "a = (now, pw)" by (cases a)
  have adm: "admits V now m app u" "validateStoredSecret C now s pw ch mode = REASON_BAD_PASSWORD"
    using Cons.prems a by auto
  have "authenticate C V now m app c u pw i mode ch False = (m, REASON_BAD_PASSWORD, None)"
    using wrong_attempt [OF assms(1) adm(1) assms(3) adm(2), of c] assms(4,5) disable_last [OF assms(1,2)] by simp
  then show ?case using Cons a by simp
qed simp

lemma concurrent:
  assumes "live (manager_db m)" "mv_retrieveSecret V (manager_db m) u i = (s, True, True)"
    "badAttempts s + 1 < bAuthPolicyMaxTries m" "bAuthPolicyMaxTries m < 2 ^ 32"
    "badAttempts s + length as < 2 ^ 32"
    "\<forall>(now, pw)\<in>set as. admits V now m app u \<and> validateStoredSecret C now s pw ch mode = REASON_BAD_PASSWORD"
  shows "account_view V (fst (concurrent_attempts C V app c u i mode ch as m)) u = account_view V (manager_db m) u \<and>
    mv_retrieveSecret V (fst (concurrent_attempts C V app c u i mode ch as m)) u i =
      (s\<lparr>badAttempts := badAttempts s + length as\<rparr>, True, True)"
proof -
  let ?cs = "map (\<lambda>(now, pw). authenticate_check C V now m app u pw i mode ch False) as"
  have cs: "?cs = replicate (length as) (Decide REASON_BAD_PASSWORD s (bAuthPolicyMaxTries m) None)"
    using assms(6) check_admitted [OF _ assms(2)] by (induction as) auto
  have "foldl (\<lambda>d (now, chk). case chk of Return r st \<Rightarrow> d
        | Decide r s maxTries st \<Rightarrow> authenticate_commit V now d u i c r s maxTries) d
      (zip ts (replicate (length ts) (Decide REASON_BAD_PASSWORD s (bAuthPolicyMaxTries m) None))) =
    ((\<lambda>d. mv_incrementBadAttempts V d u i) ^^ length ts) d" for d and ts :: "int list"
    using assms(3,4) by (induction ts arbitrary: d) (simp_all add: authenticate_commit_def funpow_swap1 [of "\<lambda>d. mv_incrementBadAttempts V d u i"])
  from this [where ts = "map fst as"] have fold: "fst (concurrent_attempts C V app c u i mode ch as m) =
      ((\<lambda>d. mv_incrementBadAttempts V d u i) ^^ length as) (manager_db m)"
    by (simp add: concurrent_attempts_def Let_def cs)
  have "live (((\<lambda>d. mv_incrementBadAttempts V d u i) ^^ n) (manager_db m)) \<and>
      account_view V (((\<lambda>d. mv_incrementBadAttempts V d u i) ^^ n) (manager_db m)) u = account_view V (manager_db m) u \<and>
      mv_retrieveSecret V (((\<lambda>d. mv_incrementBadAttempts V d u i) ^^ n) (manager_db m)) u i =
        (s\<lparr>badAttempts := badAttempts s + n\<rparr>, True, True)" if "badAttempts s + n < 2 ^ 32" for n
    using that
  proof (induction n)
    case (Suc n)
    then show ?case
      using inc_secret [of "((\<lambda>d. mv_incrementBadAttempts V d u i) ^^ n) (manager_db m)" u i "s\<lparr>badAttempts := badAttempts s + n\<rparr>"]
      by (simp add: inc_live inc_view)
  qed (use assms(1,2) in simp)
  then show ?thesis using assms(5) fold by simp
qed

end

subsection \<open>The database obeys the laws\<close>

lemma manager_db_virtuals_simps [simp]:
  "mv_accountAdd manager_db_virtuals = accountAdd" "mv_applicationValidateAccount manager_db_virtuals = applicationValidateAccount"
  "mv_retrieveSecret manager_db_virtuals = retrieveSecret" "mv_accountLastLogin manager_db_virtuals = accountLastLogin"
  "mv_isAccountConfirmed manager_db_virtuals = isAccountConfirmed" "mv_isAccountDisabled manager_db_virtuals = isAccountDisabled"
  "mv_isAccountSuperUser manager_db_virtuals = isAccountSuperUser" "mv_accountExpirationDate manager_db_virtuals = accountExpirationDate"
  "mv_accountDisable manager_db_virtuals = accountDisable" "mv_accountChangeSecret manager_db_virtuals = accountChangeSecret"
  "mv_incrementBadAttempts manager_db_virtuals = incrementBadAttempts" "mv_resetBadAttempts manager_db_virtuals = resetBadAttempts"
  "mv_updateLastLogin manager_db_virtuals = updateLastLogin" "mv_accountsList manager_db_virtuals = accountsList"
  "mv_accountDirectAttribs manager_db_virtuals = accountDirectAttribs" "mv_accountGroups manager_db_virtuals = accountGroups"
  "mv_groupAttribs manager_db_virtuals = groupAttribs"
  "mv_accountValidateDirectAttribute manager_db_virtuals = accountValidateDirectAttribute"
  "mv_groupValidateAttribute manager_db_virtuals = groupValidateAttribute"
  by (simp_all add: manager_db_virtuals_def)

lemmas account_reads = isAccountConfirmed_def isAccountDisabled_def accountLastLogin_def accountExpirationDate_def
  applicationValidateAccount_def account_view_def

lemma find_account_update:
  assumes "db_ready d" "\<And>r. ac_userName (f r) = ac_userName r"
  shows "find_account (fst (update_account d u f)) u = map_option f (find_account d u)"
proof -
  have "find (\<lambda>r. ac_userName r = u) (sql_update (\<lambda>r. ac_userName r = u) f t) =
      map_option f (find (\<lambda>r. ac_userName r = u) t)" for t
    by (induction t) (auto simp: sql_update_def assms(2))
  then show ?thesis using assms(1) by (simp add: find_account_def update_account_def db_query_def db_first_def db_ready_def)
qed

lemma find_secret_update:
  assumes "db_ready d" "\<And>r. as_userName (f r) = as_userName r" "\<And>r. as_secretIndex (f r) = as_secretIndex r"
  shows "db_first (update_secret d u i f) (\<lambda>r. as_userName r = u \<and> as_secretIndex r = i) (t_accountsecrets (update_secret d u i f)) =
    map_option f (db_first d (\<lambda>r. as_userName r = u \<and> as_secretIndex r = i) (t_accountsecrets d))"
proof -
  have "find (\<lambda>r. as_userName r = u \<and> as_secretIndex r = i) (sql_update (\<lambda>r. as_userName r = u \<and> as_secretIndex r = i) f t) =
      map_option f (find (\<lambda>r. as_userName r = u \<and> as_secretIndex r = i) t)" for t
    by (induction t) (auto simp: sql_update_def assms(2,3))
  then show ?thesis using assms(1) by (simp add: update_secret_def db_query_def db_first_def db_ready_def)
qed

text \<open>Statements on one table leave what is read of the others.\<close>

lemma update_secret_frame:
  "db_ready (update_secret d u i f) = db_ready d" "t_accounts (update_secret d u i f) = t_accounts d"
  "t_applicationusers (update_secret d u i f) = t_applicationusers d" "t_secretsindexs (update_secret d u i f) = t_secretsindexs d"
  by (simp_all add: update_secret_def db_query_def db_ready_def)

lemma update_account_frame:
  "db_ready (fst (update_account d u f)) = db_ready d" "t_accountsecrets (fst (update_account d u f)) = t_accountsecrets d"
  "t_applicationusers (fst (update_account d u f)) = t_applicationusers d"
  "t_secretsindexs (fst (update_account d u f)) = t_secretsindexs d"
  by (simp_all add: update_account_def db_query_def db_ready_def)

interpretation manager_db: account_store manager_db_virtuals db_ready isThereAnotherSuperUser
proof
  fix d :: auth_db and u i s c x l e a
  assume d: "db_ready d"
  let ?inc = "mv_incrementBadAttempts manager_db_virtuals d u i"
  have frame: "t_accounts ?inc = t_accounts d" "t_applicationusers ?inc = t_applicationusers d" "db_ready ?inc"
    using d by (simp_all add: incrementBadAttempts_def update_secret_frame)
  then show "db_ready ?inc" "isThereAnotherSuperUser ?inc u = isThereAnotherSuperUser d u"
    "account_view manager_db_virtuals ?inc u = account_view manager_db_virtuals d u"
    using d by (simp_all add: account_reads find_account_def db_first_def isThereAnotherSuperUser_def)
  show "mv_retrieveSecret manager_db_virtuals ?inc u i = (s\<lparr>badAttempts := (badAttempts s + 1) mod 2 ^ 32\<rparr>, True, True)"
    if "mv_retrieveSecret manager_db_virtuals d u i = (s, True, True)"
  proof -
    have "accountExist ?inc u = accountExist d u"
      using frame d by (simp add: accountExist_def find_account_def db_first_def)
    moreover have "secret_of_row (r\<lparr>as_badAttempts := as_badAttempts r + 1\<rparr>) =
        (secret_of_row r)\<lparr>badAttempts := (badAttempts (secret_of_row r) + 1) mod 2 ^ 32\<rparr>" for r
      by (simp add: secret_of_row_def mod_simps)
    ultimately show ?thesis using that
      find_secret_update [OF d, of "\<lambda>r. r\<lparr>as_badAttempts := as_badAttempts r + 1\<rparr>" u i]
      by (auto simp: retrieveSecret_def incrementBadAttempts_def split: if_splits option.splits)
  qed
  show "fst (mv_accountDisable manager_db_virtuals d u True) = d" if "\<not> isThereAnotherSuperUser d u"
    using that by (simp add: accountDisable_def)
  assume other: "isThereAnotherSuperUser d u"
  then have dis: "fst (accountDisable d u True) = fst (update_account d u (\<lambda>r. r\<lparr>ac_enabled := False\<rparr>))"
    by (simp add: accountDisable_def)
  have found: "find_account (fst (update_account d u (\<lambda>r. r\<lparr>ac_enabled := False\<rparr>))) u =
      map_option (\<lambda>r. r\<lparr>ac_enabled := False\<rparr>) (find_account d u)"
    by (rule find_account_update [OF d]) simp
  show "mv_retrieveSecret manager_db_virtuals (fst (mv_accountDisable manager_db_virtuals d u True)) u i =
      mv_retrieveSecret manager_db_virtuals d u i"
    using found d by (simp add: dis retrieveSecret_def accountExist_def update_account_frame db_first_def)
  show "account_view manager_db_virtuals (fst (mv_accountDisable manager_db_virtuals d u True)) u = (c, True, l, e, a)"
    if "account_view manager_db_virtuals d u = (c, x, l, e, a)"
    using that found d by (auto simp: dis account_reads update_account_frame db_first_def split: option.splits)
qed

lemma find_unique: "uniq key t \<Longrightarrow> r \<in> set t \<Longrightarrow> find (\<lambda>x. key x = key r) t = Some r"
  unfolding uniq_def by (induction t) auto

subsection \<open>Changing a password\<close>

lemma validate_reasons: "validateStoredSecret C now s pw ch mode \<noteq> REASON_PASSWORD_INDEX_NOTFOUND"
  by (simp add: validateStoredSecret_def validateGAuth_def validateChallenge_def Let_def split: Mode.split)

lemma authenticate_ok:
  assumes "authenticate C V now m app c u pw i mode ch want = (m1, r, st)" "IS_PASSWORD_AUTHENTICATED r"
  obtains s where "mv_retrieveSecret V (manager_db m) u i = (s, True, True)"
    "IS_PASSWORD_AUTHENTICATED (validateStoredSecret C now s pw ch mode)"
  using assms by (auto simp: authenticate_def authenticate_check_def Let_def IS_PASSWORD_AUTHENTICATED_def
      split: if_splits prod.splits auth_check.splits)

lemma authenticate_not_found:
  assumes "authenticate C V now m app c u pw i mode ch False = (m1, REASON_PASSWORD_INDEX_NOTFOUND, st)"
  shows "\<not> snd (snd (mv_retrieveSecret V (manager_db m) u i))"
    "manager_db m1 = fst (mv_accountDisable V (manager_db m) u True) \<or> manager_db m1 = mv_incrementBadAttempts V (manager_db m) u i"
  using assms validate_reasons
  by (auto simp: authenticate_def authenticate_check_def authenticate_commit_def Let_def
      split: if_splits prod.splits auth_check.splits)

lemma accountExist_iff: "accountExist d u \<longleftrightarrow> db_ready d \<and> has_account d u"
  by (auto simp: accountExist_def find_account_def db_first_def has_account_def find_None_iff simp flip: not_None_eq)

lemma update_account_secrets:
  assumes "\<And>r. ac_userName (f r) = ac_userName r"
  shows "retrieveSecret (fst (update_account d u f)) v j = retrieveSecret d v j"
proof -
  have "has_account (fst (update_account d u f)) v = has_account d v"
    using keys_update [of ac_userName f "\<lambda>r. ac_userName r = u" "t_accounts d"] assms
    by (simp add: has_account_def update_account_def db_query_def)
  then show ?thesis by (simp add: retrieveSecret_def accountExist_iff update_account_frame db_first_def cong: if_cong option.case_cong)
qed

lemma not_found_keeps_secrets:
  assumes "\<not> snd (snd (retrieveSecret d u i))"
    "d1 = fst (accountDisable d u True) \<or> d1 = incrementBadAttempts d u i"
  shows "retrieveSecret d1 u j = retrieveSecret d u j"
  using assms(2)
proof
  assume "d1 = fst (accountDisable d u True)"
  then show ?thesis by (simp add: accountDisable_def update_account_secrets)
next
  assume d1: "d1 = incrementBadAttempts d u i"
  show ?thesis
  proof (cases "accountExist d u")
    case True
    then have "find (\<lambda>r. as_userName r = u \<and> as_secretIndex r = i) (t_accountsecrets d) = None"
      using assms(1) by (auto simp: retrieveSecret_def db_first_def accountExist_iff split: option.splits)
    then have "sql_update (\<lambda>r. as_userName r = u \<and> as_secretIndex r = i) f (t_accountsecrets d) = t_accountsecrets d" for f
      by (auto simp: sql_update_def find_None_iff intro!: map_idI)
    then show ?thesis by (simp add: d1 incrementBadAttempts_def update_secret_def db_query_def)
  next
    case False
    then show ?thesis
      by (simp add: d1 retrieveSecret_def accountExist_iff incrementBadAttempts_def update_secret_frame has_account_def)
  qed
qed

lemma accountChangeSecret_stores:
  assumes "accountChangeSecret d u s i = (d', True)" "length (ssalt s) = 4"
  shows "retrieveSecret d' u i = (s\<lparr>badAttempts := 0\<rparr>, True, True)"
proof -
  let ?P = "\<lambda>r. as_userName r = u \<and> as_secretIndex r = i"
  let ?t = "sql_delete ?P (t_accountsecrets d)"
  have ready: "db_ready d" and ex: "has_account d u"
    and d': "d' = d\<lparr>t_accountsecrets := ?t @ [secret_row_new u i s]\<rparr>"
    using assms(1) by (auto simp: accountChangeSecret_def insert_secret_def db_query_def db_ready_def sql_insert_Some has_account_def
        split: if_splits option.splits)
  have "find ?P (?t @ [secret_row_new u i s]) = find ?P [secret_row_new u i s]"
    by (rule find_append_new) (auto simp: sql_delete_def)
  moreover have "accountExist d' u" using ready ex d'
    by (auto simp: accountExist_def find_account_def db_first_def db_ready_def has_account_def find_None_iff)
  ultimately show ?thesis using ready d' assms(2)
    by (simp add: retrieveSecret_def db_first_def db_ready_def secret_of_row_new)
qed

subsection \<open>Properties\<close>

text \<open>C11: When another account is an enabled superuser, an admitted account can be tried with exactly as many
  wrong passwords as the policy leaves it; every later attempt is refused because the account is disabled,
  whatever its password, the right one included, and at whatever time it comes.\<close>

theorem lockout_after_max_tries:
  assumes "db_ready (manager_db m)" "isThereAnotherSuperUser (manager_db m) u"
    "retrieveSecret (manager_db m) u i = (s, True, True)"
    "badAttempts s < bAuthPolicyMaxTries m" "bAuthPolicyMaxTries m < 2 ^ 32"
    "\<forall>(now, pw)\<in>set (take (bAuthPolicyMaxTries m - badAttempts s) as).
      admits manager_db_virtuals now m app u \<and> validateStoredSecret C now s pw ch mode = REASON_BAD_PASSWORD"
  shows "snd (attempts C manager_db_virtuals app c u i mode ch as m) =
    (let k = bAuthPolicyMaxTries m - badAttempts s
     in replicate (min (length as) k) REASON_BAD_PASSWORD @ replicate (length as - k) REASON_DISABLED_ACCOUNT)"
  using assms by (intro manager_db.lockout) simp_all

definition guest_db :: "string \<Rightarrow> auth_db" where
  "guest_db guest = (auth_db_new False)\<lparr>db_created := True,
     t_accounts := map (\<lambda>u. account_row_new 100 u
       \<lparr>sGivenName = '''', sLastName = '''', sEmail = '''', sDescription = '''', sExtraData = ''''\<rparr> 0
       \<lparr>attr_enabled = True, attr_confirmed = True, attr_superuser = u = ''root''\<rparr> '''') [''root'', ''bob''],
     t_applicationusers := [(guest, ''app'')],
     t_secretsindexs := [\<lparr>si_index = 0, si_description = ''Master Login Password'', si_loginRequired = True\<rparr>],
     t_accountsecrets := [secret_row_new guest 0 (Secret_new\<lparr>hash := ''pw''\<rparr>)]\<rparr>"

definition no_crypto :: crypto_ops where
  "no_crypto = \<lparr>calcSHA256 = id, calcSHA512 = id, calcSSHA256 = \<lambda>p s. p, calcSSHA512 = \<lambda>p s. p\<rparr>"

definition no_client :: sClientDetails where
  "no_client = \<lparr>sIPAddr = [], cd_sExtraData = [], sTLSCommonName = [], sUserAgent = []\<rparr>"

lemmas guest_simps = guest_db_def auth_db_new_def db_ready_def db_first_def account_row_new_def

lemma guest_reads:
  "guest = ''root'' \<or> guest = ''bob'' \<Longrightarrow> retrieveSecret (guest_db guest) guest 0 = (Secret_new\<lparr>hash := ''pw''\<rparr>, True, True)"
  "db_ready (guest_db guest)"
  "guest = ''root'' \<or> guest = ''bob'' \<Longrightarrow> admits manager_db_virtuals 200 (Manager_new (guest_db guest)) ''app'' guest"
  "isThereAnotherSuperUser (guest_db ''bob'') ''bob''" "\<not> isThereAnotherSuperUser (guest_db ''root'') ''root''"
proof -
  have s: "secret_of_row (secret_row_new guest 0 (Secret_new\<lparr>hash := ''pw''\<rparr>)) = Secret_new\<lparr>hash := ''pw''\<rparr>"
    using secret_of_row_new [of "Secret_new\<lparr>hash := ''pw''\<rparr>" guest 0] by (simp add: Secret_new_def)
  show "retrieveSecret (guest_db guest) guest 0 = (Secret_new\<lparr>hash := ''pw''\<rparr>, True, True)" if "guest = ''root'' \<or> guest = ''bob''"
    using that s by (auto simp: retrieveSecret_def accountExist_def find_account_def guest_simps)
  show "admits manager_db_virtuals 200 (Manager_new (guest_db guest)) ''app'' guest" if "guest = ''root'' \<or> guest = ''bob''"
    using that by (auto simp: admits_def account_reads Manager_new_def find_account_def guest_simps)
qed (simp_all add: isThereAnotherSuperUser_def guest_simps)

lemma Manager_new_simps [simp]: "manager_db (Manager_new d) = d" "bAuthPolicyMaxTries (Manager_new d) = 4"
  by (simp_all add: Manager_new_def)

lemma wrong_guess:
  "pw \<noteq> ''pw'' \<Longrightarrow> validateStoredSecret no_crypto now (Secret_new\<lparr>hash := ''pw''\<rparr>) pw ch MODE_PLAIN = REASON_BAD_PASSWORD"
  "badAttempts (Secret_new\<lparr>hash := x\<rparr>) = 0"
  by (simp_all add: validateStoredSecret_def toCompare_def Secret_new_def)

theorem lockout_after_max_tries_witness:
  "snd (attempts no_crypto manager_db_virtuals ''app'' no_client ''bob'' 0 MODE_PLAIN '''' (replicate 4 (200, ''guess'') @ [(200, ''pw''), (300, ''pw'')]) (Manager_new (guest_db ''bob''))) =
     [REASON_BAD_PASSWORD, REASON_BAD_PASSWORD, REASON_BAD_PASSWORD, REASON_BAD_PASSWORD,
      REASON_DISABLED_ACCOUNT, REASON_DISABLED_ACCOUNT]"
  using lockout_after_max_tries [of "Manager_new (guest_db ''bob'')" "''bob''" 0 "Secret_new\<lparr>hash := ''pw''\<rparr>"
      "replicate 4 (200, ''guess'') @ [(200, ''pw''), (300, ''pw'')]" "''app''" no_crypto "''''" MODE_PLAIN no_client]
  by (simp add: guest_reads wrong_guess del: attempts.simps) (simp add: numeral_eq_Suc del: attempts.simps)

text \<open>The last enabled superuser is never locked: its account cannot be disabled, and an attempt that
  would disable it is not counted either, so any number of passwords can be tried.\<close>

theorem last_superuser_unlimited_tries:
  assumes "db_ready (manager_db m)" "\<not> isThereAnotherSuperUser (manager_db m) u"
    "retrieveSecret (manager_db m) u i = (s, True, True)"
    "bAuthPolicyMaxTries m \<le> badAttempts s + 1" "badAttempts s + 1 < 2 ^ 32"
    "\<forall>(now, pw)\<in>set as. admits manager_db_virtuals now m app u \<and> validateStoredSecret C now s pw ch mode = REASON_BAD_PASSWORD"
  shows "attempts C manager_db_virtuals app c u i mode ch as m = (m, replicate (length as) REASON_BAD_PASSWORD)"
  using assms by (intro manager_db.last_superuser_not_locked) simp_all

theorem last_superuser_unlimited_tries_witness:
  "attempts no_crypto manager_db_virtuals ''app'' no_client ''root'' 0 MODE_PLAIN '''' (replicate 1000 (200, ''guess''))
      (setBAuthPolicyMaxTries (Manager_new (guest_db ''root'')) 1) =
     (setBAuthPolicyMaxTries (Manager_new (guest_db ''root'')) 1, replicate 1000 REASON_BAD_PASSWORD)"
proof -
  define m where "m = setBAuthPolicyMaxTries (Manager_new (guest_db ''root'')) 1"
  have m: "manager_db m = guest_db ''root''" "bAuthPolicyMaxTries m = 1" "admits manager_db_virtuals 200 m ''app'' ''root''"
    using guest_reads(3) [of "''root''"] by (simp_all add: m_def setBAuthPolicyMaxTries_def admits_def Manager_new_def)
  show ?thesis
    using last_superuser_unlimited_tries [of m "''root''" 0 "Secret_new\<lparr>hash := ''pw''\<rparr>" "replicate 1000 (200, ''guess'')"
        "''app''" no_crypto "''''" MODE_PLAIN no_client]
    unfolding m_def [symmetric] by (simp add: m guest_reads wrong_guess)
qed

text \<open>The limit does not hold between concurrent attempts. When several clients read before the first of
  them writes, each gets its password checked, however many they are, and the account is not disabled
  although more wrong passwords were tried than the policy allows.\<close>

theorem concurrent_attempts_pass_limit:
  assumes "db_ready (manager_db m)" "retrieveSecret (manager_db m) u i = (s, True, True)"
    "badAttempts s + 1 < bAuthPolicyMaxTries m" "bAuthPolicyMaxTries m < 2 ^ 32" "badAttempts s + length as < 2 ^ 32"
    "\<forall>(now, pw)\<in>set as. admits manager_db_virtuals now m app u \<and> validateStoredSecret C now s pw ch mode = REASON_BAD_PASSWORD"
    "concurrent_attempts C manager_db_virtuals app c u i mode ch as m = (d', cs)"
  shows "isAccountDisabled d' u = isAccountDisabled (manager_db m) u \<and>
    retrieveSecret d' u i = (s\<lparr>badAttempts := badAttempts s + length as\<rparr>, True, True)"
  using manager_db.concurrent [of m u i s as app C ch mode c] assms by (auto simp: account_view_def)

theorem concurrent_attempts_pass_limit_witness:
  "\<exists>d'. isAccountDisabled d' ''bob'' = isAccountDisabled (guest_db ''bob'') ''bob'' \<and>
     retrieveSecret d' ''bob'' 0 = (Secret_new\<lparr>hash := ''pw'', badAttempts := 100\<rparr>, True, True)"
  using concurrent_attempts_pass_limit [of "Manager_new (guest_db ''bob'')" "''bob''" 0 "Secret_new\<lparr>hash := ''pw''\<rparr>"
      "replicate 100 (200, ''guess'')" "''app''" no_crypto "''''" MODE_PLAIN no_client
      "fst (concurrent_attempts no_crypto manager_db_virtuals ''app'' no_client ''bob'' 0 MODE_PLAIN '''' (replicate 100 (200, ''guess'')) (Manager_new (guest_db ''bob'')))"
      "snd (concurrent_attempts no_crypto manager_db_virtuals ''app'' no_client ''bob'' 0 MODE_PLAIN '''' (replicate 100 (200, ''guess'')) (Manager_new (guest_db ''bob'')))"]
  by (auto simp: guest_reads wrong_guess)

lemma password_change_succeeds:
  "snd (accountChangeAuthenticatedSecret no_crypto manager_db_virtuals 200 (Manager_new (guest_db ''bob'')) ''app'' ''bob'' 0 ''pw''
     (Secret_new\<lparr>hash := ''new''\<rparr>) no_client MODE_PLAIN '''')"
proof -
  let ?d = "authenticate_commit manager_db_virtuals 200 (guest_db ''bob'') ''bob'' 0 no_client REASON_AUTHENTICATED
      (Secret_new\<lparr>hash := ''pw''\<rparr>) 4"
  have "authenticate_check no_crypto manager_db_virtuals 200 (Manager_new (guest_db ''bob'')) ''app'' ''bob'' ''pw'' 0 MODE_PLAIN '''' False =
      Decide REASON_AUTHENTICATED (Secret_new\<lparr>hash := ''pw''\<rparr>) (bAuthPolicyMaxTries (Manager_new (guest_db ''bob''))) None"
    by (rule check_admitted)
      (simp_all add: guest_reads validateStoredSecret_def toCompare_def Secret_new_def Secret_isExpired_def)
  moreover have "snd (accountChangeSecret ?d ''bob'' (Secret_new\<lparr>hash := ''new''\<rparr>) 0)"
    by (simp add: authenticate_commit_def accountChangeSecret_def insert_secret_def resetBadAttempts_def updateLastLogin_def
        update_secret_def update_account_def sql_insert_def sql_update_def sql_delete_def db_query_def has_account_def has_index_def secret_row_new_def guest_simps)
  ultimately show ?thesis
    by (auto simp: accountChangeAuthenticatedSecret_def authenticate_def split: prod.splits)
qed

text \<open>C12: A password is only changed for a client that gave the current one, or the master password when
  the index had none; then the new secret is stored under the index, with no bad attempts.\<close>

theorem password_change_needs_password:
  assumes "accountChangeAuthenticatedSecret C manager_db_virtuals now m app u i pw new c mode ch = (m', True)"
    "length (ssalt new) = 4"
  shows "(\<exists>j s. (j = i \<or> j = 0 \<and> \<not> snd (snd (retrieveSecret (manager_db m) u i))) \<and>
      retrieveSecret (manager_db m) u j = (s, True, True) \<and>
      IS_PASSWORD_AUTHENTICATED (validateStoredSecret C now s pw ch mode)) \<and>
    retrieveSecret (manager_db m') u i = (new\<lparr>badAttempts := 0\<rparr>, True, True)"
proof -
  let ?V = manager_db_virtuals and ?d = "manager_db m"
  obtain m1 i1 st where a1: "authenticate C ?V now m app c u pw i mode ch False = (m1, i1, st)" by (metis prod_cases3)
  show ?thesis
  proof (cases "i1 = REASON_PASSWORD_INDEX_NOTFOUND")
    case True
    obtain m2 i2 st2 where a2: "authenticate C ?V now m1 app c u pw 0 mode ch False = (m2, i2, st2)" by (metis prod_cases3)
    from assms(1) True a1 a2 obtain d2 where ok: "IS_PASSWORD_AUTHENTICATED i2" "accountChangeSecret (manager_db m2) u new i = (d2, True)"
      "manager_db m' = d2"
      by (auto simp: accountChangeAuthenticatedSecret_def split: if_splits prod.splits)
    obtain s where s: "retrieveSecret (manager_db m1) u 0 = (s, True, True)"
      "IS_PASSWORD_AUTHENTICATED (validateStoredSecret C now s pw ch mode)"
      using authenticate_ok [OF a2 ok(1)] by auto
    have nf: "\<not> snd (snd (retrieveSecret ?d u i))"
      "manager_db m1 = fst (accountDisable ?d u True) \<or> manager_db m1 = incrementBadAttempts ?d u i"
      using authenticate_not_found [OF a1 [unfolded True]] by simp_all
    have "retrieveSecret ?d u 0 = (s, True, True)" using not_found_keeps_secrets [OF nf, of 0] s(1) by simp
    then show ?thesis using nf(1) s(2) accountChangeSecret_stores [OF ok(2) assms(2)] ok(3) by auto
  next
    case False
    with assms(1) a1 obtain d2 where ok: "IS_PASSWORD_AUTHENTICATED i1" "accountChangeSecret (manager_db m1) u new i = (d2, True)"
      "manager_db m' = d2"
      by (auto simp: accountChangeAuthenticatedSecret_def split: if_splits prod.splits)
    obtain s where "retrieveSecret ?d u i = (s, True, True)" "IS_PASSWORD_AUTHENTICATED (validateStoredSecret C now s pw ch mode)"
      using authenticate_ok [OF a1 ok(1)] by auto
    then show ?thesis using accountChangeSecret_stores [OF ok(2) assms(2)] ok(3) by auto
  qed
qed

theorem password_change_needs_password_witness:
  "retrieveSecret (manager_db (fst (accountChangeAuthenticatedSecret no_crypto manager_db_virtuals 200 (Manager_new (guest_db ''bob''))
      ''app'' ''bob'' 0 ''pw'' (Secret_new\<lparr>hash := ''new''\<rparr>) no_client MODE_PLAIN ''''))) ''bob'' 0 =
    (Secret_new\<lparr>hash := ''new''\<rparr>, True, True)"
  using password_change_needs_password [of no_crypto 200 "Manager_new (guest_db ''bob'')" "''app''" "''bob''" 0 "''pw''"
      "Secret_new\<lparr>hash := ''new''\<rparr>" no_client MODE_PLAIN "''''"
      "fst (accountChangeAuthenticatedSecret no_crypto manager_db_virtuals 200 (Manager_new (guest_db ''bob''))
      ''app'' ''bob'' 0 ''pw'' (Secret_new\<lparr>hash := ''new''\<rparr>) no_client MODE_PLAIN '''')"]
    password_change_succeeds
  by (simp add: prod_eq_iff) (simp add: Secret_new_def)

text \<open>A user passes the check of an attribute exactly when the attribute is in the set of usable ones,
  through the account or through a group; whether a superuser exists is answered by the database as
  the abstract manager computes it from the list of accounts.\<close>

theorem attribute_checks_agree:
  "(accountValidateAttribute manager_db_virtuals d u a \<longleftrightarrow> a \<in> accountUsableAttribs manager_db_virtuals d u) \<and>
   superUserAccountExist (auth_run ops (auth_db_new b)) = superUserAccountExist_base manager_db_virtuals (auth_run ops (auth_db_new b))"
proof -
  have 1: "accountValidateDirectAttribute d u a \<longleftrightarrow> a \<in> accountDirectAttribs d u"
    "groupValidateAttribute d g a \<longleftrightarrow> a \<in> groupAttribs d g" for g
    by (auto simp: accountValidateDirectAttribute_def accountDirectAttribs_def groupValidateAttribute_def groupAttribs_def
        db_first_def db_select_def find_None_iff image_iff simp flip: not_None_eq)
  have u: "uniq ac_userName (t_accounts (auth_run ops (auth_db_new b)))" using run_wf by (simp add: wf_defs)
  have 2: "superUserAccountExist d = superUserAccountExist_base manager_db_virtuals d" if "uniq ac_userName (t_accounts d)" for d
  proof -
    note found = find_unique [OF \<open>uniq ac_userName (t_accounts d)\<close>]
    show ?thesis
      by (auto simp: superUserAccountExist_def superUserAccountExist_base_def accountsList_def isAccountSuperUser_def
          find_account_def db_first_def db_select_def find_None_iff found simp flip: not_None_eq)
  qed
  from 1 2 [OF u] show ?thesis by (auto simp: accountValidateAttribute_def accountUsableAttribs_def)
qed

end
