(* ===== verification/Auth_Domains.thy ===== *)
theory Auth_Domains
  imports Safe_Map Auth_Manager_Facts
begin

text \<open>
  \<^verbatim>\<open>Auth/mdz_auth/domains.cpp\<close>: the managers by the name of their domain. The safe map holds their addresses,
  the store what is there. \<^verbatim>\<open>checkConnection\<close> of a manager does nothing.
\<close>

record 'm domains =
  domainMap :: "string xMap"
  domainManagers :: "nat \<Rightarrow> 'm"

definition Domains_new :: "(nat \<Rightarrow> 'm) \<Rightarrow> 'm domains" where
  "Domains_new store = \<lparr>domainMap = [], domainManagers = store\<rparr>"

definition addDomain :: "'m domains \<Rightarrow> string \<Rightarrow> nat option \<Rightarrow> 'm domains \<times> bool" where
  "addDomain D domainName auth =
     (let (m, ok) = addElement (domainMap D) domainName auth in (D\<lparr>domainMap := m\<rparr>, ok))"

definition openDomain :: "'m domains \<Rightarrow> string \<Rightarrow> 'm domains \<times> nat option" where
  "openDomain D domainName =
     (let (m, i) = openElement (domainMap D) domainName in (D\<lparr>domainMap := m\<rparr>, i))"

definition releaseDomain :: "'m domains \<Rightarrow> string \<Rightarrow> string + 'm domains \<times> bool" where
  "releaseDomain D domainName =
     map_sum id (\<lambda>(m, ok, zero). (D\<lparr>domainMap := m\<rparr>, ok)) (releaseElement (domainMap D) domainName)"

definition set_manager :: "nat \<Rightarrow> 'm \<Rightarrow> 'm domains \<Rightarrow> 'm domains" where
  "set_manager a m D = D\<lparr>domainManagers := (domainManagers D)(a := m)\<rparr>"

definition domain_readers :: "'m domains \<Rightarrow> string \<Rightarrow> 32 word" where
  "domain_readers D domainName = (case map_of (domainMap D) domainName of Some x \<Rightarrow> readers x | None \<Rightarrow> 0)"

definition domains_ok :: "'m domains \<Rightarrow> bool" where
  "domains_ok D \<longleftrightarrow> std_map_ok (domainMap D)"

text \<open>The address a domain's name leads to.\<close>

definition domain_address :: "'m domains \<Rightarrow> string \<Rightarrow> nat option" where
  "domain_address D domainName = (case map_of (domainMap D) domainName of Some x \<Rightarrow> rdElement x | None \<Rightarrow> None)"

lemma openDomain_Some:
  assumes "domains_ok D" "openDomain D n = (D', Some a)"
  shows "domain_address D n = Some a" "domains_ok D'" "domainManagers D' = domainManagers D"
    "domain_readers D' n = domain_readers D n + 1" "domain_address D' = domain_address D"
proof -
  obtain x where x: "map_of (domainMap D) n = Some x" "rdElement x = Some a"
    "D' = D\<lparr>domainMap := std_put n (x\<lparr>readers := readers x + 1\<rparr>) (domainMap D)\<rparr>"
    using assms(2) by (auto simp: openDomain_def openElement_def split: option.splits prod.splits)
  then show "domain_address D n = Some a" "domains_ok D'" "domainManagers D' = domainManagers D"
    "domain_readers D' n = domain_readers D n + 1" "domain_address D' = domain_address D"
    using assms(1) by (auto simp: domain_address_def domain_readers_def domains_ok_def fun_eq_iff)
qed

lemma openDomain_None: "openDomain D n = (D', None) \<Longrightarrow> D' = D"
  by (auto simp: openDomain_def openElement_def split: option.splits prod.splits)

lemma openDomain_snd: "snd (openDomain D n) = domain_address D n"
  by (auto simp: openDomain_def openElement_def domain_address_def split: option.splits)

lemma releaseDomain_ok:
  assumes "domains_ok D" "domain_readers D n \<noteq> 0"
  shows "\<exists>D'. releaseDomain D n = Inr (D', True) \<and> domains_ok D' \<and> domainManagers D' = domainManagers D \<and>
    domain_readers D' n = domain_readers D n - 1 \<and> domain_address D' = domain_address D"
proof -
  obtain x where x: "map_of (domainMap D) n = Some x" "readers x \<noteq> 0"
    using assms(2) by (auto simp: domain_readers_def split: option.splits)
  have "releaseDomain D n = Inr (D\<lparr>domainMap := std_put n (x\<lparr>readers := readers x - 1\<rparr>) (domainMap D)\<rparr>, True)"
    using x by (simp add: releaseDomain_def releaseElement_def Let_def)
  then show ?thesis
    using assms(1) x by (auto simp: domain_address_def domain_readers_def domains_ok_def fun_eq_iff)
qed

lemma releaseDomain_Inr:
  assumes "domains_ok D" "releaseDomain D n = Inr (D', ok)"
  shows "domains_ok D'" "domainManagers D' = domainManagers D" "domain_address D' = domain_address D"
proof -
  show "domains_ok D'" "domainManagers D' = domainManagers D" "domain_address D' = domain_address D"
    using assms by (auto simp: releaseDomain_def releaseElement_def domains_ok_def domain_address_def fun_eq_iff Let_def
        map_sum_def split: option.splits if_splits sum.splits)
qed

lemma set_manager_simps [simp]:
  "domainMap (set_manager a m D) = domainMap D" "domainManagers (set_manager a m D) a = m"
  "domain_readers (set_manager a m D) = domain_readers D" "domain_address (set_manager a m D) = domain_address D"
  "domains_ok (set_manager a m D) = domains_ok D"
  by (simp_all add: set_manager_def domain_readers_def domain_address_def domains_ok_def fun_eq_iff)

end
