(* ===== verification/Rpc_Methods.thy ===== *)
theory Rpc_Methods
  imports Json Auth_Domains
begin

text \<open>
  \<^verbatim>\<open>RPC/mdz_xrpc_common/methodsattributes_map.cpp\<close> and \<^verbatim>\<open>methodsmanager.cpp\<close>: the methods a server offers, what
  a session must have proved before it may call one, and the call. Sets of attributes and indexes are lists in
  the order of the code's sets where the order shows. The methods manager holds its lock during a call.
\<close>

subsection \<open>Required attributes and indexes\<close>

record methodsAttributes_map =
  attribPassIndexes :: "(sApplicationAttrib \<times> nat) list"
  methodAttribs :: "(string \<times> sApplicationAttrib) list"
  requireAllMethodsToBeAuthenticated :: bool

definition MethodsAttributes_Map_new :: methodsAttributes_map where
  "MethodsAttributes_Map_new = \<lparr>attribPassIndexes = [], methodAttribs = [], requireAllMethodsToBeAuthenticated = True\<rparr>"

definition addMethodAttributes :: "methodsAttributes_map \<Rightarrow> string \<Rightarrow> sApplicationAttrib list \<Rightarrow> methodsAttributes_map" where
  "addMethodAttributes M methodName attribs = M\<lparr>methodAttribs := methodAttribs M @ map (Pair methodName) attribs\<rparr>"

definition addAttribPassIndexes :: "methodsAttributes_map \<Rightarrow> sApplicationAttrib \<Rightarrow> nat list \<Rightarrow> methodsAttributes_map" where
  "addAttribPassIndexes M attrib passIndexes = M\<lparr>attribPassIndexes := attribPassIndexes M @ map (Pair attrib) passIndexes\<rparr>"

definition getAttribPassIndexes :: "methodsAttributes_map \<Rightarrow> sApplicationAttrib \<Rightarrow> nat set" where
  "getAttribPassIndexes M attrib = insert 0 (snd ` set (filter (\<lambda>(a, i). a = attrib) (attribPassIndexes M)))"

definition getMethodAttribs :: "methodsAttributes_map \<Rightarrow> string \<Rightarrow> sApplicationAttrib set" where
  "getMethodAttribs M methodName = snd ` set (filter (\<lambda>(n, a). n = methodName) (methodAttribs M))"

definition getMethodPassIndexes :: "methodsAttributes_map \<Rightarrow> string \<Rightarrow> nat set" where
  "getMethodPassIndexes M methodName =
     (let r = (\<Union>a\<in>getMethodAttribs M methodName. getAttribPassIndexes M a)
      in if requireAllMethodsToBeAuthenticated M then insert 0 r else r)"

definition setRequireAllMethodsToBeAuthenticated :: "methodsAttributes_map \<Rightarrow> bool \<Rightarrow> methodsAttributes_map" where
  "setRequireAllMethodsToBeAuthenticated M value = M\<lparr>requireAllMethodsToBeAuthenticated := value\<rparr>"

text \<open>The result is the answer and what is left; None: the null session is followed before it is tested.\<close>

definition validateMethod :: "int \<Rightarrow> 'db manager_virtuals \<Rightarrow> 'db \<Rightarrow> methodsAttributes_map \<Rightarrow> session option \<Rightarrow> string \<Rightarrow>
  nat set \<Rightarrow> (bool \<times> nat set \<times> sApplicationAttrib set) option" where
  "validateMethod now V d M session methodName extraTmpIndexes =
     (case session of
        None \<Rightarrow> None
      | Some s \<Rightarrow>
          if mv_isAccountSuperUser V d (authUser s) then Some (True, {}, {})
          else let passIndexesLeft = {i \<in> getMethodPassIndexes M methodName.
                     \<not> IS_PASSWORD_AUTHENTICATED (getIdxAuthenticationStatus now s i) \<and> i \<notin> extraTmpIndexes};
                   attribsLeft = {a \<in> getMethodAttribs M methodName. \<not> accountValidateAttribute V d (authUser s) a}
               in Some (passIndexesLeft = {} \<and> attribsLeft = {}, passIndexesLeft, attribsLeft))"

subsection \<open>Methods\<close>

text \<open>What a method finds around it: the time, the hash functions, the random values it draws and the functions
  the database model is given.\<close>

record rpc_env =
  re_now :: int
  re_crypto :: crypto_ops
  re_token :: string
  re_salt :: "byte list"
  re_dis :: "nat \<Rightarrow> nat \<Rightarrow> byte"
  re_seed :: nat
  re_like :: "string \<Rightarrow> string \<Rightarrow> bool"

type_synonym rpc_method =
  "rpc_env \<Rightarrow> session option \<Rightarrow> json \<Rightarrow> auth_db manager \<Rightarrow> auth_db manager \<times> (failure + json)"

datatype eMethodValidationCodes = VALIDATION_OK | VALIDATION_METHODNOTFOUND | VALIDATION_NOTAUTHORIZED

datatype eRetCodes = METHOD_RET_CODE_SUCCESS | METHOD_RET_CODE_INVALIDDOMAIN | METHOD_RET_CODE_UNAUTHENTICATED
| METHOD_RET_CODE_INVALIDLOCALAUTH | METHOD_RET_CODE_TIMEDOUT | METHOD_RET_CODE_INVALIDAUTH
| METHOD_RET_CODE_SERVERMEMORYFULL | METHOD_RET_CODE_METHODNOTFOUND

record methodsManager =
  rpcMethods :: "(string, rpc_method) std_map"
  methodRequireFullAuth :: "(string, bool) std_map"
  mm_appName :: string
  methodsAttribs :: methodsAttributes_map

definition MethodsManager_new :: "string \<Rightarrow> methodsManager" where
  "MethodsManager_new app = \<lparr>rpcMethods = [], methodRequireFullAuth = [], mm_appName = app,
     methodsAttribs = MethodsAttributes_Map_new\<rparr>"

definition getAppAttribs :: "methodsManager \<Rightarrow> string list \<Rightarrow> sApplicationAttrib list" where
  "getAppAttribs mm reqAttribs = map (sApplicationAttrib (mm_appName mm)) reqAttribs"

definition addRPCMethod :: "methodsManager \<Rightarrow> string \<Rightarrow> string list \<Rightarrow> rpc_method \<Rightarrow> bool \<Rightarrow> methodsManager \<times> bool" where
  "addRPCMethod mm methodName reqAttribs rpcMethod requireFullAuth =
     (if map_of (rpcMethods mm) methodName = None
      then (mm\<lparr>rpcMethods := std_put methodName rpcMethod (rpcMethods mm),
               methodsAttribs := addMethodAttributes (methodsAttribs mm) methodName (getAppAttribs mm reqAttribs),
               methodRequireFullAuth := std_put methodName requireFullAuth (methodRequireFullAuth mm)\<rparr>, True)
      else (mm, False))"

text \<open>\<^verbatim>\<open>methodRequireFullAuth[methodName]\<close>: an unknown name is added, with the value false.\<close>

definition getMethodRequireFullAuth :: "methodsManager \<Rightarrow> string \<Rightarrow> methodsManager \<times> bool" where
  "getMethodRequireFullAuth mm methodName =
     (case map_of (methodRequireFullAuth mm) methodName of
        Some b \<Rightarrow> (mm, b)
      | None \<Rightarrow> (mm\<lparr>methodRequireFullAuth := std_put methodName False (methodRequireFullAuth mm)\<rparr>, False))"

definition toValue_indexes :: "nat set \<Rightarrow> json" where
  "toValue_indexes t = json_items (map (\<lambda>i. JsonInt (int i)) (sorted_list_of_set t))"

definition toValue_attribs :: "sApplicationAttrib set \<Rightarrow> json" where
  "toValue_attribs t = json_items (map (\<lambda>a. JsonString (aa_attribName a)) (sorted_list_of_set t))"

text \<open>The result is the code and what is assigned to \<^verbatim>\<open>reasons\<close>; None is a null session that is followed.\<close>

definition validateRPCMethodPerms :: "int \<Rightarrow> 'db manager_virtuals \<Rightarrow> 'db \<Rightarrow> methodsManager \<Rightarrow> session option \<Rightarrow> string \<Rightarrow>
  nat set \<Rightarrow> methodsManager \<times> (eMethodValidationCodes \<times> json) option" where
  "validateRPCMethodPerms now V d mm session methodName extraTmpIndexes =
     (if map_of (rpcMethods mm) methodName = None then (mm, Some (VALIDATION_METHODNOTFOUND, JsonNull))
      else let (mm1, fullAuth) = getMethodRequireFullAuth mm methodName in
        if fullAuth \<and> (case session of None \<Rightarrow> True
            | Some s \<Rightarrow> \<not> getIsFullyLoggedIn now s CHECK_DISALLOW_EXPIRED_PASSWORDS \<or> \<not> isPersistentSession s)
        then (mm1, Some (VALIDATION_NOTAUTHORIZED, JsonNull))
        else (mm1, case validateMethod now V d (methodsAttribs mm1) session methodName extraTmpIndexes of
            None \<Rightarrow> None
          | Some (True, _, _) \<Rightarrow> Some (VALIDATION_OK, JsonNull)
          | Some (False, passIndexesLeft, attribsLeft) \<Rightarrow> Some (VALIDATION_NOTAUTHORIZED, json_fields
              [(''passIndexesLeft'', toValue_indexes passIndexesLeft), (''attribsLeft'', toValue_attribs attribsLeft)])))"

text \<open>The domain stays open when the method throws. \<^verbatim>\<open>payloadOut\<close> is assigned when there is an answer.\<close>

definition runRPCMethod :: "rpc_env \<Rightarrow> methodsManager \<Rightarrow> auth_db manager domains \<Rightarrow> string \<Rightarrow> session option \<Rightarrow> string \<Rightarrow> json \<Rightarrow>
  auth_db manager domains \<times> (failure + eRetCodes \<times> json option)" where
  "runRPCMethod E mm authDomains domainName session methodName payload =
     (case map_of (rpcMethods mm) methodName of
        None \<Rightarrow> (authDomains, Inr (METHOD_RET_CODE_METHODNOTFOUND, None))
      | Some rpcMethod \<Rightarrow> (case openDomain authDomains domainName of
          (D1, None) \<Rightarrow> (D1, Inr (METHOD_RET_CODE_INVALIDDOMAIN, None))
        | (D1, Some auth) \<Rightarrow>
            let (m, answer) = rpcMethod E session payload (domainManagers D1 auth); D2 = set_manager auth m D1 in
            case answer of
              Inl e \<Rightarrow> (D2, Inl e)
            | Inr payloadOut \<Rightarrow> (case releaseDomain D2 domainName of
                Inl e \<Rightarrow> (D2, Inl (Exception e))
              | Inr (D3, _) \<Rightarrow> (D3, Inr (METHOD_RET_CODE_SUCCESS, Some payloadOut)))))"

subsection \<open>Lemmas\<close>

lemma require_full_known: "map_of (methodRequireFullAuth mm) n = Some b \<Longrightarrow> getMethodRequireFullAuth mm n = (mm, b)"
  by (simp add: getMethodRequireFullAuth_def)

lemma getMethodRequireFullAuth_fields:
  "rpcMethods (fst (getMethodRequireFullAuth mm n)) = rpcMethods mm"
  "methodsAttribs (fst (getMethodRequireFullAuth mm n)) = methodsAttribs mm"
  by (auto simp: getMethodRequireFullAuth_def split: option.splits)

text \<open>The demands of a method on a session.\<close>

definition meets_requirements :: "int \<Rightarrow> 'db manager_virtuals \<Rightarrow> 'db \<Rightarrow> methodsManager \<Rightarrow> session \<Rightarrow> string \<Rightarrow> nat set \<Rightarrow> bool" where
  "meets_requirements now V d mm s methodName extra \<longleftrightarrow>
     mv_isAccountSuperUser V d (authUser s) \<or>
     (\<forall>a\<in>getMethodAttribs (methodsAttribs mm) methodName. accountValidateAttribute V d (authUser s) a) \<and>
     (\<forall>i\<in>getMethodPassIndexes (methodsAttribs mm) methodName.
        IS_PASSWORD_AUTHENTICATED (getIdxAuthenticationStatus now s i) \<or> i \<in> extra)"

lemma validateMethod_iff:
  "(\<exists>l. validateMethod now V d (methodsAttribs mm) session n extra = Some (True, l)) \<longleftrightarrow>
    (\<exists>s. session = Some s \<and> meets_requirements now V d mm s n extra)"
  by (cases session) (auto simp: validateMethod_def meets_requirements_def Let_def)

lemma validated:
  assumes "map_of (rpcMethods mm) n \<noteq> None"
  shows "fst (the (snd (validateRPCMethodPerms now V d mm session n extra))) = VALIDATION_OK \<and>
      snd (validateRPCMethodPerms now V d mm session n extra) \<noteq> None \<longleftrightarrow>
    (\<exists>s. session = Some s \<and> meets_requirements now V d mm s n extra \<and>
      (snd (getMethodRequireFullAuth mm n) \<longrightarrow>
        getIsFullyLoggedIn now s CHECK_DISALLOW_EXPIRED_PASSWORDS \<and> isPersistentSession s))"
proof -
  have same: "methodsAttribs (fst (getMethodRequireFullAuth mm n)) = methodsAttribs mm"
    by (rule getMethodRequireFullAuth_fields)
  show ?thesis
    using assms validateMethod_iff [of now V d mm session n extra] same
    by (cases session; cases "getMethodRequireFullAuth mm n")
      (auto simp: validateRPCMethodPerms_def validateMethod_def Let_def meets_requirements_def split: bool.splits)
qed

end
