(* ===== verification/Full_Auth.thy ===== *)
theory Full_Auth
  imports Rpc_Methods
begin

text \<open>
  \<^verbatim>\<open>RPC/mdz_xrpc_templates/fullauth.cpp\<close>: the methods by which a client administers the accounts, groups,
  applications and attributes of a domain. A method is a function from what it finds around it, the session, the
  payload and the manager to the manager and the answer. \<^verbatim>\<open>dirAppName\<close> is the static variable of the class,
  the first argument of the methods that read it.
\<close>

subsection \<open>Shapes of answers\<close>

definition payload_string :: "json \<Rightarrow> string \<Rightarrow> string" where
  "payload_string payload k = JSON_ASSTRING payload k ''''"

definition payload_attrib :: "json \<Rightarrow> sApplicationAttrib" where
  "payload_attrib payload = sApplicationAttrib (payload_string payload ''appName'') (payload_string payload ''attribName'')"

definition rpc_answer :: "string \<Rightarrow> json \<Rightarrow> json" where
  "rpc_answer k v = json_fields [(k, v)]"

text \<open>A method that only reads, one that reads a single value, and one that answers whether an operation of the
  manager succeeded.\<close>

definition rpc_read :: "(auth_db manager \<Rightarrow> failure + json) \<Rightarrow> auth_db manager \<Rightarrow> auth_db manager \<times> (failure + json)" where
  "rpc_read f m = (m, f m)"

definition rpc_value :: "string \<Rightarrow> (auth_db \<Rightarrow> json) \<Rightarrow> auth_db manager \<Rightarrow> auth_db manager \<times> (failure + json)" where
  "rpc_value k f = rpc_read (\<lambda>m. Inr (rpc_answer k (f (manager_db m))))"

definition rpc_write :: "(auth_db \<Rightarrow> auth_db \<times> bool) \<Rightarrow> auth_db manager \<Rightarrow> auth_db manager \<times> (failure + json)" where
  "rpc_write op m = (let (d, ok) = op (manager_db m) in (m\<lparr>manager_db := d\<rparr>, Inr (rpc_answer ''retCode'' (JsonBool ok))))"

definition rpc_refuse :: "auth_db manager \<Rightarrow> auth_db manager \<times> (failure + json)" where
  "rpc_refuse m = (m, Inr (rpc_answer ''retCode'' (JsonBool False)))"

definition stringListToValue :: "string set \<Rightarrow> json" where
  "stringListToValue value = json_items (map JsonString (sorted_list_of_set value))"

definition attribListToValue :: "auth_db \<Rightarrow> sApplicationAttrib set \<Rightarrow> json" where
  "attribListToValue d value = json_items (map (\<lambda>a. json_fields
     [(''appName'', JsonString (aa_appName a)), (''name'', JsonString (aa_attribName a)),
      (''description'', JsonString (attribDescription d a))]) (sorted_list_of_set value))"

definition named :: "string \<Rightarrow> string \<Rightarrow> (string \<times> json) list" where
  "named n descr = [(''name'', JsonString n), (''description'', JsonString descr)]"

definition jsonToMap :: "json \<Rightarrow> failure + (string \<rightharpoonup> string)" where
  "jsonToMap jValue = map_sum id (\<lambda>_ k. case json_get jValue k of Some (JsonString s) \<Rightarrow> Some s | _ \<Rightarrow> None)
     (json_getMemberNames jValue)"

definition iAttribsLeftListForGroup :: "auth_db \<Rightarrow> string \<Rightarrow> string \<Rightarrow> sApplicationAttrib set" where
  "iAttribsLeftListForGroup d app groupName = attribsList d app - groupAttribs d groupName"

subsection \<open>Accounts: changes\<close>

definition accountNameExpr :: "string \<Rightarrow> bool" where
  "accountNameExpr s \<longleftrightarrow> s \<noteq> [] \<and> list_all (\<lambda>c. let n = of_char c :: nat in
     97 \<le> n \<and> n \<le> 122 \<or> 65 \<le> n \<and> n \<le> 90 \<or> 48 \<le> n \<and> n \<le> 57) s"

definition refuse_with :: "string \<Rightarrow> auth_db manager \<Rightarrow> auth_db manager \<times> (failure + json)" where
  "refuse_with retMsg m = (m, Inr (json_fields [(''retCode'', JsonBool False), (''retMsg'', JsonString retMsg)]))"

definition payload_details :: "json \<Rightarrow> sAccountDetails" where
  "payload_details payload = \<lparr>sGivenName = payload_string payload ''givenName'', sLastName = payload_string payload ''lastName'',
     sEmail = payload_string payload ''mail'', sDescription = payload_string payload ''description'',
     sExtraData = payload_string payload ''extraData''\<rparr>"

definition payload_attribs :: "json \<Rightarrow> sAccountAttribs" where
  "payload_attribs payload = \<lparr>attr_enabled = JSON_ASBOOL payload ''isEnabled'' False,
     attr_confirmed = JSON_ASBOOL payload ''isConfirmed'' False, attr_superuser = JSON_ASBOOL payload ''isSuperuser'' False\<rparr>"

definition FullAuth_accountAdd :: rpc_method where
  "FullAuth_accountAdd E session payload m =
     (let accountName = payload_string payload ''accountName'' in
      if accountExist (manager_db m) accountName then refuse_with ''Account Already Exist'' m
      else if accountName = [] then refuse_with ''Account Name is Empty'' m
      else if \<not> accountNameExpr accountName then refuse_with ''Account name have invalid characters'' m
      else case session of
        None \<Rightarrow> (m, Inl Null_Dereference)
      | Some s \<Rightarrow>
          let newSecretData = createNewSecret (re_crypto E) (re_salt E) (payload_string payload ''secretTempPass'') FN_SSHA256 True 0 0;
              (d, ok) = accountAdd (re_now E) (re_token E) (manager_db m) accountName newSecretData (payload_details payload)
                (to_i64 (JSON_ASUINT64 payload ''expirationDate'' 0)) (payload_attribs payload) (authUser s)
          in (m\<lparr>manager_db := d\<rparr>, Inr (if ok then rpc_answer ''retCode'' (JsonBool ok)
               else json_fields [(''retCode'', JsonBool ok), (''retMsg'', JsonString ''Internal Error'')])))"

text \<open>The result of \<^verbatim>\<open>fromMap\<close> is not looked at.\<close>

definition FullAuth_accountChangeSecret :: rpc_method where
  "FullAuth_accountChangeSecret E session payload m =
     (case json_member payload ''secretData'' of
        Inl e \<Rightarrow> (m, Inl e)
      | Inr v \<Rightarrow> (case jsonToMap v of
          Inl e \<Rightarrow> (m, Inl e)
        | Inr mp \<Rightarrow>
            let (secretData, _) = Secret_fromMap Secret_new mp in
            rpc_write (\<lambda>d. accountChangeSecret d (payload_string payload ''accountName'') secretData
              (JSON_ASUINT payload ''passIndex'' 0)) m))"

definition FullAuth_accountRemove :: rpc_method where
  "FullAuth_accountRemove E session payload = rpc_write (\<lambda>d. accountRemove d (payload_string payload ''accountName''))"

definition FullAuth_accountDisable :: rpc_method where
  "FullAuth_accountDisable E session payload =
     rpc_write (\<lambda>d. accountDisable d (payload_string payload ''accountName'') (JSON_ASBOOL payload ''disabled'' False))"

text \<open>As written: it calls \<^verbatim>\<open>accountDisable\<close>.\<close>

definition FullAuth_accountConfirm :: rpc_method where
  "FullAuth_accountConfirm E session payload =
     rpc_write (\<lambda>d. accountDisable d (payload_string payload ''accountName'') (JSON_ASBOOL payload ''disabled'' False))"

definition FullAuth_accountChangeBasicInfo :: rpc_method where
  "FullAuth_accountChangeBasicInfo E session payload =
     (let u = payload_string payload ''accountName'' in
      rpc_write (\<lambda>d. db_and (db_and (db_and (db_and (db_and
        (accountChangeDescription d u (payload_string payload ''description''))
        (\<lambda>d. accountChangeGivenName d u (payload_string payload ''givenName'')))
        (\<lambda>d. accountChangeLastName d u (payload_string payload ''lastName'')))
        (\<lambda>d. accountChangeEmail d u (payload_string payload ''email'')))
        (\<lambda>d. accountChangeExtraData d u (payload_string payload ''extraData'')))
        (\<lambda>d. accountChangeAttribs d u (payload_attribs payload))))"

definition FullAuth_accountChangeDescription :: rpc_method where
  "FullAuth_accountChangeDescription E session payload =
     rpc_write (\<lambda>d. accountChangeDescription d (payload_string payload ''accountName'') (payload_string payload ''description''))"

definition FullAuth_accountChangeGivenName :: rpc_method where
  "FullAuth_accountChangeGivenName E session payload =
     rpc_write (\<lambda>d. accountChangeGivenName d (payload_string payload ''accountName'') (payload_string payload ''givenName''))"

definition FullAuth_accountChangeLastName :: rpc_method where
  "FullAuth_accountChangeLastName E session payload =
     rpc_write (\<lambda>d. accountChangeLastName d (payload_string payload ''accountName'') (payload_string payload ''lastName''))"

definition FullAuth_accountChangeEmail :: rpc_method where
  "FullAuth_accountChangeEmail E session payload =
     rpc_write (\<lambda>d. accountChangeEmail d (payload_string payload ''accountName'') (payload_string payload ''email''))"

definition FullAuth_accountChangeExtraData :: rpc_method where
  "FullAuth_accountChangeExtraData E session payload =
     rpc_write (\<lambda>d. accountChangeExtraData d (payload_string payload ''accountName'') (payload_string payload ''extraData''))"

definition FullAuth_accountChangeExpiration :: rpc_method where
  "FullAuth_accountChangeExpiration E session payload =
     rpc_write (\<lambda>d. accountChangeExpiration d (payload_string payload ''accountName'')
       (to_i64 (JSON_ASUINT64 payload ''expiration'' 0)))"

fun json_asStrings :: "json list \<Rightarrow> failure + string list" where
  "json_asStrings [] = Inr []"
| "json_asStrings (x # xs) =
     (case json_asString x of Inl e \<Rightarrow> Inl e | Inr s \<Rightarrow> map_sum id ((#) s) (json_asStrings xs))"

definition FullAuth_accountChangeGroupSet :: rpc_method where
  "FullAuth_accountChangeGroupSet E session payload m =
     (case json_member payload ''groups'' of
        Inl e \<Rightarrow> (m, Inl e)
      | Inr (JsonArray xs) \<Rightarrow> (case json_asStrings xs of
          Inl e \<Rightarrow> (m, Inl e)
        | Inr groups \<Rightarrow> rpc_write (\<lambda>d. accountChangeGroupSet d (payload_string payload ''accountName'')
            (sorted_list_of_set (set groups))) m)
      | Inr _ \<Rightarrow> rpc_refuse m)"

definition FullAuth_resetBadAttempts :: rpc_method where
  "FullAuth_resetBadAttempts E session payload m =
     (m\<lparr>manager_db := resetBadAttempts (manager_db m) (payload_string payload ''accountName'') (JSON_ASUINT payload ''passIndex'' 0)\<rparr>,
      Inr JsonNull)"

subsection \<open>Accounts: reads\<close>

definition FullAuth_accountExist :: rpc_method where
  "FullAuth_accountExist E session payload =
     rpc_value ''retCode'' (\<lambda>d. JsonBool (accountExist d (payload_string payload ''accountName'')))"

definition FullAuth_isAccountDisabled :: rpc_method where
  "FullAuth_isAccountDisabled E session payload =
     rpc_value ''disabled'' (\<lambda>d. JsonBool (isAccountDisabled d (payload_string payload ''accountName'')))"

definition FullAuth_isAccountConfirmed :: rpc_method where
  "FullAuth_isAccountConfirmed E session payload =
     rpc_value ''confirmed'' (\<lambda>d. JsonBool (isAccountConfirmed d (payload_string payload ''accountName'')))"

definition FullAuth_isAccountSuperUser :: rpc_method where
  "FullAuth_isAccountSuperUser E session payload =
     rpc_value ''superuser'' (\<lambda>d. JsonBool (isAccountSuperUser d (payload_string payload ''accountName'')))"

definition FullAuth_accountDescription :: rpc_method where
  "FullAuth_accountDescription E session payload =
     rpc_value ''description'' (\<lambda>d. JsonString (accountDescription d (payload_string payload ''accountName'')))"

definition FullAuth_accountGivenName :: rpc_method where
  "FullAuth_accountGivenName E session payload =
     rpc_value ''givenName'' (\<lambda>d. JsonString (accountGivenName d (payload_string payload ''accountName'')))"

definition FullAuth_accountLastName :: rpc_method where
  "FullAuth_accountLastName E session payload =
     rpc_value ''lastName'' (\<lambda>d. JsonString (accountLastName d (payload_string payload ''accountName'')))"

definition FullAuth_accountLastLogin :: rpc_method where
  "FullAuth_accountLastLogin E session payload =
     rpc_value ''lastLogin'' (\<lambda>d. JsonInt (accountLastLogin d (payload_string payload ''accountName'') mod 2 ^ 64))"

definition FullAuth_accountEmail :: rpc_method where
  "FullAuth_accountEmail E session payload =
     rpc_value ''email'' (\<lambda>d. JsonString (accountEmail d (payload_string payload ''accountName'')))"

definition FullAuth_accountExtraData :: rpc_method where
  "FullAuth_accountExtraData E session payload =
     rpc_value ''extraData'' (\<lambda>d. JsonString (accountExtraData d (payload_string payload ''accountName'')))"

definition FullAuth_accountExpirationDate :: rpc_method where
  "FullAuth_accountExpirationDate E session payload =
     rpc_value ''expirationDate'' (\<lambda>d. JsonInt (accountExpirationDate d (payload_string payload ''accountName'')))"

definition FullAuth_isAccountExpired :: rpc_method where
  "FullAuth_isAccountExpired E session payload = rpc_value ''isAccountExpired''
     (\<lambda>d. JsonBool (isAccountExpired manager_db_virtuals (re_now E) d (payload_string payload ''accountName'')))"

text \<open>As written: the key of the answer is that of the method before.\<close>

definition FullAuth_accountValidateAttribute :: rpc_method where
  "FullAuth_accountValidateAttribute E session payload = rpc_value ''isAccountExpired''
     (\<lambda>d. JsonBool (accountValidateAttribute manager_db_virtuals d (payload_string payload ''accountName'') (payload_attrib payload)))"

definition FullAuth_accountsList :: rpc_method where
  "FullAuth_accountsList E session payload = rpc_value ''accountsList'' (\<lambda>d. stringListToValue (accountsList d))"

definition FullAuth_accountGroups :: rpc_method where
  "FullAuth_accountGroups E session payload =
     rpc_value ''accountGroups'' (\<lambda>d. stringListToValue (accountGroups d (payload_string payload ''accountName'')))"

definition FullAuth_accountDirectAttribs :: rpc_method where
  "FullAuth_accountDirectAttribs E session payload = rpc_value ''accountDirectAttribs''
     (\<lambda>d. attribListToValue d (accountDirectAttribs d (payload_string payload ''accountName'')))"

definition FullAuth_accountUsableAttribs :: rpc_method where
  "FullAuth_accountUsableAttribs E session payload = rpc_value ''accountUsableAttribs''
     (\<lambda>d. attribListToValue d (accountUsableAttribs manager_db_virtuals d (payload_string payload ''accountName'')))"

definition FullAuth_accountsBasicInfoSearch :: rpc_method where
  "FullAuth_accountsBasicInfoSearch E session payload = rpc_read (\<lambda>m.
     map_sum Exception (\<lambda>xs. json_items (map (\<lambda>v. json_fields
        [(''lastName'', JsonString (sd_lastName v)), (''givenName'', JsonString (sd_givenName v)),
         (''email'', JsonString (sd_email v)), (''description'', JsonString (sd_description v)),
         (''accountName'', JsonString (sd_accountName v)), (''superuser'', JsonBool (sd_superuser v)),
         (''expired'', JsonBool (sd_expired v)), (''enabled'', JsonBool (sd_enabled v)),
         (''confirmed'', JsonBool (sd_confirmed v))]) xs))
       (accountsBasicInfoSearch (re_like E) (re_now E) (manager_db m) (payload_string payload ''searchWords'')
         (JSON_ASUINT64 payload ''limit'' 0) (JSON_ASUINT64 payload ''offset'' 0)))"

text \<open>The keys of \<^verbatim>\<open>getMap\<close> in their order.\<close>

definition publicData_keys :: "string list" where
  "publicData_keys = [''BAD_ATTEMPTS'', ''DESCRIPTION'', ''EXPIRATION'', ''FORCE_EXPIRATION'', ''LOCKED'', ''NUL'',
     ''PMODE'', ''REQUIRED_AT_LOGIN'', ''SALT'', ''VERSION'']"

definition FullAuth_getAccountAllSecretsPublicData :: rpc_method where
  "FullAuth_getAccountAllSecretsPublicData E session payload = rpc_read (\<lambda>m.
     Inr (json_fields (map (\<lambda>(i, p). (to_string i,
        json_fields (map (\<lambda>k. (k, JsonString (mget (PublicData_getMap p) k))) publicData_keys)))
       (getAccountAllSecretsPublicData manager_db_virtuals m (payload_string payload ''accountName'')))))"

text \<open>As written: the usable attributes are the direct ones.\<close>

definition application_info :: "auth_db \<Rightarrow> sApplicationAttrib set \<Rightarrow> string \<Rightarrow> json" where
  "application_info d directAttribs app =
     (let described = map (\<lambda>a. json_fields (named (aa_attribName a) (attribDescription d a)));
          direct = described (filter (\<lambda>a. aa_appName a = app) (sorted_list_of_set directAttribs));
          left = described (filter (\<lambda>a. a \<notin> directAttribs) (sorted_list_of_set (attribsList d app)))
      in json_fields (named app (applicationDescription d app) @ json_list_field ''directAttribs'' direct @
           json_list_field ''directAttribsLeft'' left @ json_list_field ''usableAttribs'' direct))"

definition account_info :: "auth_db \<Rightarrow> string \<Rightarrow> json" where
  "account_info d u =
     (let at = accountAttribs d u; groups = accountGroups d u; apps = accountApplications d u;
          group_item = (\<lambda>g. json_fields (named g (groupDescription d g)))
      in json_fields ([(''givenName'', JsonString (accountGivenName d u)), (''lastName'', JsonString (accountLastName d u)),
           (''description'', JsonString (accountDescription d u)), (''email'', JsonString (accountEmail d u)),
           (''extraData'', JsonString (accountExtraData d u)), (''enabled'', JsonBool (attr_enabled at)),
           (''confirmed'', JsonBool (attr_confirmed at)), (''superuser'', JsonBool (attr_superuser at))] @
         json_list_field ''groups'' (map group_item (sorted_list_of_set groups)) @
         json_list_field ''groupsLeft'' (map group_item (filter (\<lambda>g. g \<notin> groups) (sorted_list_of_set (groupsList d)))) @
         json_list_field ''applications'' (map (application_info d (accountDirectAttribs d u)) (sorted_list_of_set apps)) @
         json_list_field ''applicationsLeft'' (map (\<lambda>a. json_fields (named a (applicationDescription d a)))
           (filter (\<lambda>a. a \<notin> apps) (sorted_list_of_set (applicationList d))))))"

definition FullAuth_accountBasicInfo :: rpc_method where
  "FullAuth_accountBasicInfo E session payload =
     rpc_read (\<lambda>m. Inr (account_info (manager_db m) (payload_string payload ''accountName'')))"

subsection \<open>Applications\<close>

definition FullAuth_applicationAdd :: rpc_method where
  "FullAuth_applicationAdd E session payload m =
     (case session of
        None \<Rightarrow> (m, Inl Null_Dereference)
      | Some s \<Rightarrow> rpc_write (\<lambda>d. applicationAdd (re_dis E) (re_seed E) d (payload_string payload ''appName'')
          (payload_string payload ''description'') (payload_string payload ''appKey'') (authUser s)) m)"

definition FullAuth_applicationRemove :: "string \<Rightarrow> rpc_method" where
  "FullAuth_applicationRemove dirAppName E session payload =
     (if payload_string payload ''appName'' = dirAppName then rpc_refuse
      else rpc_write (\<lambda>d. applicationRemove d (payload_string payload ''appName'')))"

definition FullAuth_applicationExist :: rpc_method where
  "FullAuth_applicationExist E session payload =
     rpc_value ''retCode'' (\<lambda>d. JsonBool (applicationExist d (payload_string payload ''appName'')))"

definition FullAuth_applicationDescription :: rpc_method where
  "FullAuth_applicationDescription E session payload =
     rpc_value ''description'' (\<lambda>d. JsonString (applicationDescription d (payload_string payload ''appName'')))"

definition FullAuth_applicationBasicInfo :: rpc_method where
  "FullAuth_applicationBasicInfo E session payload = rpc_read (\<lambda>m.
     let d = manager_db m; app = payload_string payload ''appName'' in
     Inr (json_fields ((''description'', JsonString (applicationDescription d app)) #
       json_list_field ''attribs'' (map (\<lambda>a. json_fields (named (aa_attribName a) (attribDescription d a)))
         (sorted_list_of_set (attribsList d app))) @
       json_list_field ''accounts'' (map (\<lambda>u. json_fields (named u (accountDescription d u) @
           [(''givenName'', JsonString (accountGivenName d u)), (''lastName'', JsonString (accountLastName d u))]))
         (sorted_list_of_set (applicationAccounts d app))))))"

definition FullAuth_applicationChangeDescription :: rpc_method where
  "FullAuth_applicationChangeDescription E session payload =
     rpc_write (\<lambda>d. applicationChangeDescription d (payload_string payload ''appName'') (payload_string payload ''description''))"

definition FullAuth_applicationChangeKey :: rpc_method where
  "FullAuth_applicationChangeKey E session payload =
     rpc_write (\<lambda>d. applicationChangeKey (re_dis E) (re_seed E) d (payload_string payload ''appName'')
       (payload_string payload ''appKey''))"

definition FullAuth_applicationList :: rpc_method where
  "FullAuth_applicationList E session payload = rpc_value ''applications'' (\<lambda>d. stringListToValue (applicationList d))"

definition FullAuth_applicationValidateOwner :: rpc_method where
  "FullAuth_applicationValidateOwner E session payload = rpc_value ''retCode''
     (\<lambda>d. JsonBool (applicationValidateOwner d (payload_string payload ''appName'') (payload_string payload ''accountName'')))"

definition FullAuth_applicationValidateAccount :: rpc_method where
  "FullAuth_applicationValidateAccount E session payload = rpc_value ''retCode''
     (\<lambda>d. JsonBool (applicationValidateAccount d (payload_string payload ''appName'') (payload_string payload ''accountName'')))"

definition FullAuth_applicationOwners :: rpc_method where
  "FullAuth_applicationOwners E session payload =
     rpc_value ''owners'' (\<lambda>d. stringListToValue (applicationOwners d (payload_string payload ''applicationName'')))"

definition FullAuth_applicationAccounts :: rpc_method where
  "FullAuth_applicationAccounts E session payload =
     rpc_value ''accounts'' (\<lambda>d. stringListToValue (applicationAccounts d (payload_string payload ''applicationName'')))"

definition FullAuth_accountApplications :: rpc_method where
  "FullAuth_accountApplications E session payload =
     rpc_value ''applications'' (\<lambda>d. stringListToValue (accountApplications d (payload_string payload ''accountName'')))"

definition FullAuth_applicationAccountAdd :: rpc_method where
  "FullAuth_applicationAccountAdd E session payload =
     rpc_write (\<lambda>d. applicationAccountAdd d (payload_string payload ''appName'') (payload_string payload ''accountName''))"

definition FullAuth_applicationAccountRemove :: rpc_method where
  "FullAuth_applicationAccountRemove E session payload =
     rpc_write (\<lambda>d. applicationAccountRemove d (payload_string payload ''appName'') (payload_string payload ''accountName''))"

definition FullAuth_applicationOwnerAdd :: rpc_method where
  "FullAuth_applicationOwnerAdd E session payload =
     rpc_write (\<lambda>d. applicationOwnerAdd d (payload_string payload ''appName'') (payload_string payload ''accountName''))"

definition FullAuth_applicationOwnerRemove :: rpc_method where
  "FullAuth_applicationOwnerRemove E session payload =
     rpc_write (\<lambda>d. applicationOwnerRemove d (payload_string payload ''appName'') (payload_string payload ''accountName''))"

definition FullAuth_applicationsBasicInfoSearch :: rpc_method where
  "FullAuth_applicationsBasicInfoSearch E session payload = rpc_read (\<lambda>m.
     map_sum Exception (\<lambda>xs. json_items (map (\<lambda>(app, creator, descr). json_fields
        [(''appCreator'', JsonString creator), (''appName'', JsonString app), (''description'', JsonString descr)]) xs))
       (applicationsBasicInfoSearch (re_like E) (manager_db m) (payload_string payload ''searchWords'')
         (JSON_ASUINT64 payload ''limit'' 0) (JSON_ASUINT64 payload ''offset'' 0)))"

subsection \<open>Attributes\<close>

definition FullAuth_attribAdd :: "string \<Rightarrow> rpc_method" where
  "FullAuth_attribAdd dirAppName E session payload =
     (if payload_string payload ''appName'' = dirAppName then rpc_refuse
      else rpc_write (\<lambda>d. attribAdd d (payload_attrib payload) (payload_string payload ''description'')))"

definition FullAuth_attribRemove :: "string \<Rightarrow> rpc_method" where
  "FullAuth_attribRemove dirAppName E session payload =
     (if payload_string payload ''appName'' = dirAppName then rpc_refuse
      else rpc_write (\<lambda>d. attribRemove d (payload_attrib payload)))"

definition FullAuth_attribGroupAdd :: rpc_method where
  "FullAuth_attribGroupAdd E session payload =
     rpc_write (\<lambda>d. attribGroupAdd d (payload_attrib payload) (payload_string payload ''groupName''))"

definition FullAuth_attribGroupRemove :: rpc_method where
  "FullAuth_attribGroupRemove E session payload =
     rpc_write (\<lambda>d. attribGroupRemove d (payload_attrib payload) (payload_string payload ''groupName''))"

definition FullAuth_attribAccountAdd :: rpc_method where
  "FullAuth_attribAccountAdd E session payload =
     rpc_write (\<lambda>d. attribAccountAdd d (payload_attrib payload) (payload_string payload ''accountName''))"

definition FullAuth_attribAccountRemove :: rpc_method where
  "FullAuth_attribAccountRemove E session payload =
     rpc_write (\<lambda>d. attribAccountRemove d (payload_attrib payload) (payload_string payload ''accountName''))"

text \<open>As written: it calls \<^verbatim>\<open>attribAccountRemove\<close>, with the description as the account.\<close>

definition FullAuth_attribChangeDescription :: "string \<Rightarrow> rpc_method" where
  "FullAuth_attribChangeDescription dirAppName E session payload =
     (if payload_string payload ''appName'' = dirAppName then rpc_refuse
      else rpc_write (\<lambda>d. attribAccountRemove d (payload_attrib payload) (payload_string payload ''attribDescription'')))"

definition FullAuth_attribDescription :: rpc_method where
  "FullAuth_attribDescription E session payload =
     rpc_value ''description'' (\<lambda>d. JsonString (attribDescription d (payload_attrib payload)))"

definition FullAuth_attribsList :: rpc_method where
  "FullAuth_attribsList E session payload =
     rpc_value ''attribsList'' (\<lambda>d. attribListToValue d (attribsList d (payload_string payload ''appName'')))"

definition FullAuth_attribGroups :: rpc_method where
  "FullAuth_attribGroups E session payload =
     rpc_value ''attribGroups'' (\<lambda>d. stringListToValue (attribGroups d (payload_attrib payload)))"

definition FullAuth_attribAccounts :: rpc_method where
  "FullAuth_attribAccounts E session payload =
     rpc_value ''attribAccounts'' (\<lambda>d. stringListToValue (attribAccounts d (payload_attrib payload)))"

definition FullAuth_attribsBasicInfoSearch :: rpc_method where
  "FullAuth_attribsBasicInfoSearch E session payload = rpc_read (\<lambda>m.
     Inr (json_items (map (\<lambda>(n, descr). json_fields [(''attribName'', JsonString n), (''description'', JsonString descr)])
       (attribsBasicInfoSearch (manager_db m) (payload_string payload ''appName'') (payload_string payload ''searchWords'')
         (JSON_ASUINT64 payload ''limit'' 0) (JSON_ASUINT64 payload ''offset'' 0)))))"

definition FullAuth_attribsLeftListForGroup :: rpc_method where
  "FullAuth_attribsLeftListForGroup E session payload = rpc_value ''attribsLeft'' (\<lambda>d. attribListToValue d
     (iAttribsLeftListForGroup d (payload_string payload ''appName'') (payload_string payload ''groupName'')))"

subsection \<open>Groups\<close>

definition FullAuth_groupAdd :: rpc_method where
  "FullAuth_groupAdd E session payload =
     rpc_write (\<lambda>d. groupAdd d (payload_string payload ''groupName'') (payload_string payload ''groupDescription''))"

definition FullAuth_groupRemove :: rpc_method where
  "FullAuth_groupRemove E session payload = rpc_write (\<lambda>d. groupRemove d (payload_string payload ''groupName''))"

definition FullAuth_groupExist :: rpc_method where
  "FullAuth_groupExist E session payload =
     rpc_value ''retCode'' (\<lambda>d. JsonBool (groupExist d (payload_string payload ''groupName'')))"

definition FullAuth_groupAccountAdd :: rpc_method where
  "FullAuth_groupAccountAdd E session payload =
     rpc_write (\<lambda>d. groupAccountAdd d (payload_string payload ''groupName'') (payload_string payload ''accountName''))"

definition FullAuth_groupAccountRemove :: rpc_method where
  "FullAuth_groupAccountRemove E session payload =
     rpc_write (\<lambda>d. groupAccountRemove d (payload_string payload ''groupName'') (payload_string payload ''accountName''))"

definition FullAuth_groupChangeDescription :: rpc_method where
  "FullAuth_groupChangeDescription E session payload =
     rpc_write (\<lambda>d. groupChangeDescription d (payload_string payload ''groupName'') (payload_string payload ''groupDescription''))"

definition FullAuth_groupValidateAttribute :: rpc_method where
  "FullAuth_groupValidateAttribute E session payload = rpc_value ''retCode''
     (\<lambda>d. JsonBool (groupValidateAttribute d (payload_string payload ''groupName'') (payload_attrib payload)))"

definition FullAuth_groupDescription :: rpc_method where
  "FullAuth_groupDescription E session payload =
     rpc_value ''description'' (\<lambda>d. JsonString (groupDescription d (payload_string payload ''groupName'')))"

definition FullAuth_groupsList :: rpc_method where
  "FullAuth_groupsList E session payload = rpc_value ''groupsList'' (\<lambda>d. stringListToValue (groupsList d))"

definition FullAuth_groupAttribs :: rpc_method where
  "FullAuth_groupAttribs E session payload =
     rpc_value ''groupAttribs'' (\<lambda>d. attribListToValue d (groupAttribs d (payload_string payload ''groupName'')))"

definition FullAuth_groupAccounts :: rpc_method where
  "FullAuth_groupAccounts E session payload =
     rpc_value ''groupAccounts'' (\<lambda>d. stringListToValue (groupAccounts d (payload_string payload ''groupName'')))"

definition FullAuth_groupsBasicInfoSearch :: rpc_method where
  "FullAuth_groupsBasicInfoSearch E session payload = rpc_read (\<lambda>m.
     map_sum Exception (\<lambda>xs. json_items (map (\<lambda>(g, descr). json_fields
        [(''description'', JsonString descr), (''groupName'', JsonString g)]) xs))
       (groupsBasicInfoSearch (re_like E) (manager_db m) (payload_string payload ''searchWords'')
         (JSON_ASUINT64 payload ''limit'' 0) (JSON_ASUINT64 payload ''offset'' 0)))"

text \<open>The loop over the attributes of a group takes each application at its first attribute. As written, the
  list \<^verbatim>\<open>attribs\<close> repeats this attribute instead of naming the others.\<close>

fun first_of_application :: "string set \<Rightarrow> sApplicationAttrib list \<Rightarrow> sApplicationAttrib list" where
  "first_of_application done [] = []"
| "first_of_application done (a # as) =
     (if aa_appName a \<in> done then first_of_application done as
      else a # first_of_application (insert (aa_appName a) done) as)"

definition group_application_info :: "auth_db \<Rightarrow> sApplicationAttrib set \<Rightarrow> sApplicationAttrib \<Rightarrow> json" where
  "group_application_info d directAttribs a =
     (let described = (\<lambda>x. json_fields (named (aa_attribName x) (attribDescription d x))) in
      json_fields (named (aa_appName a) (applicationDescription d (aa_appName a)) @
        json_list_field ''attribs'' (map (\<lambda>_. described a)
          (filter (\<lambda>b. aa_appName a = aa_appName b) (sorted_list_of_set directAttribs))) @
        json_list_field ''attribsLeft'' (map described
          (filter (\<lambda>b. b \<notin> directAttribs) (sorted_list_of_set (attribsList d (aa_appName a)))))))"

definition FullAuth_groupBasicInfo :: rpc_method where
  "FullAuth_groupBasicInfo E session payload = rpc_read (\<lambda>m.
     let d = manager_db m; g = payload_string payload ''groupName''; directAttribs = groupAttribs d g in
     Inr (json_fields ((''description'', JsonString (groupDescription d g)) #
       json_list_field ''accounts'' (map (\<lambda>u. json_fields (named u (accountDescription d u) @
           [(''lastName'', JsonString (accountLastName d u)), (''givenName'', JsonString (accountGivenName d u))]))
         (sorted_list_of_set (groupAccounts d g))) @
       json_list_field ''applications'' (map (group_application_info d directAttribs)
         (first_of_application {} (sorted_list_of_set directAttribs))) @
       json_list_field ''leftApplicationsList'' (map (\<lambda>a. json_fields (named a (applicationDescription d a)))
         (filter (\<lambda>a. iAttribsLeftListForGroup d a g \<noteq> {}) (sorted_list_of_set (applicationList d)))))))"

subsection \<open>Registration\<close>

text \<open>The calls of \<^verbatim>\<open>addRPCMethod\<close>: name, required attribute, method.\<close>

definition FullAuth_account_methods :: "string \<Rightarrow> (string \<times> string \<times> rpc_method) list" where
  "FullAuth_account_methods dirAppName = [
     (''accountAdd'', ''DIRWRITE'', FullAuth_accountAdd),
     (''accountExist'', ''DIRREAD'', FullAuth_accountExist),
     (''accountChangeSecret'', ''DIRWRITE'', FullAuth_accountChangeSecret),
     (''accountRemove'', ''DIRWRITE'', FullAuth_accountRemove),
     (''accountDisable'', ''DIRWRITE'', FullAuth_accountDisable),
     (''accountConfirm'', ''DIRWRITE'', FullAuth_accountConfirm),
     (''accountChangeBasicInfo'', ''DIRWRITE'', FullAuth_accountChangeBasicInfo),
     (''accountChangeDescription'', ''DIRWRITE'', FullAuth_accountChangeDescription),
     (''accountChangeGivenName'', ''DIRWRITE'', FullAuth_accountChangeGivenName),
     (''accountChangeLastName'', ''DIRWRITE'', FullAuth_accountChangeLastName),
     (''accountChangeEmail'', ''DIRWRITE'', FullAuth_accountChangeEmail),
     (''accountChangeExtraData'', ''DIRWRITE'', FullAuth_accountChangeExtraData),
     (''accountChangeExpiration'', ''DIRWRITE'', FullAuth_accountChangeExpiration),
     (''accountChangeGroupSet'', ''DIRWRITE'', FullAuth_accountChangeGroupSet),
     (''isAccountDisabled'', ''DIRWRITE'', FullAuth_isAccountDisabled),
     (''isAccountConfirmed'', ''DIRWRITE'', FullAuth_isAccountConfirmed),
     (''isAccountSuperUser'', ''DIRWRITE'', FullAuth_isAccountSuperUser),
     (''accountGivenName'', ''DIRREAD'', FullAuth_accountGivenName),
     (''accountLastName'', ''DIRREAD'', FullAuth_accountLastName),
     (''accountBasicInfo'', ''DIRREAD'', FullAuth_accountBasicInfo),
     (''accountDescription'', ''DIRREAD'', FullAuth_accountDescription),
     (''accountEmail'', ''DIRREAD'', FullAuth_accountEmail),
     (''accountExtraData'', ''DIRREAD'', FullAuth_accountExtraData),
     (''isAccountExpired'', ''DIRREAD'', FullAuth_isAccountExpired),
     (''accountValidateAttribute'', ''DIRREAD'', FullAuth_accountValidateAttribute),
     (''accountsList'', ''DIRREAD'', FullAuth_accountsList),
     (''accountsBasicInfoSearch'', ''DIRREAD'', FullAuth_accountsBasicInfoSearch),
     (''accountGroups'', ''DIRREAD'', FullAuth_accountGroups),
     (''accountDirectAttribs'', ''DIRREAD'', FullAuth_accountDirectAttribs),
     (''accountUsableAttribs'', ''DIRREAD'', FullAuth_accountUsableAttribs),
     (''accountExpirationDate'', ''DIRREAD'', FullAuth_accountExpirationDate),
     (''accountLastLogin'', ''DIRREAD'', FullAuth_accountLastLogin),
     (''resetBadAttempts'', ''DIRWRITE'', FullAuth_resetBadAttempts),
     (''getAccountAllSecretsPublicData'', ''DIRREAD'', FullAuth_getAccountAllSecretsPublicData)]"

definition FullAuth_attrib_methods :: "string \<Rightarrow> (string \<times> string \<times> rpc_method) list" where
  "FullAuth_attrib_methods dirAppName = [
     (''attribAdd'', ''DIRWRITE'', FullAuth_attribAdd dirAppName),
     (''attribRemove'', ''DIRWRITE'', FullAuth_attribRemove dirAppName),
     (''attribGroupAdd'', ''DIRWRITE'', FullAuth_attribGroupAdd),
     (''attribGroupRemove'', ''DIRWRITE'', FullAuth_attribGroupRemove),
     (''attribAccountAdd'', ''DIRWRITE'', FullAuth_attribAccountAdd),
     (''attribAccountRemove'', ''DIRWRITE'', FullAuth_attribAccountRemove),
     (''attribChangeDescription'', ''DIRWRITE'', FullAuth_attribChangeDescription dirAppName),
     (''attribDescription'', ''DIRREAD'', FullAuth_attribDescription),
     (''attribsList'', ''DIRREAD'', FullAuth_attribsList),
     (''attribGroups'', ''DIRREAD'', FullAuth_attribGroups),
     (''attribAccounts'', ''DIRREAD'', FullAuth_attribAccounts),
     (''attribsBasicInfoSearch'', ''DIRREAD'', FullAuth_attribsBasicInfoSearch),
     (''attribsLeftListForGroup'', ''DIRREAD'', FullAuth_attribsLeftListForGroup)]"

definition FullAuth_application_methods :: "string \<Rightarrow> (string \<times> string \<times> rpc_method) list" where
  "FullAuth_application_methods dirAppName = [
     (''applicationBasicInfo'', ''DIRREAD'', FullAuth_applicationBasicInfo),
     (''applicationAdd'', ''DIRWRITE'', FullAuth_applicationAdd),
     (''applicationRemove'', ''DIRWRITE'', FullAuth_applicationRemove dirAppName),
     (''applicationExist'', ''DIRREAD'', FullAuth_applicationExist),
     (''applicationDescription'', ''DIRREAD'', FullAuth_applicationDescription),
     (''applicationChangeDescription'', ''DIRWRITE'', FullAuth_applicationChangeDescription),
     (''applicationChangeKey'', ''DIRWRITE'', FullAuth_applicationChangeKey),
     (''applicationList'', ''DIRREAD'', FullAuth_applicationList),
     (''applicationValidateOwner'', ''DIRREAD'', FullAuth_applicationValidateOwner),
     (''applicationValidateAccount'', ''DIRREAD'', FullAuth_applicationValidateAccount),
     (''applicationOwners'', ''DIRREAD'', FullAuth_applicationOwners),
     (''applicationAccounts'', ''DIRREAD'', FullAuth_applicationAccounts),
     (''accountApplications'', ''DIRREAD'', FullAuth_accountApplications),
     (''applicationAccountAdd'', ''DIRWRITE'', FullAuth_applicationAccountAdd),
     (''applicationAccountRemove'', ''DIRWRITE'', FullAuth_applicationAccountRemove),
     (''applicationOwnerAdd'', ''DIRWRITE'', FullAuth_applicationOwnerAdd),
     (''applicationOwnerRemove'', ''DIRWRITE'', FullAuth_applicationOwnerRemove),
     (''applicationsBasicInfoSearch'', ''DIRREAD'', FullAuth_applicationsBasicInfoSearch)]"

definition FullAuth_group_methods :: "string \<Rightarrow> (string \<times> string \<times> rpc_method) list" where
  "FullAuth_group_methods dirAppName = [
     (''groupAdd'', ''DIRWRITE'', FullAuth_groupAdd),
     (''groupRemove'', ''DIRWRITE'', FullAuth_groupRemove),
     (''groupExist'', ''DIRREAD'', FullAuth_groupExist),
     (''groupAccountAdd'', ''DIRWRITE'', FullAuth_groupAccountAdd),
     (''groupAccountRemove'', ''DIRWRITE'', FullAuth_groupAccountRemove),
     (''groupChangeDescription'', ''DIRWRITE'', FullAuth_groupChangeDescription),
     (''groupValidateAttribute'', ''DIRREAD'', FullAuth_groupValidateAttribute),
     (''groupDescription'', ''DIRREAD'', FullAuth_groupDescription),
     (''groupsList'', ''DIRREAD'', FullAuth_groupsList),
     (''groupAttribs'', ''DIRREAD'', FullAuth_groupAttribs),
     (''groupAccounts'', ''DIRREAD'', FullAuth_groupAccounts),
     (''groupsBasicInfoSearch'', ''DIRREAD'', FullAuth_groupsBasicInfoSearch),
     (''groupBasicInfo'', ''DIRREAD'', FullAuth_groupBasicInfo)]"

definition FullAuth_methods :: "string \<Rightarrow> (string \<times> string \<times> rpc_method) list" where
  "FullAuth_methods dirAppName = FullAuth_account_methods dirAppName @ FullAuth_attrib_methods dirAppName @
     FullAuth_application_methods dirAppName @ FullAuth_group_methods dirAppName"

definition AddFullAuthMethods :: "methodsManager \<Rightarrow> string \<Rightarrow> methodsManager" where
  "AddFullAuthMethods methods dirAppName =
     foldl (\<lambda>mm (n, a, f). fst (addRPCMethod mm n [a] f True)) methods (FullAuth_methods dirAppName)"

end
