(* ===== verification/Full_Auth_Facts.thy ===== *)
theory Full_Auth_Facts
  imports Full_Auth
begin

text \<open>
  What the methods of \<^verbatim>\<open>Full_Auth\<close> do to the tables. Every method is a run of operations of the manager, so that
  what every operation keeps is kept by every sequence of calls; the methods that need the attribute \<^verbatim>\<open>DIRREAD\<close>
  only change nothing.
\<close>

named_theorems method_defs \<open>the definitions of the methods\<close>
named_theorems via \<open>methods and operations that are runs of the manager's operations\<close>

subsection \<open>Operations and methods as runs\<close>

definition db_via :: "(auth_db \<Rightarrow> auth_db \<times> bool) \<Rightarrow> bool" where
  "db_via f \<longleftrightarrow> (\<forall>d. \<exists>ops. fst (f d) = auth_run ops d)"

definition call_via :: "(auth_db manager \<Rightarrow> auth_db manager \<times> (failure + json)) \<Rightarrow> bool" where
  "call_via c \<longleftrightarrow> (\<forall>m. \<exists>ops. fst (c m) = m\<lparr>manager_db := auth_run ops (manager_db m)\<rparr>)"

lemma auth_run_Nil [simp]: "auth_run [] d = d"
  by (simp add: auth_run_def)

lemma auth_run_append: "auth_run (xs @ ys) d = auth_run ys (auth_run xs d)"
  by (simp add: auth_run_def)

lemma auth_run_one: "auth_run [op] d = auth_exec op d"
  by (simp add: auth_run_def)

lemma via_one: "(\<And>d. auth_exec op d = fst (f d)) \<Longrightarrow> db_via f"
  unfolding db_via_def by (metis auth_run_one)

lemma via_group:
  "(\<And>d. account_exec aop d = fst (f d)) \<Longrightarrow> db_via f"
  "(\<And>d. profile_exec pop d = fst (f d)) \<Longrightarrow> db_via f"
  "(\<And>d. group_exec gop d = fst (f d)) \<Longrightarrow> db_via f"
  "(\<And>d. application_exec ap d = fst (f d)) \<Longrightarrow> db_via f"
  "(\<And>d. attrib_exec at d = fst (f d)) \<Longrightarrow> db_via f"
  by (rule via_one [of "AccountOp aop"], simp) (rule via_one [of "ProfileOp pop"], simp, rule via_one [of "GroupOp gop"], simp,
      rule via_one [of "ApplicationOp ap"], simp, rule via_one [of "AttribOp at"], simp)

lemma via_account [via]:
  "db_via (\<lambda>d. accountAdd now tok d u s a e b c)"
  "db_via (\<lambda>d. accountRemove d u)"
  "db_via (\<lambda>d. accountDisable d u x)"
  "db_via (\<lambda>d. accountConfirm d u t)"
  "db_via (\<lambda>d. accountChangeSecret d u s i)"
  "db_via (\<lambda>d. accountChangeGroupSet d u gs)"
  "db_via (\<lambda>d. accountChangeAttribs d u b)"
  by (rule via_group(1), rule account_exec.simps)+

lemma via_profile [via]:
  "db_via (\<lambda>d. accountChangeDescription d u v)"
  "db_via (\<lambda>d. accountChangeGivenName d u v)"
  "db_via (\<lambda>d. accountChangeLastName d u v)"
  "db_via (\<lambda>d. accountChangeEmail d u v)"
  "db_via (\<lambda>d. accountChangeExtraData d u v)"
  "db_via (\<lambda>d. accountChangeExpiration d u t)"
  by (rule via_group(2), rule profile_exec.simps)+

lemma via_groups [via]:
  "db_via (\<lambda>d. groupAdd d g v)"
  "db_via (\<lambda>d. groupRemove d g)"
  "db_via (\<lambda>d. groupAccountAdd d g u)"
  "db_via (\<lambda>d. groupAccountRemove d g u)"
  "db_via (\<lambda>d. groupChangeDescription d g v)"
  by (rule via_group(3), rule group_exec.simps)+

lemma via_application [via]:
  "db_via (\<lambda>d. applicationAdd dis seed d p v k u)"
  "db_via (\<lambda>d. applicationRemove d p)"
  "db_via (\<lambda>d. applicationChangeKey dis seed d p k)"
  "db_via (\<lambda>d. applicationChangeDescription d p v)"
  "db_via (\<lambda>d. applicationAccountAdd d p u)"
  "db_via (\<lambda>d. applicationAccountRemove d p u)"
  "db_via (\<lambda>d. applicationOwnerAdd d p u)"
  "db_via (\<lambda>d. applicationOwnerRemove d p u)"
  by (rule via_group(4), rule application_exec.simps)+

lemma via_attrib [via]:
  "db_via (\<lambda>d. attribAdd d x v)"
  "db_via (\<lambda>d. attribRemove d x)"
  "db_via (\<lambda>d. attribGroupAdd d x g)"
  "db_via (\<lambda>d. attribGroupRemove d x g)"
  "db_via (\<lambda>d. attribAccountAdd d x u)"
  "db_via (\<lambda>d. attribAccountRemove d x u)"
  by (rule via_group(5), rule attrib_exec.simps)+

lemma via_and [via]:
  assumes "db_via f" "db_via g"
  shows "db_via (\<lambda>d. db_and (f d) g)"
  unfolding db_via_def
proof
  fix d
  obtain ops where "fst (f d) = auth_run ops d" using assms(1) by (auto simp: db_via_def)
  moreover obtain ops' where "fst (g (fst (f d))) = auth_run ops' (fst (f d))" using assms(2) by (auto simp: db_via_def)
  ultimately show "\<exists>ops. fst (db_and (f d) g) = auth_run ops d"
    by (cases "snd (f d)") (auto simp: db_and_def intro: exI [of _ "ops @ ops'"] simp: auth_run_append)
qed

lemma via_nothing: "\<exists>ops. m = m\<lparr>manager_db := auth_run ops (manager_db m)\<rparr>"
  by (rule exI [of _ "[]"]) simp

lemma via_read [via]: "call_via (rpc_read f)" "call_via (rpc_value k g)" "call_via rpc_refuse"
  by (auto simp: call_via_def rpc_read_def rpc_value_def rpc_refuse_def via_nothing)

lemma via_write [via]: "db_via f \<Longrightarrow> call_via (rpc_write f)"
  by (auto simp: call_via_def db_via_def rpc_write_def Let_def split: prod.splits) (metis fst_conv)

text \<open>The methods whose definition is one of the shapes, and the others.\<close>

lemmas plain_methods [method_defs] =
  FullAuth_accountRemove_def FullAuth_accountDisable_def FullAuth_accountConfirm_def
  FullAuth_accountChangeBasicInfo_def FullAuth_accountChangeDescription_def FullAuth_accountChangeGivenName_def
  FullAuth_accountChangeLastName_def FullAuth_accountChangeEmail_def FullAuth_accountChangeExtraData_def
  FullAuth_accountChangeExpiration_def FullAuth_accountExist_def FullAuth_isAccountDisabled_def
  FullAuth_isAccountConfirmed_def FullAuth_isAccountSuperUser_def FullAuth_accountDescription_def
  FullAuth_accountGivenName_def FullAuth_accountLastName_def FullAuth_accountLastLogin_def
  FullAuth_accountEmail_def FullAuth_accountExtraData_def FullAuth_accountExpirationDate_def
  FullAuth_isAccountExpired_def FullAuth_accountValidateAttribute_def FullAuth_accountsList_def
  FullAuth_accountGroups_def FullAuth_accountDirectAttribs_def FullAuth_accountUsableAttribs_def
  FullAuth_accountsBasicInfoSearch_def FullAuth_getAccountAllSecretsPublicData_def
  FullAuth_accountBasicInfo_def FullAuth_applicationRemove_def FullAuth_applicationExist_def
  FullAuth_applicationDescription_def FullAuth_applicationBasicInfo_def
  FullAuth_applicationChangeDescription_def FullAuth_applicationChangeKey_def FullAuth_applicationList_def
  FullAuth_applicationValidateOwner_def FullAuth_applicationValidateAccount_def FullAuth_applicationOwners_def
  FullAuth_applicationAccounts_def FullAuth_accountApplications_def FullAuth_applicationAccountAdd_def
  FullAuth_applicationAccountRemove_def FullAuth_applicationOwnerAdd_def FullAuth_applicationOwnerRemove_def
  FullAuth_applicationsBasicInfoSearch_def FullAuth_attribAdd_def FullAuth_attribRemove_def
  FullAuth_attribGroupAdd_def FullAuth_attribGroupRemove_def FullAuth_attribAccountAdd_def
  FullAuth_attribAccountRemove_def FullAuth_attribChangeDescription_def FullAuth_attribDescription_def
  FullAuth_attribsList_def FullAuth_attribGroups_def FullAuth_attribAccounts_def
  FullAuth_attribsBasicInfoSearch_def FullAuth_attribsLeftListForGroup_def FullAuth_groupAdd_def
  FullAuth_groupRemove_def FullAuth_groupExist_def FullAuth_groupAccountAdd_def FullAuth_groupAccountRemove_def
  FullAuth_groupChangeDescription_def FullAuth_groupValidateAttribute_def FullAuth_groupDescription_def
  FullAuth_groupsList_def FullAuth_groupAttribs_def FullAuth_groupAccounts_def
  FullAuth_groupsBasicInfoSearch_def FullAuth_groupBasicInfo_def

lemma via_plain [via]:
  "call_via (FullAuth_accountRemove E s p)"
  "call_via (FullAuth_accountDisable E s p)"
  "call_via (FullAuth_accountConfirm E s p)"
  "call_via (FullAuth_accountChangeBasicInfo E s p)"
  "call_via (FullAuth_accountChangeDescription E s p)"
  "call_via (FullAuth_accountChangeGivenName E s p)"
  "call_via (FullAuth_accountChangeLastName E s p)"
  "call_via (FullAuth_accountChangeEmail E s p)"
  "call_via (FullAuth_accountChangeExtraData E s p)"
  "call_via (FullAuth_accountChangeExpiration E s p)"
  "call_via (FullAuth_accountExist E s p)"
  "call_via (FullAuth_isAccountDisabled E s p)"
  "call_via (FullAuth_isAccountConfirmed E s p)"
  "call_via (FullAuth_isAccountSuperUser E s p)"
  "call_via (FullAuth_accountDescription E s p)"
  "call_via (FullAuth_accountGivenName E s p)"
  "call_via (FullAuth_accountLastName E s p)"
  "call_via (FullAuth_accountLastLogin E s p)"
  "call_via (FullAuth_accountEmail E s p)"
  "call_via (FullAuth_accountExtraData E s p)"
  "call_via (FullAuth_accountExpirationDate E s p)"
  "call_via (FullAuth_isAccountExpired E s p)"
  "call_via (FullAuth_accountValidateAttribute E s p)"
  "call_via (FullAuth_accountsList E s p)"
  "call_via (FullAuth_accountGroups E s p)"
  "call_via (FullAuth_accountDirectAttribs E s p)"
  "call_via (FullAuth_accountUsableAttribs E s p)"
  "call_via (FullAuth_accountsBasicInfoSearch E s p)"
  "call_via (FullAuth_getAccountAllSecretsPublicData E s p)"
  "call_via (FullAuth_accountBasicInfo E s p)"
  "call_via (FullAuth_applicationRemove dir E s p)"
  "call_via (FullAuth_applicationExist E s p)"
  "call_via (FullAuth_applicationDescription E s p)"
  "call_via (FullAuth_applicationBasicInfo E s p)"
  "call_via (FullAuth_applicationChangeDescription E s p)"
  "call_via (FullAuth_applicationChangeKey E s p)"
  "call_via (FullAuth_applicationList E s p)"
  "call_via (FullAuth_applicationValidateOwner E s p)"
  "call_via (FullAuth_applicationValidateAccount E s p)"
  "call_via (FullAuth_applicationOwners E s p)"
  "call_via (FullAuth_applicationAccounts E s p)"
  "call_via (FullAuth_accountApplications E s p)"
  "call_via (FullAuth_applicationAccountAdd E s p)"
  "call_via (FullAuth_applicationAccountRemove E s p)"
  "call_via (FullAuth_applicationOwnerAdd E s p)"
  "call_via (FullAuth_applicationOwnerRemove E s p)"
  "call_via (FullAuth_applicationsBasicInfoSearch E s p)"
  "call_via (FullAuth_attribAdd dir E s p)"
  "call_via (FullAuth_attribRemove dir E s p)"
  "call_via (FullAuth_attribGroupAdd E s p)"
  "call_via (FullAuth_attribGroupRemove E s p)"
  "call_via (FullAuth_attribAccountAdd E s p)"
  "call_via (FullAuth_attribAccountRemove E s p)"
  "call_via (FullAuth_attribChangeDescription dir E s p)"
  "call_via (FullAuth_attribDescription E s p)"
  "call_via (FullAuth_attribsList E s p)"
  "call_via (FullAuth_attribGroups E s p)"
  "call_via (FullAuth_attribAccounts E s p)"
  "call_via (FullAuth_attribsBasicInfoSearch E s p)"
  "call_via (FullAuth_attribsLeftListForGroup E s p)"
  "call_via (FullAuth_groupAdd E s p)"
  "call_via (FullAuth_groupRemove E s p)"
  "call_via (FullAuth_groupExist E s p)"
  "call_via (FullAuth_groupAccountAdd E s p)"
  "call_via (FullAuth_groupAccountRemove E s p)"
  "call_via (FullAuth_groupChangeDescription E s p)"
  "call_via (FullAuth_groupValidateAttribute E s p)"
  "call_via (FullAuth_groupDescription E s p)"
  "call_via (FullAuth_groupsList E s p)"
  "call_via (FullAuth_groupAttribs E s p)"
  "call_via (FullAuth_groupAccounts E s p)"
  "call_via (FullAuth_groupsBasicInfoSearch E s p)"
  "call_via (FullAuth_groupBasicInfo E s p)"
  by (simp_all add: plain_methods via Let_def)

lemma accountAdd_run: "\<exists>ops. fst (accountAdd now tok d u s a e b c) = auth_run ops d"
  using via_account(1) unfolding db_via_def by blast

lemma via_accountAdd [via]: "call_via (FullAuth_accountAdd E s p)"
proof -
  have "\<exists>ops. fst (FullAuth_accountAdd E s p m) = m\<lparr>manager_db := auth_run ops (manager_db m)\<rparr>" for m
  proof (cases "fst (FullAuth_accountAdd E s p m) = m")
    case True
    then show ?thesis using via_nothing [of m] by simp
  next
    case False
    then have "\<exists>v. fst (FullAuth_accountAdd E s p m) = m\<lparr>manager_db := fst (accountAdd (re_now E) (re_token E) (manager_db m)
        (payload_string p ''accountName'')
        (createNewSecret (re_crypto E) (re_salt E) (payload_string p ''secretTempPass'') FN_SSHA256 True 0 0) (payload_details p)
        (to_i64 (JSON_ASUINT64 p ''expirationDate'' 0)) (payload_attribs p) v)\<rparr>"
      by (auto simp: FullAuth_accountAdd_def refuse_with_def Let_def case_prod_beta split: option.splits if_splits)
    then show ?thesis using accountAdd_run by metis
  qed
  then show ?thesis by (simp add: call_via_def)
qed

lemma via_accountChangeSecret [via]: "call_via (FullAuth_accountChangeSecret E s p)"
  using via_write [OF via_account(5)]
  by (auto simp: call_via_def FullAuth_accountChangeSecret_def via_nothing split: sum.splits prod.splits)

lemma via_accountChangeGroupSet [via]: "call_via (FullAuth_accountChangeGroupSet E s p)"
  using via_write [OF via_account(6)] via_read(3)
  by (auto simp: call_via_def FullAuth_accountChangeGroupSet_def via_nothing split: sum.splits json.splits)

lemma via_applicationAdd [via]: "call_via (FullAuth_applicationAdd E s p)"
  using via_write [OF via_application(1)]
  by (auto simp: call_via_def FullAuth_applicationAdd_def via_nothing split: option.splits)

lemma via_resetBadAttempts [via]: "call_via (FullAuth_resetBadAttempts E s p)"
proof -
  have "resetBadAttempts d u i = auth_run [AccountOp (ResetBadAttempts u i)] d" for d u i
    by (simp add: auth_run_one)
  then show ?thesis by (auto simp: call_via_def FullAuth_resetBadAttempts_def)
qed

subsection \<open>The table of methods\<close>

lemmas method_tables = FullAuth_methods_def FullAuth_account_methods_def FullAuth_attrib_methods_def
  FullAuth_application_methods_def FullAuth_group_methods_def

lemma table_via: "(n, a, f) \<in> set (FullAuth_methods dir) \<Longrightarrow> call_via (f E s p)"
  by (auto simp: method_tables via)

lemma table_attribs: "(n, a, f) \<in> set (FullAuth_methods dir) \<Longrightarrow> a = ''DIRREAD'' \<or> a = ''DIRWRITE''"
  by (auto simp: method_tables)

lemma read_only [simp]: "fst (rpc_read f m) = m" "fst (rpc_value k g m) = m"
  by (simp_all add: rpc_read_def rpc_value_def)

lemma table_reads:
  assumes "(n, ''DIRREAD'', f) \<in> set (FullAuth_methods dir)"
  shows "fst (f E s p m) = m"
proof -
  have "\<forall>(n, a, f)\<in>set (FullAuth_methods dir). a = ''DIRREAD'' \<longrightarrow> (\<forall>E s p m. fst (f E s p m) = m)"
    by (simp add: method_tables plain_methods)
  then show ?thesis using assms by fastforce
qed

text \<open>What a methods manager knows after a list of registrations: the first one of a name counts.\<close>

definition registers :: "string \<Rightarrow> methodsManager \<Rightarrow> (string \<times> string \<times> rpc_method) list \<Rightarrow> bool" where
  "registers app mm xs \<longleftrightarrow> std_map_ok (rpcMethods mm) \<and> std_map_ok (methodRequireFullAuth mm) \<and> mm_appName mm = app \<and>
     (\<forall>n. map_of (rpcMethods mm) n = map_option snd (map_of xs n)) \<and>
     (\<forall>n. map_of (methodRequireFullAuth mm) n = map_option (\<lambda>_. True) (map_of xs n)) \<and>
     (\<forall>n. getMethodAttribs (methodsAttribs mm) n = (sApplicationAttrib app \<circ> fst) ` set_option (map_of xs n)) \<and>
     requireAllMethodsToBeAuthenticated (methodsAttribs mm)"

lemma registers_new: "registers app (MethodsManager_new app) []"
  by (simp add: registers_def MethodsManager_new_def MethodsAttributes_Map_new_def getMethodAttribs_def)

lemma registers_add:
  assumes "registers app mm xs"
  shows "registers app (fst (addRPCMethod mm n [a] f True)) (xs @ [(n, a, f)])"
proof (cases "map_of xs n")
  case None
  then show ?thesis using assms
    by (auto simp: registers_def addRPCMethod_def addMethodAttributes_def getMethodAttribs_def getAppAttribs_def map_add_def
        image_Un split: option.splits)
next
  case (Some v)
  then show ?thesis using assms
    by (auto simp: registers_def addRPCMethod_def map_add_def split: option.splits)
qed

lemma registers_fold: "registers app mm xs \<Longrightarrow>
    registers app (foldl (\<lambda>mm (n, a, f). fst (addRPCMethod mm n [a] f True)) mm ys) (xs @ ys)"
proof (induction ys arbitrary: mm xs)
  case (Cons y ys)
  obtain n a f where y: "y = (n, a, f)" by (cases y)
  show ?case using Cons.IH [OF registers_add [OF Cons.prems, of n a f]] by (simp add: y)
qed simp

lemma registers_no_indexes:
  "attribPassIndexes (methodsAttribs (foldl (\<lambda>mm (n, a, f). fst (addRPCMethod mm n [a] f True)) mm ys)) =
    attribPassIndexes (methodsAttribs mm)"
  by (induction ys arbitrary: mm) (auto simp: addRPCMethod_def addMethodAttributes_def)

text \<open>A methods manager with these methods only.\<close>

definition full_auth_manager :: "string \<Rightarrow> string \<Rightarrow> methodsManager" where
  "full_auth_manager app dirAppName = AddFullAuthMethods (MethodsManager_new app) dirAppName"

lemma full_auth_registers: "registers app (full_auth_manager app dir) (FullAuth_methods dir)"
  using registers_fold [OF registers_new] by (simp add: full_auth_manager_def AddFullAuthMethods_def)

lemma known_method:
  assumes "map_of (rpcMethods (full_auth_manager app dir)) n = Some f"
  shows "\<exists>a. (n, a, f) \<in> set (FullAuth_methods dir) \<and> snd (getMethodRequireFullAuth (full_auth_manager app dir) n) \<and>
    getMethodAttribs (methodsAttribs (full_auth_manager app dir)) n = {sApplicationAttrib app a} \<and>
    0 \<in> getMethodPassIndexes (methodsAttribs (full_auth_manager app dir)) n"
proof -
  let ?mm = "full_auth_manager app dir"
  note R = full_auth_registers [of app dir, unfolded registers_def]
  obtain a where a: "map_of (FullAuth_methods dir) n = Some (a, f)" using assms R by auto
  then have "map_of (methodRequireFullAuth ?mm) n = Some True"
    "getMethodAttribs (methodsAttribs ?mm) n = {sApplicationAttrib app a}" using R by simp_all
  then show ?thesis using map_of_SomeD [OF a] R require_full_known [of ?mm n True]
    by (auto simp: getMethodPassIndexes_def Let_def)
qed

subsection \<open>Calls\<close>

lemma run_manager:
  assumes "domains_ok D" "runRPCMethod E mm D dn s n p = (D', r)" "D' \<noteq> D"
  shows "\<exists>f b. map_of (rpcMethods mm) n = Some f \<and> domain_address D dn = Some b \<and> domains_ok D' \<and>
    domain_address D' = domain_address D \<and>
    domainManagers D' = (domainManagers D)(b := fst (f E s p (domainManagers D b)))"
proof -
  obtain f where f: "map_of (rpcMethods mm) n = Some f"
    using assms by (auto simp: runRPCMethod_def split: option.splits)
  obtain D1 ob where D1: "openDomain D dn = (D1, ob)" by fastforce
  have "ob \<noteq> None" using assms D1 f openDomain_None [of D dn D1] by (auto simp: runRPCMethod_def split: option.splits)
  then obtain b where b: "openDomain D dn = (D1, Some b)" using D1 by auto
  note opened = openDomain_Some [OF assms(1) b]
  obtain m ans where m: "f E s p (domainManagers D b) = (m, ans)" by fastforce
  let ?D2 = "set_manager b m D1"
  have D2: "domains_ok ?D2" "domain_address ?D2 = domain_address D" "domainManagers ?D2 = (domainManagers D)(b := m)"
    using opened by (simp_all, simp_all add: set_manager_def)
  have "D' = ?D2 \<or> (\<exists>ok. releaseDomain ?D2 dn = Inr (D', ok))"
    using assms(2) f b m opened(3) by (auto simp: runRPCMethod_def Let_def split: sum.splits prod.splits)
  then have "domains_ok D' \<and> domain_address D' = domain_address D \<and> domainManagers D' = (domainManagers D)(b := m)"
    using D2 releaseDomain_Inr [OF D2(1)] by auto
  then show ?thesis using f opened(1) m by simp
qed

subsection \<open>A domain to call\<close>

text \<open>A domain with a superuser and an account that may read.\<close>

definition reader_db :: auth_db where
  "reader_db = auth_run [ApplicationOp (ApplicationAdd (\<lambda>_ _. 0) 0 ''DIR'' '''' ''k'' ''admin''),
     AttribOp (AttribAdd (sApplicationAttrib ''DIR'' ''DIRREAD'') ''''),
     AccountOp (AccountAdd 5 ''t'' ''bob'' (Secret_new\<lparr>hash := ''pw''\<rparr>)
       \<lparr>sGivenName = '''', sLastName = '''', sEmail = '''', sDescription = '''', sExtraData = ''''\<rparr> 0
       \<lparr>attr_enabled = True, attr_confirmed = True, attr_superuser = False\<rparr> ''''),
     AttribOp (AttribAccountAdd (sApplicationAttrib ''DIR'' ''DIRREAD'') ''bob'')] admin_db"

definition logged_in :: "string \<Rightarrow> session" where
  "logged_in u = (Session_new 5 5 ''id'' ''web'')\<lparr>authUser := u, requiredLoginIdxs := [(0, '''')],
     authMatrix := [0 \<mapsto> \<lparr>lastAuthStatus = REASON_AUTHENTICATED, authTime = 5\<rparr>], isPersistentSession := True\<rparr>"

definition reader_domains :: "auth_db manager domains" where
  "reader_domains = fst (addDomain (Domains_new (\<lambda>_. Manager_new reader_db)) ''dom'' (Some 1))"

definition some_env :: rpc_env where
  "some_env = \<lparr>re_now = 6, re_crypto = \<lparr>calcSHA256 = id, calcSHA512 = id, calcSSHA256 = (\<lambda>p s. p), calcSSHA512 = (\<lambda>p s. p)\<rparr>,
     re_token = ''tok'', re_salt = [1, 2, 3, 4], re_dis = (\<lambda>_ _. 0), re_seed = 0, re_like = (=)\<rparr>"

lemma reader_rights:
  "\<not> isAccountSuperUser reader_db ''bob''" "isAccountSuperUser admin_db ''admin''"
  "accountValidateAttribute manager_db_virtuals reader_db ''bob'' (sApplicationAttrib ''DIR'' ''DIRREAD'')"
  "\<not> accountValidateAttribute manager_db_virtuals reader_db ''bob'' (sApplicationAttrib ''DIR'' ''DIRWRITE'')"
  by (simp_all add: reader_db_def admin_db_def run_simps account_row_new_def applicationAdd_def attribAdd_def
      attribAccountAdd_def has_attrib_def has_application_def isAccountSuperUser_def find_account_def db_first_def
      accountValidateAttribute_def accountValidateDirectAttribute_def accountGroups_def db_select_def)

lemma validated_ok:
  assumes "map_of (FullAuth_methods dir) n = Some (a, f)" "isPersistentSession s"
    "getIsFullyLoggedIn now s CHECK_DISALLOW_EXPIRED_PASSWORDS" "meets_requirements now V d (full_auth_manager app dir) s n extra"
  shows "\<exists>r. snd (validateRPCMethodPerms now V d (full_auth_manager app dir) (Some s) n extra) = Some (VALIDATION_OK, r)"
proof -
  have "map_of (rpcMethods (full_auth_manager app dir)) n \<noteq> None"
    using assms(1) full_auth_registers [of app dir] by (simp add: registers_def)
  then show ?thesis using validated [of "full_auth_manager app dir" n now V d "Some s" extra] assms(2-4) by auto
qed

subsection \<open>Properties\<close>

text \<open>C19: A method of this table is only validated for a session that is persistent and fully logged in with no
  password expired, whose user is a superuser or has the attribute of the method and has proved password index 0.\<close>

theorem full_auth_needs_login:
  assumes "snd (validateRPCMethodPerms now V d (full_auth_manager app dir) session n extra) = Some (VALIDATION_OK, r)"
  shows "\<exists>s. session = Some s \<and> isPersistentSession s \<and> getIsFullyLoggedIn now s CHECK_DISALLOW_EXPIRED_PASSWORDS \<and>
    (mv_isAccountSuperUser V d (authUser s) \<or>
     (\<exists>a f. (n, a, f) \<in> set (FullAuth_methods dir) \<and> accountValidateAttribute V d (authUser s) (sApplicationAttrib app a)) \<and>
     (IS_PASSWORD_AUTHENTICATED (getIdxAuthenticationStatus now s 0) \<or> 0 \<in> extra))"
proof -
  obtain f where f: "map_of (rpcMethods (full_auth_manager app dir)) n = Some f"
    using assms by (auto simp: validateRPCMethodPerms_def split: if_splits)
  obtain s where s: "session = Some s" "meets_requirements now V d (full_auth_manager app dir) s n extra"
    "getIsFullyLoggedIn now s CHECK_DISALLOW_EXPIRED_PASSWORDS" "isPersistentSession s"
    using validated [of "full_auth_manager app dir" n now V d session extra] f assms known_method [OF f] by auto
  then show ?thesis using known_method [OF f] by (fastforce simp: meets_requirements_def)
qed

lemma logged_in_simps [simp]:
  "authUser (logged_in u) = u" "isPersistentSession (logged_in u)"
  "getIsFullyLoggedIn 6 (logged_in u) CHECK_DISALLOW_EXPIRED_PASSWORDS"
  "getIdxAuthenticationStatus 6 (logged_in u) 0 = REASON_AUTHENTICATED"
  by (simp_all add: logged_in_def Session_new_def getIsFullyLoggedIn_def getIdxAuthenticationStatus_def
      getCurrentAuthenticationStatus_def IS_PASSWORD_AUTHENTICATED_def)

lemma reader_may_list:
  "\<exists>r. snd (validateRPCMethodPerms 6 manager_db_virtuals reader_db (full_auth_manager ''DIR'' ''DIR'')
     (Some (logged_in ''bob'')) ''accountsList'' {}) = Some (VALIDATION_OK, r)"
proof (rule validated_ok)
  show m: "map_of (FullAuth_methods ''DIR'') ''accountsList'' = Some (''DIRREAD'', FullAuth_accountsList)"
    by (simp add: method_tables)
  have attribs: "getMethodAttribs (methodsAttribs (full_auth_manager ''DIR'' ''DIR'')) ''accountsList'' =
      {sApplicationAttrib ''DIR'' ''DIRREAD''}"
    using full_auth_registers [of "''DIR''" "''DIR''"] m by (simp add: registers_def)
  have "attribPassIndexes (methodsAttribs (full_auth_manager ''DIR'' ''DIR'')) = []"
    using registers_no_indexes [of "MethodsManager_new ''DIR''" "FullAuth_methods ''DIR''"]
    by (simp add: full_auth_manager_def AddFullAuthMethods_def MethodsManager_new_def MethodsAttributes_Map_new_def)
  then have "getMethodPassIndexes (methodsAttribs (full_auth_manager ''DIR'' ''DIR'')) ''accountsList'' \<subseteq> {0}"
    by (auto simp: getMethodPassIndexes_def getAttribPassIndexes_def)
  then show "meets_requirements 6 manager_db_virtuals reader_db (full_auth_manager ''DIR'' ''DIR'') (logged_in ''bob'') ''accountsList'' {}"
    using reader_rights(3) by (auto simp: meets_requirements_def attribs IS_PASSWORD_AUTHENTICATED_def)
qed simp_all

theorem full_auth_needs_login_witness:
  "\<exists>s. Some (logged_in ''bob'') = Some s \<and> isPersistentSession s \<and> getIsFullyLoggedIn 6 s CHECK_DISALLOW_EXPIRED_PASSWORDS \<and>
    (isAccountSuperUser reader_db (authUser s) \<or>
     (\<exists>a f. (''accountsList'', a, f) \<in> set (FullAuth_methods ''DIR'') \<and>
        accountValidateAttribute manager_db_virtuals reader_db (authUser s) (sApplicationAttrib ''DIR'' a)) \<and>
     (IS_PASSWORD_AUTHENTICATED (getIdxAuthenticationStatus 6 s 0) \<or> 0 \<in> {}))"
proof -
  obtain r where "snd (validateRPCMethodPerms 6 manager_db_virtuals reader_db (full_auth_manager ''DIR'' ''DIR'')
     (Some (logged_in ''bob'')) ''accountsList'' {}) = Some (VALIDATION_OK, r)" using reader_may_list by blast
  from full_auth_needs_login [OF this] show ?thesis by simp
qed

text \<open>C20: A user with neither the attribute \<^verbatim>\<open>DIRWRITE\<close> nor the superuser flag cannot change any domain: a call
  that validates leaves every manager as it was.\<close>

theorem readers_change_nothing:
  assumes "domains_ok D"
    "snd (validateRPCMethodPerms now V d (full_auth_manager app dir) (Some s) n extra) = Some (VALIDATION_OK, r)"
    "\<not> mv_isAccountSuperUser V d (authUser s)"
    "\<not> accountValidateAttribute V d (authUser s) (sApplicationAttrib app ''DIRWRITE'')"
  shows "domainManagers (fst (runRPCMethod E (full_auth_manager app dir) D dn (Some s) n p)) = domainManagers D"
proof -
  let ?mm = "full_auth_manager app dir"
  obtain f where f: "map_of (rpcMethods ?mm) n = Some f"
    using assms(2) by (auto simp: validateRPCMethodPerms_def split: if_splits)
  obtain a where a: "(n, a, f) \<in> set (FullAuth_methods dir)" "getMethodAttribs (methodsAttribs ?mm) n = {sApplicationAttrib app a}"
    using known_method [OF f] by blast
  have "meets_requirements now V d ?mm s n extra" using validated [of ?mm n now V d "Some s" extra] f assms(2) by simp
  then have "a \<noteq> ''DIRWRITE''" using a(2) assms(3,4) by (auto simp: meets_requirements_def)
  then have "(n, ''DIRREAD'', f) \<in> set (FullAuth_methods dir)" using table_attribs [OF a(1)] a(1) by auto
  note reads = table_reads [OF this]
  obtain D' q where run: "runRPCMethod E ?mm D dn (Some s) n p = (D', q)" by fastforce
  show ?thesis
  proof (cases "D' = D")
    case False
    then show ?thesis using run_manager [OF assms(1) run] f reads run by auto
  qed (simp add: run)
qed

lemma reader_domains_ok: "domains_ok reader_domains" "domain_address reader_domains dn = (if dn = ''dom'' then Some 1 else None)"
  "domainManagers reader_domains b = Manager_new reader_db"
  by (simp_all add: domains_ok_def domain_address_def reader_domains_def addDomain_def addElement_def Domains_new_def)

theorem readers_change_nothing_witness:
  "domainManagers (fst (runRPCMethod some_env (full_auth_manager ''DIR'' ''DIR'') reader_domains ''dom'' (Some (logged_in ''bob''))
     ''accountsList'' JsonNull)) = domainManagers reader_domains"
proof -
  obtain r where "snd (validateRPCMethodPerms 6 manager_db_virtuals reader_db (full_auth_manager ''DIR'' ''DIR'')
     (Some (logged_in ''bob'')) ''accountsList'' {}) = Some (VALIDATION_OK, r)" using reader_may_list by blast
  from readers_change_nothing [OF reader_domains_ok(1) this] show ?thesis using reader_rights(1,4) by simp
qed

text \<open>The sequence of calls that clients make: what surrounds the call, the domain, the session, the name and the
  payload of each. Calls that are not validated are not made, so these are more than can happen.\<close>

type_synonym rpc_call = "rpc_env \<times> string \<times> session option \<times> string \<times> json"

fun rpc_call_step :: "methodsManager \<Rightarrow> rpc_call \<Rightarrow> auth_db manager domains \<Rightarrow> auth_db manager domains" where
  "rpc_call_step mm (E, dn, s, n, p) D = fst (runRPCMethod E mm D dn s n p)"

definition rpc_calls :: "methodsManager \<Rightarrow> rpc_call list \<Rightarrow> auth_db manager domains \<Rightarrow> auth_db manager domains" where
  "rpc_calls mm cs D = foldl (\<lambda>D c. rpc_call_step mm c D) D cs"

definition managers_sound :: "auth_db manager domains \<Rightarrow> bool" where
  "managers_sound D \<longleftrightarrow> domains_ok D \<and> (\<forall>dn b. domain_address D dn = Some b \<longrightarrow>
     db_wf (manager_db (domainManagers D b)) \<and> superuser_kept (manager_db (domainManagers D b)))"

lemma call_keeps_sound:
  assumes "managers_sound D"
  shows "managers_sound (fst (runRPCMethod E (full_auth_manager app dir) D dn s n p))"
proof -
  obtain D' r where run: "runRPCMethod E (full_auth_manager app dir) D dn s n p = (D', r)" by fastforce
  show ?thesis
  proof (cases "D' = D")
    case False
    obtain f b where f: "map_of (rpcMethods (full_auth_manager app dir)) n = Some f" "domain_address D dn = Some b"
      "domains_ok D'" "domain_address D' = domain_address D"
      "domainManagers D' = (domainManagers D)(b := fst (f E s p (domainManagers D b)))"
      using run_manager [OF _ run False] assms by (auto simp: managers_sound_def)
    obtain a where "(n, a, f) \<in> set (FullAuth_methods dir)" using known_method [OF f(1)] by blast
    then have "call_via (f E s p)" by (rule table_via)
    then obtain ops where
      "fst (f E s p (domainManagers D b)) = (domainManagers D b)\<lparr>manager_db := auth_run ops (manager_db (domainManagers D b))\<rparr>"
      by (auto simp: call_via_def)
    moreover have "db_wf (auth_run ops (manager_db (domainManagers D b)))"
      "superuser_kept (auth_run ops (manager_db (domainManagers D b)))"
      using assms f(2) wf_kept.run_keeps superuser_kept.run_keeps by (auto simp: managers_sound_def auth_run_def)
    ultimately show ?thesis using assms f(3-5) run by (auto simp: managers_sound_def)
  qed (use assms run in simp)
qed

interpretation sound_calls: kept_by_steps "rpc_call_step (full_auth_manager app dir)" managers_sound for app dir
  by (unfold_locales, rename_tac D c, case_tac c) (simp add: call_keeps_sound)

text \<open>C21: However many methods are called on whatever domains, with whatever payloads and failures, the tables of
  every domain stay well formed and keep an enabled superuser.\<close>

theorem remote_calls_keep_domains:
  assumes "managers_sound D"
  shows "managers_sound (rpc_calls (full_auth_manager app dir) cs D)"
  using sound_calls.run_keeps [OF assms] by (simp add: rpc_calls_def)

theorem remote_calls_keep_domains_witness:
  "managers_sound (rpc_calls (full_auth_manager ''DIR'' ''DIR'')
     [(some_env, ''dom'', Some (logged_in ''admin''), ''accountRemove'', JsonObject [(''accountName'', JsonString ''admin'')]),
      (some_env, ''dom'', None, ''accountAdd'', JsonObject [(''accountName'', JsonString ''eve'')])] reader_domains)"
proof (rule remote_calls_keep_domains)
  have "db_wf reader_db" unfolding reader_db_def admin_db_def auth_run_append [symmetric] by (rule run_wf)
  moreover have "has_superuser reader_db" "db_created reader_db"
    by (simp_all add: reader_db_def admin_db_def run_simps account_row_new_def applicationAdd_def attribAdd_def
      attribAccountAdd_def has_attrib_def has_application_def has_superuser_def)
  ultimately show "managers_sound reader_domains"
    using reader_domains_ok by (simp add: managers_sound_def superuser_kept_def)
qed

text \<open>C22: A secret that cannot be read (no object, no version or another one) is not refused: the method answers
  true and stores the empty secret, with which the empty password authenticates.\<close>

theorem unreadable_secret_opens_account:
  assumes "json_member payload ''secretData'' = Inr v" "jsonToMap v = Inr mp" "mget mp ''VERSION'' \<noteq> ''1''"
    "FullAuth_accountChangeSecret E s payload m = (m', Inr (rpc_answer ''retCode'' (JsonBool True)))"
  shows "retrieveSecret (manager_db m') (payload_string payload ''accountName'') (JSON_ASUINT payload ''passIndex'' 0) =
      (Secret_new, True, True) \<and> validateStoredSecret C now Secret_new '''' ch MODE_PLAIN = REASON_AUTHENTICATED"
proof -
  let ?u = "payload_string payload ''accountName''" and ?i = "JSON_ASUINT payload ''passIndex'' 0"
  obtain d ok where d: "accountChangeSecret (manager_db m) ?u Secret_new ?i = (d, ok)" by fastforce
  have "m' = m\<lparr>manager_db := d\<rparr>" "rpc_answer ''retCode'' (JsonBool ok) = rpc_answer ''retCode'' (JsonBool True)"
    using assms d by (auto simp: FullAuth_accountChangeSecret_def Secret_fromMap_def rpc_write_def)
  then have "ok" "manager_db m' = d" by (simp_all add: rpc_answer_def json_fields_def)
  then have "retrieveSecret (manager_db m') ?u ?i = (Secret_new\<lparr>badAttempts := 0\<rparr>, True, True)"
    using accountChangeSecret_stores [of "manager_db m" ?u Secret_new ?i d] d by (simp add: Secret_new_def)
  moreover have "Secret_new\<lparr>badAttempts := 0\<rparr> = Secret_new" by (simp add: Secret_new_def)
  moreover have "validateStoredSecret C now Secret_new '''' ch MODE_PLAIN = REASON_AUTHENTICATED"
    by (simp add: validateStoredSecret_def toCompare_def Secret_new_def Secret_isExpired_def)
  ultimately show ?thesis by simp
qed

theorem unreadable_secret_opens_account_witness:
  "\<exists>m'. FullAuth_accountChangeSecret some_env None (JsonObject [(''accountName'', JsonString ''bob'')]) (Manager_new (guest_db ''bob'')) =
      (m', Inr (rpc_answer ''retCode'' (JsonBool True))) \<and>
    retrieveSecret (manager_db m') ''bob'' 0 = (Secret_new, True, True)"
proof -
  let ?p = "JsonObject [(''accountName'', JsonString ''bob'')]"
  have p: "json_member ?p ''secretData'' = Inr JsonNull" "jsonToMap JsonNull = Inr Map.empty"
    "payload_string ?p ''accountName'' = ''bob''" "JSON_ASUINT ?p ''passIndex'' 0 = 0"
    by (simp_all add: json_member_def jsonToMap_def json_getMemberNames_def json_get_def payload_string_def JSON_ASSTRING_def
        JSON_ASUINT_def json_unsigned_def json_integral_def)
  obtain m' where m': "FullAuth_accountChangeSecret some_env None ?p (Manager_new (guest_db ''bob'')) =
      (m', Inr (rpc_answer ''retCode'' (JsonBool True)))"
    by (simp add: FullAuth_accountChangeSecret_def p Secret_fromMap_def mget_def rpc_write_def accountChangeSecret_def insert_secret_def
        db_query_def guest_simps has_index_def has_account_def sql_insert_def sql_delete_def secret_row_new_def)
  then show ?thesis using unreadable_secret_opens_account [OF p(1,2) _ m'] by (simp add: p mget_def)
qed

end
