(* ===== verification/Rpc_Authentication.thy ===== *)
theory Rpc_Authentication
  imports Json
begin

text \<open>
  \<^verbatim>\<open>RPC/mdz_xrpc_common/authentication.cpp\<close> and \<^verbatim>\<open>multiauths.cpp\<close>: the passwords a request carries. The JSON
  parser (JsonCpp) is the parameter \<^verbatim>\<open>parse\<close>; a parser that fails leaves nothing.
\<close>

subsection \<open>One password\<close>

record authentication =
  sPassword :: string
  iPassIDX :: nat

definition Authentication_new :: authentication where
  "Authentication_new = \<lparr>sPassword = '''', iPassIDX = 0\<rparr>"

definition Authentication_of :: "string \<Rightarrow> nat \<Rightarrow> authentication" where
  "Authentication_of pass idx = \<lparr>sPassword = pass, iPassIDX = idx\<rparr>"

definition Authentication_fromJSON :: "authentication \<Rightarrow> json \<Rightarrow> failure + authentication \<times> bool" where
  "Authentication_fromJSON a x =
     (case json_member x ''pass'' of
        Inl e \<Rightarrow> Inl e
      | Inr JsonNull \<Rightarrow> Inr (a, False)
      | Inr _ \<Rightarrow> (case json_member x ''idx'' of
          Inl e \<Rightarrow> Inl e
        | Inr JsonNull \<Rightarrow> Inr (a, False)
        | Inr _ \<Rightarrow> Inr (\<lparr>sPassword = JSON_ASSTRING x ''pass'' '''', iPassIDX = JSON_ASUINT x ''idx'' 0\<rparr>, True)))"

definition Authentication_fromString :: "(string \<Rightarrow> json option) \<Rightarrow> authentication \<Rightarrow> string \<Rightarrow> failure + authentication \<times> bool" where
  "Authentication_fromString parse a sAuth =
     (if sAuth = [] then Inr (a, True)
      else case parse sAuth of
        None \<Rightarrow> Inr (a, False)
      | Some x \<Rightarrow> if json_isObject x then Authentication_fromJSON a x else Inr (a, False))"

definition Authentication_toJSON :: "authentication \<Rightarrow> json" where
  "Authentication_toJSON a = json_fields [(''pass'', JsonString (sPassword a)), (''idx'', JsonInt (int (iPassIDX a)))]"

definition setPassword :: "authentication \<Rightarrow> string \<Rightarrow> authentication" where
  "setPassword a value = a\<lparr>sPassword := value\<rparr>"

definition setPassIndex :: "authentication \<Rightarrow> nat \<Rightarrow> authentication" where
  "setPassIndex a value = a\<lparr>iPassIDX := value\<rparr>"

subsection \<open>Several passwords\<close>

type_synonym multiAuths = "(nat, authentication) std_map"

definition getAuthenticationsIdxs :: "multiAuths \<Rightarrow> nat list" where
  "getAuthenticationsIdxs m = map fst m"

definition getAuthentication :: "multiAuths \<Rightarrow> nat \<Rightarrow> authentication" where
  "getAuthentication m idx = (case map_of m idx of Some a \<Rightarrow> a | None \<Rightarrow> Authentication_new)"

definition addAuthentication :: "multiAuths \<Rightarrow> authentication \<Rightarrow> multiAuths" where
  "addAuthentication m auth = std_put (iPassIDX auth) auth m"

definition addAuthentication2 :: "multiAuths \<Rightarrow> nat \<Rightarrow> string \<Rightarrow> multiAuths" where
  "addAuthentication2 m passIndex pass =
     std_put passIndex (setPassword (setPassIndex (getAuthentication m passIndex) passIndex) pass) m"

definition MultiAuths_clear :: "multiAuths \<Rightarrow> multiAuths" where
  "MultiAuths_clear m = []"

text \<open>The loop over the members. The name of a member is read by \<^verbatim>\<open>strtoul\<close> and cut to 32 bits.\<close>

fun setAuthentications_loop :: "multiAuths \<Rightarrow> (string \<times> json) list \<Rightarrow> failure + multiAuths" where
  "setAuthentications_loop m [] = Inr m"
| "setAuthentications_loop m ((idx, v) # ms) =
     (case json_isMember v ''pass'' of
        Inl e \<Rightarrow> Inl e
      | Inr False \<Rightarrow> setAuthentications_loop m ms
      | Inr True \<Rightarrow> setAuthentications_loop (addAuthentication2 m (strtoull idx mod 2 ^ 32) (JSON_ASSTRING v ''pass'' '''')) ms)"

definition setAuthentications :: "(string \<Rightarrow> json option) \<Rightarrow> multiAuths \<Rightarrow> string \<Rightarrow> failure + multiAuths \<times> bool" where
  "setAuthentications parse m sAuthentications =
     (if sAuthentications = [] then Inr (m, True)
      else case parse sAuthentications of
        Some (JsonObject ms) \<Rightarrow> map_sum id (\<lambda>m'. (m', True)) (setAuthentications_loop m ms)
      | _ \<Rightarrow> Inr (m, False))"

subsection \<open>Lemmas\<close>

lemma addAuthentication2_ok: "std_map_ok m \<Longrightarrow> std_map_ok (addAuthentication2 m i p)"
  by (simp add: addAuthentication2_def)

lemma get_added: "std_map_ok m \<Longrightarrow> getAuthentication (addAuthentication2 m i p) j = (if j = i then Authentication_of p i else getAuthentication m j)"
  by (simp add: getAuthentication_def addAuthentication2_def setPassword_def setPassIndex_def Authentication_of_def)

lemma fromJSON_toJSON:
  assumes "iPassIDX a < 2 ^ 32"
  shows "Authentication_fromJSON b (Authentication_toJSON a) = Inr (a, True)"
  using assms by (simp add: Authentication_fromJSON_def Authentication_toJSON_def JSON_ASSTRING_def JSON_ASUINT_def
      json_unsigned_def json_integral_def)

lemma loop_throws:
  assumes "(idx, v) \<in> set ms" "json_isMember v ''pass'' = Inl e"
  shows "\<exists>e. setAuthentications_loop m ms = Inl e"
  using assms by (induction ms arbitrary: m) (auto split: sum.splits bool.splits)

end
