(* ===== verification/Web_Sessions.thy ===== *)
theory Web_Sessions
  imports Safe_Map Auth_Session
begin

text \<open>
  \<^verbatim>\<open>RPC/mdz_xrpc_webserver/sessionsmanager.cpp\<close>: the sessions of the clients of a web server in a safe map, and
  how many each user was given. The map holds addresses, \<^verbatim>\<open>sm_store\<close> what is there. One operation is one step
  here; where \<^verbatim>\<open>destroyElement\<close> has to wait for another thread, its result is None. Random strings and new
  addresses are arguments.
\<close>

subsection \<open>Definitions\<close>

record webSession =
  ws_authSession :: session
  sCSRFAuthConfirmToken :: string
  sCSRFToken :: string
  bAuthTokenConfirmed :: bool

definition WebSession_new :: "string \<Rightarrow> string \<Rightarrow> session \<Rightarrow> webSession" where
  "WebSession_new confirmToken csrfToken s =
     \<lparr>ws_authSession = s, sCSRFAuthConfirmToken = confirmToken, sCSRFToken = csrfToken, bAuthTokenConfirmed = False\<rparr>"

definition validateCSRFToken :: "webSession \<Rightarrow> string \<Rightarrow> bool" where
  "validateCSRFToken w token \<longleftrightarrow> token = sCSRFToken w"

definition confirmAuthCSRFToken :: "webSession \<Rightarrow> string \<Rightarrow> webSession \<times> bool" where
  "confirmAuthCSRFToken w token =
     (let ok = (token = sCSRFAuthConfirmToken w) in (w\<lparr>bAuthTokenConfirmed := ok\<rparr>, ok))"

record sessionsManager =
  sessionPerUser :: "string \<times> string \<rightharpoonup> nat"
  sm_sessions :: "string xMap"
  sm_store :: "nat \<Rightarrow> webSession"
  gcWaitTime :: nat
  sessionExpirationTime :: nat
  maxSessionsPerUser :: nat

definition SessionsManager_new :: "(nat \<Rightarrow> webSession) \<Rightarrow> sessionsManager" where
  "SessionsManager_new store = \<lparr>sessionPerUser = Map.empty, sm_sessions = [], sm_store = store, gcWaitTime = 1,
     sessionExpirationTime = 900, maxSessionsPerUser = 100\<rparr>"

definition setSessionExpirationTime :: "sessionsManager \<Rightarrow> nat \<Rightarrow> sessionsManager" where
  "setSessionExpirationTime S value = S\<lparr>sessionExpirationTime := value\<rparr>"

definition setMaxSessionsPerUser :: "sessionsManager \<Rightarrow> nat \<Rightarrow> sessionsManager" where
  "setMaxSessionsPerUser S value = S\<lparr>maxSessionsPerUser := value\<rparr>"

definition setGcWaitTime :: "sessionsManager \<Rightarrow> nat \<Rightarrow> sessionsManager" where
  "setGcWaitTime S value = S\<lparr>gcWaitTime := value\<rparr>"

text \<open>The counters have 32 bits.\<close>

definition countSession :: "sessionsManager \<Rightarrow> string \<times> string \<Rightarrow> sessionsManager option" where
  "countSession S userDomain =
     (case sessionPerUser S userDomain of
        None \<Rightarrow> Some (S\<lparr>sessionPerUser := (sessionPerUser S)(userDomain \<mapsto> 1)\<rparr>)
      | Some c \<Rightarrow>
          if c \<ge> maxSessionsPerUser S then None
          else Some (S\<lparr>sessionPerUser := (sessionPerUser S)(userDomain \<mapsto> (c + 1) mod 2 ^ 32)\<rparr>))"

text \<open>The empty identifier is a failure. When the identifier is taken, the new web session is deleted, and its
  authentication session with it.\<close>

definition createWebSession :: "string \<Rightarrow> string \<Rightarrow> string \<Rightarrow> nat \<Rightarrow> sessionsManager \<Rightarrow> session \<Rightarrow> sessionsManager \<times> string" where
  "createWebSession newId confirmToken csrfToken address S s =
     (case countSession S (getUserDomainPair s) of
        None \<Rightarrow> (S, '''')
      | Some S1 \<Rightarrow> (case addElement (sm_sessions S1) newId (Some address) of
          (m, True) \<Rightarrow> (S1\<lparr>sm_sessions := m,
             sm_store := (sm_store S1)(address := WebSession_new confirmToken csrfToken (setSessionId s newId))\<rparr>, newId)
        | (m, False) \<Rightarrow> (S1, '''')))"

definition uncountSession :: "sessionsManager \<Rightarrow> string \<times> string \<Rightarrow> string + sessionsManager" where
  "uncountSession S userDomain =
     (case sessionPerUser S userDomain of
        None \<Rightarrow> Inl ''Unregistered Session??''
      | Some c \<Rightarrow> let c' = (c + 2 ^ 32 - 1) mod 2 ^ 32 in
          Inr (S\<lparr>sessionPerUser := (sessionPerUser S)(userDomain := if c' = 0 then None else Some c')\<rparr>))"

text \<open>\<^verbatim>\<open>destroyElement\<close>: None while it waits for readers.\<close>

definition sm_destroyElement :: "string xMap \<Rightarrow> string \<Rightarrow> (string xMap \<times> bool) option" where
  "sm_destroyElement m k =
     (case destroyElement_take m k of
        (_, None) \<Rightarrow> Some (m, False)
      | (m1, Some _) \<Rightarrow> map_option (\<lambda>m2. (m2, True)) (destroyElement_test m1 k))"

definition destroySession :: "sessionsManager \<Rightarrow> string \<Rightarrow> (string + sessionsManager \<times> bool) option" where
  "destroySession S sessionID =
     (case openElement (sm_sessions S) sessionID of
        (_, None) \<Rightarrow> Some (Inr (S, False))
      | (m, Some e) \<Rightarrow> (case releaseElement m sessionID of
          Inl x \<Rightarrow> Some (Inl x)
        | Inr (m1, _, _) \<Rightarrow> (case sm_destroyElement m1 sessionID of
            None \<Rightarrow> None
          | Some (m2, True) \<Rightarrow> Some (map_sum id (\<lambda>S'. (S', True))
              (uncountSession (S\<lparr>sm_sessions := m2\<rparr>) (getUserDomainPair (ws_authSession (sm_store S e)))))
          | Some (m2, False) \<Rightarrow> Some (Inr (S\<lparr>sm_sessions := m2\<rparr>, False)))))"

definition session_expired :: "int \<Rightarrow> sessionsManager \<Rightarrow> nat \<Rightarrow> bool" where
  "session_expired now S e \<longleftrightarrow> isLastActivityExpired now (ws_authSession (sm_store S e)) (sessionExpirationTime S)"

fun gc_loop :: "int \<Rightarrow> sessionsManager \<Rightarrow> string list \<Rightarrow> (string + sessionsManager) option" where
  "gc_loop now S [] = Some (Inr S)"
| "gc_loop now S (key # keys) =
     (case openElement (sm_sessions S) key of
        (_, None) \<Rightarrow> gc_loop now S keys
      | (m, Some e) \<Rightarrow> (case releaseElement m key of
          Inl x \<Rightarrow> Some (Inl x)
        | Inr (m1, _, _) \<Rightarrow>
            if session_expired now S e
            then (case sm_destroyElement m1 key of
                None \<Rightarrow> None
              | Some (m2, _) \<Rightarrow> gc_loop now (S\<lparr>sm_sessions := m2\<rparr>) keys)
            else gc_loop now (S\<lparr>sm_sessions := m1\<rparr>) keys))"

definition gc :: "int \<Rightarrow> sessionsManager \<Rightarrow> (string + sessionsManager) option" where
  "gc now S = gc_loop now S (map fst (sm_sessions S))"

definition openSession :: "int \<Rightarrow> sessionsManager \<Rightarrow> string \<Rightarrow> sessionsManager \<times> (nat \<times> nat) option" where
  "openSession now S sessionID =
     (case openElement (sm_sessions S) sessionID of
        (_, None) \<Rightarrow> (S, None)
      | (m, Some e) \<Rightarrow>
          let la = nat (lastActivity (ws_authSession (sm_store S e)) mod 2 ^ 64);
              expirationTime = add64 la (sessionExpirationTime S); currentTime = nat (now mod 2 ^ 64);
              maxAge = (if session_expired now S e then 0
                else if expirationTime > currentTime then expirationTime - currentTime else 0)
          in (S\<lparr>sm_sessions := m\<rparr>, Some (e, maxAge)))"

definition releaseSession :: "sessionsManager \<Rightarrow> string \<Rightarrow> string + sessionsManager \<times> bool" where
  "releaseSession S sessionID =
     map_sum id (\<lambda>(m, ok, _). (S\<lparr>sm_sessions := m\<rparr>, ok)) (releaseElement (sm_sessions S) sessionID)"

text \<open>What the holder of a session does to it.\<close>

definition update_session :: "nat \<Rightarrow> (session \<Rightarrow> session) \<Rightarrow> sessionsManager \<Rightarrow> sessionsManager" where
  "update_session e f S = S\<lparr>sm_store := (sm_store S)(e := (sm_store S e)\<lparr>ws_authSession := f (ws_authSession (sm_store S e))\<rparr>)\<rparr>"

subsection \<open>Invariant\<close>

text \<open>The sessions of a user, and what the counters promise about them.\<close>

definition user_of :: "sessionsManager \<Rightarrow> nat \<Rightarrow> string \<times> string" where
  "user_of S e = getUserDomainPair (ws_authSession (sm_store S e))"

definition sessions_of :: "sessionsManager \<Rightarrow> string \<times> string \<Rightarrow> string set" where
  "sessions_of S ud = {k. \<exists>x e. map_of (sm_sessions S) k = Some x \<and> rdElement x = Some e \<and> user_of S e = ud}"

definition given :: "sessionsManager \<Rightarrow> string \<times> string \<Rightarrow> nat" where
  "given S ud = (case sessionPerUser S ud of Some c \<Rightarrow> c | None \<Rightarrow> 0)"

definition sessions_counted :: "nat \<Rightarrow> sessionsManager \<Rightarrow> bool" where
  "sessions_counted M S \<longleftrightarrow> std_map_ok (sm_sessions S) \<and> maxSessionsPerUser S = M \<and>
     (\<forall>k x. map_of (sm_sessions S) k = Some x \<longrightarrow> rdElement x \<noteq> None) \<and>
     (\<forall>ud c. sessionPerUser S ud = Some c \<longrightarrow> 0 < c \<and> c \<le> max 1 M) \<and>
     (\<forall>ud. card (sessions_of S ud) \<le> given S ud)"

text \<open>The manager at work: sessions are created at new addresses, and their holders do not change the user.\<close>

definition sessions_start :: "nat \<Rightarrow> sessionsManager \<Rightarrow> bool" where
  "sessions_start M S \<longleftrightarrow> M < 2 ^ 32 \<and> (\<exists>store. S = setMaxSessionsPerUser (SessionsManager_new store) M)"

inductive sessions_step :: "sessionsManager \<Rightarrow> sessionsManager \<Rightarrow> bool" for S where
  create: "(\<And>k x. map_of (sm_sessions S) k = Some x \<Longrightarrow> rdElement x \<noteq> Some address) \<Longrightarrow>
    sessions_step S (fst (createWebSession newId confirmToken csrfToken address S s))"
| destroy: "destroySession S sid = Some (Inr (S', ok)) \<Longrightarrow> sessions_step S S'"
| collect: "gc now S = Some (Inr S') \<Longrightarrow> sessions_step S S'"
| opens: "sessions_step S (fst (openSession now S sid))"
| releases: "releaseSession S sid = Inr (S', ok) \<Longrightarrow> sessions_step S S'"
| updates: "getUserDomainPair (f (ws_authSession (sm_store S e))) = user_of S e \<Longrightarrow> sessions_step S (update_session e f S)"

subsection \<open>The invariant is kept\<close>

lemma countedD:
  assumes "sessions_counted M S"
  shows "std_map_ok (sm_sessions S)" "maxSessionsPerUser S = M" "card (sessions_of S ud) \<le> given S ud"
    "sessionPerUser S ud = Some c \<Longrightarrow> 0 < c" "sessionPerUser S ud = Some c \<Longrightarrow> c \<le> max 1 M"
    "map_of (sm_sessions S) k = Some x \<Longrightarrow> rdElement x \<noteq> None"
  using assms unfolding sessions_counted_def by (elim conjE, metis)+

lemma sessions_of_counters [simp]: "sessions_of (S\<lparr>sessionPerUser := f\<rparr>) ud = sessions_of S ud"
  by (simp add: sessions_of_def user_of_def)

lemma countedI:
  assumes "std_map_ok (sm_sessions S)" "maxSessionsPerUser S = M" "\<And>ud. card (sessions_of S ud) \<le> given S ud"
    "\<And>ud c. sessionPerUser S ud = Some c \<Longrightarrow> 0 < c \<and> c \<le> max 1 M"
    "\<And>k x. map_of (sm_sessions S) k = Some x \<Longrightarrow> rdElement x \<noteq> None"
  shows "sessions_counted M S"
  using assms unfolding sessions_counted_def by metis

text \<open>Opening and releasing change the readers only.\<close>

definition same_elements :: "string xMap \<Rightarrow> string xMap \<Rightarrow> bool" where
  "same_elements m m' \<longleftrightarrow> std_map_ok m' \<and> (\<forall>k. map_option rdElement (map_of m' k) = map_option rdElement (map_of m k))"

lemma same_elements_trans: "same_elements m m1 \<Longrightarrow> same_elements m1 m2 \<Longrightarrow> same_elements m m2"
  by (simp add: same_elements_def)

lemma open_same: "std_map_ok m \<Longrightarrow> same_elements m (fst (openElement m k))"
  by (auto simp: openElement_def same_elements_def split: option.splits)

lemma release_same: "std_map_ok m \<Longrightarrow> releaseElement m k = Inr (m', ok, z) \<Longrightarrow> same_elements m m'"
  by (auto simp: releaseElement_def same_elements_def Let_def split: option.splits if_splits)

lemma same_element:
  assumes "same_elements m m'"
  shows "(\<exists>x. map_of m' k = Some x \<and> rdElement x = r) \<longleftrightarrow> (\<exists>x. map_of m k = Some x \<and> rdElement x = r)"
  using assms [unfolded same_elements_def, THEN conjunct2, rule_format, of k]
  by (cases "map_of m k"; cases "map_of m' k") auto

lemma same_sessions: "same_elements (sm_sessions S) m \<Longrightarrow> sessions_of (S\<lparr>sm_sessions := m\<rparr>) ud = sessions_of S ud"
  using same_element [of "sm_sessions S" m _ "Some e" for e] by (simp add: sessions_of_def user_of_def) blast

lemma same_elements_counted:
  assumes "sessions_counted M S" "same_elements (sm_sessions S) m"
  shows "sessions_counted M (S\<lparr>sm_sessions := m\<rparr>)"
proof -
  have "map_of m k = Some x \<Longrightarrow> rdElement x \<noteq> None" for k x
    using same_element [OF assms(2), of k None] assms(1) by (auto simp: sessions_counted_def)
  then show ?thesis using assms same_sessions [OF assms(2)] by (auto simp: sessions_counted_def same_elements_def given_def)
qed

lemma destroy_erases:
  assumes "std_map_ok m" "sm_destroyElement m k = Some (m', b)" "rdElement (the (map_of m k)) \<noteq> None" "map_of m k \<noteq> None"
  shows "m' = std_erase k (fst (destroyElement_take m k)) \<and> map_of m' = (map_of m)(k := None) \<and> b"
  using assms by (auto simp: sm_destroyElement_def destroyElement_take_def destroyElement_test_def split: option.splits if_splits)

lemma erased_counted:
  assumes "sessions_counted M S" "std_map_ok m" "map_of m = (map_of (sm_sessions S))(k := None)"
  shows "sessions_counted M (S\<lparr>sm_sessions := m\<rparr>)" "sessions_of (S\<lparr>sm_sessions := m\<rparr>) ud = sessions_of S ud - {k}"
proof -
  have so: "sessions_of (S\<lparr>sm_sessions := m\<rparr>) ud = sessions_of S ud - {k}" for ud
    by (auto simp: sessions_of_def user_of_def assms(3))
  have "card (sessions_of S ud - {k}) \<le> card (sessions_of S ud)" for ud by (rule card_Diff1_le)
  then show "sessions_counted M (S\<lparr>sm_sessions := m\<rparr>)" using assms order.trans
    by (fastforce simp: sessions_counted_def so given_def)
qed (auto simp: sessions_of_def user_of_def assms(3))

lemma finite_sessions_of [simp]: "finite (sessions_of S ud)"
proof (rule finite_subset [OF _ finite_dom_map_of])
  show "sessions_of S ud \<subseteq> dom (map_of (sm_sessions S))" by (auto simp: sessions_of_def)
qed

lemma opened:
  assumes "std_map_ok (sm_sessions S)" "openElement (sm_sessions S) k = (m, Some e)" "releaseElement m k = Inr (m1, ok, z)"
  shows "same_elements (sm_sessions S) m1" "\<exists>x. map_of m1 k = Some x \<and> rdElement x = Some e" "k \<in> sessions_of S (user_of S e)"
proof -
  have m: "same_elements (sm_sessions S) m" using open_same [OF assms(1), of k] assms(2) by simp
  then show "same_elements (sm_sessions S) m1"
    using release_same [OF _ assms(3)] same_elements_trans by (auto simp: same_elements_def)
  have x: "\<exists>x. map_of (sm_sessions S) k = Some x \<and> rdElement x = Some e"
    using assms(2) by (auto simp: openElement_def split: option.splits)
  then show "k \<in> sessions_of S (user_of S e)" by (auto simp: sessions_of_def)
  show "\<exists>x. map_of m1 k = Some x \<and> rdElement x = Some e"
    using same_element [OF \<open>same_elements (sm_sessions S) m1\<close>] x by blast
qed

lemma destroyed:
  assumes "sessions_counted M S" "openElement (sm_sessions S) k = (m, Some e)" "releaseElement m k = Inr (m1, ok, z)"
    "sm_destroyElement m1 k = Some (m2, b)"
  shows "b" "sessions_counted M (S\<lparr>sm_sessions := m2\<rparr>)"
    "card (sessions_of (S\<lparr>sm_sessions := m2\<rparr>) ud) = (if ud = user_of S e then card (sessions_of S ud) - 1 else card (sessions_of S ud))"
proof -
  have ok: "std_map_ok (sm_sessions S)" using assms(1) by (simp add: sessions_counted_def)
  note opened = opened [OF ok assms(2,3)]
  let ?S1 = "S\<lparr>sm_sessions := m1\<rparr>"
  have c1: "sessions_counted M ?S1" using assms(1) opened(1) by (rule same_elements_counted)
  then have ok1: "std_map_ok m1" by (simp add: sessions_counted_def)
  have e1: "b" "m2 = std_erase k (fst (destroyElement_take m1 k))" "map_of m2 = (map_of m1)(k := None)"
    using destroy_erases [OF ok1 assms(4)] opened(2) by auto
  then have ok2: "std_map_ok m2" using ok1 by (auto simp: destroyElement_take_def split: option.splits)
  note so1 = same_sessions [OF opened(1)]
  have so: "sessions_of (S\<lparr>sm_sessions := m2\<rparr>) ud = sessions_of S ud - {k}" for ud
    using erased_counted(2) [OF c1 ok2, of k ud] e1(3) so1 by simp
  show "b" by (rule e1)
  show "sessions_counted M (S\<lparr>sm_sessions := m2\<rparr>)" using erased_counted(1) [OF c1 ok2, of k] e1(3) by simp
  have "k \<in> sessions_of S ud \<longleftrightarrow> ud = user_of S e" using opened(3) by (auto simp: sessions_of_def)
  then show "card (sessions_of (S\<lparr>sm_sessions := m2\<rparr>) ud) =
      (if ud = user_of S e then card (sessions_of S ud) - 1 else card (sessions_of S ud))"
    using opened(3) by (auto simp: so card_Diff_singleton)
qed

lemma uncount_counted:
  assumes "sessions_counted M S" "card (sessions_of S ud) < given S ud" "M < 2 ^ 32"
  obtains S' where "uncountSession S ud = Inr S'" "sessions_counted M S'"
proof -
  obtain c where c: "sessionPerUser S ud = Some c" using assms(2) by (auto simp: given_def split: option.splits)
  note b = countedD(4,5) [OF assms(1) c]
  have dec: "(c + 2 ^ 32 - 1) mod 2 ^ 32 = c - 1"
  proof -
    have "c + 2 ^ 32 - 1 = (c - 1) + 2 ^ 32" using b by simp
    moreover have "c - 1 < 2 ^ 32" using b assms(3) by (simp add: max_def split: if_splits)
    ultimately show ?thesis by (simp only: mod_add_self2 mod_less)
  qed
  define S' where "S' = S\<lparr>sessionPerUser := (sessionPerUser S)(ud := if c - 1 = 0 then None else Some (c - 1))\<rparr>"
  have "uncountSession S ud = Inr S'" by (simp only: uncountSession_def c option.case Let_def dec S'_def)
  moreover have "card (sessions_of S' v) \<le> given S' v" for v
  proof -
    have "given S' v = (if v = ud then c - 1 else given S v)" "given S ud = c" by (simp_all add: S'_def given_def c)
    then show ?thesis using assms(2) countedD(3) [OF assms(1), of v] by (simp only: S'_def sessions_of_counters split: if_split) auto
  qed
  then have "sessions_counted M S'"
    by (rule countedI [rotated 2]) (use countedD [OF assms(1)] b in \<open>auto simp: S'_def split: if_splits\<close>)
  ultimately show ?thesis using that by blast
qed

lemma destroySession_counted:
  assumes "sessions_counted M S" "M < 2 ^ 32" "destroySession S sid = Some r"
  shows "r \<noteq> Inl ''Unregistered Session??''" "r = Inr (S', ok) \<Longrightarrow> sessions_counted M S'"
proof -
  have "r \<noteq> Inl ''Unregistered Session??'' \<and> (\<forall>S' ok. r = Inr (S', ok) \<longrightarrow> sessions_counted M S')"
  proof (cases "openElement (sm_sessions S) sid")
    case (Pair m oe)
    show ?thesis
    proof (cases oe)
      case None
      then show ?thesis using assms Pair by (auto simp: destroySession_def)
    next
      case (Some e)
      note o = Pair [unfolded Some]
      show ?thesis
      proof (cases "releaseElement m sid")
        case (Inl x)
        then show ?thesis using assms(3) o by (auto simp: destroySession_def releaseElement_def Let_def split: option.splits if_splits)
      next
        case (Inr q)
        then obtain m1 ok z where q: "releaseElement m sid = Inr (m1, ok, z)" by (cases q) auto
        obtain m2 b where d: "sm_destroyElement m1 sid = Some (m2, b)"
          using assms(3) o q by (cases "sm_destroyElement m1 sid") (auto simp: destroySession_def)
        note D = destroyed [OF assms(1) o q d]
        let ?S = "S\<lparr>sm_sessions := m2\<rparr>"
        have "sid \<in> sessions_of S (user_of S e)" using opened(3) [OF _ o q] assms(1) by (simp add: sessions_counted_def)
        then have pos: "0 < card (sessions_of S (user_of S e))" by (auto simp: card_gt_0_iff)
        moreover have "given ?S (user_of S e) = given S (user_of S e)" by (simp add: given_def)
        moreover have "card (sessions_of S (user_of S e)) \<le> given S (user_of S e)" by (rule countedD(3) [OF assms(1)])
        ultimately have "card (sessions_of ?S (user_of S e)) < given ?S (user_of S e)" using D(3) by simp
        then obtain S' where S': "uncountSession ?S (user_of S e) = Inr S'" "sessions_counted M S'"
          using uncount_counted [OF D(2) _ assms(2)] by blast
        then have "r = Inr (S', True)" using assms(3) o q d D(1) by (simp add: destroySession_def user_of_def)
        then show ?thesis using S' by simp
      qed
    qed
  qed
  then show "r \<noteq> Inl ''Unregistered Session??''" "r = Inr (S', ok) \<Longrightarrow> sessions_counted M S'" by blast+
qed

lemma gc_loop_counted:
  assumes "sessions_counted M S" "gc_loop now S ks = Some (Inr S')"
  shows "sessions_counted M S' \<and> sessionPerUser S' = sessionPerUser S"
  using assms
proof (induction ks arbitrary: S)
  case (Cons k ks)
  obtain m oe where o: "openElement (sm_sessions S) k = (m, oe)" by fastforce
  show ?case
  proof (cases oe)
    case None
    then show ?thesis using Cons o by simp
  next
    case (Some e)
    note o = o [unfolded Some]
    obtain m1 ok z where q: "releaseElement m k = Inr (m1, ok, z)"
      using Cons.prems(2) o by (cases "releaseElement m k") auto
    have same: "sessions_counted M (S\<lparr>sm_sessions := m1\<rparr>)"
      by (rule same_elements_counted [OF Cons.prems(1) opened(1) [OF countedD(1) [OF Cons.prems(1)] o q]])
    show ?thesis
    proof (cases "session_expired now S e")
      case True
      then obtain m2 b where d: "sm_destroyElement m1 k = Some (m2, b)"
        using Cons.prems(2) o q by (auto split: option.splits)
      then have "gc_loop now (S\<lparr>sm_sessions := m2\<rparr>) ks = Some (Inr S')" using Cons.prems(2) o q True by simp
      from Cons.IH [OF destroyed(2) [OF Cons.prems(1) o q d] this] show ?thesis by simp
    next
      case False
      then have "gc_loop now (S\<lparr>sm_sessions := m1\<rparr>) ks = Some (Inr S')" using Cons.prems(2) o q by simp
      from Cons.IH [OF same this] show ?thesis by simp
    qed
  qed
qed simp

lemma createWebSession_counted:
  assumes "sessions_counted M S" "M < 2 ^ 32"
    "\<And>k x. map_of (sm_sessions S) k = Some x \<Longrightarrow> rdElement x \<noteq> Some address"
  shows "sessions_counted M (fst (createWebSession newId confirmToken csrfToken address S s))"
proof (cases "countSession S (getUserDomainPair s)")
  case None
  then show ?thesis using assms(1) by (simp add: createWebSession_def)
next
  case (Some S1)
  let ?ud = "getUserDomainPair s"
  have fits: "sessionPerUser S ud = Some c \<Longrightarrow> c < M \<Longrightarrow> (c + 1) mod 2 ^ 32 = c + 1" for ud c
    using assms(2) by simp
  have S1: "S1 = S\<lparr>sessionPerUser := (sessionPerUser S)(?ud \<mapsto> Suc (given S ?ud))\<rparr>" "given S ?ud < max 1 M"
    using Some countedD(2) [OF assms(1)] fits
    by (auto simp: countSession_def given_def split: option.splits if_splits)
  have g: "given S1 ud = (if ud = ?ud then Suc (given S ud) else given S ud)" "sm_sessions S1 = sm_sessions S"
    "sm_store S1 = sm_store S" for ud
    by (simp_all add: S1(1) given_def)
  have c1: "sessions_counted M S1"
  proof (rule countedI)
    show "card (sessions_of S1 ud) \<le> given S1 ud" for ud
      using countedD(3) [OF assms(1), of ud] g(1) [of ud] by (simp add: S1(1) split: if_splits)
  qed (use countedD [OF assms(1)] S1 in \<open>auto split: if_splits\<close>)
  show ?thesis
  proof (cases "map_of (sm_sessions S) newId")
    case None
    let ?w = "WebSession_new confirmToken csrfToken (setSessionId s newId)"
    let ?S' = "S1\<lparr>sm_sessions := std_put newId \<lparr>rdElement = Some address, readers = 0\<rparr> (sm_sessions S),
        sm_store := (sm_store S)(address := ?w)\<rparr>"
    have S': "fst (createWebSession newId confirmToken csrfToken address S s) = ?S'"
      using Some None by (simp add: createWebSession_def addElement_def g)
    have ok: "std_map_ok (sm_sessions S)" using assms(1) by (simp add: sessions_counted_def)
    have u: "getUserDomainPair (ws_authSession ?w) = ?ud"
      by (simp add: WebSession_new_def setSessionId_def getUserDomainPair_def)
    have so: "sessions_of ?S' ud = (if ud = ?ud then insert newId (sessions_of S ud) else sessions_of S ud)" for ud
    proof -
      have "e \<noteq> address" if "map_of (sm_sessions S) k = Some x" "rdElement x = Some e" for k x e
        using assms(3) [OF that(1)] that(2) by auto
      then have "user_of ?S' e = user_of S e" if "map_of (sm_sessions S) k = Some x" "rdElement x = Some e" for k x e
        using that by (auto simp: user_of_def)
      moreover have "user_of ?S' address = ?ud" by (simp add: user_of_def u)
      ultimately show ?thesis using None ok by (auto simp: sessions_of_def)
    qed
    have "sessions_counted M ?S'"
    proof (rule countedI)
      have same: "given ?S' ud = given S1 ud" for ud by (simp add: given_def)
      show "card (sessions_of ?S' ud) \<le> given ?S' ud" for ud
        using countedD(3) [OF assms(1), of ud] g(1) [of ud] by (simp only: so same) (auto simp: card_insert_if)
    qed (use countedD [OF c1] ok g(2) in \<open>auto split: if_splits\<close>)
    then show ?thesis by (simp only: S')
  qed (use Some c1 in \<open>simp add: createWebSession_def addElement_def g\<close>)
qed

interpretation sessions_machine: machine_invariant "sessions_start M" sessions_step "\<lambda>S. sessions_counted M S \<and> M < 2 ^ 32" for M
proof
  show "sessions_counted M S \<and> M < 2 ^ 32" if "sessions_start M S" for S
    using that by (auto simp: sessions_start_def setMaxSessionsPerUser_def SessionsManager_new_def sessions_of_def
        intro!: countedI)
  fix S T
  assume "sessions_counted M S \<and> M < 2 ^ 32" and step: "sessions_step S T"
  then have I: "sessions_counted M S" and M: "M < 2 ^ 32" by simp_all
  from step have "sessions_counted M T"
  proof cases
    case (create address newId confirmToken csrfToken s)
    then show ?thesis using createWebSession_counted [OF I M] by simp
  next
    case (destroy sid ok)
    then show ?thesis using destroySession_counted(2) [OF I M destroy refl] by simp
  next
    case (collect now)
    then show ?thesis using gc_loop_counted [OF I] by (simp add: gc_def)
  next
    case (opens now sid)
    have "T = S \<or> T = S\<lparr>sm_sessions := fst (openElement (sm_sessions S) sid)\<rparr>"
      using opens by (auto simp: openSession_def Let_def split: prod.splits option.splits)
    then show ?thesis using I same_elements_counted [OF I open_same [OF countedD(1) [OF I]]] by auto
  next
    case (releases sid ok)
    then obtain m z where "releaseElement (sm_sessions S) sid = Inr (m, ok, z)" "T = S\<lparr>sm_sessions := m\<rparr>"
      by (cases "releaseElement (sm_sessions S) sid") (auto simp: releaseSession_def)
    then show ?thesis using same_elements_counted [OF I release_same [OF countedD(1) [OF I]]] by blast
  next
    case (updates f e)
    have "sessions_of T = sessions_of S"
      using updates by (auto simp: sessions_of_def user_of_def update_session_def fun_eq_iff)
    then show ?thesis using I updates(1) by (simp add: sessions_counted_def update_session_def given_def)
  qed
  then show "sessions_counted M T \<and> M < 2 ^ 32" using M by simp
qed

subsection \<open>Properties\<close>

text \<open>C23: Whatever is created, opened, released, collected and destroyed, no user ever has more sessions than the
  limit (one, when the limit is 0), and \<^verbatim>\<open>destroySession\<close> never finds a session it did not count.\<close>

theorem sessions_limited:
  assumes "reach (sessions_start M) sessions_step S"
  shows "card (sessions_of S ud) \<le> max 1 M \<and> destroySession S sid \<noteq> Some (Inl ''Unregistered Session??'')"
proof -
  have I: "sessions_counted M S" "M < 2 ^ 32" using sessions_machine.reachable [OF assms] by simp_all
  have "given S ud \<le> max 1 M" using countedD(5) [OF I(1)] by (auto simp: given_def split: option.splits)
  then have "card (sessions_of S ud) \<le> max 1 M" using countedD(3) [OF I(1), of ud] by simp
  moreover have "destroySession S sid \<noteq> Some (Inl ''Unregistered Session??'')"
    using destroySession_counted(1) [OF I] by blast
  ultimately show ?thesis by blast
qed

definition two_logins :: sessionsManager where
  "two_logins = (let s = (Session_new 5 5 '''' ''web'')\<lparr>authUser := ''bob''\<rparr>;
       S = setMaxSessionsPerUser (SessionsManager_new (\<lambda>_. WebSession_new '''' '''' s)) 2
     in fst (createWebSession ''b'' ''c2'' ''t2'' 2 (fst (createWebSession ''a'' ''c1'' ''t1'' 1 S s)) s))"

lemma two_logins_reached: "reach (sessions_start 2) sessions_step two_logins"
  unfolding two_logins_def Let_def
  apply (rule reach_step, rule reach_step, rule reach_init)
    apply (auto simp: sessions_start_def) [1]
   apply (rule sessions_step.create)
   apply (simp add: setMaxSessionsPerUser_def SessionsManager_new_def)
  apply (rule sessions_step.create)
  apply (auto simp: createWebSession_def countSession_def setMaxSessionsPerUser_def SessionsManager_new_def addElement_def
      split: if_splits)
  done

theorem sessions_limited_witness:
  "card (sessions_of two_logins (''bob'', '''')) \<le> max 1 2 \<and> destroySession two_logins ''a'' \<noteq> Some (Inl ''Unregistered Session??'')"
  by (rule sessions_limited [OF two_logins_reached])

lemma gc_collects_all:
  assumes "std_map_ok m" "\<forall>(k, x)\<in>set m. readers x = 0 \<and> (\<exists>e. rdElement x = Some e \<and> session_expired now S e)"
  shows "gc_loop now (S\<lparr>sm_sessions := m\<rparr>) (map fst m) = Some (Inr (S\<lparr>sm_sessions := []\<rparr>))"
  using assms
proof (induction m)
  case (Cons p m)
  obtain k x e where p: "p = (k, x)" "readers x = 0" "rdElement x = Some e" "session_expired now S e"
    using Cons.prems(2) by (cases p) auto
  have "k \<notin> fst ` set m" using Cons.prems(1) by (auto simp: p)
  then have "std_erase k m = m" by (force simp: std_erase_def intro!: filter_True)
  moreover have "session_expired now (S\<lparr>sm_sessions := a\<rparr>) e" for a using p(4) by (simp add: session_expired_def)
  ultimately show ?case
    using Cons by (simp add: p openElement_def releaseElement_def Let_def sm_destroyElement_def destroyElement_take_def
        destroyElement_test_def std_erase_def)
qed simp

text \<open>The collector removes expired sessions but does not count them back. A user who has had as many
  sessions as the limit allows, all of them expired and collected, can never log in again.\<close>

theorem collected_sessions_lock_out:
  assumes "std_map_ok (sm_sessions S)" "sessionPerUser S ud = Some c" "maxSessionsPerUser S \<le> c"
    "\<forall>(k, x)\<in>set (sm_sessions S). readers x = 0 \<and> (\<exists>e. rdElement x = Some e \<and> session_expired now S e)"
    "getUserDomainPair s = ud"
  shows "\<exists>S'. gc now S = Some (Inr S') \<and> sm_sessions S' = [] \<and> createWebSession newId confirmToken csrfToken address S' s = (S', '''')"
proof -
  have "gc now S = Some (Inr (S\<lparr>sm_sessions := []\<rparr>))"
    using gc_collects_all [OF assms(1,4)] by (simp add: gc_def)
  then show ?thesis using assms(2,3,5) by (simp add: createWebSession_def countSession_def)
qed

theorem collected_sessions_lock_out_witness:
  "\<exists>S'. gc 1000 two_logins = Some (Inr S') \<and> sm_sessions S' = [] \<and>
    createWebSession ''c'' ''c3'' ''t3'' 3 S' ((Session_new 1000 1000 '''' ''web'')\<lparr>authUser := ''bob''\<rparr>) = (S', '''')"
  by (rule collected_sessions_lock_out [where ud = "(''bob'', '''')" and c = 2])
    (auto simp: two_logins_def Let_def createWebSession_def countSession_def setMaxSessionsPerUser_def SessionsManager_new_def
      addElement_def getUserDomainPair_def Session_new_def session_expired_def isLastActivityExpired_def WebSession_new_def
      setSessionId_def)

end
