(* ===== verification/Web_Client.thy ===== *)
theory Web_Client
  imports Rpc_Methods Rpc_Authentication Web_Sessions
begin

text \<open>
  \<^verbatim>\<open>RPC/mdz_xrpc_webserver/webclienthandler.cpp\<close>: what a web server does with a request to its API. A handler
  serves one request; its fields and the server's domains, methods and sessions are the state, an operation is a
  function of it that ends with a value or with the failure that ends the thread. What the handler was given, the
  request and the random values it draws are one record. Log messages are left out, and the answer is kept as
  JSON, because writing it is JsonCpp.
\<close>

subsection \<open>State\<close>

datatype eRetCode = S_200_OK | S_302_FOUND | S_307_TEMPORARY_REDIRECT | S_400_BAD_REQUEST | S_401_UNAUTHORIZED
| S_403_FORBIDDEN | S_404_NOT_FOUND | S_500_INTERNAL_SERVER_ERROR

datatype cookie_event = Clear_Secure string | Set_Secure string string nat | Set_Timeout nat

record web_env =
  wc_appName :: string
  usingCSRFToken :: bool
  softwareVersion :: string
  userIP :: string
  userTLSCommonName :: string
  wc_parse :: "string \<Rightarrow> json option"
  rq_uri :: string
  rq_get :: "string \<Rightarrow> string"
  rq_post :: "string \<Rightarrow> string"
  rq_sessionCookie :: string
  rq_csrfToken :: string
  rq_userAgent :: string
  wr_env :: rpc_env
  wr_regenId :: string
  wr_newId :: string
  wr_confirmToken :: string
  wr_csrfToken :: string
  wr_address :: nat

record web_state =
  ws_domains :: "auth_db manager domains option"
  ws_methods :: methodsManager
  ws_sessions :: sessionsManager
  sSessionId :: string
  sClientCSRFToken :: string
  credentials :: authentication
  extraCredentials :: multiAuths
  cur_webSession :: "nat option"
  cur_authSession :: "nat option"
  uSessionMaxAge :: nat
  bReleaseSessionHandler :: bool
  bDestroySession :: bool
  response :: "json option"
  cookies :: "cookie_event list"

type_synonym 'a web = "web_state \<Rightarrow> web_state \<times> (failure + 'a)"

text \<open>Sequences of operations: a failure ends the sequence.\<close>

definition web_return :: "'a \<Rightarrow> 'a web" where
  "web_return x w = (w, Inr x)"

definition web_bind :: "'a web \<Rightarrow> ('a \<Rightarrow> 'b web) \<Rightarrow> 'b web" where
  "web_bind f g w = (case f w of (w', Inl e) \<Rightarrow> (w', Inl e) | (w', Inr x) \<Rightarrow> g x w')"

definition web_seq :: "unit web \<Rightarrow> 'b web \<Rightarrow> 'b web" where
  "web_seq f g = web_bind f (\<lambda>_. g)"

definition web_get :: "(web_state \<Rightarrow> 'a) \<Rightarrow> 'a web" where
  "web_get f w = (w, Inr (f w))"

definition web_do :: "(web_state \<Rightarrow> web_state) \<Rightarrow> unit web" where
  "web_do f w = (f w, Inr ())"

definition web_fail :: "failure \<Rightarrow> 'a web" where
  "web_fail e w = (w, Inl e)"

definition web_handler :: "auth_db manager domains option \<Rightarrow> methodsManager \<Rightarrow> sessionsManager \<Rightarrow> web_state" where
  "web_handler D M S = \<lparr>ws_domains = D, ws_methods = M, ws_sessions = S, sSessionId = '''', sClientCSRFToken = '''',
     credentials = Authentication_new, extraCredentials = [], cur_webSession = None, cur_authSession = None,
     uSessionMaxAge = 0, bReleaseSessionHandler = False, bDestroySession = False, response = None, cookies = []\<rparr>"

definition web_now :: "web_env \<Rightarrow> int" where
  "web_now W = re_now (wr_env W)"

definition web_clientDetails :: "web_env \<Rightarrow> sClientDetails" where
  "web_clientDetails W = \<lparr>sIPAddr = userIP W, cd_sExtraData = '''', sTLSCommonName = userTLSCommonName W, sUserAgent = rq_userAgent W\<rparr>"

definition web_cookie :: "cookie_event \<Rightarrow> unit web" where
  "web_cookie c = web_do (\<lambda>w. w\<lparr>cookies := cookies w @ [c]\<rparr>)"

definition web_respond :: "json \<Rightarrow> 'a \<Rightarrow> 'a web" where
  "web_respond j ret = web_seq (web_do (\<lambda>w. w\<lparr>response := Some j\<rparr>)) (web_return ret)"

definition rpc_ok :: "bool \<Rightarrow> json" where
  "rpc_ok b = json_fields [(''ok'', JsonBool b)]"

subsection \<open>Domains and sessions\<close>

definition web_openDomain :: "string \<Rightarrow> nat option web" where
  "web_openDomain domainName w =
     (case ws_domains w of
        None \<Rightarrow> (w, Inl Null_Dereference)
      | Some D \<Rightarrow> let (D', a) = openDomain D domainName in (w\<lparr>ws_domains := Some D'\<rparr>, Inr a))"

definition web_releaseDomain :: "string \<Rightarrow> unit web" where
  "web_releaseDomain domainName w =
     (case ws_domains w of
        None \<Rightarrow> (w, Inl Null_Dereference)
      | Some D \<Rightarrow> (case releaseDomain D domainName of
          Inl e \<Rightarrow> (w, Inl (Exception e))
        | Inr (D', _) \<Rightarrow> (w\<lparr>ws_domains := Some D'\<rparr>, Inr ())))"

text \<open>A method of the manager at an address.\<close>

definition web_manager :: "nat \<Rightarrow> (auth_db manager \<Rightarrow> auth_db manager \<times> 'a) \<Rightarrow> 'a web" where
  "web_manager a f w =
     (case ws_domains w of
        None \<Rightarrow> (w, Inl Null_Dereference)
      | Some D \<Rightarrow> let (m, x) = f (domainManagers D a) in (w\<lparr>ws_domains := Some (set_manager a m D)\<rparr>, Inr x))"

definition web_authenticate :: "web_env \<Rightarrow> nat \<Rightarrow> string \<Rightarrow> string \<Rightarrow> nat \<Rightarrow> bool \<Rightarrow> (Reason \<times> (nat, string) std_map option) web" where
  "web_authenticate W a user password passIndex want = web_manager a (\<lambda>m.
     let (m', r, st) = authenticate (re_crypto (wr_env W)) manager_db_virtuals (web_now W) m (wc_appName W) (web_clientDetails W)
       user password passIndex MODE_PLAIN '''' want
     in (m', r, st))"

definition session_at :: "web_state \<Rightarrow> nat \<Rightarrow> session" where
  "session_at w e = ws_authSession (sm_store (ws_sessions w) e)"

definition web_update_session :: "nat \<Rightarrow> (session \<Rightarrow> session) \<Rightarrow> unit web" where
  "web_update_session e f = web_do (\<lambda>w. w\<lparr>ws_sessions := update_session e f (ws_sessions w)\<rparr>)"

text \<open>\<^verbatim>\<open>authSession->updateLastActivity()\<close>, when there is a session.\<close>

definition web_touch :: "web_env \<Rightarrow> unit web" where
  "web_touch W w = (case cur_authSession w of
     Some e \<Rightarrow> web_update_session e (iUpdateLastActivity (web_now W)) w
   | None \<Rightarrow> (w, Inr ()))"

definition web_openSession :: "web_env \<Rightarrow> string \<Rightarrow> (nat \<times> nat) option web" where
  "web_openSession W sid w =
     (let (S, r) = openSession (web_now W) (ws_sessions w) sid in (w\<lparr>ws_sessions := S\<rparr>, Inr r))"

definition web_releaseSession :: "string \<Rightarrow> unit web" where
  "web_releaseSession sid w =
     (case releaseSession (ws_sessions w) sid of
        Inl e \<Rightarrow> (w, Inl (Exception e))
      | Inr (S, _) \<Rightarrow> (w\<lparr>ws_sessions := S\<rparr>, Inr ()))"

text \<open>Without a session of this name the handler keeps the authenticated session it had.\<close>

definition sessionOpen :: "web_env \<Rightarrow> unit web" where
  "sessionOpen W = web_bind (web_get sSessionId) (\<lambda>sid. web_bind (web_openSession W sid) (\<lambda>r. case r of
     Some (e, maxAge) \<Rightarrow> web_do (\<lambda>w. w\<lparr>cur_webSession := Some e, uSessionMaxAge := maxAge, bReleaseSessionHandler := True,
       cur_authSession := Some e\<rparr>)
   | None \<Rightarrow> web_seq (web_do (\<lambda>w. w\<lparr>cur_webSession := None\<rparr>))
       (web_seq (if sid \<noteq> '''' then web_cookie (Clear_Secure ''sessionId'') else web_return ())
         (web_do (\<lambda>w. w\<lparr>sSessionId := ''''\<rparr>)))))"

definition sessionRelease :: "unit web" where
  "sessionRelease w =
     (if bReleaseSessionHandler w
      then web_seq (web_cookie (Set_Timeout (uSessionMaxAge w)))
        (web_seq (web_cookie (Set_Secure ''sessionId'' (sSessionId w) (uSessionMaxAge w)))
          (web_releaseSession (sSessionId w))) w
      else (w, Inr ()))"

text \<open>None: the thread waits for the readers of the session.\<close>

definition sessionDestroy :: "web_state \<Rightarrow> (web_state \<times> (failure + unit)) option" where
  "sessionDestroy w =
     (if bDestroySession w
      then let w1 = w\<lparr>cookies := cookies w @ [Clear_Secure ''jsSessionTimeout'', Clear_Secure ''sessionId'']\<rparr> in
        (case destroySession (ws_sessions w1) (sSessionId w1) of
           None \<Rightarrow> None
         | Some (Inl e) \<Rightarrow> Some (w1, Inl (Exception e))
         | Some (Inr (S, _)) \<Rightarrow> Some (w1\<lparr>ws_sessions := S\<rparr>, Inr ()))
      else Some (w, Inr ()))"

subsection \<open>Authentication\<close>

definition temporaryAuthentication :: "web_env \<Rightarrow> string \<Rightarrow> string \<Rightarrow> authentication \<Rightarrow> Reason web" where
  "temporaryAuthentication W userName domainName authData =
     web_bind (web_openDomain domainName) (\<lambda>auth. case auth of
         None \<Rightarrow> web_return REASON_INVALID_DOMAIN
       | Some a \<Rightarrow> web_bind (web_authenticate W a userName (sPassword authData) (iPassIDX authData) False) (\<lambda>(r, _).
           web_seq (web_releaseDomain domainName) (web_return r)))"

text \<open>The new authentication session of a first login; the constructor leaves its times open, the registration
  sets them.\<close>

definition first_session :: "web_env \<Rightarrow> string \<Rightarrow> string \<Rightarrow> nat \<Rightarrow> Reason \<Rightarrow> (nat, string) std_map \<Rightarrow> session" where
  "first_session W userName domainName passIndex r st =
     (let s = setIsPersistentSession (Session_new 0 0 (wr_regenId W) (wc_appName W)) True;
          s1 = registerPersistentAuthentication (web_now W) s userName domainName passIndex r
      in if passIndex = 0 then setRequiredLoginIdx s1 st else s1)"

text \<open>The question to the manager of the domain: the reason and the indexes the account needs.\<close>

definition persistent_ask :: "web_env \<Rightarrow> string \<Rightarrow> string \<Rightarrow> authentication \<Rightarrow> (Reason \<times> (nat, string) std_map) web" where
  "persistent_ask W userName domainName authData = web_bind (web_openDomain domainName) (\<lambda>auth. case auth of
       None \<Rightarrow> web_return (REASON_INVALID_DOMAIN, [])
     | Some a \<Rightarrow> web_bind (web_authenticate W a userName (sPassword authData) (iPassIDX authData) True) (\<lambda>(r, st).
         web_seq (web_releaseDomain domainName) (web_return (r, case st of Some x \<Rightarrow> x | None \<Rightarrow> []))))"

text \<open>The result is the session identifier, empty when there is none, and the reason.\<close>

definition persistentAuthentication :: "web_env \<Rightarrow> string \<Rightarrow> string \<Rightarrow> authentication \<Rightarrow> nat option \<Rightarrow> (string \<times> Reason) web" where
  "persistentAuthentication W userName domainName authData lAuthSession =
     (if lAuthSession = None \<and> iPassIDX authData \<noteq> 0 then web_return ('''', REASON_INTERNAL_ERROR)
      else web_bind (persistent_ask W userName domainName authData)
        (\<lambda>(r, st).
          if \<not> IS_PASSWORD_AUTHENTICATED r then web_return ('''', r)
          else case lAuthSession of
            None \<Rightarrow> (\<lambda>w. let (S, sid) = createWebSession (wr_newId W) (wr_confirmToken W) (wr_csrfToken W) (wr_address W)
                (ws_sessions w) (first_session W userName domainName (iPassIDX authData) r st)
              in (w\<lparr>ws_sessions := S\<rparr>, Inr (sid, r)))
          | Some e \<Rightarrow> web_seq (web_update_session e
                (\<lambda>s. registerPersistentAuthentication (web_now W) s userName domainName (iPassIDX authData) r))
              (web_bind (web_get (\<lambda>w. sessionId (session_at w e))) (\<lambda>sid. web_return (sid, r)))))"

fun Reason_number :: "Reason \<Rightarrow> nat" where
  "Reason_number REASON_AUTHENTICATED = 0"
| "Reason_number REASON_INTERNAL_ERROR = 500"
| "Reason_number REASON_NOT_IMPLEMENTED = 501"
| "Reason_number REASON_DUPLICATED_SESSION = 502"
| "Reason_number REASON_EXPIRED_PASSWORD = 100"
| "Reason_number REASON_EXPIRED_ACCOUNT = 102"
| "Reason_number REASON_DISABLED_ACCOUNT = 103"
| "Reason_number REASON_UNCONFIRMED_ACCOUNT = 104"
| "Reason_number REASON_BAD_ACCOUNT = 105"
| "Reason_number REASON_BAD_PASSWORD = 106"
| "Reason_number REASON_PASSWORD_INDEX_NOTFOUND = 107"
| "Reason_number REASON_INVALID_DOMAIN = 994"
| "Reason_number REASON_INVALID_AUTHENTICATOR = 995"
| "Reason_number REASON_SESSIONLIMITS_EXCEEDED = 996"
| "Reason_number REASON_ANSWER_TIMEDOUT = 997"
| "Reason_number REASON_EXPIRED = 998"
| "Reason_number REASON_UNAUTHENTICATED = 999"

definition reason_fields :: "Reason \<Rightarrow> (string \<times> json) list" where
  "reason_fields r = [(''txt'', JsonString (getReasonText r)), (''val'', JsonInt (int (Reason_number r)))]"

definition next_field :: "int \<Rightarrow> session \<Rightarrow> string \<times> json" where
  "next_field now s =
     (let (i, desc) = getNextRequiredLoginIdxs now s in
      (''nextPassReq'', if i \<noteq> 0xFFFFFFFF then json_fields [(''idx'', JsonInt (int i)), (''desc'', JsonString desc)]
         else JsonBool False))"

subsection \<open>The session API\<close>

definition procJAPI_Session_LOGIN :: "web_env \<Rightarrow> authentication \<Rightarrow> eRetCode web" where
  "procJAPI_Session_LOGIN W auth =
     web_bind (persistentAuthentication W (rq_post W ''user'') (rq_post W ''domain'') auth None) (\<lambda>(sid, r).
     web_seq (web_do (\<lambda>w. w\<lparr>sSessionId := sid\<rparr>))
      (if sid = '''' then web_respond (json_fields (reason_fields r)) S_401_UNAUTHORIZED
       else web_bind (web_openSession W sid) (\<lambda>cur. case cur of
           None \<Rightarrow> web_respond (json_fields (reason_fields r)) S_401_UNAUTHORIZED
         | Some (e, uMaxAge) \<Rightarrow>
             web_seq (if usingCSRFToken W then web_return () else web_cookie (Set_Secure ''sessionId'' sid uMaxAge))
             (web_bind (web_get (\<lambda>w. sm_store (ws_sessions w) e)) (\<lambda>ws.
              web_seq (web_releaseSession sid)
               (web_respond (json_fields (reason_fields r @
                  (if usingCSRFToken W then [(''sessionId'', JsonString sid), (''maxAge'', JsonInt (int uMaxAge))] else []) @
                  [(''csrfAuthConfirm'', JsonString (sCSRFAuthConfirmToken ws)), next_field (web_now W) (ws_authSession ws)]))
                 S_200_OK))))))"

text \<open>The identifier is overwritten, by the empty one when the password is refused.\<close>

definition procJAPI_Session_POSTLOGIN :: "web_env \<Rightarrow> authentication \<Rightarrow> eRetCode web" where
  "procJAPI_Session_POSTLOGIN W auth = web_bind (web_get cur_authSession) (\<lambda>cur. case cur of
       None \<Rightarrow> web_fail Null_Dereference
     | Some e \<Rightarrow> web_bind (web_get (\<lambda>w. session_at w e)) (\<lambda>s.
         web_bind (persistentAuthentication W (authUser s) (authDomain s) auth (Some e)) (\<lambda>(sid, r).
         web_seq (web_do (\<lambda>w. w\<lparr>sSessionId := sid\<rparr>))
         (if IS_PASSWORD_AUTHENTICATED r
          then web_bind (web_get (\<lambda>w. session_at w e)) (\<lambda>s1.
            web_respond (json_fields (reason_fields r @ [next_field (web_now W) s1])) S_200_OK)
          else web_seq (web_do (\<lambda>w. w\<lparr>bDestroySession := True\<rparr>))
            (web_respond (json_fields (reason_fields r @ [(''nextPassReq'', JsonBool False)])) S_401_UNAUTHORIZED)))))"

definition procJAPI_Session_CHPASSWD :: "web_env \<Rightarrow> authentication \<Rightarrow> eRetCode web" where
  "procJAPI_Session_CHPASSWD W oldAuth = web_bind (web_get cur_authSession) (\<lambda>cur. case cur of
       None \<Rightarrow> web_return S_401_UNAUTHORIZED
     | Some e \<Rightarrow> (case Authentication_fromString (wc_parse W) Authentication_new (rq_post W ''newAuth'') of
         Inl x \<Rightarrow> web_fail x
       | Inr (_, False) \<Rightarrow> web_return S_400_BAD_REQUEST
       | Inr (newAuth, True) \<Rightarrow>
           if iPassIDX oldAuth \<noteq> iPassIDX newAuth then web_return S_400_BAD_REQUEST
           else web_bind (web_get (\<lambda>w. session_at w e)) (\<lambda>s.
             let credIdx = iPassIDX newAuth in
             web_bind (web_openDomain (authDomain s)) (\<lambda>auth. case auth of
                 None \<Rightarrow> web_respond JsonNull S_401_UNAUTHORIZED
               | Some a \<Rightarrow> web_bind (web_authenticate W a (authUser s) (sPassword oldAuth) credIdx False) (\<lambda>(r, _).
                   if IS_PASSWORD_AUTHENTICATED r
                   then web_bind (web_manager a (\<lambda>m. accountChangeAuthenticatedSecret (re_crypto (wr_env W)) manager_db_virtuals
                       (web_now W) m (wc_appName W) (authUser s) credIdx (sPassword oldAuth)
                       (createNewSecret (re_crypto (wr_env W)) (re_salt (wr_env W)) (sPassword newAuth) FN_SSHA256 False 0 0)
                       (web_clientDetails W) MODE_PLAIN '''')) (\<lambda>ok.
                     web_seq (web_releaseDomain (authDomain s)) (web_respond (rpc_ok ok) S_200_OK))
                   else web_seq (web_do (\<lambda>w. w\<lparr>bDestroySession := True\<rparr>))
                     (web_seq (web_releaseDomain (authDomain s)) (web_respond JsonNull S_401_UNAUTHORIZED)))))))"

text \<open>As written: the index is always 0 and the answer is always true.\<close>

definition procJAPI_Session_TESTPASSWD :: "web_env \<Rightarrow> authentication \<Rightarrow> eRetCode web" where
  "procJAPI_Session_TESTPASSWD W auth = web_bind (web_get cur_authSession) (\<lambda>cur. case cur of
       None \<Rightarrow> web_return S_401_UNAUTHORIZED
     | Some e \<Rightarrow> web_bind (web_get (\<lambda>w. session_at w e)) (\<lambda>s.
         web_bind (web_openDomain (authDomain s)) (\<lambda>dom. case dom of
             None \<Rightarrow> web_respond JsonNull S_401_UNAUTHORIZED
           | Some a \<Rightarrow> web_bind (web_authenticate W a (authUser s) (sPassword auth) 0 False) (\<lambda>(r, _).
               let authenticated = IS_PASSWORD_AUTHENTICATED r in
               web_seq (if authenticated then web_return () else web_do (\<lambda>w. w\<lparr>bDestroySession := True\<rparr>))
                (web_seq (web_releaseDomain (authDomain s))
                  (web_respond (rpc_ok True) (if authenticated then S_200_OK else S_401_UNAUTHORIZED)))))))"

definition passwd_item :: "int \<Rightarrow> nat \<times> Secret_PublicData \<Rightarrow> json" where
  "passwd_item now = (\<lambda>(i, p). json_fields
     [(''badAtttempts'', JsonInt (int (pd_badAttempts p))), (''forceExpiration'', JsonBool (pd_forceExpiration p)),
      (''nul'', JsonBool (pd_nul p)), (''passwordFunction'', JsonInt (int (Function_number (pd_passwordFunction p)))),
      (''expiration'', JsonInt (pd_expiration p mod 2 ^ 64)), (''description'', JsonString (pd_description p)),
      (''isExpired'', JsonBool (PublicData_isExpired now p)), (''isRequiredAtLogin'', JsonBool (pd_requiredAtLogin p)),
      (''isLocked'', JsonBool (pd_locked p)), (''idx'', JsonInt (int i))])"

text \<open>As written: the domain is not released.\<close>

definition procJAPI_Session_PASSWDLIST :: "web_env \<Rightarrow> eRetCode web" where
  "procJAPI_Session_PASSWDLIST W = web_bind (web_get cur_authSession) (\<lambda>cur. case cur of
       None \<Rightarrow> web_return S_401_UNAUTHORIZED
     | Some e \<Rightarrow> web_bind (web_get (\<lambda>w. session_at w e)) (\<lambda>s.
         web_bind (web_openDomain (authDomain s)) (\<lambda>dom. case dom of
             None \<Rightarrow> web_respond JsonNull S_500_INTERNAL_SERVER_ERROR
           | Some a \<Rightarrow> web_bind (web_manager a (\<lambda>m. (m, getAccountAllSecretsPublicData manager_db_virtuals m (authUser s))))
               (\<lambda>publics. web_respond (json_items (map (passwd_item (web_now W)) publics)) S_200_OK))))"

definition procJAPI_Session_CSRFTOKEN :: "web_env \<Rightarrow> eRetCode web" where
  "procJAPI_Session_CSRFTOKEN W = web_bind (web_get cur_webSession) (\<lambda>cur. case cur of
       None \<Rightarrow> web_fail Null_Dereference
     | Some e \<Rightarrow> web_bind (web_get (\<lambda>w. sCSRFToken (sm_store (ws_sessions w) e))) (\<lambda>t.
         web_seq (web_touch W) (web_respond (json_fields [(''csrfToken'', JsonString t)]) S_200_OK)))"

definition procJAPI_Session_AUTHINFO :: "web_env \<Rightarrow> eRetCode web" where
  "procJAPI_Session_AUTHINFO W = web_bind (web_get (\<lambda>w. (map_option (session_at w) (cur_authSession w), uSessionMaxAge w)))
     (\<lambda>(s, age). web_respond (json_fields
        [(''user'', JsonString (case s of Some x \<Rightarrow> authUser x | None \<Rightarrow> '''')),
         (''domain'', JsonString (case s of Some x \<Rightarrow> authDomain x | None \<Rightarrow> '''')), (''maxAge'', JsonInt (int age))]) S_200_OK)"

definition procJAPI_Version :: "web_env \<Rightarrow> eRetCode web" where
  "procJAPI_Version W = web_respond (json_fields [(''version'', JsonString (softwareVersion W))]) S_200_OK"

text \<open>The modes after the check of the token. \<^verbatim>\<open>confirmed\<close>: there is a web session and its first token was
  confirmed; \<^verbatim>\<open>complete\<close>: its authentication session passed every index it needs.\<close>

definition session_confirmed :: "web_state \<Rightarrow> bool" where
  "session_confirmed w \<longleftrightarrow> (case cur_webSession w of Some e \<Rightarrow> bAuthTokenConfirmed (sm_store (ws_sessions w) e) | None \<Rightarrow> False)"

definition session_complete :: "web_env \<Rightarrow> web_state \<Rightarrow> bool" where
  "session_complete W w \<longleftrightarrow> (case (cur_webSession w, cur_authSession w) of
     (Some _, Some e) \<Rightarrow> session_confirmed w \<and> getIsFullyLoggedIn (web_now W) (session_at w e) CHECK_ALLOW_EXPIRED_PASSWORDS
   | _ \<Rightarrow> False)"

definition procJAPI_Session_modes :: "web_env \<Rightarrow> string \<Rightarrow> eRetCode \<Rightarrow> eRetCode web" where
  "procJAPI_Session_modes W sMode ret w =
     (if cur_webSession w = None \<and> sMode = ''LOGIN'' \<and> (\<not> usingCSRFToken W \<or> sClientCSRFToken w = ''00112233445566778899'')
      then procJAPI_Session_LOGIN W (credentials w) w
      else if session_confirmed w \<and> sMode = ''POSTLOGIN'' then procJAPI_Session_POSTLOGIN W (credentials w) w
      else if session_complete W w \<and> sMode = ''CHPASSWD'' then procJAPI_Session_CHPASSWD W (credentials w) w
      else if session_complete W w \<and> sMode = ''TESTPASSWD'' then procJAPI_Session_TESTPASSWD W (credentials w) w
      else if session_complete W w \<and> sMode = ''PASSWDLIST'' then procJAPI_Session_PASSWDLIST W w
      else if session_confirmed w \<and> sMode = ''CSRFTOKEN'' then procJAPI_Session_CSRFTOKEN W w
      else if session_confirmed w \<and> sMode = ''AUTHINFO'' then procJAPI_Session_AUTHINFO W w
      else if cur_webSession w \<noteq> None \<and> sMode = ''LOGOUT''
        then web_seq (web_do (\<lambda>w. w\<lparr>bDestroySession := True\<rparr>)) (web_return S_200_OK) w
      else (w, Inr ret))"

text \<open>The check of the token: whether it is passed, and the code so far.\<close>

definition csrf_check :: "web_env \<Rightarrow> string \<Rightarrow> (bool \<times> eRetCode) web" where
  "csrf_check W sMode w =
     (if \<not> usingCSRFToken W then (w, Inr (True, S_404_NOT_FOUND))
      else case cur_webSession w of
        Some e \<Rightarrow> let ws = sm_store (ws_sessions w) e; valid = validateCSRFToken ws (sClientCSRFToken w) in
          if \<not> bAuthTokenConfirmed ws \<and> sMode = ''AUTHCSRF''
          then let (ws', ok) = confirmAuthCSRFToken ws (sClientCSRFToken w);
                   w1 = w\<lparr>ws_sessions := (ws_sessions w)\<lparr>sm_store := (sm_store (ws_sessions w))(e := ws')\<rparr>\<rparr>
            in if ok then web_seq (web_cookie (Set_Secure ''sessionId'' (sSessionId w1) (uSessionMaxAge w1)))
                   (web_return (False, S_200_OK)) w1
               else (w1, Inr (False, S_401_UNAUTHORIZED))
          else if bAuthTokenConfirmed ws \<and> valid then (w, Inr (True, S_404_NOT_FOUND))
          else if bAuthTokenConfirmed ws \<and> \<not> valid \<and> sMode \<noteq> ''CSRFTOKEN'' then (w, Inr (False, S_404_NOT_FOUND))
          else if bAuthTokenConfirmed ws \<and> sMode = ''CSRFTOKEN'' then (w, Inr (True, S_404_NOT_FOUND))
          else (w, Inr (False, S_404_NOT_FOUND))
      | None \<Rightarrow> (w, Inr (sMode = ''LOGIN'', S_404_NOT_FOUND)))"

definition procJAPI_Session :: "web_env \<Rightarrow> eRetCode web" where
  "procJAPI_Session W =
     (let sMode = rq_get W ''mode'' in
      web_seq (\<lambda>w. if sSessionId w = '''' \<and> usingCSRFToken W \<and> sMode = ''AUTHCSRF''
          then web_seq (web_do (\<lambda>w. w\<lparr>sSessionId := rq_post W ''sessionId''\<rparr>)) (sessionOpen W) w else (w, Inr ()))
       (web_bind (csrf_check W sMode) (\<lambda>(ok, ret).
          if ok then procJAPI_Session_modes W sMode ret else web_return ret)))"

definition csrfValidate :: "web_env \<Rightarrow> web_state \<Rightarrow> bool" where
  "csrfValidate W w \<longleftrightarrow>
     (if usingCSRFToken W
      then (case cur_webSession w of
          Some e \<Rightarrow> bAuthTokenConfirmed (sm_store (ws_sessions w) e) \<and>
            validateCSRFToken (sm_store (ws_sessions w) e) (sClientCSRFToken w)
        | None \<Rightarrow> False)
      else True)"

subsection \<open>Calls of methods\<close>

text \<open>The passwords that come with the call, one after the other; the indexes of those that authenticate.\<close>

fun extra_loop :: "web_env \<Rightarrow> string \<Rightarrow> string \<Rightarrow> multiAuths \<Rightarrow> nat list \<Rightarrow> nat set \<Rightarrow> nat set web" where
  "extra_loop W userName domainName extraAuths [] r = web_return r"
| "extra_loop W userName domainName extraAuths (i # is) r =
     web_bind (temporaryAuthentication W userName domainName (getAuthentication extraAuths i)) (\<lambda>reason.
       extra_loop W userName domainName extraAuths is (if IS_PASSWORD_AUTHENTICATED reason then insert i r else r))"

definition web_requireFullAuth :: "string \<Rightarrow> bool web" where
  "web_requireFullAuth methodName w =
     (let (mm, b) = getMethodRequireFullAuth (ws_methods w) methodName in (w\<lparr>ws_methods := mm\<rparr>, Inr b))"

definition web_validate :: "web_env \<Rightarrow> nat \<Rightarrow> string \<Rightarrow> nat set \<Rightarrow> (eMethodValidationCodes \<times> json) web" where
  "web_validate W a methodName extraTmpIndexes w =
     (case ws_domains w of
        None \<Rightarrow> (w, Inl Null_Dereference)
      | Some D \<Rightarrow>
          let (mm, r) = validateRPCMethodPerms (web_now W) manager_db_virtuals (manager_db (domainManagers D a)) (ws_methods w)
                (map_option (session_at w) (cur_authSession w)) methodName extraTmpIndexes
          in (w\<lparr>ws_methods := mm\<rparr>, case r of None \<Rightarrow> Inl Null_Dereference | Some x \<Rightarrow> Inr x))"

definition web_run :: "web_env \<Rightarrow> string \<Rightarrow> string \<Rightarrow> json \<Rightarrow> (eRetCodes \<times> json option) web" where
  "web_run W domainName methodName payload w =
     (case ws_domains w of
        None \<Rightarrow> (w, Inl Null_Dereference)
      | Some D \<Rightarrow>
          let (D', r) = runRPCMethod (wr_env W) (ws_methods w) D domainName (map_option (session_at w) (cur_authSession w))
                methodName payload
          in (w\<lparr>ws_domains := Some D'\<rparr>, r))"

definition web_execute :: "web_env \<Rightarrow> string \<Rightarrow> string \<Rightarrow> json \<Rightarrow> (eRetCode \<times> json) web" where
  "web_execute W domainName methodName payload = web_seq (web_touch W)
     (web_bind (web_run W domainName methodName payload) (\<lambda>(code, out).
       let out = (case out of Some j \<Rightarrow> j | None \<Rightarrow> JsonNull) in web_return (case code of
           METHOD_RET_CODE_SUCCESS \<Rightarrow> (S_200_OK, out)
         | METHOD_RET_CODE_METHODNOTFOUND \<Rightarrow> (S_404_NOT_FOUND, out)
         | METHOD_RET_CODE_INVALIDDOMAIN \<Rightarrow> (S_404_NOT_FOUND, out)
         | _ \<Rightarrow> (S_401_UNAUTHORIZED, out))))"

text \<open>The call after the check of the token; None is an early return, which sets no answer. As written, the
  payload is only parsed when the request has a variable \<^verbatim>\<open>payload\<close>.\<close>

definition exec_call :: "web_env \<Rightarrow> multiAuths \<Rightarrow> string \<Rightarrow> string \<Rightarrow> (eRetCode \<times> json option) web" where
  "exec_call W extraAuths sMethodName sPayloadIn = web_bind (web_get (\<lambda>w. map_option (session_at w) (cur_authSession w))) (\<lambda>s.
     let userName = (case s of Some x \<Rightarrow> authUser x | None \<Rightarrow> rq_post W ''user'');
         domainName = (case s of Some x \<Rightarrow> authDomain x | None \<Rightarrow> rq_post W ''domain'');
         parsed = (if rq_post W ''payload'' = '''' then Some JsonNull else wc_parse W sPayloadIn)
     in case parsed of
       None \<Rightarrow> web_return (S_400_BAD_REQUEST, None)
     | Some jPayloadIn \<Rightarrow> web_bind (web_get ws_domains) (\<lambda>d.
         if d = None then web_return (S_500_INTERNAL_SERVER_ERROR, None)
         else web_bind (web_requireFullAuth sMethodName) (\<lambda>full.
           if full \<and> s = None then web_return (S_404_NOT_FOUND, None)
           else web_bind (extra_loop W userName domainName extraAuths (getAuthenticationsIdxs extraAuths) {}) (\<lambda>extraTmpIndexes.
             web_bind (web_openDomain domainName) (\<lambda>authorizer. case authorizer of
               None \<Rightarrow> web_return (S_404_NOT_FOUND, Some JsonNull)
             | Some a \<Rightarrow> web_bind (web_validate W a sMethodName extraTmpIndexes) (\<lambda>(code, reasons).
                 web_seq (web_releaseDomain domainName) (case code of
                   VALIDATION_OK \<Rightarrow> web_bind (web_execute W domainName sMethodName jPayloadIn) (\<lambda>(ret, out). web_return (ret, Some out))
                 | VALIDATION_NOTAUTHORIZED \<Rightarrow> web_return (S_401_UNAUTHORIZED,
                     Some (json_fields [(''auth'', json_fields [(''reasons'', reasons)])]))
                 | VALIDATION_METHODNOTFOUND \<Rightarrow> web_return (S_404_NOT_FOUND, Some JsonNull))))))))"

definition procJAPI_Exec :: "web_env \<Rightarrow> multiAuths \<Rightarrow> string \<Rightarrow> string \<Rightarrow> eRetCode web" where
  "procJAPI_Exec W extraAuths sMethodName sPayloadIn w =
     (if \<not> csrfValidate W w then (w, Inr S_404_NOT_FOUND)
      else web_bind (exec_call W extraAuths sMethodName sPayloadIn) (\<lambda>(ret, out). case out of
          None \<Rightarrow> web_return ret | Some j \<Rightarrow> web_respond j ret) w)"

text \<open>With a place for the answer given by the caller: no check of the token.\<close>

definition procJAPI_Exec_inline :: "web_env \<Rightarrow> multiAuths \<Rightarrow> string \<Rightarrow> string \<Rightarrow> json web" where
  "procJAPI_Exec_inline W extraAuths sMethodName sPayloadIn =
     web_bind (exec_call W extraAuths sMethodName sPayloadIn) (\<lambda>(_, out). web_return (case out of Some j \<Rightarrow> j | None \<Rightarrow> JsonNull))"

end
