(* ===== verification/Http_Files.thy ===== *)
theory Http_Files
  imports Std_Map
begin

text \<open>
  \<^verbatim>\<open>Protocols/mdz_proto_http/httpv1_server.cpp\<close>: how the server finds the file a request names, and what it sets
  in the response for it. The file system (\<^verbatim>\<open>realpath\<close>, \<^verbatim>\<open>stat\<close>, \<^verbatim>\<open>access\<close>, the mapping of a file) is a record of
  functions. Of the response, the kind of data, the content type, the cache options and the headers are kept.
  The POSIX branches are modelled.
\<close>

subsection \<open>Definitions\<close>

datatype file_kind = Directory | Regular | Special

record file_system =
  fs_realpath :: "string \<Rightarrow> string option"
  fs_realpath_missing :: "string \<Rightarrow> string option"
  fs_kind :: "string \<Rightarrow> file_kind"
  fs_readable :: "string \<Rightarrow> bool"
  fs_executable :: "string \<Rightarrow> bool"
  fs_mappable :: "string \<Rightarrow> bool"
  fs_modified :: "string \<Rightarrow> string option"

record sLocalRequestedFileInfo =
  sRealRelativePath :: string
  sRealFullPath :: string
  isDir :: bool
  isExecutable :: bool
  isTransversal :: bool
  pathExist :: bool

definition info_reset :: sLocalRequestedFileInfo where
  "info_reset = \<lparr>sRealRelativePath = '''', sRealFullPath = '''', isDir = False, isExecutable = False, isTransversal = False,
     pathExist = False\<rparr>"

text \<open>The data of a response: its own empty container, a static element or a mapped file. The cache options are
  either those that forbid keeping the answer or those of a file.\<close>

datatype response_data = Own_container | Static_element string | Mapped_file string

record http_response =
  data_streamer :: response_data
  contentType :: string
  bNoSniff :: bool
  cacheable :: bool
  rsp_headers :: "(string, string) std_map"

definition setContentType :: "http_response \<Rightarrow> string \<Rightarrow> bool \<Rightarrow> http_response" where
  "setContentType r t noSniff = r\<lparr>contentType := t, bNoSniff := noSniff\<rparr>"

definition setDataStreamer :: "http_response \<Rightarrow> response_data \<Rightarrow> http_response" where
  "setDataStreamer r d =
     (if d = Own_container
      then (setContentType (r\<lparr>rsp_headers := std_erase ''Last-Modified'' (rsp_headers r), cacheable := False\<rparr>) '''' False)
        \<lparr>data_streamer := Own_container\<rparr>
      else r\<lparr>data_streamer := d\<rparr>)"

text \<open>The table of the constructor.\<close>

definition mimeTypes_default :: "(string \<times> string) list" where
  "mimeTypes_default = [
     (''.aac'', ''audio/aac''),
     (''.abw'', ''application/x-abiword''),
     (''.arc'', ''application/x-freearc''),
     (''.avi'', ''video/x-msvideo''),
     (''.azw'', ''application/vnd.amazon.ebook''),
     (''.bin'', ''application/octet-stream''),
     (''.bmp'', ''image/bmp''),
     (''.bz'', ''application/x-bzip''),
     (''.bz2'', ''application/x-bzip2''),
     (''.csh'', ''application/x-csh''),
     (''.css'', ''text/css''),
     (''.csv'', ''text/csv''),
     (''.doc'', ''application/msword''),
     (''.docx'', ''application/vnd.openxmlformats-officedocument.wordprocessingml.document''),
     (''.eot'', ''application/vnd.ms-fontobject''),
     (''.epub'', ''application/epub+zip''),
     (''.gz'', ''application/gzip''),
     (''.gif'', ''image/gif''),
     (''.htm'', ''text/html''),
     (''.html'', ''text/html''),
     (''.iso'', ''application/octet-stream''),
     (''.ico'', ''image/vnd.microsoft.icon''),
     (''.ics'', ''text/calendar''),
     (''.jar'', ''application/java-archive''),
     (''.jpeg'', ''image/jpeg''),
     (''.jpg'', ''image/jpeg''),
     (''.js'', ''application/javascript''),
     (''.json'', ''application/json''),
     (''.jsonld'', ''application/ld+json''),
     (''.mid'', ''audio/midi''),
     (''.midi'', ''audio/x-midi''),
     (''.mjs'', ''text/javascript''),
     (''.mp3'', ''audio/mpeg''),
     (''.mp4'', ''video/mp4''),
     (''.mpeg'', ''video/mpeg''),
     (''.mpg'', ''video/mpeg''),
     (''.mpkg'', ''application/vnd.apple.installer+xml''),
     (''.odp'', ''application/vnd.oasis.opendocument.presentation''),
     (''.ods'', ''application/vnd.oasis.opendocument.spreadsheet''),
     (''.odt'', ''application/vnd.oasis.opendocument.text''),
     (''.oga'', ''audio/ogg''),
     (''.ogv'', ''video/ogg''),
     (''.ogx'', ''application/ogg''),
     (''.opus'', ''audio/opus''),
     (''.otf'', ''font/otf''),
     (''.png'', ''image/png''),
     (''.pdf'', ''application/pdf''),
     (''.php'', ''application/x-httpd-php''),
     (''.ppt'', ''application/vnd.ms-powerpoint''),
     (''.pptx'', ''application/vnd.openxmlformats-officedocument.presentationml.presentation''),
     (''.rar'', ''application/vnd.rar''),
     (''.rtf'', ''application/rtf''),
     (''.sh'', ''application/x-sh''),
     (''.svg'', ''image/svg+xml''),
     (''.swf'', ''application/x-shockwave-flash''),
     (''.tar'', ''application/x-tar''),
     (''.tif'', ''image/tiff''),
     (''.ts'', ''video/mp2t''),
     (''.ttf'', ''font/ttf''),
     (''.txt'', ''text/plain''),
     (''.vsd'', ''application/vnd.visio''),
     (''.wav'', ''audio/wav''),
     (''.weba'', ''audio/webm''),
     (''.webm'', ''video/webm''),
     (''.webp'', ''image/webp''),
     (''.woff'', ''font/woff''),
     (''.woff2'', ''font/woff2''),
     (''.xhtml'', ''application/xhtml+xml''),
     (''.xls'', ''application/vnd.ms-excel''),
     (''.xlsx'', ''application/vnd.openxmlformats-officedocument.spreadsheetml.sheet''),
     (''.xml'', ''application/xml''),
     (''.xul'', ''application/vnd.mozilla.xul+xml''),
     (''.zip'', ''application/zip''),
     (''.3gp'', ''video/3gpp''),
     (''.3g2'', ''video/3gpp2''),
     (''.7z'', ''application/x-7z-compressed'')]"

record http_server =
  mimeTypes :: "string \<rightharpoonup> string"
  staticContentElements :: "string set"
  includeServerDate :: bool
  currentFileExtension :: string

definition addResponseContentTypeFileExtension :: "http_server \<Rightarrow> string \<Rightarrow> string \<Rightarrow> http_server" where
  "addResponseContentTypeFileExtension h ext t = h\<lparr>mimeTypes := (mimeTypes h)(ext \<mapsto> t)\<rparr>"

definition addStaticContent :: "http_server \<Rightarrow> string \<Rightarrow> http_server" where
  "addStaticContent h path = h\<lparr>staticContentElements := insert path (staticContentElements h)\<rparr>"

definition verifyStaticContentExistence :: "http_server \<Rightarrow> string \<Rightarrow> bool" where
  "verifyStaticContentExistence h path \<longleftrightarrow> path \<in> staticContentElements h"

definition to_lower_copy :: "string \<Rightarrow> string" where
  "to_lower_copy s = map (\<lambda>c. let n = of_char c :: nat in if 65 \<le> n \<and> n \<le> 90 then char_of (n + 32) else c) s"

text \<open>\<^verbatim>\<open>strrchr(path, '.')\<close>\<close>

definition last_dot :: "string \<Rightarrow> string option" where
  "last_dot s = (if CHR ''.'' \<in> set s then Some (CHR ''.'' # rev (takeWhile (\<lambda>c. c \<noteq> CHR ''.'') (rev s))) else None)"

definition setResponseContentTypeByFileExtension :: "http_server \<Rightarrow> http_response \<Rightarrow> string \<Rightarrow> http_server \<times> http_response \<times> bool" where
  "setResponseContentTypeByFileExtension h r sFilePath =
     (case last_dot sFilePath of
        None \<Rightarrow> (h, r, False)
      | Some x \<Rightarrow>
          if length x = 1 then (h, r, False)
          else let ext = to_lower_copy x; h1 = h\<lparr>currentFileExtension := ext\<rparr> in
            (case mimeTypes h ext of
               Some t \<Rightarrow> (h1, setContentType r t True, True)
             | None \<Rightarrow> (h1, setContentType r '''' False, False)))"

definition with_slash :: "string \<Rightarrow> string" where
  "with_slash s = (if s \<noteq> [] \<and> last s = CHR ''/'' then s else s @ ''/'')"

definition requested_path :: "string \<Rightarrow> string \<Rightarrow> string \<Rightarrow> string" where
  "requested_path dir uri appended = dir @ (if uri = [] then [] else tl uri) @ appended"

definition inside :: "string \<Rightarrow> string \<Rightarrow> bool" where
  "inside dir path \<longleftrightarrow> length dir \<le> length path \<and> take (length dir) path = dir"

definition relative_path :: "string \<Rightarrow> string \<Rightarrow> string" where
  "relative_path dir path = drop (length dir - 1) path"

text \<open>The response for a regular file.\<close>

definition serve_file :: "file_system \<Rightarrow> http_server \<Rightarrow> http_response \<Rightarrow> string \<Rightarrow> string \<Rightarrow> string \<Rightarrow> http_server \<times> http_response" where
  "serve_file F h r path relative requested =
     (let (h1, r1, _) = setResponseContentTypeByFileExtension h (setDataStreamer r (Mapped_file path)) relative;
          r2 = (case fs_modified F requested of
              Some d \<Rightarrow> if includeServerDate h1 then r1\<lparr>rsp_headers := std_put ''Last-Modified'' d (rsp_headers r1)\<rparr> else r1
            | None \<Rightarrow> r1)
      in (h1, r2\<lparr>cacheable := True\<rparr>))"

text \<open>What a path that \<^verbatim>\<open>realpath\<close> resolved leads to.\<close>

definition resolved_file :: "file_system \<Rightarrow> http_server \<Rightarrow> http_response \<Rightarrow> string \<Rightarrow> string \<Rightarrow> string \<Rightarrow> string \<Rightarrow> bool \<Rightarrow>
  http_server \<times> http_response \<times> sLocalRequestedFileInfo \<times> bool" where
  "resolved_file F h r sServerDir requested path appended dontMapExecutables =
     (let dir = (fs_kind F path = Directory);
          full = (if dir then with_slash path else path);
          info = info_reset\<lparr>isDir := dir\<rparr>;
          found = info\<lparr>pathExist := True, sRealFullPath := full, sRealRelativePath := relative_path sServerDir full\<rparr>
      in if \<not> inside sServerDir full then (h, r, info\<lparr>isTransversal := True\<rparr>, False)
         else case fs_kind F path of
           Directory \<Rightarrow>
             if appended \<noteq> [] then (h, r, info\<lparr>pathExist := True\<rparr>, False) else (h, r, found, fs_readable F full)
         | Regular \<Rightarrow>
             if dontMapExecutables \<and> fs_executable F full then (h, r, found\<lparr>isExecutable := True\<rparr>, True)
             else if fs_mappable F full
             then let (h1, r1) = serve_file F h r full (relative_path sServerDir full) requested in (h1, r1, found, True)
             else (h, r, info\<lparr>pathExist := True\<rparr>, False)
         | Special \<Rightarrow> (h, r, info, False))"

definition getLocalFilePathFromURI2 :: "file_system \<Rightarrow> http_server \<Rightarrow> http_response \<Rightarrow> string \<Rightarrow> string \<Rightarrow> string \<Rightarrow> bool \<Rightarrow>
  http_server \<times> http_response \<times> sLocalRequestedFileInfo \<times> bool" where
  "getLocalFilePathFromURI2 F h r uri sServerDir appended dontMapExecutables =
     (case fs_realpath F sServerDir of
        None \<Rightarrow> (h, r, info_reset, False)
      | Some d \<Rightarrow>
          let dir = with_slash d; requested = requested_path dir uri appended in
          if uri @ appended \<in> staticContentElements h
          then let (h1, r1, _) = setResponseContentTypeByFileExtension h (r\<lparr>cacheable := True\<rparr>) (uri @ appended)
            in (h1, setDataStreamer r1 (Static_element (uri @ appended)),
                info_reset\<lparr>sRealRelativePath := uri @ appended, sRealFullPath := ''MEM:'' @ uri @ appended\<rparr>, True)
          else case fs_realpath F requested of
            None \<Rightarrow> (h, r, info_reset, False)
          | Some path \<Rightarrow> resolved_file F h r dir requested path appended dontMapExecutables)"

text \<open>The two functions that only compute paths.\<close>

definition checked_path :: "string \<Rightarrow> string \<Rightarrow> sLocalRequestedFileInfo \<Rightarrow> sLocalRequestedFileInfo \<times> bool" where
  "checked_path dir path info =
     (if \<not> inside dir path then (info\<lparr>isTransversal := True\<rparr>, False)
      else (info\<lparr>sRealFullPath := path, sRealRelativePath := relative_path dir path\<rparr>, True))"

definition getLocalFilePathFromURI0NE :: "file_system \<Rightarrow> string \<Rightarrow> string \<Rightarrow> sLocalRequestedFileInfo \<times> bool" where
  "getLocalFilePathFromURI0NE F uri sServerDir =
     (case fs_realpath F sServerDir of
        None \<Rightarrow> (info_reset, False)
      | Some d \<Rightarrow> let dir = with_slash d in
          (case fs_realpath_missing F (requested_path dir uri []) of
             None \<Rightarrow> (info_reset, False)
           | Some path \<Rightarrow> checked_path dir path info_reset))"

definition getLocalFilePathFromURI0E :: "file_system \<Rightarrow> string \<Rightarrow> string \<Rightarrow> sLocalRequestedFileInfo \<times> bool" where
  "getLocalFilePathFromURI0E F uri sServerDir =
     (case fs_realpath F sServerDir of
        None \<Rightarrow> (info_reset, False)
      | Some d \<Rightarrow> let dir = with_slash d in
          (case fs_realpath F (requested_path dir uri []) of
             None \<Rightarrow> (info_reset, False)
           | Some path \<Rightarrow> let isdir = (fs_kind F path = Directory) in
               checked_path dir (if isdir then with_slash path else path) (info_reset\<lparr>isDir := isdir\<rparr>)))"

text \<open>Whether the redirection is temporary decides the code, 307 or 308.\<close>

definition setResponseRedirect :: "http_response \<Rightarrow> string \<Rightarrow> http_response" where
  "setResponseRedirect r location =
     setDataStreamer (r\<lparr>rsp_headers := std_put ''Location'' location (rsp_headers r)\<rparr>) Own_container"

fun htmlEncode :: "string \<Rightarrow> string" where
  "htmlEncode [] = []"
| "htmlEncode (c # cs) =
     (if c = CHR ''<'' then ''&lt;''
      else if c = CHR ''>'' then ''&gt;''
      else if c = CHR 0x22 then ''&quot;''
      else if c = CHR ''&'' then ''&amp;''
      else if c = CHR 0x27 then ''&apos;''
      else [c]) @ htmlEncode cs"

subsection \<open>Lemmas\<close>

lemma data_streamer_simps [simp]:
  "contentType (setDataStreamer r Own_container) = ''''" "data_streamer (setDataStreamer r d) = d"
  by (simp_all add: setDataStreamer_def setContentType_def)

lemma content_type_keeps_data [simp]:
  "data_streamer (fst (snd (setResponseContentTypeByFileExtension h r p))) = data_streamer r"
  by (auto simp: setResponseContentTypeByFileExtension_def setContentType_def Let_def split: option.splits)

lemma inside_iff: "inside d p \<longleftrightarrow> (\<exists>q. p = d @ q)"
  by (auto simp: inside_def) (metis append_take_drop_id)

lemma serve_file_data: "data_streamer (snd (serve_file F h r path rel req)) = Mapped_file path"
  using content_type_keeps_data [of h "setDataStreamer r (Mapped_file path)" rel]
  by (auto simp: serve_file_def Let_def case_prod_beta split: option.splits)

text \<open>Encoded text has no character that would end a text node or an attribute.\<close>

lemma htmlEncode_safe: "c \<in> set (htmlEncode s) \<Longrightarrow> c \<noteq> CHR ''<'' \<and> c \<noteq> CHR ''>'' \<and> c \<noteq> CHR 0x22 \<and> c \<noteq> CHR 0x27"
  by (induction s) (auto split: if_splits)

lemma with_slash_last: "\<exists>b. with_slash d = b @ ''/''"
  by (auto simp: with_slash_def) (metis append_butlast_last_id)

lemma relative_inside: "relative_path (with_slash d) (with_slash d @ q) = ''/'' @ q"
proof -
  obtain b where "with_slash d = b @ ''/''" using with_slash_last by blast
  then show ?thesis by (simp add: relative_path_def)
qed

lemma resolved_full:
  assumes "resolved_file F h r dir requested path appended dontMap = (h', r', info, True)"
  shows "inside dir (sRealFullPath info) \<and> sRealRelativePath info = relative_path dir (sRealFullPath info) \<and>
    (data_streamer r' = data_streamer r \<or> data_streamer r' = Mapped_file (sRealFullPath info))"
proof (cases "fs_kind F path")
  case Regular
  then show ?thesis
    using assms serve_file_data [of F h r path "relative_path dir path" requested]
    by (simp add: resolved_file_def Let_def split: if_splits prod.splits) (auto simp: info_reset_def)
qed (use assms in \<open>auto simp: resolved_file_def Let_def split: if_splits\<close>)

lemma resolved_inside:
  assumes "resolved_file F h r (with_slash d) requested path appended dontMap = (h', r', info, True)"
  shows "\<exists>q. sRealFullPath info = with_slash d @ q \<and> sRealRelativePath info = ''/'' @ q \<and>
    (data_streamer r' = data_streamer r \<or> data_streamer r' = Mapped_file (sRealFullPath info))"
  using resolved_full [OF assms] by (auto simp: inside_iff relative_inside)

subsection \<open>Components of a path\<close>

fun split_slash :: "string \<Rightarrow> string list" where
  "split_slash [] = [[]]"
| "split_slash (c # cs) =
     (if c = CHR ''/'' then [] # split_slash cs
      else case split_slash cs of [] \<Rightarrow> [[c]] | w # ws \<Rightarrow> (c # w) # ws)"

definition path_components :: "string \<Rightarrow> string list" where
  "path_components p = filter (\<lambda>w. w \<noteq> []) (split_slash p)"

text \<open>What the manual of \<^verbatim>\<open>realpath\<close> promises: its answers have no component \<^verbatim>\<open>.\<close> or \<^verbatim>\<open>..\<close>.\<close>

definition realpath_resolves :: "file_system \<Rightarrow> bool" where
  "realpath_resolves F \<longleftrightarrow> (\<forall>p q. fs_realpath F p = Some q \<longrightarrow> ''.'' \<notin> set (path_components q) \<and> ''..'' \<notin> set (path_components q))"

text \<open>A path lies below another one when it continues its components, and goes nowhere up.\<close>

definition path_below :: "string \<Rightarrow> string \<Rightarrow> bool" where
  "path_below d p \<longleftrightarrow> (\<exists>ws. path_components p = path_components d @ ws \<and> ''.'' \<notin> set ws \<and> ''..'' \<notin> set ws)"

lemma split_slash_Cons [simp]: "split_slash cs \<noteq> []"
  by (induction cs) (auto split: list.splits)

lemma split_slash_append: "split_slash (xs @ CHR ''/'' # ys) = split_slash xs @ split_slash ys"
proof (induction xs)
  case (Cons c cs)
  then show ?case by (cases "split_slash cs") simp_all
qed simp

lemma components_append: "path_components (xs @ CHR ''/'' # ys) = path_components xs @ path_components ys"
  by (simp add: path_components_def split_slash_append)

lemma components_slash [simp]: "path_components (with_slash d @ q) = path_components d @ path_components q"
proof (cases "d \<noteq> [] \<and> last d = CHR ''/''")
  case True
  then obtain b where d: "d = b @ [CHR ''/'']" by (metis append_butlast_last_id)
  have "path_components (b @ [CHR ''/'']) = path_components b" using components_append [of b "[]"] by (simp add: path_components_def)
  then show ?thesis using d components_append [of b q] by (simp add: with_slash_def)
next
  case False
  then have "with_slash d @ q = d @ CHR ''/'' # q" by (auto simp: with_slash_def)
  then show ?thesis by (simp add: components_append)
qed

lemma components_with_slash [simp]: "path_components (with_slash d) = path_components d"
  using components_slash [of d "[]"] by (simp add: path_components_def)

lemma resolved_path:
  assumes "resolved_file F h r dir requested path appended dontMap = (h', r', info, True)"
  shows "sRealFullPath info = (if isDir info then with_slash path else path)"
  using assms by (auto simp: resolved_file_def info_reset_def Let_def split: if_splits file_kind.splits prod.splits)

subsection \<open>Properties\<close>

text \<open>C24: Whatever the client asks for, a file that is found is an element the program registered or lies below
  the directory of the server: the requested path was resolved, the components of the resolved directory begin
  those of the resolved file, and no component goes up. The full path the server keeps is the resolved file (with
  a slash for a directory), and the data of the response is left alone or mapped from just this path. Of
  \<^verbatim>\<open>realpath\<close> it uses that its answers have no component \<^verbatim>\<open>.\<close> or \<^verbatim>\<open>..\<close>.\<close>

theorem served_files_stay_inside:
  assumes "getLocalFilePathFromURI2 F h r uri sServerDir appended dontMap = (h', r', info, True)" "realpath_resolves F"
  shows "(\<exists>e\<in>staticContentElements h. sRealFullPath info = ''MEM:'' @ e \<and> data_streamer r' = Static_element e) \<or>
    (\<exists>d p q. fs_realpath F sServerDir = Some d \<and> fs_realpath F (requested_path (with_slash d) uri appended) = Some p \<and>
      path_below d p \<and> sRealFullPath info = (if isDir info then with_slash p else p) \<and>
      sRealFullPath info = with_slash d @ q \<and> sRealRelativePath info = ''/'' @ q \<and>
      (data_streamer r' = data_streamer r \<or> data_streamer r' = Mapped_file (sRealFullPath info)))"
proof -
  obtain d where d: "fs_realpath F sServerDir = Some d"
    using assms(1) by (auto simp: getLocalFilePathFromURI2_def split: option.splits)
  show ?thesis
  proof (cases "uri @ appended \<in> staticContentElements h")
    case True
    then have "sRealFullPath info = ''MEM:'' @ uri @ appended \<and> data_streamer r' = Static_element (uri @ appended)"
      using assms(1) d by (auto simp: getLocalFilePathFromURI2_def Let_def split: prod.splits)
    then show ?thesis using True by blast
  next
    case False
    then obtain p where p: "fs_realpath F (requested_path (with_slash d) uri appended) = Some p"
      and res: "resolved_file F h r (with_slash d) (requested_path (with_slash d) uri appended) p appended dontMap = (h', r', info, True)"
      using assms(1) d by (auto simp: getLocalFilePathFromURI2_def Let_def split: option.splits)
    obtain q where q: "sRealFullPath info = with_slash d @ q" "sRealRelativePath info = ''/'' @ q"
      "data_streamer r' = data_streamer r \<or> data_streamer r' = Mapped_file (sRealFullPath info)"
      using resolved_inside [OF res] by blast
    have "path_components p = path_components d @ path_components q"
      using resolved_path [OF res] q(1) components_with_slash [of p] by (metis components_slash)
    moreover have "''.'' \<notin> set (path_components p) \<and> ''..'' \<notin> set (path_components p)"
      using assms(2) p unfolding realpath_resolves_def by blast
    ultimately have "path_below d p" by (auto simp: path_below_def)
    then show ?thesis using d p q resolved_path [OF res] by blast
  qed
qed

definition small_files :: file_system where
  "small_files = \<lparr>fs_realpath = (\<lambda>p. if p = ''/srv/../srv'' then Some ''/srv'' else if p = ''/srv/a.html'' then Some ''/srv/a.html''
       else if p = ''/srv/../etc/passwd'' then Some ''/etc/passwd'' else None), fs_realpath_missing = (\<lambda>_. None),
     fs_kind = (\<lambda>p. if p = ''/srv'' then Directory else Regular), fs_readable = (\<lambda>_. True), fs_executable = (\<lambda>_. False),
     fs_mappable = (\<lambda>_. True), fs_modified = (\<lambda>_. None)\<rparr>"

definition small_server :: http_server where
  "small_server = \<lparr>mimeTypes = map_of mimeTypes_default, staticContentElements = {}, includeServerDate = True,
     currentFileExtension = ''''\<rparr>"

definition empty_response :: http_response where
  "empty_response = \<lparr>data_streamer = Own_container, contentType = '''', bNoSniff = False, cacheable = False, rsp_headers = []\<rparr>"

lemmas small_simps = small_files_def small_server_def getLocalFilePathFromURI2_def resolved_file_def with_slash_def
  requested_path_def inside_def relative_path_def serve_file_def info_reset_def

lemma small_files_resolves: "realpath_resolves small_files"
  by (auto simp: realpath_resolves_def small_files_def path_components_def split: if_splits)

theorem served_files_stay_inside_witness:
  "\<exists>h' r' info. getLocalFilePathFromURI2 small_files small_server empty_response ''/a.html'' ''/srv/../srv'' '''' False = (h', r', info, True) \<and>
    sRealRelativePath info = ''/a.html'' \<and>
    (\<exists>d p. fs_realpath small_files ''/srv/../srv'' = Some d \<and> fs_realpath small_files ''/srv/a.html'' = Some p \<and> path_below d p) \<and>
    \<not> snd (snd (snd (getLocalFilePathFromURI2 small_files small_server empty_response ''/../etc/passwd'' ''/srv/../srv'' '''' False)))"
proof -
  obtain h' r' info where f: "getLocalFilePathFromURI2 small_files small_server empty_response ''/a.html'' ''/srv/../srv'' '''' False =
      (h', r', info, True)" "sRealRelativePath info = ''/a.html''"
    by (simp add: small_simps Let_def case_prod_beta)
  have "\<not> snd (snd (snd (getLocalFilePathFromURI2 small_files small_server empty_response ''/../etc/passwd'' ''/srv/../srv'' '''' False)))"
    by (simp add: small_simps Let_def)
  moreover have "staticContentElements small_server = {}" by (simp add: small_server_def)
  moreover have "fs_realpath small_files ''/srv/../srv'' = Some ''/srv''" by (simp add: small_files_def)
  moreover have "requested_path (with_slash ''/srv'') ''/a.html'' '''' = ''/srv/a.html''" by (simp add: small_simps)
  ultimately show ?thesis using served_files_stay_inside [OF f(1) small_files_resolves] f by auto
qed

end
