(* ===== verification/Resources_Filter.thy ===== *)
theory Resources_Filter
  imports Auth_Manager_Facts Json
begin

text \<open>
  \<^verbatim>\<open>RPC/mdz_xrpc_webserver/resourcesfilter.cpp\<close>: the rules that decide which files of a web server a session may
  see. Whether a regular expression compiles and whether it matches a whole path is Boost's, as is the reading of
  the file of rules into a tree: they are parameters. A value that is read before it was set is the result None.
\<close>

subsection \<open>Rules\<close>

datatype eFilterActions = RFILTER_ACCEPT | RFILTER_DENY | RFILTER_REDIRECT

record sFilter =
  regexs :: "string list"
  sf_redirectLocation :: string
  reqAttrib :: "string list"
  rejAttrib :: "string list"
  sf_action :: eFilterActions

record sFilterEvaluation =
  eval_accept :: bool
  eval_redirectLocation :: string

definition sFilterEvaluation_new :: sFilterEvaluation where
  "sFilterEvaluation_new = \<lparr>eval_accept = True, eval_redirectLocation = ''''\<rparr>"

text \<open>The construction of a rule compiles its expressions, one of which may be refused.\<close>

definition sFilter_new :: "(string \<Rightarrow> bool) \<Rightarrow> string list \<Rightarrow> string \<Rightarrow> string list \<Rightarrow> string list \<Rightarrow> eFilterActions \<Rightarrow> failure + sFilter" where
  "sFilter_new compiles rs location required rejected act =
     (if list_all compiles rs
      then Inr \<lparr>regexs = rs, sf_redirectLocation = location, reqAttrib = required, rejAttrib = rejected, sf_action = act\<rparr>
      else Inl (Exception ''regex_error''))"

definition addFilter :: "sFilter list \<Rightarrow> sFilter \<Rightarrow> sFilter list" where
  "addFilter filters f = filters @ [f]"

subsection \<open>The file of rules\<close>

datatype ptree = PTree string "(string \<times> ptree) list"

fun ptree_value :: "ptree \<Rightarrow> string" where
  "ptree_value (PTree v _) = v"

fun ptree_children :: "ptree \<Rightarrow> (string \<times> ptree) list" where
  "ptree_children (PTree _ cs) = cs"

definition ptree_strings :: "ptree \<Rightarrow> string \<Rightarrow> string list" where
  "ptree_strings t k = (case map_of (ptree_children t) k of
     Some c \<Rightarrow> map (ptree_value \<circ> snd) (ptree_children c) | None \<Rightarrow> [])"

definition to_upper_copy :: "string \<Rightarrow> string" where
  "to_upper_copy s = map (\<lambda>c. let n = of_char c :: nat in if 97 \<le> n \<and> n \<le> 122 then char_of (n - 32) else c) s"

text \<open>As written: another word leaves the action unset.\<close>

definition filter_action :: "string \<Rightarrow> eFilterActions option" where
  "filter_action s =
     (if s = ''ACCEPT'' then Some RFILTER_ACCEPT else if s = ''DENY'' then Some RFILTER_DENY
      else if s = ''REDIRECT'' then Some RFILTER_REDIRECT else None)"

text \<open>The rules read before a failure stay.\<close>

fun loadFile_loop :: "(string \<Rightarrow> bool) \<Rightarrow> sFilter list \<Rightarrow> (string \<times> ptree) list \<Rightarrow> (sFilter list \<times> (failure + bool)) option" where
  "loadFile_loop compiles filters [] = Some (filters, Inr True)"
| "loadFile_loop compiles filters ((_, t) # ts) =
     (case map_of (ptree_children t) ''action'' of
        None \<Rightarrow> Some (filters, Inl (Exception ''No such node''))
      | Some a \<Rightarrow> (case filter_action (to_upper_copy (ptree_value a)) of
          None \<Rightarrow> None
        | Some act \<Rightarrow>
            (case sFilter_new compiles (ptree_strings t ''uriRegex'')
                (case map_of (ptree_children t) ''redirectLocation'' of Some l \<Rightarrow> ptree_value l | None \<Rightarrow> '''')
                (ptree_strings t ''requiredAppAtrribs'') (ptree_strings t ''rejectedAppAtrribs'') act of
               Inl e \<Rightarrow> Some (filters, Inl e)
             | Inr f \<Rightarrow> loadFile_loop compiles (addFilter filters f) ts)))"

definition loadFile :: "(string \<Rightarrow> bool) \<Rightarrow> (string \<Rightarrow> ptree option) \<Rightarrow> sFilter list \<Rightarrow> string \<Rightarrow> (sFilter list \<times> (failure + bool)) option" where
  "loadFile compiles read_json filters filePath =
     (case read_json filePath of
        None \<Rightarrow> Some (filters, Inl (Exception ''json_parser_error''))
      | Some root \<Rightarrow> loadFile_loop compiles filters (ptree_children root))"

subsection \<open>Evaluation\<close>

text \<open>The loops over the attributes of a rule; the session and the accounts of its domain may be missing.\<close>

fun required_loop :: "session option \<Rightarrow> auth_db option \<Rightarrow> string list \<Rightarrow> bool" where
  "required_loop hSession authorizer [] = True"
| "required_loop hSession authorizer (attrib # as) =
     (case (hSession, authorizer) of
        (Some s, Some d) \<Rightarrow>
          if attrib = ''loggedin''
          then if authUser s = '''' then False else required_loop hSession authorizer as
          else if \<not> accountValidateAttribute manager_db_virtuals d (authUser s) (sApplicationAttrib (appName s) attrib)
          then False else required_loop hSession authorizer as
      | _ \<Rightarrow> False)"

fun rejected_loop :: "session option \<Rightarrow> auth_db option \<Rightarrow> string list \<Rightarrow> bool" where
  "rejected_loop hSession authorizer [] = True"
| "rejected_loop hSession authorizer (attrib # as) =
     (case (hSession, authorizer) of
        (Some s, Some d) \<Rightarrow>
          if attrib = ''loggedin''
          then if authUser s \<noteq> '''' then False else rejected_loop hSession authorizer as
          else if accountValidateAttribute manager_db_virtuals d (authUser s) (sApplicationAttrib (appName s) attrib)
          then False else rejected_loop hSession authorizer as
      | _ \<Rightarrow> rejected_loop hSession authorizer as)"

definition filter_verdict :: "sFilter \<Rightarrow> sFilterEvaluation" where
  "filter_verdict f =
     (case sf_action f of
        RFILTER_ACCEPT \<Rightarrow> sFilterEvaluation_new\<lparr>eval_accept := True\<rparr>
      | RFILTER_REDIRECT \<Rightarrow> sFilterEvaluation_new\<lparr>eval_accept := True, eval_redirectLocation := sf_redirectLocation f\<rparr>
      | RFILTER_DENY \<Rightarrow> sFilterEvaluation_new\<lparr>eval_accept := False\<rparr>)"

fun regex_loop :: "(string \<Rightarrow> string \<Rightarrow> bool) \<Rightarrow> string \<Rightarrow> string list \<Rightarrow> bool" where
  "regex_loop matches uri [] = False"
| "regex_loop matches uri (r # rs) = (if matches r uri then True else regex_loop matches uri rs)"

fun evaluateAction :: "(string \<Rightarrow> string \<Rightarrow> bool) \<Rightarrow> sFilter list \<Rightarrow> string \<Rightarrow> session option \<Rightarrow> auth_db option \<Rightarrow> sFilterEvaluation" where
  "evaluateAction matches [] uri hSession authorizer = sFilterEvaluation_new\<lparr>eval_accept := True\<rparr>"
| "evaluateAction matches (f # fs) uri hSession authorizer =
     (let allAttribsDone = (required_loop hSession authorizer (reqAttrib f) \<and> rejected_loop hSession authorizer (rejAttrib f))
      in if \<not> allAttribsDone then evaluateAction matches fs uri hSession authorizer
         else if regex_loop matches uri (regexs f) then filter_verdict f
         else evaluateAction matches fs uri hSession authorizer)"

subsection \<open>What a rule asks for\<close>

text \<open>A session has an attribute of a rule when it is known, its accounts are reachable and it is logged in, or
  its account has the attribute in the application of the session.\<close>

definition has_rule_attrib :: "session option \<Rightarrow> auth_db option \<Rightarrow> string \<Rightarrow> bool" where
  "has_rule_attrib hSession authorizer attrib \<longleftrightarrow>
     (\<exists>s d. hSession = Some s \<and> authorizer = Some d \<and>
       (if attrib = ''loggedin'' then authUser s \<noteq> ''''
        else sApplicationAttrib (appName s) attrib \<in> accountUsableAttribs manager_db_virtuals d (authUser s)))"

definition rule_applies :: "(string \<Rightarrow> string \<Rightarrow> bool) \<Rightarrow> string \<Rightarrow> session option \<Rightarrow> auth_db option \<Rightarrow> sFilter \<Rightarrow> bool" where
  "rule_applies matches uri hSession authorizer f \<longleftrightarrow>
     (\<forall>a\<in>set (reqAttrib f). has_rule_attrib hSession authorizer a) \<and>
     (\<forall>a\<in>set (rejAttrib f). \<not> has_rule_attrib hSession authorizer a) \<and>
     (\<exists>r\<in>set (regexs f). matches r uri)"

subsection \<open>Lemmas\<close>

lemma rule_attrib_simps:
  "has_rule_attrib None D a = False" "has_rule_attrib S None a = False"
  "has_rule_attrib (Some s) (Some d) a \<longleftrightarrow> (if a = ''loggedin'' then authUser s \<noteq> ''''
     else accountValidateAttribute manager_db_virtuals d (authUser s) (sApplicationAttrib (appName s) a))"
  by (simp_all add: has_rule_attrib_def attribute_checks_agree [THEN conjunct1])

lemma required_loop_iff: "required_loop S D as \<longleftrightarrow> (\<forall>a\<in>set as. has_rule_attrib S D a)"
  by (cases S; cases D; induction as) (auto simp: rule_attrib_simps)

lemma rejected_loop_iff: "rejected_loop S D as \<longleftrightarrow> (\<forall>a\<in>set as. \<not> has_rule_attrib S D a)"
  by (cases S; cases D; induction as) (simp_all add: rule_attrib_simps)

lemma regex_loop_iff: "regex_loop matches uri rs \<longleftrightarrow> (\<exists>r\<in>set rs. matches r uri)"
  by (induction rs) auto

lemma evaluate_step:
  "evaluateAction matches (f # fs) uri S D =
    (if rule_applies matches uri S D f then filter_verdict f else evaluateAction matches fs uri S D)"
  by (simp add: rule_applies_def required_loop_iff rejected_loop_iff regex_loop_iff)

subsection \<open>Properties\<close>

text \<open>C25: The verdict on a path is that of the first rule all whose required attributes the session has, none of
  whose rejected ones it has, and one of whose expressions matches; when there is none, the path is accepted.\<close>

theorem first_rule_decides:
  "evaluateAction matches filters uri hSession authorizer =
    (case find (rule_applies matches uri hSession authorizer) filters of
       Some f \<Rightarrow> filter_verdict f | None \<Rightarrow> sFilterEvaluation_new)"
proof (induction filters)
  case (Cons f fs)
  then show ?case by (simp only: evaluate_step find.simps) (simp split: option.split)
qed (simp add: sFilterEvaluation_new_def)

end
