(* ===== verification/Web_Pages.thy ===== *)
theory Web_Pages
  imports Web_Client Http_Files Resources_Filter Encoders
begin

text \<open>
  The pages of a web server, from \<^verbatim>\<open>RPC/mdz_xrpc_webserver/webclienthandler.cpp\<close>: which file a request gets, and
  the HTML engine, which includes files in a page and puts values of the request, the session and the methods in
  place of its tags. The regular expressions of the engine are the functions that find their leftmost match. The
  content of files, the JSON writer and \<^verbatim>\<open>boost::replace_all\<close> are parameters.
\<close>

subsection \<open>Tags\<close>

definition is_letter :: "char \<Rightarrow> bool" where
  "is_letter c = (let n = of_char c :: nat in 65 \<le> n \<and> n \<le> 90 \<or> 97 \<le> n \<and> n \<le> 122)"

text \<open>A match at the start of a text: its length and its groups.\<close>

type_synonym 'a regex_match = "nat \<times> 'a"

text \<open>\<^verbatim>\<open>regex_search\<close>: the position of the leftmost match, and the match.\<close>

fun regex_search :: "(string \<Rightarrow> 'a regex_match option) \<Rightarrow> string \<Rightarrow> (nat \<times> 'a regex_match) option" where
  "regex_search f s =
     (case f s of
        Some m \<Rightarrow> Some (0, m)
      | None \<Rightarrow> (case s of [] \<Rightarrow> None | _ # cs \<Rightarrow> map_option (\<lambda>(i, m). (Suc i, m)) (regex_search f cs)))"

declare regex_search.simps [simp del]

text \<open>\<^verbatim>\<open><%[jJ]([a-zA-Z\/]+):[ ]*([^%]*)[ ]*%>\<close>\<close>

definition match_jtag :: "string \<Rightarrow> (string \<times> string) regex_match option" where
  "match_jtag s =
     (if take 2 s = ''<%'' \<and> 2 < length s \<and> s ! 2 \<in> {CHR ''j'', CHR ''J''}
      then let s1 = drop 3 s; command = takeWhile (\<lambda>c. is_letter c \<or> c = CHR ''/'') s1; s2 = drop (length command) s1 in
        if command \<noteq> [] \<and> take 1 s2 = '':''
        then let s3 = dropWhile (\<lambda>c. c = CHR '' '') (drop 1 s2); val = takeWhile (\<lambda>c. c \<noteq> CHR ''%'') s3; s4 = drop (length val) s3 in
          if take 2 s4 = ''%>'' then Some (length s - length (drop 2 s4), command, val) else None
        else None
      else None)"

text \<open>\<^verbatim>\<open>([^\(]+)\(([^\)]*)\)\<close>\<close>

definition match_call :: "string \<Rightarrow> (string \<times> string) regex_match option" where
  "match_call s =
     (let name = takeWhile (\<lambda>c. c \<noteq> CHR ''('') s; s1 = drop (length name) s in
      if name \<noteq> [] \<and> s1 \<noteq> []
      then let input = takeWhile (\<lambda>c. c \<noteq> CHR '')'') (tl s1); s2 = drop (length input) (tl s1) in
        if s2 \<noteq> [] then Some (length s - length (tl s2), name, input) else None
      else None)"

text \<open>\<^verbatim>\<open><\%?[iI][nN][cC][lL][uU][dD][eE]([^\:]*):[ ]*([^\%]+)[ ]*\%>\<close>: a path of blanks alone keeps one of them.\<close>

definition match_include :: "string \<Rightarrow> (string \<times> string) regex_match option" where
  "match_include s =
     (if take 1 s = ''<''
      then let s1 = (if take 1 (drop 1 s) = ''%'' then drop 2 s else drop 1 s) in
        if to_lower_copy (take 7 s1) = ''include''
        then let s2 = drop 7 s1; tag = takeWhile (\<lambda>c. c \<noteq> CHR '':'') s2; s3 = drop (length tag) s2 in
          if s3 \<noteq> []
          then let blanks = takeWhile (\<lambda>c. c = CHR '' '') (tl s3); s4 = drop (length blanks) (tl s3);
                   val = takeWhile (\<lambda>c. c \<noteq> CHR ''%'') s4; path = (if val = [] then take 1 blanks else val);
                   s5 = drop (length val) s4
            in if path \<noteq> [] \<and> take 2 s5 = ''%>'' then Some (length s - length (drop 2 s5), tag, path) else None
          else None
        else None
      else None)"

subsection \<open>State\<close>

record page_env =
  pe_web :: web_env
  pe_fs :: file_system
  pe_file :: "string \<Rightarrow> string option"
  pe_static :: "string \<Rightarrow> string"
  pe_writer :: "json \<Rightarrow> string"
  pe_replace :: "string \<Rightarrow> string \<Rightarrow> string \<Rightarrow> string"
  pe_getExist :: "string \<Rightarrow> bool"
  pe_postExist :: "string \<Rightarrow> bool"
  pe_regex :: "string \<Rightarrow> string \<Rightarrow> bool"
  resourceFilter :: "sFilter list option"
  resourcesLocalPath :: string
  redirectOn404 :: string
  useHTMLIEngine :: bool

text \<open>The state of a handler that may answer with a page; \<^verbatim>\<open>pg_content\<close> is what was written to the response's
  own container.\<close>

record page_state =
  pg_web :: web_state
  pg_server :: http_server
  pg_response :: http_response
  pg_content :: string

text \<open>An operation ends with a value, with the failure that ends the thread, or not at all.\<close>

type_synonym 'a page = "page_state \<Rightarrow> (page_state \<times> (failure + 'a)) option"

definition page_return :: "'a \<Rightarrow> 'a page" where
  "page_return x p = Some (p, Inr x)"

definition page_bind :: "'a page \<Rightarrow> ('a \<Rightarrow> 'b page) \<Rightarrow> 'b page" where
  "page_bind f g p = (case f p of None \<Rightarrow> None | Some (p', Inl e) \<Rightarrow> Some (p', Inl e) | Some (p', Inr x) \<Rightarrow> g x p')"

definition page_web :: "'a web \<Rightarrow> 'a page" where
  "page_web f p = (let (w, r) = f (pg_web p) in Some (p\<lparr>pg_web := w\<rparr>, r))"

definition page_get :: "(page_state \<Rightarrow> 'a) \<Rightarrow> 'a page" where
  "page_get f p = Some (p, Inr (f p))"

definition page_respond :: "(http_response \<Rightarrow> http_response) \<Rightarrow> unit page" where
  "page_respond f p = Some (p\<lparr>pg_response := f (pg_response p)\<rparr>, Inr ())"

definition page_redirect :: "string \<Rightarrow> eRetCode page" where
  "page_redirect location = page_bind (page_respond (\<lambda>r. setResponseRedirect r location)) (\<lambda>_. page_return S_307_TEMPORARY_REDIRECT)"

subsection \<open>The HTML engine\<close>

definition replaceByJVar :: "page_env \<Rightarrow> json \<Rightarrow> string \<Rightarrow> string" where
  "replaceByJVar P j scriptVarName =
     (let str = filter (\<lambda>c. c \<noteq> CHR 0x0A) (pe_writer P j);
          str = concat (map (\<lambda>c. if c = CHR ''<'' then [CHR 0x5C, c] else [c]) str);
          str = concat (map (\<lambda>c. if c = CHR ''>'' then [CHR 0x5C, c] else [c]) str)
      in if scriptVarName \<noteq> []
         then ''<script>'' @ [CHR 0x0A] @ ''const '' @ scriptVarName @ '' = '' @ str @ '';'' @ [CHR 0x0A] @ ''</script>''
         else str)"

definition procResource_HTMLIEngineJSESSVAR :: "page_env \<Rightarrow> string \<Rightarrow> string \<Rightarrow> string page" where
  "procResource_HTMLIEngineJSESSVAR P scriptVarName varName = page_get (\<lambda>p.
     case map_option (session_at (pg_web p)) (cur_authSession (pg_web p)) of
       Some s \<Rightarrow> if getSessionVarExist s varName then replaceByJVar P (JsonString (getSessionVarValue s varName)) scriptVarName
         else replaceByJVar P JsonNull scriptVarName
     | None \<Rightarrow> replaceByJVar P JsonNull scriptVarName)"

definition jvars :: "page_env \<Rightarrow> web_state \<Rightarrow> (string \<times> json) list" where
  "jvars P w =
     (let s = map_option (session_at w) (cur_authSession w); W = pe_web P in
      [(''softwareVersion'', JsonString (softwareVersion W)),
       (''csrfToken'', case cur_webSession w of Some e \<Rightarrow> JsonString (sCSRFToken (sm_store (ws_sessions w) e)) | None \<Rightarrow> JsonNull),
       (''user'', case s of Some x \<Rightarrow> JsonString (fst (getUserDomainPair x)) | None \<Rightarrow> JsonNull),
       (''domain'', case s of Some x \<Rightarrow> JsonString (snd (getUserDomainPair x)) | None \<Rightarrow> JsonNull),
       (''maxAge'', JsonInt (if cur_webSession w \<noteq> None then int (uSessionMaxAge w) else 0)),
       (''userAgent'', JsonString (rq_userAgent W)),
       (''userIP'', JsonString (userIP W)),
       (''userTLSCommonName'', JsonString (userTLSCommonName W))])"

definition procResource_HTMLIEngineJVAR :: "page_env \<Rightarrow> string \<Rightarrow> string \<Rightarrow> string page" where
  "procResource_HTMLIEngineJVAR P scriptVarName varName = page_get (\<lambda>p.
     case map_of (jvars P (pg_web p)) varName of
       Some j \<Rightarrow> replaceByJVar P j scriptVarName
     | None \<Rightarrow> replaceByJVar P JsonNull scriptVarName)"

definition procResource_HTMLIEngineJGETVAR :: "page_env \<Rightarrow> string \<Rightarrow> string \<Rightarrow> string page" where
  "procResource_HTMLIEngineJGETVAR P scriptVarName varName = page_return
     (if pe_getExist P varName then replaceByJVar P (JsonString (rq_get (pe_web P) varName)) scriptVarName
      else replaceByJVar P JsonNull scriptVarName)"

definition procResource_HTMLIEngineJPOSTVAR :: "page_env \<Rightarrow> string \<Rightarrow> string \<Rightarrow> string page" where
  "procResource_HTMLIEngineJPOSTVAR P scriptVarName varName = page_return
     (if pe_postExist P varName then replaceByJVar P (JsonString (rq_post (pe_web P) varName)) scriptVarName
      else replaceByJVar P JsonNull scriptVarName)"

definition procResource_HTMLIEngineJFUNC :: "page_env \<Rightarrow> multiAuths \<Rightarrow> string \<Rightarrow> string \<Rightarrow> string page" where
  "procResource_HTMLIEngineJFUNC P extraAuths scriptVarName functionDef =
     (case regex_search match_call functionDef of
        Some (_, _, functionName, functionInput) \<Rightarrow>
          page_bind (page_web (procJAPI_Exec_inline (pe_web P) extraAuths functionName
              (of_bytes (replaceHexCodes (to_bytes functionInput)))))
            (\<lambda>out. page_return (replaceByJVar P out scriptVarName))
      | None \<Rightarrow> page_return (replaceByJVar P JsonNull scriptVarName))"

definition istarts_with :: "string \<Rightarrow> string \<Rightarrow> bool" where
  "istarts_with s prefix = (to_lower_copy (take (length prefix) s) = to_lower_copy prefix)"

text \<open>A command that is none of the five leaves \<^verbatim>\<open>null\<close>. No two of the five are prefixes of one text.\<close>

definition jtag_value :: "page_env \<Rightarrow> multiAuths \<Rightarrow> string \<Rightarrow> string \<Rightarrow> string page" where
  "jtag_value P extraAuths command val =
     (if istarts_with command ''VAR/'' then procResource_HTMLIEngineJVAR P (drop 4 command) val
      else if istarts_with command ''GETVAR/'' then procResource_HTMLIEngineJGETVAR P (drop 7 command) val
      else if istarts_with command ''POSTVAR/'' then procResource_HTMLIEngineJPOSTVAR P (drop 8 command) val
      else if istarts_with command ''FUNC/'' then procResource_HTMLIEngineJFUNC P extraAuths (drop 5 command) val
      else if istarts_with command ''SESS/'' then procResource_HTMLIEngineJSESSVAR P (drop 5 command) val
      else page_return ''null'')"

text \<open>The loop over the tags goes on after what it put in place of one; the result is the text from there.\<close>

lemma match_jtag_length: "match_jtag s = Some (n, g) \<Longrightarrow> 0 < n"
  using length_dropWhile_le [of "\<lambda>c. c = CHR '' ''"
      "drop (4 + length (takeWhile (\<lambda>c. is_letter c \<or> c = CHR ''/'') (drop 3 s))) s"]
  by (auto simp: match_jtag_def Let_def split: if_splits)

lemma regex_search_matches: "regex_search f s = Some (i, m) \<Longrightarrow> f (drop i s) = Some m"
proof (induction s arbitrary: i)
  case Nil
  then show ?case by (simp add: regex_search.simps [of f "[]"] split: option.splits)
next
  case (Cons c cs)
  then show ?case
  proof (cases "f (c # cs)")
    case None
    then obtain j where "regex_search f cs = Some (j, m)" "i = Suc j"
      using Cons.prems by (auto simp: regex_search.simps [of f "c # cs"])
    then show ?thesis using Cons.IH by simp
  qed (use Cons.prems in \<open>simp add: regex_search.simps [of f "c # cs"]\<close>)
qed

lemma regex_search_less:
  assumes "regex_search match_jtag s = Some (i, n, g)"
  shows "length (drop (i + n) s) < length s"
proof -
  have m: "match_jtag (drop i s) = Some (n, g)" using regex_search_matches [OF assms] .
  have "s \<noteq> []" using m by (auto simp: match_jtag_def)
  then show ?thesis using match_jtag_length [OF m] by simp
qed

function procResource_JProcessor :: "page_env \<Rightarrow> multiAuths \<Rightarrow> string \<Rightarrow> string page" where
  "procResource_JProcessor P extraAuths input =
     (case regex_search match_jtag input of
        None \<Rightarrow> page_return input
      | Some (i, n, command, val) \<Rightarrow>
          page_bind (jtag_value P extraAuths command val) (\<lambda>replacedBy.
            page_bind (procResource_JProcessor P extraAuths (drop (i + n) input)) (\<lambda>rest.
              page_return (take i input @ replacedBy @ rest))))"
  by pat_completeness auto
termination by (relation "measure (\<lambda>(_, _, s). length s)") (auto dest: regex_search_less)

declare procResource_JProcessor.simps [simp del]

definition wrap_tag :: "string \<Rightarrow> string \<Rightarrow> string" where
  "wrap_tag tag content =
     (if 1 < length tag \<and> hd tag = CHR ''/''
      then ''<'' @ tl tag @ ''>'' @ content @ ''</'' @ tl tag @ ''>'' else content)"

definition included_text :: "page_env \<Rightarrow> http_server \<Rightarrow> string \<Rightarrow> string \<Rightarrow> string" where
  "included_text P h tag includePath =
     (case pe_file P (resourcesLocalPath P @ includePath) of
        Some content \<Rightarrow> wrap_tag tag content
      | None \<Rightarrow>
          if verifyStaticContentExistence h includePath then wrap_tag tag (pe_static P includePath)
          else ''<!-- HTMLI ENGINE ERROR (FILE NOT FOUND): '' @ includePath @ '' -->'')"

text \<open>Every turn starts again at the beginning of the text; the loop need not end.\<close>

partial_function (option) procResource_HTMLIEngineInclude :: "page_env \<Rightarrow> http_server \<Rightarrow> string \<Rightarrow> string option" where
  "procResource_HTMLIEngineInclude P h fileContent =
     (case regex_search match_include fileContent of
        None \<Rightarrow> Some fileContent
      | Some (i, n, tag, includePath) \<Rightarrow> procResource_HTMLIEngineInclude P h
          (pe_replace P fileContent (take n (drop i fileContent)) (included_text P h tag includePath)))"

definition engine_page :: "page_env \<Rightarrow> multiAuths \<Rightarrow> string \<Rightarrow> eRetCode page" where
  "engine_page P extraAuths fileContent p =
     (case procResource_HTMLIEngineInclude P (pg_server p) fileContent of
        None \<Rightarrow> None
      | Some text \<Rightarrow> page_bind (procResource_JProcessor P extraAuths text) (\<lambda>out.
          page_bind (page_web (web_touch (pe_web P))) (\<lambda>_ p. Some (p\<lparr>pg_content := pg_content p @ out\<rparr>, Inr S_200_OK))) p)"

text \<open>An element of memory is the data of the response at this point; it is lost when the engine takes over.\<close>

definition procResource_HTMLIEngine :: "page_env \<Rightarrow> multiAuths \<Rightarrow> string \<Rightarrow> eRetCode page" where
  "procResource_HTMLIEngine P extraAuths fullPath p =
     (let p1 = p\<lparr>pg_response := setDataStreamer (pg_response p) Own_container\<rparr> in
      if take 4 fullPath = ''MEM:''
      then (case data_streamer (pg_response p) of
          Static_element e \<Rightarrow> engine_page P extraAuths (pe_static P e) p1
        | _ \<Rightarrow> None)
      else (case pe_file P fullPath of
          None \<Rightarrow> Some (p1, Inr S_404_NOT_FOUND)
        | Some fileContent \<Rightarrow> engine_page P extraAuths fileContent p1))"

subsection \<open>Files\<close>

definition page_find :: "page_env \<Rightarrow> string \<Rightarrow> (sLocalRequestedFileInfo \<times> bool) page" where
  "page_find P appended p =
     (let (h, r, info, ok) = getLocalFilePathFromURI2 (pe_fs P) (pg_server p) (pg_response p) (rq_uri (pe_web P))
        (resourcesLocalPath P) appended False
      in Some (p\<lparr>pg_server := h, pg_response := r\<rparr>, Inr (info, ok)))"

text \<open>The path with \<^verbatim>\<open>.html\<close>, with \<^verbatim>\<open>index.html\<close>, and as it is: the first that is found.\<close>

fun page_find_first :: "page_env \<Rightarrow> string list \<Rightarrow> sLocalRequestedFileInfo \<Rightarrow> (sLocalRequestedFileInfo \<times> bool) page" where
  "page_find_first P [] info = page_return (info, False)"
| "page_find_first P (a # as) _ = page_bind (page_find P a) (\<lambda>(info, ok).
     if ok then page_return (info, True) else page_find_first P as info)"

text \<open>As written: the domain that is opened for the rules is not released.\<close>

definition page_authorizer :: "nat option page" where
  "page_authorizer = page_bind (page_get (\<lambda>p. map_option (session_at (pg_web p)) (cur_authSession (pg_web p)))) (\<lambda>s.
     case s of None \<Rightarrow> page_return None | Some x \<Rightarrow> page_web (web_openDomain (authDomain x)))"

definition page_verdict :: "page_env \<Rightarrow> string \<Rightarrow> nat option \<Rightarrow> page_state \<Rightarrow> sFilterEvaluation" where
  "page_verdict P path authorizer p =
     (case resourceFilter P of
        None \<Rightarrow> sFilterEvaluation_new
      | Some fs \<Rightarrow> evaluateAction (pe_regex P) fs path (map_option (session_at (pg_web p)) (cur_authSession (pg_web p)))
          (case (authorizer, ws_domains (pg_web p)) of
             (Some a, Some D) \<Rightarrow> Some (manager_db (domainManagers D a)) | _ \<Rightarrow> None))"

text \<open>The code for the file that was found, if any, and what is sent.\<close>

definition page_decide :: "page_env \<Rightarrow> sLocalRequestedFileInfo \<Rightarrow> bool \<Rightarrow> eRetCode page" where
  "page_decide P fileInfo found =
     (if found \<and> \<not> isDir fileInfo
      then page_bind page_authorizer (\<lambda>authorizer.
        page_bind (page_get (page_verdict P (sRealRelativePath fileInfo) authorizer)) (\<lambda>e.
          if eval_accept e
          then if eval_redirectLocation e = '''' then page_return S_200_OK else page_redirect (eval_redirectLocation e)
          else page_return S_403_FORBIDDEN))
      else page_return S_404_NOT_FOUND)"

definition page_finish :: "page_env \<Rightarrow> multiAuths \<Rightarrow> sLocalRequestedFileInfo \<Rightarrow> eRetCode \<Rightarrow> eRetCode page" where
  "page_finish P extraAuths fileInfo ret =
     page_bind (page_respond (\<lambda>r. if ret \<noteq> S_200_OK then setDataStreamer r Own_container else r)) (\<lambda>_.
     page_bind (page_get (contentType \<circ> pg_response)) (\<lambda>t.
     page_bind
       (if useHTMLIEngine P \<and> t = ''text/html''
        then procResource_HTMLIEngine P extraAuths (sRealFullPath fileInfo) else page_return ret) (\<lambda>ret.
     if ret = S_404_NOT_FOUND \<and> redirectOn404 P \<noteq> '''' then page_redirect (redirectOn404 P) else page_return ret)))"

definition procResource_File :: "page_env \<Rightarrow> multiAuths \<Rightarrow> eRetCode page" where
  "procResource_File P extraAuths =
     (if resourcesLocalPath P = '''' then page_return S_404_NOT_FOUND
      else page_bind (page_find_first P [''.html'', ''index.html'', ''''] info_reset) (\<lambda>(fileInfo, found).
        page_bind (page_decide P fileInfo found) (page_finish P extraAuths fileInfo)))"

subsection \<open>Configuration\<close>

definition setDocumentRootPath :: "page_env \<Rightarrow> string \<Rightarrow> page_env" where
  "setDocumentRootPath P v =
     (if v = '''' then P\<lparr>resourcesLocalPath := ''''\<rparr>
      else case fs_realpath (pe_fs P) v of
        Some path \<Rightarrow> P\<lparr>resourcesLocalPath := path\<rparr> | None \<Rightarrow> P\<lparr>resourcesLocalPath := v\<rparr>)"

definition setRedirectOn404 :: "page_env \<Rightarrow> string \<Rightarrow> page_env" where
  "setRedirectOn404 P v = P\<lparr>redirectOn404 := v\<rparr>"

definition setUseHTMLIEngine :: "page_env \<Rightarrow> bool \<Rightarrow> page_env" where
  "setUseHTMLIEngine P v = P\<lparr>useHTMLIEngine := v\<rparr>"

definition setResourceFilter :: "page_env \<Rightarrow> sFilter list option \<Rightarrow> page_env" where
  "setResourceFilter P v = P\<lparr>resourceFilter := v\<rparr>"

definition setUsingCSRFToken :: "page_env \<Rightarrow> bool \<Rightarrow> page_env" where
  "setUsingCSRFToken P v = P\<lparr>pe_web := (pe_web P)\<lparr>usingCSRFToken := v\<rparr>\<rparr>"

definition setSoftwareVersion :: "page_env \<Rightarrow> string \<Rightarrow> page_env" where
  "setSoftwareVersion P v = P\<lparr>pe_web := (pe_web P)\<lparr>softwareVersion := v\<rparr>\<rparr>"

definition setUserIP :: "page_env \<Rightarrow> string \<Rightarrow> page_env" where
  "setUserIP P v = P\<lparr>pe_web := (pe_web P)\<lparr>userIP := v\<rparr>\<rparr>"

definition setRemoteTLSCN :: "page_env \<Rightarrow> string \<Rightarrow> page_env" where
  "setRemoteTLSCN P v = P\<lparr>pe_web := (pe_web P)\<lparr>userTLSCommonName := v\<rparr>\<rparr>"

definition web_setAppName :: "page_env \<Rightarrow> string \<Rightarrow> page_env" where
  "web_setAppName P v = P\<lparr>pe_web := (pe_web P)\<lparr>wc_appName := v\<rparr>\<rparr>"

definition setAuthenticators :: "web_state \<Rightarrow> auth_db manager domains option \<Rightarrow> web_state" where
  "setAuthenticators w v = w\<lparr>ws_domains := v\<rparr>"

definition setMethodsManager :: "web_state \<Rightarrow> methodsManager \<Rightarrow> web_state" where
  "setMethodsManager w v = w\<lparr>ws_methods := v\<rparr>"

definition setSessionsManagger :: "web_state \<Rightarrow> sessionsManager \<Rightarrow> web_state" where
  "setSessionsManagger w v = w\<lparr>ws_sessions := v\<rparr>"

end
