(* ===== verification/Web_Requests.thy ===== *)
theory Web_Requests
  imports Web_Pages Full_Auth_Facts
begin

text \<open>
  The whole request of a web client: \<^verbatim>\<open>WebClientHandler::procHTTPClientContent\<close> of
  \<^verbatim>\<open>RPC/mdz_xrpc_webserver/webclienthandler.cpp\<close>, which reads what the client sent, opens its session, answers
  with the API or a page, and gives the session back. Nothing catches what a step throws: the thread of the
  connection ends there.
\<close>

subsection \<open>Definitions\<close>

text \<open>What the client sent. The results tell whether the answer goes on.\<close>

definition request_start :: "page_env \<Rightarrow> unit page" where
  "request_start P = page_web (web_do (\<lambda>w. w\<lparr>bDestroySession := False, bReleaseSessionHandler := False,
     sSessionId := rq_sessionCookie (pe_web P), sClientCSRFToken := rq_csrfToken (pe_web P)\<rparr>))"

definition request_extraAuth :: "page_env \<Rightarrow> bool web" where
  "request_extraAuth P w =
     (case setAuthentications (wc_parse (pe_web P)) (extraCredentials w) (rq_post (pe_web P) ''extraAuth'') of
        Inl e \<Rightarrow> (w, Inl e)
      | Inr (m, ok) \<Rightarrow> (w\<lparr>extraCredentials := m\<rparr>, Inr ok))"

definition request_auth :: "page_env \<Rightarrow> bool web" where
  "request_auth P w =
     (case Authentication_fromString (wc_parse (pe_web P)) (credentials w) (rq_post (pe_web P) ''auth'') of
        Inl e \<Rightarrow> (w, Inl e)
      | Inr (a, ok) \<Rightarrow> (w\<lparr>credentials := a\<rparr>, Inr ok))"

text \<open>The deprecated path.\<close>

definition request_uri :: "web_env \<Rightarrow> string" where
  "request_uri W =
     (if rq_uri W = ''/api''
      then if rq_get W ''mode'' = ''EXEC'' then ''/japi_exec''
        else if rq_get W ''mode'' = ''VERSION'' then ''/japi_version'' else ''/japi_session''
      else rq_uri W)"

definition request_answer :: "page_env \<Rightarrow> eRetCode page" where
  "request_answer P = (let W = pe_web P; uri = request_uri W in
     page_bind (page_get (extraCredentials \<circ> pg_web)) (\<lambda>extraAuths.
       if uri = ''/japi_exec'' then page_web (procJAPI_Exec W extraAuths (rq_get W ''method'') (rq_post W ''payload''))
       else if uri = ''/japi_version'' then page_web (procJAPI_Version W)
       else if uri = ''/japi_session'' then page_web (procJAPI_Session W)
       else procResource_File P extraAuths))"

definition page_sessionDestroy :: "unit page" where
  "page_sessionDestroy p = map_option (\<lambda>(w, r). (p\<lparr>pg_web := w\<rparr>, r)) (sessionDestroy (pg_web p))"

definition request_end :: "eRetCode \<Rightarrow> eRetCode page" where
  "request_end ret = page_bind (page_web sessionRelease) (\<lambda>_. page_bind page_sessionDestroy (\<lambda>_. page_return ret))"

definition procHTTPClientContent :: "page_env \<Rightarrow> eRetCode page" where
  "procHTTPClientContent P =
     page_bind (request_start P) (\<lambda>_.
     page_bind (page_web (request_extraAuth P)) (\<lambda>ok.
       if \<not> ok then page_return S_400_BAD_REQUEST
       else page_bind (page_web (request_auth P)) (\<lambda>ok.
         if \<not> ok then page_return S_400_BAD_REQUEST
         else page_bind (page_web (sessionOpen (pe_web P))) (\<lambda>_.
           page_bind (request_answer P) request_end))))"

text \<open>A handler that has served nothing yet.\<close>

definition page_handler :: "auth_db manager domains option \<Rightarrow> methodsManager \<Rightarrow> sessionsManager \<Rightarrow> http_server \<Rightarrow> page_state" where
  "page_handler D M S h = \<lparr>pg_web = web_handler D M S, pg_server = h,
     pg_response = \<lparr>data_streamer = Own_container, contentType = '''', bNoSniff = False, cacheable = False, rsp_headers = []\<rparr>,
     pg_content = ''''\<rparr>"

subsection \<open>Lemmas\<close>

lemma web_simps [simp]:
  "web_return x w = (w, Inr x)" "web_get f w = (w, Inr (f w))" "web_do g w = (g w, Inr ())" "web_fail e w = (w, Inl e)"
  by (simp_all add: web_return_def web_get_def web_do_def web_fail_def)

lemma web_bind_Inr:
  "web_bind f g w = (w', Inr y) \<longleftrightarrow> (\<exists>w1 x. f w = (w1, Inr x) \<and> g x w1 = (w', Inr y))"
  by (auto simp: web_bind_def split: prod.splits sum.splits)

lemma page_simps [simp]:
  "page_return x p = Some (p, Inr x)" "page_get f p = Some (p, Inr (f p))"
  "page_respond k p = Some (p\<lparr>pg_response := k (pg_response p)\<rparr>, Inr ())"
  by (simp_all add: page_return_def page_get_def page_respond_def)

lemma page_bind_Inr:
  "page_bind f g p = Some (p', Inr y) \<longleftrightarrow> (\<exists>p1 x. f p = Some (p1, Inr x) \<and> g x p1 = Some (p', Inr y))"
  by (auto simp: page_bind_def split: prod.splits sum.splits option.splits)

lemma page_bind_simps:
  "f p = Some (p1, Inr x) \<Longrightarrow> page_bind f g p = g x p1" "f p = Some (p1, Inl e) \<Longrightarrow> page_bind f g p = Some (p1, Inl e)"
  "f p = None \<Longrightarrow> page_bind f g p = None"
  by (simp_all add: page_bind_def)

lemma page_web_Inr: "page_web f p = Some (p', Inr x) \<longleftrightarrow> (\<exists>w. f (pg_web p) = (w, Inr x) \<and> p' = p\<lparr>pg_web := w\<rparr>)"
  by (auto simp: page_web_def Let_def split: prod.splits)

text \<open>Operations that reach no further than the domains.\<close>

definition only_domains :: "'a web \<Rightarrow> bool" where
  "only_domains f \<longleftrightarrow> (\<forall>w. (fst (f w))\<lparr>ws_domains := None\<rparr> = w\<lparr>ws_domains := None\<rparr>)"

lemma only_domainsD:
  assumes "only_domains f" "f w = (w', r)"
  shows "ws_sessions w' = ws_sessions w" "ws_methods w' = ws_methods w" "cur_webSession w' = cur_webSession w"
    "cur_authSession w' = cur_authSession w" "sClientCSRFToken w' = sClientCSRFToken w" "session_at w' = session_at w"
proof -
  have "w'\<lparr>ws_domains := None\<rparr> = w\<lparr>ws_domains := None\<rparr>" using assms by (metis only_domains_def fst_conv)
  then show "ws_sessions w' = ws_sessions w" "ws_methods w' = ws_methods w" "cur_webSession w' = cur_webSession w"
    "cur_authSession w' = cur_authSession w" "sClientCSRFToken w' = sClientCSRFToken w" "session_at w' = session_at w"
    by (cases w; cases w'; simp add: session_at_def fun_eq_iff)+
qed

lemma only_domains_return: "only_domains (web_return x)" "only_domains (web_get g)" "only_domains (web_fail e)"
  by (simp_all add: only_domains_def)

lemma only_domains_bind: "only_domains f \<Longrightarrow> (\<And>x. only_domains (g x)) \<Longrightarrow> only_domains (web_bind f g)"
  by (simp add: only_domains_def web_bind_def split: prod.splits sum.splits) (metis fst_conv)

lemma only_domains_basic:
  "only_domains (web_openDomain n)" "only_domains (web_releaseDomain n)" "only_domains (web_manager a k)"
  by (auto simp: only_domains_def web_openDomain_def web_releaseDomain_def web_manager_def Let_def
      split: option.splits sum.splits prod.splits)

lemma only_domains_temporary: "only_domains (temporaryAuthentication W u n a)"
  unfolding temporaryAuthentication_def web_authenticate_def web_seq_def
  by (intro only_domains_bind only_domains_basic)
    (auto intro!: only_domains_bind only_domains_basic only_domains_return split: option.splits)

lemma only_domains_extra: "only_domains (extra_loop W u n x is r)"
  by (induction "is" arbitrary: r) (auto intro!: only_domains_bind only_domains_temporary only_domains_return)

lemma require_full_frame:
  assumes "web_requireFullAuth n w = (w', r)"
  shows "ws_sessions w' = ws_sessions w" "cur_authSession w' = cur_authSession w" "session_at w' = session_at w"
    "ws_domains w' = ws_domains w" "ws_methods w' = fst (getMethodRequireFullAuth (ws_methods w) n)"
  using assms by (auto simp: web_requireFullAuth_def session_at_def fun_eq_iff split: prod.splits)

text \<open>A call that ends with 200 was validated, for the session of the handler.\<close>

lemma exec_validates:
  assumes "exec_call W x n pl w = (w', Inr (S_200_OK, out))"
  shows "\<exists>d extra r. snd (validateRPCMethodPerms (web_now W) manager_db_virtuals d (fst (getMethodRequireFullAuth (ws_methods w) n))
    (map_option (session_at w) (cur_authSession w)) n extra) = Some (VALIDATION_OK, r)"
proof -
  obtain user dn w1 full w2 extra w3 a w4 code reasons w5 y where steps:
      "web_requireFullAuth n w = (w1, Inr full)"
      "extra_loop W user dn x (getAuthenticationsIdxs x) {} w1 = (w2, Inr extra)"
      "web_openDomain dn w2 = (w3, Inr (Some a))" "web_validate W a n extra w3 = (w4, Inr (code, reasons))"
      "(case code of VALIDATION_OK \<Rightarrow> web_bind (web_execute W dn n y) (\<lambda>(ret, out). web_return (ret, Some out))
        | VALIDATION_NOTAUTHORIZED \<Rightarrow> web_return (S_401_UNAUTHORIZED, Some (json_fields [(''auth'', json_fields [(''reasons'', reasons)])]))
        | VALIDATION_METHODNOTFOUND \<Rightarrow> web_return (S_404_NOT_FOUND, Some JsonNull)) w5 = (w', Inr (S_200_OK, out))"
    using assms by (auto simp: exec_call_def web_bind_Inr web_seq_def Let_def split: option.splits if_splits)
  have "code = VALIDATION_OK" using steps(5) by (cases code) auto
  moreover note same = require_full_frame [OF steps(1)] only_domainsD [OF only_domains_extra steps(2)]
    only_domainsD [OF only_domains_basic(1) steps(3)]
  ultimately show ?thesis using steps(4)
    by (auto simp: web_validate_def Let_def same split: option.splits prod.splits) (metis snd_conv)
qed

lemma full_auth_session:
  assumes "snd (validateRPCMethodPerms now V d (fst (getMethodRequireFullAuth (full_auth_manager app dir) n)) session n extra) =
    Some (VALIDATION_OK, r)"
  shows "\<exists>s. session = Some s \<and> isPersistentSession s \<and> getIsFullyLoggedIn now s CHECK_DISALLOW_EXPIRED_PASSWORDS"
proof -
  let ?mm = "fst (getMethodRequireFullAuth (full_auth_manager app dir) n)"
  obtain f where "map_of (rpcMethods ?mm) n = Some f" using assms by (auto simp: validateRPCMethodPerms_def split: if_splits)
  then have f: "map_of (rpcMethods (full_auth_manager app dir)) n = Some f" by (simp add: getMethodRequireFullAuth_fields)
  have "snd (getMethodRequireFullAuth (full_auth_manager app dir) n)" using known_method [OF f] by blast
  then have mm: "?mm = full_auth_manager app dir"
    by (auto simp: getMethodRequireFullAuth_def split: option.splits)
  show ?thesis using validated [of "full_auth_manager app dir" n now V d session extra] f assms known_method [OF f] mm by auto
qed

lemma exec_200:
  assumes "ws_methods w = full_auth_manager app dir" "procJAPI_Exec W x n pl w = (w', Inr S_200_OK)"
  shows "csrfValidate W w \<and> (\<exists>e. cur_authSession w = Some e \<and> isPersistentSession (session_at w e) \<and>
    getIsFullyLoggedIn (web_now W) (session_at w e) CHECK_DISALLOW_EXPIRED_PASSWORDS)"
proof -
  have v: "csrfValidate W w" using assms(2) by (auto simp: procJAPI_Exec_def split: if_splits)
  obtain w1 out where "exec_call W x n pl w = (w1, Inr (S_200_OK, out))"
    using assms(2) v by (auto simp: procJAPI_Exec_def web_bind_Inr web_respond_def web_seq_def split: option.splits)
  from exec_validates [OF this] show ?thesis using v full_auth_session assms(1) by (fastforce simp: session_at_def)
qed

text \<open>The steps of a request. A fresh handler finds its session by the cookie alone.\<close>

definition client_session :: "page_env \<Rightarrow> sessionsManager \<Rightarrow> (sessionsManager \<times> nat) option" where
  "client_session P S = (case openSession (web_now (pe_web P)) S (rq_sessionCookie (pe_web P)) of
     (S1, Some (e, _)) \<Rightarrow> Some (S1, e) | (_, None) \<Rightarrow> None)"

lemma openSession_None: "openSession now S sid = (S1, None) \<Longrightarrow> S1 = S"
  by (auto simp: openSession_def Let_def split: option.splits prod.splits)

lemma sessionOpen_fresh:
  assumes "sessionOpen W w = (w', Inr ())" "cur_authSession w = None" "sSessionId w = rq_sessionCookie W"
  shows "ws_domains w' = ws_domains w \<and> ws_methods w' = ws_methods w \<and> sClientCSRFToken w' = sClientCSRFToken w \<and>
    (case openSession (web_now W) (ws_sessions w) (rq_sessionCookie W) of
       (S1, Some (e, _)) \<Rightarrow> ws_sessions w' = S1 \<and> cur_webSession w' = Some e \<and> cur_authSession w' = Some e
     | (S1, None) \<Rightarrow> cur_webSession w' = None \<and> cur_authSession w' = None)"
  using assms by (auto simp: sessionOpen_def web_openSession_def web_bind_def web_seq_def web_cookie_def
      split: prod.splits option.splits if_splits)

text \<open>A request whose credentials cannot be read is answered at once; every other one goes through a session.\<close>

lemma request_cases:
  assumes "procHTTPClientContent P (page_handler D M S h) = Some (p', Inr ret)"
  shows "ret = S_400_BAD_REQUEST \<and> ws_domains (pg_web p') = D \<or>
    (\<exists>p1 p2. ws_domains (pg_web p1) = D \<and> ws_methods (pg_web p1) = M \<and>
    sClientCSRFToken (pg_web p1) = rq_csrfToken (pe_web P) \<and>
    (case client_session P S of
       Some (S1, e) \<Rightarrow> ws_sessions (pg_web p1) = S1 \<and> cur_webSession (pg_web p1) = Some e \<and> cur_authSession (pg_web p1) = Some e
     | None \<Rightarrow> cur_webSession (pg_web p1) = None \<and> cur_authSession (pg_web p1) = None) \<and>
    request_answer P p1 = Some (p2, Inr ret) \<and> request_end ret p2 = Some (p', Inr ret))"
proof -
  obtain pa where start: "request_start P (page_handler D M S h) = Some (pa, Inr ())"
    using assms by (auto simp: procHTTPClientContent_def page_bind_Inr)
  have pa: "cur_authSession (pg_web pa) = None" "sSessionId (pg_web pa) = rq_sessionCookie (pe_web P)"
    "ws_domains (pg_web pa) = D" "ws_methods (pg_web pa) = M" "ws_sessions (pg_web pa) = S"
    "sClientCSRFToken (pg_web pa) = rq_csrfToken (pe_web P)"
    using start by (auto simp: request_start_def page_web_def page_handler_def web_handler_def)
  consider (refused) "ret = S_400_BAD_REQUEST" "ws_domains (pg_web p') = D"
    | (steps) m a w p2 ret' where "sessionOpen (pe_web P) ((pg_web pa)\<lparr>extraCredentials := m, credentials := a\<rparr>) = (w, Inr ())"
      "request_answer P (pa\<lparr>pg_web := w\<rparr>) = Some (p2, Inr ret')" "request_end ret' p2 = Some (p', Inr ret)"
    using assms start pa(3) by (auto simp: procHTTPClientContent_def page_bind_Inr page_web_Inr request_extraAuth_def
        request_auth_def split: if_splits sum.splits prod.splits)
  then show ?thesis
  proof cases
    case steps
    have "ret' = ret" using steps(3) by (auto simp: request_end_def page_bind_Inr)
    with steps show ?thesis using pa sessionOpen_fresh [OF steps(1)]
      by (intro disjI2 exI [of _ "pa\<lparr>pg_web := w\<rparr>"] exI [of _ p2])
        (auto simp: client_session_def split: prod.splits option.splits)
  qed simp
qed

lemma request_steps:
  assumes "procHTTPClientContent P (page_handler D M S h) = Some (p', Inr ret)" "ret \<noteq> S_400_BAD_REQUEST"
  shows "\<exists>p1 p2. ws_domains (pg_web p1) = D \<and> ws_methods (pg_web p1) = M \<and>
    sClientCSRFToken (pg_web p1) = rq_csrfToken (pe_web P) \<and>
    (case client_session P S of
       Some (S1, e) \<Rightarrow> ws_sessions (pg_web p1) = S1 \<and> cur_webSession (pg_web p1) = Some e \<and> cur_authSession (pg_web p1) = Some e
     | None \<Rightarrow> cur_webSession (pg_web p1) = None \<and> cur_authSession (pg_web p1) = None) \<and>
    request_answer P p1 = Some (p2, Inr ret) \<and> request_end ret p2 = Some (p', Inr ret)"
  using request_cases [OF assms(1)] assms(2) by blast

lemma release_keeps_domains: "sessionRelease w = (w', r) \<Longrightarrow> ws_domains w' = ws_domains w"
  by (auto simp: sessionRelease_def web_seq_def web_bind_def web_cookie_def web_releaseSession_def
      split: if_splits prod.splits sum.splits)

lemma destroy_keeps_domains: "sessionDestroy w = Some (w', r) \<Longrightarrow> ws_domains w' = ws_domains w"
  by (auto simp: sessionDestroy_def Let_def split: if_splits option.splits sum.splits)

lemma end_keeps_domains:
  assumes "request_end ret p = Some (p', Inr r)"
  shows "ws_domains (pg_web p') = ws_domains (pg_web p)"
proof -
  obtain w1 w2 where "sessionRelease (pg_web p) = (w1, Inr ())" "sessionDestroy w1 = Some (w2, Inr ())" "pg_web p' = w2"
    using assms by (auto simp: request_end_def page_bind_Inr page_web_Inr page_sessionDestroy_def)
  then show ?thesis using release_keeps_domains destroy_keeps_domains by metis
qed

subsection \<open>Properties\<close>

text \<open>C26: A call of an administration method that is answered with 200 came with the cookie of a session that is
  persistent and fully logged in with no password expired; when the server uses tokens, this session had
  confirmed its first token and the request carried its second one.\<close>

theorem answered_calls_are_logged_in:
  assumes "request_uri (pe_web P) = ''/japi_exec''"
    "procHTTPClientContent P (page_handler D (full_auth_manager app dir) S h) = Some (p', Inr S_200_OK)"
  shows "\<exists>S1 e. client_session P S = Some (S1, e) \<and> isPersistentSession (ws_authSession (sm_store S1 e)) \<and>
    getIsFullyLoggedIn (web_now (pe_web P)) (ws_authSession (sm_store S1 e)) CHECK_DISALLOW_EXPIRED_PASSWORDS \<and>
    (usingCSRFToken (pe_web P) \<longrightarrow> bAuthTokenConfirmed (sm_store S1 e) \<and> validateCSRFToken (sm_store S1 e) (rq_csrfToken (pe_web P)))"
proof -
  let ?W = "pe_web P"
  obtain p1 p2 where p: "ws_methods (pg_web p1) = full_auth_manager app dir" "sClientCSRFToken (pg_web p1) = rq_csrfToken ?W"
      "case client_session P S of
         Some (S1, e) \<Rightarrow> ws_sessions (pg_web p1) = S1 \<and> cur_webSession (pg_web p1) = Some e \<and> cur_authSession (pg_web p1) = Some e
       | None \<Rightarrow> cur_webSession (pg_web p1) = None \<and> cur_authSession (pg_web p1) = None"
      "request_answer P p1 = Some (p2, Inr S_200_OK)"
    using request_steps [OF assms(2)] by auto
  obtain w x where w: "procJAPI_Exec ?W x (rq_get ?W ''method'') (rq_post ?W ''payload'') (pg_web p1) = (w, Inr S_200_OK)"
    using p(4) assms(1) by (auto simp: request_answer_def page_bind_Inr page_web_Inr Let_def)
  from exec_200 [OF p(1) w] p(2,3) show ?thesis
    by (auto simp: csrfValidate_def session_at_def split: option.splits)
qed

text \<open>C27: On a server that uses tokens, a request to the API (\<^verbatim>\<open>/japi_exec\<close>) that is answered leaves every
  domain as it is, the counters of wrong passwords included, unless it carries the token of a session that its
  cookie names and that is confirmed. Methods that a page calls while it is filled do not ask for a token; they
  are requests to other addresses.\<close>

theorem calls_without_token_change_nothing:
  assumes "request_uri (pe_web P) = ''/japi_exec''" "usingCSRFToken (pe_web P)"
    "procHTTPClientContent P (page_handler D M S h) = Some (p', Inr ret)"
  shows "ws_domains (pg_web p') = D \<or> (\<exists>S1 e. client_session P S = Some (S1, e) \<and> bAuthTokenConfirmed (sm_store S1 e) \<and>
    validateCSRFToken (sm_store S1 e) (rq_csrfToken (pe_web P)))"
proof (cases "ws_domains (pg_web p') = D")
  case changed: False
  obtain p1 p2 where p: "ws_domains (pg_web p1) = D" "sClientCSRFToken (pg_web p1) = rq_csrfToken (pe_web P)"
      "case client_session P S of
         Some (S1, e) \<Rightarrow> ws_sessions (pg_web p1) = S1 \<and> cur_webSession (pg_web p1) = Some e \<and> cur_authSession (pg_web p1) = Some e
       | None \<Rightarrow> cur_webSession (pg_web p1) = None \<and> cur_authSession (pg_web p1) = None"
      "request_answer P p1 = Some (p2, Inr ret)" "request_end ret p2 = Some (p', Inr ret)"
    using request_cases [OF assms(3)] changed by auto
  have "ws_domains (pg_web p2) \<noteq> D" using end_keeps_domains [OF p(5)] changed by simp
  then have "csrfValidate (pe_web P) (pg_web p1)"
    using p(1,4) assms(1) by (auto simp: request_answer_def procJAPI_Exec_def page_bind_Inr page_web_Inr Let_def split: if_splits)
  then show ?thesis using p(2,3) assms(2) by (auto simp: csrfValidate_def split: option.splits)
qed simp

subsection \<open>A request\<close>

text \<open>A server with one domain and the session of a user who may read.\<close>

definition sample_web :: "string \<Rightarrow> (string \<Rightarrow> string) \<Rightarrow> (string \<Rightarrow> string) \<Rightarrow> web_env" where
  "sample_web uri get post = \<lparr>wc_appName = ''web'', usingCSRFToken = True, softwareVersion = ''1'', userIP = '''',
     userTLSCommonName = '''', wc_parse = (\<lambda>t. if t = ''bad'' then Some (JsonObject [(''0'', JsonInt 1)]) else None), rq_uri = uri,
     rq_get = get, rq_post = post, rq_sessionCookie = ''sid'', rq_csrfToken = ''token'', rq_userAgent = '''',
     wr_env = some_env, wr_regenId = ''x'', wr_newId = ''y'', wr_confirmToken = ''c'', wr_csrfToken = ''t'', wr_address = 9\<rparr>"

definition sample_page :: "web_env \<Rightarrow> page_env" where
  "sample_page W = \<lparr>pe_web = W, pe_fs = small_files, pe_file = (\<lambda>_. None), pe_static = (\<lambda>_. ''''), pe_writer = (\<lambda>_. ''null''),
     pe_replace = (\<lambda>_ _ t. t), pe_getExist = (\<lambda>_. False), pe_postExist = (\<lambda>_. False), pe_regex = (\<lambda>_ _. True),
     resourceFilter = None, resourcesLocalPath = '''', redirectOn404 = '''', useHTMLIEngine = True\<rparr>"

definition sample_sessions :: sessionsManager where
  "sample_sessions = \<lparr>sessionPerUser = [(''bob'', '''') \<mapsto> 1], sm_sessions = fst (addElement [] ''sid'' (Some 7)),
     sm_store = (\<lambda>_. (WebSession_new ''confirm'' ''token'' (logged_in ''bob''))\<lparr>bAuthTokenConfirmed := True\<rparr>), gcWaitTime = 1,
     sessionExpirationTime = 900, maxSessionsPerUser = 100\<rparr>"

definition sample_domains :: "auth_db manager domains" where
  "sample_domains = fst (addDomain (Domains_new (\<lambda>_. Manager_new reader_db)) '''' (Some 5))"

definition sample_call :: page_env where
  "sample_call = sample_page (sample_web ''/japi_exec'' (\<lambda>k. if k = ''method'' then ''accountsList'' else '''') (\<lambda>_. ''''))"

abbreviation sample_methods :: methodsManager where
  "sample_methods \<equiv> full_auth_manager ''DIR'' ''DIR''"

lemma sample_method:
  "getMethodRequireFullAuth sample_methods ''accountsList'' = (sample_methods, True)"
  "map_of (rpcMethods sample_methods) ''accountsList'' = Some FullAuth_accountsList"
proof -
  have "map_of (FullAuth_methods ''DIR'') ''accountsList'' = Some (''DIRREAD'', FullAuth_accountsList)"
    by (simp add: method_tables)
  then show m: "map_of (rpcMethods sample_methods) ''accountsList'' = Some FullAuth_accountsList"
    using full_auth_registers [of "''DIR''" "''DIR''"] by (auto simp: registers_def)
  show "getMethodRequireFullAuth sample_methods ''accountsList'' = (sample_methods, True)"
    using known_method [OF m] by (auto simp: getMethodRequireFullAuth_def split: option.splits)
qed

lemmas sample_simps = sample_web_def sample_page_def sample_sessions_def sample_domains_def addElement_def WebSession_new_def

lemma sample_answered:
  "\<exists>p'. procHTTPClientContent sample_call (page_handler (Some sample_domains) sample_methods sample_sessions small_server) = Some (p', Inr S_200_OK)"
proof -
  obtain r where r: "validateRPCMethodPerms 6 manager_db_virtuals reader_db sample_methods (Some (logged_in ''bob'')) ''accountsList'' {} =
      (sample_methods, Some (VALIDATION_OK, r))"
    using reader_may_list sample_method by (auto simp: validateRPCMethodPerms_def Let_def split: prod.splits)
  have last: "lastActivity (logged_in ''bob'') = 5" "authUser (logged_in ''bob'') = ''bob''" "authDomain (logged_in ''bob'') = ''''"
    by (simp_all add: logged_in_def Session_new_def)
  have now: "re_now some_env = 6" by (simp add: some_env_def)
  show ?thesis
    by (simp add: procHTTPClientContent_def page_handler_def web_handler_def request_start_def page_web_def request_extraAuth_def
        request_auth_def setAuthentications_def Authentication_fromString_def sessionOpen_def web_openSession_def
        request_answer_def request_uri_def sample_call_def sample_simps page_bind_def web_bind_def web_seq_def
        openSession_def openElement_def Let_def session_expired_def isLastActivityExpired_def last web_now_def now
        add64_def u64_mod_def procJAPI_Exec_def csrfValidate_def validateCSRFToken_def exec_call_def session_at_def
        web_requireFullAuth_def sample_method getAuthenticationsIdxs_def web_openDomain_def openDomain_def addDomain_def
        Domains_new_def web_validate_def r web_releaseDomain_def releaseDomain_def releaseElement_def web_execute_def
        web_touch_def web_update_session_def update_session_def web_run_def runRPCMethod_def FullAuth_accountsList_def
        rpc_value_def rpc_read_def web_respond_def request_end_def sessionRelease_def web_cookie_def web_releaseSession_def
        releaseSession_def page_sessionDestroy_def sessionDestroy_def set_manager_def Manager_new_def)
qed

theorem answered_calls_are_logged_in_witness:
  "\<exists>S1 e. client_session sample_call sample_sessions = Some (S1, e) \<and> isPersistentSession (ws_authSession (sm_store S1 e)) \<and>
    getIsFullyLoggedIn 6 (ws_authSession (sm_store S1 e)) CHECK_DISALLOW_EXPIRED_PASSWORDS \<and>
    bAuthTokenConfirmed (sm_store S1 e) \<and> validateCSRFToken (sm_store S1 e) ''token''"
proof -
  obtain p' where p: "procHTTPClientContent sample_call (page_handler (Some sample_domains) sample_methods sample_sessions small_server) =
    Some (p', Inr S_200_OK)" using sample_answered by blast
  have "request_uri (pe_web sample_call) = ''/japi_exec''" by (simp add: sample_call_def sample_simps request_uri_def)
  from answered_calls_are_logged_in [OF this p] show ?thesis
    by (simp add: sample_call_def sample_simps web_now_def some_env_def)
qed

definition forged_call :: page_env where
  "forged_call = sample_page ((pe_web sample_call)\<lparr>rq_csrfToken := ''other''\<rparr>)"

theorem calls_without_token_change_nothing_witness:
  "\<exists>p'. procHTTPClientContent forged_call (page_handler (Some sample_domains) sample_methods sample_sessions small_server) =
      Some (p', Inr S_404_NOT_FOUND) \<and> ws_domains (pg_web p') = Some sample_domains"
proof -
  have uri: "request_uri (pe_web forged_call) = ''/japi_exec''" "usingCSRFToken (pe_web forged_call)"
    by (simp_all add: forged_call_def sample_call_def sample_simps request_uri_def)
  obtain p' where p: "procHTTPClientContent forged_call (page_handler (Some sample_domains) sample_methods sample_sessions small_server) =
      Some (p', Inr S_404_NOT_FOUND)"
    by (simp add: procHTTPClientContent_def page_handler_def web_handler_def request_start_def page_web_def request_extraAuth_def
        request_auth_def setAuthentications_def Authentication_fromString_def sessionOpen_def web_openSession_def
        request_answer_def request_uri_def forged_call_def sample_call_def sample_simps page_bind_def web_bind_def web_seq_def
        openSession_def openElement_def Let_def procJAPI_Exec_def csrfValidate_def validateCSRFToken_def
        releaseElement_def request_end_def sessionRelease_def web_cookie_def web_releaseSession_def
        releaseSession_def page_sessionDestroy_def sessionDestroy_def split: if_splits)
  have "\<not> validateCSRFToken (sm_store S1 e) (rq_csrfToken (pe_web forged_call))" if "client_session forged_call sample_sessions = Some (S1, e)" for S1 e
    using that by (auto simp: client_session_def forged_call_def sample_call_def sample_simps openSession_def openElement_def
        validateCSRFToken_def Let_def)
  with calls_without_token_change_nothing [OF uri p] p show ?thesis by auto
qed

text \<open>A variable \<^verbatim>\<open>extraAuth\<close> with a member that is neither an object nor null ends the thread of the connection
  before any session is opened or password asked for: the JSON library throws and nothing catches it.\<close>

theorem malformed_passwords_end_thread:
  assumes "wc_parse (pe_web P) (rq_post (pe_web P) ''extraAuth'') = Some (JsonObject ms)"
    "rq_post (pe_web P) ''extraAuth'' \<noteq> ''''" "(idx, v) \<in> set ms" "\<not> json_isObject v" "v \<noteq> JsonNull"
  shows "\<exists>p' e. procHTTPClientContent P p = Some (p', Inl e) \<and> ws_sessions (pg_web p') = ws_sessions (pg_web p) \<and>
    ws_domains (pg_web p') = ws_domains (pg_web p)"
proof -
  obtain e where "json_isMember v ''pass'' = Inl e" using assms(4,5) by (cases v) (auto simp: json_isMember_def json_isObject_def)
  then obtain e' where "setAuthentications_loop (extraCredentials (pg_web p)) ms = Inl e'"
    using loop_throws [OF assms(3)] by blast
  then show ?thesis using assms(1,2)
    by (simp add: procHTTPClientContent_def request_start_def page_web_def page_bind_def request_extraAuth_def setAuthentications_def)
qed

theorem malformed_passwords_end_thread_witness:
  "\<exists>p' e. procHTTPClientContent (sample_page (sample_web ''/'' (\<lambda>_. '''') (\<lambda>k. if k = ''extraAuth'' then ''bad'' else '''')))
      (page_handler (Some sample_domains) sample_methods sample_sessions small_server) = Some (p', Inl e)"
  using malformed_passwords_end_thread [of "sample_page (sample_web ''/'' (\<lambda>_. '''') (\<lambda>k. if k = ''extraAuth'' then ''bad'' else ''''))"
      "[(''0'', JsonInt 1)]" "''0''" "JsonInt 1" "page_handler (Some sample_domains) sample_methods sample_sessions small_server"]
  by (auto simp: sample_simps json_isObject_def)

text \<open>A refused password leaves no session identifier behind, and so the session is not given back.\<close>

lemma only_domains_ask: "only_domains (persistent_ask W user dn auth)"
  unfolding persistent_ask_def web_authenticate_def web_seq_def
  by (intro only_domains_bind only_domains_basic)
    (auto intro!: only_domains_bind only_domains_basic only_domains_return split: option.splits)

lemma refused_password:
  assumes "persistentAuthentication W user dn auth (Some e) w = (w', Inr (sid, r))" "\<not> IS_PASSWORD_AUTHENTICATED r"
  shows "sid = '''' \<and> ws_sessions w' = ws_sessions w"
proof -
  obtain st where "persistent_ask W user dn auth w = (w', Inr (r, st))" "sid = ''''"
    using assms by (auto simp: persistentAuthentication_def web_bind_Inr web_update_session_def web_seq_def split: if_splits)
  then show ?thesis using only_domainsD(1) [OF only_domains_ask] by blast
qed

lemma refused_postlogin:
  assumes "procJAPI_Session_POSTLOGIN W auth w = (w', Inr S_401_UNAUTHORIZED)"
  shows "sSessionId w' = '''' \<and> ws_sessions w' = ws_sessions w"
proof -
  obtain e where e: "cur_authSession w = Some e"
    using assms by (auto simp: procJAPI_Session_POSTLOGIN_def web_bind_Inr split: option.splits)
  obtain sid r w1 where "persistentAuthentication W (authUser (session_at w e)) (authDomain (session_at w e)) auth (Some e) w = (w1, Inr (sid, r))"
      "\<not> IS_PASSWORD_AUTHENTICATED r" "sSessionId w' = sid" "ws_sessions w' = ws_sessions w1"
    using assms e by (auto simp: procJAPI_Session_POSTLOGIN_def web_bind_Inr web_respond_def web_seq_def split: if_splits)
  with refused_password [OF this(1,2)] show ?thesis by simp
qed

lemma end_without_session:
  assumes "request_end ret p = Some (p', Inr r)" "sSessionId (pg_web p) = ''''"
    "map_of (sm_sessions (ws_sessions (pg_web p))) '''' = None"
  shows "ws_sessions (pg_web p') = ws_sessions (pg_web p)"
proof -
  obtain w1 w2 where w: "sessionRelease (pg_web p) = (w1, Inr ())" "sessionDestroy w1 = Some (w2, Inr ())" "pg_web p' = w2"
    using assms(1) by (auto simp: request_end_def page_bind_Inr page_web_Inr page_sessionDestroy_def)
  have "ws_sessions w1 = ws_sessions (pg_web p) \<and> sSessionId w1 = ''''"
    using w(1) assms(2,3) by (auto simp: sessionRelease_def web_seq_def web_bind_def web_cookie_def web_releaseSession_def
        releaseSession_def releaseElement_def split: if_splits)
  then have "ws_sessions w2 = ws_sessions (pg_web p)" using w(2) assms(3)
    by (auto simp: sessionDestroy_def Let_def destroySession_def openElement_def split: if_splits)
  then show ?thesis using w(3) by simp
qed

lemma opened_session_blocks:
  assumes "openSession now S sid = (S1, Some r)" "std_map_ok (sm_sessions S)" "map_of (sm_sessions S) sid = Some x"
    "readers x + 1 \<noteq> 0" "readers x + 2 \<noteq> 0" "sm_sessions S' = sm_sessions S1"
  shows "destroySession S' sid = None"
proof -
  obtain e where e: "rdElement x = Some e" "sm_sessions S1 = std_put sid (x\<lparr>readers := readers x + 1\<rparr>) (sm_sessions S)"
    using assms(1,3) by (auto simp: openSession_def openElement_def Let_def split: option.splits)
  then show ?thesis
    using assms(2,4,5,6) by (simp add: add.commute destroySession_def openElement_def releaseElement_def sm_destroyElement_def
        destroyElement_take_def destroyElement_test_def Let_def)
qed

lemma csrf_check_passes:
  assumes "csrf_check W ''POSTLOGIN'' w = (w1, Inr (ok, ret))"
  shows "w1 = w \<and> ret = S_404_NOT_FOUND"
  using assms by (auto simp: csrf_check_def Let_def split: if_splits option.splits)

text \<open>C28: A client that sends a wrong further password is answered 401 and its session is told to be destroyed, but
  the identifier was overwritten before: the session is neither released nor removed, and every later
  destruction of it, on logout for instance, waits for a reader that has gone.\<close>

theorem refused_password_leaves_session_open:
  assumes "request_uri (pe_web P) = ''/japi_session''" "rq_get (pe_web P) ''mode'' = ''POSTLOGIN''"
    "procHTTPClientContent P (page_handler D M S h) = Some (p', Inr S_401_UNAUTHORIZED)"
    "std_map_ok (sm_sessions S)" "map_of (sm_sessions S) '''' = None"
    "map_of (sm_sessions S) (rq_sessionCookie (pe_web P)) = Some x" "readers x + 1 \<noteq> 0" "readers x + 2 \<noteq> 0"
  shows "map_of (sm_sessions (ws_sessions (pg_web p'))) (rq_sessionCookie (pe_web P)) = Some (x\<lparr>readers := readers x + 1\<rparr>) \<and>
    destroySession (ws_sessions (pg_web p')) (rq_sessionCookie (pe_web P)) = None"
proof -
  let ?W = "pe_web P" let ?sid = "rq_sessionCookie (pe_web P)"
  obtain p1 p2 where p: "case client_session P S of
         Some (S1, e) \<Rightarrow> ws_sessions (pg_web p1) = S1 \<and> cur_webSession (pg_web p1) = Some e \<and> cur_authSession (pg_web p1) = Some e
       | None \<Rightarrow> cur_webSession (pg_web p1) = None \<and> cur_authSession (pg_web p1) = None"
      "request_answer P p1 = Some (p2, Inr S_401_UNAUTHORIZED)" "request_end S_401_UNAUTHORIZED p2 = Some (p', Inr S_401_UNAUTHORIZED)"
    using request_steps [OF assms(3)] by auto
  obtain w where w: "procJAPI_Session ?W (pg_web p1) = (w, Inr S_401_UNAUTHORIZED)" "pg_web p2 = w"
    using p(2) assms(1) by (auto simp: request_answer_def page_bind_Inr page_web_Inr Let_def)
  have m: "session_confirmed (pg_web p1) \<and> procJAPI_Session_POSTLOGIN ?W (credentials (pg_web p1)) (pg_web p1) = (w, Inr S_401_UNAUTHORIZED)"
    using w(1) assms(2) by (auto simp: procJAPI_Session_def Let_def web_bind_Inr web_seq_def procJAPI_Session_modes_def
        split: if_splits dest!: csrf_check_passes)
  obtain S1 e age where o: "openSession (web_now ?W) S ?sid = (S1, Some (e, age))" "ws_sessions (pg_web p1) = S1"
    using p(1) m by (auto simp: client_session_def session_confirmed_def split: option.splits prod.splits)
  have s1: "sm_sessions S1 = std_put ?sid (x\<lparr>readers := readers x + 1\<rparr>) (sm_sessions S)"
    using o(1) assms(6) by (auto simp: openSession_def openElement_def Let_def split: option.splits)
  have "sSessionId w = '''' \<and> ws_sessions w = S1" using refused_postlogin m o(2) by blast
  moreover have "?sid \<noteq> ''''" using assms(5,6) by auto
  ultimately have "ws_sessions (pg_web p') = S1"
    using end_without_session [OF p(3)] w(2) s1 assms(4,5) by simp
  then show ?thesis using opened_session_blocks [OF o(1) assms(4,6,7,8)] s1 assms(4) by simp
qed

definition sample_postlogin :: page_env where
  "sample_postlogin = sample_page (sample_web ''/japi_session'' (\<lambda>k. if k = ''mode'' then ''POSTLOGIN'' else '''') (\<lambda>_. ''''))"

lemma sample_refused:
  "authenticate (re_crypto some_env) manager_db_virtuals now (Manager_new reader_db) ''web'' c ''bob'' pw i mode cs want =
    (Manager_new reader_db, REASON_BAD_ACCOUNT, None)"
proof -
  have "\<not> applicationValidateAccount reader_db ''web'' ''bob''"
    by (simp add: reader_db_def admin_db_def run_simps account_row_new_def applicationAdd_def attribAdd_def
        attribAccountAdd_def has_attrib_def has_application_def applicationValidateAccount_def db_first_def)
  then show ?thesis by (simp add: authenticate_def authenticate_check_def Let_def Manager_new_def)
qed

lemma sample_postlogin_401:
  "\<exists>p'. procHTTPClientContent sample_postlogin (page_handler (Some sample_domains) sample_methods sample_sessions small_server) =
    Some (p', Inr S_401_UNAUTHORIZED)"
proof -
  have who: "authUser (logged_in ''bob'') = ''bob''" "authDomain (logged_in ''bob'') = ''''"
    by (simp_all add: logged_in_def Session_new_def)
  show ?thesis
    by (simp add: procHTTPClientContent_def page_handler_def web_handler_def request_start_def page_web_def request_extraAuth_def
        request_auth_def setAuthentications_def Authentication_fromString_def sessionOpen_def web_openSession_def
        request_answer_def request_uri_def sample_postlogin_def sample_simps page_bind_def web_bind_def web_seq_def
        openSession_def openElement_def Let_def procJAPI_Session_def csrf_check_def validateCSRFToken_def
        procJAPI_Session_modes_def session_confirmed_def procJAPI_Session_POSTLOGIN_def session_at_def who
        persistentAuthentication_def persistent_ask_def web_openDomain_def openDomain_def addDomain_def Domains_new_def
        web_authenticate_def web_manager_def sample_refused web_releaseDomain_def releaseDomain_def releaseElement_def
        set_manager_def IS_PASSWORD_AUTHENTICATED_def web_respond_def request_end_def sessionRelease_def web_cookie_def
        web_releaseSession_def releaseSession_def page_sessionDestroy_def sessionDestroy_def destroySession_def)
qed

theorem refused_password_leaves_session_open_witness:
  "\<exists>p'. procHTTPClientContent sample_postlogin (page_handler (Some sample_domains) sample_methods sample_sessions small_server) =
      Some (p', Inr S_401_UNAUTHORIZED) \<and> destroySession (ws_sessions (pg_web p')) ''sid'' = None"
proof -
  obtain p' where p: "procHTTPClientContent sample_postlogin (page_handler (Some sample_domains) sample_methods sample_sessions small_server) =
      Some (p', Inr S_401_UNAUTHORIZED)" using sample_postlogin_401 by blast
  have "request_uri (pe_web sample_postlogin) = ''/japi_session''" "rq_get (pe_web sample_postlogin) ''mode'' = ''POSTLOGIN''"
    "map_of (sm_sessions sample_sessions) (rq_sessionCookie (pe_web sample_postlogin)) = Some \<lparr>rdElement = Some 7, readers = 0\<rparr>"
    "rq_sessionCookie (pe_web sample_postlogin) = ''sid''"
    by (simp_all add: sample_postlogin_def sample_simps request_uri_def)
  with refused_password_leaves_session_open [OF this(1,2) p, of "\<lparr>rdElement = Some 7, readers = 0\<rparr>"] p
  show ?thesis by (auto simp: sample_sessions_def addElement_def)
qed

subsection \<open>Pages\<close>

lemma response_kept:
  "data_streamer (fst (snd (getLocalFilePathFromURI2 F h r uri dir a False))) = data_streamer r \<or>
   snd (snd (snd (getLocalFilePathFromURI2 F h r uri dir a False)))"
  by (auto simp: getLocalFilePathFromURI2_def resolved_file_def Let_def case_prod_beta split: option.splits file_kind.splits)

lemma find_frame:
  assumes "page_find P a p = Some (p1, Inr (info, ok))"
  shows "pg_content p1 = pg_content p \<and> pg_web p1 = pg_web p"
  using assms by (auto simp: page_find_def Let_def split: prod.splits)

lemma find_first_frame:
  assumes "page_find_first P as info0 p = Some (p1, Inr (info, ok))"
  shows "pg_content p1 = pg_content p \<and> pg_web p1 = pg_web p"
  using assms
proof (induction P as info0 arbitrary: p rule: page_find_first.induct)
  case (2 P a as u)
  obtain p2 i k where s: "page_find P a p = Some (p2, Inr (i, k))"
    "(if k then page_return (i, True) else page_find_first P as i) p2 = Some (p1, Inr (info, ok))"
    using 2(2) by (auto simp: page_bind_Inr)
  show ?case using find_frame [OF s(1)] s(2) 2(1) by (auto split: if_splits)
qed simp

lemma redirect_frame:
  "page_redirect l p = Some (p', Inr ret) \<Longrightarrow> pg_content p' = pg_content p \<and> data_streamer (pg_response p') = Own_container"
  by (auto simp: page_redirect_def page_bind_Inr setResponseRedirect_def)

lemma authorizer_frame: "page_authorizer p = Some (p', Inr a) \<Longrightarrow> pg_content p' = pg_content p"
  by (auto simp: page_authorizer_def page_bind_Inr page_web_Inr split: option.splits)

text \<open>C29: What a page request sends comes from a file that was found, is no directory, and was accepted by the rules
  for the session without a redirection: any other request leaves the answer without data.\<close>

theorem pages_need_acceptance:
  assumes "procResource_File P x p = Some (p', Inr ret)" "data_streamer (pg_response p) = Own_container"
  shows "data_streamer (pg_response p') = Own_container \<and> pg_content p' = pg_content p \<or>
    (\<exists>p1 info p2 a. page_find_first P [''.html'', ''index.html'', ''''] info_reset p = Some (p1, Inr (info, True)) \<and>
      \<not> isDir info \<and> page_authorizer p1 = Some (p2, Inr a) \<and> eval_accept (page_verdict P (sRealRelativePath info) a p2) \<and>
      eval_redirectLocation (page_verdict P (sRealRelativePath info) a p2) = '''')"
proof (cases "resourcesLocalPath P = ''''")
  case False
  obtain p1 info found p3 ret1 where find: "page_find_first P [''.html'', ''index.html'', ''''] info_reset p = Some (p1, Inr (info, found))"
    and decide: "page_decide P info found p1 = Some (p3, Inr ret1)" and finish: "page_finish P x info ret1 p3 = Some (p', Inr ret)"
    using assms(1) False by (auto simp: procResource_File_def page_bind_Inr simp del: page_find_first.simps)
  show ?thesis
  proof (cases "ret1 = S_200_OK")
    case True
    then have "found \<and> \<not> isDir info \<and> (\<exists>p2 a. page_authorizer p1 = Some (p2, Inr a) \<and>
        eval_accept (page_verdict P (sRealRelativePath info) a p2) \<and> eval_redirectLocation (page_verdict P (sRealRelativePath info) a p2) = '''')"
      using decide by (auto simp: page_decide_def page_bind_Inr page_redirect_def split: if_splits)
    moreover from this have "page_find_first P [''.html'', ''index.html'', []] info_reset p = Some (p1, Inr (info, True))"
      using find by (simp del: page_find_first.simps)
    ultimately show ?thesis by blast
  next
    case other: False
    then have content: "pg_content p3 = pg_content p1" using decide
      by (auto simp: page_decide_def page_bind_Inr split: if_splits dest!: redirect_frame authorizer_frame)
    have "pg_content p' = pg_content p3 \<and> data_streamer (pg_response p') = Own_container"
      using finish other by (auto simp: page_finish_def page_bind_Inr split: if_splits dest!: redirect_frame)
    then show ?thesis using content find_first_frame [OF find] by simp
  qed
qed (use assms in \<open>simp add: procResource_File_def\<close>)

definition deny_all :: sFilter where
  "deny_all = \<lparr>regexs = [''.*''], sf_redirectLocation = '''', reqAttrib = [], rejAttrib = [], sf_action = RFILTER_DENY\<rparr>"

definition denied_page :: page_env where
  "denied_page = (sample_page (sample_web ''/a.html'' (\<lambda>_. '''') (\<lambda>_. '''')))\<lparr>resourceFilter := Some [deny_all],
     resourcesLocalPath := ''/srv/../srv''\<rparr>"

theorem pages_need_acceptance_witness:
  "\<exists>p'. procResource_File denied_page [] (page_handler None sample_methods sample_sessions small_server) = Some (p', Inr S_403_FORBIDDEN) \<and>
    data_streamer (pg_response p') = Own_container \<and> pg_content p' = ''''"
proof -
  let ?p = "page_handler None sample_methods sample_sessions small_server"
  have refused: "\<not> eval_accept (page_verdict denied_page path a q)" for path a q
    by (simp add: page_verdict_def denied_page_def sample_page_def deny_all_def filter_verdict_def sFilterEvaluation_new_def)
  obtain p' where p': "procResource_File denied_page [] ?p = Some (p', Inr S_403_FORBIDDEN)"
    by (simp add: procResource_File_def page_bind_def page_find_def page_decide_def page_finish_def page_authorizer_def
        denied_page_def sample_page_def sample_web_def page_handler_def web_handler_def small_simps Let_def case_prod_beta
        page_verdict_def deny_all_def filter_verdict_def sFilterEvaluation_new_def setDataStreamer_def setContentType_def
        setResponseContentTypeByFileExtension_def)
  have "data_streamer (pg_response ?p) = Own_container" "pg_content ?p = ''''" by (simp_all add: page_handler_def)
  with pages_need_acceptance [OF p' this(1)] refused p' show ?thesis by auto
qed

text \<open>C31: The escaping of a value put into a script does not keep the value inside: a variable of the request that
  contains an end tag followed by a blank ends the script, because only the brackets get a backslash before them.\<close>

theorem escaped_value_ends_script:
  assumes "pe_getExist P v" "pe_writer P (JsonString (rq_get (pe_web P) v)) = a @ ''</script >'' @ b" "name \<noteq> ''''"
  shows "\<exists>u w. procResource_HTMLIEngineJGETVAR P name v p =
    Some (p, Inr (''<script>'' @ [CHR 0x0A] @ ''const '' @ name @ '' = '' @ u @ ''</script '' @ w))"
proof -
  let ?e = "\<lambda>s. concat (map (\<lambda>c. if c = CHR ''>'' then [CHR 0x5C, c] else [c])
      (concat (map (\<lambda>c. if c = CHR ''<'' then [CHR 0x5C, c] else [c]) (filter (\<lambda>c. c \<noteq> CHR 0x0A) s))))"
  have "?e (a @ ''</script >'' @ b) = (?e a @ [CHR 0x5C]) @ ''</script '' @ ([CHR 0x5C, CHR ''>''] @ ?e b)" by simp
  then have "replaceByJVar P (JsonString (rq_get (pe_web P) v)) name =
      ''<script>'' @ [CHR 0x0A] @ ''const '' @ name @ '' = '' @ (?e a @ [CHR 0x5C]) @ ''</script '' @
        (([CHR 0x5C, CHR ''>''] @ ?e b) @ '';'' @ [CHR 0x0A] @ ''</script>'')"
    using assms(2,3) by (simp add: replaceByJVar_def Let_def)
  then show ?thesis using assms(1) unfolding procResource_HTMLIEngineJGETVAR_def by (simp only: if_True page_simps) blast
qed

theorem escaped_value_ends_script_witness:
  "\<exists>u w. procResource_HTMLIEngineJGETVAR ((sample_page (sample_web ''/'' (\<lambda>_. ''</script ><script >x'') (\<lambda>_. '''')))
      \<lparr>pe_getExist := (\<lambda>_. True), pe_writer := (\<lambda>j. case j of JsonString s \<Rightarrow> [CHR 0x22] @ s @ [CHR 0x22] | _ \<Rightarrow> ''null'')\<rparr>) ''name'' ''v''
      (page_handler None sample_methods sample_sessions small_server) =
    Some (page_handler None sample_methods sample_sessions small_server,
      Inr (''<script>'' @ [CHR 0x0A] @ ''const '' @ ''name'' @ '' = '' @ u @ ''</script '' @ w))"
  by (rule escaped_value_ends_script [where a = "[CHR 0x22]" and b = "''<script >x'' @ [CHR 0x22]"])
    (simp_all add: sample_page_def sample_web_def)

end
