(* ===== verification/Web_Includes.thy ===== *)
theory Web_Includes
  imports Web_Requests "HOL-Library.Sublist"
begin

text \<open>
  Pages that include pages: what the loop over the include tags of
  \<^verbatim>\<open>WebClientHandler::procResource_HTMLIEngineInclude\<close> does with a page that includes itself, directly or through
  others. The loop stands in Web_Pages; \<^verbatim>\<open>replace_all\<close> is the specification of the function of Boost it calls.
\<close>

subsection \<open>Replacing\<close>

fun replace_all :: "string \<Rightarrow> string \<Rightarrow> string \<Rightarrow> string" where
  "replace_all m r [] = []"
| "replace_all m r (c # cs) =
     (if m \<noteq> [] \<and> take (length m) (c # cs) = m then r @ replace_all m r (drop (length m - 1) cs)
      else c # replace_all m r cs)"

lemma replace_all_skips: "m \<noteq> [] \<Longrightarrow> hd m \<notin> set xs \<Longrightarrow> replace_all m r (xs @ v) = xs @ replace_all m r v"
  by (induction xs) (auto simp: take_Cons' dest: arg_cong [of _ _ hd])

text \<open>A property of texts that a part hands on to the whole survives a replacement, when a part \<^verbatim>\<open>T\<close> has it that
  has the first letter of what is replaced only at its start, and whatever overlaps with \<^verbatim>\<open>T\<close> is replaced by
  something that has the property.\<close>

lemma replace_all_keeps:
  assumes "m \<noteq> []" "T \<noteq> []" "hd m \<notin> set (tl T)" "Q T" "\<And>xs ys. sublist xs ys \<Longrightarrow> Q xs \<Longrightarrow> Q ys"
    and touch: "\<And>u w v. m = u @ w \<Longrightarrow> w \<noteq> [] \<Longrightarrow> prefix w (T @ v) \<Longrightarrow> Q r"
  shows "Q (replace_all m r (u @ T @ v))"
proof (induction "length u" arbitrary: u rule: less_induct)
  case less
  let ?s = "u @ T @ v"
  have app: "Q (xs @ ys)" if "Q xs \<or> Q ys" for xs ys
    using that assms(5) [of xs "xs @ ys"] assms(5) [of ys "xs @ ys"] by (auto simp: sublist_append)
  show ?case
  proof (cases "take (length m) ?s = m")
    case True
    obtain c cs where s: "?s = c # cs" using assms(2) by (cases ?s) auto
    have step: "replace_all m r ?s = r @ replace_all m r (drop (length m) ?s)"
      using True assms(1) unfolding s by (cases m) auto
    show ?thesis
    proof (cases "length m \<le> length u")
      case True
      then have "drop (length m) ?s = drop (length m) u @ T @ v" by simp
      moreover have "Q (replace_all m r (drop (length m) u @ T @ v))"
        using True assms(1) by (intro less) (cases u; cases m; simp)
      ultimately show ?thesis unfolding step by (simp add: app)
    next
      case False
      then have m: "m = u @ take (length m - length u) (T @ v)" "take (length m - length u) (T @ v) \<noteq> []"
        using True assms(2) by auto
      have "Q r" by (rule touch [OF m take_is_prefix])
      then show ?thesis unfolding step by (simp add: app)
    qed
  next
    case no: False
    show ?thesis
    proof (cases u)
      case Nil
      have "replace_all m r (T @ v) = hd T # replace_all m r (tl T @ v)"
        using no Nil assms(2) by (cases T) auto
      also have "\<dots> = T @ replace_all m r v" using replace_all_skips [OF assms(1,3)] assms(2) by simp
      finally show ?thesis using Nil assms(4) by (simp add: app)
    next
      case (Cons c u')
      have "Q (replace_all m r (u' @ T @ v))" using Cons by (intro less) simp
      then show ?thesis using no Cons app [of "[c]"] by simp
    qed
  qed
qed

subsection \<open>Include tags\<close>

definition include_tag :: "string \<Rightarrow> string \<Rightarrow> string" where
  "include_tag tag path = ''<%include'' @ tag @ '':'' @ path @ ''%>''"

definition plain_include :: "string \<Rightarrow> string \<Rightarrow> bool" where
  "plain_include tag path \<longleftrightarrow> CHR '':'' \<notin> set tag \<and> CHR ''<'' \<notin> set tag \<and>
     path \<noteq> '''' \<and> hd path \<noteq> CHR '' '' \<and> CHR ''%'' \<notin> set path \<and> CHR ''<'' \<notin> set path"

definition path_of :: "string \<Rightarrow> string" where
  "path_of z = (let val = dropWhile (\<lambda>c. c = CHR '' '') z in if val = [] then take 1 z else val)"

text \<open>A match of the pattern, cut at its first colon.\<close>

lemma to_lower_colon: "CHR '':'' \<in> set xs \<Longrightarrow> CHR '':'' \<in> set (to_lower_copy xs)"
  by (auto simp: to_lower_copy_def Let_def intro!: image_eqI [of _ _ "CHR '':''"])

lemma match_include_shape:
  assumes "match_include s = Some (n, tag, path)"
  obtains y z where "take n s = y @ CHR '':'' # z @ ''%>''" "y \<noteq> []" "hd y = CHR ''<''"
    "CHR '':'' \<notin> set y" "CHR ''%'' \<notin> set z" "path = path_of z"
proof -
  define x where "x = (if take 1 (drop 1 s) = ''%'' then ''<%'' else ''<'')"
  define s1 where "s1 = (if take 1 (drop 1 s) = ''%'' then drop 2 s else drop 1 s)"
  define s2 where "s2 = drop 7 s1"
  define s3 where "s3 = dropWhile (\<lambda>c. c \<noteq> CHR '':'') s2"
  define blanks where "blanks = takeWhile (\<lambda>c. c = CHR '' '') (tl s3)"
  define s4 where "s4 = dropWhile (\<lambda>c. c = CHR '' '') (tl s3)"
  define val where "val = takeWhile (\<lambda>c. c \<noteq> CHR ''%'') s4"
  define s5 where "s5 = dropWhile (\<lambda>c. c \<noteq> CHR ''%'') s4"
  have m: "take 1 s = ''<''" "to_lower_copy (take 7 s1) = ''include''" "s3 \<noteq> []" "tag = takeWhile (\<lambda>c. c \<noteq> CHR '':'') s2"
      "path = (if val = [] then take 1 blanks else val)" "take 2 s5 = ''%>''" "n = length s - length (drop 2 s5)"
    using assms unfolding match_include_def Let_def s1_def [symmetric] s2_def [symmetric] dropWhile_eq_drop [symmetric]
      s3_def [symmetric] blanks_def [symmetric] s4_def [symmetric] val_def [symmetric] s5_def [symmetric]
    by (auto split: if_splits)
  have s: "s = x @ s1" using m(1) unfolding x_def s1_def by (cases s; cases "tl s") auto
  have s1: "s1 = take 7 s1 @ s2" by (simp add: s2_def)
  have s2: "s2 = tag @ CHR '':'' # tl s3"
    using m(3,4) hd_dropWhile [of "\<lambda>c. c \<noteq> CHR '':''" s2] takeWhile_dropWhile_id [of "\<lambda>c. c \<noteq> CHR '':''" s2]
    unfolding s3_def by (cases "dropWhile (\<lambda>c. c \<noteq> CHR '':'') s2") auto
  have s3: "tl s3 = blanks @ val @ s5" by (simp add: blanks_def s4_def val_def s5_def)
  have s5: "s5 = ''%>'' @ drop 2 s5" using m(6) by (metis append_take_drop_id)
  let ?y = "x @ take 7 s1 @ tag" and ?z = "blanks @ val"
  have cut: "take (length zs - length bs) zs = as" if "zs = as @ bs" for zs as bs :: string using that by simp
  have whole: "s = (?y @ CHR '':'' # ?z @ ''%>'') @ drop 2 s5" using s s1 s2 s3 s5 by (metis append.assoc append_Cons)
  have t: "take n s = ?y @ CHR '':'' # ?z @ ''%>''" 
    unfolding m(7) using cut [OF whole] .
  have y: "CHR '':'' \<notin> set ?y" using to_lower_colon [of "take 7 s1"] m(2,4) by (auto simp: x_def dest: set_takeWhileD)
  have z: "CHR ''%'' \<notin> set ?z" by (auto simp: blanks_def val_def dest: set_takeWhileD)
  have "dropWhile (\<lambda>c. c = CHR '' '') ?z = val"
  proof -
    have "hd val = hd s4 \<and> s4 \<noteq> []" if "val \<noteq> []" using that by (cases s4) (auto simp: val_def split: if_splits)
    then have "dropWhile (\<lambda>c. c = CHR '' '') val = val"
      using hd_dropWhile [of "\<lambda>c. c = CHR '' ''" "tl s3"] unfolding dropWhile_eq_self_iff s4_def by metis
    moreover have "dropWhile (\<lambda>c. c = CHR '' '') blanks = []" by (auto simp: blanks_def dest: set_takeWhileD)
    ultimately show ?thesis by (simp add: dropWhile_append)
  qed
  then have "path = path_of ?z" using m(5) by (simp add: path_of_def)
  then show thesis using that [OF t _ _ y z] by (simp add: x_def)
qed

text \<open>The pattern matches at an include tag.\<close>

lemma match_include_tag:
  assumes "plain_include tag path"
  shows "match_include (include_tag tag path @ v) \<noteq> None"
proof -
  have t: "takeWhile (\<lambda>c. c \<noteq> CHR '':'') (tag @ CHR '':'' # path @ ''%>'' @ v) = tag"
    using assms by (subst takeWhile_append2) (auto simp: plain_include_def)
  have b: "takeWhile (\<lambda>c. c = CHR '' '') (path @ ''%>'' @ v) = ''''" using assms by (cases path) (auto simp: plain_include_def)
  have p: "takeWhile (\<lambda>c. c \<noteq> CHR ''%'') (path @ ''%>'' @ v) = path"
    using assms by (subst takeWhile_append2) (auto simp: plain_include_def)
  show ?thesis using assms t b p
    by (simp add: match_include_def include_tag_def to_lower_copy_def plain_include_def Let_def)
qed

lemma regex_search_finds: "f (drop (length u) (u @ s)) \<noteq> None \<Longrightarrow> regex_search f (u @ s) \<noteq> None"
  by (induction u) (auto simp: regex_search.simps split: option.splits)

subsection \<open>Pages that include each other\<close>

text \<open>Whatever match overlaps with an include tag in the page includes the same file.\<close>

lemma first_colon: "y @ CHR '':'' # z = y' @ CHR '':'' # z' \<Longrightarrow> CHR '':'' \<notin> set y \<Longrightarrow> CHR '':'' \<notin> set y' \<Longrightarrow> y = y' \<and> z = z'"
  by (induction y arbitrary: y') (case_tac y'; auto)+

lemma first_percent:
  "z @ ''%>'' @ v = z' @ ''%>'' @ v' \<Longrightarrow> CHR ''%'' \<notin> set z \<Longrightarrow> CHR ''%'' \<notin> set z' \<Longrightarrow> z = z' \<and> v = v'"
  by (induction z arbitrary: z') (case_tac z'; auto)+

lemma overlap_same_path:
  assumes p: "plain_include tag path"
    and m: "u @ w = y @ CHR '':'' # z @ ''%>''" "CHR '':'' \<notin> set y" "CHR ''%'' \<notin> set z"
    and w: "w \<noteq> []" "prefix w (include_tag tag path @ v)"
  shows "path_of z = path"
proof (cases "CHR '':'' \<in> set u")
  case True
  then obtain u1 u2 where u: "u = u1 @ CHR '':'' # u2" "CHR '':'' \<notin> set u1" by (metis split_list_first)
  have zw: "z @ ''%>'' = u2 @ w" using first_colon [of y "z @ ''%>''" u1 "u2 @ w"] m u by simp
  obtain w1 where inc: "include_tag tag path @ v = w @ w1" using w(2) by (auto simp: prefix_def)
  have "last w = CHR ''>''" using zw w(1) by (metis last_append last_ConsR last_ConsL list.distinct(1))
  then obtain w2 where w2: "w = ''<%'' @ w2"
    using inc w(1) by (cases w; cases "tl w") (auto simp: include_tag_def)
  have "w2 \<noteq> []" using \<open>last w = CHR ''>''\<close> w2 by auto
  then have "hd w2 = CHR ''i''" using inc w2 by (cases w2) (auto simp: include_tag_def)
  moreover have "z @ CHR ''%'' # ''>'' = (u2 @ ''<'') @ CHR ''%'' # w2" using zw w2 by simp
  then have "w2 = ''>''" using m(3) by (auto simp: append_eq_append_conv2 append_eq_Cons_conv Cons_eq_append_conv)
  ultimately show ?thesis by simp
next
  case False
  obtain us where "u @ us = y \<and> w = us @ CHR '':'' # z @ ''%>'' \<or> u = y @ us \<and> us @ w = CHR '':'' # z @ ''%>''"
    using m(1) by (auto simp: append_eq_append_conv2)
  moreover have "us = []" if "u = y @ us" "us @ w = CHR '':'' # z @ ''%>''" using that False by (cases us) auto
  ultimately obtain w1 where y: "y = u @ w1" "w = w1 @ CHR '':'' # z @ ''%>''" by fastforce
  obtain v' where "include_tag tag path @ v = w @ v'" using w(2) by (auto simp: prefix_def)
  then have "(''<%include'' @ tag) @ CHR '':'' # path @ ''%>'' @ v = w1 @ CHR '':'' # z @ ''%>'' @ v'"
    using y(2) by (simp add: include_tag_def)
  then have "path @ ''%>'' @ v = z @ ''%>'' @ v'"
    using first_colon [of "''<%include'' @ tag" _ w1] p m(2) y(1) by (simp add: plain_include_def)
  then have "z = path" using first_percent [of path v z v'] p m(3) by (simp add: plain_include_def)
  then show ?thesis using p by (cases path) (auto simp: path_of_def plain_include_def Let_def)
qed

lemma include_diverges:
  assumes "\<And>c. c \<in> B \<Longrightarrow> \<exists>i n tag path. regex_search match_include c = Some (i, n, tag, path) \<and>
      pe_replace P c (take n (drop i c)) (included_text P h tag path) \<in> B" "c \<in> B"
  shows "procResource_HTMLIEngineInclude P h c = None"
proof (cases "procResource_HTMLIEngineInclude P h c")
  case (Some y)
  have "(\<lambda>((P', h'), c') _. P' = P \<and> h' = h \<longrightarrow> c' \<notin> B) ((P, h), c) y"
  proof (rule procResource_HTMLIEngineInclude.raw_induct [OF _ Some], goal_cases)
    case (1 f P' h' c' y')
    then show ?case using assms(1) [of c'] by (fastforce split: option.splits prod.splits)
  qed
  then show ?thesis using assms(2) by simp
qed simp

definition includes_one_of :: "string set \<Rightarrow> string \<Rightarrow> bool" where
  "includes_one_of C t \<longleftrightarrow> (\<exists>tag path. path \<in> C \<and> plain_include tag path \<and> sublist (include_tag tag path) t)"

lemma includes_one_of_mono: "sublist s t \<Longrightarrow> includes_one_of C s \<Longrightarrow> includes_one_of C t"
  by (auto simp: includes_one_of_def intro: sublist_order.order_trans)

lemma wrap_tag_includes: "includes_one_of C t \<Longrightarrow> includes_one_of C (wrap_tag tag t)"
proof (rule includes_one_of_mono)
  show "sublist t (wrap_tag tag t)"
    using sublist_appendI [of t "''<'' @ tl tag @ ''>''" "''</'' @ tl tag @ ''>''"] by (simp add: wrap_tag_def)
qed

lemma include_turn:
  assumes pages: "\<forall>path\<in>C. \<exists>t. pe_file P (resourcesLocalPath P @ path) = Some t \<and> includes_one_of C t"
    and "pe_replace P = (\<lambda>s m r. replace_all m r s)" "includes_one_of C c"
  shows "\<exists>i n tag path. regex_search match_include c = Some (i, n, tag, path) \<and>
    includes_one_of C (pe_replace P c (take n (drop i c)) (included_text P h tag path))"
proof -
  obtain tg q u v where q: "q \<in> C" "plain_include tg q" and c: "c = u @ include_tag tg q @ v"
    using assms(3) by (auto simp: includes_one_of_def sublist_def)
  let ?T = "include_tag tg q"
  obtain i n tag path where f: "regex_search match_include c = Some (i, n, tag, path)"
    using regex_search_finds [of match_include u "?T @ v"] match_include_tag [OF q(2), of v] c by auto
  let ?m = "take n (drop i c)" and ?r = "included_text P h tag path"
  obtain y z where m: "?m = y @ CHR '':'' # z @ ''%>''" "y \<noteq> []" "hd y = CHR ''<''" "CHR '':'' \<notin> set y"
      "CHR ''%'' \<notin> set z" "path = path_of z"
    using match_include_shape [OF regex_search_matches [OF f]] by blast
  have "includes_one_of C (replace_all ?m ?r (u @ ?T @ v))"
  proof (rule replace_all_keeps)
    show "?m \<noteq> []" "?T \<noteq> []" using m(1,2) by (simp_all add: include_tag_def)
    show "hd ?m \<notin> set (tl ?T)" using m(1-3) q(2) by (auto simp: include_tag_def plain_include_def)
    show "includes_one_of C ?T" using q by (auto simp: includes_one_of_def)
  next
    fix u' w v'
    assume "?m = u' @ w" "w \<noteq> []" "prefix w (?T @ v')"
    then have "path = q" using overlap_same_path [OF q(2) _ m(4,5)] m(1,6) by metis
    moreover obtain t where "pe_file P (resourcesLocalPath P @ q) = Some t" "includes_one_of C t" using pages q(1) by blast
    ultimately show "includes_one_of C ?r" by (simp add: included_text_def wrap_tag_includes)
  qed (rule includes_one_of_mono)
  with f c assms(2) show ?thesis by auto
qed

subsection \<open>Properties\<close>

text \<open>C30: A page that includes itself, directly or through other pages, is never answered. When each of a set of
  files contains, anywhere in its text, an include tag for a file of the set, the loop over the tags does not end on
  any of them, whatever else the files contain and the rest of the server holds. The tags are written
  \<^verbatim>\<open><%include...:path%>\<close> with neither \<^verbatim>\<open><\<close> nor a leading blank in the path; of Boost's \<^verbatim>\<open>replace_all\<close> it
  uses that it replaces every occurrence, from left to right.\<close>

theorem self_inclusion_never_answers:
  assumes "\<forall>path\<in>C. \<exists>t. pe_file P (resourcesLocalPath P @ path) = Some t \<and> includes_one_of C t"
    "pe_replace P = (\<lambda>s m r. replace_all m r s)" "path \<in> C" "take 4 (resourcesLocalPath P @ path) \<noteq> ''MEM:''"
  shows "procResource_HTMLIEngine P x (resourcesLocalPath P @ path) p = None"
proof -
  obtain t where t: "pe_file P (resourcesLocalPath P @ path) = Some t" "includes_one_of C t" using assms(1,3) by blast
  have "procResource_HTMLIEngineInclude P h t = None" for h
    using include_turn [OF assms(1,2)] t(2) by (intro include_diverges [of "Collect (includes_one_of C)"]) auto
  then show ?thesis using t(1) assms(4) by (simp add: procResource_HTMLIEngine_def engine_page_def Let_def)
qed

definition circular_pages :: page_env where
  "circular_pages = (sample_page (sample_web ''/'' (\<lambda>_. '''') (\<lambda>_. '''')))\<lparr>resourcesLocalPath := ''/srv'',
     pe_file := (\<lambda>f. if f = ''/srv/a.html'' then Some ''<p><include:/c.html%><%include/div:/b.html%></p>''
       else if f = ''/srv/b.html'' then Some ''<%include:/a.html%>'' else None),
     pe_replace := (\<lambda>s m r. replace_all m r s)\<rparr>"

lemma circular_includes:
  "includes_one_of {''/a.html'', ''/b.html''} ''<p><include:/c.html%><%include/div:/b.html%></p>''"
  "includes_one_of {''/a.html'', ''/b.html''} ''<%include:/a.html%>''"
proof -
  have "sublist (include_tag ''/div'' ''/b.html'') (''<p><include:/c.html%>'' @ include_tag ''/div'' ''/b.html'' @ ''</p>'')"
    by (rule sublist_appendI)
  then show "includes_one_of {''/a.html'', ''/b.html''} ''<p><include:/c.html%><%include/div:/b.html%></p>''"
    unfolding includes_one_of_def by (intro exI [of _ "''/div''"] exI [of _ "''/b.html''"]) (simp add: plain_include_def include_tag_def)
  show "includes_one_of {''/a.html'', ''/b.html''} ''<%include:/a.html%>''"
    unfolding includes_one_of_def by (intro exI [of _ "''''"] exI [of _ "''/a.html''"]) (simp add: plain_include_def include_tag_def)
qed

theorem self_inclusion_never_answers_witness:
  "procResource_HTMLIEngine circular_pages [] ''/srv/a.html''
     (page_handler None sample_methods sample_sessions small_server) = None"
  using self_inclusion_never_answers [of "{''/a.html'', ''/b.html''}" circular_pages "''/a.html''"] circular_includes
  by (simp add: circular_pages_def)

end
