(* ===== verification/Safe_Queue.thy ===== *)
theory Safe_Queue
  imports Interleaving
begin

text \<open>
  \<^verbatim>\<open>Threads/mdz_thr_safecontainers/queue.h\<close>: a bounded queue between threads. \<^verbatim>\<open>push\<close> and \<^verbatim>\<open>pop\<close> are
  functions up to their waits; a thread that was woken tests again. Both release the mutex before they notify,
  so the notification is a step of its own. The destructor deletes what is left and is not part of the machine.
\<close>

subsection \<open>Operations\<close>

record 'a queue =
  q_items :: "'a list"
  q_maxItems :: nat

definition Queue_new :: "'a queue" where
  "Queue_new = \<lparr>q_items = [], q_maxItems = 0xFFFFFFFF\<rparr>"

definition setMaxItems :: "'a queue \<Rightarrow> nat \<Rightarrow> 'a queue" where
  "setMaxItems q maxItems = q\<lparr>q_maxItems := maxItems\<rparr>"

definition getMaxItems :: "'a queue \<Rightarrow> nat" where
  "getMaxItems q = q_maxItems q"

definition queue_size :: "'a queue \<Rightarrow> nat" where
  "queue_size q = length (q_items q)"

datatype 'r attempt = Refused | Waits | Done 'r

definition push_attempt :: "'a queue \<Rightarrow> 'a \<Rightarrow> nat \<Rightarrow> 'a queue attempt" where
  "push_attempt q item tmout_msecs =
     (if length (q_items q) \<ge> q_maxItems q then if tmout_msecs = 0 then Refused else Waits
      else Done (q\<lparr>q_items := q_items q @ [item]\<rparr>))"

definition pop_attempt :: "'a queue \<Rightarrow> nat \<Rightarrow> ('a \<times> 'a queue) attempt" where
  "pop_attempt q tmout_msecs =
     (case q_items q of
        [] \<Rightarrow> if tmout_msecs = 0 then Refused else Waits
      | r # rest \<Rightarrow> Done (r, q\<lparr>q_items := rest\<rparr>))"

subsection \<open>Threads\<close>

text \<open>A thread is outside the queue, waits in \<^verbatim>\<open>push\<close> or \<^verbatim>\<open>pop\<close> (the flag tells whether it was woken), or is
  about to notify one of the condition variables.\<close>

datatype 'a queue_doing = Outside | Pushing 'a nat bool | Popping nat bool | Notify_not_empty | Notify_not_full

primrec notFull_sleeper :: "'a queue_doing \<Rightarrow> bool" where
  "notFull_sleeper Outside = False"
| "notFull_sleeper (Pushing item tm woken) = (\<not> woken)"
| "notFull_sleeper (Popping tm woken) = False"
| "notFull_sleeper Notify_not_empty = False"
| "notFull_sleeper Notify_not_full = False"

primrec notEmpty_sleeper :: "'a queue_doing \<Rightarrow> bool" where
  "notEmpty_sleeper Outside = False"
| "notEmpty_sleeper (Pushing item tm woken) = False"
| "notEmpty_sleeper (Popping tm woken) = (\<not> woken)"
| "notEmpty_sleeper Notify_not_empty = False"
| "notEmpty_sleeper Notify_not_full = False"

primrec queue_wake :: "'a queue_doing \<Rightarrow> 'a queue_doing" where
  "queue_wake Outside = Outside"
| "queue_wake (Pushing item tm woken) = Pushing item tm True"
| "queue_wake (Popping tm woken) = Popping tm True"
| "queue_wake Notify_not_empty = Notify_not_empty"
| "queue_wake Notify_not_full = Notify_not_full"

text \<open>The state: the queue, the threads, and, for the statements only, what was inserted and removed so far,
  the largest limit set, and how many consumers have given up a notified wait on the items that are in the
  queue (counted anew each time the queue gets empty).\<close>

record 'a queue_state =
  qs_queue :: "'a queue"
  qs_doing :: "nat \<Rightarrow> 'a queue_doing"
  qs_pushed :: "'a list"
  qs_popped :: "'a list"
  qs_limit :: nat
  qs_late :: nat

definition queue_start :: "'a queue_state \<Rightarrow> bool" where
  "queue_start s \<longleftrightarrow> (\<exists>n. s = \<lparr>qs_queue = setMaxItems Queue_new n, qs_doing = (\<lambda>_. Outside), qs_pushed = [], qs_popped = [], qs_limit = n, qs_late = 0\<rparr>)"

text \<open>What a running thread does with the result of its test.\<close>

definition push_run :: "nat \<Rightarrow> 'a \<Rightarrow> nat \<Rightarrow> 'a queue_state \<Rightarrow> 'a queue_state" where
  "push_run t item tm s =
     (case push_attempt (qs_queue s) item tm of
        Refused \<Rightarrow> s\<lparr>qs_doing := (qs_doing s)(t := Outside)\<rparr>
      | Waits \<Rightarrow> s\<lparr>qs_doing := (qs_doing s)(t := Pushing item tm False)\<rparr>
      | Done q \<Rightarrow> s\<lparr>qs_queue := q, qs_pushed := qs_pushed s @ [item], qs_doing := (qs_doing s)(t := Notify_not_empty)\<rparr>)"

definition pop_run :: "nat \<Rightarrow> nat \<Rightarrow> 'a queue_state \<Rightarrow> 'a queue_state" where
  "pop_run t tm s =
     (case pop_attempt (qs_queue s) tm of
        Refused \<Rightarrow> s\<lparr>qs_doing := (qs_doing s)(t := Outside)\<rparr>
      | Waits \<Rightarrow> s\<lparr>qs_doing := (qs_doing s)(t := Popping tm False)\<rparr>
      | Done (r, q) \<Rightarrow> s\<lparr>qs_queue := q, qs_popped := qs_popped s @ [r], qs_doing := (qs_doing s)(t := Notify_not_full),
          qs_late := (if q_items q = [] then 0 else qs_late s)\<rparr>)"

text \<open>A wait that was notified can still report a time-out when the thread gets the mutex too late: the
  operation then gives up without another test.\<close>

definition pop_gives_up :: "nat \<Rightarrow> 'a queue_state \<Rightarrow> 'a queue_state" where
  "pop_gives_up t s = s\<lparr>qs_doing := (qs_doing s)(t := Outside),
     qs_late := (if q_items (qs_queue s) = [] then 0 else Suc (qs_late s))\<rparr>"

inductive queue_step :: "'a queue_state \<Rightarrow> 'a queue_state \<Rightarrow> bool" for s where
  push: "qs_doing s t = Outside \<Longrightarrow> queue_step s (push_run t item tm s)"
| push_woken: "qs_doing s t = Pushing item tm True \<Longrightarrow> queue_step s (push_run t item tm s)"
| push_timeout: "qs_doing s t = Pushing item tm False \<Longrightarrow> queue_step s (s\<lparr>qs_doing := (qs_doing s)(t := Outside)\<rparr>)"
| push_late: "qs_doing s t = Pushing item tm True \<Longrightarrow> queue_step s (s\<lparr>qs_doing := (qs_doing s)(t := Outside)\<rparr>)"
| pop: "qs_doing s t = Outside \<Longrightarrow> queue_step s (pop_run t tm s)"
| pop_woken: "qs_doing s t = Popping tm True \<Longrightarrow> queue_step s (pop_run t tm s)"
| pop_timeout: "qs_doing s t = Popping tm False \<Longrightarrow> queue_step s (s\<lparr>qs_doing := (qs_doing s)(t := Outside)\<rparr>)"
| pop_late: "qs_doing s t = Popping tm True \<Longrightarrow> queue_step s (pop_gives_up t s)"
| not_empty: "qs_doing s t = Notify_not_empty \<Longrightarrow>
    notify_one notEmpty_sleeper queue_wake ((qs_doing s)(t := Outside)) f \<Longrightarrow> queue_step s (s\<lparr>qs_doing := f\<rparr>)"
| not_full: "qs_doing s t = Notify_not_full \<Longrightarrow>
    notify_one notFull_sleeper queue_wake ((qs_doing s)(t := Outside)) f \<Longrightarrow> queue_step s (s\<lparr>qs_doing := f\<rparr>)"
| set_limit: "queue_step s (s\<lparr>qs_queue := setMaxItems (qs_queue s) n, qs_limit := max n (qs_limit s)\<rparr>)"
| spurious: "queue_step s (s\<lparr>qs_doing := (qs_doing s)(t := queue_wake (qs_doing s t))\<rparr>)"

subsection \<open>Order and bound\<close>

definition fifo :: "'a queue_state \<Rightarrow> bool" where
  "fifo s \<longleftrightarrow> qs_pushed s = qs_popped s @ q_items (qs_queue s) \<and>
     length (q_items (qs_queue s)) \<le> qs_limit s \<and> q_maxItems (qs_queue s) \<le> qs_limit s"

lemma fifo_doing [simp]: "fifo (s\<lparr>qs_doing := f\<rparr>) = fifo s"
  by (simp add: fifo_def)

lemma fifo_push: "fifo s \<Longrightarrow> fifo (push_run t item tm s)"
  by (auto simp: push_run_def push_attempt_def fifo_def)

lemma fifo_pop: "fifo s \<Longrightarrow> fifo (pop_run t tm s)"
  by (auto simp: pop_run_def pop_attempt_def fifo_def split: list.splits)

lemma fifo_step: "fifo s \<Longrightarrow> queue_step s s' \<Longrightarrow> fifo s'"
  by (auto simp: fifo_push fifo_pop pop_gives_up_def elim!: queue_step.cases)
    (auto simp: fifo_def setMaxItems_def)

interpretation queue_fifo: machine_invariant queue_start queue_step fifo
proof
  show "fifo s" if "queue_start s" for s :: "'a queue_state"
    using that by (auto simp: queue_start_def fifo_def setMaxItems_def Queue_new_def)
qed (rule fifo_step)

subsection \<open>No lost wake-up\<close>

text \<open>The helpers of a consumer that sleeps: the consumers that were woken and the producers about to notify.\<close>

primrec consumer_helper :: "'a queue_doing \<Rightarrow> bool" where
  "consumer_helper Outside = False"
| "consumer_helper (Pushing item tm woken) = False"
| "consumer_helper (Popping tm woken) = woken"
| "consumer_helper Notify_not_empty = True"
| "consumer_helper Notify_not_full = False"

interpretation consumers: wake_ups notEmpty_sleeper consumer_helper queue_wake
proof
  show "\<not> consumer_helper d" if "notEmpty_sleeper d" for d :: "'a queue_doing" using that by (cases d) auto
  show "consumer_helper (queue_wake d)" if "notEmpty_sleeper d" for d :: "'a queue_doing" using that by (cases d) auto
qed

definition items_covered :: "'a queue_state \<Rightarrow> bool" where
  "items_covered s \<longleftrightarrow> consumers.covered (qs_doing s) (length (q_items (qs_queue s)) - qs_late s)"

lemma covered_push:
  assumes "items_covered s" "\<not> consumer_helper (qs_doing s t)"
  shows "items_covered (push_run t item tm s)"
proof (cases "push_attempt (qs_queue s) item tm")
  case (Done q)
  have "consumers.covered ((qs_doing s)(t := Notify_not_empty)) (Suc (length (q_items (qs_queue s)) - qs_late s))"
    using assms by (intro consumers.covered_new) (simp_all add: items_covered_def)
  then have "consumers.covered ((qs_doing s)(t := Notify_not_empty)) (Suc (length (q_items (qs_queue s))) - qs_late s)"
    by (rule consumers.covered_mono) simp
  moreover have "length (q_items q) = Suc (length (q_items (qs_queue s)))"
    using Done by (auto simp: push_attempt_def split: if_splits)
  ultimately show ?thesis using Done by (simp add: push_run_def items_covered_def)
qed (use assms in \<open>auto simp: push_run_def items_covered_def intro: consumers.covered_same\<close>)

lemma covered_take:
  assumes "consumers.covered f (Suc n - k)" "\<not> notEmpty_sleeper d"
  shows "consumers.covered (f(t := d)) (n - k)"
proof (cases "n < k")
  case True
  then show ?thesis using consumers.covered_0 [OF assms(1)] by simp
next
  case False
  then have "Suc n - k = Suc (n - k)" by simp
  then show ?thesis using consumers.covered_less [OF _ assms(2)] assms(1) by simp
qed

lemma covered_pop:
  assumes "items_covered s"
  shows "items_covered (pop_run t tm s)"
proof (cases "q_items (qs_queue s)")
  case Nil
  then show ?thesis using assms consumers.covered_0 by (auto simp: pop_run_def pop_attempt_def items_covered_def)
next
  case (Cons x xs)
  then have "consumers.covered ((qs_doing s)(t := Notify_not_full)) (length xs - qs_late s)"
    using assms by (intro covered_take) (simp_all add: items_covered_def)
  then show ?thesis using Cons
    by (auto simp: pop_run_def pop_attempt_def items_covered_def intro: consumers.covered_mono)
qed

lemma covered_gives_up:
  assumes "items_covered s"
  shows "items_covered (pop_gives_up t s)"
proof (cases "q_items (qs_queue s)")
  case Nil
  then show ?thesis using assms consumers.covered_0 by (auto simp: pop_gives_up_def items_covered_def)
next
  case (Cons x xs)
  then have "consumers.covered ((qs_doing s)(t := Outside)) (length xs - qs_late s)"
    using assms by (intro covered_take) (simp_all add: items_covered_def)
  then show ?thesis using Cons by (simp add: pop_gives_up_def items_covered_def)
qed

lemma other_notification:
  assumes "notify_one notFull_sleeper queue_wake f f'"
  shows "notEmpty_sleeper (f' u) = notEmpty_sleeper (f u)" "consumer_helper (f' u) = consumer_helper (f u)"
proof -
  have w: "notEmpty_sleeper (queue_wake d) = notEmpty_sleeper d" "consumer_helper (queue_wake d) = consumer_helper d"
    if "notFull_sleeper d" for d :: "'a queue_doing" using that by (cases d; simp)+
  show "notEmpty_sleeper (f' u) = notEmpty_sleeper (f u)" using assms by (cases rule: notify_one_cases) (auto simp: w)
  show "consumer_helper (f' u) = consumer_helper (f u)" using assms by (cases rule: notify_one_cases) (auto simp: w)
qed

lemma covered_step:
  assumes "items_covered s" "queue_step s s'"
  shows "items_covered s'"
  using assms(2)
proof (cases rule: queue_step.cases)
  case (not_empty t f)
  then show ?thesis
    using assms(1) consumers.covered_notify [of "qs_doing s" _ t Outside f] by (simp add: items_covered_def)
next
  case (not_full t f)
  have "consumers.covered ((qs_doing s)(t := Outside)) (length (q_items (qs_queue s)) - qs_late s)"
    using assms(1) not_full(2) by (intro consumers.covered_same) (simp_all add: items_covered_def)
  then have "consumers.covered f (length (q_items (qs_queue s)) - qs_late s)"
    by (rule consumers.covered_frame) (use other_notification [OF not_full(3)] in auto)
  then show ?thesis using not_full(1) by (simp add: items_covered_def)
next
  case (spurious t)
  then show ?thesis using assms(1)
    by (cases "qs_doing s t") (auto simp: items_covered_def setMaxItems_def intro!: consumers.covered_same)
next
  case (push t item tm)
  then show ?thesis using covered_push [OF assms(1), of t] by simp
next
  case (push_woken t item tm)
  then show ?thesis using covered_push [OF assms(1), of t] by simp
qed (use assms(1) in \<open>auto simp: items_covered_def setMaxItems_def intro: consumers.covered_same covered_pop [unfolded items_covered_def] covered_gives_up [unfolded items_covered_def]\<close>)

interpretation queue_wake_ups: machine_invariant queue_start queue_step items_covered
proof
  show "items_covered s" if "queue_start s" for s :: "'a queue_state"
    using that by (auto simp: queue_start_def items_covered_def consumers.covered_def consumers.settled_def)
qed (rule covered_step)

subsection \<open>Properties\<close>

text \<open>C15: The queue neither loses nor repeats an item and keeps their order: what was pushed, in the order of the
  insertions, is what was popped followed by what is in the queue. It holds for any number of producers
  and consumers, with time-outs at any time, and the queue never holds more than the largest limit set.\<close>

theorem queue_is_fifo:
  assumes "reach queue_start queue_step s"
  shows "qs_pushed s = qs_popped s @ q_items (qs_queue s) \<and> length (q_items (qs_queue s)) \<le> qs_limit s"
  using queue_fifo.reachable [OF assms] by (simp add: fifo_def)

definition waiting_consumer :: "nat queue_state" where
  "waiting_consumer = \<lparr>qs_queue = \<lparr>q_items = [42], q_maxItems = 1\<rparr>,
     qs_doing = (\<lambda>_. Outside)(1 := Popping 9 False, 2 := Notify_not_empty), qs_pushed = [42], qs_popped = [], qs_limit = 1, qs_late = 0\<rparr>"

lemma waiting_consumer_reached: "reach queue_start queue_step waiting_consumer"
proof -
  define s0 :: "nat queue_state" where "s0 = \<lparr>qs_queue = \<lparr>q_items = [], q_maxItems = 1\<rparr>, qs_doing = (\<lambda>_. Outside),
     qs_pushed = [], qs_popped = [], qs_limit = 1, qs_late = 0\<rparr>"
  have "reach queue_start queue_step s0"
    by (rule reach_init) (simp add: s0_def queue_start_def setMaxItems_def Queue_new_def)
  moreover have "queue_step s0 (pop_run 1 9 s0)" by (rule queue_step.pop) (simp add: s0_def)
  moreover have "queue_step (pop_run 1 9 s0) (push_run 2 42 0 (pop_run 1 9 s0))"
    by (rule queue_step.push) (simp add: s0_def pop_run_def pop_attempt_def)
  moreover have "push_run 2 42 0 (pop_run 1 9 s0) = waiting_consumer"
    by (simp add: s0_def pop_run_def pop_attempt_def push_run_def push_attempt_def waiting_consumer_def)
  ultimately show ?thesis by (metis reach_step)
qed

theorem queue_is_fifo_witness:
  "qs_pushed waiting_consumer = qs_popped waiting_consumer @ q_items (qs_queue waiting_consumer) \<and>
   length (q_items (qs_queue waiting_consumer)) \<le> 1"
  using queue_is_fifo [OF waiting_consumer_reached] by (simp add: waiting_consumer_def)

text \<open>C16: No wake-up of a consumer is lost: while a consumer sleeps, every item in the queue has a consumer that
  was woken for it or a producer that is about to notify, except for the items whose consumer was notified and
  still reported a time-out. So, as long as no notified wait times out, the queue does not stay full of items next
  to consumers that sleep; and a notified wait that times out leaves at most one item behind, until the queue
  gets empty again.\<close>

theorem consumers_are_woken:
  assumes "reach queue_start queue_step s" "qs_doing s t = Popping tm False"
  shows "length (q_items (qs_queue s)) \<le>
    card {u. qs_doing s u = Notify_not_empty \<or> (\<exists>tm. qs_doing s u = Popping tm True)} + qs_late s"
proof -
  have "consumer_helper d \<longleftrightarrow> d = Notify_not_empty \<or> (\<exists>tm. d = Popping tm True)" for d :: "'a queue_doing"
    by (cases d) auto
  then show ?thesis
    using queue_wake_ups.reachable [OF assms(1)] assms(2)
      consumers.covered_D [of "qs_doing s" "length (q_items (qs_queue s)) - qs_late s" t]
    by (simp add: items_covered_def)
qed

theorem consumers_are_woken_witness:
  "1 \<le> card {u. qs_doing waiting_consumer u = Notify_not_empty \<or> (\<exists>tm. qs_doing waiting_consumer u = Popping tm True)}"
  using consumers_are_woken [OF waiting_consumer_reached, of 1 9] by (simp add: waiting_consumer_def)

end
