(* ===== verification/Thread_Pool.thy ===== *)
theory Thread_Pool
  imports Interleaving "HOL-Library.Multiset"
begin

text \<open>
  \<^verbatim>\<open>Threads/mdz_thr_threads/threadpool.cpp\<close>: worker threads that take tasks out of several bounded queues.
  The shuffled vectors of queue numbers are arguments, because they depend on the random generators, and
  so is the product of the number of queues and the priority, which is computed in floating point. A function or
  data pointer is a number, the null pointer is None.
\<close>

subsection \<open>Operations\<close>

record Task =
  task_function :: "nat option"
  task_data :: "nat option"

definition isNull :: "Task \<Rightarrow> bool" where
  "isNull r \<longleftrightarrow> task_function r = None \<and> task_data r = None"

record pool =
  tp_queues :: "Task list list"
  tp_terminate :: bool
  tasksByQueueLimit :: nat

definition ThreadPool_new :: "nat \<Rightarrow> pool" where
  "ThreadPool_new taskQueues = \<lparr>tp_queues = replicate taskQueues [], tp_terminate = False, tasksByQueueLimit = 100\<rparr>"

definition shuffled :: "nat \<Rightarrow> nat list \<Rightarrow> bool" where
  "shuffled n order \<longleftrightarrow> mset order = mset [0..<n]"

definition getRandomQueueByKey :: "nat list \<Rightarrow> nat \<Rightarrow> (nat \<Rightarrow> nat) \<Rightarrow> nat \<Rightarrow> nat" where
  "getRandomQueueByKey fullVector scaled dis n =
     (let elements = (if scaled = 0 then 1 else scaled);
          elements = (if elements > n then n else elements);
          reducedVector = take elements fullVector
      in reducedVector ! dis (elements - 1))"

definition getRandomTaskQueueWithElements :: "nat list \<Rightarrow> pool \<Rightarrow> nat option" where
  "getRandomTaskQueueWithElements fullVector p = find (\<lambda>i. tp_queues p ! i \<noteq> []) fullVector"

definition queue_full :: "pool \<Rightarrow> nat \<Rightarrow> bool" where
  "queue_full p i \<longleftrightarrow> length (tp_queues p ! i) > tasksByQueueLimit p"

definition insert_task :: "pool \<Rightarrow> nat \<Rightarrow> Task \<Rightarrow> pool" where
  "insert_task p i r = p\<lparr>tp_queues := (tp_queues p)[i := tp_queues p ! i @ [r]]\<rparr>"

definition remove_task :: "pool \<Rightarrow> nat \<Rightarrow> pool" where
  "remove_task p i = p\<lparr>tp_queues := (tp_queues p)[i := tl (tp_queues p ! i)]\<rparr>"

subsection \<open>Threads\<close>

text \<open>A client is outside the pool, waits in \<^verbatim>\<open>pushTask\<close>, or is about to notify after an insertion or in
  \<^verbatim>\<open>stop\<close>. A worker is about to call \<^verbatim>\<open>popTask\<close>, waits in it, is about to notify that it removed a task,
  runs the task, or has ended.\<close>

datatype pool_doing =
    Client | Push_waits nat Task nat bool | Notify_inserted | Notify_stop
  | Worker | Pop_waits bool | Notify_removed nat Task | Works Task | Ended

primrec removed_sleeper :: "nat \<Rightarrow> pool_doing \<Rightarrow> bool" where
  "removed_sleeper i Client = False"
| "removed_sleeper i (Push_waits j r tm woken) = (j = i \<and> \<not> woken)"
| "removed_sleeper i Notify_inserted = False"
| "removed_sleeper i Notify_stop = False"
| "removed_sleeper i Worker = False"
| "removed_sleeper i (Pop_waits woken) = False"
| "removed_sleeper i (Notify_removed j r) = False"
| "removed_sleeper i (Works r) = False"
| "removed_sleeper i Ended = False"

primrec inserted_sleeper :: "pool_doing \<Rightarrow> bool" where
  "inserted_sleeper Client = False"
| "inserted_sleeper (Push_waits j r tm woken) = False"
| "inserted_sleeper Notify_inserted = False"
| "inserted_sleeper Notify_stop = False"
| "inserted_sleeper Worker = False"
| "inserted_sleeper (Pop_waits woken) = (\<not> woken)"
| "inserted_sleeper (Notify_removed j r) = False"
| "inserted_sleeper (Works r) = False"
| "inserted_sleeper Ended = False"

primrec pool_wake :: "pool_doing \<Rightarrow> pool_doing" where
  "pool_wake Client = Client"
| "pool_wake (Push_waits j r tm woken) = Push_waits j r tm True"
| "pool_wake Notify_inserted = Notify_inserted"
| "pool_wake Notify_stop = Notify_stop"
| "pool_wake Worker = Worker"
| "pool_wake (Pop_waits woken) = Pop_waits True"
| "pool_wake (Notify_removed j r) = Notify_removed j r"
| "pool_wake (Works r) = Works r"
| "pool_wake Ended = Ended"

text \<open>The state: the pool, the threads, for every queue the tasks inserted and removed so far, and the
  largest limit set.\<close>

record pool_state =
  ps_pool :: pool
  ps_doing :: "nat \<Rightarrow> pool_doing"
  ps_pushed :: "Task list list"
  ps_taken :: "Task list list"
  ps_limit :: nat

text \<open>After \<^verbatim>\<open>start\<close>, the first threads are the workers.\<close>

definition pool_start :: "pool_state \<Rightarrow> bool" where
  "pool_start s \<longleftrightarrow> (\<exists>threadsCount taskQueues. s =
     \<lparr>ps_pool = ThreadPool_new taskQueues, ps_doing = (\<lambda>u. if u < threadsCount then Worker else Client),
      ps_pushed = replicate taskQueues [], ps_taken = replicate taskQueues [], ps_limit = 100\<rparr>)"

definition at_queue :: "nat \<Rightarrow> Task \<Rightarrow> Task list list \<Rightarrow> Task list list" where
  "at_queue i r xss = xss[i := xss ! i @ [r]]"

text \<open>\<^verbatim>\<open>pushTask\<close> from its test of the limit on.\<close>

definition pool_push_run :: "nat \<Rightarrow> nat \<Rightarrow> Task \<Rightarrow> nat \<Rightarrow> pool_state \<Rightarrow> pool_state" where
  "pool_push_run t i r timeoutMS s =
     (if queue_full (ps_pool s) i then s\<lparr>ps_doing := (ps_doing s)(t := Push_waits i r timeoutMS False)\<rparr>
      else s\<lparr>ps_pool := insert_task (ps_pool s) i r, ps_pushed := at_queue i r (ps_pushed s),
             ps_doing := (ps_doing s)(t := Notify_inserted)\<rparr>)"

text \<open>\<^verbatim>\<open>popTask\<close> from its test for an element on; when there is none, the thread ends (which is the empty
  task of the code) or waits.\<close>

definition pool_pop_run :: "nat \<Rightarrow> nat list \<Rightarrow> pool_doing \<Rightarrow> pool_state \<Rightarrow> pool_state" where
  "pool_pop_run t fullVector nothing s =
     (case getRandomTaskQueueWithElements fullVector (ps_pool s) of
        None \<Rightarrow> s\<lparr>ps_doing := (ps_doing s)(t := nothing)\<rparr>
      | Some i \<Rightarrow> let r = hd (tp_queues (ps_pool s) ! i) in
          s\<lparr>ps_pool := remove_task (ps_pool s) i, ps_taken := at_queue i r (ps_taken s),
            ps_doing := (ps_doing s)(t := Notify_removed i r)\<rparr>)"

inductive pool_step :: "nat \<Rightarrow> pool_state \<Rightarrow> pool_state \<Rightarrow> bool" for t s where
  push: "ps_doing s t = Client \<Longrightarrow> \<not> tp_terminate (ps_pool s) \<Longrightarrow> i < length (tp_queues (ps_pool s)) \<Longrightarrow>
    pool_step t s (pool_push_run t i r tm s)"
| push_woken: "ps_doing s t = Push_waits i r tm True \<Longrightarrow> pool_step t s (pool_push_run t i r tm s)"
| push_timeout: "ps_doing s t = Push_waits i r tm woken \<Longrightarrow> tm \<noteq> 0xFFFFFFFF \<Longrightarrow>
    pool_step t s (s\<lparr>ps_doing := (ps_doing s)(t := Client)\<rparr>)"
| inserted: "ps_doing s t = Notify_inserted \<Longrightarrow>
    notify_one inserted_sleeper pool_wake ((ps_doing s)(t := Client)) f \<Longrightarrow> pool_step t s (s\<lparr>ps_doing := f\<rparr>)"
| stop: "ps_doing s t = Client \<Longrightarrow>
    pool_step t s (s\<lparr>ps_pool := (ps_pool s)\<lparr>tp_terminate := True\<rparr>, ps_doing := (ps_doing s)(t := Notify_stop)\<rparr>)"
| stopped: "ps_doing s t = Notify_stop \<Longrightarrow>
    pool_step t s (s\<lparr>ps_doing := notify_all inserted_sleeper pool_wake ((ps_doing s)(t := Client))\<rparr>)"
| set_limit: "ps_doing s t = Client \<Longrightarrow>
    pool_step t s (s\<lparr>ps_pool := (ps_pool s)\<lparr>tasksByQueueLimit := n\<rparr>, ps_limit := max n (ps_limit s),
      ps_doing := notify_all (\<lambda>d. \<exists>i. removed_sleeper i d) pool_wake (ps_doing s)\<rparr>)"
| pop: "ps_doing s t = Worker \<Longrightarrow> shuffled (length (tp_queues (ps_pool s))) fullVector \<Longrightarrow>
    pool_step t s (pool_pop_run t fullVector (Pop_waits False) s)"
| pop_woken: "ps_doing s t = Pop_waits True \<Longrightarrow> shuffled (length (tp_queues (ps_pool s))) fullVector \<Longrightarrow>
    pool_step t s (pool_pop_run t fullVector (if tp_terminate (ps_pool s) then Ended else Pop_waits False) s)"
| removed: "ps_doing s t = Notify_removed i r \<Longrightarrow>
    notify_one (removed_sleeper i) pool_wake ((ps_doing s)(t := if isNull r then Ended else Works r)) f \<Longrightarrow>
    pool_step t s (s\<lparr>ps_doing := f\<rparr>)"
| worked: "ps_doing s t = Works r \<Longrightarrow> pool_step t s (s\<lparr>ps_doing := (ps_doing s)(t := Worker)\<rparr>)"

text \<open>The standard allows a wait to end without a notification.\<close>

inductive spurious_step :: "pool_state \<Rightarrow> pool_state \<Rightarrow> bool" for s where
  spurious: "spurious_step s (s\<lparr>ps_doing := (ps_doing s)(t := pool_wake (ps_doing s t))\<rparr>)"

definition any_pool_step :: "pool_state \<Rightarrow> pool_state \<Rightarrow> bool" where
  "any_pool_step s s' \<longleftrightarrow> (\<exists>t. pool_step t s s') \<or> spurious_step s s'"

text \<open>While the destructor joins the workers, no client calls the pool.\<close>

definition joining_step :: "pool_state \<Rightarrow> pool_state \<Rightarrow> bool" where
  "joining_step s s' \<longleftrightarrow> (\<exists>t. ps_doing s t \<noteq> Client \<and> pool_step t s s')"

subsection \<open>Queues\<close>

lemma shuffled_facts: "shuffled n order \<Longrightarrow> length order = n" "shuffled n order \<Longrightarrow> set order = {0..<n}"
proof -
  assume "shuffled n order"
  then have m: "mset order = mset [0..<n]" by (simp add: shuffled_def)
  show "length order = n" using mset_eq_length [OF m] by simp
  show "set order = {0..<n}" using mset_eq_setD [OF m] by simp
qed

lemma key_queue_in_range:
  assumes "shuffled n fullVector" "0 < n" "\<And>k. dis k \<le> k"
  shows "getRandomQueueByKey fullVector scaled dis n < n"
proof -
  have len: "length fullVector = n" and set: "set fullVector = {0..<n}"
    using shuffled_facts [OF assms(1)] by auto
  define e where "e = (if (if scaled = 0 then 1 else scaled) > n then n else (if scaled = 0 then 1 else scaled))"
  have e: "0 < e" "e \<le> n" using assms(2) by (auto simp: e_def)
  then have "dis (e - 1) < e" using assms(3) [of "e - 1"] by linarith
  then have "take e fullVector ! dis (e - 1) \<in> set fullVector" using e len by simp
  then show ?thesis using set by (simp add: getRandomQueueByKey_def Let_def e_def)
qed

lemma found_queue:
  assumes "shuffled (length (tp_queues p)) fullVector" "getRandomTaskQueueWithElements fullVector p = Some i"
  shows "i < length (tp_queues p)" "tp_queues p ! i \<noteq> []"
proof -
  have "set fullVector = {0..<length (tp_queues p)}" using assms(1) by (rule shuffled_facts)
  then show "i < length (tp_queues p)" "tp_queues p ! i \<noteq> []"
    using assms(2) by (auto simp: getRandomTaskQueueWithElements_def find_Some_iff)
qed

lemma no_queue:
  assumes "shuffled (length (tp_queues p)) fullVector"
  shows "getRandomTaskQueueWithElements fullVector p = None \<longleftrightarrow> (\<forall>q\<in>set (tp_queues p). q = [])"
proof -
  have "set fullVector = {0..<length (tp_queues p)}" using assms(1) by (rule shuffled_facts)
  then show ?thesis by (auto simp: getRandomTaskQueueWithElements_def find_None_iff all_set_conv_all_nth)
qed

definition tasks_left :: "pool \<Rightarrow> nat" where
  "tasks_left p = sum_list (map length (tp_queues p))"

lemma tasks_left_insert: "i < length (tp_queues p) \<Longrightarrow> tasks_left (insert_task p i r) = Suc (tasks_left p)"
  by (simp add: tasks_left_def insert_task_def map_update sum_list_update)

lemma tasks_left_remove:
  assumes "i < length (tp_queues p)" "tp_queues p ! i \<noteq> []"
  shows "tasks_left p = Suc (tasks_left (remove_task p i))"
proof -
  have "length (tp_queues p ! i) \<le> tasks_left p" "0 < length (tp_queues p ! i)"
    using assms elem_le_sum_list [of i "map length (tp_queues p)"] by (simp_all add: tasks_left_def)
  moreover have "tasks_left (remove_task p i) = tasks_left p + (length (tp_queues p ! i) - 1) - length (tp_queues p ! i)"
    using assms by (simp add: tasks_left_def remove_task_def map_update sum_list_update)
  ultimately show ?thesis by linarith
qed

subsection \<open>Invariants\<close>

text \<open>Every queue holds what was inserted into it and not removed, in that order, and at most one task more
  than the limit; a thread in \<^verbatim>\<open>pushTask\<close> has chosen an existing queue.\<close>

primrec waits_on :: "pool_doing \<Rightarrow> nat option" where
  "waits_on Client = None"
| "waits_on (Push_waits j r tm woken) = Some j"
| "waits_on Notify_inserted = None"
| "waits_on Notify_stop = None"
| "waits_on Worker = None"
| "waits_on (Pop_waits woken) = None"
| "waits_on (Notify_removed j r) = None"
| "waits_on (Works r) = None"
| "waits_on Ended = None"

definition pool_ok :: "pool_state \<Rightarrow> bool" where
  "pool_ok s \<longleftrightarrow> length (ps_pushed s) = length (tp_queues (ps_pool s)) \<and> length (ps_taken s) = length (tp_queues (ps_pool s)) \<and>
     (\<forall>i<length (tp_queues (ps_pool s)). ps_pushed s ! i = ps_taken s ! i @ tp_queues (ps_pool s) ! i \<and>
        length (tp_queues (ps_pool s) ! i) \<le> Suc (ps_limit s)) \<and>
     tasksByQueueLimit (ps_pool s) \<le> ps_limit s \<and>
     (\<forall>t i. waits_on (ps_doing s t) = Some i \<longrightarrow> i < length (tp_queues (ps_pool s)))"

lemma waits_on_wake [simp]: "waits_on (pool_wake d) = waits_on d"
  by (cases d) auto

lemma waits_on_notify [simp]: "waits_on (notify_all P pool_wake f u) = waits_on (f u)"
  by (simp add: notify_all_def)

lemma waits_on_notify_one: "notify_one P pool_wake f f' \<Longrightarrow> waits_on (f' u) = waits_on (f u)"
  by (auto elim!: notify_one_cases)

lemma pool_ok_doing:
  assumes "pool_ok s" "\<And>u. waits_on (f u) = None \<or> waits_on (f u) = waits_on (ps_doing s u)"
  shows "pool_ok (s\<lparr>ps_doing := f\<rparr>)"
  using assms unfolding pool_ok_def by simp (metis option.distinct(1))

lemma pool_ok_push:
  assumes "pool_ok s" "i < length (tp_queues (ps_pool s))"
  shows "pool_ok (pool_push_run t i r tm s)"
  using assms by (auto simp: pool_push_run_def pool_ok_def queue_full_def insert_task_def at_queue_def nth_list_update not_less)

lemma pool_ok_pop:
  assumes "pool_ok s" "shuffled (length (tp_queues (ps_pool s))) fullVector" "waits_on nothing = None"
  shows "pool_ok (pool_pop_run t fullVector nothing s)"
proof (cases "getRandomTaskQueueWithElements fullVector (ps_pool s)")
  case None
  then show ?thesis using assms(1,3) by (auto simp: pool_pop_run_def intro!: pool_ok_doing)
next
  case (Some i)
  then show ?thesis using assms(1) found_queue [OF assms(2) Some]
    by (auto simp: pool_pop_run_def pool_ok_def remove_task_def at_queue_def nth_list_update Let_def)
qed

lemma pool_ok_step:
  assumes "pool_ok s" "any_pool_step s s'"
  shows "pool_ok s'"
proof (cases "spurious_step s s'")
  case True
  then show ?thesis using assms(1) by (auto elim!: spurious_step.cases intro!: pool_ok_doing)
next
  case False
  then obtain t where "pool_step t s s'" using assms(2) by (auto simp: any_pool_step_def)
  then show ?thesis
  proof (cases rule: pool_step.cases)
    case (push i r tm)
    then show ?thesis using assms(1) pool_ok_push by simp
  next
    case (push_woken i r tm)
    then have "waits_on (ps_doing s t) = Some i" by simp
    then have "i < length (tp_queues (ps_pool s))" using assms(1) by (auto simp: pool_ok_def)
    then show ?thesis using push_woken assms(1) pool_ok_push by simp
  next
    case (set_limit n)
    have "pool_ok (s\<lparr>ps_doing := notify_all (\<lambda>d. \<exists>i. removed_sleeper i d) pool_wake (ps_doing s)\<rparr>)"
      using assms(1) by (auto intro!: pool_ok_doing)
    then show ?thesis using set_limit by (auto simp: pool_ok_def)
  next
    case (pop fullVector)
    then show ?thesis using assms(1) pool_ok_pop by simp
  next
    case (pop_woken fullVector)
    then show ?thesis using assms(1) pool_ok_pop by simp
  next
    case stop
    have "pool_ok (s\<lparr>ps_doing := (ps_doing s)(t := Notify_stop)\<rparr>)" using assms(1) by (auto intro!: pool_ok_doing)
    then show ?thesis using stop by (auto simp: pool_ok_def)
  qed (use assms(1) in \<open>auto intro!: pool_ok_doing simp: waits_on_notify_one\<close>)
qed

interpretation pool_invariant: machine_invariant pool_start any_pool_step pool_ok
proof
  show "pool_ok s" if "pool_start s" for s
    using that by (auto simp: pool_start_def pool_ok_def ThreadPool_new_def split: if_splits)
qed (rule pool_ok_step)

text \<open>The helpers of a sleeping worker: the workers that were woken and the clients about to notify.\<close>

primrec worker_helper :: "pool_doing \<Rightarrow> bool" where
  "worker_helper Client = False"
| "worker_helper (Push_waits j r tm woken) = False"
| "worker_helper Notify_inserted = True"
| "worker_helper Notify_stop = False"
| "worker_helper Worker = False"
| "worker_helper (Pop_waits woken) = woken"
| "worker_helper (Notify_removed j r) = False"
| "worker_helper (Works r) = False"
| "worker_helper Ended = False"

interpretation workers: wake_ups inserted_sleeper worker_helper pool_wake
proof
  show "\<not> worker_helper d" if "inserted_sleeper d" for d using that by (cases d) auto
  show "worker_helper (pool_wake d)" if "inserted_sleeper d" for d using that by (cases d) auto
qed

definition tasks_covered :: "pool_state \<Rightarrow> bool" where
  "tasks_covered s \<longleftrightarrow> workers.covered (ps_doing s) (tasks_left (ps_pool s))"

lemma pool_covered_push:
  assumes "tasks_covered s" "\<not> worker_helper (ps_doing s t)" "i < length (tp_queues (ps_pool s))"
  shows "tasks_covered (pool_push_run t i r tm s)"
  using assms workers.covered_new [of "ps_doing s" _ Notify_inserted t]
  by (auto simp: pool_push_run_def tasks_covered_def tasks_left_insert intro: workers.covered_same)

lemma tasks_left_0: "\<forall>q\<in>set (tp_queues p). q = [] \<Longrightarrow> tasks_left p = 0"
  by (simp add: tasks_left_def)

lemma pool_covered_pop:
  assumes "tasks_covered s" "shuffled (length (tp_queues (ps_pool s))) fullVector"
  shows "tasks_covered (pool_pop_run t fullVector nothing s)"
proof (cases "getRandomTaskQueueWithElements fullVector (ps_pool s)")
  case None
  then have "tasks_left (ps_pool s) = 0" using no_queue [OF assms(2)] tasks_left_0 by blast
  then show ?thesis using assms(1) None workers.covered_0 by (simp add: pool_pop_run_def tasks_covered_def)
next
  case (Some i)
  then show ?thesis
    using assms(1) tasks_left_remove [OF found_queue [OF assms(2) Some]] workers.covered_less
    by (simp add: pool_pop_run_def tasks_covered_def Let_def)
qed

lemma pool_other_notification:
  assumes "\<And>u. f' u = f u \<or> f' u = pool_wake (f u) \<and> (\<exists>i. removed_sleeper i (f u))"
  shows "inserted_sleeper (f' u) = inserted_sleeper (f u)" "worker_helper (f' u) = worker_helper (f u)"
  using assms [of u] by (cases "f u"; auto)+

lemma pool_covered_step:
  assumes "tasks_covered s" "pool_ok s" "any_pool_step s s'"
  shows "tasks_covered s'"
proof (cases "spurious_step s s'")
  case True
  then obtain t where "s' = s\<lparr>ps_doing := (ps_doing s)(t := pool_wake (ps_doing s t))\<rparr>" by (auto elim: spurious_step.cases)
  then show ?thesis using assms(1)
    by (cases "ps_doing s t") (auto simp: tasks_covered_def intro!: workers.covered_same)
next
  case False
  then obtain t where "pool_step t s s'" using assms(3) by (auto simp: any_pool_step_def)
  then show ?thesis
  proof (cases rule: pool_step.cases)
    case (push i r tm)
    then show ?thesis using pool_covered_push [OF assms(1), of t] by simp
  next
    case (push_woken i r tm)
    then have "waits_on (ps_doing s t) = Some i" by simp
    then have "i < length (tp_queues (ps_pool s))" using assms(2) by (auto simp: pool_ok_def)
    then show ?thesis using push_woken pool_covered_push [OF assms(1), of t] by simp
  next
    case (inserted f)
    then show ?thesis using assms(1) workers.covered_notify [of "ps_doing s" _ t Client f] by (simp add: tasks_covered_def)
  next
    case stop
    then show ?thesis using assms(1) by (auto simp: tasks_covered_def tasks_left_def intro!: workers.covered_same)
  next
    case stopped
    then show ?thesis using assms(1) by (auto simp: tasks_covered_def intro!: workers.covered_all workers.covered_same)
  next
    case (set_limit n)
    have "workers.covered (notify_all (\<lambda>d. \<exists>i. removed_sleeper i d) pool_wake (ps_doing s)) (tasks_left (ps_pool s))"
      by (rule workers.covered_frame [OF assms(1) [unfolded tasks_covered_def]])
        (rule pool_other_notification; auto simp: notify_all_def)+
    then show ?thesis using set_limit by (simp add: tasks_covered_def tasks_left_def)
  next
    case (removed i r f)
    define g where "g = (ps_doing s)(t := if isNull r then Ended else Works r)"
    have g: "workers.covered g (tasks_left (ps_pool s))"
      unfolding g_def using assms(1) removed(2) by (intro workers.covered_same) (simp_all add: tasks_covered_def)
    have w: "f u = g u \<or> f u = pool_wake (g u) \<and> (\<exists>i. removed_sleeper i (g u))" for u
      using notify_one_wakes_only [OF removed(3) [folded g_def], of u] by blast
    have "workers.covered f (tasks_left (ps_pool s))"
      by (rule workers.covered_frame [OF g]) (rule pool_other_notification; rule w)+
    then show ?thesis using removed(1) by (simp add: tasks_covered_def)
  qed (use assms(1) in \<open>auto simp: tasks_covered_def intro!: workers.covered_same pool_covered_pop [unfolded tasks_covered_def]\<close>)
qed

interpretation pool_wake_ups: machine_invariant pool_start any_pool_step "\<lambda>s. pool_ok s \<and> tasks_covered s"
proof
  show "pool_ok s \<and> tasks_covered s" if "pool_start s" for s
    using that pool_invariant.holds_initially [OF that]
    by (auto simp: pool_start_def tasks_covered_def workers.covered_def workers.settled_def split: if_splits)
qed (use pool_ok_step pool_covered_step in blast)

subsection \<open>Properties\<close>

text \<open>C17: A queue of the pool neither loses nor repeats a task and keeps their order, whatever the threads do:
  what was inserted into it, in the order of the insertions, is what the workers took out of it followed by
  what it still holds. That a task is taken at all is not part of this (a task inserted after the last worker
  ended stays in its queue). A queue holds at most one task more than the largest limit set: the test for a
  full queue is \<^verbatim>\<open>>\<close> and not \<^verbatim>\<open>>=\<close>.\<close>

theorem pool_queues_lose_nothing:
  assumes "reach pool_start any_pool_step s" "i < length (tp_queues (ps_pool s))"
  shows "ps_pushed s ! i = ps_taken s ! i @ tp_queues (ps_pool s) ! i \<and> length (tp_queues (ps_pool s) ! i) \<le> Suc (ps_limit s)"
  using pool_invariant.reachable [OF assms(1)] assms(2) by (simp add: pool_ok_def)

text \<open>C18: No wake-up of a worker is lost: while a worker sleeps, each task in the queues has a worker that was
  woken for it or a client that is about to notify, also after \<^verbatim>\<open>stop\<close>. So when every worker sleeps and
  no notification is under way, there is no task left.\<close>

theorem pool_workers_are_woken:
  assumes "reach pool_start any_pool_step s" "ps_doing s t = Pop_waits False"
  shows "tasks_left (ps_pool s) \<le> card {u. ps_doing s u = Notify_inserted \<or> ps_doing s u = Pop_waits True}"
proof -
  have "worker_helper d \<longleftrightarrow> d = Notify_inserted \<or> d = Pop_waits True" for d by (cases d) auto
  then show ?thesis
    using pool_wake_ups.reachable [OF assms(1)] workers.covered_D [of "ps_doing s" _ t] assms(2)
    by (simp add: tasks_covered_def)
qed

text \<open>One worker and one queue: a client inserts a task, the worker takes it, and while it runs the task the
  client destroys the pool: \<^verbatim>\<open>stop\<close> notifies nobody. Then the worker comes back and waits.\<close>

definition busy_at_stop :: "Task \<Rightarrow> pool_state" where
  "busy_at_stop r = \<lparr>ps_pool = \<lparr>tp_queues = [[]], tp_terminate = True, tasksByQueueLimit = 100\<rparr>,
     ps_doing = (\<lambda>_. Client)(0 := Pop_waits False), ps_pushed = [[r]], ps_taken = [[r]], ps_limit = 100\<rparr>"

lemma shuffled_1: "shuffled (Suc 0) [0]"
  by (simp add: shuffled_def)

lemma busy_at_stop_reached:
  assumes "\<not> isNull r"
  shows "reach pool_start any_pool_step (busy_at_stop r)"
proof -
  define st where "st q p d pushed taken = \<lparr>ps_pool = \<lparr>tp_queues = [q], tp_terminate = p, tasksByQueueLimit = 100\<rparr>,
     ps_doing = d, ps_pushed = [pushed], ps_taken = [taken], ps_limit = 100\<rparr>" for q p d pushed taken
  define d :: "pool_doing \<Rightarrow> pool_doing \<Rightarrow> nat \<Rightarrow> pool_doing" where "d w c = (\<lambda>_. Client)(0 := w, 1 := c)" for w c
  have d [simp]: "d w c 0 = w" "d w c (Suc 0) = c" "(d w c)(0 := w') = d w' c" "(d w c)(Suc 0 := c') = d w c'" for w c w' c'
    by (auto simp: d_def fun_eq_iff)
  have quiet: "notify_one P pool_wake (d w c) (d w c)" if "\<not> P w" "\<not> P c" "\<not> P Client" for P w c
    by (rule nobody) (use that in \<open>auto simp: d_def\<close>)
  have all: "notify_all inserted_sleeper pool_wake (d (Works r) Client) = d (Works r) Client"
    by (auto simp: notify_all_def d_def fun_eq_iff)
  note run = pool_push_run_def pool_pop_run_def queue_full_def insert_task_def remove_task_def at_queue_def
    getRandomTaskQueueWithElements_def Let_def
  have s: "pool_step t s s' \<Longrightarrow> reach pool_start any_pool_step s \<Longrightarrow> reach pool_start any_pool_step s'" for t s s'
    by (rule reach_step) (auto simp: any_pool_step_def)
  have "pool_start (st [] False (d Worker Client) [] [])"
    unfolding pool_start_def by (intro exI [of _ 1]) (auto simp: st_def ThreadPool_new_def d_def fun_eq_iff)
  then have "reach pool_start any_pool_step (st [] False (d Worker Client) [] [])" by (rule reach_init)
  then have "reach pool_start any_pool_step (st [r] False (d Worker Notify_inserted) [r] [])"
    by (rule s [rotated]) (use pool_step.push [of "st [] False (d Worker Client) [] []" 1 0 r 0] in \<open>simp add: st_def run\<close>)
  then have "reach pool_start any_pool_step (st [r] False (d Worker Client) [r] [])"
    by (rule s [rotated]) (use pool_step.inserted [of "st [r] False (d Worker Notify_inserted) [r] []" 1 "d Worker Client"] quiet
      in \<open>simp add: st_def\<close>)
  then have "reach pool_start any_pool_step (st [] False (d (Notify_removed 0 r) Client) [r] [r])"
    by (rule s [rotated]) (use pool_step.pop [of "st [r] False (d Worker Client) [r] []" 0 "[0]"] shuffled_1 in \<open>simp add: st_def run\<close>)
  then have "reach pool_start any_pool_step (st [] False (d (Works r) Client) [r] [r])"
    by (rule s [rotated]) (use pool_step.removed [of "st [] False (d (Notify_removed 0 r) Client) [r] [r]" 0 0 r "d (Works r) Client"]
      quiet assms in \<open>simp add: st_def\<close>)
  then have "reach pool_start any_pool_step (st [] True (d (Works r) Notify_stop) [r] [r])"
    by (rule s [rotated]) (use pool_step.stop [of "st [] False (d (Works r) Client) [r] [r]" 1] in \<open>simp add: st_def\<close>)
  then have "reach pool_start any_pool_step (st [] True (d (Works r) Client) [r] [r])"
    by (rule s [rotated]) (use pool_step.stopped [of "st [] True (d (Works r) Notify_stop) [r] [r]" 1] all in \<open>simp add: st_def\<close>)
  then have "reach pool_start any_pool_step (st [] True (d Worker Client) [r] [r])"
    by (rule s [rotated]) (use pool_step.worked [of "st [] True (d (Works r) Client) [r] [r]" 0] in \<open>simp add: st_def\<close>)
  then have "reach pool_start any_pool_step (st [] True (d (Pop_waits False) Client) [r] [r])"
    by (rule s [rotated]) (use pool_step.pop [of "st [] True (d Worker Client) [r] [r]" 0 "[0]"] shuffled_1 in \<open>simp add: st_def run\<close>)
  moreover have "st [] True (d (Pop_waits False) Client) [r] [r] = busy_at_stop r"
    by (simp add: st_def busy_at_stop_def d_def fun_eq_iff)
  ultimately show ?thesis by simp
qed

primrec may_notify_worker :: "pool_doing \<Rightarrow> bool" where
  "may_notify_worker Client = False"
| "may_notify_worker (Push_waits j r tm woken) = True"
| "may_notify_worker Notify_inserted = True"
| "may_notify_worker Notify_stop = True"
| "may_notify_worker Worker = False"
| "may_notify_worker (Pop_waits woken) = False"
| "may_notify_worker (Notify_removed j r) = False"
| "may_notify_worker (Works r) = False"
| "may_notify_worker Ended = False"

definition forgotten :: "nat \<Rightarrow> pool_state \<Rightarrow> bool" where
  "forgotten w s \<longleftrightarrow> tp_terminate (ps_pool s) \<and> (\<forall>q\<in>set (tp_queues (ps_pool s)). q = []) \<and>
     ps_doing s w = Pop_waits False \<and> (\<forall>u. \<not> may_notify_worker (ps_doing s u))"

lemma forgotten_step:
  assumes "forgotten w s" "joining_step s s'"
  shows "forgotten w s'"
proof -
  obtain t where t: "ps_doing s t \<noteq> Client" "pool_step t s s'" using assms(2) by (auto simp: joining_step_def)
  have n: "\<not> may_notify_worker (ps_doing s t)" using assms(1) by (simp add: forgotten_def)
  show ?thesis
    using t(2)
  proof (cases rule: pool_step.cases)
    case (pop fullVector)
    then have "getRandomTaskQueueWithElements fullVector (ps_pool s) = None" using assms(1) no_queue by (auto simp: forgotten_def)
    then show ?thesis using pop assms(1) by (auto simp: forgotten_def pool_pop_run_def)
  next
    case (pop_woken fullVector)
    then have "getRandomTaskQueueWithElements fullVector (ps_pool s) = None" using assms(1) no_queue by (auto simp: forgotten_def)
    then show ?thesis using pop_woken assms(1) by (auto simp: forgotten_def pool_pop_run_def)
  next
    case (removed i r f)
    have m: "may_notify_worker (pool_wake d) = may_notify_worker d" "removed_sleeper i d \<Longrightarrow> may_notify_worker d" for d
      by (cases d; simp)+
    have "\<not> removed_sleeper i (ps_doing s u)" for u using assms(1) m(2) unfolding forgotten_def by blast
    then have "f = (ps_doing s)(t := if isNull r then Ended else Works r)"
      using removed(3) by (auto elim!: notify_one_cases split: if_splits)
    then show ?thesis using removed assms(1) by (auto simp: forgotten_def)
  qed (use assms(1) n t(1) in \<open>auto simp: forgotten_def\<close>)
qed

interpretation forgotten_worker: machine_invariant "forgotten w" joining_step "forgotten w" for w
  by unfold_locales (auto intro: forgotten_step)

text \<open>The destructor can wait for ever. A worker that finds the queues empty after \<^verbatim>\<open>stop\<close> has notified goes to
  sleep without looking at the termination flag, and while the destructor joins the workers no step of any
  thread wakes it. The witness is such a pool: its only worker ran a task when \<^verbatim>\<open>stop\<close> was called.\<close>

theorem pool_join_can_hang:
  assumes "tp_terminate (ps_pool s)" "\<forall>q\<in>set (tp_queues (ps_pool s)). q = []" "ps_doing s w = Pop_waits False"
    "\<forall>u. \<not> may_notify_worker (ps_doing s u)" "joining_step\<^sup>*\<^sup>* s s'"
  shows "ps_doing s' w = Pop_waits False"
  using forgotten_worker.run_keeps [OF assms(5), of w] assms(1-4) by (simp add: forgotten_def)

theorem pool_join_can_hang_witness:
  "reach pool_start any_pool_step (busy_at_stop \<lparr>task_function = Some 7, task_data = None\<rparr>) \<and>
   ps_doing (busy_at_stop \<lparr>task_function = Some 7, task_data = None\<rparr>) 0 = Pop_waits False"
proof
  show "reach pool_start any_pool_step (busy_at_stop \<lparr>task_function = Some 7, task_data = None\<rparr>)"
    by (rule busy_at_stop_reached) (simp add: isNull_def)
  show "ps_doing (busy_at_stop \<lparr>task_function = Some 7, task_data = None\<rparr>) 0 = Pop_waits False"
    by (rule pool_join_can_hang [of "busy_at_stop \<lparr>task_function = Some 7, task_data = None\<rparr>"])
      (simp_all add: busy_at_stop_def)
qed

lemmas pool_example = busy_at_stop_reached [of "\<lparr>task_function = Some 7, task_data = None\<rparr>", simplified isNull_def, simplified]

theorem pool_queues_lose_nothing_witness:
  "[\<lparr>task_function = Some 7, task_data = None\<rparr>] =
     ps_taken (busy_at_stop \<lparr>task_function = Some 7, task_data = None\<rparr>) ! 0 @ []"
  using pool_queues_lose_nothing [OF pool_example, of 0] by (simp add: busy_at_stop_def)

theorem pool_workers_are_woken_witness:
  "tasks_left (ps_pool (busy_at_stop \<lparr>task_function = Some 7, task_data = None\<rparr>)) \<le>
     card {u. ps_doing (busy_at_stop \<lparr>task_function = Some 7, task_data = None\<rparr>) u = Notify_inserted \<or>
       ps_doing (busy_at_stop \<lparr>task_function = Some 7, task_data = None\<rparr>) u = Pop_waits True}"
  by (rule pool_workers_are_woken [OF pool_example, of 0]) (simp add: busy_at_stop_def)

end
