(* ===== verification/Socket_Stream.thy ===== *)
theory Socket_Stream
  imports Std_Map
begin

text \<open>
  \<^verbatim>\<open>Network/mdz_net_sockets/socket_streambase.cpp\<close>, \<^verbatim>\<open>socket_streambasereader\<close> and \<^verbatim>\<open>socket_streambasewriter\<close>: whole
  blocks, integers and strings over a connection that gives and takes bytes in pieces. What the calls of the
  system give, in this run, is a list of pieces, an empty piece or the end of the list for a closed connection; the calls
  that take bytes accept as many as the list \<^verbatim>\<open>sk_accepts\<close> says, zero for an error, and all of them after its end. After
  \<^verbatim>\<open>shutdownSocket\<close> nothing is written; whether something is still read is up to the system, so to \<^verbatim>\<open>sk_in\<close>. The host stores integers with the least byte first.
\<close>

subsection \<open>The socket\<close>

record socket =
  sk_in :: "byte list list"
  sk_readError :: bool
  sk_out :: "byte list"
  sk_accepts :: "nat list"
  sk_shut :: bool

definition shutdownSocket :: "socket \<Rightarrow> socket" where
  "shutdownSocket s = s\<lparr>sk_shut := True\<rparr>"

text \<open>At most \<^verbatim>\<open>n\<close> bytes; no bytes when the connection is closed, None for an error.\<close>

definition partialRead :: "socket \<Rightarrow> nat \<Rightarrow> socket \<times> byte list option" where
  "partialRead s n =
     (case sk_in s of
        [] \<Rightarrow> (s, if sk_readError s then None else Some [])
      | p # ps \<Rightarrow> if length p \<le> n then (s\<lparr>sk_in := ps\<rparr>, Some p) else (s\<lparr>sk_in := drop n p # ps\<rparr>, Some (take n p)))"

definition partialWrite :: "socket \<Rightarrow> byte list \<Rightarrow> socket \<times> nat" where
  "partialWrite s bs =
     (if sk_shut s then (s, 0)
      else case sk_accepts s of
        [] \<Rightarrow> (s\<lparr>sk_out := sk_out s @ bs\<rparr>, length bs)
      | k # ks \<Rightarrow> (s\<lparr>sk_out := sk_out s @ take k bs, sk_accepts := ks\<rparr>, min k (length bs)))"

lemma partialRead_length: "partialRead s n = (s', Some bs) \<Longrightarrow> length bs \<le> n"
  by (auto simp: partialRead_def split: if_splits list.splits)

lemma partialWrite_length: "partialWrite s bs = (s', k) \<Longrightarrow> k \<le> length bs"
  by (auto simp: partialWrite_def split: if_splits list.splits)

subsection \<open>Whole blocks\<close>

text \<open>The bytes put into the caller's block, the count given back and the result. An error leaves the count zero.\<close>

function readFull_loop :: "socket \<Rightarrow> nat \<Rightarrow> byte list \<Rightarrow> socket \<times> byte list \<times> nat \<times> bool" where
  "readFull_loop s expected cur =
     (if length cur < expected
      then (case partialRead s (min 4096 (expected - length cur)) of
          (s', None) \<Rightarrow> (s', cur, 0, False)
        | (s', Some bs) \<Rightarrow>
            if bs = [] then (s', cur, length cur, False) else readFull_loop s' expected (cur @ bs))
      else (s, cur, length cur, True))"
  by pat_completeness auto
termination by (relation "measure (\<lambda>(s, expected, cur). expected - length cur)") (auto intro: diff_less_mono2)

declare readFull_loop.simps [simp del]

definition readFull :: "socket \<Rightarrow> nat \<Rightarrow> socket \<times> byte list \<times> nat \<times> bool" where
  "readFull s expectedDataBytesCount =
     (if expectedDataBytesCount = 0 then (s, [], 0, True) else readFull_loop s expectedDataBytesCount [])"

function writeFull :: "socket \<Rightarrow> byte list \<Rightarrow> socket \<times> bool" where
  "writeFull s data =
     (if data = [] then (s, True)
      else let (s', sent) = partialWrite s (take 4096 data) in
        if sent = 0 then (shutdownSocket s', False) else writeFull s' (drop sent data))"
  by pat_completeness auto
termination by (relation "measure (\<lambda>(s, data). length data)") auto

declare writeFull.simps [simp del]

subsection \<open>Integers\<close>

text \<open>Network order: the most significant byte first.\<close>

fun be_bytes :: "nat \<Rightarrow> nat \<Rightarrow> byte list" where
  "be_bytes 0 v = []"
| "be_bytes (Suc w) v = be_bytes w (v div 256) @ [word_of_nat v]"

definition be_nat :: "byte list \<Rightarrow> nat" where
  "be_nat bs = foldl (\<lambda>a b. a * 256 + unat b) 0 bs"

text \<open>\<^verbatim>\<open>readU8\<close> to \<^verbatim>\<open>readU64\<close>: of a value that does not come whole, the missing bytes are zero.\<close>

definition readU_raw :: "nat \<Rightarrow> socket \<Rightarrow> socket \<times> nat \<times> bool" where
  "readU_raw w s = (let (s', bs, r, ok) = readFull s w in (s', be_nat (bs @ replicate (w - length bs) 0), ok \<and> r = w))"

definition readU :: "nat \<Rightarrow> socket \<Rightarrow> socket \<times> nat \<times> bool" where
  "readU w s = (let (s', v, ok) = readU_raw w s in (if ok then s' else shutdownSocket s', v, ok))"

definition writeU_raw :: "nat \<Rightarrow> socket \<Rightarrow> nat \<Rightarrow> socket \<times> bool" where
  "writeU_raw w s c = writeFull s (be_bytes w c)"

definition writeU :: "nat \<Rightarrow> socket \<Rightarrow> nat \<Rightarrow> socket \<times> bool" where
  "writeU w s c = (let (s', ok) = writeU_raw w s c in (if ok then s' else shutdownSocket s', ok))"

subsection \<open>Blocks with their length\<close>

text \<open>The data and the new length; the length stays when there is nothing to receive or it was not read.\<close>

definition readBlockEx :: "nat \<Rightarrow> socket \<Rightarrow> nat \<Rightarrow> bool \<Rightarrow> socket \<times> byte list \<times> nat \<times> bool" where
  "readBlockEx w s datalen mustReceiveFullDataLen =
     (if datalen = 0 then (s, [], 0, True)
      else let (s1, len, readOK) = readU w s in
        if \<not> readOK then (s1, [], datalen, False)
        else if len \<noteq> datalen \<and> mustReceiveFullDataLen \<or> len > datalen then (shutdownSocket s1, [], datalen, False)
        else if len = 0 then (s1, [], 0, True)
        else let (s2, bs, r, ok) = readFull s1 len in (s2, bs, len, ok \<and> r = len))"

definition readBlockWAllocEx :: "nat \<Rightarrow> socket \<Rightarrow> nat \<Rightarrow> socket \<times> byte list option" where
  "readBlockWAllocEx w s datalen =
     (let (s1, expected, readOK) = readU w s in
      if \<not> readOK then (s1, None)
      else if expected > datalen then (shutdownSocket s1, None)
      else if expected = 0 then (s1, Some [])
      else let (s2, bs, r, ok) = readFull s1 expected in
        if ok \<and> r = expected then (s2, Some bs) else (shutdownSocket s2, None))"

definition readStringEx :: "nat \<Rightarrow> socket \<Rightarrow> nat \<Rightarrow> socket \<times> byte list \<times> bool" where
  "readStringEx w s maxLenght =
     (case readBlockWAllocEx w s maxLenght of (s', None) \<Rightarrow> (s', [], False) | (s', Some data) \<Rightarrow> (s', data, True))"

definition writeBlockEx :: "nat \<Rightarrow> socket \<Rightarrow> byte list \<Rightarrow> socket \<times> bool" where
  "writeBlockEx w s data =
     (let datalen = length data mod 256 ^ w; (s1, ok) = writeU_raw w s datalen in
      if \<not> ok then (s1, False)
      else if datalen = 0 then (s1, True)
      else let (s2, r) = writeFull s1 (take datalen data) in (if r then s2 else shutdownSocket s2, r))"

definition writeStringEx :: "nat \<Rightarrow> socket \<Rightarrow> byte list \<Rightarrow> nat \<Rightarrow> socket \<times> bool" where
  "writeStringEx w s str maxSize =
     (if length str > maxSize then (shutdownSocket s, False) else writeBlockEx w s str)"

subsection \<open>Blocks with a delimiter\<close>

text \<open>Up to 65536 more bytes at the end of what was read: the new text, and \<^verbatim>\<open>Some True\<close> when it ends with the
  delimiter, \<^verbatim>\<open>Some False\<close> when it does not, None for an error.\<close>

fun read64KBlockDelim :: "nat \<Rightarrow> socket \<Rightarrow> byte list \<Rightarrow> byte list \<Rightarrow> socket \<times> byte list \<times> bool option" where
  "read64KBlockDelim 0 s block delim = (s, block, Some False)"
| "read64KBlockDelim (Suc n) s block delim =
     (case readU_raw 1 s of
        (s1, c, False) \<Rightarrow> (s1, block, None)
      | (s1, c, True) \<Rightarrow> let block1 = block @ [word_of_nat c] in
          if length delim \<le> length block1 \<and> drop (length block1 - length delim) block1 = delim
          then (s1, block1, Some True) else read64KBlockDelim n s1 block1 delim)"

text \<open>\<^verbatim>\<open>blocks\<close> counts the blocks of 64 KB that may still be asked for. This is for limits below 0xFFFF0000; above, the
  size of the buffer wraps around.\<close>

fun delim_blocks :: "nat \<Rightarrow> socket \<Rightarrow> byte list \<Rightarrow> byte list \<Rightarrow> socket \<times> byte list option" where
  "delim_blocks blocks s block delim =
     (case read64KBlockDelim 65536 s block delim of
        (s1, _, None) \<Rightarrow> (s1, None)
      | (s1, block1, Some True) \<Rightarrow> (s1, Some block1)
      | (s1, block1, Some False) \<Rightarrow> (case blocks of 0 \<Rightarrow> (s1, None) | Suc k \<Rightarrow> delim_blocks k s1 block1 delim))"

declare delim_blocks.simps [simp del]

definition readBlock32WAllocAndDelim :: "socket \<Rightarrow> nat \<Rightarrow> byte list \<Rightarrow> socket \<times> byte list option" where
  "readBlock32WAllocAndDelim s datalen delim =
     (if datalen \<le> 65535 then (s, None) else delim_blocks (datalen div 65536 - 1) s [] delim)"

subsection \<open>Lemmas\<close>

text \<open>What is still to come of an open connection without empty pieces.\<close>

definition sk_ready :: "socket \<Rightarrow> bool" where
  "sk_ready s \<longleftrightarrow> \<not> sk_shut s \<and> [] \<notin> set (sk_in s)"

definition sk_rest :: "socket \<Rightarrow> byte list" where
  "sk_rest s = concat (sk_in s)"

lemma partialRead_ready:
  assumes "sk_ready s" "sk_rest s \<noteq> []" "0 < n"
  shows "\<exists>s' bs. partialRead s n = (s', Some bs) \<and> bs \<noteq> [] \<and> sk_ready s' \<and> sk_rest s = bs @ sk_rest s' \<and>
    sk_out s' = sk_out s \<and> sk_accepts s' = sk_accepts s"
  using assms by (cases "sk_in s") (auto simp: partialRead_def sk_ready_def sk_rest_def)

lemma partialRead_end: "sk_ready s \<Longrightarrow> sk_rest s = [] \<Longrightarrow> fst (partialRead s n) = s \<and> (snd (partialRead s n) = Some [] \<or> snd (partialRead s n) = None)"
  by (cases "sk_in s") (auto simp: partialRead_def sk_ready_def sk_rest_def)

lemma readFull_loop_ready:
  assumes "sk_ready s" "length cur \<le> n" "n \<le> length cur + length (sk_rest s)"
  shows "\<exists>s'. readFull_loop s n cur = (s', cur @ take (n - length cur) (sk_rest s), n, True) \<and> sk_ready s' \<and>
    sk_rest s' = drop (n - length cur) (sk_rest s) \<and> sk_out s' = sk_out s \<and> sk_accepts s' = sk_accepts s"
  using assms
proof (induction s n cur rule: readFull_loop.induct)
  case (1 s n cur)
  show ?case
  proof (cases "length cur < n")
    case True
    then have rest: "sk_rest s \<noteq> []" using 1(4) by auto
    obtain s' bs where p: "partialRead s (min 4096 (n - length cur)) = (s', Some bs)" "bs \<noteq> []" "sk_ready s'"
      "sk_rest s = bs @ sk_rest s'" "sk_out s' = sk_out s" "sk_accepts s' = sk_accepts s"
      using partialRead_ready [OF 1(2) rest, of "min 4096 (n - length cur)"] True by auto
    have len: "length bs \<le> n - length cur" using partialRead_length [OF p(1)] by simp
    have h: "length (cur @ bs) \<le> n" "n \<le> length (cur @ bs) + length (sk_rest s')" using len p(4) True 1(4) by simp_all
    obtain t where "readFull_loop s' n (cur @ bs) = (t, (cur @ bs) @ take (n - length (cur @ bs)) (sk_rest s'), n, True)" "sk_ready t"
      "sk_rest t = drop (n - length (cur @ bs)) (sk_rest s')" "sk_out t = sk_out s'" "sk_accepts t = sk_accepts s'"
      using 1(1) [OF True p(1) [symmetric] refl p(2,3) h] by blast
    moreover have "readFull_loop s n cur = readFull_loop s' n (cur @ bs)" using True p(1,2) by (simp add: readFull_loop.simps [of s n cur])
    ultimately show ?thesis using p(4,5,6) len by simp
  qed (use 1 in \<open>simp add: readFull_loop.simps [of s n cur]\<close>)
qed

text \<open>A block comes whole and in order, however the bytes were split on the way.\<close>

lemma readFull_ready:
  assumes "sk_ready s" "n \<le> length (sk_rest s)"
  shows "\<exists>s'. readFull s n = (s', take n (sk_rest s), n, True) \<and> sk_ready s' \<and> sk_rest s' = drop n (sk_rest s) \<and>
    sk_out s' = sk_out s \<and> sk_accepts s' = sk_accepts s"
  using readFull_loop_ready [of s "[]" n] assms by (auto simp: readFull_def)

lemma readFull_loop_short:
  assumes "sk_ready s" "length cur + length (sk_rest s) < n"
  shows "\<exists>s' bs k. readFull_loop s n cur = (s', bs, k, False)"
  using assms
proof (induction s n cur rule: readFull_loop.induct)
  case (1 s n cur)
  show ?case
  proof (cases "sk_rest s = []")
    case True
    then show ?thesis using partialRead_end [OF 1(2), of "min 4096 (n - length cur)"] 1(3)
      by (cases "partialRead s (min 4096 (n - length cur))") (auto simp: readFull_loop.simps [of s n cur])
  next
    case False
    then obtain s' bs where p: "partialRead s (min 4096 (n - length cur)) = (s', Some bs)" "bs \<noteq> []" "sk_ready s'"
      "sk_rest s = bs @ sk_rest s'"
      using partialRead_ready [OF 1(2) False, of "min 4096 (n - length cur)"] 1(3) by auto
    have "length cur < n" using 1(3) by simp
    from 1(1) [OF this p(1) [symmetric] refl p(2,3)] p 1(3) \<open>length cur < n\<close> show ?thesis
      by (auto simp: readFull_loop.simps [of s n cur])
  qed
qed

lemma readFull_short: "sk_ready s \<Longrightarrow> length (sk_rest s) < n \<Longrightarrow> \<exists>s' bs k. readFull s n = (s', bs, k, False)"
  using readFull_loop_short [of s "[]" n] by (auto simp: readFull_def)

text \<open>As long as the system takes something each time, a block is sent whole.\<close>

definition sk_takes :: "socket \<Rightarrow> bool" where
  "sk_takes s \<longleftrightarrow> \<not> sk_shut s \<and> 0 \<notin> set (sk_accepts s)"

lemma writeFull_takes:
  assumes "sk_takes s"
  shows "\<exists>s'. writeFull s bs = (s', True) \<and> sk_takes s' \<and> sk_out s' = sk_out s @ bs \<and> sk_in s' = sk_in s"
  using assms
proof (induction s bs rule: writeFull.induct)
  case (1 s bs)
  show ?case
  proof (cases "bs = []")
    case False
    obtain s1 k where p: "partialWrite s (take 4096 bs) = (s1, k)" by fastforce
    have k: "0 < k" "sk_takes s1" "sk_out s1 = sk_out s @ take k bs" "sk_in s1 = sk_in s"
      using p False 1(2) by (auto simp: partialWrite_def sk_takes_def min_def split: if_splits list.splits)
    have "k \<noteq> 0" using k(1) by simp
    from 1(1) [OF False refl p [symmetric] this k(2)] obtain s' where "writeFull s1 (drop k bs) = (s', True)" "sk_takes s'"
      "sk_out s' = sk_out s1 @ drop k bs" "sk_in s' = sk_in s1"
      by auto
    then show ?thesis using False p k by (simp add: writeFull.simps [of s bs])
  qed (use 1(2) in \<open>simp add: writeFull.simps\<close>)
qed

lemma length_be_bytes [simp]: "length (be_bytes w v) = w"
  by (induction w arbitrary: v) auto

lemma be_nat_snoc [simp]: "be_nat (bs @ [b]) = be_nat bs * 256 + unat b"
  by (simp add: be_nat_def)

lemma be_nat_bytes: "v < 256 ^ w \<Longrightarrow> be_nat (be_bytes w v) = v"
proof (induction w arbitrary: v)
  case (Suc w)
  then have "v div 256 < 256 ^ w" by (simp add: less_mult_imp_div_less mult.commute)
  then show ?case using Suc.IH by (simp add: unat_of_nat take_bit_eq_mod)
qed (simp add: be_nat_def)

lemma readU_ready:
  assumes "sk_ready s" "sk_rest s = be_bytes w v @ r" "v < 256 ^ w"
  shows "\<exists>s'. readU w s = (s', v, True) \<and> sk_ready s' \<and> sk_rest s' = r \<and> sk_out s' = sk_out s \<and> sk_accepts s' = sk_accepts s"
  using readFull_ready [OF assms(1), of w] assms(2,3) by (auto simp: readU_def readU_raw_def be_nat_bytes)

lemma writeU_takes:
  assumes "sk_takes s"
  shows "\<exists>s'. writeU w s v = (s', True) \<and> sk_takes s' \<and> sk_out s' = sk_out s @ be_bytes w v \<and> sk_in s' = sk_in s"
  using writeFull_takes [OF assms, of "be_bytes w v"] by (auto simp: writeU_def writeU_raw_def)

lemma readBlockWAllocEx_ready:
  assumes "sk_ready s" "sk_rest s = be_bytes w (length bs) @ bs @ r" "length bs < 256 ^ w" "length bs \<le> m"
  shows "\<exists>s'. readBlockWAllocEx w s m = (s', Some bs) \<and> sk_ready s' \<and> sk_rest s' = r \<and> sk_out s' = sk_out s \<and> sk_accepts s' = sk_accepts s"
proof -
  obtain s1 where s1: "readU w s = (s1, length bs, True)" "sk_ready s1" "sk_rest s1 = bs @ r" "sk_out s1 = sk_out s" "sk_accepts s1 = sk_accepts s"
    using readU_ready [OF assms(1,2,3)] by auto
  from readFull_ready [OF s1(2), of "length bs"] s1 assms(4) show ?thesis
    by (auto simp: readBlockWAllocEx_def)
qed

lemma writeStringEx_takes:
  assumes "sk_takes s" "length bs \<le> m" "length bs < 256 ^ w"
  shows "\<exists>s'. writeStringEx w s bs m = (s', True) \<and> sk_takes s' \<and> sk_out s' = sk_out s @ be_bytes w (length bs) @ bs \<and> sk_in s' = sk_in s"
proof -
  obtain s1 where s1: "writeU_raw w s (length bs) = (s1, True)" "sk_takes s1" "sk_out s1 = sk_out s @ be_bytes w (length bs)" "sk_in s1 = sk_in s"
    using writeFull_takes [OF assms(1), of "be_bytes w (length bs)"] by (auto simp: writeU_raw_def)
  from writeFull_takes [OF s1(2), of bs] s1 assms(2,3) show ?thesis
    by (auto simp: writeStringEx_def writeBlockEx_def)
qed

end
