(* ===== verification/Fast_Rpc.thy ===== *)
theory Fast_Rpc
  imports Socket_Stream Json Interleaving
begin

text \<open>
  \<^verbatim>\<open>RPC/mdz_xrpc_fast/fastrpc.cpp\<close>: calls of methods in both directions over one connection. Frames go over the
  socket of \<^verbatim>\<open>Socket_Stream\<close>; the answers that came and the callers that wait for them are tables that several
  threads share. JSON text is read by \<^verbatim>\<open>parse\<close> and written by \<^verbatim>\<open>writer\<close> (JsonCpp); the methods are functions of the
  key of the connection, its data and the payload. Whether the thread pool takes a task is an argument.
\<close>

subsection \<open>State\<close>

record fast_config =
  fc_parse :: "string \<Rightarrow> json option"
  fc_writer :: "json \<Rightarrow> string"
  maxMessageSize :: nat

type_synonym fast_method = "string \<Rightarrow> string \<Rightarrow> json \<Rightarrow> json"

record fast_connection =
  requestIdCounter :: nat
  answers :: "nat \<rightharpoonup> json"
  executionStatus :: "nat \<rightharpoonup> nat"
  pendingRequests :: "nat set"
  terminated :: bool

definition FastRPC_Connection_new :: fast_connection where
  "FastRPC_Connection_new = \<lparr>requestIdCounter = 1, answers = Map.empty, executionStatus = Map.empty, pendingRequests = {},
     terminated = False\<rparr>"

text \<open>The parameters of a task.\<close>

record fast_task =
  ft_requestId :: nat
  ft_methodName :: string
  ft_payload :: json

definition addMethod :: "(string \<rightharpoonup> fast_method) \<Rightarrow> string \<Rightarrow> fast_method \<Rightarrow> (string \<rightharpoonup> fast_method) \<times> bool" where
  "addMethod methods methodName rpcMethod =
     (if methods methodName = None then (methods(methodName \<mapsto> rpcMethod), True) else (methods, False))"

definition runLocalRPCMethod :: "(string \<rightharpoonup> fast_method) \<Rightarrow> string \<Rightarrow> string \<Rightarrow> string \<Rightarrow> json \<Rightarrow> json \<times> bool" where
  "runLocalRPCMethod methods methodName connectionKey data payload =
     (case methods methodName of Some f \<Rightarrow> (f connectionKey data payload, True) | None \<Rightarrow> (JsonNull, False))"

subsection \<open>Frames\<close>

text \<open>Writes one after the other, as long as they succeed.\<close>

fun write_all :: "(socket \<Rightarrow> socket \<times> bool) list \<Rightarrow> socket \<Rightarrow> socket" where
  "write_all [] s = s"
| "write_all (f # fs) s = (let (s', ok) = f s in if ok then write_all fs s' else s')"

definition sendRPCAnswer :: "fast_config \<Rightarrow> socket \<Rightarrow> nat \<Rightarrow> string \<Rightarrow> nat \<Rightarrow> socket" where
  "sendRPCAnswer C s requestId answer execution = write_all
     [\<lambda>s. writeU 1 s (of_char CHR ''A''), \<lambda>s. writeU 8 s requestId, \<lambda>s. writeU 1 s execution,
      \<lambda>s. writeStringEx 4 s (to_bytes (if length answer \<le> maxMessageSize C then answer else '''')) (maxMessageSize C)] s"

text \<open>The frame of a call; the name of the method may have 254 bytes.\<close>

definition send_query :: "fast_config \<Rightarrow> socket \<Rightarrow> nat \<Rightarrow> string \<Rightarrow> string \<Rightarrow> socket" where
  "send_query C s requestId methodName output = write_all
     [\<lambda>s. writeU 1 s (of_char CHR ''Q''), \<lambda>s. writeU 8 s requestId, \<lambda>s. writeStringEx 1 s (to_bytes methodName) 254,
      \<lambda>s. writeStringEx 4 s (to_bytes output) (maxMessageSize C)] s"

definition executeRPCTask :: "fast_config \<Rightarrow> (string \<rightharpoonup> fast_method) \<Rightarrow> string \<Rightarrow> string \<Rightarrow> fast_task \<Rightarrow> socket \<Rightarrow> socket" where
  "executeRPCTask C methods key data t s =
     (let (r, found) = runLocalRPCMethod methods (ft_methodName t) key data (ft_payload t)
      in sendRPCAnswer C s (ft_requestId t) (fc_writer C r) (if found then 2 else 4))"

text \<open>The payload is a text that ends at its first zero byte.\<close>

definition c_text :: "byte list \<Rightarrow> string" where
  "c_text bs = of_bytes (takeWhile (\<lambda>b. b \<noteq> 0) bs)"

text \<open>What an answer does to the tables; the second result tells whether the callers are notified.\<close>

definition store_answer :: "fast_connection \<Rightarrow> nat \<Rightarrow> nat \<Rightarrow> json option \<Rightarrow> fast_connection \<times> bool" where
  "store_answer c requestId execution parsed =
     (if requestId \<in> pendingRequests c
      then (case parsed of
          Some j \<Rightarrow> (c\<lparr>executionStatus := (executionStatus c)(requestId \<mapsto> execution), answers := (answers c)(requestId \<mapsto> j)\<rparr>, True)
        | None \<Rightarrow> (c\<lparr>answers := (answers c)(requestId := None), executionStatus := (executionStatus c)(requestId := None),
            pendingRequests := pendingRequests c - {requestId}\<rparr>, False))
      else (c, False))"

definition processAnswer :: "fast_config \<Rightarrow> fast_connection \<Rightarrow> socket \<Rightarrow> fast_connection \<times> socket \<times> int" where
  "processAnswer C c s =
     (let (s1, requestId, _) = readU 8 s in
      if requestId = 0 then (c, s1, -1)
      else let (s2, execution, _) = readU 1 s1 in
        (case readBlockWAllocEx 4 s2 (maxMessageSize C) of
           (s3, None) \<Rightarrow> (c, s3, -3)
         | (s3, Some payloadBytes) \<Rightarrow> (fst (store_answer c requestId execution (fc_parse C (c_text payloadBytes))), s3, 1)))"

text \<open>\<^verbatim>\<open>pushed\<close>: the pool took the task; otherwise the other side is told.\<close>

definition processQuery :: "fast_config \<Rightarrow> bool \<Rightarrow> socket \<Rightarrow> socket \<times> fast_task option \<times> int" where
  "processQuery C pushed s =
     (let (s1, requestId, _) = readU 8 s in
      if requestId = 0 then (s1, None, -1)
      else let (s2, methodName, ok) = readStringEx 1 s1 254 in
        if \<not> ok then (s2, None, -2)
        else (case readBlockWAllocEx 4 s2 (maxMessageSize C) of
           (s3, None) \<Rightarrow> (s3, None, -3)
         | (s3, Some payloadBytes) \<Rightarrow> (case fc_parse C (c_text payloadBytes) of
             None \<Rightarrow> (s3, None, -3)
           | Some payload \<Rightarrow>
               if pushed then (s3, Some \<lparr>ft_requestId = requestId, ft_methodName = of_bytes methodName, ft_payload = payload\<rparr>, 1)
               else (sendRPCAnswer C s3 requestId '''' 3, None, 1))))"

subsection \<open>Lemmas on frames\<close>

text \<open>An operation that sends just these bytes when the connection takes them.\<close>

definition sends :: "(socket \<Rightarrow> socket \<times> bool) \<Rightarrow> byte list \<Rightarrow> bool" where
  "sends f bs \<longleftrightarrow> (\<forall>s. sk_takes s \<longrightarrow>
     (\<exists>s'. f s = (s', True) \<and> sk_takes s' \<and> sk_out s' = sk_out s @ bs \<and> sk_in s' = sk_in s))"

lemma sends_U: "sends (\<lambda>s. writeU w s v) (be_bytes w v)"
  using writeU_takes by (simp add: sends_def)

lemma sends_string:
  "length bs \<le> m \<Longrightarrow> length bs < 256 ^ w \<Longrightarrow> sends (\<lambda>s. writeStringEx w s bs m) (be_bytes w (length bs) @ bs)"
  using writeStringEx_takes by (simp add: sends_def)

lemma write_all_takes:
  assumes "sk_takes s" "list_all2 sends fs bss"
  shows "sk_takes (write_all fs s) \<and> sk_out (write_all fs s) = sk_out s @ concat bss \<and> sk_in (write_all fs s) = sk_in s"
  using assms(2,1)
proof (induction arbitrary: s rule: list_all2_induct)
  case (Cons f fs bs bss)
  then obtain s' where "f s = (s', True)" "sk_takes s'" "sk_out s' = sk_out s @ bs" "sk_in s' = sk_in s"
    unfolding sends_def by blast
  then show ?case using Cons.IH by simp
qed simp

lemma length_to_bytes [simp]: "length (to_bytes s) = length s"
  by (simp add: to_bytes_def)

definition query_frame :: "nat \<Rightarrow> string \<Rightarrow> string \<Rightarrow> byte list" where
  "query_frame requestId methodName output = be_bytes 1 (of_char CHR ''Q'') @ be_bytes 8 requestId @
     (be_bytes 1 (length methodName) @ to_bytes methodName) @ (be_bytes 4 (length output) @ to_bytes output)"

definition answer_frame :: "nat \<Rightarrow> nat \<Rightarrow> string \<Rightarrow> byte list" where
  "answer_frame requestId execution answer = be_bytes 1 (of_char CHR ''A'') @ be_bytes 8 requestId @ be_bytes 1 execution @
     (be_bytes 4 (length answer) @ to_bytes answer)"

lemma sends_text: "length x \<le> m \<Longrightarrow> length x < 256 ^ w \<Longrightarrow>
    sends (\<lambda>s. writeStringEx w s (to_bytes x) m) (be_bytes w (length x) @ to_bytes x)"
  using sends_string [of "to_bytes x" m w] by simp

lemma send_query_frame:
  assumes "sk_takes s" "length methodName \<le> 254" "length output \<le> maxMessageSize C" "maxMessageSize C < 2 ^ 32"
  shows "sk_takes (send_query C s requestId methodName output) \<and>
    sk_out (send_query C s requestId methodName output) = sk_out s @ query_frame requestId methodName output \<and>
    sk_in (send_query C s requestId methodName output) = sk_in s"
proof -
  have "list_all2 sends [\<lambda>s. writeU 1 s (of_char CHR ''Q''), \<lambda>s. writeU 8 s requestId, \<lambda>s. writeStringEx 1 s (to_bytes methodName) 254,
      \<lambda>s. writeStringEx 4 s (to_bytes output) (maxMessageSize C)]
    [be_bytes 1 (of_char CHR ''Q''), be_bytes 8 requestId, be_bytes 1 (length methodName) @ to_bytes methodName,
      be_bytes 4 (length output) @ to_bytes output]"
    using assms by (simp add: sends_U sends_text del: be_bytes.simps One_nat_def)
  from write_all_takes [OF assms(1) this] show ?thesis
    by (simp add: send_query_def query_frame_def del: be_bytes.simps One_nat_def)
qed

lemma sendRPCAnswer_frame:
  assumes "sk_takes s" "length answer \<le> maxMessageSize C" "maxMessageSize C < 2 ^ 32"
  shows "sk_takes (sendRPCAnswer C s requestId answer execution) \<and>
    sk_out (sendRPCAnswer C s requestId answer execution) = sk_out s @ answer_frame requestId execution answer \<and>
    sk_in (sendRPCAnswer C s requestId answer execution) = sk_in s"
proof -
  have "list_all2 sends [\<lambda>s. writeU 1 s (of_char CHR ''A''), \<lambda>s. writeU 8 s requestId, \<lambda>s. writeU 1 s execution,
      \<lambda>s. writeStringEx 4 s (to_bytes (if length answer \<le> maxMessageSize C then answer else [])) (maxMessageSize C)]
    [be_bytes 1 (of_char CHR ''A''), be_bytes 8 requestId, be_bytes 1 execution,
      be_bytes 4 (length answer) @ to_bytes answer]"
    using assms by (simp add: sends_U sends_text del: be_bytes.simps One_nat_def)
  from write_all_takes [OF assms(1) this] show ?thesis
    using assms(2) by (simp add: sendRPCAnswer_def answer_frame_def del: be_bytes.simps One_nat_def)
qed


subsection \<open>The loop of a connection\<close>

text \<open>One frame. The result of the loop so far, and the task of a query.\<close>

definition process_frame :: "fast_config \<Rightarrow> bool \<Rightarrow> fast_connection \<Rightarrow> socket \<Rightarrow> fast_connection \<times> socket \<times> fast_task option \<times> int" where
  "process_frame C pushed c s =
     (let (s1, t, readOK) = readU 1 s in
      if t = of_char CHR ''A'' then (let (c', s2, ret) = processAnswer C c s1 in (c', s2, None, ret))
      else if t = of_char CHR ''Q'' then (let (s2, task, ret) = processQuery C pushed s1 in (c, s2, task, ret))
      else if t = 0 then (c, s1, None, if readOK then 0 else -101)
      else (c, s1, None, -100))"

lemma readFull_loop_rest: "readFull_loop s n cur = (s', bs, k, r) \<Longrightarrow> length cur \<le> length bs \<and>
    length bs + length (sk_rest s') \<le> length cur + length (sk_rest s)"
proof (induction s n cur arbitrary: s' bs k r rule: readFull_loop.induct)
  case (1 s n cur)
  have p: "length (case x of None \<Rightarrow> [] | Some bs \<Rightarrow> bs) + length (sk_rest t) \<le> length (sk_rest s)"
    if "partialRead s m = (t, x)" for m t x
    using that by (auto simp: partialRead_def sk_rest_def split: if_splits list.splits)
  show ?case
  proof (cases "length cur < n")
    case True
    obtain t x where tx: "partialRead s (min 4096 (n - length cur)) = (t, x)" by fastforce
    show ?thesis
    proof (cases "x = None \<or> x = Some []")
      case True
      then show ?thesis using 1(2) tx p [OF tx] \<open>length cur < n\<close> by (auto simp: readFull_loop.simps [of s n cur])
    next
      case False
      then obtain y where y: "x = Some y" "y \<noteq> []" by auto
      then have "readFull_loop t n (cur @ y) = (s', bs, k, r)" using 1(2) tx True by (simp add: readFull_loop.simps [of s n cur])
      from 1(1) [OF True tx [symmetric] y this] p [OF tx] y show ?thesis by simp
    qed
  qed (use 1(2) in \<open>simp add: readFull_loop.simps [of s n cur]\<close>)
qed

lemma readFull_rest: "readFull s n = (s', bs, k, r) \<Longrightarrow> length bs + length (sk_rest s') \<le> length (sk_rest s)"
  using readFull_loop_rest [of s n "[]" s' bs k r] by (auto simp: readFull_def split: if_splits)

lemma readFull_loop_whole: "readFull_loop s n cur = (s', bs, k, True) \<Longrightarrow> n \<le> length bs"
proof (induction s n cur arbitrary: s' bs k rule: readFull_loop.induct)
  case (1 s n cur)
  show ?case
  proof (cases "length cur < n")
    case True
    obtain t x where tx: "partialRead s (min 4096 (n - length cur)) = (t, x)" by fastforce
    then obtain y where y: "x = Some y" "y \<noteq> []" "readFull_loop t n (cur @ y) = (s', bs, k, True)"
      using 1(2) True by (cases x) (auto simp: readFull_loop.simps [of s n cur] split: if_splits)
    from 1(1) [OF True tx [symmetric] y] show ?thesis .
  qed (use 1(2) in \<open>simp add: readFull_loop.simps [of s n cur]\<close>)
qed

lemma sk_rest_shutdown [simp]: "sk_rest (shutdownSocket s) = sk_rest s"
  by (simp add: shutdownSocket_def sk_rest_def)

lemma readU_rest: "readU w s = (s', v, r) \<Longrightarrow> length (sk_rest s') \<le> length (sk_rest s) \<and> (r \<longrightarrow> length (sk_rest s') + w \<le> length (sk_rest s))"
  using readFull_rest [of s w] readFull_loop_whole [of s w "[]"]
  by (auto simp: readU_def readU_raw_def readFull_def split: if_splits prod.splits)


lemma readBlockWAllocEx_rest: "readBlockWAllocEx w s m = (s', r) \<Longrightarrow> length (sk_rest s') \<le> length (sk_rest s)"
  using readU_rest [of w s] readFull_rest
  by (fastforce simp: readBlockWAllocEx_def split: if_splits prod.splits)

lemma readStringEx_rest: "readStringEx w s m = (s', r) \<Longrightarrow> length (sk_rest s') \<le> length (sk_rest s)"
  using readBlockWAllocEx_rest [of w s m] by (auto simp: readStringEx_def split: prod.splits option.splits)

lemma write_all_rest:
  assumes "\<And>f s. f \<in> set fs \<Longrightarrow> sk_rest (fst (f s)) = sk_rest s"
  shows "sk_rest (write_all fs s) = sk_rest s"
  using assms
proof (induction fs arbitrary: s)
  case (Cons f fs)
  obtain s' ok where "f s = (s', ok)" by fastforce
  then show ?case using Cons.prems [of f s] Cons.IH [of s'] Cons.prems by auto
qed simp

lemma partialWrite_rest: "partialWrite s bs = (s', k) \<Longrightarrow> sk_rest s' = sk_rest s"
  by (auto simp: partialWrite_def sk_rest_def split: if_splits list.splits)

lemma writeFull_rest: "sk_rest (fst (writeFull s bs)) = sk_rest s"
proof (induction s bs rule: writeFull.induct)
  case (1 s bs)
  obtain t k where t: "partialWrite s (take 4096 bs) = (t, k)" by fastforce
  show ?case
  proof (cases "bs = [] \<or> k = 0")
    case True
    then show ?thesis using t partialWrite_rest [OF t] by (auto simp: writeFull.simps [of s bs])
  next
    case False
    then show ?thesis using 1 [OF _ refl t [symmetric]] t partialWrite_rest [OF t] by (simp add: writeFull.simps [of s bs])
  qed
qed

lemma writeU_rest: "sk_rest (fst (writeU w s v)) = sk_rest s"
  using writeFull_rest [of s "be_bytes w v"] by (auto simp: writeU_def writeU_raw_def split: prod.splits)

lemma writeStringEx_rest: "sk_rest (fst (writeStringEx w s bs m)) = sk_rest s"
proof -
  obtain s1 ok where s1: "writeU_raw w s (length bs mod 256 ^ w) = (s1, ok)" by fastforce
  obtain s2 r where s2: "writeFull s1 (take (length bs mod 256 ^ w) bs) = (s2, r)" by fastforce
  have "sk_rest s1 = sk_rest s" "sk_rest s2 = sk_rest s1"
    using writeFull_rest [of s] writeFull_rest [of s1] s1 s2 by (metis fst_conv writeU_raw_def)+
  then show ?thesis using s1 s2 by (simp add: writeStringEx_def writeBlockEx_def Let_def)
qed

lemma sendRPCAnswer_rest: "sk_rest (sendRPCAnswer C s n a e) = sk_rest s"
  unfolding sendRPCAnswer_def by (rule write_all_rest) (auto simp: writeU_rest writeStringEx_rest simp del: be_bytes.simps One_nat_def)

lemma processAnswer_rest: "processAnswer C c s = (c', s', r) \<Longrightarrow> length (sk_rest s') \<le> length (sk_rest s)"
  using readU_rest [of 8 s] readU_rest [of 1] readBlockWAllocEx_rest [of 4]
  by (fastforce simp: processAnswer_def split: prod.splits option.splits if_splits)

lemma processQuery_rest: "processQuery C p s = (s', t, r) \<Longrightarrow> length (sk_rest s') \<le> length (sk_rest s)"
  using readU_rest [of 8 s] readStringEx_rest [of 1] readBlockWAllocEx_rest [of 4] sendRPCAnswer_rest
  by (fastforce simp: processQuery_def split: prod.splits option.splits if_splits)


lemma readU_byte:
  assumes "readU 1 s = (s', v, r)" "v \<noteq> 0"
  shows "length (sk_rest s') < length (sk_rest s)"
proof -
  obtain t bs k ok where f: "readFull s 1 = (t, bs, k, ok)" by (metis surj_pair)
  with assms have v: "v = be_nat (bs @ replicate (1 - length bs) 0)" and t: "sk_rest s' = sk_rest t"
    by (auto simp: readU_def readU_raw_def Let_def split: if_splits)
  have "bs \<noteq> []" using v assms(2) by (auto simp: be_nat_def)
  then show ?thesis using readFull_rest [OF f] t by (cases bs) auto
qed

lemma process_frame_rest: "process_frame C p c s = (c', s', t, ret) \<Longrightarrow> 0 < ret \<Longrightarrow> length (sk_rest s') < length (sk_rest s)"
  using readU_byte [of s] processAnswer_rest processQuery_rest
  by (fastforce simp: process_frame_def split: prod.splits if_splits)

text \<open>\<^verbatim>\<open>env\<close> is what the callers do to the tables between two frames, \<^verbatim>\<open>pool\<close> whether the pool takes the task of
  a frame. The tasks are in the order of their queries.\<close>

function connection_loop :: "fast_config \<Rightarrow> (nat \<Rightarrow> bool) \<Rightarrow> (nat \<Rightarrow> fast_connection \<Rightarrow> fast_connection) \<Rightarrow> nat \<Rightarrow>
    fast_connection \<Rightarrow> socket \<Rightarrow> fast_connection \<times> socket \<times> fast_task list \<times> int" where
  "connection_loop C pool env i c s =
     (let (c', s', task, ret) = process_frame C (pool i) (env i c) s in
      if 0 < ret
      then let (c'', s'', tasks, ret') = connection_loop C pool env (Suc i) c' s' in
        (c'', s'', (case task of None \<Rightarrow> tasks | Some t \<Rightarrow> t # tasks), ret')
      else (c', s', [], ret))"
  by pat_completeness auto
termination
  by (relation "measure (\<lambda>(C, pool, env, i, c, s). length (sk_rest s))") (auto dest!: process_frame_rest [OF sym])

declare connection_loop.simps [simp del]

text \<open>\<^verbatim>\<open>added\<close>: no other connection has the key.\<close>

definition processConnection :: "fast_config \<Rightarrow> (nat \<Rightarrow> bool) \<Rightarrow> (nat \<Rightarrow> fast_connection \<Rightarrow> fast_connection) \<Rightarrow> bool \<Rightarrow> socket \<Rightarrow>
    (fast_connection \<times> socket \<times> fast_task list) option \<times> int" where
  "processConnection C pool env added s =
     (if \<not> added then (None, -2)
      else let (c, s', tasks, ret) = connection_loop C pool env 0 FastRPC_Connection_new s in
        (Some (c\<lparr>terminated := True\<rparr>, shutdownSocket s', tasks), ret))"

subsection \<open>Messages\<close>

datatype fast_frame = Query nat string string | Answer nat nat string

fun frame_bytes :: "fast_frame \<Rightarrow> byte list" where
  "frame_bytes (Query n m x) = query_frame n m x"
| "frame_bytes (Answer n e x) = answer_frame n e x"

fun good_frame :: "fast_config \<Rightarrow> fast_frame \<Rightarrow> bool" where
  "good_frame C (Query n m x) \<longleftrightarrow> 0 < n \<and> n < 2 ^ 64 \<and> length m \<le> 254 \<and> length x \<le> maxMessageSize C \<and> CHR 0x00 \<notin> set x \<and> fc_parse C x \<noteq> None"
| "good_frame C (Answer n e x) \<longleftrightarrow> 0 < n \<and> n < 2 ^ 64 \<and> e < 256 \<and> length x \<le> maxMessageSize C \<and> CHR 0x00 \<notin> set x"

text \<open>What a connection does with the messages, without their bytes.\<close>

fun take_frames :: "fast_config \<Rightarrow> (nat \<Rightarrow> bool) \<Rightarrow> (nat \<Rightarrow> fast_connection \<Rightarrow> fast_connection) \<Rightarrow> nat \<Rightarrow> fast_connection \<Rightarrow>
    fast_frame list \<Rightarrow> fast_connection \<times> fast_task list" where
  "take_frames C pool env i c [] = (env i c, [])"
| "take_frames C pool env i c (Query n m x # fs) =
     (let (c', tasks) = take_frames C pool env (Suc i) (env i c) fs in
      (c', if pool i then \<lparr>ft_requestId = n, ft_methodName = m, ft_payload = the (fc_parse C x)\<rparr> # tasks else tasks))"
| "take_frames C pool env i c (Answer n e x # fs) =
     take_frames C pool env (Suc i) (fst (store_answer (env i c) n e (fc_parse C x))) fs"

lemma zero_char: "(word_of_nat (of_char a) :: byte) = 0 \<Longrightarrow> a = CHR 0x00"
  using of_bytes_to_bytes [of "[a]"] by (simp add: to_bytes_def of_bytes_def char_of_def)

lemma c_text_bytes: "CHR 0x00 \<notin> set x \<Longrightarrow> c_text (to_bytes x) = x"
proof -
  assume "CHR 0x00 \<notin> set x"
  then have "takeWhile (\<lambda>b. b \<noteq> 0) (to_bytes x) = to_bytes x"
    by (induction x) (auto simp: to_bytes_def dest: zero_char)
  then show ?thesis by (simp add: c_text_def del: takeWhile_eq_all_conv)
qed

text \<open>What is left of the connection after a frame.\<close>

definition sk_after :: "byte list \<Rightarrow> socket \<Rightarrow> bool" where
  "sk_after r s' \<longleftrightarrow> sk_ready s' \<and> sk_takes s' \<and> sk_rest s' = r"

lemma sk_afterI: "sk_takes s \<Longrightarrow> sk_ready s' \<Longrightarrow> sk_rest s' = r \<Longrightarrow> sk_accepts s' = sk_accepts s \<Longrightarrow> sk_after r s'"
  by (simp add: sk_after_def sk_takes_def sk_ready_def)

lemma readU_after:
  assumes "sk_after (be_bytes w v @ r) s" "v < 256 ^ w"
  obtains s' where "readU w s = (s', v, True)" "sk_after r s'"
  using readU_ready [of s w v r] assms sk_afterI [of s] unfolding sk_after_def by (metis)

lemma readBlock_after:
  assumes "sk_after (be_bytes w (length x) @ to_bytes x @ r) s" "length x < 256 ^ w" "length x \<le> m"
  obtains s' where "readBlockWAllocEx w s m = (s', Some (to_bytes x))" "sk_after r s'"
  using readBlockWAllocEx_ready [of s w "to_bytes x" r m] assms sk_afterI [of s] unfolding sk_after_def
  by (metis length_to_bytes)

lemma readString_after:
  assumes "sk_after (be_bytes w (length x) @ to_bytes x @ r) s" "length x < 256 ^ w" "length x \<le> m"
  obtains s' where "readStringEx w s m = (s', to_bytes x, True)" "sk_after r s'"
  by (rule readBlock_after [OF assms]) (use that in \<open>simp add: readStringEx_def\<close>)

lemma sendRPCAnswer_after:
  assumes "sk_after r s" "maxMessageSize C < 2 ^ 32"
  shows "sk_after r (sendRPCAnswer C s n [] e)"
  using sendRPCAnswer_frame [of s "[]" C n e] assms by (auto simp: sk_after_def sk_takes_def sk_ready_def sk_rest_def)

lemma frame_answer:
  assumes "sk_after (answer_frame n e x @ r) s" "good_frame C (Answer n e x)" "maxMessageSize C < 2 ^ 32"
  shows "\<exists>s'. process_frame C p c s = (fst (store_answer c n e (fc_parse C x)), s', None, 1) \<and> sk_after r s'"
proof -
  have g: "0 < n" "n < 2 ^ 64" "e < 256" "length x \<le> maxMessageSize C" "CHR 0x00 \<notin> set x" using assms(2) by auto
  have "sk_after (be_bytes 1 (of_char CHR ''A'') @ be_bytes 8 n @ be_bytes 1 e @ be_bytes 4 (length x) @ to_bytes x @ r) s"
    using assms(1) by (simp add: answer_frame_def del: be_bytes.simps One_nat_def)
  then obtain s1 where s1: "readU 1 s = (s1, of_char CHR ''A'', True)"
    "sk_after (be_bytes 8 n @ be_bytes 1 e @ be_bytes 4 (length x) @ to_bytes x @ r) s1"
    by (rule readU_after) auto
  obtain s2 where s2: "readU 8 s1 = (s2, n, True)" "sk_after (be_bytes 1 e @ be_bytes 4 (length x) @ to_bytes x @ r) s2"
    by (rule readU_after [OF s1(2)]) (use g in auto)
  obtain s3 where s3: "readU 1 s2 = (s3, e, True)" "sk_after (be_bytes 4 (length x) @ to_bytes x @ r) s3"
    by (rule readU_after [OF s2(2)]) (use g in auto)
  obtain s4 where "readBlockWAllocEx 4 s3 (maxMessageSize C) = (s4, Some (to_bytes x))" "sk_after r s4"
    by (rule readBlock_after [OF s3(2), of "maxMessageSize C"]) (use g assms(3) in auto)
  then show ?thesis using s1(1) s2(1) s3(1) g(1,5)
    by (simp add: process_frame_def processAnswer_def c_text_bytes del: One_nat_def)
qed

lemma frame_query:
  assumes "sk_after (query_frame n m x @ r) s" "good_frame C (Query n m x)" "maxMessageSize C < 2 ^ 32"
  shows "\<exists>s'. process_frame C p c s = (c, s',
    if p then Some \<lparr>ft_requestId = n, ft_methodName = m, ft_payload = the (fc_parse C x)\<rparr> else None, 1) \<and> sk_after r s'"
proof -
  obtain j where g: "0 < n" "n < 2 ^ 64" "length m \<le> 254" "length x \<le> maxMessageSize C" "CHR 0x00 \<notin> set x" "fc_parse C x = Some j"
    using assms(2) by auto
  have "sk_after (be_bytes 1 (of_char CHR ''Q'') @ be_bytes 8 n @ be_bytes 1 (length m) @ to_bytes m @ be_bytes 4 (length x) @ to_bytes x @ r) s"
    using assms(1) by (simp add: query_frame_def del: be_bytes.simps One_nat_def)
  then obtain s1 where s1: "readU 1 s = (s1, of_char CHR ''Q'', True)"
    "sk_after (be_bytes 8 n @ be_bytes 1 (length m) @ to_bytes m @ be_bytes 4 (length x) @ to_bytes x @ r) s1"
    by (rule readU_after) auto
  obtain s2 where s2: "readU 8 s1 = (s2, n, True)" "sk_after (be_bytes 1 (length m) @ to_bytes m @ be_bytes 4 (length x) @ to_bytes x @ r) s2"
    by (rule readU_after [OF s1(2)]) (use g in auto)
  obtain s3 where s3: "readStringEx 1 s2 254 = (s3, to_bytes m, True)" "sk_after (be_bytes 4 (length x) @ to_bytes x @ r) s3"
    by (rule readString_after [OF s2(2), of 254]) (use g in auto)
  obtain s4 where s4: "readBlockWAllocEx 4 s3 (maxMessageSize C) = (s4, Some (to_bytes x))" "sk_after r s4"
    by (rule readBlock_after [OF s3(2), of "maxMessageSize C"]) (use g assms(3) in auto)
  show ?thesis using s1(1) s2(1) s3(1) s4 g(1,5,6) sendRPCAnswer_after [OF s4(2) assms(3)]
    by (simp add: process_frame_def processQuery_def c_text_bytes del: One_nat_def)
qed

text \<open>Whole frames, cut into any pieces, are the messages they were made from.\<close>

lemma connection_loop_frames:
  assumes "sk_after (concat (map frame_bytes fs) @ [0] @ r) s" "\<forall>f\<in>set fs. good_frame C f" "maxMessageSize C < 2 ^ 32"
  shows "\<exists>s'. connection_loop C pool env i c s = (fst (take_frames C pool env i c fs), s', snd (take_frames C pool env i c fs), 0) \<and>
    sk_after r s'"
  using assms(1,2)
proof (induction fs arbitrary: i c s)
  case Nil
  then have "sk_after (be_bytes 1 0 @ r) s" by simp
  then obtain s' where s': "readU 1 s = (s', 0, True)" "sk_after r s'" by (rule readU_after) simp
  then have "process_frame C (pool i) (env i c) s = (env i c, s', None, 0)" by (simp add: process_frame_def del: One_nat_def)
  then show ?case using s'(2) by (simp add: connection_loop.simps)
next
  case (Cons f fs)
  let ?r = "concat (map frame_bytes fs) @ [0] @ r"
  have f: "sk_after (frame_bytes f @ ?r) s" "good_frame C f" using Cons.prems by auto
  show ?case
  proof (cases f)
    case (Query n m x)
    then obtain s1 where s1: "process_frame C (pool i) (env i c) s = (env i c, s1,
      if pool i then Some \<lparr>ft_requestId = n, ft_methodName = m, ft_payload = the (fc_parse C x)\<rparr> else None, 1)" "sk_after ?r s1"
      using frame_query [of n m x ?r s C "pool i" "env i c"] f assms(3) by auto
    from Cons.IH [OF s1(2), of "Suc i" "env i c"] Cons.prems(2) obtain s2 where
      "connection_loop C pool env (Suc i) (env i c) s1 = (fst (take_frames C pool env (Suc i) (env i c) fs), s2,
        snd (take_frames C pool env (Suc i) (env i c) fs), 0)" "sk_after r s2" by auto
    then show ?thesis using s1(1) unfolding Query by (simp add: connection_loop.simps [of _ _ _ i] split_beta Let_def)
  next
    case (Answer n e x)
    then obtain s1 where s1: "process_frame C (pool i) (env i c) s = (fst (store_answer (env i c) n e (fc_parse C x)), s1, None, 1)" "sk_after ?r s1"
      using frame_answer [of n e x ?r s C "pool i" "env i c"] f assms(3) by auto
    from Cons.IH [OF s1(2)] Cons.prems(2) s1(1) show ?thesis unfolding Answer
      by (fastforce simp: connection_loop.simps [of _ _ _ i] split: prod.splits)
  qed
qed


subsection \<open>Properties of a connection\<close>

text \<open>A query and its answer: the bytes that \<^verbatim>\<open>send_query\<close> puts on one side are the task of the other, and the bytes of
  its answer are stored by the first.\<close>

lemma executed_answer:
  assumes "sk_takes s" "length (fc_writer C (fst (runLocalRPCMethod methods (ft_methodName t) key data (ft_payload t)))) \<le> maxMessageSize C"
    "maxMessageSize C < 2 ^ 32"
  shows "sk_out (executeRPCTask C methods key data t s) = sk_out s @ frame_bytes (Answer (ft_requestId t)
    (if methods (ft_methodName t) = None then 4 else 2) (fc_writer C (fst (runLocalRPCMethod methods (ft_methodName t) key data (ft_payload t)))))"
proof -
  obtain r found where r: "runLocalRPCMethod methods (ft_methodName t) key data (ft_payload t) = (r, found)" by fastforce
  then have "found \<longleftrightarrow> methods (ft_methodName t) \<noteq> None" by (auto simp: runLocalRPCMethod_def split: option.splits)
  then show ?thesis using sendRPCAnswer_frame [of s "fc_writer C r" C "ft_requestId t"] assms r by (auto simp: executeRPCTask_def)
qed

lemma process_frame_ret: "process_frame C p c s = (c', s', t, ret) \<Longrightarrow> ret \<in> {1, 0, -1, -2, -3, -100, -101}"
  by (auto simp: process_frame_def processAnswer_def processQuery_def Let_def split: prod.splits if_splits option.splits)

lemma connection_loop_ret: "connection_loop C pool env i c s = (c', s', ts, ret) \<Longrightarrow> ret \<in> {0, -1, -2, -3, -100, -101}"
proof (induction C pool env i c s arbitrary: c' s' ts ret rule: connection_loop.induct)
  case (1 C pool env i c s)
  obtain c1 s1 t r where f: "process_frame C (pool i) (env i c) s = (c1, s1, t, r)" by (metis surj_pair)
  show ?case
  proof (cases "0 < r")
    case True
    obtain c2 s2 ts2 r2 where l: "connection_loop C pool env (Suc i) c1 s1 = (c2, s2, ts2, r2)" by (metis surj_pair)
    show ?thesis using 1(1) [OF f [symmetric] refl refl refl True l] 1(2) f l True by (simp add: connection_loop.simps [of _ _ _ i])
  next
    case False
    then show ?thesis using process_frame_ret [OF f] 1(2) f by (auto simp: connection_loop.simps [of _ _ _ i])
  qed
qed

text \<open>whatever bytes arrive, split in whatever way, the loop of \<^verbatim>\<open>processConnection\<close> ends: with zero or one of the
  negative codes, the socket shut and the connection marked as terminated.\<close>

theorem processConnection_ends:
  "\<exists>c s' tasks ret. processConnection C pool env True s = (Some (c, s', tasks), ret) \<and> ret \<in> {0, -1, -2, -3, -100, -101} \<and>
     terminated c \<and> sk_shut s'"
proof -
  obtain c s' ts ret where l: "connection_loop C pool env 0 FastRPC_Connection_new s = (c, s', ts, ret)" by (metis surj_pair)
  from connection_loop_ret [OF l] l show ?thesis by (auto simp: processConnection_def shutdownSocket_def)
qed

text \<open>C32: a connection refines its messages: when the bytes that arrive, in pieces of any size, are frames of well-formed
  messages and then a zero byte, \<^verbatim>\<open>processConnection\<close> hands out exactly the tasks of the queries, in their order, stores
  exactly the answers, and returns zero.\<close>

theorem connection_refines_messages:
  assumes "sk_takes s" "sk_ready s" "sk_rest s = concat (map frame_bytes fs) @ 0 # r" "\<forall>f\<in>set fs. good_frame C f"
    "maxMessageSize C < 2 ^ 32" "take_frames C pool env 0 FastRPC_Connection_new fs = (c, tasks)"
  shows "\<exists>s'. processConnection C pool env True s = (Some (c\<lparr>terminated := True\<rparr>, s', tasks), 0)"
proof -
  have "sk_after (concat (map frame_bytes fs) @ [0] @ r) s" using assms(1-3) by (simp add: sk_after_def)
  from connection_loop_frames [OF this assms(4,5), of pool env 0 FastRPC_Connection_new] assms(6) show ?thesis
    by (auto simp: processConnection_def)
qed

definition demo_parse :: "string \<Rightarrow> json option" where
  "demo_parse x = (if x = ''null'' then Some JsonNull else None)"

definition demo_config :: fast_config where
  "demo_config = \<lparr>fc_parse = demo_parse, fc_writer = (\<lambda>_. ''null''), maxMessageSize = 100\<rparr>"

definition demo_socket :: socket where
  "demo_socket = \<lparr>sk_in = [[0x51, 0, 0, 0], [0, 0, 0, 0, 7, 1, 0x6D], [0, 0, 0, 4, 0x6E, 0x75], [0x6C, 0x6C, 0]],
     sk_readError = False, sk_out = [], sk_accepts = [2], sk_shut = False\<rparr>"

lemma demo_frame: "query_frame 7 ''m'' ''null'' = [0x51, 0, 0, 0, 0, 0, 0, 0, 7, 1, 0x6D, 0, 0, 0, 4, 0x6E, 0x75, 0x6C, 0x6C]"
  by code_simp

lemma connection_refines_messages_witness:
  "\<exists>s'. processConnection demo_config (\<lambda>_. True) (\<lambda>_ c. c) True demo_socket =
     (Some (FastRPC_Connection_new\<lparr>terminated := True\<rparr>, s', [\<lparr>ft_requestId = 7, ft_methodName = ''m'', ft_payload = JsonNull\<rparr>]), 0)"
proof (rule connection_refines_messages [where fs = "[Query 7 ''m'' ''null'']" and r = "[]"])
  show "sk_rest demo_socket = concat (map frame_bytes [Query 7 ''m'' ''null'']) @ [0]"
    by (simp add: demo_frame demo_socket_def sk_rest_def)
qed (simp_all add: demo_config_def demo_parse_def demo_socket_def sk_takes_def sk_ready_def)


text \<open>C33: a call goes there and back: when both sides take what is written, the bytes that the caller sends, cut into any
  pieces, give the other side the task of this call, and the bytes of its answer, cut into any pieces, store the value
  of the method under the number of the call, with status 2, or 4 when there is no such method. This is for values that
  JSON text gives back, without zero bytes and within the limits.\<close>

theorem fast_call_round_trip:
  assumes n: "0 < n" "n < 2 ^ 64" and m: "length m \<le> 254" "maxMessageSize C < 2 ^ 32"
    and json: "\<forall>j\<in>{payload, fst (runLocalRPCMethod methods m key data payload)}.
      fc_parse C (fc_writer C j) = Some j \<and> CHR 0x00 \<notin> set (fc_writer C j) \<and> length (fc_writer C j) \<le> maxMessageSize C"
    and sent: "sk_takes a" "sk_out (send_query C a n m (fc_writer C payload)) = sk_out a @ q"
    and peer: "sk_takes b" "sk_ready b" "sk_rest b = q @ r"
    and pending: "n \<in> pendingRequests d"
  shows "\<exists>t b' ans. process_frame C True c b = (c, b', Some t, 1) \<and>
    sk_out (executeRPCTask C methods key data t b') = sk_out b' @ ans \<and>
    (\<forall>a' r'. sk_takes a' \<and> sk_ready a' \<and> sk_rest a' = ans @ r' \<longrightarrow>
      (\<exists>d' a''. process_frame C pushed d a' = (d', a'', None, 1) \<and>
        answers d' n = Some (fst (runLocalRPCMethod methods m key data payload)) \<and>
        executionStatus d' n = Some (if methods m = None then 4 else 2)))"
proof -
  let ?res = "fst (runLocalRPCMethod methods m key data payload)"
  let ?t = "\<lparr>ft_requestId = n, ft_methodName = m, ft_payload = payload\<rparr>"
  let ?e = "if methods m = None then 4 else 2 :: nat"
  have "q = query_frame n m (fc_writer C payload)"
    using send_query_frame [OF sent(1) m(1) _ m(2), of "fc_writer C payload" n] sent(2) json by simp
  then have "sk_after (query_frame n m (fc_writer C payload) @ r) b" using peer by (simp add: sk_after_def)
  from frame_query [OF this _ m(2), of True c] n m json obtain b' where b': "process_frame C True c b = (c, b', Some ?t, 1)" "sk_after r b'"
    by auto
  have out: "sk_out (executeRPCTask C methods key data ?t b') = sk_out b' @ answer_frame n ?e (fc_writer C ?res)"
    using executed_answer [of b' C methods ?t key data] b'(2) json m(2) by (simp add: sk_after_def)
  have "\<exists>d' a''. process_frame C pushed d a' = (d', a'', None, 1) \<and> answers d' n = Some ?res \<and> executionStatus d' n = Some ?e"
    if "sk_takes a'" "sk_ready a'" "sk_rest a' = answer_frame n ?e (fc_writer C ?res) @ r'" for a' r'
  proof -
    have "sk_after (answer_frame n ?e (fc_writer C ?res) @ r') a'" using that by (simp add: sk_after_def)
    from frame_answer [OF this _ m(2), of pushed d] n json pending show ?thesis by (auto simp: store_answer_def)
  qed
  with b'(1) out show ?thesis by blast
qed

definition demo_b :: socket where
  "demo_b = \<lparr>sk_in = [[0x51, 0, 0, 0], [0, 0, 0, 0, 7, 1, 0x6D], [0, 0, 0, 4, 0x6E, 0x75], [0x6C, 0x6C]],
     sk_readError = False, sk_out = [], sk_accepts = [2], sk_shut = False\<rparr>"

lemma fast_call_round_trip_witness:
  "\<exists>t b' ans. process_frame demo_config True FastRPC_Connection_new demo_b = (FastRPC_Connection_new, b', Some t, 1) \<and>
    sk_out (executeRPCTask demo_config [''m'' \<mapsto> \<lambda>_ _ p. p] ''k'' '''' t b') = sk_out b' @ ans"
proof -
  let ?d = "FastRPC_Connection_new\<lparr>pendingRequests := {7}\<rparr>" let ?a = "demo_b\<lparr>sk_accepts := []\<rparr>"
  have a: "sk_takes ?a" by (simp add: sk_takes_def demo_b_def)
  have "sk_out (send_query demo_config ?a 7 ''m'' (fc_writer demo_config JsonNull)) = sk_out ?a @ query_frame 7 ''m'' ''null''"
    using send_query_frame [OF a, of "''m''" "''null''" demo_config 7] by (simp add: demo_config_def)
  moreover have "\<forall>j\<in>{JsonNull, fst (runLocalRPCMethod [''m'' \<mapsto> \<lambda>_ _ p. p] ''m'' ''k'' '''' JsonNull)}.
      fc_parse demo_config (fc_writer demo_config j) = Some j \<and> CHR 0x00 \<notin> set (fc_writer demo_config j) \<and>
      length (fc_writer demo_config j) \<le> maxMessageSize demo_config"
    by (simp add: runLocalRPCMethod_def demo_config_def demo_parse_def)
  moreover have "sk_takes demo_b" "sk_ready demo_b" "sk_rest demo_b = query_frame 7 ''m'' ''null'' @ []"
    by (simp_all add: sk_takes_def sk_ready_def sk_rest_def demo_b_def demo_frame)
  ultimately show ?thesis
    using fast_call_round_trip [of 7 "''m''" demo_config JsonNull "[''m'' \<mapsto> \<lambda>_ _ p. p]" "''k''" "''''" ?a
        "query_frame 7 ''m'' ''null''" demo_b "[]" ?d FastRPC_Connection_new True] a
    by (auto simp: demo_config_def)
qed

end
