(* ===== verification/Fast_Calls.thy ===== *)
theory Fast_Calls
  imports Fast_Rpc
begin

text \<open>
  \<^verbatim>\<open>FastRPC::runRemoteRPCMethod\<close> of \<^verbatim>\<open>RPC/mdz_xrpc_fast/fastrpc.cpp\<close>: callers that share one connection with the thread
  that reads it. A step of a caller is one section under a mutex of the connection. The reader is any sequence of answers,
  followed by the end of the connection.
\<close>

subsection \<open>How a call ends\<close>

datatype outcome = PayloadTooLong | PeerNotConnected | CallTimedOut | Answered nat json | ConnectionTerminated

record call_error =
  ce_succeed :: bool
  ce_errorId :: "nat option"
  ce_errorMessage :: "string option"

text \<open>What a fresh \<^verbatim>\<open>error\<close> has after the call.\<close>

fun outcome_error :: "outcome \<Rightarrow> call_error" where
  "outcome_error PayloadTooLong = \<lparr>ce_succeed = False, ce_errorId = Some 1, ce_errorMessage = Some ''Payload exceed the Maximum Message Size.''\<rparr>"
| "outcome_error PeerNotConnected = \<lparr>ce_succeed = False, ce_errorId = Some 2, ce_errorMessage = Some ''Abort after remote peer not found/connected.''\<rparr>"
| "outcome_error CallTimedOut = \<lparr>ce_succeed = False, ce_errorId = Some 3, ce_errorMessage = Some ''Remote Execution Timed Out: No Answer Received.''\<rparr>"
| "outcome_error (Answered status r) =
     (if status = 2 then \<lparr>ce_succeed = True, ce_errorId = Some 0, ce_errorMessage = Some ''Execution OK.''\<rparr>
      else if status = 3 then \<lparr>ce_succeed = False, ce_errorId = Some 4, ce_errorMessage = Some ''Remote Execution Failed: Full Queue.''\<rparr>
      else if status = 4 then \<lparr>ce_succeed = False, ce_errorId = Some 5, ce_errorMessage = Some ''Remote Execution Failed: Method Not Found.''\<rparr>
      else \<lparr>ce_succeed = False, ce_errorId = None, ce_errorMessage = None\<rparr>)"
| "outcome_error ConnectionTerminated = \<lparr>ce_succeed = False, ce_errorId = Some 6, ce_errorMessage = Some ''Connection is terminated: No Answer Received.''\<rparr>"

fun outcome_result :: "outcome \<Rightarrow> json" where
  "outcome_result (Answered status r) = r"
| "outcome_result _ = JsonNull"

subsection \<open>The sections of a call\<close>

text \<open>The search for the connection: \<^verbatim>\<open>opens i\<close> tells whether the try number i finds it.\<close>

function find_peer :: "(nat \<Rightarrow> bool) \<Rightarrow> nat \<Rightarrow> bool \<Rightarrow> nat \<Rightarrow> bool" where
  "find_peer opens remoteExecutionDisconnectedTries retryIfDisconnected tries =
     (if opens tries then True
      else if Suc tries \<ge> remoteExecutionDisconnectedTries \<or> \<not> retryIfDisconnected then False
      else find_peer opens remoteExecutionDisconnectedTries retryIfDisconnected (Suc tries))"
  by pat_completeness auto
termination by (relation "measure (\<lambda>(opens, n, retry, tries). n - tries)") auto

declare find_peer.simps [simp del]

text \<open>None: the call goes on.\<close>

definition call_start :: "fast_config \<Rightarrow> string \<Rightarrow> (nat \<Rightarrow> bool) \<Rightarrow> nat \<Rightarrow> bool \<Rightarrow> outcome option" where
  "call_start C output opens maxTries retry =
     (if length output > maxMessageSize C then Some PayloadTooLong
      else if \<not> find_peer opens maxTries retry 0 then Some PeerNotConnected else None)"

definition take_number :: "fast_connection \<Rightarrow> fast_connection \<times> nat" where
  "take_number c = (c\<lparr>requestIdCounter := (requestIdCounter c + 1) mod 2 ^ 64\<rparr>, requestIdCounter c)"

definition authorize_answer :: "fast_connection \<Rightarrow> nat \<Rightarrow> fast_connection" where
  "authorize_answer c requestId = c\<lparr>pendingRequests := insert requestId (pendingRequests c)\<rparr>"

text \<open>After a wait that did not time out; None: it waits again.\<close>

definition look_for_answer :: "fast_connection \<Rightarrow> nat \<Rightarrow> outcome option" where
  "look_for_answer c requestId =
     (case answers c requestId of
        Some r \<Rightarrow> Some (Answered (case executionStatus c requestId of Some e \<Rightarrow> e | None \<Rightarrow> 0) r)
      | None \<Rightarrow> if terminated c then Some ConnectionTerminated else None)"

definition revoke_answer :: "fast_connection \<Rightarrow> nat \<Rightarrow> fast_connection" where
  "revoke_answer c requestId = c\<lparr>answers := (answers c)(requestId := None), executionStatus := (executionStatus c)(requestId := None),
     pendingRequests := pendingRequests c - {requestId}\<rparr>"

definition runRemoteClose :: "socket option \<Rightarrow> socket option \<times> bool" where
  "runRemoteClose connection = (case connection of None \<Rightarrow> (None, False) | Some s \<Rightarrow> (Some (fst (writeU 1 s 0)), False))"

subsection \<open>Callers and reader\<close>

datatype caller = Idle | Numbered nat | Registered nat | Ready nat | Waiting nat | Woken nat | Cleanup nat outcome | Finished nat outcome

fun fc_asleep :: "caller \<Rightarrow> bool" where
  "fc_asleep (Waiting n) = True"
| "fc_asleep _ = False"

fun fc_awake :: "caller \<Rightarrow> caller" where
  "fc_awake (Waiting n) = Woken n"
| "fc_awake p = p"

datatype reader = Reading | AtEnd | Signalled

text \<open>\<^verbatim>\<open>fm_received\<close> records the answers that were accepted; nothing reads it.\<close>

record fast_machine =
  fm_conn :: fast_connection
  fm_socket :: socket
  fm_reader :: reader
  fm_callers :: "nat \<Rightarrow> caller"
  fm_received :: "(nat \<times> nat \<times> json) set"

definition fast_start :: "fast_machine \<Rightarrow> bool" where
  "fast_start s \<longleftrightarrow> fm_conn s = FastRPC_Connection_new \<and> fm_reader s = Reading \<and> fm_callers s = (\<lambda>_. Idle) \<and> fm_received s = {}"

text \<open>\<^verbatim>\<open>req t\<close> is the name of the method and the payload, as text, of the caller.\<close>

inductive fast_step :: "fast_config \<Rightarrow> (nat \<Rightarrow> string \<times> string) \<Rightarrow> fast_machine \<Rightarrow> fast_machine \<Rightarrow> bool" for C req where
  number: "fm_callers s t = Idle \<Longrightarrow> take_number (fm_conn s) = (c, n) \<Longrightarrow>
    fast_step C req s (s\<lparr>fm_conn := c, fm_callers := (fm_callers s)(t := Numbered n)\<rparr>)"
| authorize: "fm_callers s t = Numbered n \<Longrightarrow>
    fast_step C req s (s\<lparr>fm_conn := authorize_answer (fm_conn s) n, fm_callers := (fm_callers s)(t := Registered n)\<rparr>)"
| send: "fm_callers s t = Registered n \<Longrightarrow>
    fast_step C req s (s\<lparr>fm_socket := send_query C (fm_socket s) n (fst (req t)) (snd (req t)), fm_callers := (fm_callers s)(t := Ready n)\<rparr>)"
| sleep: "fm_callers s t = Ready n \<Longrightarrow> fast_step C req s (s\<lparr>fm_callers := (fm_callers s)(t := Waiting n)\<rparr>)"
| time_out: "fm_callers s t = Waiting n \<Longrightarrow> fast_step C req s (s\<lparr>fm_callers := (fm_callers s)(t := Cleanup n CallTimedOut)\<rparr>)"
| spurious: "fm_callers s t = Waiting n \<Longrightarrow> fast_step C req s (s\<lparr>fm_callers := (fm_callers s)(t := Woken n)\<rparr>)"
| look: "fm_callers s t = Woken n \<Longrightarrow> fast_step C req s (s\<lparr>fm_callers := (fm_callers s)(t :=
      (case look_for_answer (fm_conn s) n of Some r \<Rightarrow> Cleanup n r | None \<Rightarrow> Ready n))\<rparr>)"
| revoke: "fm_callers s t = Cleanup n r \<Longrightarrow>
    fast_step C req s (s\<lparr>fm_conn := revoke_answer (fm_conn s) n, fm_callers := (fm_callers s)(t := Finished n r)\<rparr>)"
| receive: "fm_reader s = Reading \<Longrightarrow> 0 < n \<Longrightarrow> store_answer (fm_conn s) n e parsed = (c, notify) \<Longrightarrow>
    fast_step C req s (s\<lparr>fm_conn := c,
      fm_callers := (if notify then notify_all fc_asleep fc_awake (fm_callers s) else fm_callers s),
      fm_received := (case parsed of Some j \<Rightarrow> insert (n, e, j) (fm_received s) | None \<Rightarrow> fm_received s)\<rparr>)"
| reader_ends: "fm_reader s = Reading \<Longrightarrow>
    fast_step C req s (s\<lparr>fm_conn := (fm_conn s)\<lparr>terminated := True\<rparr>, fm_reader := AtEnd\<rparr>)"
| reader_signals: "fm_reader s = AtEnd \<Longrightarrow>
    fast_step C req s (s\<lparr>fm_callers := notify_all fc_asleep fc_awake (fm_callers s), fm_reader := Signalled\<rparr>)"

text \<open>As long as the 64 bits of the numbers have not been used up.\<close>

definition bounded_call_step :: "fast_config \<Rightarrow> (nat \<Rightarrow> string \<times> string) \<Rightarrow> fast_machine \<Rightarrow> fast_machine \<Rightarrow> bool" where
  "bounded_call_step C req s t \<longleftrightarrow> fast_step C req s t \<and> requestIdCounter (fm_conn t) \<noteq> 0"

subsection \<open>Invariant\<close>

fun caller_id :: "caller \<Rightarrow> nat option" where
  "caller_id Idle = None"
| "caller_id (Numbered n) = Some n"
| "caller_id (Registered n) = Some n"
| "caller_id (Ready n) = Some n"
| "caller_id (Waiting n) = Some n"
| "caller_id (Woken n) = Some n"
| "caller_id (Cleanup n r) = Some n"
| "caller_id (Finished n r) = Some n"

text \<open>The number under which an answer is awaited.\<close>

fun awaited :: "caller \<Rightarrow> nat option" where
  "awaited Idle = None"
| "awaited (Numbered n) = None"
| "awaited (Finished n r) = None"
| "awaited p = caller_id p"

fun caller_outcome :: "caller \<Rightarrow> outcome option" where
  "caller_outcome (Cleanup n r) = Some r"
| "caller_outcome (Finished n r) = Some r"
| "caller_outcome _ = None"

definition numbers_ok :: "nat \<Rightarrow> (nat \<Rightarrow> caller) \<Rightarrow> bool" where
  "numbers_ok k f \<longleftrightarrow> 0 < k \<and> k < 2 ^ 64 \<and> (\<forall>t n. caller_id (f t) = Some n \<longrightarrow> 0 < n \<and> n < k) \<and>
     (\<forall>t u n. caller_id (f t) = Some n \<longrightarrow> caller_id (f u) = Some n \<longrightarrow> t = u)"

definition tables_ok :: "fast_connection \<Rightarrow> (nat \<Rightarrow> caller) \<Rightarrow> bool" where
  "tables_ok c f \<longleftrightarrow> (\<forall>n\<in>pendingRequests c. \<exists>t. awaited (f t) = Some n) \<and> (\<forall>n. n \<notin> pendingRequests c \<longrightarrow> answers c n = None) \<and>
     (\<forall>n. executionStatus c n = None \<longleftrightarrow> answers c n = None)"

definition received_ok :: "fast_connection \<Rightarrow> (nat \<Rightarrow> caller) \<Rightarrow> (nat \<times> nat \<times> json) set \<Rightarrow> bool" where
  "received_ok c f R \<longleftrightarrow> (\<forall>n j e. answers c n = Some j \<longrightarrow> executionStatus c n = Some e \<longrightarrow> (n, e, j) \<in> R) \<and>
     (\<forall>t n e j. caller_id (f t) = Some n \<longrightarrow> caller_outcome (f t) = Some (Answered e j) \<longrightarrow> (n, e, j) \<in> R)"

definition fast_ok :: "fast_machine \<Rightarrow> bool" where
  "fast_ok s \<longleftrightarrow> numbers_ok (requestIdCounter (fm_conn s)) (fm_callers s) \<and> tables_ok (fm_conn s) (fm_callers s) \<and>
     received_ok (fm_conn s) (fm_callers s) (fm_received s)"

lemma awake_id [simp]: "caller_id (notify_all fc_asleep fc_awake f u) = caller_id (f u)"
  "awaited (notify_all fc_asleep fc_awake f u) = awaited (f u)"
  "caller_outcome (notify_all fc_asleep fc_awake f u) = caller_outcome (f u)"
  by (cases "f u"; simp add: notify_all_def)+

lemma awaited_id: "awaited p = Some n \<Longrightarrow> caller_id p = Some n"
  by (cases p) auto

text \<open>A caller that moves on with its number.\<close>

lemma numbers_move: "numbers_ok k f \<Longrightarrow> caller_id p = caller_id (f t) \<Longrightarrow> numbers_ok k (f(t := p))"
  unfolding numbers_ok_def by (auto simp: fun_upd_apply split: if_splits)

lemma tables_move: "tables_ok c f \<Longrightarrow> awaited (f t) \<noteq> None \<Longrightarrow> awaited p = awaited (f t) \<Longrightarrow> tables_ok c (f(t := p))"
  unfolding tables_ok_def by (metis fun_upd_apply)

lemma tables_fresh: "tables_ok c f \<Longrightarrow> awaited (f t) = None \<Longrightarrow> tables_ok c (f(t := p))"
  unfolding tables_ok_def by (metis fun_upd_apply option.distinct(1))

lemma received_move: "received_ok c f R \<Longrightarrow>
    (\<And>n e j. caller_id p = Some n \<Longrightarrow> caller_outcome p = Some (Answered e j) \<Longrightarrow> (n, e, j) \<in> R) \<Longrightarrow> received_ok c (f(t := p)) R"
  unfolding received_ok_def by (auto simp: fun_upd_apply split: if_splits)

lemma received_still: "received_ok c f R \<Longrightarrow> caller_outcome p = None \<or> caller_outcome p = Some CallTimedOut \<Longrightarrow> received_ok c (f(t := p)) R"
  by (erule received_move) auto

lemma received_outcome: "received_ok c f R \<Longrightarrow> caller_id (f t) = Some n \<Longrightarrow> caller_outcome (f t) = Some (Answered e j) \<Longrightarrow> (n, e, j) \<in> R"
  by (auto simp: received_ok_def)

lemma look_received:
  assumes "tables_ok c f" "received_ok c f R" "look_for_answer c n = Some (Answered e j)"
  shows "(n, e, j) \<in> R"
proof -
  have a: "answers c n = Some j" "e = (case executionStatus c n of Some e \<Rightarrow> e | None \<Rightarrow> 0)"
    using assms(3) by (auto simp: look_for_answer_def split: option.splits if_splits)
  have "executionStatus c n \<noteq> None" using a(1) assms(1) unfolding tables_ok_def by (metis option.distinct(1))
  then show ?thesis using a assms(2) unfolding received_ok_def by auto
qed

lemma numbers_new:
  assumes "numbers_ok (requestIdCounter c) f" "f t = Idle" "take_number c = (c', n)" "requestIdCounter c' \<noteq> 0"
  shows "numbers_ok (requestIdCounter c') (f(t := Numbered n))"
proof -
  have c': "n = requestIdCounter c" "requestIdCounter c' = Suc n"
    using assms(1,3,4) by (auto simp: numbers_ok_def take_number_def mod_Suc split: if_splits)
  have "Suc n < 2 ^ 64" using assms(3) c'(2) by (auto simp: take_number_def)
  then show ?thesis using assms(1) c' unfolding numbers_ok_def
    by (auto simp: fun_upd_apply less_Suc_eq split: if_splits)
qed

lemma tables_authorize:
  assumes "tables_ok c f" "f t = Numbered n"
  shows "tables_ok (authorize_answer c n) (f(t := Registered n))"
proof -
  have "tables_ok c (f(t := Registered n))" using assms by (intro tables_fresh) auto
  then show ?thesis unfolding tables_ok_def authorize_answer_def by auto
qed

lemma tables_revoke:
  assumes "tables_ok c f" "f t = Cleanup n r"
  shows "tables_ok (revoke_answer c n) (f(t := Finished n r))"
proof -
  have "\<exists>u. awaited ((f(t := Finished n r)) u) = Some m" if m: "m \<in> pendingRequests c" "m \<noteq> n" for m
  proof -
    obtain u where u: "awaited (f u) = Some m" using m(1) assms(1) unfolding tables_ok_def by blast
    have "awaited (f t) = Some n" by (simp add: assms(2))
    with u m(2) have "u \<noteq> t" by (metis option.inject)
    with u show ?thesis by (metis fun_upd_other)
  qed
  then have "\<forall>m\<in>pendingRequests (revoke_answer c n). \<exists>u. awaited ((f(t := Finished n r)) u) = Some m"
    unfolding revoke_answer_def by auto
  moreover have "\<forall>m. m \<notin> pendingRequests (revoke_answer c n) \<longrightarrow> answers (revoke_answer c n) m = None"
    "\<forall>m. executionStatus (revoke_answer c n) m = None \<longleftrightarrow> answers (revoke_answer c n) m = None"
    using assms(1) unfolding tables_ok_def by (auto simp: revoke_answer_def)
  ultimately show ?thesis unfolding tables_ok_def by blast
qed

lemma received_revoke: "received_ok c f R \<Longrightarrow> received_ok (revoke_answer c n) f R"
  by (auto simp: received_ok_def revoke_answer_def)

lemma store_answer_ok:
  assumes "tables_ok c f" "received_ok c f R" "store_answer c n e parsed = (c', notify)"
  shows "requestIdCounter c' = requestIdCounter c" "tables_ok c' f"
    "received_ok c' f (case parsed of Some j \<Rightarrow> insert (n, e, j) R | None \<Rightarrow> R)"
  using assms by (auto simp: store_answer_def tables_ok_def received_ok_def split: if_splits option.splits)

lemma ok_notified:
  "numbers_ok k (notify_all fc_asleep fc_awake f) = numbers_ok k f"
  "tables_ok c (notify_all fc_asleep fc_awake f) = tables_ok c f"
  "received_ok c (notify_all fc_asleep fc_awake f) R = received_ok c f R"
  by (simp_all add: numbers_ok_def tables_ok_def received_ok_def)

lemma fast_ok_step:
  assumes "fast_ok s" "bounded_call_step C req s t"
  shows "fast_ok t"
proof -
  note ok = assms(1) [unfolded fast_ok_def]
  have st: "fast_step C req s t" and b: "requestIdCounter (fm_conn t) \<noteq> 0" using assms(2) by (simp_all add: bounded_call_step_def)
  show ?thesis
    using st
  proof (cases rule: fast_step.cases)
    case (number u c n)
    have "tables_ok c f = tables_ok (fm_conn s) f" "received_ok c f R = received_ok (fm_conn s) f R" for f R
      using number by (auto simp: take_number_def tables_ok_def received_ok_def)
    moreover have "numbers_ok (requestIdCounter c) ((fm_callers s)(u := Numbered n))"
      using numbers_new [of "fm_conn s" "fm_callers s" u c n] number ok b by simp
    moreover have "tables_ok (fm_conn s) ((fm_callers s)(u := Numbered n))" using ok number by (simp add: tables_fresh)
    moreover have "received_ok (fm_conn s) ((fm_callers s)(u := Numbered n)) (fm_received s)" using ok by (simp add: received_still)
    ultimately show ?thesis using number by (simp add: fast_ok_def)
  next
    case (authorize u n)
    have "requestIdCounter (authorize_answer (fm_conn s) n) = requestIdCounter (fm_conn s)"
      "received_ok (authorize_answer (fm_conn s) n) f R = received_ok (fm_conn s) f R" for f R
      by (simp_all add: authorize_answer_def received_ok_def)
    then show ?thesis using authorize ok by (simp add: fast_ok_def tables_authorize numbers_move received_still)
  next
    case (look u n)
    let ?p = "case look_for_answer (fm_conn s) n of Some r \<Rightarrow> Cleanup n r | None \<Rightarrow> Ready n"
    have "received_ok (fm_conn s) ((fm_callers s)(u := ?p)) (fm_received s)"
      using ok look_received [of "fm_conn s" "fm_callers s" "fm_received s" n]
      by (intro received_move) (auto split: option.splits)
    moreover have "caller_id ?p = caller_id (fm_callers s u)" "awaited ?p = awaited (fm_callers s u)" "awaited (fm_callers s u) \<noteq> None"
      using look by (auto split: option.splits)
    ultimately show ?thesis using look ok by (simp add: fast_ok_def numbers_move tables_move)
  next
    case (revoke u n r)
    have "requestIdCounter (revoke_answer (fm_conn s) n) = requestIdCounter (fm_conn s)" by (simp add: revoke_answer_def)
    moreover have "received_ok (fm_conn s) ((fm_callers s)(u := Finished n r)) (fm_received s)"
      using ok revoke received_outcome [of "fm_conn s" "fm_callers s" "fm_received s" u] by (intro received_move) auto
    ultimately show ?thesis using revoke ok by (simp add: fast_ok_def tables_revoke numbers_move received_revoke)
  next
    case (receive n e parsed c notify)
    from store_answer_ok [OF _ _ receive(4), of "fm_callers s" "fm_received s"] receive(1) ok show ?thesis
      by (simp add: fast_ok_def ok_notified)
  next
    case reader_ends
    have "tables_ok (c\<lparr>terminated := True\<rparr>) f = tables_ok c f" "received_ok (c\<lparr>terminated := True\<rparr>) f R = received_ok c f R" for c f R
      by (simp_all add: tables_ok_def received_ok_def)
    then show ?thesis using reader_ends ok by (simp add: fast_ok_def)
  qed (use ok in \<open>auto simp: fast_ok_def numbers_move tables_move received_still ok_notified\<close>)
qed

lemma fast_start_ok: "fast_start s \<Longrightarrow> fast_ok s"
  by (simp add: fast_start_def fast_ok_def numbers_ok_def tables_ok_def received_ok_def FastRPC_Connection_new_def)

interpretation fast_calls: machine_invariant fast_start "bounded_call_step C req" fast_ok for C req
  by unfold_locales (use fast_start_ok fast_ok_step in blast)+


subsection \<open>Properties\<close>

text \<open>C34: an answer goes to the call it answers: in every state that callers and reader can reach, no two calls have the
  same number, and a call that ended with an answer got a value and a status that arrived together under its number.\<close>

theorem fast_answers_reach_their_caller:
  assumes "reach fast_start (bounded_call_step C req) s"
  shows "(\<forall>t u n. caller_id (fm_callers s t) = Some n \<and> caller_id (fm_callers s u) = Some n \<longrightarrow> t = u) \<and>
    (\<forall>t n e j. fm_callers s t = Finished n (Answered e j) \<longrightarrow> (n, e, j) \<in> fm_received s)"
proof -
  note ok = fast_calls.reachable [OF assms, unfolded fast_ok_def]
  have "\<forall>t u n. caller_id (fm_callers s t) = Some n \<and> caller_id (fm_callers s u) = Some n \<longrightarrow> t = u"
    using ok unfolding numbers_ok_def by blast
  moreover have "\<forall>t n e j. fm_callers s t = Finished n (Answered e j) \<longrightarrow> (n, e, j) \<in> fm_received s"
    using ok received_outcome [of "fm_conn s" "fm_callers s" "fm_received s"] by (metis caller_id.simps(8) caller_outcome.simps(2))
  ultimately show ?thesis by blast
qed

text \<open>C35: no call leaves anything behind: when no caller is between registering its number and revoking it, the tables of
  the connection are empty.\<close>

theorem fast_tables_are_cleaned:
  assumes "reach fast_start (bounded_call_step C req) s" "\<forall>t. awaited (fm_callers s t) = None"
  shows "pendingRequests (fm_conn s) = {} \<and> answers (fm_conn s) = Map.empty \<and> executionStatus (fm_conn s) = Map.empty"
proof -
  have ok: "tables_ok (fm_conn s) (fm_callers s)" using fast_calls.reachable [OF assms(1)] by (simp add: fast_ok_def)
  then have "pendingRequests (fm_conn s) = {}" using assms(2) by (auto simp: tables_ok_def)
  then show ?thesis using ok by (auto simp: tables_ok_def)
qed

lemma unwoken_caller:
  assumes "fast_step C req a b" "fm_callers a t \<in> {Ready n, Waiting n, Cleanup n CallTimedOut, Finished n CallTimedOut}" "fm_callers b t \<noteq> Woken n"
  shows "fm_callers b t \<in> {Ready n, Waiting n, Cleanup n CallTimedOut, Finished n CallTimedOut}"
  using assms by (cases rule: fast_step.cases) (auto simp: notify_all_def split: if_splits)

lemma unwoken_run:
  assumes "(\<lambda>a b. bounded_call_step C req a b \<and> fm_callers b t \<noteq> Woken n)\<^sup>*\<^sup>* s s'" "fm_callers s t = Ready n"
  shows "fm_callers s' t \<in> {Ready n, Waiting n, Cleanup n CallTimedOut, Finished n CallTimedOut}"
  using assms
proof (induction rule: rtranclp_induct)
  case (step a b)
  then show ?case using unwoken_caller [of C req a b t n] unfolding bounded_call_step_def by blast
qed simp

definition demo_start :: fast_machine where
  "demo_start = \<lparr>fm_conn = FastRPC_Connection_new, fm_socket = demo_socket, fm_reader = Reading, fm_callers = \<lambda>_. Idle, fm_received = {}\<rparr>"

definition demo_numbered :: fast_machine where
  "demo_numbered = demo_start\<lparr>fm_conn := FastRPC_Connection_new\<lparr>requestIdCounter := 2\<rparr>, fm_callers := (fm_callers demo_start)(0 := Numbered 1)\<rparr>"

definition demo_registered :: fast_machine where
  "demo_registered = demo_numbered\<lparr>fm_conn := authorize_answer (fm_conn demo_numbered) 1, fm_callers := (fm_callers demo_numbered)(0 := Registered 1)\<rparr>"

definition demo_sent :: "fast_config \<Rightarrow> (nat \<Rightarrow> string \<times> string) \<Rightarrow> fast_machine" where
  "demo_sent C req = demo_registered\<lparr>fm_socket := send_query C (fm_socket demo_registered) 1 (fst (req 0)) (snd (req 0)),
     fm_callers := (fm_callers demo_registered)(0 := Ready 1)\<rparr>"

definition demo_answered :: "fast_config \<Rightarrow> (nat \<Rightarrow> string \<times> string) \<Rightarrow> fast_machine" where
  "demo_answered C req = (demo_sent C req)\<lparr>fm_conn := fst (store_answer (fm_conn (demo_sent C req)) 1 2 (Some JsonNull)),
     fm_callers := notify_all fc_asleep fc_awake (fm_callers (demo_sent C req)), fm_received := insert (1, 2, JsonNull) (fm_received (demo_sent C req))\<rparr>"

lemmas demo_states = demo_start_def demo_numbered_def demo_registered_def demo_sent_def demo_answered_def

lemma reach_bounded: "reach fast_start (bounded_call_step C req) a \<Longrightarrow> fast_step C req a b \<Longrightarrow>
    requestIdCounter (fm_conn b) \<noteq> 0 \<Longrightarrow> reach fast_start (bounded_call_step C req) b"
  by (rule reach_step) (simp_all add: bounded_call_step_def)

lemma demo_reachable: "reach fast_start (bounded_call_step C req) (demo_answered C req)"
proof -
  have start: "reach fast_start (bounded_call_step C req) demo_start" by (rule reach_init) (simp add: fast_start_def demo_start_def)
  have "fast_step C req demo_start demo_numbered" unfolding demo_numbered_def
    by (rule fast_step.number) (simp_all add: demo_start_def take_number_def FastRPC_Connection_new_def)
  then have numbered: "reach fast_start (bounded_call_step C req) demo_numbered" by (rule reach_bounded [OF start]) (simp add: demo_states)
  have "fast_step C req demo_numbered demo_registered" unfolding demo_registered_def
    by (rule fast_step.authorize) (simp add: demo_numbered_def)
  then have registered: "reach fast_start (bounded_call_step C req) demo_registered"
    by (rule reach_bounded [OF numbered]) (simp add: demo_states authorize_answer_def)
  have "fast_step C req demo_registered (demo_sent C req)" unfolding demo_sent_def
    by (rule fast_step.send) (simp add: demo_registered_def)
  then have sent: "reach fast_start (bounded_call_step C req) (demo_sent C req)"
    by (rule reach_bounded [OF registered]) (simp add: demo_states authorize_answer_def)
  have "store_answer (fm_conn (demo_sent C req)) 1 2 (Some JsonNull) = (fst (store_answer (fm_conn (demo_sent C req)) 1 2 (Some JsonNull)), True)"
    "fm_reader (demo_sent C req) = Reading"
    by (simp_all add: demo_states store_answer_def authorize_answer_def)
  from fast_step.receive [OF this(2) _ this(1), of C req] have "fast_step C req (demo_sent C req) (demo_answered C req)"
    by (simp add: demo_answered_def)
  then show ?thesis by (rule reach_bounded [OF sent]) (simp add: demo_states store_answer_def authorize_answer_def)
qed

lemma three_steps_reach:
  assumes "R a b" "R b c" "R c d"
  shows "{f a, f b, f c, f d} \<subseteq> {f x |x. R\<^sup>*\<^sup>* a x}"
proof -
  have "R\<^sup>*\<^sup>* a b" "R\<^sup>*\<^sup>* a c" "R\<^sup>*\<^sup>* a d" using assms by (meson rtranclp.rtrancl_into_rtrancl rtranclp.rtrancl_refl)+
  then show ?thesis by blast
qed

text \<open>C36: an answer that comes before the wait is missed: \<^verbatim>\<open>runRemoteRPCMethod\<close> goes to sleep without a look at
  the answers. In every reachable state in which the answer of a call is in the table and its caller is about to
  sleep, a look would end the call with this answer; but whatever the threads do, as long as nothing else wakes the
  caller, it stays before the wait, in the wait, or ends with a time-out, and each of these can happen.\<close>

theorem answer_before_the_wait_is_missed:
  assumes "reach fast_start (bounded_call_step C req) s" "fm_callers s t = Ready n" "answers (fm_conn s) n = Some v"
  shows "(\<exists>e. look_for_answer (fm_conn s) n = Some (Answered e v)) \<and>
     {fm_callers s' t |s'. (\<lambda>a b. bounded_call_step C req a b \<and> fm_callers b t \<noteq> Woken n)\<^sup>*\<^sup>* s s'} =
       {Ready n, Waiting n, Cleanup n CallTimedOut, Finished n CallTimedOut}"
proof
  show "\<exists>e. look_for_answer (fm_conn s) n = Some (Answered e v)" using assms(3) by (simp add: look_for_answer_def)
  let ?R = "\<lambda>a b. bounded_call_step C req a b \<and> fm_callers b t \<noteq> Woken n"
  have s: "requestIdCounter (fm_conn s) \<noteq> 0"
    using fast_calls.reachable [OF assms(1)] by (simp add: fast_ok_def numbers_ok_def)
  let ?a = "s\<lparr>fm_callers := (fm_callers s)(t := Waiting n)\<rparr>"
  let ?b = "?a\<lparr>fm_callers := (fm_callers ?a)(t := Cleanup n CallTimedOut)\<rparr>"
  let ?c = "?b\<lparr>fm_conn := revoke_answer (fm_conn ?b) n, fm_callers := (fm_callers ?b)(t := Finished n CallTimedOut)\<rparr>"
  have "fast_step C req s ?a" by (rule fast_step.sleep) (rule assms(2))
  then have ab: "?R s ?a" using s by (simp add: bounded_call_step_def)
  have "fast_step C req ?a ?b" by (rule fast_step.time_out) simp
  then have bc: "?R ?a ?b" using s by (simp add: bounded_call_step_def)
  have "fast_step C req ?b ?c" by (rule fast_step.revoke) simp
  then have cd: "?R ?b ?c" using s by (simp add: bounded_call_step_def revoke_answer_def)
  let ?reached = "{fm_callers s' t |s'. ?R\<^sup>*\<^sup>* s s'}"
  have "{Ready n, Waiting n, Cleanup n CallTimedOut, Finished n CallTimedOut} \<subseteq> ?reached"
    using three_steps_reach [of ?R s ?a ?b ?c "\<lambda>s. fm_callers s t", OF ab bc cd] assms(2) by simp
  moreover have "?reached \<subseteq> {Ready n, Waiting n, Cleanup n CallTimedOut, Finished n CallTimedOut}"
    using unwoken_run [of C req t n s] assms(2) by blast
  ultimately show "?reached = {Ready n, Waiting n, Cleanup n CallTimedOut, Finished n CallTimedOut}" by blast
qed

theorem answer_before_the_wait_is_missed_witness:
  "(\<exists>e. look_for_answer (fm_conn (demo_answered demo_config (\<lambda>_. (''m'', ''null'')))) 1 = Some (Answered e JsonNull)) \<and>
   {fm_callers s' 0 |s'. (\<lambda>a b. bounded_call_step demo_config (\<lambda>_. (''m'', ''null'')) a b \<and> fm_callers b 0 \<noteq> Woken 1)\<^sup>*\<^sup>*
       (demo_answered demo_config (\<lambda>_. (''m'', ''null''))) s'} =
     {Ready 1, Waiting 1, Cleanup 1 CallTimedOut, Finished 1 CallTimedOut}"
  by (rule answer_before_the_wait_is_missed [OF demo_reachable])
    (simp_all add: demo_states notify_all_def store_answer_def authorize_answer_def)

lemma fast_answers_reach_their_caller_witness:
  "caller_id (fm_callers (demo_answered demo_config (\<lambda>_. (''m'', ''null''))) 0) = Some 1 \<and>
   caller_id (fm_callers (demo_answered demo_config (\<lambda>_. (''m'', ''null''))) 1) \<noteq> Some 1"
proof -
  let ?s = "demo_answered demo_config (\<lambda>_. (''m'', ''null''))"
  have one: "caller_id (fm_callers ?s 0) = Some 1" by (simp add: demo_states notify_all_def)
  have "\<forall>t u n. caller_id (fm_callers ?s t) = Some n \<and> caller_id (fm_callers ?s u) = Some n \<longrightarrow> t = u"
    by (rule conjunct1 [OF fast_answers_reach_their_caller [OF demo_reachable [of demo_config "\<lambda>_. (''m'', ''null'')"]]])
  then show ?thesis using one by (metis zero_neq_one)
qed

lemma fast_tables_are_cleaned_witness: "pendingRequests (fm_conn demo_start) = {}"
proof -
  have "reach fast_start (bounded_call_step demo_config (\<lambda>_. (''m'', ''null''))) demo_start"
    by (rule reach_init) (simp add: fast_start_def demo_start_def)
  from fast_tables_are_cleaned [OF this] show ?thesis by (simp add: demo_start_def)
qed

end
