(* ===== verification/Http_Url.thy ===== *)
theory Http_Url
  imports Encoders Container_Mem Container_Chunks_Facts
begin

text \<open>
  \<^verbatim>\<open>Protocols/mdz_proto_http/streamencoder_url.cpp\<close> and \<^verbatim>\<open>streamdecoder_url.cpp\<close>: percent coding as streams that write to
  another stream, whose \<^verbatim>\<open>write\<close> is \<^verbatim>\<open>w\<close>, and the conversions of a whole text through containers.
\<close>

subsection \<open>Encoder\<close>

record 'o url_encoder = streamable_object +
  ue_orig :: 'o

definition shouldEncodeThisByte :: "byte \<Rightarrow> bool" where
  "shouldEncodeThisByte b \<longleftrightarrow> \<not> (65 \<le> b \<and> b \<le> 90 \<or> 97 \<le> b \<and> b \<le> 122 \<or> 48 \<le> b \<and> b \<le> 57)"

function url_encoder_loop :: "'o write_method \<Rightarrow> 'o \<Rightarrow> byte list \<Rightarrow> stream_status \<Rightarrow> stream_status \<Rightarrow>
  ('o \<times> stream_status \<times> stream_status) option" where
  "url_encoder_loop w out buf cur upd =
     (if buf = [] then Some (out, cur, upd)
      else let plain = takeWhile (\<lambda>b. \<not> shouldEncodeThisByte b) buf;
               piece = (if plain \<noteq> [] then plain else 37 # sprintf_02X (hd buf)) in
        case writeFullStream w out piece upd of
          None \<Rightarrow> None
        | Some (out', r, upd') \<Rightarrow>
            if \<not> succeed (Status_add cur r) then Some (out', Status_add cur r, upd')
            else url_encoder_loop w out' (drop (if plain \<noteq> [] then length plain else 1) buf) (Status_add cur r) upd')"
  by pat_completeness auto
termination
  by (relation "measure (\<lambda>(w, out, buf, cur, upd). length buf)") (auto simp: Let_def)

declare url_encoder_loop.simps [simp del]

definition url_encoder_write :: "'o write_method \<Rightarrow> 'o url_encoder write_method" where
  "url_encoder_write w e buf upd =
     (if length buf > u64_max div 3 - 3
      then let (e', ok) = setFailedWriteState e 1 in Some (e', Status_new\<lparr>succeed := ok\<rparr>, upd\<lparr>succeed := ok\<rparr>)
      else map_option (\<lambda>(out, cur, upd'). (e\<lparr>ue_orig := out\<rparr>, cur, upd')) (url_encoder_loop w (ue_orig e) buf Status_new upd))"

definition url_encoder_methods :: "'o write_method \<Rightarrow> 'o url_encoder stream_methods" where
  "url_encoder_methods w = \<lparr>so_write = url_encoder_write w, so_writeEOF = (\<lambda>e _. Some e)\<rparr>"

text \<open>\<^verbatim>\<open>cur += \<close> with the boolean of \<^verbatim>\<open>streamTo\<close> adds it to the count of bytes: the test of \<^verbatim>\<open>succeed\<close> is always true.\<close>

definition encodeURLStr :: "os_calls \<Rightarrow> byte list \<Rightarrow> byte list option" where
  "encodeURLStr os url =
     (case base_streamTo mem_copyTo2 mem_virtuals (url_encoder_methods (base_write (chunks_virtuals os)))
        (mem_construct (Some url) (length url)) \<lparr>failedWriteState = 0, ue_orig = chunks_new\<rparr> Status_new of
        None \<Rightarrow> None
      | Some (e, _, _) \<Rightarrow> base_toString (chunks_virtuals os) (ue_orig e) u64_max 0)"

subsection \<open>Decoder\<close>

text \<open>\<^verbatim>\<open>bytes\<close> up to \<^verbatim>\<open>filled\<close>.\<close>

record 'o url_decoder =
  ud_pending :: "byte list"
  ud_orig :: 'o

definition url_decoder_put :: "'o write_method \<Rightarrow> 'o url_decoder \<Rightarrow> byte list \<Rightarrow> nat \<Rightarrow> stream_status \<Rightarrow>
  ('o url_decoder \<times> stream_status \<times> stream_status) option" where
  "url_decoder_put w d bs n upd =
     map_option (\<lambda>(out, r, upd'). (d\<lparr>ud_pending := [], ud_orig := out\<rparr>, \<lparr>bytesWritten = n, succeed = succeed r, finish = False\<rparr>, upd'))
       (writeFullStream w (ud_orig d) bs upd)"

definition url_decoder_write :: "'o write_method \<Rightarrow> 'o url_decoder write_method" where
  "url_decoder_write w d buf upd =
     (if buf = [] then Some (d, Status_new\<lparr>succeed := ud_pending d = []\<rparr>, upd)
      else case ud_pending d of
        [] \<Rightarrow> let plain = takeWhile (\<lambda>b. b \<noteq> 37 \<and> b \<noteq> 43) buf in
          if plain \<noteq> [] then url_decoder_put w d plain (length plain) upd
          else if hd buf = 37 then Some (d\<lparr>ud_pending := [37]\<rparr>, Status_new\<lparr>bytesWritten := 1\<rparr>, upd)
          else url_decoder_put w d [32] 1 upd
      | [x] \<Rightarrow> if c_isxdigit (hd buf) then Some (d\<lparr>ud_pending := [x, hd buf]\<rparr>, Status_new\<lparr>bytesWritten := 1\<rparr>, upd)
          else url_decoder_put w d [x, hd buf] 1 upd
      | x # a # _ \<Rightarrow> if c_isxdigit (hd buf) then url_decoder_put w d [hexPairToByte a (hd buf)] 1 upd
          else url_decoder_put w d [x, a, hd buf] 1 upd)"

definition url_decoder_writeEOF :: "'o write_method \<Rightarrow> 'o url_decoder \<Rightarrow> bool \<Rightarrow> 'o url_decoder option" where
  "url_decoder_writeEOF w d b =
     map_option (\<lambda>(out, r, upd). d\<lparr>ud_pending := [], ud_orig := out\<rparr>) (writeFullStream w (ud_orig d) (ud_pending d) Status_new)"

definition url_decoder_methods :: "'o write_method \<Rightarrow> 'o url_decoder stream_methods" where
  "url_decoder_methods w = \<lparr>so_write = url_decoder_write w, so_writeEOF = url_decoder_writeEOF w\<rparr>"

definition decodeURLStr :: "os_calls \<Rightarrow> byte list \<Rightarrow> byte list option" where
  "decodeURLStr os url =
     (case base_streamTo mem_copyTo2 mem_virtuals (url_decoder_methods (base_write (chunks_virtuals os)))
        (mem_construct (Some url) (length url)) \<lparr>ud_pending = [], ud_orig = chunks_new\<rparr> Status_new of
        None \<Rightarrow> None
      | Some (d, _, _) \<Rightarrow> base_toString (chunks_virtuals os) (ud_orig d) u64_max 0)"

subsection \<open>The codes as functions\<close>

definition url_encode :: "byte list \<Rightarrow> byte list" where
  "url_encode s = concat (map (\<lambda>b. if shouldEncodeThisByte b then 37 # sprintf_02X b else [b]) s)"

text \<open>A byte after the bytes that wait: the bytes that wait then, and what is put out.\<close>

fun dec_step :: "byte list \<Rightarrow> byte \<Rightarrow> byte list \<times> byte list" where
  "dec_step [] b = (if b = 37 then ([37], []) else if b = 43 then ([], [32]) else ([], [b]))"
| "dec_step [x] b = (if c_isxdigit b then ([x, b], []) else ([], [x, b]))"
| "dec_step (x # a # _) b = (if c_isxdigit b then ([], [hexPairToByte a b]) else ([], [x, a, b]))"

fun dec_run :: "byte list \<Rightarrow> byte list \<Rightarrow> byte list \<times> byte list" where
  "dec_run p [] = (p, [])"
| "dec_run p (b # bs) = (let (p1, o1) = dec_step p b; (p2, o2) = dec_run p1 bs in (p2, o1 @ o2))"

definition url_decode :: "byte list \<Rightarrow> byte list" where
  "url_decode s = (let (p, out) = dec_run [] s in out @ p)"

lemma dec_run_append: "dec_run p (xs @ ys) = (let (p1, o1) = dec_run p xs; (p2, o2) = dec_run p1 ys in (p2, o1 @ o2))"
  by (induction xs arbitrary: p) (simp_all add: split_beta Let_def)

lemma dec_step_length: "dec_step p b = (p', out) \<Longrightarrow> length p \<le> 2 \<Longrightarrow> length p' \<le> 2 \<and> length p' + length out \<le> Suc (length p)"
  by (cases "(p, b)" rule: dec_step.cases) (auto split: if_splits)

lemma dec_run_length: "dec_run p s = (p', out) \<Longrightarrow> length p \<le> 2 \<Longrightarrow> length p' \<le> 2 \<and> length p' + length out \<le> length p + length s"
proof (induction p s arbitrary: p' out rule: dec_run.induct)
  case (2 p b bs)
  obtain p1 o1 where s: "dec_step p b = (p1, o1)" by fastforce
  obtain p2 o2 where r: "dec_run p1 bs = (p2, o2)" by fastforce
  from dec_step_length [OF s 2(3)] 2(1) [OF s [symmetric] refl r] 2(2) s r show ?case by auto
qed simp

lemma dec_run_plain: "\<forall>b\<in>set bs. b \<noteq> 37 \<and> b \<noteq> 43 \<Longrightarrow> dec_run [] bs = ([], bs)"
  by (induction bs) auto

lemma escaped_decodes: "dec_run [] (37 # sprintf_02X b) = ([], [b])"
proof -
  have lt: "unat b div 16 < 16" "unat b mod 16 < 16" by (rule byte_nibbles)+
  have "c_isxdigit (hex_upper (unat b div 16))" "c_isxdigit (hex_upper (unat b mod 16))"
    using hexToValue_hex_upper(2) lt by blast+
  then show ?thesis using hex_pair_value [of b] by (simp add: sprintf_02X_def hexPairToByte_def)
qed

lemma at_most_two: "length xs \<le> 2 \<Longrightarrow> xs = [] \<or> (\<exists>x. xs = [x]) \<or> (\<exists>x y. xs = [x, y])"
  by (auto simp: le_Suc_eq length_Suc_conv numeral_2_eq_2)

lemma url_decode_encode: "dec_run [] (url_encode s) = ([], s)"
proof (induction s)
  case (Cons b s)
  show ?case
  proof (cases "shouldEncodeThisByte b")
    case True
    then have "dec_run [] (url_encode (b # s)) = dec_run [] ((37 # sprintf_02X b) @ url_encode s)" by (simp add: url_encode_def)
    then show ?thesis using escaped_decodes [of b] Cons by (simp only: dec_run_append) simp
  next
    case False
    then have "b \<noteq> 37 \<and> b \<noteq> 43" by (auto simp: shouldEncodeThisByte_def)
    with False Cons show ?thesis by (simp add: url_encode_def)
  qed
qed (simp add: url_encode_def)

lemma url_encode_append: "url_encode (xs @ ys) = url_encode xs @ url_encode ys"
  by (simp add: url_encode_def)

lemma url_encode_length: "length s \<le> length (url_encode s) \<and> length (url_encode s) \<le> 3 * length s"
  by (induction s) (auto simp: url_encode_def sprintf_02X_def)

lemma url_encode_plain: "\<forall>b\<in>set s. \<not> shouldEncodeThisByte b \<Longrightarrow> url_encode s = s"
  by (induction s) (auto simp: url_encode_def)

lemma url_encoder_round:
  assumes "buf \<noteq> []"
  shows "\<exists>piece n. url_encode (take n buf) = piece \<and> 0 < n \<and> n \<le> length buf \<and>
    url_encoder_loop w out buf cur upd = (case writeFullStream w out piece upd of None \<Rightarrow> None
      | Some (out', r, upd') \<Rightarrow> if \<not> succeed (Status_add cur r) then Some (out', Status_add cur r, upd')
        else url_encoder_loop w out' (drop n buf) (Status_add cur r) upd')"
proof (cases "shouldEncodeThisByte (hd buf)")
  case True
  then have "takeWhile (\<lambda>b. \<not> shouldEncodeThisByte b) buf = []" using assms by (cases buf) auto
  moreover have "url_encode (take 1 buf) = 37 # sprintf_02X (hd buf)" using True assms by (cases buf) (auto simp: url_encode_def)
  ultimately show ?thesis using assms
    by (intro exI [of _ "37 # sprintf_02X (hd buf)"] exI [of _ 1]) (simp add: url_encoder_loop.simps [of w out buf] Suc_le_eq)
next
  case False
  obtain plain where plain: "plain = takeWhile (\<lambda>b. \<not> shouldEncodeThisByte b) buf" by blast
  have "take (length plain) buf = plain" unfolding plain by (metis append_eq_conv_conj takeWhile_dropWhile_id)
  moreover have "url_encode plain = plain" unfolding plain by (rule url_encode_plain) (auto dest: set_takeWhileD)
  moreover have "plain \<noteq> []" unfolding plain using False assms by (cases buf) auto
  moreover have "length plain \<le> length buf" unfolding plain by (rule length_takeWhile_le)
  ultimately show ?thesis
    by (intro exI [of _ plain] exI [of _ "length plain"]) (simp add: url_encoder_loop.simps [of w out buf] assms plain [symmetric])
qed

subsection \<open>Into a sink with room\<close>

context reliable_sink begin

lemma url_encoder_loop_complete:
  "inv out \<Longrightarrow> length (url_encode buf) \<le> room out \<Longrightarrow> succeed cur \<Longrightarrow> \<not> finish cur \<Longrightarrow>
   bytesWritten cur + length (url_encode buf) < u64_mod \<Longrightarrow>
   \<exists>out' cur' upd'. url_encoder_loop w out buf cur upd = Some (out', cur', upd') \<and> inv out' \<and>
     content out' = content out @ url_encode buf \<and> succeed cur' \<and> \<not> finish cur' \<and>
     bytesWritten cur' = bytesWritten cur + length (url_encode buf) \<and> room out \<le> room out' + length (url_encode buf)"
proof (induction buf arbitrary: out cur upd rule: length_induct)
  case (1 buf)
  show ?case
  proof (cases "buf = []")
    case True
    then show ?thesis using 1 by (simp add: url_encoder_loop.simps url_encode_def)
  next
    case False
    obtain piece n where p: "url_encode (take n buf) = piece" "0 < n" "n \<le> length buf"
      "url_encoder_loop w out buf cur upd = (case writeFullStream w out piece upd of None \<Rightarrow> None
        | Some (out', r, upd') \<Rightarrow> if \<not> succeed (Status_add cur r) then Some (out', Status_add cur r, upd')
          else url_encoder_loop w out' (drop n buf) (Status_add cur r) upd')"
      using url_encoder_round [OF False, of w out cur upd] by (elim exE conjE) (rule that)
    have enc: "url_encode buf = piece @ url_encode (drop n buf)"
      using p(1) url_encode_append [of "take n buf" "drop n buf"] by simp
    then have len: "length (url_encode buf) = length piece + length (url_encode (drop n buf))" by simp
    obtain out1 r upd1 where r: "writeFullStream w out piece upd = Some (out1, r, upd1)" "inv out1" "succeed r" "\<not> finish r"
      "bytesWritten r = length piece" "content out1 = content out @ piece" "room out \<le> room out1 + length piece"
      by (rule writeFullStream_complete [of out piece upd]) (use 1(2,3,6) len in linarith)+
    let ?cur = "Status_add cur r"
    have cur: "succeed ?cur" "\<not> finish ?cur" "bytesWritten ?cur = bytesWritten cur + length piece"
      using r 1(4,5,6) len by (simp_all add: add64_eq)
    have "length (drop n buf) < length buf" using p(2,3) by simp
    moreover have "length (url_encode (drop n buf)) \<le> room out1" using r(7) 1(3) len by linarith
    moreover have "bytesWritten ?cur + length (url_encode (drop n buf)) < u64_mod" using cur(3) 1(6) len by linarith
    ultimately obtain out2 cur2 upd2 where q: "url_encoder_loop w out1 (drop n buf) ?cur upd1 = Some (out2, cur2, upd2)"
      "inv out2" "content out2 = content out1 @ url_encode (drop n buf)" "succeed cur2" "\<not> finish cur2"
      "bytesWritten cur2 = bytesWritten ?cur + length (url_encode (drop n buf))" "room out1 \<le> room out2 + length (url_encode (drop n buf))"
      using 1(1) [rule_format, of "drop n buf" out1 ?cur upd1] r(2) cur(1,2) by blast
    have "url_encoder_loop w out buf cur upd = Some (out2, cur2, upd2)"
      using p(4) r(1) cur(1) q(1) by (simp del: Status_add_simps)
    then show ?thesis using q r(6,7) cur(3) enc len by (intro exI [of _ out2] exI [of _ cur2] exI [of _ upd2]) (simp only:, simp)
  qed
qed

lemma url_encoder_writes_all:
  assumes "inv (ue_orig e)" "c \<noteq> []" "length c \<le> 2 ^ 32" "length (url_encode c) \<le> room (ue_orig e)"
  shows "\<exists>e' cur upd'. writeFullStream (url_encoder_write w) e c upd = Some (e', cur, upd') \<and> inv (ue_orig e') \<and>
    content (ue_orig e') = content (ue_orig e) @ url_encode c \<and> succeed cur \<and> \<not> finish cur \<and>
    bytesWritten cur = length (url_encode c) \<and> room (ue_orig e) \<le> room (ue_orig e') + length (url_encode c)"
proof -
  have l: "length c \<le> length (url_encode c)" "length (url_encode c) < u64_mod" "\<not> length c > u64_max div 3 - 3"
    using url_encode_length [of c] assms(3) by (simp_all add: u64_mod_def u64_max_def)
  obtain out' cur' upd' where q: "url_encoder_loop w (ue_orig e) c Status_new upd = Some (out', cur', upd')" "inv out'"
    "content out' = content (ue_orig e) @ url_encode c" "succeed cur'" "\<not> finish cur'" "bytesWritten cur' = length (url_encode c)"
    "room (ue_orig e) \<le> room out' + length (url_encode c)"
    using url_encoder_loop_complete [OF assms(1,4), of Status_new upd] l(2) by auto
  have "bytesWritten (Status_add Status_new cur') = length (url_encode c)" using q(6) l(2) by (simp add: add64_eq)
  then have "writeFullStream (url_encoder_write w) e c upd = Some (e\<lparr>ue_orig := out'\<rparr>, Status_add Status_new cur', upd')"
    using q l assms(2) unfolding writeFullStream_def
    by (subst writeFullStream_loop.simps, subst writeFullStream_loop.simps) (auto simp: url_encoder_write_def)
  then show ?thesis using q l(2) by (simp add: add64_eq)
qed

lemma url_decoder_put_fits:
  assumes "inv (ud_orig d)" "length bs < u64_mod" "length bs \<le> room (ud_orig d)"
  shows "\<exists>d' ret upd'. url_decoder_put w d bs n upd = Some (d', ret, upd') \<and> succeed ret \<and> \<not> finish ret \<and> bytesWritten ret = n \<and>
    inv (ud_orig d') \<and> ud_pending d' = [] \<and> content (ud_orig d') = content (ud_orig d) @ bs \<and>
    room (ud_orig d) \<le> room (ud_orig d') + length bs"
  by (rule writeFullStream_complete [OF assms, of upd]) (auto simp: url_decoder_put_def)

lemma url_decoder_write_fits:
  assumes "inv (ud_orig d)" "length (ud_pending d) \<le> 2" "buf \<noteq> []" "length buf + 2 < u64_mod"
    "length (ud_pending d) + length buf \<le> room (ud_orig d)"
  shows "\<exists>d' ret upd' out. url_decoder_write w d buf upd = Some (d', ret, upd') \<and> succeed ret \<and> \<not> finish ret \<and>
    0 < bytesWritten ret \<and> bytesWritten ret \<le> length buf \<and> inv (ud_orig d') \<and>
    dec_run (ud_pending d) (take (bytesWritten ret) buf) = (ud_pending d', out) \<and>
    content (ud_orig d') = content (ud_orig d) @ out \<and> room (ud_orig d) \<le> room (ud_orig d') + length out"
proof -
  obtain b bs where buf: "buf = b # bs" using assms(3) by (cases buf) auto
  have put: "\<exists>d' ret upd' out. url_decoder_put w d o1 n upd = Some (d', ret, upd') \<and> succeed ret \<and> \<not> finish ret \<and>
      0 < bytesWritten ret \<and> bytesWritten ret \<le> length buf \<and> inv (ud_orig d') \<and>
      dec_run (ud_pending d) (take (bytesWritten ret) buf) = (ud_pending d', out) \<and>
      content (ud_orig d') = content (ud_orig d) @ out \<and> room (ud_orig d) \<le> room (ud_orig d') + length out"
    if "dec_run (ud_pending d) (take n buf) = ([], o1)" "0 < n" "n \<le> length buf" "length o1 \<le> length (ud_pending d) + length buf" for o1 n
  proof -
    have "length o1 < u64_mod" "length o1 \<le> room (ud_orig d)" using that(4) assms(2,4,5) by linarith+
    from url_decoder_put_fits [OF assms(1) this, of n upd] that(1-3) show ?thesis by metis
  qed
  consider (none) "ud_pending d = []" | (one) x where "ud_pending d = [x]" | (two) x a where "ud_pending d = [x, a]"
    using at_most_two [OF assms(2)] by blast
  then show ?thesis
  proof cases
    case none
    let ?plain = "takeWhile (\<lambda>b. b \<noteq> 37 \<and> b \<noteq> 43) buf"
    show ?thesis
    proof (cases "b \<noteq> 37 \<and> b \<noteq> 43")
      case True
      have "take (length ?plain) buf = ?plain" using takeWhile_eq_take [of "\<lambda>b. b \<noteq> 37 \<and> b \<noteq> 43" buf] by simp
      moreover have "dec_run [] ?plain = ([], ?plain)" using set_takeWhileD [of _ "\<lambda>b. b \<noteq> 37 \<and> b \<noteq> 43" buf] by (intro dec_run_plain) blast
      moreover have "?plain \<noteq> []" using True buf by simp
      ultimately show ?thesis
        using put [of "length ?plain" ?plain] length_takeWhile_le [of "\<lambda>b. b \<noteq> 37 \<and> b \<noteq> 43" buf] assms(3) none
        by (simp add: url_decoder_write_def Let_def)
    next
      case False
      then show ?thesis using none buf assms(1) put [of 1 "[32]"] by (cases "b = 37") (auto simp: url_decoder_write_def)
    qed
  next
    case (one x)
    then show ?thesis using buf assms(1) put [of 1 "[x, b]"] by (cases "c_isxdigit b") (auto simp: url_decoder_write_def)
  next
    case (two x a)
    then show ?thesis using buf put [of 1 "[hexPairToByte a b]"] put [of 1 "[x, a, b]"]
      by (cases "c_isxdigit b") (auto simp: url_decoder_write_def)
  qed
qed

text \<open>A whole buffer through the decoder.\<close>

lemma url_decoder_loop_complete:
  "inv (ud_orig d) \<Longrightarrow> length (ud_pending d) \<le> 2 \<Longrightarrow> succeed cur \<Longrightarrow> \<not> finish cur \<Longrightarrow> bytesWritten cur \<le> length buf \<Longrightarrow>
   length buf + 2 < u64_mod \<Longrightarrow> length (ud_pending d) + (length buf - bytesWritten cur) \<le> room (ud_orig d) \<Longrightarrow>
   \<exists>d' cur' upd' out. writeFullStream_loop (url_decoder_write w) buf d cur upd = Some (d', cur', upd') \<and> succeed cur' \<and> \<not> finish cur' \<and>
     bytesWritten cur' = length buf \<and> inv (ud_orig d') \<and> dec_run (ud_pending d) (drop (bytesWritten cur) buf) = (ud_pending d', out) \<and>
     content (ud_orig d') = content (ud_orig d) @ out \<and> room (ud_orig d) \<le> room (ud_orig d') + length out"
proof (induction "length buf - bytesWritten cur" arbitrary: d cur upd rule: less_induct)
  case less
  show ?case
  proof (cases "bytesWritten cur < length buf")
    case False
    then show ?thesis using less.prems by (simp add: writeFullStream_loop.simps [of "url_decoder_write w" buf d])
  next
    case True
    let ?b = "drop (bytesWritten cur) buf"
    have b: "?b \<noteq> []" "length ?b + 2 < u64_mod" "length (ud_pending d) + length ?b \<le> room (ud_orig d)" using True less.prems(6,7) by auto
    obtain d1 ret upd1 o1 where r: "url_decoder_write w d ?b upd = Some (d1, ret, upd1)" "succeed ret" "\<not> finish ret"
      "0 < bytesWritten ret" "bytesWritten ret \<le> length ?b" "inv (ud_orig d1)"
      "dec_run (ud_pending d) (take (bytesWritten ret) ?b) = (ud_pending d1, o1)"
      "content (ud_orig d1) = content (ud_orig d) @ o1" "room (ud_orig d) \<le> room (ud_orig d1) + length o1"
      using url_decoder_write_fits [OF less.prems(1,2) b] by blast
    let ?cur = "Status_add cur ret"
    have n: "bytesWritten cur + bytesWritten ret \<le> length buf" using r(5) True by simp
    then have c: "bytesWritten ?cur = bytesWritten cur + bytesWritten ret" "succeed ?cur" "\<not> finish ?cur"
      using less.prems(3,4,6) r(2,3) by (simp_all add: add64_eq)
    have p1: "length (ud_pending d1) \<le> 2" "length (ud_pending d1) + length o1 \<le> length (ud_pending d) + bytesWritten ret"
      using dec_run_length [OF r(7) less.prems(2)] r(5) by auto
    have dec: "length buf - bytesWritten ?cur < length buf - bytesWritten cur" using c(1) r(4) True by linarith
    have le: "bytesWritten ?cur \<le> length buf" using c(1) n by linarith
    have rm: "length (ud_pending d1) + (length buf - bytesWritten ?cur) \<le> room (ud_orig d1)"
      using p1(2) r(9) less.prems(7) c(1) n by linarith
    obtain d2 cur2 upd2 o2 where q: "writeFullStream_loop (url_decoder_write w) buf d1 ?cur upd1 = Some (d2, cur2, upd2)" "succeed cur2"
      "\<not> finish cur2" "bytesWritten cur2 = length buf" "inv (ud_orig d2)"
      "dec_run (ud_pending d1) (drop (bytesWritten ?cur) buf) = (ud_pending d2, o2)"
      "content (ud_orig d2) = content (ud_orig d1) @ o2" "room (ud_orig d1) \<le> room (ud_orig d2) + length o2"
      using less.hyps [OF dec r(6) p1(1) c(2,3) le less.prems(6) rm, of upd1] by blast
    have "?b = take (bytesWritten ret) ?b @ drop (bytesWritten ?cur) buf"
      unfolding c(1) by (metis append_take_drop_id drop_drop add.commute)
    then have "dec_run (ud_pending d) ?b = (ud_pending d2, o1 @ o2)"
      using dec_run_append [of "ud_pending d" "take (bytesWritten ret) ?b" "drop (bytesWritten ?cur) buf"] r(7) q(6) by simp
    moreover have "writeFullStream_loop (url_decoder_write w) buf d cur upd = Some (d2, cur2, upd2)"
      using True r(1) c(2,3) q(1) by (simp add: writeFullStream_loop.simps [of "url_decoder_write w" buf d] del: Status_add_simps)
    moreover have "content (ud_orig d2) = content (ud_orig d) @ (o1 @ o2)" "room (ud_orig d) \<le> room (ud_orig d2) + length (o1 @ o2)"
      using r(8,9) q(7,8) by simp_all
    ultimately show ?thesis using q(2-5) by blast
  qed
qed

lemma url_decoder_pieces:
  "inv (ud_orig d) \<Longrightarrow> length (ud_pending d) \<le> 2 \<Longrightarrow> length (concat cs) + 2 < u64_mod \<Longrightarrow>
   length (ud_pending d) + length (concat cs) \<le> room (ud_orig d) \<Longrightarrow>
   \<exists>d' upd' n out. copyToSO_loop (url_decoder_write w) d cs upd acum = Some (d', upd', n) \<and> inv (ud_orig d') \<and>
     dec_run (ud_pending d) (concat cs) = (ud_pending d', out) \<and> content (ud_orig d') = content (ud_orig d) @ out \<and>
     room (ud_orig d) \<le> room (ud_orig d') + length out"
proof (induction cs arbitrary: d upd acum)
  case (Cons c cs)
  have c: "length c + 2 < u64_mod" "length (ud_pending d) + (length c - bytesWritten Status_new) \<le> room (ud_orig d)"
    using Cons.prems(3,4) by simp_all
  obtain d1 cur upd1 o1 where r: "writeFullStream (url_decoder_write w) d c upd = Some (d1, cur, upd1)" "succeed cur" "\<not> finish cur"
    "bytesWritten cur = length c" "inv (ud_orig d1)" "dec_run (ud_pending d) c = (ud_pending d1, o1)"
    "content (ud_orig d1) = content (ud_orig d) @ o1" "room (ud_orig d) \<le> room (ud_orig d1) + length o1"
    using url_decoder_loop_complete [OF Cons.prems(1,2) _ _ _ c, of upd] by (auto simp: writeFullStream_def)
  have p: "length (ud_pending d1) \<le> 2" "length (ud_pending d1) + length o1 \<le> length (ud_pending d) + length c"
    using dec_run_length [OF r(6) Cons.prems(2)] by auto
  have h: "length (concat cs) + 2 < u64_mod" "length (ud_pending d1) + length (concat cs) \<le> room (ud_orig d1)"
    using Cons.prems(3,4) p(2) r(8) by simp_all
  obtain d2 upd2 n o2 where "copyToSO_loop (url_decoder_write w) d1 cs upd1 (Status_add acum cur) = Some (d2, upd2, n)" "inv (ud_orig d2)"
    "dec_run (ud_pending d1) (concat cs) = (ud_pending d2, o2)" "content (ud_orig d2) = content (ud_orig d1) @ o2"
    "room (ud_orig d1) \<le> room (ud_orig d2) + length o2"
    using Cons.IH [OF r(5) p(1) h] by blast
  then show ?case using r by (auto simp: dec_run_append Let_def)
qed simp

end

subsection \<open>Whole texts\<close>

interpretation indexed_sink: reliable_sink "base_write (chunks_virtuals os)" chunks_content chunks_indexed chunks_room
  by unfold_locales (use chunks_sink.write_fits chunks_indexedD(1) in blast)

lemma mem_streamTo_text:
  assumes "url \<noteq> []" "length url < 2 ^ 32"
  shows "base_streamTo mem_copyTo2 mem_virtuals M (mem_construct (Some url) (length url)) out upd =
    (case copyToSO_loop (so_write M) out (mem_pieces url 0 (length url)) upd Status_new of
       None \<Rightarrow> None | Some (o1, u1, n) \<Rightarrow> map_option (\<lambda>o2. (o2, u1, True)) (so_writeEOF M o1 True))"
proof -
  let ?s = "mem_construct (Some url) (length url)"
  have s: "linearMem ?s = Some url" "mem_size ?s = length url"
    using assms by (simp_all add: mem_construct_def mem_reference_def mem_size_def setContainerBytes_def mod_less)
  have n: "length url < u64_mod" "length url \<noteq> 0" using assms by (auto simp: u64_mod_def)
  show ?thesis using s n
    by (simp add: base_streamTo_def base_appendTo_upd_def mem_virtuals_def mem_copyTo2_def mem_range_pieces_def no_overflow_sum
        copyToSOUsingCleanVector_def Let_def add64_eq split: option.splits)
qed

lemma mem_streamTo_empty:
  "base_streamTo mem_copyTo2 mem_virtuals M (mem_construct (Some []) 0) out upd = map_option (\<lambda>o2. (o2, upd, True)) (so_writeEOF M out True)"
  by (simp add: base_streamTo_def base_appendTo_upd_def mem_virtuals_def mem_construct_def mem_new_def mem_size_def B_Base_new_def
      b_base.extend_def no_overflow_sum u64_mod_def)

lemma url_decoder_flush:
  assumes "chunks_indexed (ud_orig d)" "length (ud_pending d) \<le> 2" "length (ud_pending d) \<le> chunks_room (ud_orig d)"
  shows "\<exists>d'. url_decoder_writeEOF (base_write (chunks_virtuals os)) d b = Some d' \<and> chunks_indexed (ud_orig d') \<and>
    chunks_content (ud_orig d') = chunks_content (ud_orig d) @ ud_pending d"
proof -
  have "length (ud_pending d) < u64_mod" using assms(2) by (simp add: u64_mod_def)
  then show ?thesis
    by (rule indexed_sink.writeFullStream_complete [OF assms(1) _ assms(3), of os Status_new]) (simp add: url_decoder_writeEOF_def)
qed

lemma decodeURLStr_decodes:
  assumes "length url \<le> 2 ^ 18"
  shows "decodeURLStr os url = Some (url_decode url)"
proof -
  let ?w = "base_write (chunks_virtuals os)" let ?d = "\<lparr>ud_pending = [], ud_orig = chunks_new\<rparr>"
  have room: "chunks_room chunks_new = 262144" using chunks_new_indexed(3) by (simp add: KB_MULT_def)
  obtain d1 upd1 n out where r: "copyToSO_loop (url_decoder_write ?w) ?d (mem_pieces url 0 (length url)) Status_new Status_new = Some (d1, upd1, n)"
    "chunks_indexed (ud_orig d1)" "dec_run [] url = (ud_pending d1, out)" "chunks_content (ud_orig d1) = out"
    "262144 \<le> chunks_room (ud_orig d1) + length out"
    using indexed_sink.url_decoder_pieces [of ?d "mem_pieces url 0 (length url)" os Status_new Status_new] assms chunks_new_indexed(1,2) room
    by (auto simp: concat_mem_pieces segment_def u64_mod_def)
  have p: "length (ud_pending d1) \<le> 2" "length (ud_pending d1) \<le> chunks_room (ud_orig d1)"
    using dec_run_length [OF r(3)] r(5) assms by simp_all
  obtain d2 where d2: "url_decoder_writeEOF ?w d1 True = Some d2" "chunks_indexed (ud_orig d2)"
    "chunks_content (ud_orig d2) = url_decode url"
    using url_decoder_flush [OF r(2) p, of os True] r(3,4) by (auto simp: url_decode_def)
  have shown: "base_toString (chunks_virtuals os) (ud_orig d2) u64_max 0 = Some (url_decode url)"
    using chunks_c.toString_all [OF d2(2)] d2(3) by simp
  show ?thesis
  proof (cases "url = []")
    case True
    then have "d1 = ?d" using r(1) by (simp add: mem_pieces.simps)
    then show ?thesis using True d2(1) shown by (simp add: decodeURLStr_def mem_streamTo_empty url_decoder_methods_def)
  next
    case False
    then show ?thesis using r(1) d2(1) shown assms by (simp add: decodeURLStr_def mem_streamTo_text url_decoder_methods_def)
  qed
qed

lemma url_encode_escapes: "\<exists>b\<in>set s. shouldEncodeThisByte b \<Longrightarrow> length s < length (url_encode s)"
proof (induction s)
  case (Cons b s)
  show ?case
  proof (cases "shouldEncodeThisByte b")
    case True
    then show ?thesis using url_encode_length [of s] by (simp add: url_encode_def sprintf_02X_def)
  next
    case False
    then have "\<exists>b\<in>set s. shouldEncodeThisByte b" using Cons.prems by auto
    then show ?thesis using Cons.IH False by (simp add: url_encode_def)
  qed
qed simp

lemma first_piece:
  assumes "s \<noteq> []"
  shows "\<exists>cs. mem_pieces s 0 (length s) = take 65536 s # cs \<and> (length s \<le> 65536 \<longrightarrow> cs = [])"
  using assms by (auto simp: mem_pieces.simps [of s 0] mem_pieces.simps [of s _ 0] Let_def KB_MULT_def segment_def)

text \<open>The encoder reports the bytes it has put out, not those it was given.\<close>

lemma encodeURLStr_first_piece:
  assumes "length s \<le> 65536 \<or> (\<exists>b\<in>set (take 65536 s). shouldEncodeThisByte b)" "length s < 2 ^ 32"
  shows "encodeURLStr os s = Some (url_encode (take 65536 s))"
proof (cases "s = []")
  case True
  then show ?thesis using chunks_c.toString_all [OF chunks_new_indexed(1), of os]
    by (simp add: encodeURLStr_def mem_streamTo_empty url_encoder_methods_def chunks_new_indexed url_encode_def)
next
  case False
  let ?w = "base_write (chunks_virtuals os)" let ?c = "take 65536 s"
  let ?e = "\<lparr>failedWriteState = 0, ue_orig = chunks_new\<rparr>"
  have room: "chunks_room chunks_new = 262144" using chunks_new_indexed(3) by (simp add: KB_MULT_def)
  obtain cs where cs: "mem_pieces s 0 (length s) = ?c # cs" "length s \<le> 65536 \<longrightarrow> cs = []" using first_piece [OF False] by blast
  have "length (url_encode ?c) \<le> 262144" using url_encode_length [of ?c] length_take [of 65536 s] by linarith
  moreover have "length ?c \<le> 2 ^ 32" by (simp add: min_def)
  ultimately obtain e1 cur upd1 where r: "writeFullStream (url_encoder_write ?w) ?e ?c Status_new = Some (e1, cur, upd1)"
    "chunks_indexed (ue_orig e1)" "chunks_content (ue_orig e1) = url_encode ?c" "succeed cur" "\<not> finish cur"
    "bytesWritten cur = length (url_encode ?c)"
    using indexed_sink.url_encoder_writes_all [of ?e ?c os Status_new] False room chunks_new_indexed by auto
  have "\<exists>u n. copyToSO_loop (url_encoder_write ?w) ?e (?c # cs) Status_new Status_new = Some (e1, u, n)"
  proof (cases "length s \<le> 65536")
    case True
    then show ?thesis using r(1,4,5) cs(2) by (simp add: Let_def)
  next
    case False
    then have "bytesWritten cur \<noteq> length ?c" using r(6) assms(1) url_encode_escapes [of ?c] by auto
    then show ?thesis using r(1) by (simp add: Let_def)
  qed
  then obtain u n where "copyToSO_loop (url_encoder_write ?w) ?e (?c # cs) Status_new Status_new = Some (e1, u, n)" by blast
  moreover have "base_toString (chunks_virtuals os) (ue_orig e1) u64_max 0 = Some (url_encode ?c)"
    using chunks_c.toString_all [OF r(2)] r(3) by simp
  ultimately show ?thesis using False cs(1) assms(2) by (simp add: encodeURLStr_def mem_streamTo_text url_encoder_methods_def)
qed

subsection \<open>Properties\<close>

text \<open>C38: percent coding of texts: \<^verbatim>\<open>decodeURLStr\<close> gives, for every text up to 256 KB, what the automaton of the code
  \<^verbatim>\<open>url_decode\<close> says, however the text is cut on its way through the streams; and it gives back every text up to 64 KB
  that \<^verbatim>\<open>encodeURLStr\<close> has encoded.\<close>

theorem url_text_round_trip:
  assumes "length s \<le> 65536" "length t \<le> 2 ^ 18"
  shows "Option.bind (encodeURLStr os s) (decodeURLStr os) = Some s \<and> decodeURLStr os t = Some (url_decode t)"
proof -
  have "length (url_encode s) \<le> 2 ^ 18" using url_encode_length [of s] assms(1) by simp
  then have "decodeURLStr os (url_encode s) = Some s"
    using decodeURLStr_decodes [of "url_encode s" os] by (simp add: url_decode_def url_decode_encode)
  then show ?thesis using encodeURLStr_first_piece [of s os] decodeURLStr_decodes [OF assms(2)] assms(1) by simp
qed

text \<open>The encoder loses what follows: a text above 64 KB with a byte to be escaped in its first 64 KB is encoded as if it
  ended there, because the stream that sends it takes the larger count of bytes put out for a failure.\<close>

theorem url_encoder_truncates:
  assumes "65536 < length s" "length s < 2 ^ 32" "\<exists>b\<in>set (take 65536 s). shouldEncodeThisByte b"
  shows "encodeURLStr os s = Some (url_encode (take 65536 s))"
  using encodeURLStr_first_piece [of s os] assms by blast

lemma url_text_round_trip_witness:
  "Option.bind (encodeURLStr (os_fine []) [97, 32, 98]) (decodeURLStr (os_fine [])) = Some [97, 32, 98]"
  using url_text_round_trip [of "[97, 32, 98]" "[]" "os_fine []"] by simp

lemma url_encoder_truncates_witness:
  "encodeURLStr (os_fine []) (32 # replicate 65536 97) = Some (url_encode (take 65536 (32 # replicate 65536 97)))"
  by (rule url_encoder_truncates) (simp_all add: shouldEncodeThisByte_def take_Cons')

end
