(* ===== verification/Http_Date.thy ===== *)
theory Http_Date
  imports Std_Map
begin

text \<open>
  \<^verbatim>\<open>Protocols/mdz_proto_http/common_date.cpp\<close>: a date as text and back (the branches for POSIX). \<^verbatim>\<open>strftime\<close> and
  \<^verbatim>\<open>strptime\<close> of the C library are modelled for the conversions that are used, in the C locale. Boost's \<^verbatim>\<open>to_tm\<close>
  and \<^verbatim>\<open>mktime\<close>, which depends on the time zone of the process, are a record of functions.
\<close>

subsection \<open>Calendar time\<close>

text \<open>The fields of \<^verbatim>\<open>struct tm\<close> that the formats mention.\<close>

record tm =
  tm_sec :: nat
  tm_min :: nat
  tm_hour :: nat
  tm_mday :: nat
  tm_mon :: nat
  tm_year :: int
  tm_wday :: nat

definition tm_zero :: tm where
  "tm_zero = \<lparr>tm_sec = 0, tm_min = 0, tm_hour = 0, tm_mday = 0, tm_mon = 0, tm_year = 0, tm_wday = 0\<rparr>"

record time_lib =
  lib_to_tm :: "int \<Rightarrow> tm"
  lib_mktime :: "tm \<Rightarrow> int"

definition day_names :: "string list" where
  "day_names = [''Sunday'', ''Monday'', ''Tuesday'', ''Wednesday'', ''Thursday'', ''Friday'', ''Saturday'']"

definition month_names :: "string list" where
  "month_names = [''January'', ''February'', ''March'', ''April'', ''May'', ''June'', ''July'', ''August'', ''September'',
     ''October'', ''November'', ''December'']"

subsection \<open>Writing\<close>

definition two_digits :: "nat \<Rightarrow> string" where
  "two_digits n = (if n < 10 then ''0'' @ to_string n else to_string n)"

definition written :: "char \<Rightarrow> tm \<Rightarrow> string" where
  "written k t =
     (if k = CHR ''a'' then take 3 (day_names ! tm_wday t)
      else if k = CHR ''d'' then two_digits (tm_mday t)
      else if k = CHR ''b'' then take 3 (month_names ! tm_mon t)
      else if k = CHR ''Y'' then to_string_int (1900 + tm_year t)
      else if k = CHR ''T'' then two_digits (tm_hour t) @ '':'' @ two_digits (tm_min t) @ '':'' @ two_digits (tm_sec t)
      else [])"

fun strftime :: "string \<Rightarrow> tm \<Rightarrow> string" where
  "strftime [] t = []"
| "strftime (f # fs) t =
     (if f = CHR ''%'' then (case fs of [] \<Rightarrow> [] | k # fs' \<Rightarrow> written k t @ strftime fs' t) else f # strftime fs t)"

subsection \<open>Reading\<close>

definition upper_char :: "char \<Rightarrow> char" where
  "upper_char c = (let n = of_char c :: nat in if 97 \<le> n \<and> n \<le> 122 then char_of (n - 32) else c)"

definition starts_nocase :: "string \<Rightarrow> string \<Rightarrow> bool" where
  "starts_nocase p s \<longleftrightarrow> map upper_char (take (length p) s) = map upper_char p"

text \<open>A name in full or its first three letters: its position in the list, and the rest of the text.\<close>

fun read_name :: "string list \<Rightarrow> nat \<Rightarrow> string \<Rightarrow> (nat \<times> string) option" where
  "read_name [] i s = None"
| "read_name (n # ns) i s =
     (if starts_nocase n s then Some (i, drop (length n) s)
      else if starts_nocase (take 3 n) s then Some (i, drop 3 s)
      else read_name ns (Suc i) s)"

text \<open>A number between two bounds of at most \<^verbatim>\<open>w\<close> digits, after spaces.\<close>

definition read_number :: "nat \<Rightarrow> nat \<Rightarrow> nat \<Rightarrow> string \<Rightarrow> (nat \<times> string) option" where
  "read_number lo hi w s =
     (let s1 = dropWhile is_space s; ds = takeWhile (\<lambda>c. digit_value c \<noteq> None) (take w s1); v = read_digits 0 ds
      in if ds = [] \<or> v < lo \<or> hi < v then None else Some (v, drop (length ds) s1))"

text \<open>\<^verbatim>\<open>%Z\<close> skips a word.\<close>

definition read_field :: "char \<Rightarrow> string \<Rightarrow> tm \<Rightarrow> (tm \<times> string) option" where
  "read_field k s t =
     (if k = CHR ''a'' then map_option (\<lambda>(n, r). (t\<lparr>tm_wday := n\<rparr>, r)) (read_name day_names 0 s)
      else if k = CHR ''d'' then map_option (\<lambda>(n, r). (t\<lparr>tm_mday := n\<rparr>, r)) (read_number 1 31 2 s)
      else if k = CHR ''b'' then map_option (\<lambda>(n, r). (t\<lparr>tm_mon := n\<rparr>, r)) (read_name month_names 0 s)
      else if k = CHR ''Y'' then map_option (\<lambda>(n, r). (t\<lparr>tm_year := int n - 1900\<rparr>, r)) (read_number 0 9999 4 s)
      else if k = CHR ''H'' then map_option (\<lambda>(n, r). (t\<lparr>tm_hour := n\<rparr>, r)) (read_number 0 23 2 s)
      else if k = CHR ''M'' then map_option (\<lambda>(n, r). (t\<lparr>tm_min := n\<rparr>, r)) (read_number 0 59 2 s)
      else if k = CHR ''S'' then map_option (\<lambda>(n, r). (t\<lparr>tm_sec := n\<rparr>, r)) (read_number 0 60 2 s)
      else if k = CHR ''Z'' then Some (t, dropWhile (\<lambda>c. \<not> is_space c) (dropWhile is_space s))
      else None)"

fun strptime :: "string \<Rightarrow> string \<Rightarrow> tm \<Rightarrow> tm option" where
  "strptime [] s t = Some t"
| "strptime (f # fs) s t =
     (if is_space f then strptime fs (dropWhile is_space s) t
      else if f = CHR ''%''
      then (case fs of
          [] \<Rightarrow> None
        | k # fs' \<Rightarrow> (case read_field k s t of None \<Rightarrow> None | Some (t', r) \<Rightarrow> strptime fs' r t'))
      else (case s of [] \<Rightarrow> None | c # cs \<Rightarrow> if c = f then strptime fs cs t else None))"

subsection \<open>Dates\<close>

definition Date_toString :: "'a time_lib_scheme \<Rightarrow> int \<Rightarrow> string" where
  "Date_toString L rawTime = strftime ''%a, %d %b %Y %T GMT'' (lib_to_tm L rawTime)"

text \<open>The time, and whether the text was a date.\<close>

definition Date_fromString :: "'a time_lib_scheme \<Rightarrow> string \<Rightarrow> int \<times> bool" where
  "Date_fromString L fTime =
     (case strptime ''%a, %d %b %Y %H:%M:%S %Z'' (takeWhile (\<lambda>c. c \<noteq> CHR 0x00) fTime) tm_zero of
        Some timeinfo \<Rightarrow> (lib_mktime L timeinfo, True)
      | None \<Rightarrow> (0, False))"

definition Date_incTime :: "int \<Rightarrow> nat \<Rightarrow> int" where
  "Date_incTime rawTime seconds = rawTime + int seconds"

subsection \<open>What the library promises\<close>

definition tm_ok :: "tm \<Rightarrow> bool" where
  "tm_ok t \<longleftrightarrow> tm_sec t < 60 \<and> tm_min t < 60 \<and> tm_hour t < 24 \<and> 1 \<le> tm_mday t \<and> tm_mday t \<le> 31 \<and> tm_mon t < 12 \<and>
     0 \<le> 1900 + tm_year t \<and> 1900 + tm_year t \<le> 9999 \<and> tm_wday t < 7"

definition leap_year :: "int \<Rightarrow> bool" where
  "leap_year y \<longleftrightarrow> y mod 4 = 0 \<and> (y mod 100 \<noteq> 0 \<or> y mod 400 = 0)"

definition days_of_month :: "int \<Rightarrow> nat \<Rightarrow> int" where
  "days_of_month y m =
     (if m = 1 then (if leap_year y then 29 else 28) else if m \<in> {3, 5, 8, 10} then 30 else 31)"

text \<open>The seconds from the start of 1970 to a date, in Gregorian years.\<close>

definition utc_seconds :: "tm \<Rightarrow> int" where
  "utc_seconds t =
     (let y = 1900 + tm_year t; p = y - 1;
          days = 365 * (y - 1970) + (p div 4 - p div 100 + p div 400) - 477 +
            sum_list (map (days_of_month y) [0..<tm_mon t]) + int (tm_mday t) - 1
      in ((days * 24 + int (tm_hour t)) * 60 + int (tm_min t)) * 60 + int (tm_sec t))"

text \<open>\<^verbatim>\<open>to_tm\<close> gives the calendar fields of a time in UTC. \<^verbatim>\<open>mktime\<close> takes the fields as a local time: in a zone that is
  \<^verbatim>\<open>z\<close> seconds behind UTC, without daylight saving time, it adds \<^verbatim>\<open>z\<close>.\<close>

definition library_dates :: "'a time_lib_scheme \<Rightarrow> int \<Rightarrow> int \<Rightarrow> bool" where
  "library_dates L z t \<longleftrightarrow> tm_ok (lib_to_tm L t) \<and> utc_seconds (lib_to_tm L t) = t \<and>
     lib_mktime L (lib_to_tm L t) = utc_seconds (lib_to_tm L t) + z"

subsection \<open>Reading what was written\<close>

lemma upper_letters:
  "upper_char CHR ''a'' = CHR ''A''" "upper_char CHR ''b'' = CHR ''B''" "upper_char CHR ''c'' = CHR ''C''"
  "upper_char CHR ''d'' = CHR ''D''" "upper_char CHR ''e'' = CHR ''E''" "upper_char CHR ''f'' = CHR ''F''"
  "upper_char CHR ''g'' = CHR ''G''" "upper_char CHR ''h'' = CHR ''H''" "upper_char CHR ''i'' = CHR ''I''"
  "upper_char CHR ''j'' = CHR ''J''" "upper_char CHR ''k'' = CHR ''K''" "upper_char CHR ''l'' = CHR ''L''"
  "upper_char CHR ''m'' = CHR ''M''" "upper_char CHR ''n'' = CHR ''N''" "upper_char CHR ''o'' = CHR ''O''"
  "upper_char CHR ''p'' = CHR ''P''" "upper_char CHR ''q'' = CHR ''Q''" "upper_char CHR ''r'' = CHR ''R''"
  "upper_char CHR ''s'' = CHR ''S''" "upper_char CHR ''t'' = CHR ''T''" "upper_char CHR ''u'' = CHR ''U''"
  "upper_char CHR ''v'' = CHR ''V''" "upper_char CHR ''w'' = CHR ''W''" "upper_char CHR ''x'' = CHR ''X''"
  "upper_char CHR ''y'' = CHR ''Y''" "upper_char CHR ''z'' = CHR ''Z''" "upper_char CHR ''A'' = CHR ''A''"
  "upper_char CHR ''B'' = CHR ''B''" "upper_char CHR ''C'' = CHR ''C''" "upper_char CHR ''D'' = CHR ''D''"
  "upper_char CHR ''E'' = CHR ''E''" "upper_char CHR ''F'' = CHR ''F''" "upper_char CHR ''G'' = CHR ''G''"
  "upper_char CHR ''H'' = CHR ''H''" "upper_char CHR ''I'' = CHR ''I''" "upper_char CHR ''J'' = CHR ''J''"
  "upper_char CHR ''K'' = CHR ''K''" "upper_char CHR ''L'' = CHR ''L''" "upper_char CHR ''M'' = CHR ''M''"
  "upper_char CHR ''N'' = CHR ''N''" "upper_char CHR ''O'' = CHR ''O''" "upper_char CHR ''P'' = CHR ''P''"
  "upper_char CHR ''Q'' = CHR ''Q''" "upper_char CHR ''R'' = CHR ''R''" "upper_char CHR ''S'' = CHR ''S''"
  "upper_char CHR ''T'' = CHR ''T''" "upper_char CHR ''U'' = CHR ''U''" "upper_char CHR ''V'' = CHR ''V''"
  "upper_char CHR ''W'' = CHR ''W''" "upper_char CHR ''X'' = CHR ''X''" "upper_char CHR ''Y'' = CHR ''Y''"
  "upper_char CHR ''Z'' = CHR ''Z''" "upper_char CHR ''-'' = CHR ''-''" "upper_char CHR ''='' = CHR ''=''"
  "upper_char CHR '','' = CHR '',''" "upper_char CHR '' '' = CHR '' ''"
  by code_simp+

lemma starts_nocase_simps [simp]:
  "starts_nocase [] s" "\<not> starts_nocase (p # ps) []"
  "starts_nocase (p # ps) (c # cs) = (if upper_char c = upper_char p then starts_nocase ps cs else False)"
  by (auto simp: starts_nocase_def)

lemma read_day:
  assumes "i < 7"
  shows "read_name day_names 0 (take 3 (day_names ! i) @ '','' @ s) = Some (i, '','' @ s)"
proof -
  have "i = 0 \<or> i = 1 \<or> i = 2 \<or> i = 3 \<or> i = 4 \<or> i = 5 \<or> i = 6" using assms by linarith
  then show ?thesis by (elim disjE) (simp_all add: day_names_def upper_letters)
qed

lemma read_month:
  assumes "i < 12"
  shows "read_name month_names 0 (take 3 (month_names ! i) @ '' '' @ s) = Some (i, '' '' @ s)"
proof -
  have "i = 0 \<or> i = 1 \<or> i = 2 \<or> i = 3 \<or> i = 4 \<or> i = 5 \<or> i = 6 \<or> i = 7 \<or> i = 8 \<or> i = 9 \<or> i = 10 \<or> i = 11"
    using assms by presburger
  then show ?thesis by (elim disjE) (simp_all add: month_names_def upper_letters)
qed

lemma to_string_short: "n < 10 ^ k \<Longrightarrow> 0 < k \<Longrightarrow> length (to_string n) \<le> k"
proof (induction k arbitrary: n)
  case (Suc k)
  show ?case
  proof (cases "n < 10")
    case False
    have "length (to_string (n div 10)) \<le> k"
      using Suc False by (intro Suc.IH) (auto intro: gr0I simp: less_mult_imp_div_less mult.commute)
    then show ?thesis by (subst to_string.simps) simp
  qed (subst to_string.simps, simp)
qed simp

text \<open>A number that is followed by something else is read again.\<close>

lemma read_number_written:
  assumes "list_all (\<lambda>c. digit_value c \<noteq> None) ds" "ds \<noteq> []" "length ds \<le> w" "lo \<le> read_digits 0 ds" "read_digits 0 ds \<le> hi"
    "digit_value c = None"
  shows "read_number lo hi w (ds @ c # s) = Some (read_digits 0 ds, c # s)"
proof -
  obtain d ds' where d: "ds = d # ds'" using assms(2) by (cases ds) auto
  then have "\<not> is_space d" using digit_plain [of d] assms(1) by simp
  then have sp: "dropWhile is_space (ds @ c # s) = ds @ c # s" using d by simp
  have "takeWhile (\<lambda>c. digit_value c \<noteq> None) (take w (ds @ c # s)) = ds"
    using assms(1,3,6) by (cases "w - length ds") (auto simp: list_all_iff takeWhile_append2)
  then show ?thesis using assms(2,4,5) by (simp add: read_number_def sp Let_def)
qed

lemma two_digits_read:
  assumes "n < 100"
  shows "list_all (\<lambda>c. digit_value c \<noteq> None) (two_digits n) \<and> two_digits n \<noteq> [] \<and> length (two_digits n) \<le> 2 \<and>
    read_digits 0 (two_digits n) = n"
proof -
  have z: "digit_value CHR ''0'' = Some 0" by (simp add: digit_value_def)
  have "length (to_string n) \<le> 1" if "n < 10" using to_string_short [of n 1] that by simp
  moreover have "length (to_string n) \<le> 2" using to_string_short [of n 2] assms by simp
  ultimately show ?thesis using to_string_digits [of n] z by (simp add: two_digits_def)
qed

lemma read_two_digits:
  "n < 100 \<Longrightarrow> lo \<le> n \<Longrightarrow> n \<le> hi \<Longrightarrow> digit_value c = None \<Longrightarrow> read_number lo hi 2 (two_digits n @ c # s) = Some (n, c # s)"
  using read_number_written [of "two_digits n" 2 lo hi c s] two_digits_read [of n] by simp

lemma read_year:
  "0 \<le> y \<Longrightarrow> y \<le> 9999 \<Longrightarrow> digit_value c = None \<Longrightarrow> read_number 0 9999 4 (to_string_int y @ c # s) = Some (nat y, c # s)"
  using read_number_written [of "to_string (nat y)" 4 0 9999 c s] to_string_digits [of "nat y"] to_string_short [of "nat y" 4]
  by (simp add: to_string_int_def)

lemma no_digits: "digit_value CHR '' '' = None" "digit_value CHR '':'' = None"
  by (simp_all add: digit_value_def)

lemma spaces: "is_space CHR '' ''" "\<not> is_space CHR ''%''" "\<not> is_space CHR '',''" "\<not> is_space CHR '':''" "\<not> is_space CHR ''G''"
  by (simp_all add: is_space_def)

lemma read_number_space: "is_space c \<Longrightarrow> read_number lo hi w (c # s) = read_number lo hi w s"
  by (simp add: read_number_def)

lemma read_number_spaces [simp]: "read_number lo hi w (dropWhile is_space s) = read_number lo hi w s"
  by (induction s) (simp_all add: read_number_space)

lemma month_no_space:
  assumes "i < 12"
  shows "dropWhile is_space (take 3 (month_names ! i) @ s) = take 3 (month_names ! i) @ s"
proof -
  have "i = 0 \<or> i = 1 \<or> i = 2 \<or> i = 3 \<or> i = 4 \<or> i = 5 \<or> i = 6 \<or> i = 7 \<or> i = 8 \<or> i = 9 \<or> i = 10 \<or> i = 11"
    using assms by presburger
  then show ?thesis by (elim disjE) (simp_all add: month_names_def is_space_def)
qed

text \<open>The text of a date, and the fields \<^verbatim>\<open>strptime\<close> reads from it.\<close>

definition date_text :: "tm \<Rightarrow> string" where
  "date_text t = take 3 (day_names ! tm_wday t) @ '','' @ '' '' @ two_digits (tm_mday t) @ '' '' @ take 3 (month_names ! tm_mon t) @
     '' '' @ to_string_int (1900 + tm_year t) @ '' '' @ two_digits (tm_hour t) @ '':'' @ two_digits (tm_min t) @ '':'' @
     two_digits (tm_sec t) @ '' GMT''"

lemma strftime_date: "strftime ''%a, %d %b %Y %T GMT'' t = date_text t"
  by (simp add: date_text_def written_def)

lemma strptime_date:
  assumes "tm_ok t"
  shows "strptime ''%a, %d %b %Y %H:%M:%S %Z'' (date_text t) tm_zero = Some t"
  using assms
  by (cases t) (simp add: date_text_def tm_ok_def read_field_def spaces no_digits read_number_space read_day [simplified]
      read_month [simplified] month_no_space [simplified] read_two_digits [simplified] read_year [simplified] tm_zero_def)

text \<open>A date that is written and read again comes out shifted by the offset of the local zone: \<^verbatim>\<open>mktime\<close> takes
  the fields for a local time although they are in UTC.\<close>

lemma two_digits_chars: "n < 100 \<Longrightarrow> c \<in> set (two_digits n) \<Longrightarrow> digit_value c \<noteq> None"
  using two_digits_read [of n] by (auto simp: list_all_iff)

lemma name_chars:
  "i < 7 \<Longrightarrow> take 3 (day_names ! i) \<noteq> [] \<and> (\<forall>c\<in>set (take 3 (day_names ! i)). 65 \<le> (of_char c :: nat))"
  "i < 12 \<Longrightarrow> take 3 (month_names ! i) \<noteq> [] \<and> (\<forall>c\<in>set (take 3 (month_names ! i)). 65 \<le> (of_char c :: nat))"
proof -
  have "list_all (\<lambda>n. take 3 n \<noteq> [] \<and> (\<forall>c\<in>set (take 3 n). 65 \<le> (of_char c :: nat))) day_names"
    "list_all (\<lambda>n. take 3 n \<noteq> [] \<and> (\<forall>c\<in>set (take 3 n). 65 \<le> (of_char c :: nat))) month_names" by code_simp+
  moreover have "length day_names = 7" "length month_names = 12" by (simp_all add: day_names_def month_names_def)
  ultimately show "i < 7 \<Longrightarrow> take 3 (day_names ! i) \<noteq> [] \<and> (\<forall>c\<in>set (take 3 (day_names ! i)). 65 \<le> (of_char c :: nat))"
    "i < 12 \<Longrightarrow> take 3 (month_names ! i) \<noteq> [] \<and> (\<forall>c\<in>set (take 3 (month_names ! i)). 65 \<le> (of_char c :: nat))"
    unfolding list_all_iff by (metis nth_mem)+
qed

definition plain_char :: "char \<Rightarrow> bool" where
  "plain_char c \<longleftrightarrow> c \<noteq> CHR '';'' \<and> c \<noteq> CHR 0x00"

lemma date_text_chars:
  assumes "tm_ok t"
  shows "\<forall>c\<in>set (date_text t). plain_char c"
proof -
  have digit: "plain_char c" if "digit_value c \<noteq> None" for c using that by (auto simp: digit_value_def plain_char_def)
  have letter: "plain_char c" if "65 \<le> (of_char c :: nat)" for c using that by (auto simp: plain_char_def)
  have two: "\<forall>c\<in>set (two_digits n). plain_char c" if "n < 100" for n using digit two_digits_chars [OF that] by blast
  have parts: "\<forall>c\<in>set (take 3 (day_names ! tm_wday t)). plain_char c" "\<forall>c\<in>set (take 3 (month_names ! tm_mon t)). plain_char c"
    "\<forall>c\<in>set (to_string (nat (1900 + tm_year t))). plain_char c"
    "tm_mday t < 100" "tm_hour t < 100" "tm_min t < 100" "tm_sec t < 100"
    using name_chars letter digit to_string_digits [of "nat (1900 + tm_year t)"] assms
    unfolding tm_ok_def list_all_iff by (blast, blast, blast, linarith+)
  have "to_string_int (1900 + tm_year t) = to_string (nat (1900 + tm_year t))" using assms by (simp add: tm_ok_def to_string_int_def)
  moreover have "\<forall>c\<in>set '', : GMT''. plain_char c" by (simp add: plain_char_def)
  ultimately show ?thesis using parts(1-3) two [OF parts(4)] two [OF parts(5)] two [OF parts(6)] two [OF parts(7)]
    by (simp add: date_text_def ball_Un)
qed

lemma date_text_ends:
  assumes "tm_ok t"
  shows "date_text t \<noteq> [] \<and> \<not> is_space (hd (date_text t)) \<and> \<not> is_space (last (date_text t))"
proof -
  have "tm_wday t < 7" using assms by (simp add: tm_ok_def)
  note n = name_chars(1) [OF this]
  obtain d ds where d: "take 3 (day_names ! tm_wday t) = d # ds" using n by (cases "take 3 (day_names ! tm_wday t)") simp_all
  then have "65 \<le> (of_char d :: nat)" using n by simp
  then show ?thesis by (simp add: date_text_def d is_space_def del: take_Suc_Cons)
qed

lemma date_round_trip:
  assumes "library_dates L z t"
  shows "Date_fromString L (Date_toString L t) = (t + z, True)"
proof -
  have ok: "tm_ok (lib_to_tm L t)" using assms by (simp add: library_dates_def)
  have "takeWhile (\<lambda>c. c \<noteq> CHR 0x00) (date_text (lib_to_tm L t)) = date_text (lib_to_tm L t)"
    using date_text_chars [OF ok] unfolding takeWhile_eq_all_conv plain_char_def by blast
  then show ?thesis
    using assms unfolding Date_fromString_def Date_toString_def strftime_date
    by (simp only: strptime_date [OF ok] option.case library_dates_def)
qed

subsection \<open>A calendar to test with\<close>

definition demo_to_tm :: "int \<Rightarrow> tm" where
  "demo_to_tm t =
     (let days = t div 86400; secs = t mod 86400; n = days + 719468; doe = n mod 146097;
          yoe = (doe - doe div 1460 + doe div 36524 - doe div 146096) div 365;
          doy = doe - (365 * yoe + yoe div 4 - yoe div 100); mp = (5 * doy + 2) div 153;
          m = (if mp < 10 then mp + 2 else mp - 10); y = yoe + (n div 146097) * 400 + (if m \<le> 1 then 1 else 0)
      in \<lparr>tm_sec = nat (secs mod 60), tm_min = nat (secs div 60 mod 60), tm_hour = nat (secs div 3600),
          tm_mday = nat (doy - (153 * mp + 2) div 5 + 1), tm_mon = nat m, tm_year = y - 1900, tm_wday = nat ((days + 4) mod 7)\<rparr>)"

lemma demo_calendar:
  "tm_ok (demo_to_tm 784111777) \<and> utc_seconds (demo_to_tm 784111777) = 784111777"
  "date_text (demo_to_tm 784111777) = ''Sun, 06 Nov 1994 08:49:37 GMT''"
  by code_simp+

end
