(* ===== verification/Http_Headers.thy ===== *)
theory Http_Headers
  imports Http_Date
begin

text \<open>
  \<^verbatim>\<open>Protocols/mdz_proto_http\<close>: the values of headers as text: \<^verbatim>\<open>common_version\<close>, \<^verbatim>\<open>rsp_status\<close>, \<^verbatim>\<open>hdr_cookie\<close>,
  \<^verbatim>\<open>req_cookies\<close>, \<^verbatim>\<open>rsp_cookies\<close>, \<^verbatim>\<open>hdr_cachecontrol\<close> and the security headers. The string algorithms of Boost are a
  record of functions, which extends the one of Http_Date.
\<close>

subsection \<open>Library functions\<close>

text \<open>\<^verbatim>\<open>tl_split seps text\<close>: the pieces between characters of \<^verbatim>\<open>seps\<close>, adjacent ones taken as one.\<close>

record text_lib = time_lib +
  tl_split :: "string \<Rightarrow> string \<Rightarrow> string list"
  tl_trim :: "string \<Rightarrow> string"
  tl_upper :: "string \<Rightarrow> string"
  tl_lower :: "string \<Rightarrow> string"
  tl_iequals :: "string \<Rightarrow> string \<Rightarrow> bool"
  tl_starts_with :: "string \<Rightarrow> string \<Rightarrow> bool"
  tl_istarts_with :: "string \<Rightarrow> string \<Rightarrow> bool"

text \<open>\<^verbatim>\<open>find\<close>, and the text that a pointer into \<^verbatim>\<open>c_str()\<close> gives.\<close>

definition str_find :: "char \<Rightarrow> string \<Rightarrow> nat option" where
  "str_find c s = (if c \<in> set s then Some (length (takeWhile (\<lambda>x. x \<noteq> c) s)) else None)"

definition c_str_from :: "nat \<Rightarrow> string \<Rightarrow> string" where
  "c_str_from n s = takeWhile (\<lambda>c. c \<noteq> CHR 0x00) (drop n s)"

subsection \<open>Version and status\<close>

record http_version =
  versionMajor :: nat
  versionMinor :: nat

definition Version_new :: http_version where
  "Version_new = \<lparr>versionMajor = 1, versionMinor = 1\<rparr>"

definition parseVersion :: "text_lib \<Rightarrow> string \<Rightarrow> http_version" where
  "parseVersion T version =
     (let versionParts = tl_split T ''/'' version in
      if length versionParts \<noteq> 2 then \<lparr>versionMajor = 1, versionMinor = 0\<rparr>
      else let versionMinorMajor = tl_split T ''.'' (versionParts ! 1) in
        if length versionMinorMajor \<noteq> 2 then \<lparr>versionMajor = 1, versionMinor = 0\<rparr>
        else \<lparr>versionMajor = strtoull (versionMinorMajor ! 0) mod 2 ^ 16, versionMinor = strtoull (versionMinorMajor ! 1) mod 2 ^ 16\<rparr>)"

definition getHTTPVersionString :: "http_version \<Rightarrow> string" where
  "getHTTPVersionString v = ''HTTP/'' @ to_string (versionMajor v) @ ''.'' @ to_string (versionMinor v)"

definition upgradeMinorVersion :: "http_version \<Rightarrow> nat \<Rightarrow> http_version" where
  "upgradeMinorVersion v value = (if value > versionMinor v then v\<lparr>versionMinor := value\<rparr> else v)"

record http_status =
  st_version :: http_version
  responseRetCode :: nat
  responseMessage :: string

text \<open>The table is indexed by the values of \<^verbatim>\<open>eRetCode\<close>; 1000 is \<^verbatim>\<open>S_999_NOT_SET\<close>.\<close>

definition responseRetCodes :: "(nat \<times> string) list" where
  "responseRetCodes = [
    (100, ''Continue''), (101, ''Switching Protocol''), (200, ''OK''), (201, ''Created''), (202, ''Accepted''),
    (203, ''Non-Authoritative Information''), (204, ''No Content''), (205, ''Reset Content''), (206, ''Partial Content''),
    (300, ''Multiple Choices''), (301, ''Moved Permanently''), (302, ''Found''), (303, ''See Other''), (304, ''Not Modified''),
    (307, ''Temporary Redirect''), (308, ''Permanent Redirect''), (400, ''Bad Request''), (401, ''Unauthorized''),
    (403, ''Forbidden''), (404, ''Not Found''), (405, ''Method Not Allowed''), (406, ''Not Acceptable''),
    (407, ''Proxy Authentication Required''), (408, ''Request Timeout''), (409, ''Conflict''), (410, ''Gone''),
    (411, ''Length Required''), (412, ''Precondition Failed''), (413, ''Payload Too Large''), (414, ''URI Too Long''),
    (415, ''Unsupported Media Type''), (416, ''Range Not Satisfiable''), (417, ''Expectation Failed''), (426, ''Upgrade Required''),
    (428, ''Precondition Required''), (429, ''Too Many Requests''), (431, ''Request Header Fields Too Large''),
    (451, ''Unavailable For Legal Reasons''), (500, ''Internal Server Error''), (501, ''Not Implemented''), (502, ''Bad Gateway''),
    (503, ''Service Unavailable''), (504, ''Gateway Timeout''), (505, ''HTTP Version Not Supported''),
    (511, ''Network Authentication Required'')]"

definition getHTTPStatusCodeTranslation :: "nat \<Rightarrow> nat" where
  "getHTTPStatusCodeTranslation code = (if code \<noteq> 1000 then fst (responseRetCodes ! code) else 999)"

definition setRetCode :: "http_status \<Rightarrow> nat \<Rightarrow> http_status" where
  "setRetCode s code =
     (if code \<noteq> 1000
      then s\<lparr>responseRetCode := fst (responseRetCodes ! code), responseMessage := snd (responseRetCodes ! code)\<rparr> else s)"

fun join_with :: "string \<Rightarrow> string list \<Rightarrow> string" where
  "join_with sep [] = []"
| "join_with sep [x] = x"
| "join_with sep (x # y # xs) = x @ sep @ join_with sep (y # xs)"

text \<open>None: the line is refused.\<close>

definition Status_parse :: "text_lib \<Rightarrow> string \<Rightarrow> http_status option" where
  "Status_parse T line =
     (let requestParts = tl_split T (CHR 0x09 # '' '') line in
      if length requestParts < 2 then None
      else Some \<lparr>st_version = parseVersion T (requestParts ! 0), responseRetCode = strtoull (requestParts ! 1) mod 2 ^ 16,
        responseMessage = join_with '' '' (drop 2 requestParts)\<rparr>)"

definition Status_stream :: "http_status \<Rightarrow> string" where
  "Status_stream s = getHTTPVersionString (st_version s) @ '' '' @ to_string (responseRetCode s) @ '' '' @ responseMessage s @
     [CHR 0x0D, CHR 0x0A]"

subsection \<open>Cookies\<close>

datatype eSameSitePolicy = SAMESITE_NONE | SAMESITE_LAX | SAMESITE_STRICT

record http_cookie =
  ck_value :: string
  ck_expires :: int
  max_age :: nat
  ck_domain :: string
  ck_path :: string
  ck_secure :: bool
  httpOnly :: bool
  sameSite :: eSameSitePolicy

definition Cookie_defaults :: http_cookie where
  "Cookie_defaults = \<lparr>ck_value = [], ck_expires = 0, max_age = 2 ^ 32 - 1, ck_domain = [], ck_path = [], ck_secure = False,
     httpOnly = False, sameSite = SAMESITE_LAX\<rparr>"

definition toSetCookieString :: "text_lib \<Rightarrow> http_cookie \<Rightarrow> string \<Rightarrow> string" where
  "toSetCookieString T c cookieName =
     cookieName @ ''='' @ ck_value c @ ''; '' @
     (if ck_expires c \<noteq> 0 then ''Expires='' @ Date_toString T (ck_expires c) @ ''; '' else []) @
     (if max_age c \<noteq> 2 ^ 32 - 1 then ''Max-Age='' @ to_string (max_age c) @ ''; '' else []) @
     (if ck_secure c then ''Secure; '' else []) @
     (if httpOnly c then ''HttpOnly; '' else []) @
     (if ck_domain c \<noteq> [] then ''Domain='' @ ck_domain c @ ''; '' else []) @
     (if ck_path c \<noteq> [] then ''Path='' @ ck_path c @ ''; '' else []) @
     (case sameSite c of SAMESITE_NONE \<Rightarrow> ''SameSite=None; '' | SAMESITE_STRICT \<Rightarrow> ''SameSite=Strict; '' | SAMESITE_LAX \<Rightarrow> ''SameSite=Lax; '')"

definition getVarNameAndValue :: "text_lib \<Rightarrow> string \<Rightarrow> string \<times> string" where
  "getVarNameAndValue T var =
     (let (n, v) = (case str_find CHR ''='' var of
          Some found \<Rightarrow> (take found var, c_str_from (found + 1) var)
        | None \<Rightarrow> (var, []))
      in (tl_trim T n, tl_trim T v))"

definition cookie_set :: "text_lib \<Rightarrow> http_cookie \<Rightarrow> string \<Rightarrow> string \<Rightarrow> http_cookie" where
  "cookie_set T c varNameUpper v =
     (if varNameUpper = ''EXPIRES'' then c\<lparr>ck_expires := fst (Date_fromString T v)\<rparr>
      else if varNameUpper = ''MAX-AGE'' then c\<lparr>max_age := strtoull v mod 2 ^ 32\<rparr>
      else if varNameUpper = ''SECURE'' then c\<lparr>ck_secure := True\<rparr>
      else if varNameUpper = ''HTTPONLY'' then c\<lparr>httpOnly := True\<rparr>
      else if varNameUpper = ''DOMAIN'' then c\<lparr>ck_domain := v\<rparr>
      else if varNameUpper = ''PATH'' then c\<lparr>ck_path := v\<rparr>
      else if varNameUpper = ''SAMESITE''
      then c\<lparr>sameSite := (if tl_iequals T v ''LAX'' then SAMESITE_LAX else if tl_iequals T v ''STRICT'' then SAMESITE_STRICT else SAMESITE_NONE)\<rparr>
      else c)"

definition cookie_option :: "text_lib \<Rightarrow> http_cookie \<Rightarrow> string \<Rightarrow> http_cookie" where
  "cookie_option T c param = (let (n, v) = getVarNameAndValue T param in cookie_set T c (tl_upper T n) v)"

text \<open>The cookie and its name, which stays when there is none.\<close>

definition fromSetCookieString :: "text_lib \<Rightarrow> string \<Rightarrow> string \<Rightarrow> http_cookie \<times> string" where
  "fromSetCookieString T setCookieValue cookieName =
     (case tl_split T '';'' setCookieValue of
        [] \<Rightarrow> (Cookie_defaults, cookieName)
      | p # ps \<Rightarrow> let (n, v) = getVarNameAndValue T p in
          (foldl (cookie_option T) (Cookie_defaults\<lparr>ck_value := v\<rparr>) ps, n))"

definition setExpirationFromNow :: "http_cookie \<Rightarrow> int \<Rightarrow> nat \<Rightarrow> http_cookie" where
  "setExpirationFromNow c now seconds = c\<lparr>ck_expires := Date_incTime now seconds\<rparr>"

definition setAsTransientCookie :: "http_cookie \<Rightarrow> http_cookie" where
  "setAsTransientCookie c = c\<lparr>ck_expires := 1\<rparr>"


text \<open>The cookies of a request.\<close>

definition client_cookies_text :: "(string, string) std_map \<Rightarrow> string" where
  "client_cookies_text m =
     fst (foldl (\<lambda>(cookies, first) (n, v). ((if first then cookies @ ''; '' else cookies) @ n @ ''='' @ v, False)) ([], True) m)"

definition client_parseCookie :: "text_lib \<Rightarrow> (string, string) std_map \<Rightarrow> string \<Rightarrow> (string, string) std_map" where
  "client_parseCookie T m cookie =
     (case str_find CHR ''='' cookie of
        Some found \<Rightarrow> std_put (tl_trim T (take found cookie)) (tl_trim T (c_str_from (found + 1) cookie)) m
      | None \<Rightarrow> m)"

definition client_parseFromHeaders :: "text_lib \<Rightarrow> (string, string) std_map \<Rightarrow> string \<Rightarrow> (string, string) std_map" where
  "client_parseFromHeaders T m cookies_str = foldl (client_parseCookie T) m (tl_split T '';'' cookies_str)"

definition client_getCookieByName :: "(string, string) std_map \<Rightarrow> string \<Rightarrow> string" where
  "client_getCookieByName m cookieName = (case map_of m cookieName of None \<Rightarrow> [] | Some v \<Rightarrow> v)"

text \<open>The cookies of a response.\<close>

definition server_cookies_headers :: "text_lib \<Rightarrow> (string, http_cookie) std_map \<Rightarrow> (string \<times> string) list" where
  "server_cookies_headers T m = map (\<lambda>(n, c). (''Set-Cookie'', toSetCookieString T c n)) m"

definition server_getCookieValueByName :: "(string, http_cookie) std_map \<Rightarrow> string \<Rightarrow> string" where
  "server_getCookieValueByName m cookieName = (case map_of m cookieName of None \<Rightarrow> [] | Some c \<Rightarrow> ck_value c)"

definition server_parseCookie :: "text_lib \<Rightarrow> (string, http_cookie) std_map \<Rightarrow> string \<Rightarrow> (string, http_cookie) std_map \<times> bool" where
  "server_parseCookie T m cookie_str =
     (let (c, n) = fromSetCookieString T cookie_str [] in
      if n = [] \<or> map_of m n \<noteq> None then (m, False) else (std_put n c m, True))"

definition server_addCookieVal :: "(string, http_cookie) std_map \<Rightarrow> string \<Rightarrow> http_cookie \<Rightarrow> (string, http_cookie) std_map \<times> bool" where
  "server_addCookieVal m cookieName c = (if map_of m cookieName \<noteq> None then (m, False) else (std_put cookieName c m, True))"

definition addClearSecureCookie :: "(string, http_cookie) std_map \<Rightarrow> string \<Rightarrow> string \<Rightarrow> (string, http_cookie) std_map" where
  "addClearSecureCookie m cookieName path =
     (let c = (if path \<noteq> [] then Cookie_defaults\<lparr>ck_path := path\<rparr> else Cookie_defaults);
          c1 = setAsTransientCookie (c\<lparr>ck_value := [], ck_secure := True, httpOnly := True\<rparr>)\<lparr>sameSite := SAMESITE_STRICT\<rparr>;
          m1 = (if map_of m cookieName \<noteq> None then std_erase cookieName m else m)
      in fst (server_addCookieVal m1 cookieName c1))"

subsection \<open>Cache control\<close>

record cache_control =
  optionNoStore :: bool
  optionNoCache :: bool
  optionMustRevalidate :: bool
  optionPrivate :: bool
  optionPublic :: bool
  optionImmutable :: bool
  optionNoTransform :: bool
  optionProxyRevalidate :: bool
  maxAge :: nat
  sMaxAge :: nat

definition CacheControl_defaults :: cache_control where
  "CacheControl_defaults = \<lparr>optionNoStore = True, optionNoCache = False, optionMustRevalidate = False, optionPrivate = False,
     optionPublic = False, optionImmutable = False, optionNoTransform = False, optionProxyRevalidate = False, maxAge = 0, sMaxAge = 0\<rparr>"

definition CacheControl_toString :: "cache_control \<Rightarrow> string" where
  "CacheControl_toString c = join_with '',''
     ((if optionMustRevalidate c then [''must-revalidate''] else []) @
      (if optionProxyRevalidate c then [''proxy-revalidate''] else []) @
      (if optionNoTransform c then [''no-transform''] else []) @
      (if optionImmutable c then [''immutable''] else []) @
      (if optionNoStore c then [''no-store''] else []) @
      (if optionNoCache c then [''no-cache''] else []) @
      (if optionPrivate c then [''private''] else []) @
      (if optionPublic c then [''public''] else []) @
      (if maxAge c \<noteq> 0 then [''max-age='' @ to_string (maxAge c)] else []) @
      (if sMaxAge c \<noteq> 0 then [''s-maxage='' @ to_string (sMaxAge c)] else []))"

definition cache_option :: "text_lib \<Rightarrow> cache_control \<Rightarrow> string \<Rightarrow> cache_control" where
  "cache_option T c param =
     (let paramLower = tl_lower T param in
      if paramLower = ''no-store'' then c\<lparr>optionNoStore := True\<rparr>
      else if paramLower = ''no-cache'' then c\<lparr>optionNoCache := True\<rparr>
      else if paramLower = ''private'' then c\<lparr>optionPrivate := True\<rparr>
      else if paramLower = ''public'' then c\<lparr>optionPublic := True\<rparr>
      else if paramLower = ''immutable'' then c\<lparr>optionImmutable := True\<rparr>
      else if paramLower = ''proxy-revalidate'' then c\<lparr>optionProxyRevalidate := True\<rparr>
      else if paramLower = ''no-transform'' then c\<lparr>optionNoTransform := True\<rparr>
      else if tl_starts_with T paramLower ''max-age='' then c\<lparr>maxAge := strtoull (c_str_from 8 paramLower) mod 2 ^ 32\<rparr>
      else if tl_starts_with T paramLower ''s-maxage='' then c\<lparr>sMaxAge := strtoull (c_str_from 9 paramLower) mod 2 ^ 32\<rparr>
      else c)"

definition CacheControl_fromString :: "text_lib \<Rightarrow> string \<Rightarrow> cache_control" where
  "CacheControl_fromString T str = foldl (cache_option T) CacheControl_defaults (tl_split T '', '' str)"

subsection \<open>Security headers\<close>

record hsts =
  hs_activated :: bool
  preload :: bool
  includeSubDomains :: bool
  hs_maxAge :: nat

definition HSTS_defaults :: hsts where
  "HSTS_defaults = \<lparr>hs_activated = False, preload = False, includeSubDomains = False, hs_maxAge = 0\<rparr>"

definition HSTS_toValue :: "hsts \<Rightarrow> string" where
  "HSTS_toValue h =
     (if hs_activated h
      then let r = (if hs_maxAge h \<noteq> 0 then ''; max-age='' @ to_string (hs_maxAge h) else []) @
             (if includeSubDomains h then ''; includeSubDomains'' else []) @ (if preload h then ''; preload'' else [])
        in if length r > 2 then drop 2 r else []
      else [])"

definition hsts_option :: "text_lib \<Rightarrow> hsts \<Rightarrow> string \<Rightarrow> hsts" where
  "hsts_option T h part =
     (if tl_iequals T part ''preload'' then h\<lparr>preload := True\<rparr>
      else if tl_iequals T part ''includeSubDomains'' then h\<lparr>includeSubDomains := True\<rparr>
      else if tl_istarts_with T part ''max-age='' then h\<lparr>hs_maxAge := strtoull part mod 2 ^ 32\<rparr>
      else h)"

definition HSTS_fromValue :: "text_lib \<Rightarrow> string \<Rightarrow> hsts" where
  "HSTS_fromValue T sValue =
     (if sValue = [] then HSTS_defaults
      else foldl (hsts_option T) (HSTS_defaults\<lparr>hs_activated := True\<rparr>) (tl_split T ''; '' sValue))"

datatype eOptsValues = XFRAME_NONE | XFRAME_DENY | XFRAME_SAMEORIGIN | XFRAME_ALLOWFROM

record xframe_opts =
  xf_value :: eOptsValues
  fromURL_of :: string

definition XFrameOpts_defaults :: xframe_opts where
  "XFrameOpts_defaults = \<lparr>xf_value = XFRAME_DENY, fromURL_of = []\<rparr>"

text \<open>None: the constructor throws.\<close>

definition XFrameOpts_new :: "eOptsValues \<Rightarrow> string \<Rightarrow> xframe_opts option" where
  "XFrameOpts_new value fromURL =
     (if fromURL \<noteq> [] \<and> value \<noteq> XFRAME_ALLOWFROM then None else Some \<lparr>xf_value = value, fromURL_of = fromURL\<rparr>)"

definition XFrameOpts_toValue :: "xframe_opts \<Rightarrow> string" where
  "XFrameOpts_toValue x =
     (case xf_value x of XFRAME_DENY \<Rightarrow> ''DENY'' | XFRAME_ALLOWFROM \<Rightarrow> ''ALLOW-FROM '' @ fromURL_of x
      | XFRAME_SAMEORIGIN \<Rightarrow> ''SAMEORIGIN'' | XFRAME_NONE \<Rightarrow> [])"

definition XFrameOpts_fromValue :: "text_lib \<Rightarrow> string \<Rightarrow> xframe_opts \<times> bool" where
  "XFrameOpts_fromValue T sValue =
     (let parts = tl_split T '' '' sValue; x = XFrameOpts_defaults in
      if parts = [] then (x\<lparr>xf_value := XFRAME_DENY\<rparr>, False)
      else if tl_iequals T (parts ! 0) ''DENY'' then (x\<lparr>xf_value := XFRAME_DENY\<rparr>, True)
      else if tl_iequals T (parts ! 0) ''SAMEORIGIN'' then (x\<lparr>xf_value := XFRAME_DENY\<rparr>, True)
      else if tl_iequals T (parts ! 0) ''ALLOW-FROM'' \<and> length parts \<ge> 2
      then (x\<lparr>xf_value := XFRAME_DENY, fromURL_of := parts ! 1\<rparr>, True)
      else (x\<lparr>xf_value := XFRAME_DENY\<rparr>, False))"

record xss_protection =
  xs_activated :: bool
  xs_blocking :: bool
  reportURL :: string

definition XSSProtection_defaults :: xss_protection where
  "XSSProtection_defaults = \<lparr>xs_activated = True, xs_blocking = True, reportURL = []\<rparr>"

definition XSSProtection_toValue :: "xss_protection \<Rightarrow> string" where
  "XSSProtection_toValue x =
     (if \<not> xs_activated x then ''0''
      else ''1'' @ (if xs_blocking x then ''; mode=block'' else []) @ (if reportURL x \<noteq> [] then ''; report='' @ reportURL x else []))"

definition xss_option :: "text_lib \<Rightarrow> xss_protection \<Rightarrow> string \<Rightarrow> xss_protection" where
  "xss_option T x part =
     (if tl_iequals T part ''mode=block'' then x\<lparr>xs_blocking := True\<rparr>
      else if tl_istarts_with T part ''report='' then x\<lparr>reportURL := drop 7 part\<rparr> else x)"

definition XSSProtection_fromValue :: "text_lib \<Rightarrow> string \<Rightarrow> xss_protection" where
  "XSSProtection_fromValue T sValue =
     (case tl_split T ''; '' sValue of
        [] \<Rightarrow> XSSProtection_defaults\<lparr>xs_activated := False\<rparr>
      | [p] \<Rightarrow> XSSProtection_defaults\<lparr>xs_activated := p = ''1''\<rparr>
      | p # ps \<Rightarrow> let x = XSSProtection_defaults\<lparr>xs_activated := p = ''1''\<rparr> in
          if xs_activated x then foldl (xss_option T) (x\<lparr>xs_blocking := False\<rparr>) ps else x)"


subsection \<open>What is assumed of the library\<close>

definition unspaced :: "string \<Rightarrow> bool" where
  "unspaced x \<longleftrightarrow> x = [] \<or> \<not> is_space (hd x) \<and> \<not> is_space (last x)"

definition text_lib_ok :: "text_lib \<Rightarrow> bool" where
  "text_lib_ok T \<longleftrightarrow>
     (\<forall>ps. ps \<noteq> [] \<and> (\<forall>p\<in>set ps. p \<noteq> [] \<and> CHR '';'' \<notin> set p) \<longrightarrow> tl_split T '';'' (join_with '';'' ps) = ps) \<and>
     (\<forall>x. unspaced x \<longrightarrow> tl_trim T x = x \<and> tl_trim T ('' '' @ x) = x) \<and>
     (\<forall>x. tl_upper T x = map upper_char x) \<and>
     (\<forall>a b. tl_iequals T a b \<longleftrightarrow> map upper_char a = map upper_char b) \<and>
     (\<forall>x p. tl_istarts_with T x p \<longrightarrow> map upper_char (take (length p) x) = map upper_char p)"

definition clean_text :: "string \<Rightarrow> bool" where
  "clean_text t \<longleftrightarrow> unspaced t \<and> CHR '';'' \<notin> set t \<and> CHR 0x00 \<notin> set t"

subsection \<open>Cookies go there and back\<close>

definition cookie_opts :: "text_lib \<Rightarrow> http_cookie \<Rightarrow> string list" where
  "cookie_opts T c =
     (if ck_expires c \<noteq> 0 then [''Expires='' @ Date_toString T (ck_expires c)] else []) @
     (if max_age c \<noteq> 2 ^ 32 - 1 then [''Max-Age='' @ to_string (max_age c)] else []) @
     (if ck_secure c then [''Secure''] else []) @
     (if httpOnly c then [''HttpOnly''] else []) @
     (if ck_domain c \<noteq> [] then [''Domain='' @ ck_domain c] else []) @
     (if ck_path c \<noteq> [] then [''Path='' @ ck_path c] else []) @
     [case sameSite c of SAMESITE_NONE \<Rightarrow> ''SameSite=None'' | SAMESITE_STRICT \<Rightarrow> ''SameSite=Strict'' | SAMESITE_LAX \<Rightarrow> ''SameSite=Lax'']"

lemma join_with_Cons: "join_with sep (x # xs) = x @ concat (map (\<lambda>y. sep @ y) xs)"
  by (induction xs arbitrary: x) auto

lemma move_separators: "''; '' @ concat (map (\<lambda>s. s @ ''; '') xs) = concat (map (\<lambda>p. '';'' @ p) (map (\<lambda>p. '' '' @ p) xs @ ['' '']))"
  by (induction xs) auto

lemma concat_if: "concat (map f (if b then [x] else [])) = (if b then f x else [])"
  by simp

lemma foldl_if: "foldl f a (map g (if b then [x] else [])) = (if b then f a (g x) else a)"
  by simp

lemma cookie_text:
  "toSetCookieString T c name = join_with '';'' ((name @ ''='' @ ck_value c) # map (\<lambda>p. '' '' @ p) (cookie_opts T c) @ ['' ''])"
proof -
  have "toSetCookieString T c name = (name @ ''='' @ ck_value c) @ ''; '' @ concat (map (\<lambda>s. s @ ''; '') (cookie_opts T c))"
    unfolding toSetCookieString_def cookie_opts_def
    by (simp only: map_append concat_append concat_if append_assoc) (simp split: eSameSitePolicy.splits)
  then show ?thesis by (simp only: move_separators join_with_Cons)
qed

lemma name_and_value:
  assumes "text_lib_ok T" "CHR ''='' \<notin> set n" "unspaced n" "clean_text v"
  shows "getVarNameAndValue T (n @ ''='' @ v) = (n, v)" "getVarNameAndValue T ('' '' @ n @ ''='' @ v) = (n, v)"
    "getVarNameAndValue T ('' '' @ n) = (n, [])"
proof -
  have w: "takeWhile (\<lambda>x. x \<noteq> CHR ''='') (n @ ''='' @ v) = n" using assms(2) by (induction n) auto
  then have w': "takeWhile (\<lambda>x. x \<noteq> CHR ''='') ('' '' @ n @ ''='' @ v) = '' '' @ n" by simp
  have v: "takeWhile (\<lambda>c. c \<noteq> CHR 0x00) v = v" using assms(4) by (auto simp: clean_text_def)
  have t: "tl_trim T n = n" "tl_trim T ('' '' @ n) = n" "tl_trim T v = v" "tl_trim T [] = []"
    using assms by (auto simp: text_lib_ok_def clean_text_def unspaced_def)
  show "getVarNameAndValue T (n @ ''='' @ v) = (n, v)"
    using w v t by (simp add: getVarNameAndValue_def str_find_def c_str_from_def del: takeWhile_eq_all_conv)
  show "getVarNameAndValue T ('' '' @ n @ ''='' @ v) = (n, v)"
    using w' v t by (simp add: getVarNameAndValue_def str_find_def c_str_from_def del: takeWhile_eq_all_conv)
  show "getVarNameAndValue T ('' '' @ n) = (n, [])"
    using assms(2) t by (simp add: getVarNameAndValue_def str_find_def)
qed

lemma option_value:
  assumes "text_lib_ok T" "clean_text v" "CHR ''='' \<notin> set n" "unspaced n"
  shows "cookie_option T c ('' '' @ n @ ''='' @ v) = cookie_set T c (map upper_char n) v"
  using name_and_value(2) [OF assms(1,3,4,2)] assms(1) by (simp add: cookie_option_def text_lib_ok_def)

lemma option_flag:
  assumes "text_lib_ok T" "CHR ''='' \<notin> set n" "unspaced n"
  shows "cookie_option T c ('' '' @ n) = cookie_set T c (map upper_char n) []"
  using name_and_value(3) [OF assms, of "[]"] assms(1) by (simp add: cookie_option_def text_lib_ok_def clean_text_def unspaced_def)

lemmas name_eval = upper_letters unspaced_def is_space_def clean_text_def cookie_set_def

lemma option_effects:
  assumes "text_lib_ok T"
  shows "clean_text v \<Longrightarrow> fst (Date_fromString T v) = e \<Longrightarrow> cookie_option T c ('' Expires='' @ v) = c\<lparr>ck_expires := e\<rparr>"
    "clean_text v \<Longrightarrow> cookie_option T c ('' Max-Age='' @ v) = c\<lparr>max_age := strtoull v mod 2 ^ 32\<rparr>"
    "cookie_option T c '' Secure'' = c\<lparr>ck_secure := True\<rparr>"
    "cookie_option T c '' HttpOnly'' = c\<lparr>httpOnly := True\<rparr>"
    "clean_text v \<Longrightarrow> cookie_option T c ('' Domain='' @ v) = c\<lparr>ck_domain := v\<rparr>"
    "clean_text v \<Longrightarrow> cookie_option T c ('' Path='' @ v) = c\<lparr>ck_path := v\<rparr>"
    "cookie_option T c '' SameSite=None'' = c\<lparr>sameSite := SAMESITE_NONE\<rparr>"
    "cookie_option T c '' SameSite=Strict'' = c\<lparr>sameSite := SAMESITE_STRICT\<rparr>"
    "cookie_option T c '' SameSite=Lax'' = c\<lparr>sameSite := SAMESITE_LAX\<rparr>"
    "cookie_option T c '' '' = c"
proof -
  have i: "tl_iequals T x y \<longleftrightarrow> map upper_char x = map upper_char y" for x y using assms by (simp add: text_lib_ok_def)
  note ov = option_value [OF assms] and fl = option_flag [OF assms]
  show "clean_text v \<Longrightarrow> fst (Date_fromString T v) = e \<Longrightarrow> cookie_option T c ('' Expires='' @ v) = c\<lparr>ck_expires := e\<rparr>"
    using ov [of v "''Expires''" c] by (simp add: name_eval)
  show "clean_text v \<Longrightarrow> cookie_option T c ('' Max-Age='' @ v) = c\<lparr>max_age := strtoull v mod 2 ^ 32\<rparr>"
    using ov [of v "''Max-Age''" c] by (simp add: name_eval)
  show "cookie_option T c '' Secure'' = c\<lparr>ck_secure := True\<rparr>" using fl [of "''Secure''" c] by (simp add: name_eval)
  show "cookie_option T c '' HttpOnly'' = c\<lparr>httpOnly := True\<rparr>" using fl [of "''HttpOnly''" c] by (simp add: name_eval)
  show "clean_text v \<Longrightarrow> cookie_option T c ('' Domain='' @ v) = c\<lparr>ck_domain := v\<rparr>"
    using ov [of v "''Domain''" c] by (simp add: name_eval)
  show "clean_text v \<Longrightarrow> cookie_option T c ('' Path='' @ v) = c\<lparr>ck_path := v\<rparr>"
    using ov [of v "''Path''" c] by (simp add: name_eval)
  show "cookie_option T c '' SameSite=None'' = c\<lparr>sameSite := SAMESITE_NONE\<rparr>"
    using ov [of "''None''" "''SameSite''" c] by (simp add: name_eval i)
  show "cookie_option T c '' SameSite=Strict'' = c\<lparr>sameSite := SAMESITE_STRICT\<rparr>"
    using ov [of "''Strict''" "''SameSite''" c] by (simp add: name_eval i)
  show "cookie_option T c '' SameSite=Lax'' = c\<lparr>sameSite := SAMESITE_LAX\<rparr>"
    using ov [of "''Lax''" "''SameSite''" c] by (simp add: name_eval i)
  show "cookie_option T c '' '' = c" using fl [of "[]" c] by (simp add: name_eval)
qed


definition good_cookie :: "text_lib \<Rightarrow> int \<Rightarrow> string \<Rightarrow> http_cookie \<Rightarrow> bool" where
  "good_cookie T z name c \<longleftrightarrow> clean_text name \<and> CHR ''='' \<notin> set name \<and> clean_text (ck_value c) \<and> clean_text (ck_domain c) \<and>
     clean_text (ck_path c) \<and> max_age c < 2 ^ 32 \<and>
     (ck_expires c \<noteq> 0 \<longrightarrow> library_dates T z (ck_expires c))"

lemma date_clean: "library_dates T z t \<Longrightarrow> clean_text (Date_toString T t)"
  using date_text_chars [of "lib_to_tm T t"] date_text_ends [of "lib_to_tm T t"]
  by (auto simp: library_dates_def Date_toString_def strftime_date clean_text_def unspaced_def plain_char_def simp del: strftime.simps)

lemma digits_clean: "clean_text (to_string n)"
proof -
  have d: "list_all (\<lambda>c. digit_value c \<noteq> None) (to_string n)" "to_string n \<noteq> []" using to_string_digits [of n] by auto
  then have "\<forall>c\<in>set (to_string n). \<not> is_space c \<and> digit_value c \<noteq> None" using digit_plain by (auto simp: list_all_iff)
  moreover have "digit_value CHR '';'' = None" "digit_value CHR 0x00 = None" by (simp_all add: digit_value_def)
  ultimately show ?thesis using d(2) unfolding clean_text_def unspaced_def by (metis hd_in_set last_in_set)
qed

lemma max_age_text: "n < 2 ^ 32 \<Longrightarrow> strtoull (to_string n) mod 2 ^ 32 = n"
  by (simp add: u64_max_def u64_mod_def)

text \<open>C37: a cookie survives its header, except for the date: reading the text that \<^verbatim>\<open>toSetCookieString\<close> writes gives the
  name and all the attributes again, when the name, the value, the domain and the path have no semicolon, no zero byte
  and no space at their ends, and the name no equals sign; the expiration, when there is one, comes back moved by the
  offset \<^verbatim>\<open>z\<close> of the local time zone from UTC, because \<^verbatim>\<open>Date::fromString\<close> takes a time in GMT for a local
  time. So the cookie is the same exactly where the zone is UTC (or no date is set).\<close>

theorem cookie_round_trip:
  assumes "text_lib_ok T" "good_cookie T z name c"
  shows "fromSetCookieString T (toSetCookieString T c name) n0 =
    (c\<lparr>ck_expires := (if ck_expires c = 0 then 0 else ck_expires c + z)\<rparr>, name)"
proof -
  note good = assms(2) [unfolded good_cookie_def]
  let ?ps = "(name @ ''='' @ ck_value c) # map (\<lambda>p. '' '' @ p) (cookie_opts T c) @ ['' '']"
  have "CHR '';'' \<notin> set p" if "p \<in> set (cookie_opts T c)" for p
    using that good digits_clean [of "max_age c"] date_clean [of T z "ck_expires c"] by (auto simp: cookie_opts_def clean_text_def split: if_splits eSameSitePolicy.splits)
  then have "\<forall>p\<in>set ?ps. p \<noteq> [] \<and> CHR '';'' \<notin> set p" using good by (auto simp: clean_text_def)
  then have split: "tl_split T '';'' (toSetCookieString T c name) = ?ps"
    using assms(1) unfolding cookie_text text_lib_ok_def by blast
  have nv: "getVarNameAndValue T (name @ ''='' @ ck_value c) = (name, ck_value c)"
    using name_and_value(1) [OF assms(1)] good by (simp add: clean_text_def)
  note eff = option_effects [OF assms(1), simplified]
  have "foldl (cookie_option T) (Cookie_defaults\<lparr>ck_value := ck_value c\<rparr>) (map (\<lambda>p. '' '' @ p) (cookie_opts T c) @ ['' '']) =
      c\<lparr>ck_expires := (if ck_expires c = 0 then 0 else ck_expires c + z)\<rparr>"
    unfolding cookie_opts_def map_append foldl_append foldl_if
    using good by (cases c; cases "sameSite c")
      (auto simp: eff digits_clean date_clean date_round_trip max_age_text [simplified] Cookie_defaults_def)
  then show ?thesis using nv by (simp add: fromSetCookieString_def split)
qed

subsection \<open>What is lost\<close>

lemma upper_M: "upper_char d = CHR ''M'' \<Longrightarrow> d = CHR ''M'' \<or> d = CHR ''m''"
proof (cases "97 \<le> (of_char d :: nat) \<and> of_char d \<le> (122 :: nat)")
  case True
  assume "upper_char d = CHR ''M''"
  then have "char_of (of_char d - 32 :: nat) = CHR ''M''" using True by (simp add: upper_char_def Let_def)
  then have "of_char (char_of (of_char d - 32 :: nat)) = (77 :: nat)" by simp
  then have "((of_char d :: nat) - 32) mod 256 = 77" by (simp add: take_bit_eq_mod)
  moreover have "((of_char d :: nat) - 32) mod 256 = of_char d - 32" using True by (intro mod_less) linarith
  ultimately have "of_char d = (109 :: nat)" using True by linarith
  then show ?thesis using of_char_eq_iff [of d "CHR ''m''", where 'a = nat] by simp
qed (auto simp: upper_char_def Let_def)

text \<open>Header values that are lost when they are read, whatever the text: a cache control is always \<^verbatim>\<open>no-store\<close> and
  never \<^verbatim>\<open>must-revalidate\<close>; the frame option is always \<^verbatim>\<open>DENY\<close>; the age of strict transport security is always zero. And the
  client writes two cookies without a separator between them.\<close>

theorem header_values_are_lost:
  assumes "text_lib_ok T"
  shows "optionNoStore (CacheControl_fromString T v) \<and> \<not> optionMustRevalidate (CacheControl_fromString T v) \<and>
    xf_value (fst (XFrameOpts_fromValue T v)) = XFRAME_DENY \<and> hs_maxAge (HSTS_fromValue T v) = 0 \<and>
    client_cookies_text [(a, x), (b, y)] = ''; '' @ a @ ''='' @ x @ b @ ''='' @ y"
proof -
  have "optionNoStore (foldl (cache_option T) c ps) \<and> \<not> optionMustRevalidate (foldl (cache_option T) c ps)"
    if "optionNoStore c \<and> \<not> optionMustRevalidate c" for c ps
    using that by (induction ps arbitrary: c) (auto simp: cache_option_def Let_def)
  from this [of CacheControl_defaults] have cache: "optionNoStore (CacheControl_fromString T v) \<and> \<not> optionMustRevalidate (CacheControl_fromString T v)"
    by (simp add: CacheControl_fromString_def CacheControl_defaults_def)
  have frame: "xf_value (fst (XFrameOpts_fromValue T v)) = XFRAME_DENY" by (simp add: XFrameOpts_fromValue_def Let_def)
  have "strtoull p = 0" if "tl_istarts_with T p ''max-age=''" for p
  proof -
    have eq: "map upper_char (take 8 p) = map upper_char ''max-age=''"
    proof -
      have "length ''max-age='' = 8" by simp
      moreover have "map upper_char (take (length ''max-age='') p) = map upper_char ''max-age=''" using that assms unfolding text_lib_ok_def by blast
      ultimately show ?thesis by (simp only:)
    qed
    have hd8: "hd (map upper_char (take 8 p)) = CHR ''M''" unfolding eq by (simp add: upper_letters)
    have "p \<noteq> []" using arg_cong [OF eq, of length] by auto
    then obtain d ds where p: "p = d # ds" by (cases p) auto
    then have m: "upper_char d = CHR ''M''" using hd8 by (simp add: take_Cons')
    show ?thesis using upper_M [OF m] p by (auto simp: strtoull_def is_space_def digit_value_def)
  qed
  then have "hs_maxAge (foldl (hsts_option T) h ps) = 0" if "hs_maxAge h = 0" for h ps
    using that by (induction ps arbitrary: h) (auto simp: hsts_option_def)
  then have "hs_maxAge (HSTS_fromValue T v) = 0" by (simp add: HSTS_fromValue_def HSTS_defaults_def)
  with cache frame show ?thesis by (simp add: client_cookies_text_def)
qed

subsection \<open>A library to test with\<close>

fun demo_split :: "string \<Rightarrow> string \<Rightarrow> string list" where
  "demo_split seps [] = [[]]"
| "demo_split seps (c # cs) =
     (if c \<in> set seps then (if cs \<noteq> [] \<and> hd cs \<in> set seps then demo_split seps cs else [] # demo_split seps cs)
      else (case demo_split seps cs of [] \<Rightarrow> [[c]] | p # ps \<Rightarrow> (c # p) # ps))"

definition demo_trim :: "string \<Rightarrow> string" where
  "demo_trim x = rev (dropWhile is_space (rev (dropWhile is_space x)))"

definition demo_text_in :: "int \<Rightarrow> text_lib" where
  "demo_text_in z = \<lparr>lib_to_tm = demo_to_tm, lib_mktime = (\<lambda>t. utc_seconds t + z), tl_split = demo_split, tl_trim = demo_trim, tl_upper = map upper_char, tl_lower = map (\<lambda>c. c),
     tl_iequals = (\<lambda>a b. map upper_char a = map upper_char b), tl_starts_with = (\<lambda>x p. take (length p) x = p),
     tl_istarts_with = (\<lambda>x p. map upper_char (take (length p) x) = map upper_char p)\<rparr>"

abbreviation demo_text :: text_lib where
  "demo_text \<equiv> demo_text_in 0"

lemma demo_split_piece: "CHR '';'' \<notin> set p \<Longrightarrow> demo_split '';'' p = [p]"
  by (induction p) (auto split: list.splits)

lemma demo_split_pieces:
  assumes "CHR '';'' \<notin> set p" "q \<noteq> []" "hd q \<noteq> CHR '';''"
  shows "demo_split '';'' (p @ '';'' @ q) = p # demo_split '';'' q"
  using assms by (induction p) auto

lemma demo_split_join:
  "ps \<noteq> [] \<Longrightarrow> \<forall>p\<in>set ps. p \<noteq> [] \<and> CHR '';'' \<notin> set p \<Longrightarrow> demo_split '';'' (join_with '';'' ps) = ps"
proof (induction "'';''" ps rule: join_with.induct)
  case (3 x y xs)
  obtain c y' where y: "y = c # y'" "c \<noteq> CHR '';''" using 3(3) by (cases y) auto
  then have "join_with '';'' (y # xs) \<noteq> []" "hd (join_with '';'' (y # xs)) \<noteq> CHR '';''" by (cases xs; simp)+
  then show ?case using 3 demo_split_pieces [of x "join_with '';'' (y # xs)"] by simp
qed (auto simp: demo_split_piece)

lemma demo_trim_unspaced: "unspaced x \<Longrightarrow> demo_trim x = x \<and> demo_trim ('' '' @ x) = x"
proof -
  assume u: "unspaced x"
  then have x: "dropWhile is_space x = x" by (cases x) (auto simp: unspaced_def)
  have "dropWhile is_space (rev x) = rev x" using u by (cases x rule: rev_cases) (auto simp: unspaced_def)
  with x show ?thesis by (simp add: demo_trim_def is_space_def)
qed

lemma demo_text_ok: "text_lib_ok (demo_text_in z)"
  using demo_split_join demo_trim_unspaced by (simp add: text_lib_ok_def demo_text_in_def)

definition demo_cookie :: http_cookie where
  "demo_cookie = Cookie_defaults\<lparr>ck_value := ''v1'', ck_expires := 784111777, max_age := 60, ck_secure := True, ck_path := ''/app''\<rparr>"

lemma demo_dates: "library_dates (demo_text_in z) z 784111777"
  using demo_calendar(1) by (simp add: library_dates_def demo_text_in_def)

lemma cookie_round_trip_witness:
  "fromSetCookieString (demo_text_in 3600) (toSetCookieString (demo_text_in 3600) demo_cookie ''sid'') [] =
     (demo_cookie\<lparr>ck_expires := 784115377\<rparr>, ''sid'')"
proof -
  have "good_cookie (demo_text_in 3600) 3600 ''sid'' demo_cookie"
    using demo_dates [of 3600]
    by (simp add: demo_cookie_def good_cookie_def clean_text_def unspaced_def is_space_def Cookie_defaults_def)
  from cookie_round_trip [OF demo_text_ok this] show ?thesis by (simp add: demo_cookie_def)
qed

lemma header_values_are_lost_witness: "hs_maxAge (HSTS_fromValue demo_text ''max-age=31536000'') = 0"
  using header_values_are_lost [OF demo_text_ok, where v = "''max-age=31536000''"] by simp

end
