(* ===== verification/Http_Vars.thy ===== *)
theory Http_Vars
  imports Http_Url Http_Headers Parser
begin

text \<open>
  \<^verbatim>\<open>Protocols/mdz_proto_http/common_urlvars.cpp\<close>, \<^verbatim>\<open>common_urlvar_subparser.cpp\<close> and \<^verbatim>\<open>req_requestline.cpp\<close>: the variables of
  an URL as a protocol of names and values, and the first line of a request. A pointer to a container is the container.
\<close>

subsection \<open>The subparser of a name or a value\<close>

record urlvar_subparser = subparser +
  pData :: b_chunks

definition URLVar_setMaxObjectSize :: "urlvar_subparser \<Rightarrow> nat \<Rightarrow> urlvar_subparser" where
  "URLVar_setMaxObjectSize s sz = setParseDataTargetSize s (sz mod 2 ^ 32)"

definition setVarType :: "urlvar_subparser \<Rightarrow> bool \<Rightarrow> urlvar_subparser" where
  "setVarType s varName = setParseMultiDelimiter s (if varName then [[61], [38]] else [[38]])"

definition URLVar_SubParser_new :: "os_calls \<Rightarrow> urlvar_subparser" where
  "URLVar_SubParser_new os =
     (let s = subparser.extend (SubParser_new os) \<lparr>pData = chunks_new\<rparr>;
          s1 = setParseMultiDelimiter (setParseMode s PARSE_MODE_MULTIDELIMITER) [[61], [38]]
      in (URLVar_setMaxObjectSize s1 4096)\<lparr>subParserName := ''URLVar_SubParser''\<rparr>)"

definition flushRetrievedContentAsBC :: "urlvar_subparser \<Rightarrow> urlvar_subparser \<times> b_chunks" where
  "flushRetrievedContentAsBC s = (s\<lparr>pData := chunks_new\<rparr>, pData s)"

definition flushRetrievedContentAsString :: "os_calls \<Rightarrow> urlvar_subparser \<Rightarrow> (urlvar_subparser \<times> byte list) option" where
  "flushRetrievedContentAsString os s =
     map_option (\<lambda>t. (s\<lparr>pData := chunks_new\<rparr>, t)) (base_toString (chunks_virtuals os) (pData s) u64_max 0)"

text \<open>The test of \<^verbatim>\<open>succeed\<close> sees what the writers did to the status that \<^verbatim>\<open>streamTo\<close> passes on.\<close>

definition URLVar_parse :: "os_calls \<Rightarrow> urlvar_subparser \<Rightarrow> (urlvar_subparser \<times> ParseStatus) option" where
  "URLVar_parse os s = do {
     (p, _) \<leftarrow> base_clear (chunks_virtuals os) (pData s);
     let s1 = s\<lparr>pData := p\<rparr>;
     if v_size (ref_virtuals (chunks_virtuals os)) (getParsedBuffer s1) = 0 then Some (s1, PARSE_STAT_GET_MORE_DATA)
     else do {
       (d, cur, _) \<leftarrow> base_streamTo (ref_copyTo2 (chunks_copyTo2 os) (chunks_virtuals os)) (ref_virtuals (chunks_virtuals os))
         (url_decoder_methods (base_write (chunks_virtuals os))) (getParsedBuffer s1) \<lparr>ud_pending = [], ud_orig = p\<rparr> Status_new;
       if \<not> succeed cur
       then do { (p2, _) \<leftarrow> base_clear (chunks_virtuals os) (ud_orig d); Some (s1\<lparr>pData := p2\<rparr>, PARSE_STAT_GOTO_NEXT_SUBPARSER) }
       else Some (s1\<lparr>pData := ud_orig d\<rparr>, PARSE_STAT_GOTO_NEXT_SUBPARSER) } }"

subsection \<open>Variables\<close>

datatype eHTTP_URLVarStat = URLV_STAT_WAITING_NAME | URLV_STAT_WAITING_CONTENT

text \<open>\<^verbatim>\<open>std::multimap\<close>: the entries in the order of their keys, equal keys in the order they came.\<close>

type_synonym 'v multi_map = "(string \<times> 'v) list"

definition mm_insert :: "string \<Rightarrow> 'v \<Rightarrow> 'v multi_map \<Rightarrow> 'v multi_map" where
  "mm_insert k v m = takeWhile (\<lambda>(k', _). k' \<le> k) m @ (k, v) # dropWhile (\<lambda>(k', _). k' \<le> k) m"

record url_vars =
  uv_subParser :: urlvar_subparser
  uv_current :: bool
  uv_stat :: eHTTP_URLVarStat
  currentVarName :: string
  uv_vars :: "b_chunks multi_map"
  maxVarNameSize :: nat
  maxVarContentSize :: nat

definition URLVars_new :: "os_calls \<Rightarrow> url_vars" where
  "URLVars_new os = \<lparr>uv_subParser = URLVar_setMaxObjectSize (setVarType (URLVar_SubParser_new os) True) 4096, uv_current = True,
     uv_stat = URLV_STAT_WAITING_NAME, currentVarName = [], uv_vars = [], maxVarNameSize = 4096, maxVarContentSize = 4096\<rparr>"

definition addVar :: "text_lib \<Rightarrow> url_vars \<Rightarrow> string \<Rightarrow> b_chunks \<Rightarrow> url_vars" where
  "addVar T v varName data =
     (if varName \<noteq> [] then v\<lparr>uv_vars := mm_insert (tl_upper T varName) data (uv_vars v)\<rparr> else v)"

definition URLVars_changeToNextParser :: "os_calls \<Rightarrow> text_lib \<Rightarrow> url_vars \<Rightarrow> (url_vars \<times> bool) option" where
  "URLVars_changeToNextParser os T v =
     (case uv_stat v of
        URLV_STAT_WAITING_NAME \<Rightarrow> do {
          (s, name) \<leftarrow> flushRetrievedContentAsString os (uv_subParser v);
          let v1 = v\<lparr>uv_subParser := s, currentVarName := of_bytes name\<rparr>;
          if delimiterFound s = [38] \<or> streamEnded s
          then let (s2, bc) = flushRetrievedContentAsBC s in Some (addVar T (v1\<lparr>uv_subParser := s2\<rparr>) (currentVarName v1) bc, True)
          else Some (v1\<lparr>uv_stat := URLV_STAT_WAITING_CONTENT,
            uv_subParser := URLVar_setMaxObjectSize (setVarType s False) (maxVarContentSize v)\<rparr>, True) }
      | URLV_STAT_WAITING_CONTENT \<Rightarrow>
          let (s, bc) = flushRetrievedContentAsBC (uv_subParser v); v1 = addVar T (v\<lparr>uv_subParser := s\<rparr>) (currentVarName v) bc
          in Some (v1\<lparr>uv_stat := URLV_STAT_WAITING_NAME,
               uv_subParser := URLVar_setMaxObjectSize (setVarType s True) (maxVarNameSize v)\<rparr>, True))"

definition setMaxVarNameSize :: "url_vars \<Rightarrow> nat \<Rightarrow> url_vars" where
  "setMaxVarNameSize v value =
     (let v1 = v\<lparr>maxVarNameSize := value\<rparr> in
      if uv_stat v = URLV_STAT_WAITING_NAME then v1\<lparr>uv_subParser := URLVar_setMaxObjectSize (uv_subParser v) value\<rparr> else v1)"

definition setMaxVarContentSize :: "url_vars \<Rightarrow> nat \<Rightarrow> url_vars" where
  "setMaxVarContentSize v value =
     (let v1 = v\<lparr>maxVarContentSize := value\<rparr> in
      if uv_stat v = URLV_STAT_WAITING_CONTENT then v1\<lparr>uv_subParser := URLVar_setMaxObjectSize (uv_subParser v) value\<rparr> else v1)"

definition URLVars_isEmpty :: "url_vars \<Rightarrow> bool" where
  "URLVars_isEmpty v \<longleftrightarrow> uv_vars v = []"

definition getKeysList :: "url_vars \<Rightarrow> string set" where
  "getKeysList v = fst ` set (uv_vars v)"

text \<open>\<^verbatim>\<open>equal_range\<close>, and the loops over it. The iterator of \<^verbatim>\<open>varCount\<close> and \<^verbatim>\<open>getValues\<close> is not advanced.\<close>

definition equal_range :: "string \<Rightarrow> 'v multi_map \<Rightarrow> 'v multi_map" where
  "equal_range k m = filter (\<lambda>(k', _). k' = k) m"

partial_function (option) varCount_loop :: "'v multi_map \<Rightarrow> nat \<Rightarrow> nat option" where
  "varCount_loop rng i = (if rng \<noteq> [] then varCount_loop rng ((i + 1) mod 2 ^ 32) else Some i)"

definition varCount :: "text_lib \<Rightarrow> url_vars \<Rightarrow> string \<Rightarrow> nat option" where
  "varCount T v varName = varCount_loop (equal_range (tl_upper T varName) (uv_vars v)) 0"

partial_function (option) getValues_loop :: "'v multi_map \<Rightarrow> 'v list \<Rightarrow> 'v list option" where
  "getValues_loop rng r = (case rng of e # _ \<Rightarrow> getValues_loop rng (r @ [snd e]) | [] \<Rightarrow> Some r)"

definition getValues :: "text_lib \<Rightarrow> url_vars \<Rightarrow> string \<Rightarrow> b_chunks list option" where
  "getValues T v varName = getValues_loop (equal_range (tl_upper T varName) (uv_vars v)) []"

definition getValue :: "text_lib \<Rightarrow> url_vars \<Rightarrow> string \<Rightarrow> b_chunks option" where
  "getValue T v varName = (case equal_range (tl_upper T varName) (uv_vars v) of [] \<Rightarrow> None | (k, x) # _ \<Rightarrow> Some x)"

definition getStringValue :: "os_calls \<Rightarrow> text_lib \<Rightarrow> url_vars \<Rightarrow> string \<Rightarrow> string option" where
  "getStringValue os T v varName =
     (case getValue T v varName of
        None \<Rightarrow> Some [] | Some x \<Rightarrow> map_option of_bytes (base_toString (chunks_virtuals os) x u64_max 0))"

definition vars_exist :: "text_lib \<Rightarrow> url_vars \<Rightarrow> string \<Rightarrow> bool" where
  "vars_exist T v varName \<longleftrightarrow> getValue T v varName \<noteq> None"

text \<open>The protocol. A name that cannot be read from its container ends the parsing.\<close>

definition URLVars_ops :: "os_calls \<Rightarrow> text_lib \<Rightarrow> url_vars protocol_ops" where
  "URLVars_ops os T = \<lparr>po_current = uv_current,
     po_setParseStatus = (\<lambda>v st. v\<lparr>uv_subParser := setParseStatus (uv_subParser v) st\<rparr>),
     po_writeIntoParser = (\<lambda>v buf. map_option (map_sum id (\<lambda>(s, r). (v\<lparr>uv_subParser := s\<rparr>, r)))
       (writeIntoParser os (URLVar_parse os) (uv_subParser v) buf)),
     po_getParseStatus = (\<lambda>v. parseStatus (uv_subParser v)),
     po_changeToNextParser = (\<lambda>v. case URLVars_changeToNextParser os T v of None \<Rightarrow> (v, False) | Some r \<Rightarrow> r),
     po_initProtocol = (\<lambda>v. (v, True)), po_endProtocol = (\<lambda>v. v)\<rparr>"

definition URLVars_parser :: "os_calls \<Rightarrow> url_vars parser" where
  "URLVars_parser os = (Parser_new (URLVars_new os) False)\<lparr>initialized := True\<rparr>"

subsection \<open>The first line of a request\<close>

record request_line =
  requestMethod :: string
  requestURI :: string
  requestURIParameters :: string
  rl_version :: http_version

definition RequestLine_new :: request_line where
  "RequestLine_new = \<lparr>requestMethod = ''GET'', requestURI = [], requestURIParameters = [], rl_version = Version_new\<rparr>"

definition parseURI :: "os_calls \<Rightarrow> request_line \<Rightarrow> request_line option" where
  "parseURI os r =
     (let r1 = (case str_find CHR ''?'' (requestURI r) of
          Some found \<Rightarrow> r\<lparr>requestURIParameters := c_str_from (found + 1) (requestURI r), requestURI := take found (requestURI r)\<rparr>
        | None \<Rightarrow> r)
      in map_option (\<lambda>u. r1\<lparr>requestURI := of_bytes u\<rparr>) (decodeURLStr os (to_bytes (requestURI r1))))"

text \<open>The line and the parameters that go to the variables, if there are any; Inl for a line that is refused.\<close>

definition RequestLine_parse :: "os_calls \<Rightarrow> text_lib \<Rightarrow> request_line \<Rightarrow> string \<Rightarrow> (unit + request_line \<times> string option) option" where
  "RequestLine_parse os T r clientRequest =
     (let requestParts = tl_split T (CHR 0x09 # '' '') clientRequest in
      if length requestParts < 2 then Some (Inl ())
      else let r1 = r\<lparr>requestMethod := tl_upper T (requestParts ! 0), requestURI := requestParts ! 1,
             rl_version := parseVersion T (if length requestParts > 2 then requestParts ! 2 else ''HTTP/1.0'')\<rparr>
        in map_option (\<lambda>r2. Inr (r2, if CHR ''?'' \<in> set (requestURI r1) then Some (requestURIParameters r2) else None)) (parseURI os r1))"

subsection \<open>Lookup\<close>

definition vars_sorted :: "'v multi_map \<Rightarrow> bool" where
  "vars_sorted m \<longleftrightarrow> sorted (map fst m)"

lemma vars_sorted_insert: "vars_sorted m \<Longrightarrow> vars_sorted (mm_insert k v m)"
  by (induction m) (auto simp: vars_sorted_def mm_insert_def dest!: set_takeWhileD set_dropWhileD)

lemma equal_range_insert:
  "vars_sorted m \<Longrightarrow> equal_range k' (mm_insert k v m) = (if k' = k then equal_range k m @ [(k, v)] else equal_range k' m)"
proof (induction m)
  case (Cons e m)
  obtain k1 v1 where e: "e = (k1, v1)" by fastforce
  have m: "vars_sorted m" "\<forall>x\<in>set m. k1 \<le> fst x" using Cons.prems by (auto simp: vars_sorted_def e)
  show ?case
  proof (cases "k1 \<le> k")
    case True
    then show ?thesis using Cons.IH [OF m(1)] by (auto simp: e mm_insert_def equal_range_def)
  next
    case False
    then have "\<forall>x\<in>set m. fst x \<noteq> k" using m(2) by force
    then have "filter (\<lambda>(k', _). k' = k) m = []" by (auto simp: filter_empty_conv)
    then show ?thesis using False by (auto simp: e mm_insert_def equal_range_def)
  qed
qed (auto simp: mm_insert_def equal_range_def)

lemma varCount_loop_stops: "varCount_loop rng i = Some n \<Longrightarrow> rng = []"
  by (rule varCount_loop.raw_induct [where P = "\<lambda>rng i n. rng = []"]) (auto split: if_splits)

lemma getValues_loop_stops: "getValues_loop rng r = Some vs \<Longrightarrow> rng = []"
  by (rule getValues_loop.raw_induct [where P = "\<lambda>rng r vs. rng = []"]) (auto split: list.splits)

subsection \<open>Properties\<close>

text \<open>C39: the variables of a request: \<^verbatim>\<open>getValue\<close> gives the first value that came under the name, whatever its case, and
  adding another name changes nothing about it; but \<^verbatim>\<open>varCount\<close> and \<^verbatim>\<open>getValues\<close> return only for a name that is not there:
  for every variable that exists they run for ever.\<close>

theorem url_variables_lookup:
  assumes "vars_sorted (uv_vars v)" "name \<noteq> []"
  shows "getValue T (addVar T v name x) n =
      (if tl_upper T n = tl_upper T name \<and> \<not> vars_exist T v name then Some x else getValue T v n) \<and>
    vars_sorted (uv_vars (addVar T v name x)) \<and>
    varCount T v n = (if vars_exist T v n then None else Some 0) \<and> getValues T v n = (if vars_exist T v n then None else Some [])"
proof -
  have ex: "vars_exist T v m \<longleftrightarrow> equal_range (tl_upper T m) (uv_vars v) \<noteq> []" for m
    by (auto simp: vars_exist_def getValue_def split: list.splits)
  have "getValue T (addVar T v name x) n =
      (if tl_upper T n = tl_upper T name \<and> \<not> vars_exist T v name then Some x else getValue T v n)"
    using assms ex [of name] by (auto simp: getValue_def addVar_def equal_range_insert split: list.splits)
  moreover have "vars_sorted (uv_vars (addVar T v name x))" using assms by (simp add: addVar_def vars_sorted_insert)
  moreover have "varCount T v n = (if vars_exist T v n then None else Some 0)"
    using varCount_loop_stops [of "equal_range (tl_upper T n) (uv_vars v)" 0] ex [of n]
    by (cases "varCount T v n") (auto simp: varCount_def varCount_loop.simps [of "[]"])
  moreover have "getValues T v n = (if vars_exist T v n then None else Some [])"
    using getValues_loop_stops [of "equal_range (tl_upper T n) (uv_vars v)" "[]"] ex [of n]
    by (cases "getValues T v n") (auto simp: getValues_def getValues_loop.simps [of "[]"])
  ultimately show ?thesis by blast
qed

lemma url_variables_lookup_witness:
  "varCount demo_text (addVar demo_text (URLVars_new (os_fine [])) ''id'' chunks_new) ''ID'' = None"
proof -
  let ?v = "URLVars_new (os_fine [])"
  have v: "uv_vars ?v = []" by (simp add: URLVars_new_def)
  have u: "tl_upper demo_text ''ID'' = tl_upper demo_text ''id''" by (simp add: demo_text_in_def upper_letters)
  have s: "vars_sorted (uv_vars (addVar demo_text ?v ''id'' chunks_new))" "vars_sorted (uv_vars ?v)"
    using v by (simp_all add: addVar_def mm_insert_def vars_sorted_def)
  have "vars_exist demo_text (addVar demo_text ?v ''id'' chunks_new) ''ID''"
    using v u by (simp add: vars_exist_def getValue_def addVar_def mm_insert_def equal_range_def)
  then show ?thesis using url_variables_lookup [OF s(1), of "''x''" demo_text chunks_new "''ID''"] by simp
qed

end
