(* ===== verification/Json_Expr.thy ===== *)
theory Json_Expr
  imports Json
begin

text \<open>
  \<^verbatim>\<open>Scripts/mdz_scripts_jsonexpreval\<close>: boolean expressions over the fields of a JSON value, such as
  \<^verbatim>\<open>IS_EQUAL($.a,"x") && !(IS_NULL($.b) || iCONTAINS($.c,"y"))\<close>. Compiling takes the quoted texts out into a table that an
  expression shares with its sub-expressions, replaces every parenthesised group by the number of a sub-expression of
  its own, and reads what is left as atoms joined by one operator. The table is passed along here as the list
  \<^verbatim>\<open>texts\<close>. The string algorithms of Boost, its regular expressions and the paths of JsonCpp are a record of functions;
  this is the build with \<^verbatim>\<open>boost::regex\<close>, the default. Members that nothing reads are left out.
\<close>

subsection \<open>Library functions\<close>

text \<open>\<^verbatim>\<open>el_search p s\<close> gives what the groups of the pattern match, \<^verbatim>\<open>el_regex_ok\<close> whether a pattern is accepted by the
  constructor, \<^verbatim>\<open>el_regex_match p icase s\<close> whether the extended pattern matches the whole text.\<close>

record expr_lib =
  el_trim :: "string \<Rightarrow> string"
  el_starts_with :: "string \<Rightarrow> string \<Rightarrow> bool"
  el_istarts_with :: "string \<Rightarrow> string \<Rightarrow> bool"
  el_ends_with :: "string \<Rightarrow> string \<Rightarrow> bool"
  el_iends_with :: "string \<Rightarrow> string \<Rightarrow> bool"
  el_contains :: "string \<Rightarrow> string \<Rightarrow> bool"
  el_icontains :: "string \<Rightarrow> string \<Rightarrow> bool"
  el_iequals :: "string \<Rightarrow> string \<Rightarrow> bool"
  el_replace_all :: "string \<Rightarrow> string \<Rightarrow> string \<Rightarrow> string"
  el_replace_first :: "string \<Rightarrow> string \<Rightarrow> string \<Rightarrow> string"
  el_split :: "string \<Rightarrow> string \<Rightarrow> string list"
  el_search :: "string \<Rightarrow> string \<Rightarrow> string list option"
  el_regex_ok :: "string \<Rightarrow> bool \<Rightarrow> bool"
  el_regex_match :: "string \<Rightarrow> bool \<Rightarrow> string \<Rightarrow> bool"
  el_path :: "string \<Rightarrow> json \<Rightarrow> json"

text \<open>\<^verbatim>\<open>find\<close>, \<^verbatim>\<open>c_str\<close>, \<^verbatim>\<open>isalnum\<close> and a set of strings in its order.\<close>

fun str_prefix :: "string \<Rightarrow> string \<Rightarrow> bool" where
  "str_prefix [] s = True"
| "str_prefix (c # p) [] = False"
| "str_prefix (c # p) (d # s) = (c = d \<and> str_prefix p s)"

fun str_has :: "string \<Rightarrow> string \<Rightarrow> bool" where
  "str_has p [] = (p = [])"
| "str_has p (c # s) = (str_prefix p (c # s) \<or> str_has p s)"

definition up_to_nul :: "string \<Rightarrow> string" where
  "up_to_nul s = takeWhile (\<lambda>c. c \<noteq> CHR 0x00) s"

definition c_isalnum :: "char \<Rightarrow> bool" where
  "c_isalnum c \<longleftrightarrow> (let n = of_char c :: nat in 48 \<le> n \<and> n \<le> 57 \<or> 65 \<le> n \<and> n \<le> 90 \<or> 97 \<le> n \<and> n \<le> 122)"

definition std_set :: "string list \<Rightarrow> string list" where
  "std_set xs = sort (remdups xs)"

subsection \<open>The sides of an atom\<close>

datatype eExpressionSideMode = EXPR_MODE_NUMERIC | EXPR_MODE_STATIC_STRING | EXPR_MODE_JSONPATH | EXPR_MODE_NULL | EXPR_MODE_UNDEFINED

record expression_side =
  side_expr :: string
  side_mode :: eExpressionSideMode
  side_regexp :: "(string \<times> bool) option"
  staticIndex :: nat

definition Side_new :: expression_side where
  "Side_new = \<lparr>side_expr = [], side_mode = EXPR_MODE_UNDEFINED, side_regexp = None, staticIndex = 0\<rparr>"

definition side_setExpr :: "expr_lib \<Rightarrow> expression_side \<Rightarrow> string \<Rightarrow> expression_side" where
  "side_setExpr L d value = d\<lparr>side_expr := el_trim L value\<rparr>"

definition side_calcMode :: "expr_lib \<Rightarrow> string list \<Rightarrow> expression_side \<Rightarrow> expression_side \<times> bool" where
  "side_calcMode L texts d =
     (let e = side_expr d in
      if e = [] then (d\<lparr>side_mode := EXPR_MODE_NULL\<rparr>, True)
      else if hd e = CHR ''$'' then (d\<lparr>side_mode := EXPR_MODE_JSONPATH\<rparr>, True)
      else if list_all (\<lambda>c. digit_value c \<noteq> None) e then (d\<lparr>side_mode := EXPR_MODE_NUMERIC\<rparr>, True)
      else if el_starts_with L e ''_STATIC_'' \<and> length texts > strtoull (up_to_nul (drop 8 e))
      then (d\<lparr>side_mode := EXPR_MODE_STATIC_STRING, staticIndex := strtoull (up_to_nul (drop 8 e)) mod 2 ^ 32\<rparr>, True)
      else (d\<lparr>side_mode := EXPR_MODE_UNDEFINED\<rparr>, False))"

definition recompileRegex :: "expr_lib \<Rightarrow> expression_side \<Rightarrow> string \<Rightarrow> bool \<Rightarrow> expression_side \<times> (failure + string list)" where
  "recompileRegex L d r ignoreCase =
     (if side_regexp d = None
      then if el_regex_ok L (up_to_nul r) ignoreCase then (d\<lparr>side_regexp := Some (up_to_nul r, ignoreCase)\<rparr>, Inr [])
           else (d, Inl (Exception ''regex_error''))
      else (d, Inr []))"

definition json_size :: "json \<Rightarrow> nat" where
  "json_size j = (case j of JsonArray xs \<Rightarrow> length xs | JsonObject m \<Rightarrow> length m | _ \<Rightarrow> 0)"

fun json_texts :: "json list \<Rightarrow> failure + string list" where
  "json_texts [] = Inr []"
| "json_texts (x # xs) =
     (case json_asString x of
        Inl f \<Rightarrow> Inl f
      | Inr s \<Rightarrow> (case json_texts xs of Inl f \<Rightarrow> Inl f | Inr ss \<Rightarrow> Inr (s # ss)))"

definition path_texts :: "json \<Rightarrow> failure + string list" where
  "path_texts result =
     (if json_size result = 0 \<and> result \<noteq> JsonNull
      then (case json_asString result of Inl f \<Rightarrow> Inl f | Inr s \<Rightarrow> Inr [s])
      else (case result of
          JsonArray xs \<Rightarrow> (case json_texts xs of Inl f \<Rightarrow> Inl f | Inr ss \<Rightarrow> Inr (std_set ss))
        | JsonObject m \<Rightarrow> Inl (Exception ''in Json::Value::operator[](ArrayIndex): requires arrayValue'')
        | _ \<Rightarrow> Inr []))"

text \<open>An index outside the table would be undefined.\<close>

definition static_text :: "string list \<Rightarrow> string \<Rightarrow> failure + string" where
  "static_text texts e =
     (let i = strtoull (up_to_nul (drop 8 e)) in if i < length texts then Inr (texts ! i) else Inl Null_Dereference)"

definition side_resolve :: "expr_lib \<Rightarrow> string list \<Rightarrow> json \<Rightarrow> bool \<Rightarrow> bool \<Rightarrow> expression_side \<Rightarrow>
  expression_side \<times> (failure + string list)" where
  "side_resolve L texts v resolveRegex ignoreCase d =
     (case side_mode d of
        EXPR_MODE_JSONPATH \<Rightarrow> (d, path_texts (el_path L (drop 1 (side_expr d)) v))
      | EXPR_MODE_STATIC_STRING \<Rightarrow>
          (case static_text texts (side_expr d) of
             Inl f \<Rightarrow> (d, Inl f)
           | Inr t \<Rightarrow> if resolveRegex then recompileRegex L d t ignoreCase else (d, Inr [t]))
      | EXPR_MODE_NUMERIC \<Rightarrow> if resolveRegex then recompileRegex L d (side_expr d) ignoreCase else (d, Inr [side_expr d])
      | _ \<Rightarrow> (d, Inr []))"

subsection \<open>Atoms\<close>

datatype eEvalOperator = EVAL_OPERATOR_CONTAINS | EVAL_OPERATOR_REGEXMATCH | EVAL_OPERATOR_ISEQUAL | EVAL_OPERATOR_STARTSWITH
  | EVAL_OPERATOR_ENDSWITH | EVAL_OPERATOR_ISNULL | EVAL_OPERATOR_UNDEFINED

record atomic_expression =
  at_expr :: string
  at_left :: expression_side
  at_right :: expression_side
  evalOperator :: eEvalOperator
  at_negative :: bool
  at_ignoreCase :: bool

definition Atom_new :: atomic_expression where
  "Atom_new = \<lparr>at_expr = [], at_left = Side_new, at_right = Side_new, evalOperator = EVAL_OPERATOR_UNDEFINED,
     at_negative = False, at_ignoreCase = False\<rparr>"

definition atom_calcNegative :: "atomic_expression \<Rightarrow> bool \<Rightarrow> bool" where
  "atom_calcNegative a r = (if at_negative a then \<not> r else r)"

text \<open>The patterns \<^verbatim>\<open>^NAME\(([^,]+),([^\)]+)\)$\<close> and \<^verbatim>\<open>^NAME\(([^\)]+)\)$\<close>.\<close>

definition binary_pattern :: "string \<Rightarrow> string" where
  "binary_pattern name = ''^'' @ name @ [CHR 0x5C] @ ''(([^,]+),([^'' @ [CHR 0x5C] @ '')]+)'' @ [CHR 0x5C] @ '')$''"

definition unary_pattern :: "string \<Rightarrow> string" where
  "unary_pattern name = ''^'' @ name @ [CHR 0x5C] @ ''(([^'' @ [CHR 0x5C] @ '')]+)'' @ [CHR 0x5C] @ '')$''"

definition substractExpressions :: "expr_lib \<Rightarrow> string list \<Rightarrow> atomic_expression \<Rightarrow> string \<Rightarrow> eEvalOperator \<Rightarrow> atomic_expression \<times> bool" where
  "substractExpressions L texts a pat op =
     (case el_search L pat (at_expr a) of
        None \<Rightarrow> (a, False)
      | Some groups \<Rightarrow>
          let l = side_setExpr L (at_left a) (groups ! 0);
              r = side_setExpr L (at_right a) (if op \<noteq> EVAL_OPERATOR_ISNULL then groups ! 1 else []);
              (l1, okl) = side_calcMode L texts l
          in if \<not> okl then (a\<lparr>at_left := l1, at_right := r\<rparr>, False)
             else let (r1, okr) = side_calcMode L texts r
               in if \<not> okr then (a\<lparr>at_left := l1, at_right := r1\<rparr>, False)
                  else (a\<lparr>at_left := l1, at_right := r1, evalOperator := op\<rparr>, True))"

definition atom_patterns :: "(string \<times> eEvalOperator) list" where
  "atom_patterns = [
     (binary_pattern ''IS_EQUAL'', EVAL_OPERATOR_ISEQUAL),
     (binary_pattern ''REGEX_MATCH'', EVAL_OPERATOR_REGEXMATCH),
     (binary_pattern ''CONTAINS'', EVAL_OPERATOR_CONTAINS),
     (binary_pattern ''STARTS_WITH'', EVAL_OPERATOR_STARTSWITH),
     (binary_pattern ''ENDS_WITH'', EVAL_OPERATOR_ENDSWITH),
     (unary_pattern ''IS_NULL'', EVAL_OPERATOR_ISNULL)]"

fun first_pattern :: "expr_lib \<Rightarrow> string list \<Rightarrow> atomic_expression \<Rightarrow> (string \<times> eEvalOperator) list \<Rightarrow> atomic_expression \<times> bool" where
  "first_pattern L texts a [] = (a\<lparr>evalOperator := EVAL_OPERATOR_UNDEFINED, at_negative := False\<rparr>, False)"
| "first_pattern L texts a ((pat, op) # ps) =
     (let (a1, ok) = substractExpressions L texts a pat op in if ok then (a1, True) else first_pattern L texts a1 ps)"

definition atom_compile :: "expr_lib \<Rightarrow> string list \<Rightarrow> atomic_expression \<Rightarrow> string \<Rightarrow> atomic_expression \<times> bool" where
  "atom_compile L texts a e =
     (let (a1, e1) = (if el_starts_with L e ''!'' then (a\<lparr>at_negative := True\<rparr>, drop 1 e) else (a, e));
          (a2, e2) = (if el_starts_with L e1 ''i'' then (a1\<lparr>at_ignoreCase := True\<rparr>, drop 1 e1) else (a1, e1))
      in first_pattern L texts (a2\<lparr>at_expr := e2\<rparr>) atom_patterns)"

definition operator_holds :: "expr_lib \<Rightarrow> eEvalOperator \<Rightarrow> bool \<Rightarrow> (string \<times> bool) option \<Rightarrow> string list \<Rightarrow> string list \<Rightarrow> bool" where
  "operator_holds L op ignoreCase regexp lvalues rvalues =
     (case op of
        EVAL_OPERATOR_UNDEFINED \<Rightarrow> False
      | EVAL_OPERATOR_ENDSWITH \<Rightarrow>
          list_ex (\<lambda>l. list_ex (\<lambda>r. if ignoreCase then el_iends_with L l r else el_ends_with L l r) rvalues) lvalues
      | EVAL_OPERATOR_STARTSWITH \<Rightarrow>
          list_ex (\<lambda>l. list_ex (\<lambda>r. if ignoreCase then el_istarts_with L l r else el_starts_with L l r) rvalues) lvalues
      | EVAL_OPERATOR_ISEQUAL \<Rightarrow>
          list_ex (\<lambda>r. if ignoreCase then list_ex (\<lambda>l. el_iequals L r l) lvalues else r \<in> set lvalues) rvalues
      | EVAL_OPERATOR_ISNULL \<Rightarrow> lvalues = []
      | EVAL_OPERATOR_CONTAINS \<Rightarrow>
          list_ex (\<lambda>l. list_ex (\<lambda>r. if ignoreCase then el_icontains L l r else el_contains L l r) rvalues) lvalues
      | EVAL_OPERATOR_REGEXMATCH \<Rightarrow>
          (case regexp of None \<Rightarrow> False | Some (p, icase) \<Rightarrow> list_ex (\<lambda>l. el_regex_match L p icase (up_to_nul l)) lvalues))"

definition atom_evaluate :: "expr_lib \<Rightarrow> string list \<Rightarrow> json \<Rightarrow> atomic_expression \<Rightarrow> atomic_expression \<times> (failure + bool)" where
  "atom_evaluate L texts values a =
     (let regex = (evalOperator a = EVAL_OPERATOR_REGEXMATCH);
          (l, lres) = side_resolve L texts values regex (at_ignoreCase a) (at_left a);
          a1 = a\<lparr>at_left := l\<rparr>
      in case lres of
           Inl f \<Rightarrow> (a1, Inl f)
         | Inr lvalues \<Rightarrow>
             let (r, rres) = side_resolve L texts values regex (at_ignoreCase a) (at_right a1); a2 = a1\<lparr>at_right := r\<rparr>
             in case rres of
                  Inl f \<Rightarrow> (a2, Inl f)
                | Inr rvalues \<Rightarrow>
                    (a2, Inr (atom_calcNegative a2 (operator_holds L (evalOperator a2) (at_ignoreCase a2) (side_regexp r) lvalues rvalues))))"

subsection \<open>Expressions\<close>

datatype eEvalMode = EVAL_MODE_OR | EVAL_MODE_AND | EVAL_MODE_UNDEFINED

text \<open>The members \<^verbatim>\<open>negativeExpression\<close>, \<^verbatim>\<open>evalMode\<close>, \<^verbatim>\<open>subExpressions\<close>, \<^verbatim>\<open>atomExpressions\<close>, \<^verbatim>\<open>isCompiled\<close> and \<^verbatim>\<open>lastError\<close>; an
  atom is an object, or the number of a sub-expression.\<close>

datatype json_eval = JSON_Eval (je_negative: bool) (je_mode: eEvalMode) (je_subs: "json_eval list")
  (je_atoms: "(atomic_expression + nat) list") (getIsCompiled: bool) (getLastCompilerError: string)

definition JSONEval_new :: json_eval where
  "JSONEval_new = JSON_Eval False EVAL_MODE_UNDEFINED [] [] False []"

text \<open>The first match of \<^verbatim>\<open>"([^"]*)"\<close>.\<close>

definition first_quoted :: "string \<Rightarrow> string option" where
  "first_quoted s =
     (case dropWhile (\<lambda>c. c \<noteq> CHR 0x22) s of
        [] \<Rightarrow> None
      | _ # r \<Rightarrow> if CHR 0x22 \<in> set r then Some (takeWhile (\<lambda>c. c \<noteq> CHR 0x22) r) else None)"

definition static_name :: "nat \<Rightarrow> string" where
  "static_name pos = ''_STATIC_'' @ to_string pos"

definition subexpr_name :: "nat \<Rightarrow> string" where
  "subexpr_name pos = ''_SUBEXPR_'' @ to_string pos"

partial_function (option) static_loop :: "expr_lib \<Rightarrow> string list \<Rightarrow> string \<Rightarrow> (string list \<times> string) option" where
  "static_loop L texts e =
     (case first_quoted e of
        None \<Rightarrow> Some (texts, e)
      | Some t \<Rightarrow> static_loop L (texts @ [t]) (el_replace_all L e ([CHR 0x22] @ t @ [CHR 0x22]) (static_name (length texts))))"

partial_function (option) space_loop :: "expr_lib \<Rightarrow> string \<Rightarrow> string option" where
  "space_loop L e = (if str_has ''  '' e then space_loop L (el_replace_all L e ''  '' '' '') else Some e)"

text \<open>What \<^verbatim>\<open>compile\<close> does before it looks for sub-expressions: the text that remains, or an error.\<close>

definition compile_before :: "expr_lib \<Rightarrow> string list \<Rightarrow> string \<Rightarrow> (string list \<times> (string + string)) option" where
  "compile_before L texts e =
     Option.bind (static_loop L texts (el_trim L e)) (\<lambda>(texts1, e1).
       if CHR 0x22 \<in> set e1 then Some (texts1, Inl ''bad quoting in text'')
       else if CHR 0x0A \<in> set e1 then Some (texts1, Inl ''Mutiline expression not supported'')
       else if str_has ''_SUBEXPR_'' e1 then Some (texts1, Inl ''Invalid keyword _SUBEXPR_'')
       else map_option (\<lambda>e2. (texts1, Inr e2)) (space_loop L e1))"

text \<open>\<^verbatim>\<open>detectSubExpr\<close> scans for the next closed group; what it finds tells the caller how to go on.\<close>

datatype sub_scan = No_More | Unbalanced | Function_Until nat | Group bool string

fun detect_scan :: "string \<Rightarrow> nat \<Rightarrow> nat \<Rightarrow> bool \<Rightarrow> nat \<Rightarrow> string \<Rightarrow> sub_scan" where
  "detect_scan e i level inSubExpr firstByte [] = No_More"
| "detect_scan e i level inSubExpr firstByte (c # cs) =
     (if c = CHR ''(''
      then if level = 0 then detect_scan e (i + 1) (level + 1) True i cs
           else detect_scan e (i + 1) (level + 1) inSubExpr firstByte cs
      else if c = CHR '')''
      then if level = 0 then Unbalanced
           else if level - 1 = 0 \<and> inSubExpr
           then if 0 < firstByte \<and> c_isalnum (e ! (firstByte - 1)) then Function_Until (i + 1)
                else Group (0 < firstByte \<and> e ! (firstByte - 1) = CHR ''!'') (take (i - firstByte - 1) (drop (firstByte + 1) e))
           else detect_scan e (i + 1) (level - 1) inSubExpr firstByte cs
      else detect_scan e (i + 1) level inSubExpr firstByte cs)"

definition detectSubExpr :: "string \<Rightarrow> nat \<Rightarrow> sub_scan" where
  "detectSubExpr e start = detect_scan e start 0 False 0 (drop start e)"

text \<open>What \<^verbatim>\<open>compile\<close> does after it has replaced them. An error leaves the atoms that were read before it.\<close>

fun atoms_loop :: "expr_lib \<Rightarrow> string list \<Rightarrow> nat \<Rightarrow> (atomic_expression + nat) list \<Rightarrow> string list \<Rightarrow>
  (atomic_expression + nat) list \<times> string option \<times> bool" where
  "atoms_loop L texts n atoms [] = (atoms, None, False)"
| "atoms_loop L texts n atoms (e # es) =
     (if el_starts_with L e ''_SUBEXPR_''
      then let k = strtoull (up_to_nul (drop 9 e)) in
        if n \<le> k then (atoms, Some ''Invalid Sub Expression #'', False) else atoms_loop L texts n (atoms @ [Inr k]) es
      else let (a, ok) = atom_compile L texts Atom_new e in
        if ok then atoms_loop L texts n (atoms @ [Inl a]) es else (atoms, Some ''Invalid Atomic Expression'', True))"

definition compile_after :: "expr_lib \<Rightarrow> string list \<Rightarrow> json_eval \<Rightarrow> string \<Rightarrow> bool \<Rightarrow> json_eval \<times> bool" where
  "compile_after L texts x e balanced =
     (let err = (\<lambda>mode atoms msg. (JSON_Eval (je_negative x) mode (je_subs x) atoms (getIsCompiled x) msg, False)) in
      if \<not> balanced then err (je_mode x) (je_atoms x) ''bad parenthesis balancing''
      else if str_has '' && '' e \<and> str_has '' || '' e
      then err EVAL_MODE_UNDEFINED (je_atoms x) ''Expression with both and/or and no precedence order''
      else
        let (mode, e1) = (if str_has '' && '' e then (EVAL_MODE_AND, el_replace_all L e '' && '' [CHR 0x0A])
                          else (EVAL_MODE_OR, el_replace_all L e '' || '' [CHR 0x0A]))
        in if CHR '' '' \<in> set e1 then err mode (je_atoms x) ''Invalid Operator (only and/or is admitted)''
           else case atoms_loop L texts (length (je_subs x)) (je_atoms x) (el_split L [CHR 0x0A] e1) of
               (atoms, Some msg, undef) \<Rightarrow> err (if undef then EVAL_MODE_UNDEFINED else mode) atoms msg
             | (atoms, None, _) \<Rightarrow> (JSON_Eval (je_negative x) mode (je_subs x) atoms (getIsCompiled x) [], True))"

definition with_error :: "json_eval \<Rightarrow> string \<Rightarrow> json_eval" where
  "with_error x msg = JSON_Eval (je_negative x) (je_mode x) (je_subs x) (je_atoms x) (getIsCompiled x) msg"

definition with_subs :: "json_eval \<Rightarrow> json_eval list \<Rightarrow> json_eval" where
  "with_subs x subs = JSON_Eval (je_negative x) (je_mode x) subs (je_atoms x) (getIsCompiled x) (getLastCompilerError x)"

definition with_compiled :: "json_eval \<times> bool \<Rightarrow> json_eval" where
  "with_compiled r = (case r of (x, ok) \<Rightarrow> JSON_Eval (je_negative x) (je_mode x) (je_subs x) (je_atoms x) ok (getLastCompilerError x))"

text \<open>The object of a constructor before \<^verbatim>\<open>compile\<close>: \<^verbatim>\<open>evalMode\<close> is what the memory held, given by \<^verbatim>\<open>junk\<close> for the text.\<close>

definition fresh_eval :: "(string \<Rightarrow> eEvalMode) \<Rightarrow> bool \<Rightarrow> string \<Rightarrow> json_eval" where
  "fresh_eval junk negative e = JSON_Eval negative (junk e) [] [] False []"

text \<open>The loop of \<^verbatim>\<open>compile\<close> around \<^verbatim>\<open>detectSubExpr\<close>. A group is compiled by an object of its own, whose result is not
  looked at. None: it does not return.\<close>

partial_function (option) detect_loop :: "expr_lib \<Rightarrow> (string \<Rightarrow> eEvalMode) \<Rightarrow> string list \<Rightarrow> string \<Rightarrow> nat \<Rightarrow> json_eval list \<Rightarrow>
  (string list \<times> json_eval list \<times> string \<times> bool) option" where
  "detect_loop L junk texts e sePos subs =
     (case detectSubExpr e sePos of
        No_More \<Rightarrow> Some (texts, subs, e, True)
      | Unbalanced \<Rightarrow> Some (texts, subs, e, False)
      | Function_Until p \<Rightarrow> detect_loop L junk texts e p subs
      | Group negative subexpr \<Rightarrow>
          Option.bind
            (Option.bind (compile_before L texts subexpr) (\<lambda>(texts1, before).
               case before of
                 Inl msg \<Rightarrow> Some (texts1, with_compiled (with_error (fresh_eval junk negative subexpr) msg, False))
               | Inr e1 \<Rightarrow>
                   Option.bind (detect_loop L junk texts1 e1 0 []) (\<lambda>(texts2, subs2, e2, balanced).
                     Some (texts2, with_compiled (compile_after L texts2 (with_subs (fresh_eval junk negative subexpr) subs2) e2 balanced)))))
            (\<lambda>(texts2, child).
               detect_loop L junk texts2
                 (el_replace_first L e ((if negative then ''!('' else ''('') @ subexpr @ '')'') (subexpr_name (length subs)))
                 0 (subs @ [child])))"

definition JSONEval_compile :: "expr_lib \<Rightarrow> (string \<Rightarrow> eEvalMode) \<Rightarrow> string list \<Rightarrow> json_eval \<Rightarrow> string \<Rightarrow>
  (string list \<times> json_eval \<times> bool) option" where
  "JSONEval_compile L junk texts x e =
     Option.bind (compile_before L texts e) (\<lambda>(texts1, before).
       case before of
         Inl msg \<Rightarrow> Some (texts1, with_error x msg, False)
       | Inr e1 \<Rightarrow>
           Option.bind (detect_loop L junk texts1 e1 0 (je_subs x)) (\<lambda>(texts2, subs, e2, balanced).
             Some (texts2, compile_after L texts2 (with_subs x subs) e2 balanced)))"

text \<open>The constructors that compile.\<close>

definition JSONEval_of :: "expr_lib \<Rightarrow> (string \<Rightarrow> eEvalMode) \<Rightarrow> string list \<Rightarrow> bool \<Rightarrow> string \<Rightarrow> (string list \<times> json_eval) option" where
  "JSONEval_of L junk texts negative e =
     map_option (\<lambda>(texts1, r). (texts1, with_compiled r)) (JSONEval_compile L junk texts (fresh_eval junk negative e) e)"

definition calcNegative :: "bool \<Rightarrow> bool \<Rightarrow> bool" where
  "calcNegative negative r = (if negative then \<not> r else r)"

text \<open>\<^verbatim>\<open>evaluate\<close>: the loop over the atoms, of which \<^verbatim>\<open>i\<close> are done. Regular expressions are compiled when they are first
  needed, so that evaluating changes the objects.\<close>

partial_function (option) evaluate_loop :: "expr_lib \<Rightarrow> string list \<Rightarrow> json \<Rightarrow> json_eval \<Rightarrow> nat \<Rightarrow> (json_eval \<times> (failure + bool)) option" where
  "evaluate_loop L texts values x i =
     (if je_mode x = EVAL_MODE_UNDEFINED then Some (x, Inr False)
      else if length (je_atoms x) \<le> i then Some (x, Inr (calcNegative (je_negative x) (je_mode x = EVAL_MODE_AND)))
      else Option.bind
        (case je_atoms x ! i of
           Inl a \<Rightarrow> (case atom_evaluate L texts values a of (a1, res) \<Rightarrow>
             Some (JSON_Eval (je_negative x) (je_mode x) (je_subs x) ((je_atoms x)[i := Inl a1]) (getIsCompiled x) (getLastCompilerError x), res))
         | Inr k \<Rightarrow>
             if k < length (je_subs x)
             then Option.bind (evaluate_loop L texts values (je_subs x ! k) 0) (\<lambda>(s, res).
               Some (with_subs x ((je_subs x)[k := s]), res))
             else Some (x, Inl Null_Dereference))
        (\<lambda>(x1, res).
           case res of
             Inl f \<Rightarrow> Some (x1, Inl f)
           | Inr b \<Rightarrow>
               if b = (je_mode x = EVAL_MODE_OR) then Some (x1, Inr (calcNegative (je_negative x) b))
               else evaluate_loop L texts values x1 (i + 1)))"

definition JSONEval_evaluate :: "expr_lib \<Rightarrow> string list \<Rightarrow> json \<Rightarrow> json_eval \<Rightarrow> (json_eval \<times> (failure + bool)) option" where
  "JSONEval_evaluate L texts values x = evaluate_loop L texts values x 0"

end
