(* ===== verification/Json_Expr_Facts.thy ===== *)
theory Json_Expr_Facts
  imports Json_Expr
begin

text \<open>
  What compiled expressions mean. \<^verbatim>\<open>jexpr\<close> is the syntax of an expression as a tree, \<^verbatim>\<open>jtext\<close> the text of a tree and
  \<^verbatim>\<open>jmeaning\<close> its value, errors included; compiling the text and evaluating the objects, any number of times, gives that
  value. The laws of the library are collected in \<^verbatim>\<open>expr_lib_ok\<close>, over reference definitions of Boost's algorithms.
\<close>

subsection \<open>Laws of the library\<close>

fun str_replace_first :: "string \<Rightarrow> string \<Rightarrow> string \<Rightarrow> string" where
  "str_replace_first p r [] = []"
| "str_replace_first p r (c # s) =
     (if str_prefix p (c # s) then r @ drop (length p) (c # s) else c # str_replace_first p r s)"

fun str_replace_all :: "string \<Rightarrow> string \<Rightarrow> string \<Rightarrow> string" where
  "str_replace_all p r [] = []"
| "str_replace_all p r (c # s) =
     (if str_prefix p (c # s) then r @ str_replace_all p r (drop (length p - 1) s) else c # str_replace_all p r s)"

fun pieces :: "char \<Rightarrow> string \<Rightarrow> string list" where
  "pieces d [] = [[]]"
| "pieces d (c # s) = (if c = d then [] # pieces d s else case pieces d s of [] \<Rightarrow> [[c]] | p # ps \<Rightarrow> (c # p) # ps)"

text \<open>What the groups of the two patterns match in a text without line breaks, for a name of letters.\<close>

definition unary_groups :: "string \<Rightarrow> string \<Rightarrow> string list option" where
  "unary_groups name s =
     (if str_prefix (name @ ''('') s \<and> last s = CHR '')''
      then let body = butlast (drop (length name + 1) s) in
        if body \<noteq> [] \<and> CHR '')'' \<notin> set body then Some [body] else None
      else None)"

definition binary_groups :: "string \<Rightarrow> string \<Rightarrow> string list option" where
  "binary_groups name s =
     (if str_prefix (name @ ''('') s \<and> last s = CHR '')''
      then let body = butlast (drop (length name + 1) s); l = takeWhile (\<lambda>c. c \<noteq> CHR '','') body in
        case drop (length l) body of
          [] \<Rightarrow> None
        | _ # r \<Rightarrow> if l \<noteq> [] \<and> r \<noteq> [] \<and> CHR '')'' \<notin> set r then Some [l, r] else None
      else None)"

definition expr_lib_ok :: "expr_lib \<Rightarrow> bool" where
  "expr_lib_ok L \<longleftrightarrow>
     el_trim L [] = [] \<and>
     (\<forall>s. s \<noteq> [] \<and> \<not> is_space (hd s) \<and> \<not> is_space (last s) \<longrightarrow> el_trim L s = s) \<and>
     (\<forall>s p. el_starts_with L s p = str_prefix p s) \<and>
     (\<forall>s p r. p \<noteq> [] \<longrightarrow> el_replace_first L s p r = str_replace_first p r s) \<and>
     (\<forall>s p r. p \<noteq> [] \<longrightarrow> el_replace_all L s p r = str_replace_all p r s) \<and>
     (\<forall>s c. el_split L [c] s = pieces c s) \<and>
     (\<forall>name s. list_all (\<lambda>c. c_isalnum c \<or> c = CHR ''_'') name \<and> \<not> list_ex is_space s \<longrightarrow>
        el_search L (binary_pattern name) s = binary_groups name s \<and> el_search L (unary_pattern name) s = unary_groups name s)"

subsection \<open>Texts\<close>

lemma str_prefix_append [simp]: "str_prefix p (p @ s)"
  by (induction p) auto

lemma str_prefix_iff: "str_prefix p s \<longleftrightarrow> (\<exists>b. s = p @ b)"
proof
  show "str_prefix p s \<Longrightarrow> \<exists>b. s = p @ b" by (induction p s rule: str_prefix.induct) auto
qed auto

lemma str_prefix_set: "str_prefix p s \<Longrightarrow> set p \<subseteq> set s"
  by (auto simp: str_prefix_iff)

lemma str_has_append: "str_has p s \<Longrightarrow> str_has p (a @ s)"
  by (induction a) auto

lemma str_has_iff: "str_has p s \<longleftrightarrow> (\<exists>a b. s = a @ p @ b)"
proof
  show "str_has p s \<Longrightarrow> \<exists>a b. s = a @ p @ b"
  proof (induction s)
    case (Cons c s)
    show ?case
    proof (cases "str_prefix p (c # s)")
      case True
      then have "\<exists>b. c # s = [] @ p @ b" by (simp add: str_prefix_iff)
      then show ?thesis by blast
    next
      case False
      then obtain a b where "s = a @ p @ b" using Cons by auto
      then have "c # s = (c # a) @ p @ b" by simp
      then show ?thesis by blast
    qed
  qed simp
next
  assume "\<exists>a b. s = a @ p @ b"
  then obtain a b where s: "s = a @ p @ b" by blast
  have "str_has p (p @ b)" using str_prefix_append [of p b] by (cases "p @ b") (auto simp del: str_prefix_append)
  then show "str_has p s" unfolding s by (rule str_has_append)
qed

text \<open>A character that the pattern does not have separates the places where it can occur.\<close>

lemma str_prefix_separator: "c \<notin> set p \<Longrightarrow> str_prefix p (xs @ c # ys) = str_prefix p xs"
proof (induction p xs rule: str_prefix.induct)
  case (2 d p)
  then show ?case by auto
qed auto

lemma str_has_Nil [simp]: "str_has [] s"
  by (cases s) auto

lemma str_has_separator: "c \<notin> set p \<Longrightarrow> str_has p (xs @ c # ys) \<longleftrightarrow> str_has p xs \<or> str_has p ys"
proof (induction xs)
  case Nil
  then show ?case by (cases p) auto
next
  case (Cons d xs)
  then show ?case using str_prefix_separator [of c p "d # xs" ys] by simp
qed

lemma str_has_skip [simp]: "\<forall>c\<in>set t. c \<noteq> d \<Longrightarrow> str_has (d # q) (t @ u) = str_has (d # q) u"
  by (induction t) auto

lemma str_has_none [simp]: "\<forall>c\<in>set t. c \<noteq> d \<Longrightarrow> \<not> str_has (d # q) t"
  by (induction t) auto

lemma str_replace_all_skip [simp]:
  "\<forall>c\<in>set t. c \<noteq> d \<Longrightarrow> str_replace_all (d # q) r (t @ u) = t @ str_replace_all (d # q) r u"
  by (induction t) auto

lemma str_replace_all_none [simp]: "\<forall>c\<in>set t. c \<noteq> d \<Longrightarrow> str_replace_all (d # q) r t = t"
  by (induction t) auto

lemma str_replace_all_here [simp]: "str_replace_all (d # q) r (d # q @ u) = r @ str_replace_all (d # q) r u"
  using str_prefix_append [of "d # q" u] by simp

lemma pieces_append: "d \<notin> set t \<Longrightarrow> pieces d (t @ d # u) = t # pieces d u"
  by (induction t) auto

lemma pieces_one: "d \<notin> set t \<Longrightarrow> pieces d t = [t]"
  by (induction t) auto

fun joined :: "string \<Rightarrow> string list \<Rightarrow> string" where
  "joined sep [] = []"
| "joined sep [t] = t"
| "joined sep (t # u # ts) = t @ sep @ joined sep (u # ts)"

lemma joined_Cons: "ts \<noteq> [] \<Longrightarrow> joined sep (t # ts) = t @ sep @ joined sep ts"
  by (cases ts) simp_all

lemma joined_append: "ts \<noteq> [] \<Longrightarrow> us \<noteq> [] \<Longrightarrow> joined sep (ts @ us) = joined sep ts @ sep @ joined sep us"
  by (induction sep ts rule: joined.induct) (auto simp: joined_Cons)

lemma pieces_joined: "ts \<noteq> [] \<Longrightarrow> \<forall>t\<in>set ts. d \<notin> set t \<Longrightarrow> pieces d (joined [d] ts) = ts"
  by (induction "[d]" ts rule: joined.induct) (auto simp: pieces_append pieces_one)

subsection \<open>Trees and their texts\<close>

datatype jside = JPath string | JNumber string | JStatic nat | JNothing

datatype jexpr = JAtom bool bool eEvalOperator jside jside | JGroup bool bool "jexpr list"

fun side_text :: "jside \<Rightarrow> string" where
  "side_text (JPath p) = CHR ''$'' # p"
| "side_text (JNumber ds) = ds"
| "side_text (JStatic k) = static_name k"
| "side_text JNothing = []"

fun op_name :: "eEvalOperator \<Rightarrow> string" where
  "op_name EVAL_OPERATOR_CONTAINS = ''CONTAINS''"
| "op_name EVAL_OPERATOR_REGEXMATCH = ''REGEX_MATCH''"
| "op_name EVAL_OPERATOR_ISEQUAL = ''IS_EQUAL''"
| "op_name EVAL_OPERATOR_STARTSWITH = ''STARTS_WITH''"
| "op_name EVAL_OPERATOR_ENDSWITH = ''ENDS_WITH''"
| "op_name EVAL_OPERATOR_ISNULL = ''IS_NULL''"
| "op_name EVAL_OPERATOR_UNDEFINED = []"

definition atom_args :: "eEvalOperator \<Rightarrow> jside \<Rightarrow> jside \<Rightarrow> string" where
  "atom_args op l r = (if op = EVAL_OPERATOR_ISNULL then side_text l else side_text l @ '','' @ side_text r)"

definition atom_head :: "bool \<Rightarrow> bool \<Rightarrow> eEvalOperator \<Rightarrow> string" where
  "atom_head n i op = (if n then ''!'' else []) @ (if i then ''i'' else []) @ op_name op"

definition connective :: "bool \<Rightarrow> string" where
  "connective c = (if c then '' && '' else '' || '')"

fun jtext :: "jexpr \<Rightarrow> string" where
  "jtext (JAtom n i op l r) = atom_head n i op @ ''('' @ atom_args op l r @ '')''"
| "jtext (JGroup n c xs) = (if n then ''!'' else []) @ ''('' @ joined (connective c) (map jtext xs) @ '')''"

text \<open>Trees whose texts are read back: an operand is a path, a decimal number or the name of an entry of the table.\<close>

definition path_char :: "char \<Rightarrow> bool" where
  "path_char c \<longleftrightarrow> \<not> is_space c \<and> c \<notin> set ''(),'' \<and> c \<noteq> CHR 0x22"

fun side_wf :: "nat \<Rightarrow> jside \<Rightarrow> bool" where
  "side_wf n (JPath p) \<longleftrightarrow> list_all path_char p \<and> \<not> str_has ''_SUBEXPR_'' p"
| "side_wf n (JNumber ds) \<longleftrightarrow> ds \<noteq> [] \<and> list_all (\<lambda>c. digit_value c \<noteq> None) ds"
| "side_wf n (JStatic k) \<longleftrightarrow> k < n \<and> k \<le> u64_max"
| "side_wf n JNothing \<longleftrightarrow> False"

fun jwf :: "nat \<Rightarrow> jexpr \<Rightarrow> bool" where
  "jwf k (JAtom n i op l r) \<longleftrightarrow> op \<noteq> EVAL_OPERATOR_UNDEFINED \<and> side_wf k l \<and>
     (if op = EVAL_OPERATOR_ISNULL then r = JNothing else side_wf k r)"
| "jwf k (JGroup n c xs) \<longleftrightarrow> xs \<noteq> [] \<and> length xs \<le> u64_max \<and> (\<forall>x\<in>set xs. jwf k x)"

text \<open>The pieces of the text of an atom.\<close>

definition plain_char :: "char \<Rightarrow> bool" where
  "plain_char c \<longleftrightarrow> \<not> is_space c \<and> c \<notin> set ''()'' \<and> c \<noteq> CHR 0x22"

lemma digit_plain_char: "digit_value c \<noteq> None \<Longrightarrow> plain_char c \<and> c \<noteq> CHR '','' \<and> c \<noteq> CHR ''_''"
  by (auto simp: digit_value_def plain_char_def is_space_def Let_def split: if_splits)

lemma static_name_chars:
  "list_all (\<lambda>c. plain_char c \<and> c \<noteq> CHR '','') (static_name k)" "\<not> str_has ''_SUBEXPR_'' (static_name k)"
proof -
  have d: "list_all (\<lambda>c. digit_value c \<noteq> None) (to_string k)" using to_string_digits by simp
  then have "list_all (\<lambda>c. plain_char c \<and> c \<noteq> CHR '','') (to_string k)" using digit_plain_char by (simp add: list_all_iff)
  moreover have "list_all (\<lambda>c. plain_char c \<and> c \<noteq> CHR '','') ''_STATIC_''" by (simp add: plain_char_def is_space_def)
  ultimately show "list_all (\<lambda>c. plain_char c \<and> c \<noteq> CHR '','') (static_name k)"
    unfolding static_name_def list_all_append by blast
  have n: "\<forall>c\<in>set (to_string k). c \<noteq> CHR ''_''" using d digit_plain_char by (auto simp: list_all_iff)
  have "\<not> str_has ''_SUBEXPR_'' (''_STATIC'' @ CHR ''_'' # to_string k)"
    using n str_prefix_set [of "''SUBEXPR_''" "to_string k"] by auto
  then show "\<not> str_has ''_SUBEXPR_'' (static_name k)" by (simp add: static_name_def)
qed

lemma path_plain_char: "path_char c \<Longrightarrow> plain_char c \<and> c \<noteq> CHR '',''"
  by (simp add: path_char_def plain_char_def)

lemma plain_dollar: "plain_char CHR ''$'' \<and> plain_char CHR '',''"
  by (simp add: plain_char_def is_space_def)

lemma side_text_chars:
  assumes "side_wf n s"
  shows "list_all (\<lambda>c. plain_char c \<and> c \<noteq> CHR '','') (side_text s)" "\<not> str_has ''_SUBEXPR_'' (side_text s)"
    "side_text s \<noteq> []" "hd (side_text s) \<in> {CHR ''$'', CHR ''_''} \<or> digit_value (hd (side_text s)) \<noteq> None"
proof -
  have d: "list_all (\<lambda>c. plain_char c \<and> c \<noteq> CHR '','') ds" "\<not> str_has ''_SUBEXPR_'' ds"
    if "list_all (\<lambda>c. digit_value c \<noteq> None) ds" for ds
  proof -
    have "\<forall>c\<in>set ds. plain_char c \<and> c \<noteq> CHR '','' \<and> c \<noteq> CHR ''_''" using that digit_plain_char by (simp add: list_all_iff)
    then show "list_all (\<lambda>c. plain_char c \<and> c \<noteq> CHR '','') ds" "\<not> str_has ''_SUBEXPR_'' ds"
      by (simp_all add: list_all_iff)
  qed
  have p: "list_all path_char p \<Longrightarrow> list_all (\<lambda>c. plain_char c \<and> c \<noteq> CHR '','') p" for p
    using path_plain_char by (simp add: list_all_iff)
  show "list_all (\<lambda>c. plain_char c \<and> c \<noteq> CHR '','') (side_text s)"
    using assms d(1) p static_name_chars(1) plain_dollar by (cases s) simp_all
  show "\<not> str_has ''_SUBEXPR_'' (side_text s)"
    using assms d(2) static_name_chars(2) by (cases s) simp_all
  show "side_text s \<noteq> []" using assms by (cases s) (simp_all add: static_name_def)
  show "hd (side_text s) \<in> {CHR ''$'', CHR ''_''} \<or> digit_value (hd (side_text s)) \<noteq> None"
  proof (cases s)
    case (JNumber ds)
    then show ?thesis using assms by (cases ds) simp_all
  qed (use assms in \<open>simp_all add: static_name_def\<close>)
qed

lemma atom_args_chars:
  assumes "jwf k (JAtom n i op l r)"
  shows "list_all plain_char (atom_args op l r)" "\<not> str_has ''_SUBEXPR_'' (atom_args op l r)" "atom_args op l r \<noteq> []"
    "hd (atom_args op l r) \<in> {CHR ''$'', CHR ''_''} \<or> digit_value (hd (atom_args op l r)) \<noteq> None"
proof -
  have l: "side_wf k l" using assms by simp
  have r: "side_wf k r" if "op \<noteq> EVAL_OPERATOR_ISNULL" using assms that by simp
  note L = side_text_chars [OF l] and R = side_text_chars [OF r]
  show "list_all plain_char (atom_args op l r)"
  proof (cases "op = EVAL_OPERATOR_ISNULL")
    case False
    have "list_all plain_char (side_text l)" "list_all plain_char (side_text r)"
      using L(1) R(1) [OF False] by (simp_all add: list_all_iff)
    then show ?thesis using plain_dollar by (simp add: atom_args_def)
  qed (use L(1) in \<open>simp add: atom_args_def list_all_iff\<close>)
  show "\<not> str_has ''_SUBEXPR_'' (atom_args op l r)"
    using L(2) R(2) str_has_separator [of "CHR '',''" "''_SUBEXPR_''" "side_text l" "side_text r"] by (simp add: atom_args_def)
  show "atom_args op l r \<noteq> []" "hd (atom_args op l r) \<in> {CHR ''$'', CHR ''_''} \<or> digit_value (hd (atom_args op l r)) \<noteq> None"
    using L(3,4) by (simp_all add: atom_args_def)
qed

lemma atom_head_chars:
  assumes "op \<noteq> EVAL_OPERATOR_UNDEFINED"
  shows "list_all plain_char (atom_head n i op)" "\<not> str_has ''_SUBEXPR_'' (atom_head n i op)" "atom_head n i op \<noteq> []"
    "c_isalnum (last (atom_head n i op))" "hd (atom_head n i op) \<in> set ''!iCRISE''"
  using assms by (cases op; cases n; cases i; simp add: atom_head_def plain_char_def is_space_def c_isalnum_def)+

subsection \<open>What the texts of trees look like\<close>

text \<open>\<^verbatim>\<open>depth d s\<close>: the level of parentheses after \<^verbatim>\<open>s\<close>, from level \<^verbatim>\<open>d\<close>.\<close>

fun depth :: "nat \<Rightarrow> string \<Rightarrow> nat option" where
  "depth d [] = Some d"
| "depth d (c # s) =
     (if c = CHR ''('' then depth (Suc d) s
      else if c = CHR '')'' then (case d of 0 \<Rightarrow> None | Suc e \<Rightarrow> depth e s)
      else depth d s)"

lemma depth_append: "depth d (s @ t) = Option.bind (depth d s) (\<lambda>e. depth e t)"
proof (induction s arbitrary: d)
  case (Cons c s)
  then show ?case by (cases d) simp_all
qed simp

lemma depth_shift: "depth d s = Some e \<Longrightarrow> depth (d + k) s = Some (e + k)"
proof (induction s arbitrary: d)
  case (Cons c s)
  show ?case
  proof (cases d)
    case 0
    then show ?thesis using Cons.IH [of 0] Cons.IH [of 1] Cons.prems by (simp split: if_split_asm)
  next
    case (Suc f)
    then show ?thesis using Cons.IH [of d] Cons.IH [of f] Cons.IH [of "Suc d"] Cons.prems by (simp split: if_split_asm)
  qed
qed simp

lemma depth_plain: "list_all plain_char s \<Longrightarrow> depth d s = Some d"
proof (induction s)
  case (Cons c s)
  then have "c \<noteq> CHR ''(''" "c \<noteq> CHR '')''" by (simp_all add: plain_char_def)
  then show ?case using Cons by simp
qed simp

definition text_char :: "char \<Rightarrow> bool" where
  "text_char c \<longleftrightarrow> plain_char c \<or> c \<in> set ''() ''"

definition good_text :: "string \<Rightarrow> bool" where
  "good_text t \<longleftrightarrow> t \<noteq> [] \<and> hd t \<in> set ''!iCRISE('' \<and> last t = CHR '')'' \<and> \<not> str_has ''  '' t \<and> \<not> str_has ''_SUBEXPR_'' t \<and>
     list_all text_char t \<and> depth 0 t = Some 0"

lemma plain_text_char: "list_all plain_char t \<Longrightarrow> list_all text_char t"
  by (simp add: list_all_iff text_char_def)

lemma plain_no_space: "list_all plain_char t \<Longrightarrow> \<forall>c\<in>set t. c \<noteq> CHR '' ''"
proof -
  have "\<not> plain_char CHR '' ''" by (simp add: plain_char_def is_space_def)
  then show "list_all plain_char t \<Longrightarrow> \<forall>c\<in>set t. c \<noteq> CHR '' ''" unfolding list_all_iff by metis
qed

lemma good_text_parens:
  assumes "list_all plain_char h" "\<not> str_has ''_SUBEXPR_'' h" "h = [] \<or> hd h \<in> set ''!iCRISE''"
    "list_all text_char b" "\<not> str_has ''  '' b" "\<not> str_has ''_SUBEXPR_'' b" "depth 0 b = Some 0"
  shows "good_text (h @ ''('' @ b @ '')'')"
proof -
  have "str_has p (h @ CHR ''('' # b @ CHR '')'' # []) \<longleftrightarrow> str_has p h \<or> str_has p b \<or> str_has p []"
    if "CHR ''('' \<notin> set p" "CHR '')'' \<notin> set p" for p
    using str_has_separator [OF that(1), of h "b @ CHR '')'' # []"] str_has_separator [OF that(2), of b "[]"] by simp
  from this [of "''  ''"] this [of "''_SUBEXPR_''"]
  have "\<not> str_has ''  '' (h @ ''('' @ b @ '')'')" "\<not> str_has ''_SUBEXPR_'' (h @ ''('' @ b @ '')'')"
    using assms plain_no_space [OF assms(1)] by simp_all
  moreover have "depth 0 (h @ ''('' @ b @ '')'') = Some 0"
    using depth_plain [OF assms(1), of 0] depth_shift [OF assms(7), of 1] by (simp add: depth_append)
  moreover have "hd (h @ ''('' @ b @ '')'') \<in> set ''!iCRISE(''" using assms(3) by (cases h) auto
  ultimately show ?thesis
    unfolding good_text_def using plain_text_char [OF assms(1)] assms(4) by (simp add: text_char_def)
qed

lemma connective_joint:
  assumes "good_text t" "good_text u"
  shows "good_text (t @ connective c @ u)"
proof -
  obtain t' where t: "t = t' @ [CHR '')'']" using assms(1) by (metis append_butlast_last_id good_text_def)
  obtain d u' where u: "u = d # u'" "d \<in> set ''!iCRISE(''" using assms(2) by (cases u) (auto simp: good_text_def)
  have no: "str_has p (t @ connective c @ u) \<longleftrightarrow> str_has p t' \<or> str_has p (connective c @ u)" "str_has p t \<longleftrightarrow> str_has p t' \<or> str_has p []"
    if "CHR '')'' \<notin> set p" for p
    using str_has_separator [OF that, of t' "connective c @ u"] str_has_separator [OF that, of t' "[]"] by (simp_all add: t)
  have "str_has ''_SUBEXPR_'' (connective c @ u) = str_has ''_SUBEXPR_'' u" by (simp add: connective_def)
  then have s: "\<not> str_has ''_SUBEXPR_'' (t @ connective c @ u)"
    using no [of "''_SUBEXPR_''"] assms by (simp add: good_text_def)
  have "d \<noteq> CHR '' ''" using u(2) by auto
  then have "str_has ''  '' (connective c @ u) = str_has ''  '' u" by (simp add: connective_def u)
  then have "\<not> str_has ''  '' (t @ connective c @ u)"
    using no [of "''  ''"] assms by (simp add: good_text_def)
  moreover have "list_all text_char (connective c)" by (simp add: connective_def text_char_def plain_char_def is_space_def)
  moreover have "depth 0 (connective c @ u) = depth 0 u" by (simp add: connective_def)
  ultimately show ?thesis
    using s assms by (auto simp: good_text_def depth_append)
qed

lemma good_text_joined: "ts \<noteq> [] \<Longrightarrow> \<forall>t\<in>set ts. good_text t \<Longrightarrow> good_text (joined (connective c) ts)"
  by (induction "connective c" ts rule: joined.induct) (auto intro: connective_joint)

lemma good_text_jtext: "jwf k x \<Longrightarrow> good_text (jtext x)"
proof (induction x rule: jtext.induct)
  case (1 n i op l r)
  then have op: "op \<noteq> EVAL_OPERATOR_UNDEFINED" by simp
  note h = atom_head_chars [OF op, of n i] and a = atom_args_chars [OF 1]
  show ?case
    using good_text_parens [OF h(1,2) _ plain_text_char [OF a(1)] _ a(2) depth_plain [OF a(1)]] h(5) plain_no_space [OF a(1)] by simp
next
  case (2 n c xs)
  then have "good_text (joined (connective c) (map jtext xs))" by (intro good_text_joined) auto
  then show ?case
    using good_text_parens [of "if n then ''!'' else []" "joined (connective c) (map jtext xs)"]
    by (simp add: good_text_def plain_char_def is_space_def)
qed

lemma good_text_tree: "jwf k (JGroup n c xs) \<Longrightarrow> good_text (joined (connective c) (map jtext xs))"
  using good_text_jtext by (intro good_text_joined) auto

text \<open>Nothing of such a text is changed before sub-expressions are looked for.\<close>

lemma text_char_plain: "text_char c \<Longrightarrow> c \<noteq> CHR 0x22 \<and> c \<noteq> CHR 0x0A"
proof -
  have "\<not> text_char CHR 0x22" "\<not> text_char CHR 0x0A" by (simp_all add: text_char_def plain_char_def is_space_def)
  then show "text_char c \<Longrightarrow> c \<noteq> CHR 0x22 \<and> c \<noteq> CHR 0x0A" by metis
qed

lemma compile_before_same:
  assumes "el_trim L t = t" "CHR 0x22 \<notin> set t" "CHR 0x0A \<notin> set t" "\<not> str_has ''  '' t" "\<not> str_has ''_SUBEXPR_'' t"
  shows "compile_before L texts t = Some (texts, Inr t)"
proof -
  have "dropWhile (\<lambda>c. c \<noteq> CHR 0x22) t = []" using assms(2) by auto
  then have "first_quoted t = None" by (simp only: first_quoted_def list.case)
  then have "static_loop L texts t = Some (texts, t)" by (simp add: static_loop.simps)
  moreover have "space_loop L t = Some t" using assms(4) by (simp add: space_loop.simps)
  ultimately show ?thesis using assms by (simp add: compile_before_def)
qed

lemma compile_before_good:
  assumes "expr_lib_ok L" "good_text t"
  shows "compile_before L texts t = Some (texts, Inr t)"
proof -
  have "\<not> list_ex is_space ''!iCRISE()''" by (simp add: is_space_def)
  moreover have "hd t \<in> set ''!iCRISE()''" "last t \<in> set ''!iCRISE()''" using assms(2) by (auto simp: good_text_def)
  ultimately have "\<not> is_space (hd t)" "\<not> is_space (last t)" unfolding list_ex_iff by blast+
  then have "el_trim L t = t" using assms by (simp add: expr_lib_ok_def good_text_def)
  moreover have "CHR 0x22 \<notin> set t" "CHR 0x0A \<notin> set t"
    using assms(2) text_char_plain unfolding good_text_def list_all_iff by metis+
  ultimately show ?thesis using assms(2) by (intro compile_before_same) (simp_all add: good_text_def)
qed

subsection \<open>Finding the groups\<close>

definition no_parens :: "string \<Rightarrow> bool" where
  "no_parens t \<longleftrightarrow> list_all (\<lambda>c. c \<noteq> CHR ''('' \<and> c \<noteq> CHR '')'') t"

lemma no_parens_plain: "list_all plain_char t \<Longrightarrow> no_parens t"
proof -
  have "\<not> plain_char CHR ''(''" "\<not> plain_char CHR '')''" by (simp_all add: plain_char_def)
  then show "list_all plain_char t \<Longrightarrow> no_parens t" unfolding list_all_iff no_parens_def by metis
qed

lemma no_parens_append [simp]: "no_parens (s @ t) \<longleftrightarrow> no_parens s \<and> no_parens t"
  by (auto simp: no_parens_def)

lemma no_parens_Nil [simp]: "no_parens []"
  by (simp add: no_parens_def)

lemma scan_skip: "no_parens t \<Longrightarrow> detect_scan e i level b f (t @ u) = detect_scan e (i + length t) level b f u"
  by (induction t arbitrary: i) (simp_all add: no_parens_def)

lemma scan_inside:
  "depth k t = Some k' \<Longrightarrow> detect_scan e i (Suc k) True f (t @ u) = detect_scan e (i + length t) (Suc k') True f u"
proof (induction t arbitrary: i k)
  case (Cons c t)
  consider "c = CHR ''(''" | "c = CHR '')''" | "c \<noteq> CHR ''('' \<and> c \<noteq> CHR '')''" by blast
  then show ?case
  proof cases
    case 1
    then show ?thesis using Cons.IH [of "Suc k" "Suc i"] Cons.prems by simp
  next
    case 2
    then obtain d where "k = Suc d" "depth d t = Some k'" using Cons.prems by (simp split: nat.splits)
    then show ?thesis using 2 Cons.IH [of d "Suc i"] by simp
  next
    case 3
    then show ?thesis using Cons.IH [of k "Suc i"] Cons.prems by simp
  qed
qed simp

lemma nth_last_append: "w \<noteq> [] \<Longrightarrow> (w @ z) ! (length w - 1) = last w"
  by (simp add: nth_append last_conv_nth)

lemma detect_block:
  assumes "no_parens p" "depth 0 b = Some 0"
  shows "detectSubExpr (a @ p @ ''('' @ b @ '')'' @ u) (length a) =
    (if a @ p \<noteq> [] \<and> c_isalnum (last (a @ p)) then Function_Until (length (a @ p @ ''('' @ b @ '')''))
     else Group (a @ p \<noteq> [] \<and> last (a @ p) = CHR ''!'') b)"
proof -
  let ?e = "a @ p @ ''('' @ b @ '')'' @ u" and ?n = "length (a @ p)"
  have last: "?e ! (?n - 1) = last (a @ p)" if "a @ p \<noteq> []"
    using nth_last_append [OF that, of "''('' @ b @ '')'' @ u"] by simp
  have sub: "take (length b) (drop (?n + 1) ?e) = b" by simp
  have "detectSubExpr ?e (length a) = detect_scan ?e ?n 0 False 0 (''('' @ b @ '')'' @ u)"
    using scan_skip [OF assms(1), of ?e "length a" 0 False 0 "''('' @ b @ '')'' @ u"] by (simp add: detectSubExpr_def)
  also have "\<dots> = detect_scan ?e (?n + 1 + length b) 1 True ?n ('')'' @ u)"
    using scan_inside [OF assms(2), of ?e "?n + 1" ?n "'')'' @ u"] by simp
  also have "\<dots> = (if 0 < ?n \<and> c_isalnum (?e ! (?n - 1)) then Function_Until (?n + 1 + length b + 1)
      else Group (0 < ?n \<and> ?e ! (?n - 1) = CHR ''!'') (take (length b) (drop (?n + 1) ?e)))" by simp
  finally have "detectSubExpr ?e (length a) = \<dots>" .
  then show ?thesis unfolding sub using last by (cases "a @ p = []") simp_all
qed

text \<open>The part of a text before the next group: calls, names of sub-expressions and operators.\<close>

definition arg_start :: "char \<Rightarrow> bool" where
  "arg_start c \<longleftrightarrow> c \<in> {CHR ''$'', CHR ''_''} \<or> digit_value c \<noteq> None"

inductive skippable :: "string \<Rightarrow> bool" where
  skippable_Nil: "skippable []"
| skippable_plain: "skippable w \<Longrightarrow> no_parens t \<Longrightarrow> skippable (w @ t)"
| skippable_call: "skippable w \<Longrightarrow> no_parens h \<Longrightarrow> h \<noteq> [] \<Longrightarrow> c_isalnum (last h) \<Longrightarrow> no_parens a \<Longrightarrow> a \<noteq> [] \<Longrightarrow>
    arg_start (hd a) \<Longrightarrow> skippable (w @ h @ ''('' @ a @ '')'')"

lemma depth_no_parens: "no_parens s \<Longrightarrow> depth d s = Some d"
  by (induction s) (simp_all add: no_parens_def)

lemma detect_loop_skips:
  "skippable w \<Longrightarrow> \<exists>p. detect_loop L junk texts (w @ r) 0 subs = detect_loop L junk texts (w @ r) p subs \<and>
     p \<le> length w \<and> no_parens (drop p w)"
proof (induction w arbitrary: r rule: skippable.induct)
  case (skippable_plain w t)
  obtain p where p: "detect_loop L junk texts (w @ t @ r) 0 subs = detect_loop L junk texts (w @ t @ r) p subs"
    "p \<le> length w" "no_parens (drop p w)" using skippable_plain.IH [of "t @ r"] by blast
  then show ?case using skippable_plain.hyps(2) by (intro exI [of _ p]) simp
next
  case (skippable_call w h a)
  let ?e = "w @ h @ ''('' @ a @ '')'' @ r"
  obtain p where p: "detect_loop L junk texts ?e 0 subs = detect_loop L junk texts ?e p subs"
    "p \<le> length w" "no_parens (drop p w)" using skippable_call.IH [of "h @ ''('' @ a @ '')'' @ r"] by auto
  let ?q = "length (w @ h @ ''('' @ a @ '')'')"
  have e: "?e = take p w @ (drop p w @ h) @ ''('' @ a @ '')'' @ r" by (metis append.assoc append_take_drop_id)
  have q: "length (take p w @ (drop p w @ h) @ ''('' @ a @ '')'') = ?q" using p(2) by simp
  have "last (take p w @ drop p w @ h) = last h" using skippable_call.hyps(3) by simp
  then have "detectSubExpr ?e (length (take p w)) = Function_Until ?q"
    unfolding q [symmetric] using e detect_block [of "drop p w @ h" a "take p w" r] p(3) skippable_call.hyps depth_no_parens by (simp only: no_parens_append) auto
  then have "detectSubExpr ?e p = Function_Until ?q" using p(2) by simp
  then have "detect_loop L junk texts ?e p subs = detect_loop L junk texts ?e ?q subs"
    by (subst detect_loop.simps) simp
  then show ?case using p(1) by (intro exI [of _ ?q]) simp
qed simp

lemma detect_loop_ends:
  assumes "skippable w"
  shows "detect_loop L junk texts w 0 subs = Some (texts, subs, w, True)"
proof -
  obtain p where p: "detect_loop L junk texts w 0 subs = detect_loop L junk texts w p subs" "no_parens (drop p w)"
    using detect_loop_skips [OF assms, of L junk texts "[]" subs] by auto
  have "detectSubExpr w p = No_More" using scan_skip [OF p(2), of w p 0 False 0 "[]"] by (simp add: detectSubExpr_def)
  then show ?thesis using p(1) by (simp add: detect_loop.simps)
qed

text \<open>The text of a group occurs for the first time where it was found.\<close>

fun paren_ok :: "string \<Rightarrow> bool" where
  "paren_ok [] = True"
| "paren_ok (c # s) = ((c = CHR ''('' \<longrightarrow> s \<noteq> [] \<and> arg_start (hd s)) \<and> paren_ok s)"

lemma paren_ok_append: "paren_ok s \<Longrightarrow> paren_ok t \<Longrightarrow> paren_ok (s @ t)"
  by (induction s) auto

lemma paren_ok_no_parens: "no_parens t \<Longrightarrow> paren_ok t"
  by (induction t) (simp_all add: no_parens_def)

lemma paren_ok_skippable: "skippable w \<Longrightarrow> paren_ok w"
proof (induction w rule: skippable.induct)
  case (skippable_call w h a)
  have "paren_ok ('')'')" by simp
  then have "paren_ok (''('' @ a @ '')'')"
    using skippable_call.hyps paren_ok_append [of a "'')''"] paren_ok_no_parens [of a] by simp
  then show ?case using skippable_call paren_ok_no_parens paren_ok_append by metis
qed (simp_all add: paren_ok_append paren_ok_no_parens)

lemma replace_group:
  assumes "paren_ok w" "\<not> arg_start c"
  shows "str_replace_first (CHR ''('' # c # q) r (w @ (CHR ''('' # c # q) @ u) = w @ r @ u"
    "str_replace_first (''!('' @ c # q) r (w @ (''!('' @ c # q) @ u) = w @ r @ u"
proof -
  show "str_replace_first (CHR ''('' # c # q) r (w @ (CHR ''('' # c # q) @ u) = w @ r @ u"
    using assms(1)
  proof (induction w)
    case (Cons d w)
    then show ?case using assms(2) by (cases w) auto
  qed simp
  show "str_replace_first (''!('' @ c # q) r (w @ (''!('' @ c # q) @ u) = w @ r @ u"
    using assms(1)
  proof (induction w)
    case (Cons d w)
    show ?case
    proof (cases w)
      case Nil
      then show ?thesis using Cons by simp
    next
      case (Cons d' w')
      then show ?thesis using assms(2) Cons.IH Cons.prems by (cases w') auto
    qed
  qed simp
qed

subsection \<open>Objects that stand for a tree\<close>

definition side_mode_of :: "jside \<Rightarrow> eExpressionSideMode" where
  "side_mode_of s = (case s of JPath _ \<Rightarrow> EXPR_MODE_JSONPATH | JNumber _ \<Rightarrow> EXPR_MODE_NUMERIC
     | JStatic _ \<Rightarrow> EXPR_MODE_STATIC_STRING | JNothing \<Rightarrow> EXPR_MODE_NULL)"

text \<open>The pattern that a side is as a regular expression.\<close>

fun side_pattern :: "string list \<Rightarrow> jside \<Rightarrow> string option" where
  "side_pattern texts (JNumber ds) = Some (up_to_nul ds)"
| "side_pattern texts (JStatic k) = Some (up_to_nul (texts ! k))"
| "side_pattern texts _ = None"

definition side_rep :: "expr_lib \<Rightarrow> string list \<Rightarrow> bool \<Rightarrow> bool \<Rightarrow> jside \<Rightarrow> expression_side \<Rightarrow> bool" where
  "side_rep L texts regex i s d \<longleftrightarrow> side_expr d = side_text s \<and> side_mode d = side_mode_of s \<and>
     (side_regexp d = None \<or> regex \<and>
       (case side_pattern texts s of None \<Rightarrow> False | Some p \<Rightarrow> side_regexp d = Some (p, i) \<and> el_regex_ok L p i))"

definition atom_rep :: "expr_lib \<Rightarrow> string list \<Rightarrow> bool \<Rightarrow> bool \<Rightarrow> eEvalOperator \<Rightarrow> jside \<Rightarrow> jside \<Rightarrow> atomic_expression \<Rightarrow> bool" where
  "atom_rep L texts n i op l r a \<longleftrightarrow> evalOperator a = op \<and> at_negative a = n \<and> at_ignoreCase a = i \<and>
     side_rep L texts (op = EVAL_OPERATOR_REGEXMATCH) i l (at_left a) \<and> side_rep L texts (op = EVAL_OPERATOR_REGEXMATCH) i r (at_right a)"

definition mode_of :: "bool \<Rightarrow> jexpr list \<Rightarrow> eEvalMode" where
  "mode_of c xs = (if c \<and> 1 < length xs then EVAL_MODE_AND else EVAL_MODE_OR)"

fun items_rep :: "expr_lib \<Rightarrow> string list \<Rightarrow> jexpr list \<Rightarrow> json_eval list \<Rightarrow> nat \<Rightarrow> (atomic_expression + nat) list \<Rightarrow> bool" where
  "items_rep L texts [] subs j as \<longleftrightarrow> as = []"
| "items_rep L texts (JAtom n i op l r # xs) subs j as \<longleftrightarrow>
     (case as of Inl a # bs \<Rightarrow> atom_rep L texts n i op l r a \<and> items_rep L texts xs subs j bs | _ \<Rightarrow> False)"
| "items_rep L texts (JGroup n c ys # xs) subs j as \<longleftrightarrow>
     (case as of
        Inr k # bs \<Rightarrow> k = j \<and> j < length subs \<and> je_negative (subs ! j) = n \<and> je_mode (subs ! j) = mode_of c ys \<and>
          items_rep L texts ys (je_subs (subs ! j)) 0 (je_atoms (subs ! j)) \<and> items_rep L texts xs subs (Suc j) bs
      | _ \<Rightarrow> False)"

definition group_rep :: "expr_lib \<Rightarrow> string list \<Rightarrow> bool \<Rightarrow> bool \<Rightarrow> jexpr list \<Rightarrow> json_eval \<Rightarrow> bool" where
  "group_rep L texts n c xs x \<longleftrightarrow> je_negative x = n \<and> je_mode x = mode_of c xs \<and> items_rep L texts xs (je_subs x) 0 (je_atoms x)"

text \<open>The text that is left when the groups have been replaced.\<close>

fun toks :: "nat \<Rightarrow> jexpr list \<Rightarrow> string list" where
  "toks j [] = []"
| "toks j (JAtom n i op l r # xs) = jtext (JAtom n i op l r) # toks j xs"
| "toks j (JGroup n c ys # xs) = subexpr_name j # toks (Suc j) xs"

fun groups :: "jexpr list \<Rightarrow> nat" where
  "groups [] = 0"
| "groups (JAtom n i op l r # xs) = groups xs"
| "groups (JGroup n c ys # xs) = Suc (groups xs)"

lemma toks_append: "toks j (xs @ ys) = toks j xs @ toks (j + groups xs) ys"
  by (induction j xs rule: toks.induct) simp_all

lemma groups_append [simp]: "groups (xs @ ys) = groups xs + groups ys"
  by (induction xs rule: groups.induct) simp_all

lemma groups_length: "groups xs \<le> length xs"
  by (induction xs rule: groups.induct) simp_all

lemma toks_Nil [simp]: "toks j xs = [] \<longleftrightarrow> xs = []"
  by (cases "(j, xs)" rule: toks.cases) simp_all

lemma length_toks [simp]: "length (toks j xs) = length xs"
  by (induction j xs rule: toks.induct) simp_all

definition flat :: "string \<Rightarrow> string list \<Rightarrow> string" where
  "flat sep ts = concat (map (\<lambda>t. t @ sep) ts)"

definition rest_text :: "string \<Rightarrow> string list \<Rightarrow> string" where
  "rest_text sep ts = concat (map (\<lambda>t. sep @ t) ts)"

lemma joined_rest: "joined sep (t # ts) = t @ rest_text sep ts"
  by (induction ts arbitrary: t) (simp_all add: rest_text_def)

lemma joined_split: "joined sep (ts @ u # us) = flat sep ts @ u @ rest_text sep us"
proof (induction ts)
  case (Cons t ts)
  then show ?case by (cases ts) (simp_all add: flat_def)
qed (simp add: flat_def joined_rest)

lemma skippable_append_atom:
  assumes "skippable w" "jwf k (JAtom n i op l r)"
  shows "skippable (w @ jtext (JAtom n i op l r))"
proof -
  have op: "op \<noteq> EVAL_OPERATOR_UNDEFINED" using assms(2) by simp
  note h = atom_head_chars [OF op, of n i] and a = atom_args_chars [OF assms(2)]
  show ?thesis
    using skippable_call [OF assms(1) no_parens_plain [OF h(1)] h(3,4) no_parens_plain [OF a(1)] a(3)] a(4)
    by (simp add: arg_start_def)
qed

lemma no_parens_names: "no_parens (subexpr_name j)" "no_parens (connective c)"
proof -
  have "list_all plain_char (to_string j)"
    using to_string_digits [of j] digit_plain_char by (simp add: list_all_iff)
  then show "no_parens (subexpr_name j)" using no_parens_plain by (simp add: subexpr_name_def) (simp add: no_parens_def)
  show "no_parens (connective c)" by (simp add: connective_def no_parens_def)
qed

lemma skippable_flat: "skippable w \<Longrightarrow> \<forall>x\<in>set xs. jwf k x \<Longrightarrow> skippable (w @ flat (connective c) (toks j xs))"
proof (induction j xs arbitrary: w rule: toks.induct)
  case (2 j n i op l r xs)
  have "skippable (w @ jtext (JAtom n i op l r))" using 2 by (intro skippable_append_atom) auto
  then have "skippable ((w @ jtext (JAtom n i op l r)) @ connective c)" by (rule skippable_plain) (rule no_parens_names)
  from 2(1) [OF this] 2(3) show ?case by (simp add: flat_def)
next
  case (3 j n d ys xs)
  have "skippable (w @ subexpr_name j)" using 3(2) by (rule skippable_plain) (rule no_parens_names)
  then have "skippable ((w @ subexpr_name j) @ connective c)" by (rule skippable_plain) (rule no_parens_names)
  from 3(1) [OF this] 3(3) show ?case by (simp add: flat_def)
qed (simp add: flat_def)

lemma skippable_joined: 
  assumes "\<forall>x\<in>set xs. jwf k x"
  shows "skippable (joined (connective c) (toks j xs))"
proof (cases xs rule: rev_cases)
  case (snoc ys y)
  have f: "skippable (flat (connective c) (toks j ys))" using skippable_flat [OF skippable_Nil, of ys k c j] assms snoc by simp
  have "skippable (flat (connective c) (toks j ys) @ hd (toks (j + groups ys) [y]))"
  proof (cases y)
    case (JAtom n i op l r)
    then show ?thesis using skippable_append_atom [OF f] assms snoc by auto
  next
    case (JGroup n d zs)
    then show ?thesis using skippable_plain [OF f no_parens_names(1)] by simp
  qed
  moreover have "toks (j + groups ys) [y] = [hd (toks (j + groups ys) [y])]" by (cases y) simp_all
  ultimately show ?thesis unfolding snoc toks_append by (metis append_Nil2 concat.simps(1) joined_split list.map(1) rest_text_def)
qed (simp add: skippable_Nil)

lemma last_connective: "last (connective c) = CHR '' ''"
  by (simp add: connective_def)

lemma last_flat: "ts \<noteq> [] \<Longrightarrow> last (flat (connective c) ts) = CHR '' ''"
  by (induction ts) (auto simp: flat_def last_connective connective_def)

subsection \<open>Compiling a tree's text\<close>

lemma detect_loop_group:
  assumes "detectSubExpr e pos = Group negative b"
  shows "detect_loop L junk texts e pos subs = Option.bind (JSONEval_of L junk texts negative b) (\<lambda>(texts2, child).
    detect_loop L junk texts2 (el_replace_first L e ((if negative then ''!('' else ''('') @ b @ '')'') (subexpr_name (length subs)))
      0 (subs @ [child]))"
proof -
  have inner: "Option.bind (compile_before L texts b) (\<lambda>(texts1, before).
       case before of
         Inl msg \<Rightarrow> Some (texts1, with_compiled (with_error (fresh_eval junk negative b) msg, False))
       | Inr e1 \<Rightarrow> Option.bind (detect_loop L junk texts1 e1 0 []) (\<lambda>(texts2, subs2, e2, balanced).
           Some (texts2, with_compiled (compile_after L texts2 (with_subs (fresh_eval junk negative b) subs2) e2 balanced)))) =
     JSONEval_of L junk texts negative b"
    unfolding JSONEval_of_def JSONEval_compile_def
    by (cases "compile_before L texts b")
      (auto simp: fresh_eval_def map_option_bind split: sum.splits intro!: bind_option_cong)
  show ?thesis by (subst detect_loop.simps) (simp only: assms sub_scan.case inner)
qed

lemma good_text_start: "good_text t \<Longrightarrow> depth 0 t = Some 0 \<and> t \<noteq> [] \<and> \<not> arg_start (hd t)"
proof -
  have "\<forall>c\<in>set ''!iCRISE(''. \<not> arg_start c" by (simp add: arg_start_def digit_value_def)
  then show "good_text t \<Longrightarrow> depth 0 t = Some 0 \<and> t \<noteq> [] \<and> \<not> arg_start (hd t)" unfolding good_text_def by blast
qed

lemma detect_loop_at_group:
  assumes L: "expr_lib_ok L" and w: "skippable w" "w = [] \<or> last w = CHR '' ''"
    and d0: "depth 0 b = Some 0" and b: "b \<noteq> []" "\<not> arg_start (hd b)"
  shows "detect_loop L junk texts (w @ ((if n then ''!('' else ''('') @ b @ '')'') @ u) 0 subs =
    Option.bind (JSONEval_of L junk texts n b) (\<lambda>(texts2, child).
      detect_loop L junk texts2 (w @ subexpr_name (length subs) @ u) 0 (subs @ [child]))"
proof -
  let ?g = "(if n then ''!('' else ''('') @ b @ '')''" and ?not = "if n then ''!'' else []"
  let ?e = "w @ ?g @ u"
  obtain p where p: "detect_loop L junk texts ?e 0 subs = detect_loop L junk texts ?e p subs" "p \<le> length w" "no_parens (drop p w)"
    using detect_loop_skips [OF w(1), of L junk texts "?g @ u" subs] by blast
  have e: "?e = take p w @ (drop p w @ ?not) @ ''('' @ b @ '')'' @ u" by (cases n) (simp_all flip: append.assoc)
  have np: "no_parens (drop p w @ ?not)" using p(3) by (simp add: no_parens_def)
  have all: "take p w @ drop p w @ ?not = w @ ?not" by (simp flip: append.assoc)
  have ends: "\<not> c_isalnum CHR '' ''" "\<not> c_isalnum CHR ''!''" by (simp_all add: c_isalnum_def)
  have "detectSubExpr ?e (length (take p w)) =
      (if take p w @ drop p w @ ?not \<noteq> [] \<and> c_isalnum (last (take p w @ drop p w @ ?not))
       then Function_Until (length (take p w @ (drop p w @ ?not) @ ''('' @ b @ '')''))
       else Group (take p w @ drop p w @ ?not \<noteq> [] \<and> last (take p w @ drop p w @ ?not) = CHR ''!'') b)"
    unfolding e by (rule detect_block [OF np d0])
  also have "\<dots> = Group n b" unfolding all using ends w(2) by (cases n) auto
  finally have "detectSubExpr ?e p = Group n b" using p(2) by simp
  from detect_loop_group [OF this, of L junk texts subs]
  have "detect_loop L junk texts ?e 0 subs = Option.bind (JSONEval_of L junk texts n b) (\<lambda>(texts2, child).
      detect_loop L junk texts2 (el_replace_first L ?e ?g (subexpr_name (length subs))) 0 (subs @ [child]))"
    unfolding p(1) .
  moreover have "el_replace_first L ?e ?g (subexpr_name (length subs)) = w @ subexpr_name (length subs) @ u"
  proof -
    obtain c q where c: "b = c # q" "\<not> arg_start c" using b by (cases b) auto
    have "el_replace_first L ?e ?g r = str_replace_first ?g r ?e" for r using L by (simp add: expr_lib_ok_def)
    then show ?thesis
      using replace_group [OF paren_ok_skippable [OF w(1)] c(2), of "q @ '')''" "subexpr_name (length subs)" u] c(1) by (cases n) simp_all
  qed
  ultimately show ?thesis by simp
qed

definition compiles_to :: "expr_lib \<Rightarrow> (string \<Rightarrow> eEvalMode) \<Rightarrow> string list \<Rightarrow> bool \<Rightarrow> bool \<Rightarrow> jexpr list \<Rightarrow> json_eval \<Rightarrow> bool" where
  "compiles_to L junk texts n c ys child \<longleftrightarrow>
     JSONEval_of L junk texts n (joined (connective c) (map jtext ys)) = Some (texts, child) \<and> group_rep L texts n c ys child"

fun groups_rep :: "expr_lib \<Rightarrow> string list \<Rightarrow> jexpr list \<Rightarrow> json_eval list \<Rightarrow> bool" where
  "groups_rep L texts [] subs \<longleftrightarrow> subs = []"
| "groups_rep L texts (JAtom n i op l r # xs) subs \<longleftrightarrow> groups_rep L texts xs subs"
| "groups_rep L texts (JGroup n c ys # xs) subs \<longleftrightarrow>
     (case subs of [] \<Rightarrow> False | s # ss \<Rightarrow> group_rep L texts n c ys s \<and> groups_rep L texts xs ss)"

lemma detect_loop_items:
  assumes "expr_lib_ok L"
  shows "\<forall>x\<in>set (done_items @ todo). jwf k x \<Longrightarrow>
    \<forall>n d ys. JGroup n d ys \<in> set todo \<longrightarrow> (\<exists>child. compiles_to L junk texts n d ys child) \<Longrightarrow> length subs = groups done_items \<Longrightarrow>
    \<exists>subs'. detect_loop L junk texts (joined (connective c) (toks 0 done_items @ map jtext todo)) 0 subs =
      Some (texts, subs @ subs', joined (connective c) (toks 0 (done_items @ todo)), True) \<and> groups_rep L texts todo subs'"
proof (induction todo arbitrary: done_items subs)
  case Nil
  then show ?case using detect_loop_ends [OF skippable_joined, of done_items k] by simp
next
  case (Cons x todo)
  have next_text: "toks 0 (done_items @ [x]) = toks 0 done_items @ toks (groups done_items) [x]" by (simp add: toks_append)
  show ?case
  proof (cases x)
    case (JAtom n i op l r)
    have eq: "toks 0 done_items @ map jtext (x # todo) = toks 0 (done_items @ [x]) @ map jtext todo"
      unfolding next_text using JAtom by simp
    have "\<exists>subs'. detect_loop L junk texts (joined (connective c) (toks 0 (done_items @ [x]) @ map jtext todo)) 0 subs =
      Some (texts, subs @ subs', joined (connective c) (toks 0 ((done_items @ [x]) @ todo)), True) \<and> groups_rep L texts todo subs'"
      using Cons.prems JAtom by (intro Cons.IH) auto
    then show ?thesis unfolding eq using JAtom by simp
  next
    case (JGroup n d ys)
    let ?w = "flat (connective c) (toks 0 done_items)" and ?b = "joined (connective d) (map jtext ys)"
    let ?u = "rest_text (connective c) (map jtext todo)"
    obtain child where child: "JSONEval_of L junk texts n ?b = Some (texts, child)" "group_rep L texts n d ys child"
      using Cons.prems(2) unfolding JGroup compiles_to_def by (meson list.set_intros(1))
    have wf: "jwf k (JGroup n d ys)" "\<forall>x\<in>set done_items. jwf k x" using Cons.prems(1) JGroup by auto
    have w: "skippable ?w" "?w = [] \<or> last ?w = CHR '' ''"
      using skippable_flat [OF skippable_Nil wf(2), of c 0] last_flat [of "toks 0 done_items" c] by (cases "toks 0 done_items = []"; simp add: flat_def)+
    have start: "depth 0 ?b = Some 0" "?b \<noteq> []" "\<not> arg_start (hd ?b)" using good_text_start [OF good_text_tree [OF wf(1)]] by simp_all
    have whole: "joined (connective c) (toks 0 done_items @ map jtext (x # todo)) =
        ?w @ ((if n then ''!('' else ''('') @ ?b @ '')'') @ ?u"
      by (simp add: JGroup joined_split)
    have after: "?w @ subexpr_name (length subs) @ ?u = joined (connective c) (toks 0 (done_items @ [x]) @ map jtext todo)"
      unfolding next_text using Cons.prems(3) by (simp add: JGroup joined_split)
    have "\<exists>subs'. detect_loop L junk texts (joined (connective c) (toks 0 (done_items @ [x]) @ map jtext todo)) 0 (subs @ [child]) =
      Some (texts, (subs @ [child]) @ subs', joined (connective c) (toks 0 ((done_items @ [x]) @ todo)), True) \<and> groups_rep L texts todo subs'"
      using Cons.prems JGroup by (intro Cons.IH) auto
    then obtain subs' where "detect_loop L junk texts (?w @ subexpr_name (length subs) @ ?u) 0 (subs @ [child]) =
        Some (texts, (subs @ [child]) @ subs', joined (connective c) (toks 0 ((done_items @ [x]) @ todo)), True)" "groups_rep L texts todo subs'"
      unfolding after by blast
    then show ?thesis
      unfolding whole detect_loop_at_group [OF assms w start] child(1)
      using child(2) by (intro exI [of _ "child # subs'"]) (simp add: JGroup)
  qed
qed

subsection \<open>Compiling an atom\<close>

lemma lib_laws:
  assumes "expr_lib_ok L"
  shows "el_trim L [] = []" "s \<noteq> [] \<Longrightarrow> \<not> is_space (hd s) \<Longrightarrow> \<not> is_space (last s) \<Longrightarrow> el_trim L s = s"
    "el_starts_with L s p = str_prefix p s" "el_split L [c] s = pieces c s"
    "p \<noteq> [] \<Longrightarrow> el_replace_all L s p r = str_replace_all p r s"
  using assms by (simp_all add: expr_lib_ok_def)

lemma plain_no_spaces: "list_all plain_char s \<Longrightarrow> \<not> list_ex is_space s"
  by (auto simp: list_all_iff list_ex_iff plain_char_def)

lemma trim_plain: "expr_lib_ok L \<Longrightarrow> list_all plain_char s \<Longrightarrow> el_trim L s = s"
proof (cases "s = []")
  case False
  assume "expr_lib_ok L" "list_all plain_char s"
  then show ?thesis using False lib_laws(2) [of L s] by (simp add: list_all_iff plain_char_def)
qed (simp add: lib_laws(1))

lemma static_index:
  assumes "k \<le> u64_max"
  shows "strtoull (up_to_nul (drop 8 (static_name k))) = k" "strtoull (up_to_nul (drop 9 (subexpr_name k))) = k"
proof -
  have "\<forall>c\<in>set (to_string k). c \<noteq> CHR 0x00" using to_string_digits [of k] by (auto simp: list_all_iff digit_value_def)
  then have "up_to_nul (to_string k) = to_string k" by (simp add: up_to_nul_def)
  then show "strtoull (up_to_nul (drop 8 (static_name k))) = k" "strtoull (up_to_nul (drop 9 (subexpr_name k))) = k"
    using assms by (simp_all add: static_name_def subexpr_name_def)
qed

lemma calcMode_side:
  assumes "expr_lib_ok L" "side_wf (length texts) s \<or> s = JNothing"
  shows "\<exists>d. side_calcMode L texts (side_setExpr L Side_new (side_text s)) = (d, True) \<and> side_rep L texts regex i s d"
proof (cases "s = JNothing")
  case True
  then show ?thesis by (simp add: side_calcMode_def side_setExpr_def lib_laws(1) [OF assms(1)] side_rep_def Side_new_def side_mode_of_def)
next
  case False
  then have wf: "side_wf (length texts) s" using assms(2) by blast
  have "list_all plain_char (side_text s)" using side_text_chars(1) [OF wf] by (simp add: list_all_iff)
  then have e: "side_setExpr L Side_new (side_text s) = Side_new\<lparr>side_expr := side_text s\<rparr>"
    by (simp add: side_setExpr_def trim_plain [OF assms(1)])
  show ?thesis
  proof (cases s)
    case (JPath p)
    then show ?thesis unfolding e by (simp add: side_calcMode_def side_rep_def Side_new_def side_mode_of_def)
  next
    case (JNumber ds)
    then have "ds \<noteq> []" "list_all (\<lambda>c. digit_value c \<noteq> None) ds" using wf by simp_all
    moreover from this have "hd ds \<noteq> CHR ''$''" by (cases ds) (auto simp: digit_value_def)
    ultimately show ?thesis unfolding e by (simp add: JNumber side_calcMode_def side_rep_def Side_new_def side_mode_of_def)
  next
    case (JStatic k)
    have k: "k < length texts" "k \<le> u64_max" using wf JStatic by simp_all
    have "static_name k \<noteq> [] \<and> hd (static_name k) \<noteq> CHR ''$'' \<and> \<not> list_all (\<lambda>c. digit_value c \<noteq> None) (static_name k)"
      by (simp add: static_name_def digit_value_def)
    moreover have "str_prefix ''_STATIC_'' (static_name k)" unfolding static_name_def by (rule str_prefix_append)
    ultimately show ?thesis
      unfolding e using k by (simp add: JStatic side_calcMode_def side_rep_def Side_new_def side_mode_of_def lib_laws(3) [OF assms(1)] static_index(1))
  qed (use False in simp)
qed

lemma binary_groups_hit:
  assumes "side_wf n l" "side_wf n r"
  shows "binary_groups nm (nm @ ''('' @ side_text l @ '','' @ side_text r @ '')'') = Some [side_text l, side_text r]"
proof -
  have l: "\<forall>c\<in>set (side_text l). c \<noteq> CHR '',''" and r: "\<forall>c\<in>set (side_text r). c \<noteq> CHR '')''"
    using side_text_chars(1) [OF assms(1)] no_parens_plain [of "side_text r"] side_text_chars(1) [OF assms(2)]
    by (auto simp: list_all_iff no_parens_def)
  have t: "takeWhile (\<lambda>c. c \<noteq> CHR '','') (side_text l @ '','' @ side_text r) = side_text l"
    using l by (simp add: takeWhile_append2)
  have p: "str_prefix (nm @ ''('') (nm @ ''('' @ side_text l @ '','' @ side_text r @ '')'')"
    using str_prefix_append [of "nm @ ''(''" "side_text l @ '','' @ side_text r @ '')''"] by simp
  have b: "butlast (drop (length nm + 1) (nm @ ''('' @ side_text l @ '','' @ side_text r @ '')'')) = side_text l @ '','' @ side_text r"
    by (simp add: butlast_append)
  have "CHR '')'' \<notin> set (side_text r)" using r by blast
  then show ?thesis
    unfolding binary_groups_def Let_def b t using p side_text_chars(3) [OF assms(1)] side_text_chars(3) [OF assms(2)] by simp
qed

lemma unary_groups_hit:
  assumes "side_wf n l"
  shows "unary_groups nm (nm @ ''('' @ side_text l @ '')'') = Some [side_text l]"
proof -
  have r: "\<forall>c\<in>set (side_text l). c \<noteq> CHR '')''"
    using side_text_chars(1) [OF assms(1)] no_parens_plain [of "side_text l"] by (auto simp: list_all_iff no_parens_def)
  have p: "str_prefix (nm @ ''('') (nm @ ''('' @ side_text l @ '')'')"
    using str_prefix_append [of "nm @ ''(''" "side_text l @ '')''"] by simp
  have b: "butlast (drop (length nm + 1) (nm @ ''('' @ side_text l @ '')'')) = side_text l"
    by (simp add: butlast_append)
  have "CHR '')'' \<notin> set (side_text l)" using r by blast
  then show ?thesis unfolding unary_groups_def Let_def b using p side_text_chars(3) [OF assms(1)] by simp
qed

lemma atom_compile_tree:
  assumes L: "expr_lib_ok L" and wf: "jwf (length texts) (JAtom n i op l r)"
  shows "\<exists>a. atom_compile L texts Atom_new (jtext (JAtom n i op l r)) = (a, True) \<and> atom_rep L texts n i op l r a"
proof -
  let ?t = "op_name op @ ''('' @ atom_args op l r @ '')''"
  have op: "op \<noteq> EVAL_OPERATOR_UNDEFINED" and l: "side_wf (length texts) l" and r: "side_wf (length texts) r \<or> r = JNothing"
    using wf by (auto split: if_splits)
  have head: "atom_compile L texts Atom_new (jtext (JAtom n i op l r)) =
      first_pattern L texts (Atom_new\<lparr>at_negative := n, at_ignoreCase := i, at_expr := ?t\<rparr>) atom_patterns"
    using op by (cases op; cases n; cases i; simp add: atom_compile_def atom_head_def lib_laws(3) [OF L] Atom_new_def)
  have "\<not> list_ex is_space (op_name op)" "\<not> list_ex is_space (atom_args op l r)"
    using plain_no_spaces [OF atom_args_chars(1) [OF wf]] op by (cases op; simp add: is_space_def)+
  then have "\<not> list_ex is_space ?t" by (simp add: is_space_def)
  then have search: "el_search L (binary_pattern nm) ?t = binary_groups nm ?t" "el_search L (unary_pattern nm) ?t = unary_groups nm ?t"
    if "list_all (\<lambda>c. c_isalnum c \<or> c = CHR ''_'') nm" for nm
    using L that by (simp_all add: expr_lib_ok_def)
  have names: "list_all (\<lambda>c. c_isalnum c \<or> c = CHR ''_'') ''IS_EQUAL''" "list_all (\<lambda>c. c_isalnum c \<or> c = CHR ''_'') ''REGEX_MATCH''"
    "list_all (\<lambda>c. c_isalnum c \<or> c = CHR ''_'') ''CONTAINS''" "list_all (\<lambda>c. c_isalnum c \<or> c = CHR ''_'') ''STARTS_WITH''"
    "list_all (\<lambda>c. c_isalnum c \<or> c = CHR ''_'') ''ENDS_WITH''" "list_all (\<lambda>c. c_isalnum c \<or> c = CHR ''_'') ''IS_NULL''"
    by (simp_all add: c_isalnum_def)
  note found = search(1) [OF names(1)] search(1) [OF names(2)] search(1) [OF names(3)] search(1) [OF names(4)]
    search(1) [OF names(5)] search(2) [OF names(6)]
  obtain dl where dl: "side_calcMode L texts (side_setExpr L Side_new (side_text l)) = (dl, True)"
    "side_rep L texts (op = EVAL_OPERATOR_REGEXMATCH) i l dl" using calcMode_side [OF L disjI1 [OF l]] by blast
  obtain dr where dr: "side_calcMode L texts (side_setExpr L Side_new (side_text r)) = (dr, True)"
    "side_rep L texts (op = EVAL_OPERATOR_REGEXMATCH) i r dr" using calcMode_side [OF L r] by blast
  let ?a = "Atom_new\<lparr>at_negative := n, at_ignoreCase := i, at_expr := ?t\<rparr>"
  let ?done = "?a\<lparr>at_left := dl, at_right := dr, evalOperator := op\<rparr>"
  have "first_pattern L texts ?a atom_patterns = (?done, True)"
  proof (cases "op = EVAL_OPERATOR_ISNULL")
    case True
    then have "r = JNothing" using wf by simp
    then show ?thesis
      using True found unary_groups_hit [OF l, of "''IS_NULL''"] dl(1) dr(1)
      by (simp add: atom_patterns_def substractExpressions_def atom_args_def binary_groups_def Atom_new_def)
  next
    case False
    then have "side_wf (length texts) r" using wf by simp
    then show ?thesis
      using False op found binary_groups_hit [OF l, of r "op_name op"] dl(1) dr(1)
      by (cases op) (simp_all add: atom_patterns_def substractExpressions_def atom_args_def binary_groups_def Atom_new_def)
  qed
  then show ?thesis using head dl(2) dr(2) by (simp add: atom_rep_def Atom_new_def)
qed

subsection \<open>Compiling a tree\<close>

lemma groups_rep_length: "groups_rep L texts xs subs \<Longrightarrow> length subs = groups xs"
  by (induction L texts xs subs rule: groups_rep.induct) (auto split: list.splits)

lemma jtext_no_name:
  assumes "jwf k x"
  shows "\<not> str_prefix ''_SUBEXPR_'' (jtext x)"
  using good_text_jtext [OF assms] by (cases "jtext x") (auto simp: good_text_def)

lemma atoms_loop_toks:
  assumes "expr_lib_ok L"
  shows "\<forall>x\<in>set xs. jwf (length texts) x \<Longrightarrow> groups_rep L texts xs (drop j subs) \<Longrightarrow> j \<le> length subs \<Longrightarrow> length subs \<le> u64_max \<Longrightarrow>
    \<exists>as. atoms_loop L texts (length subs) at0 (toks j xs) = (at0 @ as, None, False) \<and> items_rep L texts xs subs j as"
proof (induction j xs arbitrary: at0 rule: toks.induct)
  case (2 j n i op l r xs)
  let ?x = "JAtom n i op l r"
  obtain a where a: "atom_compile L texts Atom_new (jtext ?x) = (a, True)" "atom_rep L texts n i op l r a"
    using atom_compile_tree [OF assms, of texts n i op l r] 2(2) by auto
  obtain as where "atoms_loop L texts (length subs) (at0 @ [Inl a]) (toks j xs) = ((at0 @ [Inl a]) @ as, None, False)" "items_rep L texts xs subs j as"
    using 2(1) [of "at0 @ [Inl a]"] 2(2-) by auto
  then show ?case
    using a jtext_no_name [of "length texts" ?x] 2(2) by (intro exI [of _ "Inl a # as"]) (simp add: lib_laws(3) [OF assms] del: jtext.simps)
next
  case (3 j n c ys xs)
  obtain s ss where ss: "drop j subs = s # ss" "group_rep L texts n c ys s" "groups_rep L texts xs ss"
    using 3(3) by (auto split: list.splits)
  have j: "j < length subs" "subs ! j = s" "drop (Suc j) subs = ss"
    using ss(1) by (metis drop_all linorder_not_less list.distinct(1), metis nth_via_drop, metis drop_Suc drop_tl list.sel(3))
  obtain as where as: "atoms_loop L texts (length subs) (at0 @ [Inr j]) (toks (Suc j) xs) = ((at0 @ [Inr j]) @ as, None, False)"
    "items_rep L texts xs subs (Suc j) as"
    using 3(1) [of "at0 @ [Inr j]"] 3(2,5) ss(3) j by auto
  have "str_prefix ''_SUBEXPR_'' (subexpr_name j)" unfolding subexpr_name_def by (rule str_prefix_append)
  moreover have "strtoull (up_to_nul (drop 9 (subexpr_name j))) = j" using static_index(2) j(1) 3(5) by simp
  ultimately show ?case
    using as j ss(2) by (intro exI [of _ "Inr j # as"]) (simp add: lib_laws(3) [OF assms] group_rep_def)
qed simp

definition token_ok :: "string \<Rightarrow> bool" where
  "token_ok t \<longleftrightarrow> t \<noteq> [] \<and> hd t \<noteq> CHR ''&'' \<and> hd t \<noteq> CHR ''|'' \<and> (\<forall>c\<in>set t. c \<noteq> CHR '' '') \<and> (\<forall>c\<in>set t. c \<noteq> CHR 0x0A)"

lemma joined_start: "ts \<noteq> [] \<Longrightarrow> \<forall>t\<in>set ts. token_ok t \<Longrightarrow> \<exists>c s. joined sep ts = c # s \<and> c \<noteq> CHR ''&'' \<and> c \<noteq> CHR ''|''"
  by (cases ts; cases "hd ts") (auto simp: joined_rest token_ok_def)

lemma joined_has:
  "\<forall>t\<in>set ts. token_ok t \<Longrightarrow> (str_has '' && '' (joined (connective c) ts) \<longleftrightarrow> c \<and> 1 < length ts) \<and>
    (str_has '' || '' (joined (connective c) ts) \<longleftrightarrow> \<not> c \<and> 1 < length ts)"
proof (induction "connective c" ts rule: joined.induct)
  case (3 t u ts)
  obtain d s where d: "joined (connective c) (u # ts) = d # s" "d \<noteq> CHR ''&''" "d \<noteq> CHR ''|''"
    using joined_start [of "u # ts" "connective c"] 3(2) by auto
  have t: "\<forall>c\<in>set t. c \<noteq> CHR '' ''" using 3(2) by (simp add: token_ok_def)
  have IH: "(str_has '' && '' (d # s) \<longleftrightarrow> c \<and> ts \<noteq> []) \<and> (str_has '' || '' (d # s) \<longleftrightarrow> \<not> c \<and> ts \<noteq> [])"
    using 3 d(1) by simp
  have "joined (connective c) (t # u # ts) = t @ connective c @ d # s" using d(1) by simp
  then show ?case using IH d(2,3) t by (cases c) (simp_all add: connective_def del: joined.simps)
qed (simp_all add: token_ok_def)

lemma replace_joined: "\<forall>t\<in>set ts. token_ok t \<Longrightarrow> str_replace_all (connective c) r (joined (connective c) ts) = joined r ts"
proof (induction "connective c" ts rule: joined.induct)
  case (2 t)
  then show ?case by (simp add: token_ok_def connective_def)
next
  case (3 t u ts)
  have t: "\<forall>c\<in>set t. c \<noteq> CHR '' ''" using 3(2) by (simp add: token_ok_def)
  obtain q where q: "connective c = CHR '' '' # q" by (cases c) (simp_all add: connective_def)
  have "str_replace_all (connective c) r (connective c @ joined (connective c) (u # ts)) = r @ joined r (u # ts)"
    using 3 str_replace_all_here [of "CHR '' ''" q r] by (simp add: q)
  then show ?case using t str_replace_all_skip [of t "CHR '' ''" q r "connective c @ joined (connective c) (u # ts)"] by (simp add: q)
qed simp

lemma start_char: "c \<in> set ''!iCRISE('' \<Longrightarrow> c \<noteq> CHR ''&'' \<and> c \<noteq> CHR ''|''"
  by auto

lemma token_ok_toks: "\<forall>x\<in>set xs. jwf k x \<Longrightarrow> \<forall>t\<in>set (toks j xs). token_ok t"
proof (induction j xs rule: toks.induct)
  case (2 j n i op l r xs)
  let ?x = "JAtom n i op l r"
  have wf: "jwf k ?x" and op: "op \<noteq> EVAL_OPERATOR_UNDEFINED" using 2(2) by auto
  have "list_all plain_char (atom_head n i op) \<and> list_all plain_char (atom_args op l r)"
    using atom_head_chars(1) [OF op] atom_args_chars(1) [OF wf] by blast
  then have "\<forall>c\<in>set (jtext ?x). c \<noteq> CHR '' ''" using plain_no_space by auto
  moreover have "\<forall>c\<in>set (jtext ?x). c \<noteq> CHR 0x0A" "jtext ?x \<noteq> []" "hd (jtext ?x) \<in> set ''!iCRISE(''"
    using good_text_jtext [OF wf] text_char_plain unfolding good_text_def list_all_iff by blast+
  ultimately have "token_ok (jtext ?x)" unfolding token_ok_def using start_char by blast
  then show ?case using 2 by simp
next
  case (3 j n c ys xs)
  have "list_all (\<lambda>c. digit_value c \<noteq> None) (to_string j)" using to_string_digits by simp
  then have "\<forall>c\<in>set (to_string j). c \<noteq> CHR '' '' \<and> c \<noteq> CHR 0x0A" by (auto simp: list_all_iff digit_value_def)
  then have "token_ok (subexpr_name j)" by (simp add: token_ok_def subexpr_name_def)
  then show ?case using 3 by simp
qed simp

lemma joined_no_space: "\<forall>t\<in>set ts. token_ok t \<Longrightarrow> CHR '' '' \<notin> set (joined [CHR 0x0A] ts)"
  by (induction "[CHR 0x0A]" ts rule: joined.induct) (auto simp: token_ok_def)

lemma compile_after_toks:
  assumes L: "expr_lib_ok L" and xs: "xs \<noteq> []" "\<forall>x\<in>set xs. jwf (length texts) x"
    and subs: "groups_rep L texts xs (je_subs x)" "length (je_subs x) \<le> u64_max" and none: "je_atoms x = []"
  shows "\<exists>y. compile_after L texts x (joined (connective c) (toks 0 xs)) True = (y, True) \<and> je_negative y = je_negative x \<and>
    je_mode y = mode_of c xs \<and> je_subs y = je_subs x \<and> items_rep L texts xs (je_subs x) 0 (je_atoms y)"
proof -
  let ?e = "joined (connective c) (toks 0 xs)" and ?lf = "joined [CHR 0x0A] (toks 0 xs)"
  note ok = token_ok_toks [OF xs(2), of 0]
  have has: "str_has '' && '' ?e \<longleftrightarrow> c \<and> 1 < length xs" "str_has '' || '' ?e \<longleftrightarrow> \<not> c \<and> 1 < length xs"
    using joined_has [OF ok, of c] by simp_all
  have rep: "el_replace_all L ?e (connective c) [CHR 0x0A] = ?lf"
    using lib_laws(5) [OF L, of "connective c"] replace_joined [OF ok] by (simp add: connective_def)
  have single: "el_replace_all L ?e '' || '' [CHR 0x0A] = ?lf" if "\<not> 1 < length xs"
  proof -
    have "length (toks 0 xs) = Suc 0" using that xs(1) by (cases xs) auto
    then obtain t where t: "toks 0 xs = [t]" by (auto simp: length_Suc_conv simp del: length_toks)
    then have "token_ok t" using ok by simp
    then show ?thesis using lib_laws(5) [OF L, of "'' || ''" t "[CHR 0x0A]"] t by (simp add: token_ok_def)
  qed
  have split: "(if str_has '' && '' ?e then (EVAL_MODE_AND, el_replace_all L ?e '' && '' [CHR 0x0A])
      else (EVAL_MODE_OR, el_replace_all L ?e '' || '' [CHR 0x0A])) = (mode_of c xs, ?lf)"
    using has rep single by (cases c; cases "1 < length xs") (simp_all add: mode_of_def connective_def)
  have parts: "el_split L [CHR 0x0A] ?lf = toks 0 xs"
    using pieces_joined [of "toks 0 xs" "CHR 0x0A"] ok xs(1) by (auto simp: lib_laws(4) [OF L] token_ok_def)
  obtain as where as: "atoms_loop L texts (length (je_subs x)) [] (toks 0 xs) = (as, None, False)" "items_rep L texts xs (je_subs x) 0 as"
    using atoms_loop_toks [OF L xs(2), of 0 "je_subs x" "[]"] subs by auto
  have "compile_after L texts x ?e True = (JSON_Eval (je_negative x) (mode_of c xs) (je_subs x) as (getIsCompiled x) [], True)"
    unfolding compile_after_def Let_def split using has joined_no_space [OF ok] parts as(1) none by auto
  then show ?thesis using as(2) by simp
qed

theorem tree_compiles:
  assumes L: "expr_lib_ok L"
  shows "jwf (length texts) x \<Longrightarrow> x = JGroup n c ys \<Longrightarrow> \<exists>child. compiles_to L junk texts n c ys child \<and> getIsCompiled child"
proof (induction x arbitrary: n c ys rule: jtext.induct)
  case (2 n' c' xs)
  have x: "n' = n" "c' = c" "xs = ys" using 2(3) by simp_all
  have wf: "ys \<noteq> []" "length ys \<le> u64_max" "\<forall>y\<in>set ys. jwf (length texts) y" using 2(2) x by simp_all
  let ?t = "joined (connective c) (map jtext ys)"
  have "\<forall>m d zs. JGroup m d zs \<in> set ys \<longrightarrow> (\<exists>child. compiles_to L junk texts m d zs child)"
    using 2(1) wf(3) x by blast
  then obtain subs where subs: "detect_loop L junk texts ?t 0 [] = Some (texts, subs, joined (connective c) (toks 0 ys), True)"
    "groups_rep L texts ys subs"
    using detect_loop_items [OF L, of "[]" ys "length texts" junk texts "[]" c] wf(3) by auto
  let ?f = "with_subs (fresh_eval junk n ?t) subs"
  have n: "length subs \<le> u64_max" using groups_rep_length [OF subs(2)] groups_length [of ys] wf(2) by simp
  obtain y where y: "compile_after L texts ?f (joined (connective c) (toks 0 ys)) True = (y, True)" "je_negative y = n"
    "je_mode y = mode_of c ys" "je_subs y = subs" "items_rep L texts ys subs 0 (je_atoms y)"
    using compile_after_toks [OF L wf(1,3), of ?f c] subs(2) n by (auto simp: with_subs_def fresh_eval_def)
  have "compile_before L texts ?t = Some (texts, Inr ?t)"
    using compile_before_good [OF L good_text_tree] 2(2) x by blast
  then have "JSONEval_of L junk texts n ?t = Some (texts, with_compiled (y, True))"
    using subs(1) y(1) by (simp add: JSONEval_of_def JSONEval_compile_def fresh_eval_def)
  then show ?case using y(2-) by (simp add: compiles_to_def group_rep_def with_compiled_def)
qed simp

subsection \<open>The value of a tree\<close>

text \<open>A side as a regular expression gives no values; its pattern has to be accepted.\<close>

definition regex_values :: "expr_lib \<Rightarrow> bool \<Rightarrow> bool \<Rightarrow> string \<Rightarrow> failure + string list" where
  "regex_values L regex i t =
     (if \<not> regex then Inr [t] else if el_regex_ok L (up_to_nul t) i then Inr [] else Inl (Exception ''regex_error''))"

fun side_values :: "expr_lib \<Rightarrow> string list \<Rightarrow> json \<Rightarrow> bool \<Rightarrow> bool \<Rightarrow> jside \<Rightarrow> failure + string list" where
  "side_values L texts v regex i (JPath p) = path_texts (el_path L p v)"
| "side_values L texts v regex i (JNumber ds) = regex_values L regex i ds"
| "side_values L texts v regex i (JStatic k) = regex_values L regex i (texts ! k)"
| "side_values L texts v regex i JNothing = Inr []"

definition atom_meaning :: "expr_lib \<Rightarrow> string list \<Rightarrow> json \<Rightarrow> bool \<Rightarrow> bool \<Rightarrow> eEvalOperator \<Rightarrow> jside \<Rightarrow> jside \<Rightarrow> failure + bool" where
  "atom_meaning L texts v n i op l r =
     (let regex = (op = EVAL_OPERATOR_REGEXMATCH) in
      case side_values L texts v regex i l of
        Inl f \<Rightarrow> Inl f
      | Inr lvalues \<Rightarrow>
          (case side_values L texts v regex i r of
             Inl f \<Rightarrow> Inl f
           | Inr rvalues \<Rightarrow> Inr (calcNegative n
               (operator_holds L op i (map_option (\<lambda>p. (p, i)) (side_pattern texts r)) lvalues rvalues))))"

text \<open>The first value that decides, or the first failure before it.\<close>

fun jseq :: "bool \<Rightarrow> (failure + bool) list \<Rightarrow> failure + bool" where
  "jseq c [] = Inr c"
| "jseq c (Inl f # rs) = Inl f"
| "jseq c (Inr b # rs) = (if b = c then jseq c rs else Inr b)"

fun jmeaning :: "expr_lib \<Rightarrow> string list \<Rightarrow> json \<Rightarrow> jexpr \<Rightarrow> failure + bool" where
  "jmeaning L texts v (JAtom n i op l r) = atom_meaning L texts v n i op l r"
| "jmeaning L texts v (JGroup n c xs) = map_sum id (calcNegative n) (jseq c (map (jmeaning L texts v) xs))"

subsection \<open>Evaluating the objects\<close>

lemma side_resolve_rep:
  assumes "side_rep L texts regex i s d" "side_wf (length texts) s \<or> s = JNothing"
  shows "\<exists>d'. side_resolve L texts v regex i d = (d', side_values L texts v regex i s) \<and> side_rep L texts regex i s d' \<and>
    (regex \<and> isl (side_values L texts v regex i s) = False \<longrightarrow> side_regexp d' = map_option (\<lambda>p. (p, i)) (side_pattern texts s))"
proof (cases s)
  case (JStatic k)
  then have k: "static_text texts (side_text s) = Inr (texts ! k)"
    using assms(2) static_index(1) [of k] by (simp add: static_text_def)
  show ?thesis
    using assms(1) JStatic k
    by (auto simp: side_rep_def side_mode_of_def side_resolve_def regex_values_def recompileRegex_def)
next
  case (JNumber ds)
  then show ?thesis
    using assms(1) by (auto simp: side_rep_def side_mode_of_def side_resolve_def regex_values_def recompileRegex_def)
qed (use assms(1) in \<open>auto simp: side_rep_def side_mode_of_def side_resolve_def\<close>)

lemma atom_evaluate_rep:
  assumes rep: "atom_rep L texts n i op l r a" and wf: "jwf (length texts) (JAtom n i op l r)"
  shows "\<exists>a'. atom_evaluate L texts v a = (a', atom_meaning L texts v n i op l r) \<and> atom_rep L texts n i op l r a'"
proof -
  let ?re = "op = EVAL_OPERATOR_REGEXMATCH"
  have sides: "side_wf (length texts) l \<or> l = JNothing" "side_wf (length texts) r \<or> r = JNothing" using wf by (auto split: if_splits)
  have a: "evalOperator a = op" "at_negative a = n" "at_ignoreCase a = i" "side_rep L texts ?re i l (at_left a)" "side_rep L texts ?re i r (at_right a)"
    using rep by (simp_all add: atom_rep_def)
  obtain dl where dl: "side_resolve L texts v ?re i (at_left a) = (dl, side_values L texts v ?re i l)" "side_rep L texts ?re i l dl"
    using side_resolve_rep [OF a(4) sides(1)] by blast
  obtain dr where dr: "side_resolve L texts v ?re i (at_right a) = (dr, side_values L texts v ?re i r)" "side_rep L texts ?re i r dr"
    "?re \<and> isl (side_values L texts v ?re i r) = False \<longrightarrow> side_regexp dr = map_option (\<lambda>p. (p, i)) (side_pattern texts r)"
    using side_resolve_rep [OF a(5) sides(2)] by blast
  have op: "operator_holds L op i (side_regexp dr) ls rs = operator_holds L op i (map_option (\<lambda>p. (p, i)) (side_pattern texts r)) ls rs"
    if "side_values L texts v ?re i r = Inr rs" for ls rs
    using dr(3) that by (cases op) (simp_all add: operator_holds_def)
  show ?thesis
    using a dl dr(1,2) op
    by (auto simp: atom_evaluate_def atom_meaning_def atom_rep_def atom_calcNegative_def calcNegative_def Let_def split: sum.splits)
qed

lemma items_rep_append:
  "items_rep L texts (ds @ xs) subs j as \<longleftrightarrow>
    items_rep L texts ds subs j (take (length ds) as) \<and> items_rep L texts xs subs (j + groups ds) (drop (length ds) as)"
proof (induction ds arbitrary: j as)
  case (Cons d ds)
  show ?case
  proof (cases as)
    case Nil
    then show ?thesis by (cases d) simp_all
  next
    case (Cons b bs)
    then show ?thesis using Cons.IH by (cases d; cases b) auto
  qed
qed simp

lemma items_rep_length: "items_rep L texts xs subs j as \<Longrightarrow> length as = length xs"
proof (induction xs arbitrary: j as)
  case (Cons x xs)
  then show ?case by (cases x) (auto split: list.splits sum.splits)
qed simp

lemma items_rep_update:
  "k < j \<or> j + groups xs \<le> k \<Longrightarrow> items_rep L texts xs (subs[k := s]) j as = items_rep L texts xs subs j as"
proof (induction xs arbitrary: j as)
  case (Cons x xs)
  then show ?case by (cases x) (auto split: list.splits sum.splits)
qed simp

definition same_head :: "json_eval \<Rightarrow> json_eval \<Rightarrow> bool" where
  "same_head x y \<longleftrightarrow> je_negative x = je_negative y \<and> je_mode x = je_mode y"

lemma evaluate_items:
  assumes "\<forall>x\<in>set xs. jwf (length texts) x"
    "\<forall>n d ys. JGroup n d ys \<in> set xs \<longrightarrow> (\<forall>s. group_rep L texts n d ys s \<longrightarrow>
       (\<exists>s'. evaluate_loop L texts v s 0 = Some (s', jmeaning L texts v (JGroup n d ys)) \<and> group_rep L texts n d ys s'))"
    "items_rep L texts (ds @ xs) (je_subs x) 0 (je_atoms x)" "je_mode x = (if c then EVAL_MODE_AND else EVAL_MODE_OR)"
  shows "\<exists>x'. evaluate_loop L texts v x (length ds) =
      Some (x', map_sum id (calcNegative (je_negative x)) (jseq c (map (jmeaning L texts v) xs))) \<and>
    same_head x' x \<and> items_rep L texts (ds @ xs) (je_subs x') 0 (je_atoms x')"
  using assms
proof (induction xs arbitrary: ds x)
  case Nil
  have "length (je_atoms x) = length ds" using items_rep_length [OF Nil(3)] by simp
  then show ?case using Nil by (subst evaluate_loop.simps) (simp add: same_head_def)
next
  case (Cons e xs)
  let ?i = "length ds" and ?m = "jmeaning L texts v e"
  have rep: "items_rep L texts ds (je_subs x) 0 (take ?i (je_atoms x))" "items_rep L texts (e # xs) (je_subs x) (groups ds) (drop ?i (je_atoms x))"
    using Cons.prems(3) unfolding items_rep_append by simp_all
  have i: "?i < length (je_atoms x)" using items_rep_length [OF Cons.prems(3)] by simp
  then have item: "drop ?i (je_atoms x) = je_atoms x ! ?i # drop (Suc ?i) (je_atoms x)" by (simp add: Cons_nth_drop_Suc)
  have done_or_next: "\<exists>x'. evaluate_loop L texts v x ?i =
      Some (x', map_sum id (calcNegative (je_negative x)) (jseq c (map (jmeaning L texts v) (e # xs)))) \<and>
    same_head x' x \<and> items_rep L texts (ds @ e # xs) (je_subs x') 0 (je_atoms x')"
    if x1: "evaluate_loop L texts v x ?i = (case ?m of Inl f \<Rightarrow> Some (x1, Inl f)
        | Inr b \<Rightarrow> if b = (je_mode x = EVAL_MODE_OR) then Some (x1, Inr (calcNegative (je_negative x) b)) else evaluate_loop L texts v x1 (?i + 1))"
      "same_head x1 x" "items_rep L texts (ds @ e # xs) (je_subs x1) 0 (je_atoms x1)" for x1
  proof (cases "?m")
    case (Inl f)
    then show ?thesis using x1 by auto
  next
    case (Inr b)
    show ?thesis
    proof (cases "b = c")
      case True
      have "\<exists>x'. evaluate_loop L texts v x1 (length (ds @ [e])) =
          Some (x', map_sum id (calcNegative (je_negative x1)) (jseq c (map (jmeaning L texts v) xs))) \<and>
        same_head x' x1 \<and> items_rep L texts ((ds @ [e]) @ xs) (je_subs x') 0 (je_atoms x')"
        using Cons.prems x1(2,3) by (intro Cons.IH) (auto simp: same_head_def)
      then show ?thesis using x1 Inr True Cons.prems(4) by (auto simp: same_head_def split: if_splits)
    next
      case False
      then show ?thesis using x1 Inr Cons.prems(4) by (auto split: if_splits)
    qed
  qed
  have mode: "je_mode x \<noteq> EVAL_MODE_UNDEFINED" using Cons.prems(4) by (simp split: if_splits)
  show ?case
  proof (cases e)
    case (JAtom n j op l r)
    obtain a where a: "je_atoms x ! ?i = Inl a" "atom_rep L texts n j op l r a" "items_rep L texts xs (je_subs x) (groups ds) (drop (Suc ?i) (je_atoms x))"
      using rep(2) unfolding item JAtom by (auto split: sum.splits)
    obtain a1 where a1: "atom_evaluate L texts v a = (a1, ?m)" "atom_rep L texts n j op l r a1"
      using atom_evaluate_rep [OF a(2)] Cons.prems(1) JAtom by auto
    let ?x1 = "JSON_Eval (je_negative x) (je_mode x) (je_subs x) ((je_atoms x)[?i := Inl a1]) (getIsCompiled x) (getLastCompilerError x)"
    have "evaluate_loop L texts v x ?i = (case ?m of Inl f \<Rightarrow> Some (?x1, Inl f)
        | Inr b \<Rightarrow> if b = (je_mode x = EVAL_MODE_OR) then Some (?x1, Inr (calcNegative (je_negative x) b)) else evaluate_loop L texts v ?x1 (?i + 1))"
      using mode i a(1) a1(1) by (subst evaluate_loop.simps) simp
    moreover have "items_rep L texts (ds @ e # xs) (je_subs ?x1) 0 (je_atoms ?x1)"
      unfolding items_rep_append using rep(1) a(3) a1(2) i by (simp add: drop_update_swap JAtom drop_Cons' item)
    ultimately show ?thesis by (intro done_or_next [of ?x1]) (simp_all add: same_head_def)
  next
    case (JGroup n d ys)
    let ?k = "groups ds"
    have g: "je_atoms x ! ?i = Inr ?k" "?k < length (je_subs x)" "group_rep L texts n d ys (je_subs x ! ?k)"
      "items_rep L texts xs (je_subs x) (Suc ?k) (drop (Suc ?i) (je_atoms x))"
      using rep(2) unfolding item JGroup by (auto simp: group_rep_def split: sum.splits)
    obtain s where s: "evaluate_loop L texts v (je_subs x ! ?k) 0 = Some (s, ?m)" "group_rep L texts n d ys s"
      using Cons.prems(2) g(3) JGroup by (metis list.set_intros(1))
    let ?x1 = "with_subs x ((je_subs x)[?k := s])"
    have "evaluate_loop L texts v x ?i = (case ?m of Inl f \<Rightarrow> Some (?x1, Inl f)
        | Inr b \<Rightarrow> if b = (je_mode x = EVAL_MODE_OR) then Some (?x1, Inr (calcNegative (je_negative x) b)) else evaluate_loop L texts v ?x1 (?i + 1))"
      using mode i g(1,2) s(1) by (subst evaluate_loop.simps) simp
    moreover have "items_rep L texts (ds @ e # xs) (je_subs ?x1) 0 (je_atoms ?x1)"
      unfolding items_rep_append using rep(1) g s(2) items_rep_update [of ?k] by (simp add: with_subs_def JGroup item group_rep_def)
    ultimately show ?thesis by (intro done_or_next [of ?x1]) (simp_all add: same_head_def with_subs_def)
  qed
qed

lemma jseq_single: "jseq c [r] = r"
  by (cases r) simp_all

lemma evaluate_tree:
  "jwf (length texts) x \<Longrightarrow> x = JGroup n c ys \<Longrightarrow> group_rep L texts n c ys s \<Longrightarrow>
    \<exists>s'. evaluate_loop L texts v s 0 = Some (s', jmeaning L texts v x) \<and> group_rep L texts n c ys s'"
proof (induction x arbitrary: n c ys s rule: jtext.induct)
  case (2 n' c' xs)
  have x: "n' = n" "c' = c" "xs = ys" using 2(3) by simp_all
  have wf: "ys \<noteq> []" "\<forall>y\<in>set ys. jwf (length texts) y" using 2(2) x by simp_all
  have IH: "\<forall>m d zs. JGroup m d zs \<in> set ys \<longrightarrow> (\<forall>s. group_rep L texts m d zs s \<longrightarrow>
      (\<exists>s'. evaluate_loop L texts v s 0 = Some (s', jmeaning L texts v (JGroup m d zs)) \<and> group_rep L texts m d zs s'))"
    using 2(1) wf(2) x by blast
  have rep: "items_rep L texts ([] @ ys) (je_subs s) 0 (je_atoms s)" "je_negative s = n" using 2(4) by (simp_all add: group_rep_def)
  define b where "b \<longleftrightarrow> c \<and> 1 < length ys"
  have mode: "je_mode s = (if b then EVAL_MODE_AND else EVAL_MODE_OR)" using 2(4) by (simp add: group_rep_def mode_of_def b_def)
  obtain s' where s': "evaluate_loop L texts v s 0 = Some (s', map_sum id (calcNegative n) (jseq b (map (jmeaning L texts v) ys)))"
    "same_head s' s" "items_rep L texts ys (je_subs s') 0 (je_atoms s')"
    using evaluate_items [OF wf(2) IH rep(1) mode] rep(2) by auto
  have "jseq b (map (jmeaning L texts v) ys) = jseq c (map (jmeaning L texts v) ys)"
  proof (cases "1 < length ys")
    case False
    then obtain y where "ys = [y]" using wf(1) by (cases ys; cases "tl ys") auto
    then show ?thesis by (simp add: jseq_single)
  qed (simp add: b_def)
  then show ?case using s' x 2(4) by (auto simp: group_rep_def same_head_def)
qed simp

subsection \<open>Groups that do not compile\<close>

definition letter :: "char \<Rightarrow> bool" where
  "letter c \<longleftrightarrow> c_isalnum c \<and> digit_value c = None"

lemma letter_plain: "letter c \<Longrightarrow> plain_char c \<and> c \<noteq> CHR ''_'' \<and> c \<noteq> CHR ''$'' \<and> c \<noteq> CHR ''!'' \<and> c \<noteq> CHR ''&'' \<and> c \<noteq> CHR ''|''"
proof -
  have "\<not> letter CHR ''_''" "\<not> letter CHR ''$''" "\<not> letter CHR ''!''" "\<not> letter CHR ''&''" "\<not> letter CHR ''|''"
    "\<not> letter CHR ''(''" "\<not> letter CHR '')''" "\<not> letter CHR 0x22"
    by (simp_all add: letter_def c_isalnum_def)
  moreover have "letter c \<Longrightarrow> \<not> is_space c" by (auto simp: letter_def c_isalnum_def is_space_def Let_def)
  ultimately show "letter c \<Longrightarrow> plain_char c \<and> c \<noteq> CHR ''_'' \<and> c \<noteq> CHR ''$'' \<and> c \<noteq> CHR ''!'' \<and> c \<noteq> CHR ''&'' \<and> c \<noteq> CHR ''|''"
    by (auto simp: plain_char_def)
qed

lemma no_call_in_word:
  assumes "list_all letter s"
  shows "binary_groups nm s = None" "unary_groups nm s = None"
proof -
  have "CHR ''('' \<notin> set s" using assms by (auto simp: list_all_iff letter_def c_isalnum_def)
  then have "\<not> str_prefix (nm @ ''('') s" using str_prefix_set [of "nm @ ''(''" s] by auto
  then show "binary_groups nm s = None" "unary_groups nm s = None" by (simp_all add: binary_groups_def unary_groups_def)
qed

lemma word_is_no_atom:
  assumes L: "expr_lib_ok L" and b: "list_all letter b"
  shows "\<exists>a. atom_compile L texts Atom_new b = (a, False)"
proof -
  have none: "el_search L (binary_pattern nm) s = None" "el_search L (unary_pattern nm) s = None"
    if "list_all letter s" "list_all (\<lambda>c. c_isalnum c \<or> c = CHR ''_'') nm" for nm s
  proof -
    have "list_all plain_char s" using that(1) letter_plain by (simp add: list_all_iff)
    then show "el_search L (binary_pattern nm) s = None" "el_search L (unary_pattern nm) s = None"
      using L that plain_no_spaces no_call_in_word by (simp_all add: expr_lib_ok_def)
  qed
  have fp: "snd (first_pattern L texts a atom_patterns) = False" if "list_all letter (at_expr a)" for a
    using none [OF that] by (simp add: atom_patterns_def substractExpressions_def c_isalnum_def)
  have "\<not> str_prefix ''!'' b" using b letter_plain by (cases b) auto
  moreover have "list_all letter (drop 1 b)" using b by (cases b) simp_all
  ultimately have "snd (atom_compile L texts Atom_new b) = False"
    using fp b by (simp add: atom_compile_def lib_laws(3) [OF L])
  then show ?thesis by (metis prod.collapse)
qed

lemma word_does_not_compile:
  assumes L: "expr_lib_ok L" and b: "list_all letter b" "b \<noteq> []"
  shows "\<exists>m atoms e. JSONEval_of L junk texts n b = Some (texts, JSON_Eval n EVAL_MODE_UNDEFINED m atoms False e)"
proof -
  have plain: "list_all plain_char b" and us: "\<forall>c\<in>set b. c \<noteq> CHR ''_''" using b(1) letter_plain by (simp_all add: list_all_iff)
  have sp: "\<forall>c\<in>set b. c \<noteq> CHR '' ''" using plain_no_space [OF plain] .
  have quote: "CHR 0x22 \<notin> set b" "CHR 0x0A \<notin> set b"
    using plain_text_char [OF plain] text_char_plain unfolding list_all_iff by blast+
  have "compile_before L texts b = Some (texts, Inr b)"
    using trim_plain [OF L plain] sp us quote by (intro compile_before_same) simp_all
  moreover have "detect_loop L junk texts b 0 [] = Some (texts, [], b, True)"
    using skippable_plain [OF skippable_Nil no_parens_plain [OF plain]] by (intro detect_loop_ends) simp
  moreover have "\<exists>e. compile_after L texts (fresh_eval junk n b) b True = (JSON_Eval n EVAL_MODE_UNDEFINED [] [] False e, False)"
  proof -
    obtain a where a: "atom_compile L texts Atom_new b = (a, False)" using word_is_no_atom [OF L b(1)] by blast
    have "\<not> str_prefix ''_SUBEXPR_'' b" using us by (cases b) auto
    moreover have "CHR '' '' \<notin> set b" using sp by blast
    ultimately show ?thesis
      using sp a quote pieces_one [of "CHR 0x0A" b] lib_laws(5) [OF L, of "'' || ''" b]
      by (simp add: compile_after_def fresh_eval_def lib_laws(3,4) [OF L])
  qed
  ultimately show ?thesis by (auto simp: JSONEval_of_def JSONEval_compile_def with_subs_def fresh_eval_def with_compiled_def)
qed

fun evaluations :: "expr_lib \<Rightarrow> string list \<Rightarrow> json list \<Rightarrow> json_eval \<Rightarrow> (failure + bool) list option" where
  "evaluations L texts [] x = Some []"
| "evaluations L texts (v # vs) x =
     Option.bind (JSONEval_evaluate L texts v x) (\<lambda>(x1, r). map_option (\<lambda>rs. r # rs) (evaluations L texts vs x1))"

lemma evaluations_tree:
  "jwf (length texts) (JGroup n c ys) \<Longrightarrow> group_rep L texts n c ys s \<Longrightarrow>
    evaluations L texts vs s = Some (map (\<lambda>v. jmeaning L texts v (JGroup n c ys)) vs)"
proof (induction vs arbitrary: s)
  case (Cons v vs)
  obtain s' where "evaluate_loop L texts v s 0 = Some (s', jmeaning L texts v (JGroup n c ys))" "group_rep L texts n c ys s'"
    using evaluate_tree [OF Cons.prems(1) refl Cons.prems(2)] by blast
  then show ?case using Cons by (simp add: JSONEval_evaluate_def)
qed simp

lemma broken_group:
  assumes L: "expr_lib_ok L" and b: "list_all letter b" "b \<noteq> []"
  shows "\<exists>x. JSONEval_of L junk texts m ((if n then ''!('' else ''('') @ b @ '')'') = Some (texts, x) \<and> getIsCompiled x \<and>
    evaluations L texts vs x = Some (replicate (length vs) (Inr (calcNegative m False)))"
proof -
  let ?t = "(if n then ''!('' else ''('') @ b @ '')''"
  have plain: "list_all plain_char b" and us: "\<forall>c\<in>set b. c \<noteq> CHR ''_''" using b(1) letter_plain by (simp_all add: list_all_iff)
  have "good_text ((if n then ''!'' else []) @ ''('' @ b @ '')'')"
    using plain_text_char [OF plain] plain_no_space [OF plain] us depth_plain [OF plain]
    by (intro good_text_parens) (simp_all add: plain_char_def is_space_def)
  then have "good_text ?t" by (cases n) simp_all
  then have before: "compile_before L texts ?t = Some (texts, Inr ?t)" by (rule compile_before_good [OF L])
  obtain s as e where s: "JSONEval_of L junk texts n b = Some (texts, JSON_Eval n EVAL_MODE_UNDEFINED s as False e)"
    using word_does_not_compile [OF L b] by blast
  let ?s = "JSON_Eval n EVAL_MODE_UNDEFINED s as False e"
  have start: "\<not> arg_start (hd b)" using b letter_plain by (cases b) (auto simp: arg_start_def letter_def)
  have name: "subexpr_name 0 = ''_SUBEXPR_0''" by (simp add: subexpr_name_def to_string.simps [of 0] char_of_def bit_0)
  have "detect_loop L junk texts ?t 0 [] = detect_loop L junk texts (subexpr_name 0) 0 [?s]"
    using detect_loop_at_group [OF L skippable_Nil _ depth_plain [OF plain] b(2) start, of junk texts n "[]" "[]"] s by simp
  also have "\<dots> = Some (texts, [?s], subexpr_name 0, True)"
    using detect_loop_ends [OF skippable_plain [OF skippable_Nil no_parens_names(1)]] by simp
  finally have loop: "detect_loop L junk texts ?t 0 [] = Some (texts, [?s], ''_SUBEXPR_0'', True)" unfolding name .
  let ?x = "\<lambda>k. JSON_Eval m EVAL_MODE_OR [?s] [Inr 0] k []"
  have after: "compile_after L texts (with_subs (fresh_eval junk m ?t) [?s]) ''_SUBEXPR_0'' True = (?x False, True)"
    by (simp add: compile_after_def with_subs_def fresh_eval_def lib_laws(3-5) [OF L] strtoull_def up_to_nul_def digit_value_def is_space_def)
  have "JSONEval_of L junk texts m ?t = Some (texts, ?x True)"
    using before loop after by (simp add: JSONEval_of_def JSONEval_compile_def with_compiled_def fresh_eval_def)
  moreover have "JSONEval_evaluate L texts v (?x True) = Some (?x True, Inr (calcNegative m False))" for v
  proof -
    have "evaluate_loop L texts v ?s 0 = Some (?s, Inr False)" by (simp add: evaluate_loop.simps)
    moreover have "evaluate_loop L texts v (?x True) (Suc 0) = Some (?x True, Inr (calcNegative m False))"
      by (simp add: evaluate_loop.simps)
    ultimately show ?thesis
      unfolding JSONEval_evaluate_def by (subst evaluate_loop.simps) (simp add: with_subs_def)
  qed
  then have "evaluations L texts vs (?x True) = Some (replicate (length vs) (Inr (calcNegative m False)))" by (induction vs) simp_all
  ultimately show ?thesis by (intro exI [of _ "?x True"]) simp
qed

subsection \<open>A library that obeys the laws\<close>

definition demo_expr_lib :: expr_lib where
  "demo_expr_lib = \<lparr>
     el_trim = (\<lambda>s. rev (dropWhile is_space (rev (dropWhile is_space s)))),
     el_starts_with = (\<lambda>s p. str_prefix p s), el_istarts_with = (\<lambda>s p. str_prefix p s),
     el_ends_with = (\<lambda>s p. str_prefix (rev p) (rev s)), el_iends_with = (\<lambda>s p. str_prefix (rev p) (rev s)),
     el_contains = (\<lambda>s p. str_has p s), el_icontains = (\<lambda>s p. str_has p s), el_iequals = (=),
     el_replace_all = (\<lambda>s p r. str_replace_all p r s), el_replace_first = (\<lambda>s p r. str_replace_first p r s),
     el_split = (\<lambda>seps s. pieces (hd seps) s),
     el_search = (\<lambda>p s. let nm = takeWhile (\<lambda>c. c \<noteq> CHR 0x5C) (drop 1 p) in
       if p = binary_pattern nm then binary_groups nm s else unary_groups nm s),
     el_regex_ok = (\<lambda>_ _. True), el_regex_match = (\<lambda>p _ s. p = s),
     el_path = (\<lambda>p v. case json_get v (drop 1 p) of None \<Rightarrow> JsonNull | Some w \<Rightarrow> w)\<rparr>"

lemma demo_expr_lib_ok: "expr_lib_ok demo_expr_lib"
proof -
  have drop: "dropWhile is_space s = s" if "s \<noteq> []" "\<not> is_space (hd s)" for s using that by (cases s) simp_all
  have trim: "rev (dropWhile is_space (rev (dropWhile is_space s))) = s" if "s \<noteq> []" "\<not> is_space (hd s)" "\<not> is_space (last s)" for s
    using that drop [of s] drop [of "rev s"] by (simp add: hd_rev)
  have name: "takeWhile (\<lambda>c. c \<noteq> CHR 0x5C) (drop 1 (binary_pattern nm)) = nm" "takeWhile (\<lambda>c. c \<noteq> CHR 0x5C) (drop 1 (unary_pattern nm)) = nm"
    if "list_all (\<lambda>c. c_isalnum c \<or> c = CHR ''_'') nm" for nm
  proof -
    have "\<forall>c\<in>set nm. c \<noteq> CHR 0x5C" using that by (auto simp: list_all_iff c_isalnum_def)
    then show "takeWhile (\<lambda>c. c \<noteq> CHR 0x5C) (drop 1 (binary_pattern nm)) = nm" "takeWhile (\<lambda>c. c \<noteq> CHR 0x5C) (drop 1 (unary_pattern nm)) = nm"
      by (simp_all add: binary_pattern_def unary_pattern_def takeWhile_append2)
  qed
  have "unary_pattern nm \<noteq> binary_pattern nm" for nm by (simp add: binary_pattern_def unary_pattern_def)
  then show ?thesis using trim name by (simp add: expr_lib_ok_def demo_expr_lib_def)
qed

text \<open>Every occurrence of a quoted text is replaced, also where one text ends and the next begins: after a comma in quotes,
  two operands that are joined by a comma become one.\<close>

lemma comma_text_joins_operands:
  assumes "expr_lib_ok L" "q = [CHR 0x22]"
  shows "static_loop L [] (''IS_EQUAL($.x,'' @ q @ '','' @ q @ '') && CONTAINS('' @ q @ ''a'' @ q @ '','' @ q @ ''b'' @ q @ '')'') =
    Some ([[CHR '',''], ''a_STATIC_0b''], ''IS_EQUAL($.x,_STATIC_0) && CONTAINS(_STATIC_1)'')"
proof -
  have names: "static_name 0 = ''_STATIC_0''" "static_name (Suc 0) = ''_STATIC_1''"
    by (simp_all add: static_name_def to_string.simps [of 0] to_string.simps [of 1, simplified] char_of_def bit_0)
  show ?thesis
    unfolding assms(2)
    by (subst static_loop.simps, simp add: first_quoted_def lib_laws(5) [OF assms(1)] names)
      (subst static_loop.simps, simp add: first_quoted_def lib_laws(5) [OF assms(1)] names,
       subst static_loop.simps, simp add: first_quoted_def)
qed

subsection \<open>Properties\<close>

text \<open>C40: an expression means its tree: the text of a tree of atoms joined by one operator, with groups and negated groups
  to any depth, compiles; and the compiled object gives, for every value it is evaluated on, one after the other, the
  value of the tree, with the failures of the operands it comes to.\<close>

theorem expressions_mean_their_trees:
  assumes "expr_lib_ok L" "jwf (length texts) (JGroup n c xs)"
  shows "\<exists>x. JSONEval_of L junk texts n (joined (connective c) (map jtext xs)) = Some (texts, x) \<and> getIsCompiled x \<and>
    (\<forall>vs. evaluations L texts vs x = Some (map (\<lambda>v. jmeaning L texts v (JGroup n c xs)) vs))"
  using tree_compiles [OF assms refl, of junk] evaluations_tree [OF assms(2)] unfolding compiles_to_def by blast

lemma expressions_mean_their_trees_witness:
  "\<exists>x. JSONEval_of demo_expr_lib (\<lambda>_. EVAL_MODE_UNDEFINED) [''x''] False ''CONTAINS($.a,7) && !(IS_NULL($.b) || IS_NULL($.a))'' = Some ([''x''], x) \<and>
    evaluations demo_expr_lib [''x''] [JsonObject [(''a'', JsonInt 7), (''b'', JsonInt 1)], JsonNull] x = Some [Inr True, Inr False]"
proof -
  let ?xs = "[JAtom False False EVAL_OPERATOR_CONTAINS (JPath ''.a'') (JNumber ''7''),
    JGroup True False [JAtom False False EVAL_OPERATOR_ISNULL (JPath ''.b'') JNothing, JAtom False False EVAL_OPERATOR_ISNULL (JPath ''.a'') JNothing]]"
  have wf: "jwf (length [''x'']) (JGroup False True ?xs)"
    by (simp add: path_char_def is_space_def digit_value_def u64_max_def u64_mod_def)
  have whole: "joined (connective True) (map jtext ?xs) = ''CONTAINS($.a,7) && !(IS_NULL($.b) || IS_NULL($.a))''"
    by (simp add: connective_def atom_head_def atom_args_def)
  have sel: "el_path demo_expr_lib p v = (case json_get v (drop 1 p) of None \<Rightarrow> JsonNull | Some w \<Rightarrow> w)"
    "el_contains demo_expr_lib s t = str_has t s" for p v s t by (simp_all add: demo_expr_lib_def)
  have "map (\<lambda>v. jmeaning demo_expr_lib [''x''] v (JGroup False True ?xs)) [JsonObject [(''a'', JsonInt 7), (''b'', JsonInt 1)], JsonNull] =
      [Inr True, Inr False]"
    by (simp add: atom_meaning_def regex_values_def operator_holds_def calcNegative_def sel path_texts_def json_get_def json_asString_def
        json_size_def std_set_def to_string_int_def to_string.simps [of 7] to_string.simps [of 1] char_of_def bit_0)
  then show ?thesis
    using expressions_mean_their_trees [OF demo_expr_lib_ok wf, of "\<lambda>_. EVAL_MODE_UNDEFINED"] unfolding whole by metis
qed

text \<open>A group that does not compile is not reported: with a word instead of an atom in it, negated or not, the expression
  is compiled, and the group is false for every value, also when it is negated.\<close>

theorem broken_groups_are_not_reported:
  assumes "expr_lib_ok L" "list_all letter b" "b \<noteq> []"
  shows "\<exists>x. JSONEval_of L junk texts m ((if n then ''!('' else ''('') @ b @ '')'') = Some (texts, x) \<and> getIsCompiled x \<and>
    evaluations L texts vs x = Some (replicate (length vs) (Inr (calcNegative m False)))"
  using broken_group [OF assms] .

end
