(* ===== verification/Spec2Isabelle.thy ===== *)
theory Spec2Isabelle
  imports Encoders LineRecv_Facts Auth_Session Full_Auth_Facts Web_Includes Safe_Map Safe_Queue Thread_Pool Fast_Calls Http_Vars Json_Expr_Facts
begin

text \<open>
  A verification library of libMantids, a C++ framework for network services.

  \<^bold>\<open>The program and its parts.\<close> Data travel in binary containers (a list of chunks, a window on memory, a mapped file, a
  reference to a range of another container), which are streamed through stream objects and cut into pieces by
  subparsers; a protocol (lines, URL variables, HTTP) is a parser that decides which subparser reads next. Over these
  lie the remote procedure calls: a table of methods with the attributes an account needs for each, an account manager
  that validates passwords and keeps accounts, groups and attributes in SQL tables, and two servers. The web server
  takes a request, finds its session and its file, checks its tokens, runs methods and fills pages; the fast server
  sends frames of calls and answers in both directions over one socket, with a pool of worker threads. Sessions,
  domains and connections are in a map that threads share, tasks are in bounded queues.

  \<^bold>\<open>How the model follows the code.\<close> A class is a record of its members, a method a function on the record with the
  method's name; an \<^verbatim>\<open>enum\<close> is a datatype; a class with virtual functions is a record of functions. Unsigned integers are
  words where their bits matter and natural numbers below \<^verbatim>\<open>2 ^ 64\<close> with the wrap-around written out elsewhere
  (\<^verbatim>\<open>add64\<close>, \<^verbatim>\<open>sub64\<close> of Prelude). A result of type \<^verbatim>\<open>option\<close> is None where the code reads or writes outside its memory,
  throws through every caller, waits for another thread, or never returns; each definition says which. Boolean results
  and error codes of the code are values.

  \<^bold>\<open>Theories, and the files under src they model.\<close>

  Foundations:
  \<^item> Prelude: arithmetic of 64 bits, ranges of lists, collections of hints. No code of its own.
  \<^item> Std_Map: \<^verbatim>\<open>std::map\<close>, \<^verbatim>\<open>std::set\<close> and number texts of the C++ library, as association lists in the order of keys.
  \<^item> Interleaving: reachable states of a step relation, condition variables, and the counting argument that a
    sleeping thread has a helper that will wake it (locales \<^verbatim>\<open>machine_invariant\<close> and \<^verbatim>\<open>wake_ups\<close>).
  \<^item> Json: the values of JsonCpp and \<^verbatim>\<open>Helpers/mdz_hlp_functions/json.h\<close>, \<^verbatim>\<open>json.cpp\<close>.

  Helpers and memory (\<^verbatim>\<open>Helpers/mdz_hlp_functions\<close>, \<^verbatim>\<open>Memory/mdz_mem_vars\<close>):
  \<^item> Mem: \<^verbatim>\<open>mem.cpp\<close>, comparing, copying and moving memory 64 KB at a time. A pointer is an offset into a buffer.
  \<^item> Encoders: \<^verbatim>\<open>encoders.cpp\<close>, Base64 (plain, buffered, obfuscated), hexadecimal and URL texts.
  \<^item> Streams: \<^verbatim>\<open>streamableobject.cpp\<close>, \<^verbatim>\<open>streamablestring.cpp\<close>, full writes and their status.
  \<^item> Container_Base, Container_Contracts: \<^verbatim>\<open>b_base.cpp\<close> over the virtual functions, and the laws it relies on, as locales.
  \<^item> Container_Mem (\<^verbatim>\<open>b_mem.cpp\<close>), Container_Mmap (\<^verbatim>\<open>filemap.cpp\<close>, \<^verbatim>\<open>b_mmap.cpp\<close>), Container_Chunks and
    Container_Chunks_Facts (\<^verbatim>\<open>b_chunks.cpp\<close>), Container_Ref (\<^verbatim>\<open>b_ref.cpp\<close>): the four containers; each interprets the
    locales of Container_Contracts.
  \<^item> SubParser and SubParser_Facts (\<^verbatim>\<open>subparser.cpp\<close>), Parser (\<^verbatim>\<open>parser.cpp\<close>).

  Protocols (\<^verbatim>\<open>Protocols\<close>):
  \<^item> LineRecv, LineRecv_Facts: \<^verbatim>\<open>mdz_proto_linerecv\<close>, a parser with one subparser.
  \<^item> Http_Url: \<^verbatim>\<open>streamencoder_url.cpp\<close>, \<^verbatim>\<open>streamdecoder_url.cpp\<close>; Http_Vars: \<^verbatim>\<open>common_urlvars.cpp\<close>,
    \<^verbatim>\<open>common_urlvar_subparser.cpp\<close>, \<^verbatim>\<open>req_requestline.cpp\<close>; Http_Date: \<^verbatim>\<open>common_date.cpp\<close> with the parts of the C library's date formats it uses; Http_Headers: cookies, cache
    control, the security headers, version and status; Http_Files: the files and content types of \<^verbatim>\<open>httpv1_server.cpp\<close>. All in \<^verbatim>\<open>mdz_proto_http\<close>.
  \<^item> Json_Expr, Json_Expr_Facts: \<^verbatim>\<open>Scripts/mdz_scripts_jsonexpreval\<close>, boolean expressions over JSON values.

  Threads (\<^verbatim>\<open>Threads\<close>):
  \<^item> Safe_Map (\<^verbatim>\<open>map.h\<close>, \<^verbatim>\<open>mapitem.cpp\<close>), Safe_Queue (\<^verbatim>\<open>queue.h\<close>), Thread_Pool (\<^verbatim>\<open>threadpool.cpp\<close>): the operations, and the
    machine that runs them in any number of threads.

  Authentication (\<^verbatim>\<open>Auth/mdz_auth\<close>, \<^verbatim>\<open>Auth/mdz_auth_db\<close>):
  \<^item> Auth_Secret: stored secrets, their text form, the validation of an attempt. Auth_Session: \<^verbatim>\<open>session.cpp\<close>.
    Auth_Domains: \<^verbatim>\<open>domains.cpp\<close> on the safe map.
  \<^item> Auth_DB: the tables of \<^verbatim>\<open>manager_db.cpp\<close>; Auth_DB_Ops: the methods of \<^verbatim>\<open>manager_db_*.cpp\<close>; Auth_DB_Facts: what they
    keep.
  \<^item> Auth_Manager, Auth_Manager_Facts: \<^verbatim>\<open>manager.cpp\<close> over the virtual functions of a back end (locale of the back end's
    laws, interpreted on the tables).

  Remote procedure calls (\<^verbatim>\<open>RPC\<close>) and sockets (\<^verbatim>\<open>Network/mdz_net_sockets\<close>):
  \<^item> Rpc_Methods: \<^verbatim>\<open>methodsmanager.cpp\<close>, \<^verbatim>\<open>methodsattributes_map.cpp\<close>; Rpc_Authentication: \<^verbatim>\<open>authentication.cpp\<close>,
    \<^verbatim>\<open>multiauths.cpp\<close>.
  \<^item> Full_Auth, Full_Auth_Facts: the 78 methods of \<^verbatim>\<open>mdz_xrpc_templates/fullauth.cpp\<close> and their registration.
  \<^item> Web_Sessions (\<^verbatim>\<open>sessionsmanager.cpp\<close>), Resources_Filter (\<^verbatim>\<open>resourcesfilter.cpp\<close>), Web_Client, Web_Pages,
    Web_Requests and Web_Includes (\<^verbatim>\<open>webclienthandler.cpp\<close>: the API, the pages, a whole request, pages that include pages), in \<^verbatim>\<open>mdz_xrpc_webserver\<close>.
  \<^item> Socket_Stream: blocks, integers and strings over \<^verbatim>\<open>socket_streambase*.cpp\<close>; Fast_Rpc: frames, the loop of a
    connection, calls and answers of \<^verbatim>\<open>mdz_xrpc_fast/fastrpc.cpp\<close>; Fast_Calls: the machine of many callers and the
    thread that reads the answers.

  \<^bold>\<open>What the lemmas show.\<close>
  \<^item> Data: the memory routines agree with the plain ones; encoders have inverses; the containers refine lists of bytes,
    so that every operation of the base class reads, finds, compares and streams the same content whichever container
    holds it; the binary search for a chunk ends and is exact. A subparser cuts the stream at its delimiters, and the
    lines a line protocol delivers do not depend on how the input is split (within the limits on the size and the number
    of lines). Percent coding survives a round trip, and so do cookies, but for their date outside UTC. A compiled JSON
    expression has the value of its syntax tree.
  \<^item> Authentication: the tables keep their keys and references under every method; a confirmed, enabled superuser remains;
    an account is disabled after exactly the configured number of wrong passwords when there is another superuser; a
    password changes only with the old one; a session is fully logged in exactly when every required index was given and
    is current.
  \<^item> Threads: an element is not used after it is deleted, its destruction finishes once readers leave; the queue hands
    no item out twice or out of order, and while a consumer sleeps every item has a wake-up on its way, but for those whose
    notified consumer timed out; the queues of the pool lose and repeat no task, and while a worker sleeps every task has a
    wake-up on its way.
  \<^item> Web: a method is run only for a session with the login, the token and the attributes its registration asks for; a
    call to the API without a token changes nothing; a served file lies, once resolved, below the served directory and is
    accepted by the rules; the sessions of a user stay under their limit.
  \<^item> Fast calls: the loop of a connection refines the sequence of its messages however the bytes are split; a call
    reaches the other side and its answer comes back; answers reach the caller with their number, and the tables are
    empty when no caller waits.
  \<^item> Defects: several theorems state behaviour that the code can hardly intend (the error properties: a refused
    password that leaves a session open, pages that include themselves or each other, secrets without version, values that end a
    script, answers missed before the wait, truncated URL texts, loops over variables that never end).

  \<^bold>\<open>Bounds and fuel.\<close> No definition takes fuel. Loops are recursive on their list, or functions with a proved measure, or
  partial functions whose value is None when the loop does not return: the loops of Mem, Streams, the search of Container_Base and the
  search for a chunk, which lemmas show to return, and the include loop of a page and the loops of \<^verbatim>\<open>varCount\<close> and
  \<^verbatim>\<open>getValues\<close>, which need not. Bounds in hypotheses are those of the types: contents below \<^verbatim>\<open>2 ^ 64\<close> bytes, texts below
  \<^verbatim>\<open>2 ^ 32\<close> where the code counts in 32 bits, fewer than \<^verbatim>\<open>2 ^ 32\<close> open readers, fewer than \<^verbatim>\<open>2 ^ 64\<close> calls of a
  connection; the theorems say what happens beyond them where it matters.

  \<^bold>\<open>What is assumed.\<close>
  \<^item> SQL statements have the meaning SQLite gives them with foreign keys on; dates are counted in seconds, and a method
    sees one value of the clock.
  \<^item> A thread runs from one acquisition of a mutex to its release or wait in one step; any thread may take the next
    step; a sleeper may wake without cause. The operations of the web server are sequential: an operation that would
    wait for another thread has no result.
  \<^item> JsonCpp's reader and writer, Boost's regular expressions and text functions, the conversion of times (\<^verbatim>\<open>to_tm\<close>, \<^verbatim>\<open>mktime\<close>), OpenSSL, the random generator,
    the file system calls and what a socket sends or accepts are arguments. Where a law of them is used it is a
    named hypothesis, met by a concrete instance in the witness.

  \<^bold>\<open>Not modelled.\<close> The socket API, TLS and acceptors, process and file streams, the null objects, the database connectors
  and drivers, logs, service start-up, wrappers of mutexes and threads, the garbage collector and virtual interfaces:
  they are calls of the operating system or of a library with little logic between. Chained protocols (OpenSSL, zlib),
  MIME messages, the streaming of HTTP requests and answers, the remaining variable types (conversions by the C++
  library), the client application, and the experimental and extra directories. Within modelled files: text for logs, printing, the names kept for files, commented code and the
  branches for Windows.
\<close>

end
